(* ===== verification/Prelude.thy ===== *)
theory Prelude
  imports
    Complex_Main
    "HOL-Library.AList"
    "HOL-Library.Multiset"
    "HOL-Library.Char_ord"
    "HOL-Library.List_Lexorder"
    "HOL-Library.Product_Lexorder"
begin

text \<open>
  What every component of the model shares: Python's exceptions as values, \<open>str.strip\<close>,
  numbers that may be non-finite, time stamps that may lack a time zone, dictionaries as
  association lists in insertion order, and the lemmas about them that the component
  theories use through the simplifier and the collections declared here.
\<close>

named_theorems exn_simps \<open>evaluation of fallible steps\<close>
named_theorems guard_defs \<open>definitions of the validation predicates\<close>

section \<open>Exceptions and fallible computations\<close>

text \<open>
  The exception classes of the repository that the modelled code raises. A Python
  \<open>raise C("text")\<close> is \<open>Inl (Raised C ''text'')\<close>; the text is the constant part of
  the message. Built-in exceptions have constructors of their own.
\<close>

datatype exn_class =
    LiveTradingBlockedError
  | RestartsExhaustedError
  | OrderedMergeError
  | ReplayError | SnapshotRequired | SequenceGap | SequenceRegression | InvalidOrderBook
  | OkxReplayError | OkxSnapshotRequired | OkxSequenceGap
  | DeribitReplayError | DeribitSnapshotRequired | DeribitSequenceGap
  | BinanceReplayError | BinanceSnapshotRequired | BinanceSequenceGap
  | RawEventError
  | BybitDemoGatewayError
  | AutonomousDemoStateError | AutonomousDemoEntryNotAuthorizedError
  | PaperReconciliationError | DemoExecutionLagError
  | InvalidTransition
  | CycleLockHeld | CycleAborted | ConfirmationIndependenceError
  | PortfolioRiskStateError | ShadowAuditError | ShadowWorkStoreError | ShadowLoopFatalError
  | CoinbaseReplayError | CoinbaseSnapshotRequired | CoinbaseSequenceGap | CoinbaseSequenceDuplicate
  | CoinbaseSequenceRollback | NormalizationError

datatype exn =
    ValueError string
  | KeyError string
  | IntegrityError string
  | FileExistsError
  | OtherError string
  | Raised exn_class string

type_synonym 'a result = "exn + 'a"

definition bindE :: "'e + 'a \<Rightarrow> ('a \<Rightarrow> 'e + 'b) \<Rightarrow> 'e + 'b" where
  "bindE r k = (case r of Inl e \<Rightarrow> Inl e | Inr a \<Rightarrow> k a)"

definition require :: "bool \<Rightarrow> 'e \<Rightarrow> 'e + unit" where
  "require b e = (if b then Inr () else Inl e)"

fun is_ok :: "'e + 'a \<Rightarrow> bool" where
  "is_ok (Inl _) = False"
| "is_ok (Inr _) = True"

lemma bindE_simps [simp, exn_simps]:
  "bindE (Inl e) k = Inl e"
  "bindE (Inr a) k = k a"
  by (simp_all add: bindE_def)

lemma bindE_eq_Inr [exn_simps]: "bindE r k = Inr b \<longleftrightarrow> (\<exists>a. r = Inr a \<and> k a = Inr b)"
  by (cases r) auto

lemma bindE_eq_Inl [exn_simps]:
  "bindE r k = Inl e \<longleftrightarrow> r = Inl e \<or> (\<exists>a. r = Inr a \<and> k a = Inl e)"
  by (cases r) auto

lemma bindE_assoc: "bindE (bindE r f) g = bindE r (\<lambda>a. bindE (f a) g)"
  by (cases r) auto

lemma require_eq_Inr [simp, exn_simps]: "require b e = Inr u \<longleftrightarrow> b"
  by (simp add: require_def)

lemma require_eq_Inl [simp, exn_simps]: "require b e = Inl e' \<longleftrightarrow> \<not> b \<and> e' = e"
  by (auto simp: require_def)

lemma require_simps [simp]: "require True e = Inr ()" "require False e = Inl e"
  by (simp_all add: require_def)

lemma is_ok_iff: "is_ok r \<longleftrightarrow> (\<exists>a. r = Inr a)"
  by (cases r) auto

lemma is_ok_bindE: "is_ok (bindE r k) \<longleftrightarrow> (\<exists>a. r = Inr a \<and> is_ok (k a))"
  by (cases r) auto

lemma map_sum_eq:
  "map_sum f g r = Inr y \<longleftrightarrow> (\<exists>z. r = Inr z \<and> y = g z)"
  "map_sum f g r = Inl x \<longleftrightarrow> (\<exists>z. r = Inl z \<and> x = f z)"
  by (cases r; auto)+

lemma if_Inl_eq_Inr [simp]: "(if b then Inl e else r) = Inr a \<longleftrightarrow> \<not> b \<and> r = Inr a"
  by simp

text \<open>A fallible function mapped over a list; the first exception ends the loop.\<close>

fun mapE :: "('a \<Rightarrow> 'e + 'b) \<Rightarrow> 'a list \<Rightarrow> 'e + 'b list" where
  "mapE f [] = Inr []"
| "mapE f (x # xs) = bindE (f x) (\<lambda>y. bindE (mapE f xs) (\<lambda>ys. Inr (y # ys)))"

lemma mapE_eq_Inr: "mapE f xs = Inr ys \<longleftrightarrow> list_all2 (\<lambda>x y. f x = Inr y) xs ys"
  by (induction xs arbitrary: ys) (auto simp: bindE_eq_Inr list_all2_Cons1)

lemma mapE_set: "mapE f xs = Inr ys \<Longrightarrow> y \<in> set ys \<Longrightarrow> \<exists>x \<in> set xs. f x = Inr y"
  by (induction xs arbitrary: ys) (auto simp: bindE_eq_Inr)

lemma mapE_total:
  "(\<And>x. x \<in> set xs \<Longrightarrow> \<exists>y. f x = Inr y) \<Longrightarrow> \<exists>ys. mapE f xs = Inr ys"
  by (induction xs) fastforce+

section \<open>Lists\<close>

lemma find_append: "find P (xs @ ys) = (case find P xs of None \<Rightarrow> find P ys | Some y \<Rightarrow> Some y)"
  by (induction xs) auto

text \<open>A table whose rows with one key are rewritten.\<close>

lemma find_map_key:
  assumes "\<And>r. key (g r) = key r"
  shows "find (\<lambda>r. key r = j) (map (\<lambda>r. if key r = i then g r else r) rows) =
    (if j = i then map_option g (find (\<lambda>r. key r = j) rows) else find (\<lambda>r. key r = j) rows)"
  by (induction rows) (use assms in auto)

lemma find_key_iff:
  "distinct (map key rows) \<Longrightarrow> find (\<lambda>r. key r = i) rows = Some r \<longleftrightarrow> r \<in> set rows \<and> key r = i"
  by (induction rows) auto

lemma find_key_none: "find (\<lambda>r. key r = i) rows = None \<longleftrightarrow> i \<notin> key ` set rows"
  by (auto simp: find_None_iff)

lemma map_key_same:
  "(\<And>r. key (g r) = key r) \<Longrightarrow> map key (map (\<lambda>r. if key r = i then g r else r) rows) = map key rows"
  by simp

lemma map_filter_cong:
  "(\<And>x. x \<in> set xs \<Longrightarrow> f x = g x) \<Longrightarrow> List.map_filter f xs = List.map_filter g xs"
  by (induction xs) (auto simp: map_filter_simps split: option.splits)

section \<open>Strings\<close>

text \<open>
  \<open>str.strip()\<close> without argument, on the ASCII range: blanks are space, the control
  characters 9 to 13 and 28 to 31.
\<close>

definition is_space :: "char \<Rightarrow> bool" where
  "is_space c = (let n = (of_char c :: nat) in n = 32 \<or> 9 \<le> n \<and> n \<le> 13 \<or> 28 \<le> n \<and> n \<le> 31)"

definition py_strip :: "string \<Rightarrow> string" where
  "py_strip s = rev (dropWhile is_space (rev (dropWhile is_space s)))"

text \<open>\<open>not s.strip()\<close>, the test the validators use.\<close>

definition blank :: "string \<Rightarrow> bool" where
  "blank s = (py_strip s = [])"

lemma dropWhile_rev_Nil: "dropWhile P (rev xs) = [] \<longleftrightarrow> (\<forall>x \<in> set xs. P x)"
  by (simp add: dropWhile_eq_Nil_conv)

lemma blank_iff: "blank s \<longleftrightarrow> (\<forall>c \<in> set s. is_space c)"
proof -
  have "(\<forall>c \<in> set (dropWhile is_space s). is_space c) \<longleftrightarrow> (\<forall>c \<in> set s. is_space c)"
    by (induction s) auto
  then show ?thesis
    by (simp add: blank_def py_strip_def dropWhile_eq_Nil_conv)
qed

lemma not_blank_nonempty [dest]: "\<not> blank s \<Longrightarrow> s \<noteq> []"
  by (auto simp: blank_iff)

text \<open>\<open>str.upper()\<close> on ASCII.\<close>

definition upper_char :: "char \<Rightarrow> char" where
  "upper_char c = (let n = (of_char c :: nat) in if 97 \<le> n \<and> n \<le> 122 then char_of (n - 32) else c)"

definition py_upper :: "string \<Rightarrow> string" where
  "py_upper s = map upper_char s"

text \<open>\<open>str.lower()\<close> on ASCII, and \<open>s == s.strip()\<close>.\<close>

definition lower_char :: "char \<Rightarrow> char" where
  "lower_char c = (let n = (of_char c :: nat) in if 65 \<le> n \<and> n \<le> 90 then char_of (n + 32) else c)"

definition py_lower :: "string \<Rightarrow> string" where
  "py_lower s = map lower_char s"

definition trimmed :: "string \<Rightarrow> bool" where
  "trimmed s = (s \<noteq> [] \<and> py_strip s = s)"

section \<open>Numbers\<close>

text \<open>
  A Python \<open>float\<close> or \<open>Decimal\<close> that reaches a validator may be infinite or not a
  number. A finite one is an exact rational: the model computes without rounding. Values
  that passed a validator are plain \<open>rat\<close>.
\<close>

datatype num = Fin rat | PInf | NInf | NaN

fun isfinite :: "num \<Rightarrow> bool" where
  "isfinite (Fin _) = True"
| "isfinite _ = False"

fun num_val :: "num \<Rightarrow> rat" where
  "num_val (Fin r) = r"
| "num_val _ = 0"

text \<open>The comparisons of IEEE floats: every comparison with NaN is false.\<close>

fun num_le :: "num \<Rightarrow> num \<Rightarrow> bool" where
  "num_le (Fin a) (Fin b) = (a \<le> b)"
| "num_le NaN _ = False"
| "num_le _ NaN = False"
| "num_le NInf _ = True"
| "num_le _ PInf = True"
| "num_le _ _ = False"

fun num_lt :: "num \<Rightarrow> num \<Rightarrow> bool" where
  "num_lt (Fin a) (Fin b) = (a < b)"
| "num_lt NaN _ = False"
| "num_lt _ NaN = False"
| "num_lt NInf y = (y \<noteq> NInf)"
| "num_lt x PInf = (x \<noteq> PInf)"
| "num_lt _ _ = False"

lemma isfinite_iff: "isfinite x \<longleftrightarrow> (\<exists>r. x = Fin r)"
  by (cases x) auto

lemma isfinite_Fin_val: "isfinite x \<Longrightarrow> Fin (num_val x) = x"
  by (cases x) auto

text \<open>The two validation tests that occur everywhere.\<close>

definition finite_positive :: "num \<Rightarrow> bool" where
  [guard_defs]: "finite_positive x = (isfinite x \<and> \<not> num_le x (Fin 0))"

definition finite_nonneg :: "num \<Rightarrow> bool" where
  [guard_defs]: "finite_nonneg x = (isfinite x \<and> \<not> num_lt x (Fin 0))"

lemma finite_positive_iff [simp]: "finite_positive x \<longleftrightarrow> (\<exists>r. x = Fin r \<and> 0 < r)"
  by (cases x) (auto simp: finite_positive_def)

lemma finite_positive_Fin: "finite_positive (Fin r) \<longleftrightarrow> 0 < r"
  by simp

lemma finite_nonneg_iff [simp]: "finite_nonneg x \<longleftrightarrow> (\<exists>r. x = Fin r \<and> 0 \<le> r)"
  by (cases x) (auto simp: finite_nonneg_def)

text \<open>Python's \<open>round\<close>: to the nearest integer, halves to the even one.\<close>

definition py_round :: "rat \<Rightarrow> int" where
  "py_round x =
     (let f = \<lfloor>x\<rfloor>; d = x - of_int f in
      if d < 1 / 2 then f else if 1 / 2 < d then f + 1 else if even f then f else f + 1)"

text \<open>Python's \<open>math.isclose(a, b, rel_tol, abs_tol)\<close> on finite numbers.\<close>

definition isclose :: "rat \<Rightarrow> rat \<Rightarrow> rat \<Rightarrow> rat \<Rightarrow> bool" where
  "isclose rel_tol abs_tol a b =
     (a = b \<or> \<bar>a - b\<bar> \<le> max (rel_tol * max \<bar>a\<bar> \<bar>b\<bar>) abs_tol)"

lemma isclose_refl [simp]: "isclose r t a a"
  by (simp add: isclose_def)

lemma isclose_sym: "isclose r t a b = isclose r t b a"
  by (auto simp: isclose_def abs_minus_commute max.commute)

text \<open>The minimum of a non-empty sequence of numbers.\<close>

fun min_list_from :: "rat \<Rightarrow> rat list \<Rightarrow> rat" where
  "min_list_from m [] = m"
| "min_list_from m (x # xs) = min_list_from (min m x) xs"

lemma min_list_from_le_start: "min_list_from m xs \<le> m"
proof (induction xs arbitrary: m)
  case (Cons x xs)
  then have "min_list_from (min m x) xs \<le> min m x" .
  then show ?case by simp
qed simp

lemma min_list_from_le: "x \<in> set xs \<Longrightarrow> min_list_from m xs \<le> x"
proof (induction xs arbitrary: m)
  case (Cons y xs)
  have "min_list_from (min m y) xs \<le> min m y"
    by (rule min_list_from_le_start)
  with Cons show ?case by auto
qed simp

lemma min_list_from_in: "min_list_from m xs = m \<or> min_list_from m xs \<in> set xs"
proof (induction xs arbitrary: m)
  case (Cons y xs)
  from Cons [of "min m y"] show ?case by (auto simp: min_def split: if_splits)
qed simp

section \<open>Decimals as they are stored\<close>

text \<open>
  A \<open>Decimal\<close> with its representation: sign, digits and exponent. \<open>str\<close> and
  \<open>Decimal\<close> are inverse on it, so two stored texts are equal exactly when the
  representations are; \<open>==\<close> compares the values instead.
\<close>

definition power10 :: "int \<Rightarrow> rat" where
  "power10 k = (if 0 \<le> k then 10 ^ nat k else 1 / 10 ^ nat (- k))"

datatype pydecimal = Dec bool nat int | DecInf bool | DecNaN

fun dec_num :: "pydecimal \<Rightarrow> num" where
  "dec_num (Dec neg digits e) = Fin ((if neg then - 1 else 1) * of_nat digits * power10 e)"
| "dec_num (DecInf neg) = (if neg then NInf else PInf)"
| "dec_num DecNaN = NaN"

definition dec_eq :: "pydecimal \<Rightarrow> pydecimal \<Rightarrow> bool" where
  "dec_eq a b = (dec_num a = dec_num b \<and> dec_num a \<noteq> NaN)"

definition dec_opt_eq :: "pydecimal option \<Rightarrow> pydecimal option \<Rightarrow> bool" where
  "dec_opt_eq a b = (case (a, b) of (None, None) \<Rightarrow> True | (Some x, Some y) \<Rightarrow> dec_eq x y | _ \<Rightarrow> False)"

definition dec_positive :: "pydecimal \<Rightarrow> bool" where
  "dec_positive d = finite_positive (dec_num d)"

lemma dec_eq_refl: "dec_positive d \<Longrightarrow> dec_eq d d"
  by (auto simp: dec_positive_def dec_eq_def)

section \<open>Time\<close>

text \<open>
  A \<open>datetime\<close> is naive or aware. An aware one is its instant, in microseconds since the
  epoch (\<open>astimezone(UTC)\<close> keeps the instant); \<open>.date()\<close> of the UTC value is the
  number of whole days.
\<close>

datatype pydatetime = Naive int | Aware int

definition utc_of :: "string \<Rightarrow> pydatetime \<Rightarrow> int result" where
  "utc_of msg t = (case t of Naive _ \<Rightarrow> Inl (ValueError msg) | Aware i \<Rightarrow> Inr i)"

definition utc_date :: "int \<Rightarrow> int" where
  "utc_date t = t div 86400000000"

definition seconds :: "int \<Rightarrow> int" where
  "seconds s = s * 1000000"

lemma utc_of_simps [simp]:
  "utc_of msg (Naive t) = Inl (ValueError msg)"
  "utc_of msg (Aware t) = Inr t"
  by (simp_all add: utc_of_def)

lemma utc_of_eq_Inr: "utc_of msg t = Inr i \<longleftrightarrow> t = Aware i"
  by (cases t) auto

lemma utc_date_mono: "s \<le> t \<Longrightarrow> utc_date s \<le> utc_date t"
  by (simp add: utc_date_def zdiv_mono1)

section \<open>Dictionaries\<close>

text \<open>
  A \<open>dict\<close> is an association list with distinct keys in insertion order:
  \<open>AList.update\<close> overwrites in place or appends, as \<open>d[k] = v\<close> does, \<open>AList.delete\<close>
  is \<open>d.pop(k, None)\<close>, \<open>map_of\<close> is \<open>d.get\<close>.
\<close>

type_synonym ('k, 'v) dict = "('k \<times> 'v) list"

abbreviation dict_ok :: "('k, 'v) dict \<Rightarrow> bool" where
  "dict_ok d \<equiv> distinct (map fst d)"

lemma update_new: "k \<notin> fst ` set d \<Longrightarrow> AList.update k v d = d @ [(k, v)]"
  by (induction d) auto

lemma delete_absent: "k \<notin> fst ` set d \<Longrightarrow> AList.delete k d = d"
  by (induction d) auto

lemma set_delete: "set (AList.delete k d) = {p \<in> set d. fst p \<noteq> k}"
  by (auto simp: AList.delete_eq)

lemma map_of_None_iff_key: "map_of d k = None \<longleftrightarrow> k \<notin> fst ` set d"
  by (simp add: map_of_eq_None_iff)

lemma dict_ok_mem: "dict_ok d \<Longrightarrow> (k, v) \<in> set d \<longleftrightarrow> map_of d k = Some v"
  by (metis map_of_SomeD map_of_is_SomeI)

lemma set_update_subset: "set (AList.update k v d) \<subseteq> insert (k, v) (set d)"
  by (induction d) auto

lemma length_delete_present:
  "dict_ok d \<Longrightarrow> k \<in> fst ` set d \<Longrightarrow> length d = Suc (length (AList.delete k d))"
proof (induction d)
  case (Cons p d)
  then show ?case
    by (cases "fst p = k") (auto simp: delete_absent)
qed simp

text \<open>
  \<open>d.setdefault(k, v)\<close> read back, a counter \<open>d[k] = d.get(k, 0) + 1\<close>, and a predicate on
  all values.
\<close>

definition dict_default :: "('k, 'v) dict \<Rightarrow> 'k \<Rightarrow> 'v \<Rightarrow> 'v" where
  "dict_default d k v = (case map_of d k of None \<Rightarrow> v | Some x \<Rightarrow> x)"

definition dict_count :: "('k, int) dict \<Rightarrow> 'k \<Rightarrow> ('k, int) dict" where
  "dict_count d k = AList.update k (dict_default d k 0 + 1) d"

definition dict_all :: "('v \<Rightarrow> bool) \<Rightarrow> ('k, 'v) dict \<Rightarrow> bool" where
  "dict_all P d = list_all (\<lambda>p. P (snd p)) d"

lemma dict_all_Nil [simp]: "dict_all P []"
  by (simp add: dict_all_def)

lemma dict_all_iff: "dict_all P d \<longleftrightarrow> (\<forall>p \<in> set d. P (snd p))"
  by (simp add: dict_all_def list_all_iff)

lemma dict_all_update: "dict_all P d \<Longrightarrow> P v \<Longrightarrow> dict_all P (AList.update k v d)"
  using set_update_subset [of k v d] by (auto simp: dict_all_iff)

lemma dict_all_delete: "dict_all P d \<Longrightarrow> dict_all P (AList.delete k d)"
  by (auto simp: dict_all_iff set_delete)

lemma dict_all_lookup: "dict_all P d \<Longrightarrow> map_of d k = Some v \<Longrightarrow> P v"
  by (auto simp: dict_all_iff dest!: map_of_SomeD)

lemma dict_all_default: "dict_all P d \<Longrightarrow> P v \<Longrightarrow> P (dict_default d k v)"
  by (cases "map_of d k") (auto simp: dict_default_def elim: dict_all_lookup)

text \<open>Sums over the values of a dictionary.\<close>

definition sum_values :: "('v \<Rightarrow> rat) \<Rightarrow> ('k, 'v) dict \<Rightarrow> rat" where
  "sum_values f d = sum_list (map (\<lambda>p. f (snd p)) d)"

lemma sum_values_Nil [simp]: "sum_values f [] = 0"
  by (simp add: sum_values_def)

lemma sum_values_Cons [simp]: "sum_values f (p # d) = f (snd p) + sum_values f d"
  by (simp add: sum_values_def)

lemma sum_values_append [simp]: "sum_values f (d @ e) = sum_values f d + sum_values f e"
  by (simp add: sum_values_def)

lemma sum_values_nonneg: "(\<And>v. v \<in> snd ` set d \<Longrightarrow> 0 \<le> f v) \<Longrightarrow> 0 \<le> sum_values f d"
  by (induction d) (auto intro!: add_nonneg_nonneg)

lemma sum_values_update_new:
  "k \<notin> fst ` set d \<Longrightarrow> sum_values f (AList.update k v d) = sum_values f d + f v"
  by (simp add: update_new)

lemma sum_values_delete:
  "dict_ok d \<Longrightarrow> map_of d k = Some v \<Longrightarrow> sum_values f (AList.delete k d) = sum_values f d - f v"
proof (induction d)
  case (Cons p d)
  show ?case
  proof (cases "fst p = k")
    case True
    with Cons.prems have "snd p = v" "k \<notin> fst ` set d"
      by (cases p; auto)+
    with True show ?thesis
      by (simp add: delete_absent)
  next
    case False
    with Cons show ?thesis
      by (cases p) auto
  qed
qed simp

lemma sum_values_mono:
  "(\<And>v. v \<in> snd ` set d \<Longrightarrow> f v \<le> g v) \<Longrightarrow> sum_values f d \<le> sum_values g d"
  by (induction d) (auto intro!: add_mono)

lemma sum_values_filter:
  "sum_list (map f (filter P (map snd d))) = sum_values (\<lambda>v. if P v then f v else 0) d"
  by (induction d) auto

text \<open>Decimal texts of integers, as \<open>str\<close> and f-strings write them.\<close>

fun show_nat :: "nat \<Rightarrow> string" where
  "show_nat n = (if n < 10 then [char_of (48 + n)] else show_nat (n div 10) @ [char_of (48 + n mod 10)])"

declare show_nat.simps [simp del]

definition show_int :: "int \<Rightarrow> string" where
  "show_int i = (if i < 0 then ''-'' @ show_nat (nat (- i)) else show_nat (nat i))"

end
