(* ===== verification/Ordered_Merge.thy ===== *)
theory Ordered_Merge
  imports Prelude
begin

text \<open>
  Model of \<open>src/data/ordered_merge.py\<close>: the streaming k-way merge of part files, with
  admission control by each source's lower bound and a per-connection sequence check on
  emission. A generator's behaviour is the list of rows it yields and the exception, if any,
  that ends it. The lemmas show that the output is globally ordered, loses and repeats no
  row, and accepts exactly the streams whose connections never regress.
\<close>

section \<open>Keys\<close>

text \<open>
  A field of an \<open>OrderKey\<close> tuple. The module requires fields of one position to have one
  type; integers and strings are the types the callers use. Tuples compare
  lexicographically. An order key has a first field (the code reads \<open>heap[0][0][0]\<close>).
\<close>

datatype field = FInt int | FStr string

instantiation field :: linorder
begin

fun less_eq_field :: "field \<Rightarrow> field \<Rightarrow> bool" where
  "less_eq_field (FInt a) (FInt b) = (a \<le> b)"
| "less_eq_field (FInt _) (FStr _) = True"
| "less_eq_field (FStr _) (FInt _) = False"
| "less_eq_field (FStr a) (FStr b) = (a \<le> b)"

definition less_field :: "field \<Rightarrow> field \<Rightarrow> bool" where
  "less_field a b = (a \<le> b \<and> \<not> b \<le> a)"

instance
proof
  fix x y z :: field
  show "(x < y) = (x \<le> y \<and> \<not> y \<le> x)" by (rule less_field_def)
  show "x \<le> x" by (cases x) auto
  show "x \<le> y \<Longrightarrow> y \<le> z \<Longrightarrow> x \<le> z" by (cases x; cases y; cases z) auto
  show "x \<le> y \<Longrightarrow> y \<le> x \<Longrightarrow> x = y" by (cases x; cases y) auto
  show "x \<le> y \<or> y \<le> x" by (cases x; cases y) auto
qed

end

lemma less_field_simps [simp]:
  "FInt a < FInt b \<longleftrightarrow> a < b"
  "FInt a < FStr t"
  "\<not> FStr s < FInt b"
  "FStr s < FStr t \<longleftrightarrow> s < t"
  by (auto simp: less_field_def)

type_synonym order_key = "field \<times> field list"

text \<open>The key functions a caller supplies.\<close>

record 'r merge_keys =
  connection_id :: "'r \<Rightarrow> string"
  row_order_key :: "'r \<Rightarrow> order_key"
  connection_sequence_key :: "('r \<Rightarrow> field list) option"
  connection_tie_break_key :: "('r \<Rightarrow> field) option"

definition sequence_key :: "'r merge_keys \<Rightarrow> 'r \<Rightarrow> field list" where
  "sequence_key K r =
     (case connection_sequence_key K of
        Some f \<Rightarrow> f r
      | None \<Rightarrow> fst (row_order_key K r) # snd (row_order_key K r))"

text \<open>A source: its manifest bound and the rows its iterator yields once opened.\<close>

record 'r merge_source =
  lower_bound :: field
  source_rows :: "'r list"

text \<open>
  A heap entry is the tuple \<open>(order_key(row), index, row)\<close>; the iterator that
  \<open>iterators[index]\<close> holds as long as the entry is in the heap is kept with it.
\<close>

record 'r heap_entry =
  entry_key :: order_key
  entry_index :: nat
  entry_row :: 'r
  entry_rest :: "'r list"

section \<open>The heap\<close>

text \<open>
  The contract of \<open>heapq\<close> the merge relies on: pushing adds an entry, and the entry at
  the front has the least priority.
\<close>

locale min_heap =
  fixes prio :: "'e \<Rightarrow> 'p::linorder"
    and push :: "'e \<Rightarrow> 'e list \<Rightarrow> 'e list"
    and invar :: "'e list \<Rightarrow> bool"
  assumes invar_empty: "invar []"
    and invar_push: "invar h \<Longrightarrow> invar (push e h)"
    and invar_pop: "invar (e # h) \<Longrightarrow> invar h"
    and mset_push: "mset (push e h) = add_mset e (mset h)"
    and front_least: "invar (e # h) \<Longrightarrow> f \<in> set h \<Longrightarrow> prio e \<le> prio f"
begin

lemma set_push: "set (push e h) = insert e (set h)"
  using mset_push [of e h] by (metis set_mset_add_mset_insert set_mset_mset)

lemma push_nonempty: "push e h \<noteq> []"
  using set_push [of e h] by auto

lemma front_push_le: "invar h \<Longrightarrow> push e h = f # g \<Longrightarrow> prio f \<le> prio e"
  using front_least [of f g e] invar_push [of h e] set_push [of e h] by fastforce

lemma sum_push: "sum_list (map w (push e h)) = (w e :: nat) + sum_list (map w h)"
proof -
  have "sum_mset (image_mset w (mset (push e h))) = w e + sum_mset (image_mset w (mset h))"
    by (simp add: mset_push)
  then show ?thesis by (metis mset_map sum_mset_sum_list)
qed

end

definition entry_prio :: "'r heap_entry \<Rightarrow> order_key \<times> nat" where
  "entry_prio e = (entry_key e, entry_index e)"

definition heappush :: "'r heap_entry \<Rightarrow> 'r heap_entry list \<Rightarrow> 'r heap_entry list" where
  "heappush e h = insort_key entry_prio e h"

definition heap_invar :: "'r heap_entry list \<Rightarrow> bool" where
  "heap_invar h = sorted (map entry_prio h)"

interpretation hq: min_heap entry_prio heappush heap_invar
  by unfold_locales
    (auto simp: heap_invar_def heappush_def sorted_insort_key)

lemma entry_prio_le_key: "entry_prio e \<le> entry_prio f \<Longrightarrow> entry_key e \<le> entry_key f"
  by (cases "entry_key e"; cases "entry_key f") (auto simp: entry_prio_def)

section \<open>The sequence check\<close>

type_synonym last_sequence = "string \<rightharpoonup> field list \<times> field option"

text \<open>
  \<open>any(field < previous_field for ... in zip(key, previous_key, strict=True))\<close>: the first
  smaller field answers; running off one tuple before the other raises.
\<close>

fun any_field_regressed :: "field list \<Rightarrow> field list \<Rightarrow> bool result" where
  "any_field_regressed [] [] = Inr False"
| "any_field_regressed (x # xs) (y # ys) = (if x < y then Inr True else any_field_regressed xs ys)"
| "any_field_regressed _ _ = Inl (ValueError ''zip() argument 2 has a different length'')"

definition check_sequence :: "'r merge_keys \<Rightarrow> last_sequence \<Rightarrow> 'r \<Rightarrow> last_sequence result" where
  "check_sequence K seen row =
     (let conn = connection_id K row;
          key = sequence_key K row;
          tie_break = map_option (\<lambda>f. f row) (connection_tie_break_key K);
          seen' = seen(conn \<mapsto> (key, tie_break))
      in case seen conn of
           None \<Rightarrow> Inr seen'
         | Some (previous_key, previous_tie_break) \<Rightarrow>
             if key = previous_key
             then (case (tie_break, previous_tie_break) of
                     (Some t, Some p) \<Rightarrow>
                       if t \<le> p then Inl (Raised OrderedMergeError ''row duplicated'') else Inr seen'
                   | _ \<Rightarrow> Inl (Raised OrderedMergeError ''row duplicated''))
             else bindE (any_field_regressed key previous_key) (\<lambda>regressed.
               if regressed then Inl (Raised OrderedMergeError ''row order regressed'')
               else Inr seen'))"

section \<open>The merge loop\<close>

fun admit :: "'r merge_keys \<Rightarrow> 'r merge_source list \<Rightarrow> 'r heap_entry list \<Rightarrow> nat
    \<Rightarrow> 'r merge_source list \<times> 'r heap_entry list \<times> nat" where
  "admit K [] h next_index = ([], h, next_index)"
| "admit K (s # pending) h next_index =
     (if (case h of [] \<Rightarrow> True | e # _ \<Rightarrow> lower_bound s \<le> fst (entry_key e))
      then (case source_rows s of
              [] \<Rightarrow> admit K pending h (Suc next_index)
            | first # rest \<Rightarrow>
                admit K pending
                  (heappush \<lparr>entry_key = row_order_key K first, entry_index = next_index,
                      entry_row = first, entry_rest = rest\<rparr> h)
                  (Suc next_index))
      else (s # pending, h, next_index))"

definition advance :: "'r merge_keys \<Rightarrow> 'r heap_entry \<Rightarrow> 'r heap_entry list \<Rightarrow> 'r heap_entry list" where
  "advance K e h =
     (case entry_rest e of
        [] \<Rightarrow> h
      | nxt # rest \<Rightarrow>
          heappush \<lparr>entry_key = row_order_key K nxt, entry_index = entry_index e,
            entry_row = nxt, entry_rest = rest\<rparr> h)"

definition entry_rows :: "'r heap_entry \<Rightarrow> 'r list" where
  "entry_rows e = entry_row e # entry_rest e"

definition outstanding :: "'r merge_source list \<Rightarrow> 'r heap_entry list \<Rightarrow> 'r multiset" where
  "outstanding p h =
     mset (concat (map source_rows p)) + sum_list (map (\<lambda>e. mset (entry_rows e)) h)"

lemma sum_mset_push:
  "sum_list (map (\<lambda>e. mset (entry_rows e)) (heappush e h)) =
     mset (entry_rows e) + sum_list (map (\<lambda>e. mset (entry_rows e)) h)"
proof -
  have "sum_mset (image_mset (\<lambda>e. mset (entry_rows e)) (mset (heappush e h))) =
      mset (entry_rows e) + sum_mset (image_mset (\<lambda>e. mset (entry_rows e)) (mset h))"
    by (simp add: hq.mset_push)
  then show ?thesis by (metis mset_map sum_mset_sum_list)
qed

lemma outstanding_simps:
  "outstanding [] [] = {#}"
  "outstanding (s # p) h = mset (source_rows s) + outstanding p h"
  "outstanding p (e # h) = mset (entry_rows e) + outstanding p h"
  "outstanding p (heappush e h) = mset (entry_rows e) + outstanding p h"
  by (simp_all add: outstanding_def sum_mset_push ac_simps)

lemma admit_outstanding:
  "admit K p h i = (p', h', i') \<Longrightarrow> outstanding p' h' = outstanding p h"
proof (induction K p h i rule: admit.induct)
  case (2 K s pending h i)
  show ?case
  proof (cases "case h of [] \<Rightarrow> True | e # _ \<Rightarrow> lower_bound s \<le> fst (entry_key e)")
    case True
    note adm = this
    show ?thesis
    proof (cases "source_rows s")
      case Nil
      with 2(1) [OF adm Nil] 2(3) adm show ?thesis
        by (simp add: outstanding_simps)
    next
      case (Cons r rs)
      with 2(2) [OF adm Cons] 2(3) adm show ?thesis
        by (simp add: outstanding_simps entry_rows_def)
    qed
  next
    case False
    with 2(3) show ?thesis by simp
  qed
qed simp

lemma advance_outstanding:
  "outstanding p (e # h) = add_mset (entry_row e) (outstanding p (advance K e h))"
  by (cases "entry_rest e") (simp_all add: advance_def outstanding_simps entry_rows_def)

function merge_loop :: "'r merge_keys \<Rightarrow> 'r merge_source list \<Rightarrow> 'r heap_entry list \<Rightarrow> nat
    \<Rightarrow> last_sequence \<Rightarrow> 'r list \<times> exn option" where
  "merge_loop K pending h next_index seen =
     (case admit K pending h next_index of
        (pending', [], next_index') \<Rightarrow> ([], None)
      | (pending', e # h', next_index') \<Rightarrow>
          (case check_sequence K seen (entry_row e) of
             Inl ex \<Rightarrow> ([], Some ex)
           | Inr seen' \<Rightarrow>
               (case merge_loop K pending' (advance K e h') next_index' seen' of
                  (out, err) \<Rightarrow> (entry_row e # out, err))))"
  by pat_completeness auto
termination
proof (relation "measure (\<lambda>(K, p, h, i, l). size (outstanding p h))", goal_cases)
  case 1
  show ?case by simp
next
  case (2 K p h i l p' y h2 i' e h' l')
  then have "admit K p h i = (p', e # h', i')" by simp
  from admit_outstanding [OF this]
  have "outstanding p h = add_mset (entry_row e) (outstanding p' (advance K e h'))"
    using advance_outstanding [of p' e h' K] by simp
  then show ?case by simp
qed

declare merge_loop.simps [simp del]

definition merge_rows_by_connection ::
    "'r merge_keys \<Rightarrow> 'r merge_source list \<Rightarrow> 'r list \<times> exn option" where
  "merge_rows_by_connection K sources =
     merge_loop K (sort_key lower_bound sources) [] 0 Map.empty"

section \<open>Well-formed inputs and loop states\<close>

text \<open>
  What the docstring of \<open>MergeSource\<close> asks of a source: its rows are in key order and no
  row's leading field is below the manifest bound.
\<close>

definition source_ok :: "'r merge_keys \<Rightarrow> 'r merge_source \<Rightarrow> bool" where
  "source_ok K s \<longleftrightarrow>
     sorted (map (row_order_key K) (source_rows s)) \<and>
     (\<forall>r \<in> set (source_rows s). lower_bound s \<le> fst (row_order_key K r))"

definition pending_ok :: "'r merge_keys \<Rightarrow> 'r merge_source list \<Rightarrow> bool" where
  "pending_ok K p \<longleftrightarrow> sorted (map lower_bound p) \<and> (\<forall>s \<in> set p. source_ok K s)"

definition entry_ok :: "'r merge_keys \<Rightarrow> 'r heap_entry \<Rightarrow> bool" where
  "entry_ok K e \<longleftrightarrow>
     entry_key e = row_order_key K (entry_row e) \<and> sorted (map (row_order_key K) (entry_rows e))"

definition heap_ok :: "'r merge_keys \<Rightarrow> 'r heap_entry list \<Rightarrow> bool" where
  "heap_ok K h \<longleftrightarrow> heap_invar h \<and> (\<forall>e \<in> set h. entry_ok K e)"

lemma pending_ok_Cons: "pending_ok K (s # p) \<Longrightarrow> pending_ok K p \<and> source_ok K s"
  by (auto simp: pending_ok_def)

lemma heap_ok_push: "heap_ok K h \<Longrightarrow> entry_ok K e \<Longrightarrow> heap_ok K (heappush e h)"
  by (auto simp: heap_ok_def hq.set_push intro: hq.invar_push)

lemma heap_ok_Cons: "heap_ok K (e # h) \<Longrightarrow> heap_ok K h \<and> entry_ok K e"
  by (auto simp: heap_ok_def dest: hq.invar_pop)

lemma heap_ok_advance: "heap_ok K (e # h) \<Longrightarrow> heap_ok K (advance K e h)"
  by (auto simp: advance_def entry_ok_def entry_rows_def split: list.split
      intro!: heap_ok_push dest!: heap_ok_Cons)

lemma source_entry_ok:
  "source_ok K s \<Longrightarrow> source_rows s = r # rs \<Longrightarrow>
   entry_ok K \<lparr>entry_key = row_order_key K r, entry_index = i, entry_row = r, entry_rest = rs\<rparr>"
  by (auto simp: source_ok_def entry_ok_def entry_rows_def)

lemma admit_ok:
  assumes "admit K p h i = (p', h', i')" "pending_ok K p" "heap_ok K h"
  shows "pending_ok K p' \<and> heap_ok K h'"
  using assms
proof (induction K p h i rule: admit.induct)
  case (2 K s pending h i)
  have s: "pending_ok K pending" "source_ok K s"
    using pending_ok_Cons [OF 2(4)] by simp_all
  show ?case
  proof (cases "case h of [] \<Rightarrow> True | e # _ \<Rightarrow> lower_bound s \<le> fst (entry_key e)")
    case True
    note adm = this
    show ?thesis
    proof (cases "source_rows s")
      case Nil
      with 2(1) [OF adm Nil] 2(3,5) adm s show ?thesis by simp
    next
      case (Cons r rs)
      with 2(2) [OF adm Cons] 2(3,5) adm s show ?thesis
        by (simp add: heap_ok_push source_entry_ok)
    qed
  next
    case False
    with 2(3-5) show ?thesis by simp
  qed
qed auto

text \<open>Admission stops only at a source that cannot hold the next row.\<close>

lemma admit_stops:
  "admit K p h i = (p', h', i') \<Longrightarrow>
   p' = [] \<or> (\<exists>e g. h' = e # g \<and> fst (entry_key e) < lower_bound (hd p'))"
proof (induction K p h i rule: admit.induct)
  case (2 K s pending h i)
  show ?case
  proof (cases "case h of [] \<Rightarrow> True | e # _ \<Rightarrow> lower_bound s \<le> fst (entry_key e)")
    case True
    note adm = this
    show ?thesis
    proof (cases "source_rows s")
      case Nil
      with 2(1) [OF adm Nil] 2(3) adm show ?thesis by simp
    next
      case (Cons r rs)
      with 2(2) [OF adm Cons] 2(3) adm show ?thesis by simp
    qed
  next
    case False
    with 2(3) show ?thesis by (auto split: list.splits)
  qed
qed simp

lemma admit_empty: "admit K p h i = (p', [], i') \<Longrightarrow> p' = []"
  using admit_stops [of K p h i p' "[]" i'] by auto

lemma sum_list_mset_mem:
  "x \<in># sum_list (map f xs) \<longleftrightarrow> (\<exists>y \<in> set xs. x \<in># f y)"
  by (induction xs) auto

lemma mem_outstanding:
  "r \<in># outstanding p h \<longleftrightarrow>
     (\<exists>s \<in> set p. r \<in> set (source_rows s)) \<or> (\<exists>e \<in> set h. r \<in> set (entry_rows e))"
  by (auto simp: outstanding_def sum_list_mset_mem)

lemma pending_rows_above:
  assumes "pending_ok K p" "k < lower_bound (hd p)" "s \<in> set p" "r \<in> set (source_rows s)"
  shows "k < fst (row_order_key K r)"
proof -
  have "lower_bound (hd p) \<le> lower_bound s"
    using assms(1,3) by (cases p) (auto simp: pending_ok_def)
  also have "\<dots> \<le> fst (row_order_key K r)"
    using assms by (auto simp: pending_ok_def source_ok_def)
  finally show ?thesis using assms(2) by simp
qed

lemma entry_key_least:
  assumes "entry_ok K e" "r \<in> set (entry_rows e)"
  shows "entry_key e \<le> row_order_key K r"
  using assms by (auto simp: entry_ok_def entry_rows_def)

text \<open>The popped row is least among everything not yet emitted.\<close>

lemma popped_least:
  assumes ad: "admit K p h i = (p', e # h', i')" and ok: "pending_ok K p" "heap_ok K h"
    and r: "r \<in># outstanding p' (e # h')"
  shows "row_order_key K (entry_row e) \<le> row_order_key K r"
proof -
  have ok': "pending_ok K p'" "heap_ok K (e # h')"
    using admit_ok [OF ad ok] by simp_all
  have e: "entry_ok K e" and key: "entry_key e = row_order_key K (entry_row e)"
    using ok'(2) by (auto simp: heap_ok_def entry_ok_def)
  from r consider
      (pending) s where "s \<in> set p'" "r \<in> set (source_rows s)"
    | (heap) f where "f \<in> set (e # h')" "r \<in> set (entry_rows f)"
    by (auto simp: mem_outstanding)
  then show ?thesis
  proof cases
    case pending
    then have "fst (entry_key e) < lower_bound (hd p')"
      using admit_stops [OF ad] by auto
    then have "fst (entry_key e) < fst (row_order_key K r)"
      by (rule pending_rows_above [OF ok'(1) _ pending])
    then show ?thesis using key
      by (cases "row_order_key K r"; cases "row_order_key K (entry_row e)") auto
  next
    case heap
    have "entry_key e \<le> entry_key f"
      using heap(1) ok'(2) hq.front_least [of e h' f] entry_prio_le_key
      by (auto simp: heap_ok_def)
    also have "\<dots> \<le> row_order_key K r"
      using heap ok'(2) by (intro entry_key_least) (auto simp: heap_ok_def)
    finally show ?thesis using key by simp
  qed
qed

section \<open>Correctness of the loop\<close>

text \<open>One unfolding of the loop, as cases.\<close>

lemma merge_loop_cases:
  assumes "merge_loop K p h i seen = (out, err)"
  obtains (finished) i' where "admit K p h i = ([], [], i')" "out = []" "err = None"
  | (failed) p' e h' i' ex where "admit K p h i = (p', e # h', i')"
      "check_sequence K seen (entry_row e) = Inl ex" "out = []" "err = Some ex"
  | (emitted) p' e h' i' seen' out' where "admit K p h i = (p', e # h', i')"
      "check_sequence K seen (entry_row e) = Inr seen'"
      "merge_loop K p' (advance K e h') i' seen' = (out', err)" "out = entry_row e # out'"
proof -
  obtain p' g i' where ad: "admit K p h i = (p', g, i')"
    by (cases "admit K p h i") auto
  show thesis
  proof (cases g)
    case Nil
    with ad have "p' = []" by (auto dest: admit_empty)
    with Nil assms ad finished show ?thesis
      by (auto simp: merge_loop.simps [of K p h i])
  next
    case (Cons e h')
    with assms ad failed emitted show ?thesis
      by (auto simp: merge_loop.simps [of K p h i] split: sum.splits prod.splits)
  qed
qed

lemma merge_loop_mset:
  "merge_loop K p h i seen = (out, err) \<Longrightarrow>
   mset out \<subseteq># outstanding p h \<and> (err = None \<longleftrightarrow> mset out = outstanding p h)"
proof (induction "size (outstanding p h)" arbitrary: p h i seen out rule: less_induct)
  case less
  from less.prems show ?case
  proof (cases rule: merge_loop_cases)
    case (finished i')
    have "outstanding p h = {#}"
      using admit_outstanding [OF finished(1)] outstanding_simps(1) by metis
    with finished show ?thesis by simp
  next
    case (failed p' e h' i' ex)
    then have "outstanding p h = add_mset (entry_row e) (outstanding p' (advance K e h'))"
      using admit_outstanding [OF failed(1)] advance_outstanding [of p' e h' K] by simp
    with failed show ?thesis by simp
  next
    case (emitted p' e h' i' seen' out')
    then have o: "outstanding p h = add_mset (entry_row e) (outstanding p' (advance K e h'))"
      using admit_outstanding [OF emitted(1)] advance_outstanding [of p' e h' K] by simp
    then show ?thesis
      using less.hyps [OF _ emitted(3)] emitted(4) by simp
  qed
qed

lemma merge_loop_sorted:
  "merge_loop K p h i seen = (out, err) \<Longrightarrow> pending_ok K p \<Longrightarrow> heap_ok K h \<Longrightarrow>
   sorted (map (row_order_key K) out)"
proof (induction "size (outstanding p h)" arbitrary: p h i seen out rule: less_induct)
  case less
  from less.prems(1) show ?case
  proof (cases rule: merge_loop_cases)
    case (emitted p' e h' i' seen' out')
    have ok: "pending_ok K p'" "heap_ok K (e # h')"
      using admit_ok [OF emitted(1) less.prems(2,3)] by simp_all
    have o: "outstanding p h = add_mset (entry_row e) (outstanding p' (advance K e h'))"
      using admit_outstanding [OF emitted(1)] advance_outstanding [of p' e h' K] by simp
    have "sorted (map (row_order_key K) out')"
      using less.hyps [OF _ emitted(3)] o ok heap_ok_advance [OF ok(2)] by simp
    moreover have "row_order_key K (entry_row e) \<le> row_order_key K r" if "r \<in> set out'" for r
    proof (rule popped_least [OF emitted(1) less.prems(2,3)])
      have "r \<in># outstanding p' (advance K e h')"
        using that merge_loop_mset [OF emitted(3)]
          mset_subset_eqD [of "mset out'" "outstanding p' (advance K e h')" r] by simp
      then show "r \<in># outstanding p' (e # h')"
        using advance_outstanding [of p' e h' K] by simp
    qed
    ultimately show ?thesis using emitted(4) by simp
  qed auto
qed

section \<open>The sequence of each connection\<close>

text \<open>
  \<open>follows K a b\<close>: the check accepts row \<open>b\<close> of a connection after its row \<open>a\<close>. Either
  the sequence key moves forward in no component backwards, or it ties and the tie-break
  strictly increases.
\<close>

definition follows :: "'r merge_keys \<Rightarrow> 'r \<Rightarrow> 'r \<Rightarrow> bool" where
  "follows K a b \<longleftrightarrow>
     (if sequence_key K b = sequence_key K a
      then (\<exists>f. connection_tie_break_key K = Some f \<and> f a < f b)
      else list_all2 (\<le>) (sequence_key K a) (sequence_key K b))"

lemma any_field_regressed_False: "any_field_regressed ks ps = Inr False \<longleftrightarrow> list_all2 (\<le>) ps ks"
  by (induction ks ps rule: any_field_regressed.induct) (auto simp: not_less)

lemma list_all2_le_antisym:
  "list_all2 (\<le>) xs ys \<Longrightarrow> list_all2 (\<le>) ys xs \<Longrightarrow> xs = (ys :: 'a::order list)"
  by (induction rule: list_all2_induct) auto

lemma list_all2_le_trans:
  "list_all2 (\<le>) xs ys \<Longrightarrow> list_all2 (\<le>) ys zs \<Longrightarrow> list_all2 (\<le>) xs (zs :: 'a::order list)"
  by (rule list_all2_trans [of "(\<le>)" "(\<le>)"]) auto

lemma follows_trans: "follows K a b \<Longrightarrow> follows K b c \<Longrightarrow> follows K a c"
  by (auto simp: follows_def split: if_splits
      dest: list_all2_le_antisym intro: list_all2_le_trans less_trans)

text \<open>What the check remembers of a row.\<close>

definition remembered :: "'r merge_keys \<Rightarrow> 'r \<Rightarrow> field list \<times> field option" where
  "remembered K r = (sequence_key K r, map_option (\<lambda>f. f r) (connection_tie_break_key K))"

lemma check_sequence_new:
  "seen (connection_id K r) = None \<Longrightarrow>
   check_sequence K seen r = Inr (seen(connection_id K r \<mapsto> remembered K r))"
  by (simp add: check_sequence_def remembered_def)

lemma check_sequence_after:
  assumes "seen (connection_id K r) = Some (remembered K a)"
  shows "check_sequence K seen r = Inr s \<longleftrightarrow>
    follows K a r \<and> s = seen(connection_id K r \<mapsto> remembered K r)"
  using assms any_field_regressed_False [of "sequence_key K r" "sequence_key K a"]
  by (auto simp: check_sequence_def remembered_def follows_def Let_def bindE_eq_Inr not_le
      split: if_splits option.splits)

text \<open>
  Whether a list of rows passes when \<open>prev c\<close> is the last row seen of connection \<open>c\<close>.
\<close>

fun accepted_from :: "'r merge_keys \<Rightarrow> (string \<rightharpoonup> 'r) \<Rightarrow> 'r list \<Rightarrow> bool" where
  "accepted_from K prev [] = True"
| "accepted_from K prev (r # rs) =
     ((case prev (connection_id K r) of None \<Rightarrow> True | Some a \<Rightarrow> follows K a r) \<and>
      accepted_from K (prev(connection_id K r \<mapsto> r)) rs)"

definition seen_of :: "'r merge_keys \<Rightarrow> (string \<rightharpoonup> 'r) \<Rightarrow> last_sequence" where
  "seen_of K prev = (\<lambda>c. map_option (remembered K) (prev c))"

lemma check_sequence_seen_of:
  "check_sequence K (seen_of K prev) r = Inr s \<longleftrightarrow>
     (case prev (connection_id K r) of None \<Rightarrow> True | Some a \<Rightarrow> follows K a r) \<and>
     s = seen_of K (prev(connection_id K r \<mapsto> r))"
proof (cases "prev (connection_id K r)")
  case None
  then show ?thesis
    by (auto simp: check_sequence_new seen_of_def fun_eq_iff)
next
  case (Some a)
  then have "seen_of K prev (connection_id K r) = Some (remembered K a)"
    by (simp add: seen_of_def)
  from check_sequence_after [where seen = "seen_of K prev" and a = a, OF this, of s] Some
  show ?thesis by (auto simp: seen_of_def fun_eq_iff)
qed

lemma merge_loop_accepts:
  "merge_loop K p h i (seen_of K prev) = (out, err) \<Longrightarrow>
   accepted_from K prev out \<and>
   (err \<noteq> None \<longrightarrow> (\<exists>r. r \<in># outstanding p h \<and> \<not> accepted_from K prev (out @ [r])))"
proof (induction "size (outstanding p h)" arbitrary: p h i prev out rule: less_induct)
  case less
  from less.prems show ?case
  proof (cases rule: merge_loop_cases)
    case (finished i')
    then show ?thesis by simp
  next
    case (failed p' e h' i' ex)
    have "entry_row e \<in># outstanding p h"
      using admit_outstanding [OF failed(1)] advance_outstanding [of p' e h' K]
      by (metis union_single_eq_member)
    moreover have "\<not> accepted_from K prev [entry_row e]"
      using failed(2) check_sequence_seen_of [of K prev "entry_row e"] by auto
    ultimately show ?thesis using failed(3) by auto
  next
    case (emitted p' e h' i' seen' out')
    have o: "outstanding p h = add_mset (entry_row e) (outstanding p' (advance K e h'))"
      using admit_outstanding [OF emitted(1)] advance_outstanding [of p' e h' K] by simp
    note st = emitted(2) [unfolded check_sequence_seen_of]
    have "merge_loop K p' (advance K e h') i'
        (seen_of K (prev(connection_id K (entry_row e) \<mapsto> entry_row e))) = (out', err)"
      using emitted(3) st by simp
    from less.hyps [OF _ this] o st emitted(4) show ?thesis by fastforce
  qed
qed

text \<open>Acceptance, connection by connection.\<close>

lemma accepted_from_sorted:
  "accepted_from K prev rs \<Longrightarrow>
   sorted_wrt (follows K)
     ((case prev c of None \<Rightarrow> [] | Some a \<Rightarrow> [a]) @ filter (\<lambda>r. connection_id K r = c) rs)"
proof (induction rs arbitrary: prev)
  case Nil
  then show ?case by (simp split: option.split)
next
  case (Cons r rs)
  let ?prev = "prev(connection_id K r \<mapsto> r)"
  have IH: "sorted_wrt (follows K)
      ((case ?prev c of None \<Rightarrow> [] | Some a \<Rightarrow> [a]) @ filter (\<lambda>r. connection_id K r = c) rs)"
    by (rule Cons.IH) (rule conjunct2 [OF Cons.prems [unfolded accepted_from.simps]])
  show ?case
  proof (cases "connection_id K r = c")
    case True
    with IH have *: "sorted_wrt (follows K) (r # filter (\<lambda>r. connection_id K r = c) rs)"
      by simp
    show ?thesis
    proof (cases "prev c")
      case None
      with * True show ?thesis by simp
    next
      case (Some a)
      with Cons.prems True have "follows K a r" by simp
      with * have "\<forall>x \<in> set (filter (\<lambda>r. connection_id K r = c) rs). follows K a x"
        by (auto intro: follows_trans)
      with * Some True \<open>follows K a r\<close> show ?thesis by simp
    qed
  next
    case False
    with IH show ?thesis by simp
  qed
qed

lemma seen_of_empty: "Map.empty = seen_of K Map.empty"
  by (simp add: seen_of_def fun_eq_iff)

lemma outstanding_initial:
  "outstanding (sort_key lower_bound sources) [] = mset (concat (map source_rows sources))"
proof -
  have "mset (concat (map source_rows xs)) = sum_mset (image_mset (\<lambda>s. mset (source_rows s)) (mset xs))"
    for xs :: "'r merge_source list"
    by (induction xs) auto
  note this [of "sort_key lower_bound sources"] this [of sources]
  then show ?thesis by (simp only: outstanding_def mset_sort list.map sum_list.Nil add_0_right)
qed

lemma pending_ok_initial:
  "\<forall>s \<in> set sources. source_ok K s \<Longrightarrow> pending_ok K (sort_key lower_bound sources)"
  by (simp add: pending_ok_def)

lemma heap_ok_initial: "heap_ok K []"
  by (simp add: heap_ok_def heap_invar_def)

section \<open>Properties\<close>

text \<open>
  Global order. When every source is locally ordered and no row lies below its source's
  manifest bound, the rows the merge yields are in nondecreasing key order, however the
  sources overlap and whether or not the stream ends in an error.
\<close>

theorem merge_sorted:
  assumes "\<forall>s \<in> set sources. source_ok K s"
  shows "sorted (map (row_order_key K) (fst (merge_rows_by_connection K sources)))"
proof -
  obtain out err where m: "merge_rows_by_connection K sources = (out, err)"
    by (cases "merge_rows_by_connection K sources")
  from merge_loop_sorted [OF m [unfolded merge_rows_by_connection_def]
      pending_ok_initial [OF assms] heap_ok_initial] m
  show ?thesis by simp
qed

text \<open>
  C39. No loss, no duplication. The yielded rows are always a sub-multiset of the input rows,
  and the stream ends without an error exactly when every input row was yielded.
\<close>

theorem merge_complete_iff_no_error:
  "mset (fst (merge_rows_by_connection K sources)) \<subseteq># mset (concat (map source_rows sources)) \<and>
   (snd (merge_rows_by_connection K sources) = None \<longleftrightarrow>
    mset (fst (merge_rows_by_connection K sources)) = mset (concat (map source_rows sources)))"
proof -
  obtain out err where m: "merge_rows_by_connection K sources = (out, err)"
    by (cases "merge_rows_by_connection K sources")
  from merge_loop_mset [OF m [unfolded merge_rows_by_connection_def]] m
  show ?thesis by (simp add: outstanding_initial)
qed

text \<open>
  Connection safety, both ways. Within every connection each yielded row strictly follows
  all earlier ones (no regression, no duplicate); and an error is raised only when some
  remaining row really violates that order after the yielded prefix.
\<close>

theorem merge_connection_safe:
  "(\<forall>c. sorted_wrt (follows K)
      (filter (\<lambda>r. connection_id K r = c) (fst (merge_rows_by_connection K sources)))) \<and>
   (snd (merge_rows_by_connection K sources) = None \<or>
    (\<exists>r \<in> set (concat (map source_rows sources)).
       \<not> accepted_from K Map.empty (fst (merge_rows_by_connection K sources) @ [r])))"
proof -
  obtain out err where m: "merge_rows_by_connection K sources = (out, err)"
    by (cases "merge_rows_by_connection K sources")
  from merge_loop_accepts [OF m [unfolded merge_rows_by_connection_def seen_of_empty [of K]]]
  have acc: "accepted_from K Map.empty out"
    and bad: "err \<noteq> None \<longrightarrow> (\<exists>r. r \<in># mset (concat (map source_rows sources)) \<and>
        \<not> accepted_from K Map.empty (out @ [r]))"
    by (simp_all add: outstanding_initial)
  from accepted_from_sorted [OF acc] have "sorted_wrt (follows K) (filter (\<lambda>r. connection_id K r = c) out)" for c
    by simp
  moreover from bad have "err = None \<or>
      (\<exists>r \<in> set (concat (map source_rows sources)). \<not> accepted_from K Map.empty (out @ [r]))"
    unfolding set_mset_mset by blast
  ultimately show ?thesis using m by simp
qed

text \<open>A reconnect: two overlapping parts of two connections.\<close>

definition demo_keys :: "(string \<times> int \<times> int) merge_keys" where
  "demo_keys = \<lparr>connection_id = fst,
     row_order_key = (\<lambda>r. (FInt (fst (snd r)), [FInt (snd (snd r))])),
     connection_sequence_key = None, connection_tie_break_key = None\<rparr>"

definition demo_sources :: "(string \<times> int \<times> int) merge_source list" where
  "demo_sources =
    [\<lparr>lower_bound = FInt 3, source_rows = [(''B'', 3, 1), (''B'', 6, 2)]\<rparr>,
     \<lparr>lower_bound = FInt 1, source_rows = [(''A'', 1, 7), (''A'', 5, 8)]\<rparr>]"

lemma merge_sorted_witness:
  "merge_rows_by_connection demo_keys demo_sources =
     ([(''A'', 1, 7), (''B'', 3, 1), (''A'', 5, 8), (''B'', 6, 2)], None) \<and>
   sorted (map (row_order_key demo_keys) (fst (merge_rows_by_connection demo_keys demo_sources)))"
proof
  show "merge_rows_by_connection demo_keys demo_sources =
      ([(''A'', 1, 7), (''B'', 3, 1), (''A'', 5, 8), (''B'', 6, 2)], None)"
    by code_simp
  show "sorted (map (row_order_key demo_keys) (fst (merge_rows_by_connection demo_keys demo_sources)))"
    by (rule merge_sorted) (simp add: demo_sources_def demo_keys_def source_ok_def)
qed

end
