(* ===== verification/Py_Json.thy ===== *)
theory Py_Json
  imports Prelude
begin

text \<open>
  JSON values as \<open>json.loads\<close> returns them, Python's \<open>int(...)\<close> and
  \<open>Decimal(str(...))\<close> on them, and the Bronze envelope of
  \<open>src/data/raw_event.py\<close> that the replay components consume.
\<close>

section \<open>JSON values\<close>

datatype json =
    JNull
  | JBool bool
  | JInt int
  | JFloat num
  | JStr string
  | JList "json list"
  | JObj "(string, json) dict"

text \<open>\<open>d.get(name)\<close>: a missing key is \<open>None\<close>, as a JSON null is.\<close>

definition jget :: "(string, json) dict \<Rightarrow> string \<Rightarrow> json" where
  "jget d name = (case map_of d name of None \<Rightarrow> JNull | Some v \<Rightarrow> v)"

text \<open>Python truth of a value (\<open>not data.get("bids")\<close>).\<close>

fun json_truth :: "json \<Rightarrow> bool" where
  "json_truth JNull = False"
| "json_truth (JBool b) = b"
| "json_truth (JInt i) = (i \<noteq> 0)"
| "json_truth (JFloat f) = (f \<noteq> Fin 0)"
| "json_truth (JStr s) = (s \<noteq> [])"
| "json_truth (JList xs) = (xs \<noteq> [])"
| "json_truth (JObj d) = (d \<noteq> [])"

section \<open>Digits\<close>

definition is_digit :: "char \<Rightarrow> bool" where
  "is_digit c = (let n = (of_char c :: nat) in 48 \<le> n \<and> n \<le> 57)"

definition digit_val :: "char \<Rightarrow> nat" where
  "digit_val c = of_char c - 48"

definition digits_val :: "string \<Rightarrow> nat" where
  "digits_val s = foldl (\<lambda>n c. 10 * n + digit_val c) 0 s"

definition split_sign :: "string \<Rightarrow> bool \<times> string" where
  "split_sign s =
     (case s of
        c # cs \<Rightarrow> if c = CHR ''-'' then (True, cs) else if c = CHR ''+'' then (False, cs) else (False, s)
      | [] \<Rightarrow> (False, []))"

text \<open>Digits with single underscores between them, as \<open>int("1_000")\<close> accepts.\<close>

fun grouped_digits :: "nat \<Rightarrow> bool \<Rightarrow> string \<Rightarrow> nat option" where
  "grouped_digits acc after_digit [] = (if after_digit then Some acc else None)"
| "grouped_digits acc after_digit (c # cs) =
     (if is_digit c then grouped_digits (10 * acc + digit_val c) True cs
      else if c = CHR ''_'' \<and> after_digit then grouped_digits acc False cs
      else None)"

definition int_of_string :: "string \<Rightarrow> int option" where
  "int_of_string s =
     (case split_sign (py_strip s) of (neg, ds) \<Rightarrow>
        map_option (\<lambda>n. if neg then - int n else int n) (grouped_digits 0 False ds))"

definition trunc_rat :: "rat \<Rightarrow> int" where
  "trunc_rat r = (if 0 \<le> r then \<lfloor>r\<rfloor> else - \<lfloor>- r\<rfloor>)"

text \<open>
  \<open>int(value)\<close>. A \<open>TypeError\<close> or \<open>ValueError\<close> is \<open>Inl (ValueError ..)\<close>; the
  \<open>OverflowError\<close> of an infinite float, which the callers do not catch, is kept apart.
\<close>

fun py_int :: "json \<Rightarrow> int result" where
  "py_int (JInt i) = Inr i"
| "py_int (JBool b) = Inr (if b then 1 else 0)"
| "py_int (JFloat (Fin r)) = Inr (trunc_rat r)"
| "py_int (JFloat NaN) = Inl (ValueError ''cannot convert float NaN to integer'')"
| "py_int (JFloat _) = Inl (OtherError ''OverflowError'')"
| "py_int (JStr s) =
     (case int_of_string s of
        Some i \<Rightarrow> Inr i
      | None \<Rightarrow> Inl (ValueError ''invalid literal for int()''))"
| "py_int _ = Inl (ValueError ''TypeError'')"

section \<open>Decimal text\<close>

definition decimal_exponent :: "string \<Rightarrow> int option" where
  "decimal_exponent s =
     (case s of
        [] \<Rightarrow> Some 0
      | c # cs \<Rightarrow>
          if c = CHR ''e''
          then (case split_sign cs of (neg, ds) \<Rightarrow>
                  if ds \<noteq> [] \<and> list_all is_digit ds
                  then Some (if neg then - int (digits_val ds) else int (digits_val ds)) else None)
          else None)"

text \<open>
  \<open>Decimal(text)\<close>: the value, or \<open>None\<close> for \<open>InvalidOperation\<close>. Surrounding blanks
  and underscores are ignored, as the constructor does.
\<close>

definition decimal_of_string :: "string \<Rightarrow> num option" where
  "decimal_of_string s =
     (case split_sign (map lower_char (filter (\<lambda>c. c \<noteq> CHR ''_'') (py_strip s))) of (neg, t) \<Rightarrow>
        if t = ''inf'' \<or> t = ''infinity'' then Some (if neg then NInf else PInf)
        else if take 3 t = ''nan'' \<and> list_all is_digit (drop 3 t) then Some NaN
        else if take 4 t = ''snan'' \<and> list_all is_digit (drop 4 t) then Some NaN
        else
          let ip = takeWhile is_digit t;
              r1 = dropWhile is_digit t;
              fp = (case r1 of c # cs \<Rightarrow> if c = CHR ''.'' then takeWhile is_digit cs else [] | [] \<Rightarrow> []);
              r2 = (case r1 of c # cs \<Rightarrow> if c = CHR ''.'' then dropWhile is_digit cs else r1 | [] \<Rightarrow> [])
          in if ip = [] \<and> fp = [] then None
             else map_option (\<lambda>e. Fin ((if neg then - 1 else 1) * of_nat (digits_val (ip @ fp)) *
                                 power10 (e - int (length fp))))
                    (decimal_exponent r2))"

text \<open>
  \<open>Decimal(str(value))\<close>: the text of a boolean, \<open>None\<close>, list or object is never a number.
\<close>

fun json_decimal :: "json \<Rightarrow> num option" where
  "json_decimal (JInt i) = Some (Fin (of_int i))"
| "json_decimal (JFloat f) = Some f"
| "json_decimal (JStr s) = decimal_of_string s"
| "json_decimal _ = None"

lemmas text_simps =
  decimal_of_string_def decimal_exponent_def split_sign_def py_strip_def is_space_def
  is_digit_def digits_val_def digit_val_def lower_char_def power10_def

lemma decimal_examples:
  "decimal_of_string ''100.25'' = Some (Fin (401 / 4))"
  "decimal_of_string ''-1e2'' = Some (Fin (- 100))"
  "decimal_of_string '' 5 '' = Some (Fin 5)"
  "decimal_of_string ''1.2.3'' = None"
  by (simp_all add: text_simps)

lemma int_examples:
  "int_of_string '' -1_000 '' = Some (- 1000)"
  "int_of_string ''1__0'' = None"
  "int_of_string ''12.0'' = None"
  by code_simp+

section \<open>The raw event envelope\<close>

text \<open>
  \<open>RawMarketEvent\<close>. \<open>payload_value\<close> stands for \<open>json.loads(payload_text)\<close>; the text
  itself and its SHA-256 are not modelled.
\<close>

record raw_event =
  schema_version :: int
  ingestion_version :: string
  event_id :: string
  exchange :: string
  market_type :: string
  channel :: string
  topic :: string
  symbol :: string
  message_type :: string
  exchange_ts_ms :: "int option"
  receive_ts_ns :: int
  receive_sequence :: int
  matching_ts_ms :: "int option"
  sequence :: "int option"
  update_id :: "int option"
  connection_id :: string
  payload_value :: json

definition event_payload :: "raw_event \<Rightarrow> (string, json) dict result" where
  "event_payload e =
     (case payload_value e of
        JObj d \<Rightarrow> Inr d
      | _ \<Rightarrow> Inl (Raised RawEventError ''raw market payload must be a JSON object''))"

text \<open>The order in which every \<open>replay_*\<close> function sorts its events.\<close>

definition receive_key :: "raw_event \<Rightarrow> int \<times> int \<times> string" where
  "receive_key e = (receive_ts_ns e, receive_sequence e, event_id e)"

text \<open>
  \<open>_required_int\<close> of the replay modules: \<open>None\<close> and booleans are refused, then \<open>int\<close>.
\<close>

definition required_int_strict :: "exn_class \<Rightarrow> json \<Rightarrow> int result" where
  "required_int_strict cls v =
     (case v of
        JNull \<Rightarrow> Inl (Raised cls ''missing integer'')
      | JBool _ \<Rightarrow> Inl (Raised cls ''missing integer'')
      | _ \<Rightarrow> (case py_int v of
                Inr i \<Rightarrow> Inr i
              | Inl (ValueError _) \<Rightarrow> Inl (Raised cls ''invalid integer'')
              | Inl e \<Rightarrow> Inl e))"

text \<open>
  \<open>_optional_int\<close> of the venue adapters, and their \<open>_required_int\<close> on top of it.
\<close>

definition optional_int :: "json \<Rightarrow> int option result" where
  "optional_int v =
     (case v of
        JNull \<Rightarrow> Inr None
      | JBool _ \<Rightarrow> Inl (Raised RawEventError ''expected integer metadata'')
      | _ \<Rightarrow> if v = JStr [] then Inr None
             else (case py_int v of
                     Inr i \<Rightarrow> Inr (Some i)
                   | Inl (ValueError _) \<Rightarrow> Inl (Raised RawEventError ''expected integer metadata'')
                   | Inl e \<Rightarrow> Inl e))"

definition required_int :: "exn_class \<Rightarrow> json \<Rightarrow> int result" where
  "required_int cls v =
     bindE (optional_int v) (\<lambda>r. case r of
       None \<Rightarrow> Inl (Raised cls ''message lacks an integer'')
     | Some i \<Rightarrow> Inr i)"

lemma required_int_JInt [simp]:
  "required_int cls (JInt i) = Inr i" "required_int_strict cls (JInt i) = Inr i"
  by (simp_all add: required_int_def required_int_strict_def optional_int_def)

text \<open>Where both variants accept a value they agree.\<close>

lemma required_ints_agree:
  "required_int cls v = Inr i \<Longrightarrow> required_int_strict cls' v = Inr j \<Longrightarrow> i = j"
  by (auto simp: required_int_def required_int_strict_def optional_int_def bindE_eq_Inr
      split: json.splits if_splits sum.splits exn.splits option.splits)

end
