(* ===== verification/Sequence_Gate.thy ===== *)
theory Sequence_Gate
  imports Py_Json
begin

text \<open>
  The contract all venue feeds share: a gate is positioned by a snapshot, advances only over
  events that link to its position on the same connection, ignores some events without
  changing, and on a failure either keeps its state or loses its position. The locale proves
  once what the contract gives: the accepted events since the last snapshot form an
  unbroken chain, and without a snapshot nothing is accepted again after a failure that
  lost the position.
\<close>

text \<open>
  Running a gate over events and recording those accepted since the last snapshot. A step
  returns the new state and \<open>Inr True\<close> (accepted), \<open>Inr False\<close> (ignored) or an
  exception; the runner goes on after an exception, as a collector that handles it would.
\<close>

fun gate_history :: "('g \<Rightarrow> 'e \<Rightarrow> 'g \<times> bool result) \<Rightarrow> ('e \<Rightarrow> bool) \<Rightarrow> ('g \<Rightarrow> 'p option)
    \<Rightarrow> 'g \<Rightarrow> 'e list \<Rightarrow> 'e list \<Rightarrow> 'g \<times> 'e list" where
  "gate_history step is_snap pos g h [] = (g, h)"
| "gate_history step is_snap pos g h (e # es) =
     (case step g e of
        (g', Inr True) \<Rightarrow> gate_history step is_snap pos g' (if is_snap e then [e] else h @ [e]) es
      | (g', Inr False) \<Rightarrow> gate_history step is_snap pos g' h es
      | (g', Inl _) \<Rightarrow> gate_history step is_snap pos g' (if pos g' = None then [] else h) es)"

text \<open>A chain: a snapshot, then linked events of the same connection.\<close>

definition linked_chain :: "('e \<Rightarrow> bool) \<Rightarrow> ('e \<Rightarrow> 'p) \<Rightarrow> ('p \<Rightarrow> 'e \<Rightarrow> bool) \<Rightarrow> ('e \<Rightarrow> string)
    \<Rightarrow> 'e list \<Rightarrow> bool" where
  "linked_chain is_snap sq links cid h \<longleftrightarrow>
     h \<noteq> [] \<and> is_snap (hd h) \<and>
     successively (\<lambda>a b. \<not> is_snap b \<and> links (sq a) b) h \<and>
     (\<forall>e \<in> set (tl h). cid e = cid (hd h))"

lemma linked_chain_single: "is_snap e \<Longrightarrow> linked_chain is_snap sq links cid [e]"
  by (simp add: linked_chain_def)

lemma linked_chain_snoc:
  "linked_chain is_snap sq links cid h \<Longrightarrow> \<not> is_snap e \<Longrightarrow> links (sq (last h)) e \<Longrightarrow>
   cid e = cid (hd h) \<Longrightarrow> linked_chain is_snap sq links cid (h @ [e])"
  using successively_append_iff [of "\<lambda>a b. \<not> is_snap b \<and> links (sq a) b" h "[e]"]
  by (cases h) (auto simp: linked_chain_def)

locale sequence_gate =
  fixes step :: "'g \<Rightarrow> 'e \<Rightarrow> 'g \<times> bool result"
    and pos :: "'g \<Rightarrow> 'p option"
    and con :: "'g \<Rightarrow> string option"
    and is_snap :: "'e \<Rightarrow> bool"
    and sq :: "'e \<Rightarrow> 'p"
    and links :: "'p \<Rightarrow> 'e \<Rightarrow> bool"
    and cid :: "'e \<Rightarrow> string"
  assumes snapshot_law:
      "step g e = (g', Inr True) \<Longrightarrow> is_snap e \<Longrightarrow> pos g' = Some (sq e) \<and> con g' = Some (cid e)"
    and delta_law:
      "step g e = (g', Inr True) \<Longrightarrow> \<not> is_snap e \<Longrightarrow>
       (\<exists>s. pos g = Some s \<and> links s e) \<and> pos g' = Some (sq e) \<and>
       con g' = con g \<and> (con g = None \<or> con g = Some (cid e))"
    and ignore_law: "step g e = (g', Inr False) \<Longrightarrow> g' = g"
    and failure_law: "step g e = (g', Inl x) \<Longrightarrow> g' = g \<or> pos g' = None"
begin

definition coherent :: "'g \<Rightarrow> 'e list \<Rightarrow> bool" where
  "coherent g h \<longleftrightarrow>
     pos g = None \<or>
     (linked_chain is_snap sq links cid h \<and> pos g = Some (sq (last h)) \<and> con g = Some (cid (hd h)))"

lemma coherent_accept:
  assumes "coherent g h" "step g e = (g', Inr True)"
  shows "coherent g' (if is_snap e then [e] else h @ [e])"
proof (cases "is_snap e")
  case True
  with snapshot_law [OF assms(2)] show ?thesis
    by (simp add: coherent_def linked_chain_single)
next
  case False
  from delta_law [OF assms(2) False] obtain s where
    d: "pos g = Some s" "links s e" "pos g' = Some (sq e)" "con g' = con g"
       "con g = None \<or> con g = Some (cid e)" by blast
  from assms(1) d(1) have c: "linked_chain is_snap sq links cid h" "s = sq (last h)"
      "con g = Some (cid (hd h))"
    by (simp_all add: coherent_def)
  with d(5) have ch: "linked_chain is_snap sq links cid h" "s = sq (last h)"
      "cid e = cid (hd h)" "con g = Some (cid (hd h))"
    by simp_all
  then have "linked_chain is_snap sq links cid (h @ [e])" "h \<noteq> []"
    using linked_chain_snoc [OF ch(1) False] d(2) by (auto simp: linked_chain_def)
  with d ch False show ?thesis by (simp add: coherent_def)
qed

lemma coherent_failure:
  "coherent g h \<Longrightarrow> step g e = (g', Inl x) \<Longrightarrow> coherent g' (if pos g' = None then [] else h)"
  using failure_law [of g e g' x] by (auto simp: coherent_def)

lemma history_coherent:
  "coherent g h \<Longrightarrow> gate_history step is_snap pos g h es = (g', h') \<Longrightarrow> coherent g' h'"
proof (induction es arbitrary: g h)
  case (Cons e es)
  obtain g1 r where st: "step g e = (g1, r)" by fastforce
  show ?case
  proof (cases r)
    case (Inl x)
    with st have "step g e = (g1, Inl x)" by simp
    from Cons.IH [OF coherent_failure [OF Cons.prems(1) this]] Cons.prems(2) Inl st
    show ?thesis by simp
  next
    case (Inr b)
    show ?thesis
    proof (cases b)
      case True
      with Inr st have "step g e = (g1, Inr True)" by simp
      from Cons.IH [OF coherent_accept [OF Cons.prems(1) this]] Cons.prems(2) True Inr st
      show ?thesis by simp
    next
      case False
      with Inr st have "g1 = g" using ignore_law by simp
      with Cons False Inr st show ?thesis by simp
    qed
  qed
qed simp

text \<open>The accepted events since the last snapshot form a chain that ends at the position.\<close>

lemma positioned_by_chain:
  "pos g0 = None \<Longrightarrow> gate_history step is_snap pos g0 [] es = (g, h) \<Longrightarrow> pos g = Some s \<Longrightarrow>
   linked_chain is_snap sq links cid h \<and> s = sq (last h) \<and> con g = Some (cid (hd h))"
  using history_coherent [of g0 "[]" es g h] by (auto simp: coherent_def)

text \<open>Without a position only a snapshot is accepted.\<close>

lemma unpositioned_refuses: "pos g = None \<Longrightarrow> \<not> is_snap e \<Longrightarrow> snd (step g e) \<noteq> Inr True"
  using delta_law [of g e "fst (step g e)"] by (cases "step g e") auto

lemma unpositioned_stays:
  "pos g = None \<Longrightarrow> \<not> is_snap e \<Longrightarrow> pos (fst (step g e)) = None"
proof (cases "step g e")
  case (Pair g' r)
  assume p: "pos g = None" "\<not> is_snap e"
  with Pair unpositioned_refuses [OF p] show ?thesis
    by (cases r) (auto dest: failure_law ignore_law)
qed

lemma no_snapshot_no_position:
  "pos g = None \<Longrightarrow> (\<And>e. e \<in> set es \<Longrightarrow> \<not> is_snap e) \<Longrightarrow>
   pos (fst (gate_history step is_snap pos g h es)) = None"
proof (induction es arbitrary: g h)
  case (Cons e es)
  have ns: "\<not> is_snap e" using Cons.prems by simp
  have "pos (fst (step g e)) = None"
    using unpositioned_stays [OF Cons.prems(1) ns] .
  then have "pos (fst (gate_history step is_snap pos (fst (step g e)) h' es)) = None" for h'
    using Cons by simp
  then show ?case
    by (cases "step g e") (auto split: sum.splits bool.splits)
qed simp

end

end
