(* ===== verification/Order_Book.thy ===== *)
theory Order_Book
  imports Sequence_Gate
begin

text \<open>
  The exact decimal level-2 book that \<open>bybit_replay.py\<close>, \<open>okx_replay.py\<close>,
  \<open>binance_replay.py\<close> and \<open>deribit_replay.py\<close> each carry: parsing of price levels,
  application of a delta, the uncrossed-book check. The four modules repeat the same
  functions with an exception class of their own, which is an argument here; the venue
  theories instantiate it. A side is a dictionary from price to size.
\<close>

type_synonym side = "(rat, rat) dict"
type_synonym levels = "(rat \<times> rat) list"

section \<open>Parsing levels\<close>

definition decimal_pair :: "exn_class \<Rightarrow> json \<Rightarrow> json \<Rightarrow> (rat \<times> rat) result" where
  "decimal_pair cls p s =
     (case (json_decimal p, json_decimal s) of
        (Some price, Some sz) \<Rightarrow>
          if \<not> isfinite price \<or> \<not> isfinite sz \<or> num_le price (Fin 0) \<or> num_lt sz (Fin 0)
          then Inl (Raised cls ''invalid numeric order-book level'')
          else Inr (num_val price, num_val sz)
      | _ \<Rightarrow> Inl (Raised cls ''invalid decimal order-book level''))"

text \<open>A level is a list whose length passes \<open>ok_length\<close>; its first two items are the pair.\<close>

definition pair_level :: "exn_class \<Rightarrow> (nat \<Rightarrow> bool) \<Rightarrow> json \<Rightarrow> (rat \<times> rat) result" where
  "pair_level cls ok_length level =
     (case level of
        JList (p # s # extra) \<Rightarrow>
          if ok_length (length (p # s # extra)) then decimal_pair cls p s
          else Inl (Raised cls ''invalid order-book level'')
      | _ \<Rightarrow> Inl (Raised cls ''invalid order-book level''))"

definition parse_levels :: "exn_class \<Rightarrow> (json \<Rightarrow> (rat \<times> rat) result) \<Rightarrow> json \<Rightarrow> levels result" where
  "parse_levels cls level value =
     (case value of
        JList ls \<Rightarrow> mapE level ls
      | _ \<Rightarrow> Inl (Raised cls ''order-book levels must be a list''))"

definition valid_level :: "rat \<times> rat \<Rightarrow> bool" where
  "valid_level l \<longleftrightarrow> 0 < fst l \<and> 0 \<le> snd l"

lemma decimal_pair_valid: "decimal_pair cls p s = Inr l \<Longrightarrow> valid_level l"
  by (auto simp: decimal_pair_def valid_level_def isfinite_iff split: option.splits if_splits)

lemma pair_level_valid: "pair_level cls ok v = Inr l \<Longrightarrow> valid_level l"
  by (auto simp: pair_level_def split: json.splits list.splits if_splits dest: decimal_pair_valid)

lemma parse_levels_valid:
  assumes "\<And>v l. level v = Inr l \<Longrightarrow> valid_level l" "parse_levels cls level value = Inr ls"
  shows "\<forall>l \<in> set ls. valid_level l"
proof -
  from assms(2) obtain vs where "mapE level vs = Inr ls"
    by (auto simp: parse_levels_def split: json.splits)
  with assms(1) show ?thesis by (metis mapE_set)
qed

lemma pair_levels_valid:
  "parse_levels cls (pair_level cls' ok) value = Inr ls \<Longrightarrow> \<forall>l \<in> set ls. valid_level l"
  by (rule parse_levels_valid [OF pair_level_valid])

section \<open>Sides\<close>

text \<open>The dict comprehension of a snapshot: levels of size zero are left out.\<close>

fun snapshot_into :: "side \<Rightarrow> levels \<Rightarrow> side" where
  "snapshot_into d [] = d"
| "snapshot_into d ((price, sz) # ls) =
     snapshot_into (if 0 < sz then AList.update price sz d else d) ls"

definition snapshot_side :: "levels \<Rightarrow> side" where
  "snapshot_side ls = snapshot_into [] ls"

text \<open>\<open>_apply_levels\<close>: size zero removes the price, any other size sets it.\<close>

fun apply_levels :: "side \<Rightarrow> levels \<Rightarrow> side" where
  "apply_levels d [] = d"
| "apply_levels d ((price, sz) # ls) =
     apply_levels (if sz = 0 then AList.delete price d else AList.update price sz d) ls"

definition side_ok :: "side \<Rightarrow> bool" where
  "side_ok d \<longleftrightarrow> dict_ok d \<and> (\<forall>(p, s) \<in> set d. 0 < p \<and> 0 < s)"

lemma side_ok_Nil [simp]: "side_ok []"
  by (simp add: side_ok_def)

lemma side_ok_update: "side_ok d \<Longrightarrow> 0 < p \<Longrightarrow> 0 < s \<Longrightarrow> side_ok (AList.update p s d)"
  using set_update_subset [of p s d] by (auto simp: side_ok_def intro: distinct_update)

lemma side_ok_delete: "side_ok d \<Longrightarrow> side_ok (AList.delete p d)"
  by (auto simp: side_ok_def set_delete intro: distinct_delete)

lemma apply_levels_ok:
  "side_ok d \<Longrightarrow> \<forall>l \<in> set ls. valid_level l \<Longrightarrow> side_ok (apply_levels d ls)"
  by (induction d ls rule: apply_levels.induct)
    (auto simp: valid_level_def side_ok_delete side_ok_update)

lemma snapshot_into_ok:
  "side_ok d \<Longrightarrow> \<forall>l \<in> set ls. valid_level l \<Longrightarrow> side_ok (snapshot_into d ls)"
  by (induction d ls rule: snapshot_into.induct) (auto simp: valid_level_def side_ok_update)

lemma snapshot_side_ok: "\<forall>l \<in> set ls. valid_level l \<Longrightarrow> side_ok (snapshot_side ls)"
  by (simp add: snapshot_side_def snapshot_into_ok)

text \<open>
  The abstract side is the map from prices to sizes; the last level named for a price
  decides it.
\<close>

definition last_size :: "levels \<Rightarrow> rat \<Rightarrow> rat option" where
  "last_size ls p = map_of (rev ls) p"

lemma last_size_Cons:
  "last_size ((q, s) # ls) p = (case last_size ls p of None \<Rightarrow> (if p = q then Some s else None) | r \<Rightarrow> r)"
  by (simp add: last_size_def map_add_def split: option.split)

lemma apply_levels_lookup:
  "dict_ok d \<Longrightarrow> map_of (apply_levels d ls) p =
     (case last_size ls p of
        None \<Rightarrow> map_of d p
      | Some s \<Rightarrow> if s = 0 then None else Some s)"
proof (induction d ls rule: apply_levels.induct)
  case (1 d)
  then show ?case by (simp add: last_size_def)
next
  case (2 d q s ls)
  let ?d = "if s = 0 then AList.delete q d else AList.update q s d"
  have "dict_ok ?d" using 2(2) by (simp add: distinct_delete distinct_update)
  from 2(1) [OF this] show ?case
    by (auto simp: last_size_Cons update_conv' delete_conv' split: option.splits)
qed

section \<open>The book check\<close>

definition best_bid_of :: "side \<Rightarrow> rat" where
  "best_bid_of bids = Max (set (map fst bids))"

definition best_ask_of :: "side \<Rightarrow> rat" where
  "best_ask_of asks = Min (set (map fst asks))"

definition validate_book :: "exn_class \<Rightarrow> side \<Rightarrow> side \<Rightarrow> unit result" where
  "validate_book cls bids asks =
     (if bids = [] \<or> asks = [] then Inl (Raised cls ''order book has an empty side'')
      else if best_ask_of asks \<le> best_bid_of bids then Inl (Raised cls ''order book is crossed'')
      else Inr ())"

text \<open>
  A well-formed book: both sides are non-empty dictionaries of positive levels and every bid
  is below every ask.
\<close>

definition book_ok :: "side \<Rightarrow> side \<Rightarrow> bool" where
  "book_ok bids asks \<longleftrightarrow>
     side_ok bids \<and> side_ok asks \<and> bids \<noteq> [] \<and> asks \<noteq> [] \<and>
     (\<forall>b \<in> fst ` set bids. \<forall>a \<in> fst ` set asks. b < a)"

lemma validate_book_Inr:
  "validate_book cls bids asks = Inr u \<longleftrightarrow>
     bids \<noteq> [] \<and> asks \<noteq> [] \<and> (\<forall>b \<in> fst ` set bids. \<forall>a \<in> fst ` set asks. b < a)"
proof -
  have "best_bid_of bids < best_ask_of asks \<longleftrightarrow>
      (\<forall>b \<in> fst ` set bids. \<forall>a \<in> fst ` set asks. b < a)"
    if "bids \<noteq> []" "asks \<noteq> []"
    using that by (auto simp: best_bid_of_def best_ask_of_def)
  then show ?thesis
    by (auto simp: validate_book_def not_le simp del: fst_conv)
qed

lemma validated_book_ok:
  "validate_book cls bids asks = Inr u \<Longrightarrow> side_ok bids \<Longrightarrow> side_ok asks \<Longrightarrow> book_ok bids asks"
  by (simp add: validate_book_Inr book_ok_def)

lemma sorted_le_last: "y \<in> set xs \<Longrightarrow> sorted xs \<Longrightarrow> y \<le> last (xs :: 'a::linorder list)"
  by (induction xs) auto

lemma sorted_sides_best:
  assumes "d \<noteq> []" "dict_ok d"
  shows "fst (hd (sort_key fst d)) = best_ask_of d" "fst (hd (rev (sort_key fst d))) = best_bid_of d"
proof -
  let ?s = "map fst (sort_key fst d)"
  have ne: "sort_key fst d \<noteq> []" "?s \<noteq> []"
    using assms(1) by (metis length_0_conv length_sort map_is_Nil_conv)+
  have set: "set ?s = set (map fst d)" and sorted: "sorted ?s" by simp_all
  have "Min (set ?s) = hd ?s"
    using sorted ne(2) by (cases ?s) (auto intro!: Min_eqI)
  then show "fst (hd (sort_key fst d)) = best_ask_of d"
    using set ne(1) by (simp add: best_ask_of_def hd_map)
  have "Max (set ?s) = last ?s"
  proof (rule Max_eqI)
    show "last ?s \<in> set ?s" using ne(2) by (rule last_in_set)
    show "y \<le> last ?s" if "y \<in> set ?s" for y
      using that sorted by (rule sorted_le_last)
  qed simp
  then show "fst (hd (rev (sort_key fst d))) = best_bid_of d"
    using set ne(1) by (simp add: best_bid_of_def hd_rev last_map)
qed

text \<open>The best levels of a well-formed book are positive and apart.\<close>

lemma book_ok_best:
  assumes "book_ok bids asks"
  shows "0 < best_bid_of bids \<and> best_bid_of bids < best_ask_of asks"
proof -
  from assms have ne: "bids \<noteq> []" "asks \<noteq> []" by (auto simp: book_ok_def)
  have "best_bid_of bids \<in> fst ` set bids"
    using ne(1) Max_in [of "set (map fst bids)"] by (simp add: best_bid_of_def)
  moreover have "best_ask_of asks \<in> fst ` set asks"
    using ne(2) Min_in [of "set (map fst asks)"] by (simp add: best_ask_of_def)
  moreover have "\<forall>b \<in> fst ` set bids. \<forall>a \<in> fst ` set asks. b < a" "\<forall>b \<in> fst ` set bids. 0 < b"
    using assms by (auto simp: book_ok_def side_ok_def)
  ultimately show ?thesis by blast
qed

section \<open>Sorting a bounded replay\<close>

text \<open>
  \<open>sorted(events, key=...)\<close> is stable; with pairwise distinct keys its result does not
  depend on the order of the input.
\<close>

definition receive_order :: "raw_event list \<Rightarrow> raw_event list" where
  "receive_order es = sort_key receive_key es"

lemma receive_order_unique:
  assumes "mset es = mset fs" "distinct (map receive_key es)"
  shows "receive_order es = receive_order fs"
proof -
  let ?k = receive_key
  have "sorted (map ?k (sort_key ?k es))" "sorted (map ?k (sort_key ?k fs))"
    by simp_all
  moreover have "mset (map ?k (sort_key ?k es)) = mset (map ?k (sort_key ?k fs))"
    using assms(1) by simp
  ultimately have "map ?k (sort_key ?k es) = map ?k (sort_key ?k fs)"
    by (metis properties_for_sort)
  moreover have "inj_on ?k (set (sort_key ?k es) \<union> set (sort_key ?k fs))"
    using assms mset_eq_setD [OF assms(1)] by (simp add: distinct_map)
  ultimately show ?thesis
    unfolding receive_order_def by (metis map_inj_on)
qed

end
