(* ===== verification/Bybit_Replay.thy ===== *)
theory Bybit_Replay
  imports Order_Book
begin

text \<open>
  Model of \<open>src/data/bybit_replay.py\<close>: the strict level-2 book (contiguous \<open>u\<close>,
  increasing \<open>seq\<close>), the ticker materialisation, the session that routes events and resets
  a book on a new connection, and the replay functions. An operation returns the object it
  leaves behind with its result, because the code mutates before it raises. The SHA-256
  checksums of a report are left out; a report carries the state they digest.
\<close>

section \<open>The order book\<close>

record bybit_book =
  bb_symbol :: string
  bb_bids :: side
  bb_asks :: side
  bb_update_id :: "int option"
  bb_sequence :: "int option"

definition new_bybit_book :: "string \<Rightarrow> bybit_book" where
  "new_bybit_book s =
     \<lparr>bb_symbol = s, bb_bids = [], bb_asks = [], bb_update_id = None, bb_sequence = None\<rparr>"

definition bybit_is_ready :: "bybit_book \<Rightarrow> bool" where
  "bybit_is_ready b \<longleftrightarrow> bb_bids b \<noteq> [] \<and> bb_asks b \<noteq> [] \<and> bb_update_id b \<noteq> None"

definition bybit_invalidate :: "bybit_book \<Rightarrow> bybit_book" where
  "bybit_invalidate b =
     b\<lparr>bb_bids := [], bb_asks := [], bb_update_id := None, bb_sequence := None\<rparr>"

definition bybit_levels :: "json \<Rightarrow> levels result" where
  "bybit_levels v = parse_levels ReplayError (pair_level ReplayError (\<lambda>n. n = 2)) v"

definition bybit_apply_levels :: "side \<Rightarrow> levels \<Rightarrow> side" where
  "bybit_apply_levels d ls = apply_levels d ls"

definition bybit_validate_book :: "side \<Rightarrow> side \<Rightarrow> unit result" where
  "bybit_validate_book bids asks = validate_book InvalidOrderBook bids asks"

definition bybit_required_int :: "json \<Rightarrow> int result" where
  "bybit_required_int v = required_int_strict ReplayError v"

text \<open>The four fields every order-book message carries, in the order the code reads them.\<close>

definition bybit_fields :: "(string, json) dict \<Rightarrow> (int \<times> int \<times> levels \<times> levels) result" where
  "bybit_fields data =
     bindE (bybit_required_int (jget data ''u'')) (\<lambda>u.
     bindE (bybit_required_int (jget data ''seq'')) (\<lambda>sq.
     bindE (bybit_levels (jget data ''b'')) (\<lambda>bids.
     bindE (bybit_levels (jget data ''a'')) (\<lambda>asks. Inr (u, sq, bids, asks)))))"

text \<open>Replacing both sides after the book check; a failed check leaves the book as it was.\<close>

definition bybit_install :: "bybit_book \<Rightarrow> side \<Rightarrow> side \<Rightarrow> int \<Rightarrow> int \<Rightarrow> bybit_book \<times> unit result" where
  "bybit_install b bids asks u sq =
     (case bybit_validate_book bids asks of
        Inl e \<Rightarrow> (b, Inl e)
      | Inr _ \<Rightarrow> (b\<lparr>bb_bids := bids, bb_asks := asks, bb_update_id := Some u, bb_sequence := Some sq\<rparr>,
                  Inr ()))"

definition bybit_apply_message :: "bybit_book \<Rightarrow> (string, json) dict \<Rightarrow> bybit_book \<times> unit result" where
  "bybit_apply_message b msg =
     (case jget msg ''data'' of
        JObj data \<Rightarrow>
          (case bybit_fields data of
             Inl e \<Rightarrow> (b, Inl e)
           | Inr (u, sq, bids, asks) \<Rightarrow>
               if jget msg ''type'' = JStr ''snapshot''
               then bybit_install b (snapshot_side bids) (snapshot_side asks) u sq
               else if jget msg ''type'' \<noteq> JStr ''delta''
               then (b, Inl (Raised ReplayError ''unrecognized Bybit order-book type''))
               else
                 (case (bybit_is_ready b, bb_update_id b, bb_sequence b) of
                    (True, Some prev_u, Some prev_sq) \<Rightarrow>
                      if prev_u + 1 < u
                      then (bybit_invalidate b, Inl (Raised SequenceGap ''order-book update gap''))
                      else if u \<le> prev_u
                      then (bybit_invalidate b,
                            Inl (Raised SequenceRegression ''order-book u regressed or repeated''))
                      else if sq \<le> prev_sq
                      then (bybit_invalidate b,
                            Inl (Raised SequenceRegression ''cross sequence did not increase''))
                      else bybit_install b (bybit_apply_levels (bb_bids b) bids)
                             (bybit_apply_levels (bb_asks b) asks) u sq
                  | _ \<Rightarrow> (b, Inl (Raised SnapshotRequired ''delta arrived before a valid snapshot''))))
      | _ \<Rightarrow> (b, Inl (Raised ReplayError ''order-book data must be an object'')))"

definition bybit_apply_event :: "bybit_book \<Rightarrow> raw_event \<Rightarrow> bybit_book \<times> unit result" where
  "bybit_apply_event b e =
     (if exchange e \<noteq> ''bybit'' \<or> channel e \<noteq> ''orderbook''
      then (b, Inl (Raised ReplayError ''BybitOrderBook accepts only Bybit orderbook events''))
      else if symbol e \<noteq> bb_symbol b
      then (b, Inl (Raised ReplayError ''book cannot accept event for another symbol''))
      else (case event_payload e of
              Inl x \<Rightarrow> (b, Inl x)
            | Inr msg \<Rightarrow> bybit_apply_message b msg))"

record replayed_book =
  rb_symbol :: string
  rb_update_id :: int
  rb_sequence :: int
  rb_bid_levels :: nat
  rb_ask_levels :: nat
  rb_best_bid :: rat
  rb_best_ask :: rat

definition bybit_snapshot :: "bybit_book \<Rightarrow> replayed_book result" where
  "bybit_snapshot b =
     (case (bybit_is_ready b, bb_update_id b, bb_sequence b) of
        (True, Some u, Some sq) \<Rightarrow>
          (let bids = rev (sort_key fst (bb_bids b)); asks = sort_key fst (bb_asks b)
           in Inr \<lparr>rb_symbol = bb_symbol b, rb_update_id = u, rb_sequence = sq,
                   rb_bid_levels = length bids, rb_ask_levels = length asks,
                   rb_best_bid = fst (hd bids), rb_best_ask = fst (hd asks)\<rparr>)
      | _ \<Rightarrow> Inl (Raised SnapshotRequired ''no valid snapshot''))"

section \<open>The ticker\<close>

record bybit_ticker =
  bt_symbol :: string
  bt_data :: "(string, json) dict option"
  bt_sequence :: "int option"

definition new_bybit_ticker :: "string \<Rightarrow> bybit_ticker" where
  "new_bybit_ticker s = \<lparr>bt_symbol = s, bt_data = None, bt_sequence = None\<rparr>"

definition bybit_ticker_invalidate :: "bybit_ticker \<Rightarrow> bybit_ticker" where
  "bybit_ticker_invalidate t = t\<lparr>bt_data := None, bt_sequence := None\<rparr>"

text \<open>\<open>dict.update\<close>.\<close>

definition dict_merge :: "('k, 'v) dict \<Rightarrow> ('k, 'v) dict \<Rightarrow> ('k, 'v) dict" where
  "dict_merge d e = foldl (\<lambda>m (k, v). AList.update k v m) d e"

definition bybit_ticker_apply :: "bybit_ticker \<Rightarrow> raw_event \<Rightarrow> bybit_ticker \<times> unit result" where
  "bybit_ticker_apply t e =
     (if exchange e \<noteq> ''bybit'' \<or> channel e \<noteq> ''ticker''
      then (t, Inl (Raised ReplayError ''BybitTickerState accepts only Bybit ticker events''))
      else if symbol e \<noteq> bt_symbol t
      then (t, Inl (Raised ReplayError ''ticker cannot accept event for another symbol''))
      else (case event_payload e of
        Inl x \<Rightarrow> (t, Inl x)
      | Inr msg \<Rightarrow>
          (case jget msg ''data'' of
             JObj data \<Rightarrow>
               (case bybit_required_int (jget msg ''cs'') of
                  Inl x \<Rightarrow> (t, Inl x)
                | Inr cs \<Rightarrow>
                    if jget msg ''type'' = JStr ''snapshot''
                    then (t\<lparr>bt_data := Some data, bt_sequence := Some cs\<rparr>, Inr ())
                    else if jget msg ''type'' \<noteq> JStr ''delta''
                    then (t, Inl (Raised ReplayError ''unrecognized Bybit ticker type''))
                    else
                      (case (bt_data t, bt_sequence t) of
                         (Some old, Some prev) \<Rightarrow>
                           if cs \<le> prev
                           then (bybit_ticker_invalidate t,
                                 Inl (Raised SequenceRegression ''ticker sequence did not increase''))
                           else (t\<lparr>bt_data := Some (dict_merge old data), bt_sequence := Some cs\<rparr>, Inr ())
                       | _ \<Rightarrow> (t, Inl (Raised SnapshotRequired ''ticker delta arrived before snapshot''))))
           | _ \<Rightarrow> (t, Inl (Raised ReplayError ''ticker data must be an object'')))))"

text \<open>What \<open>checksum\<close> digests.\<close>

definition bybit_ticker_state :: "bybit_ticker \<Rightarrow> (int \<times> (string, json) dict) result" where
  "bybit_ticker_state t =
     (case (bt_data t, bt_sequence t) of
        (Some d, Some sq) \<Rightarrow> Inr (sq, d)
      | _ \<Rightarrow> Inl (Raised SnapshotRequired ''no ticker snapshot''))"

section \<open>The session\<close>

record bybit_session =
  bs_books :: "(string, bybit_book) dict"
  bs_tickers :: "(string, bybit_ticker) dict"
  bs_book_connections :: "(string, string) dict"
  bs_ticker_connections :: "(string, string) dict"
  bs_channel_counts :: "(string, int) dict"
  bs_raw_event_count :: int

definition new_bybit_session :: bybit_session where
  "new_bybit_session =
     \<lparr>bs_books = [], bs_tickers = [], bs_book_connections = [], bs_ticker_connections = [],
      bs_channel_counts = [], bs_raw_event_count = 0\<rparr>"

text \<open>One event for a book together with the connection that last fed it.\<close>

definition bybit_book_step ::
    "bybit_book \<times> string option \<Rightarrow> raw_event \<Rightarrow> (bybit_book \<times> string option) \<times> unit result" where
  "bybit_book_step bc e =
     (let b = (if snd bc \<noteq> Some (connection_id e) then bybit_invalidate (fst bc) else fst bc)
      in case bybit_apply_event b e of (b', r) \<Rightarrow> ((b', Some (connection_id e)), r))"

definition bybit_ticker_step ::
    "bybit_ticker \<times> string option \<Rightarrow> raw_event \<Rightarrow> (bybit_ticker \<times> string option) \<times> unit result" where
  "bybit_ticker_step tc e =
     (let t = (if snd tc \<noteq> Some (connection_id e) then bybit_ticker_invalidate (fst tc) else fst tc)
      in case bybit_ticker_apply t e of (t', r) \<Rightarrow> ((t', Some (connection_id e)), r))"

definition bybit_session_apply :: "bybit_session \<Rightarrow> raw_event \<Rightarrow> bybit_session \<times> unit result" where
  "bybit_session_apply s e =
     (let s1 = s\<lparr>bs_raw_event_count := bs_raw_event_count s + 1,
                 bs_channel_counts := dict_count (bs_channel_counts s) (channel e)\<rparr>;
          sym = symbol e
      in if channel e = ''orderbook''
         then (case bybit_book_step
                 (dict_default (bs_books s) sym (new_bybit_book sym), map_of (bs_book_connections s) sym) e of
                 ((b, _), r) \<Rightarrow>
                   (s1\<lparr>bs_books := AList.update sym b (bs_books s),
                       bs_book_connections := AList.update sym (connection_id e) (bs_book_connections s)\<rparr>, r))
         else if channel e = ''ticker''
         then (case bybit_ticker_step
                 (dict_default (bs_tickers s) sym (new_bybit_ticker sym), map_of (bs_ticker_connections s) sym) e of
                 ((t, _), r) \<Rightarrow>
                   (s1\<lparr>bs_tickers := AList.update sym t (bs_tickers s),
                       bs_ticker_connections := AList.update sym (connection_id e) (bs_ticker_connections s)\<rparr>, r))
         else (s1, Inr ()))"

record bybit_report =
  br_raw_event_count :: int
  br_channel_counts :: "(string, int) dict"
  br_orderbooks :: "replayed_book list"
  br_tickers :: "(int \<times> (string, json) dict) list"

definition bybit_session_report :: "bybit_session \<Rightarrow> bybit_report result" where
  "bybit_session_report s =
     bindE (mapE bybit_snapshot
              (filter bybit_is_ready (map snd (sort_key fst (bs_books s))))) (\<lambda>books.
     bindE (mapE bybit_ticker_state
              (filter (\<lambda>t. bt_sequence t \<noteq> None) (map snd (sort_key fst (bs_tickers s))))) (\<lambda>tickers.
     Inr \<lparr>br_raw_event_count = bs_raw_event_count s,
          br_channel_counts = sort_key fst (bs_channel_counts s),
          br_orderbooks = books, br_tickers = tickers\<rparr>))"

text \<open>The loop over the events; the first exception leaves it.\<close>

fun bybit_session_run :: "bybit_session \<Rightarrow> raw_event list \<Rightarrow> bybit_session result" where
  "bybit_session_run s [] = Inr s"
| "bybit_session_run s (e # es) =
     (case bybit_session_apply s e of
        (_, Inl x) \<Rightarrow> Inl x
      | (s', Inr _) \<Rightarrow> bybit_session_run s' es)"

definition replay_bybit_stream :: "raw_event list \<Rightarrow> bybit_report result" where
  "replay_bybit_stream es = bindE (bybit_session_run new_bybit_session es) bybit_session_report"

definition replay_bybit :: "raw_event list \<Rightarrow> bybit_report result" where
  "replay_bybit es = replay_bybit_stream (receive_order es)"

section \<open>The outcomes of a message\<close>

lemma bybit_install_cases:
  assumes "bybit_install b bids asks u sq = (b', r)"
  obtains (rejected) x where "b' = b" "r = Inl x"
  | (installed) "b' = b\<lparr>bb_bids := bids, bb_asks := asks, bb_update_id := Some u, bb_sequence := Some sq\<rparr>"
      "r = Inr ()" "bybit_validate_book bids asks = Inr ()"
proof (cases "bybit_validate_book bids asks")
  case (Inl x)
  with assms rejected [of x] show thesis by (auto simp: bybit_install_def)
next
  case (Inr u)
  with assms installed show thesis by (auto simp: bybit_install_def)
qed

lemma bybit_fields_valid:
  "bybit_fields data = Inr (u, sq, bids, asks) \<Longrightarrow>
   (\<forall>l \<in> set bids. valid_level l) \<and> (\<forall>l \<in> set asks. valid_level l)"
  unfolding bybit_fields_def bybit_levels_def bindE_eq_Inr
  by (fast dest: pair_levels_valid)

text \<open>
  A message leaves the book unchanged and raises, invalidates it and raises, or installs new
  sides: those of a snapshot, or those of a delta with \<open>u\<close> one above and \<open>seq\<close> above
  the book's.
\<close>

lemma bybit_apply_message_cases:
  assumes "bybit_apply_message b msg = (b', r)"
  obtains (unchanged) x where "b' = b" "r = Inl x"
  | (invalidated) x where "b' = bybit_invalidate b" "r = Inl x"
  | (snapshot) data u sq bids asks where "jget msg ''data'' = JObj data"
      "jget msg ''type'' = JStr ''snapshot''"
      "bybit_fields data = Inr (u, sq, bids, asks)" "r = Inr ()"
      "bybit_validate_book (snapshot_side bids) (snapshot_side asks) = Inr ()"
      "b' = b\<lparr>bb_bids := snapshot_side bids, bb_asks := snapshot_side asks,
        bb_update_id := Some u, bb_sequence := Some sq\<rparr>"
  | (delta) data u sq bids asks prev_sq where "jget msg ''data'' = JObj data"
      "jget msg ''type'' = JStr ''delta''"
      "bybit_fields data = Inr (u, sq, bids, asks)" "r = Inr ()"
      "bybit_is_ready b" "bb_update_id b = Some (u - 1)" "bb_sequence b = Some prev_sq" "prev_sq < sq"
      "bybit_validate_book (bybit_apply_levels (bb_bids b) bids) (bybit_apply_levels (bb_asks b) asks) = Inr ()"
      "b' = b\<lparr>bb_bids := bybit_apply_levels (bb_bids b) bids, bb_asks := bybit_apply_levels (bb_asks b) asks,
        bb_update_id := Some u, bb_sequence := Some sq\<rparr>"
proof (cases "jget msg ''data''")
  case (JObj data)
  note d = JObj
  show thesis
  proof (cases "bybit_fields data")
    case (Inl x)
    with assms d unchanged [of x] show thesis by (auto simp: bybit_apply_message_def)
  next
    case (Inr f)
    obtain u sq bids asks where f: "f = (u, sq, bids, asks)" by (cases f) auto
    show thesis
    proof (cases "jget msg ''type'' = JStr ''snapshot''")
      case True
      with assms d Inr f
      have "bybit_install b (snapshot_side bids) (snapshot_side asks) u sq = (b', r)"
        by (simp add: bybit_apply_message_def)
      then show thesis
        using True d Inr f by (cases rule: bybit_install_cases) (auto intro: unchanged snapshot)
    next
      case False
      note ns = this
      show thesis
      proof (cases "jget msg ''type'' = JStr ''delta'' \<and> bybit_is_ready b \<and> bb_sequence b \<noteq> None")
        case False
        with assms d Inr f ns unchanged show thesis
          by (auto simp: bybit_apply_message_def split: option.splits if_splits bool.splits)
      next
        case True
        then obtain pu psq where b: "bb_update_id b = Some pu" "bb_sequence b = Some psq"
          by (auto simp: bybit_is_ready_def)
        show thesis
        proof (cases "u = pu + 1 \<and> psq < sq")
          case False
          with assms d Inr f ns True b invalidated show thesis
            by (auto simp: bybit_apply_message_def split: if_splits)
        next
          case ok: True
          with assms d Inr f ns True b
          have "bybit_install b (bybit_apply_levels (bb_bids b) bids)
              (bybit_apply_levels (bb_asks b) asks) u sq = (b', r)"
            by (simp add: bybit_apply_message_def)
          then show thesis
            using True d Inr f b ok by (cases rule: bybit_install_cases) (auto intro: unchanged delta)
        qed
      qed
    qed
  qed
qed (use assms unchanged in \<open>auto simp: bybit_apply_message_def\<close>)

section \<open>The book invariant\<close>

text \<open>A book is empty and unpositioned, or positioned with a well-formed uncrossed book.\<close>

definition bybit_book_inv :: "bybit_book \<Rightarrow> bool" where
  "bybit_book_inv b \<longleftrightarrow>
     (case bb_update_id b of
        None \<Rightarrow> bb_bids b = [] \<and> bb_asks b = [] \<and> bb_sequence b = None
      | Some _ \<Rightarrow> bb_sequence b \<noteq> None \<and> book_ok (bb_bids b) (bb_asks b))"

lemma bybit_invalidate_inv [simp]: "bybit_book_inv (bybit_invalidate b)"
  by (simp add: bybit_book_inv_def bybit_invalidate_def)

lemma new_bybit_book_inv [simp]: "bybit_book_inv (new_bybit_book s)"
  by (simp add: bybit_book_inv_def new_bybit_book_def)

lemma bybit_ready_inv:
  "bybit_book_inv b \<Longrightarrow> bybit_is_ready b \<Longrightarrow> bb_sequence b \<noteq> None \<and> book_ok (bb_bids b) (bb_asks b)"
  by (auto simp: bybit_book_inv_def bybit_is_ready_def)

lemma bybit_apply_message_inv:
  assumes "bybit_book_inv b" "bybit_apply_message b msg = (b', r)"
  shows "bybit_book_inv b'"
  using assms(2)
proof (cases rule: bybit_apply_message_cases)
  case (snapshot data u sq bids asks)
  have "book_ok (snapshot_side bids) (snapshot_side asks)"
    using bybit_fields_valid [OF snapshot(3)] snapshot(5)
    by (auto simp: bybit_validate_book_def intro!: validated_book_ok snapshot_side_ok)
  with snapshot show ?thesis by (simp add: bybit_book_inv_def)
next
  case (delta data u sq bids asks prev_sq)
  have "book_ok (bb_bids b) (bb_asks b)"
    using bybit_ready_inv [OF assms(1) delta(5)] by simp
  then have "side_ok (bb_bids b)" "side_ok (bb_asks b)"
    by (simp_all add: book_ok_def)
  then have "book_ok (bybit_apply_levels (bb_bids b) bids) (bybit_apply_levels (bb_asks b) asks)"
    using bybit_fields_valid [OF delta(3)] delta(9)
    unfolding bybit_validate_book_def bybit_apply_levels_def
    by (blast intro: validated_book_ok apply_levels_ok)
  with delta show ?thesis by (simp add: bybit_book_inv_def)
qed (use assms in simp_all)

lemma bybit_apply_event_inv:
  "bybit_book_inv b \<Longrightarrow> bybit_apply_event b e = (b', r) \<Longrightarrow> bybit_book_inv b'"
  by (auto simp: bybit_apply_event_def split: if_splits sum.splits dest: bybit_apply_message_inv)

lemma bybit_book_step_inv:
  "bybit_book_inv (fst bc) \<Longrightarrow> bybit_book_step bc e = (bc', r) \<Longrightarrow> bybit_book_inv (fst bc')"
  by (auto simp: bybit_book_step_def Let_def split: prod.splits if_splits
      dest!: bybit_apply_event_inv [rotated])

definition bybit_ticker_inv :: "bybit_ticker \<Rightarrow> bool" where
  "bybit_ticker_inv t \<longleftrightarrow> (bt_sequence t \<noteq> None \<longrightarrow> bt_data t \<noteq> None)"

lemma bybit_ticker_apply_inv:
  "bybit_ticker_inv t \<Longrightarrow> bybit_ticker_apply t e = (t', r) \<Longrightarrow> bybit_ticker_inv t'"
  by (auto simp: bybit_ticker_apply_def bybit_ticker_invalidate_def bybit_ticker_inv_def
      split: if_splits sum.splits json.splits option.splits)

lemma bybit_ticker_step_inv:
  assumes "bybit_ticker_inv (fst tc)" "bybit_ticker_step tc e = (tc', r)"
  shows "bybit_ticker_inv (fst tc')"
proof -
  define t where
    "t = (if snd tc \<noteq> Some (connection_id e) then bybit_ticker_invalidate (fst tc) else fst tc)"
  have "bybit_ticker_inv t"
    using assms(1) by (simp add: t_def bybit_ticker_inv_def bybit_ticker_invalidate_def)
  moreover obtain t' r' where "bybit_ticker_apply t e = (t', r')" by fastforce
  ultimately show ?thesis
    using assms(2) bybit_ticker_apply_inv by (auto simp: bybit_ticker_step_def t_def)
qed

definition bybit_session_inv :: "bybit_session \<Rightarrow> bool" where
  "bybit_session_inv s \<longleftrightarrow>
     dict_all bybit_book_inv (bs_books s) \<and> dict_all bybit_ticker_inv (bs_tickers s)"

lemma bybit_session_apply_inv:
  assumes "bybit_session_inv s" "bybit_session_apply s e = (s', r)"
  shows "bybit_session_inv s'"
proof -
  let ?sym = "symbol e"
  have b: "bybit_book_inv (dict_default (bs_books s) ?sym (new_bybit_book ?sym))"
    by (rule dict_all_default [where P = bybit_book_inv])
      (use assms(1) in \<open>simp_all add: bybit_session_inv_def\<close>)
  have t: "bybit_ticker_inv (dict_default (bs_tickers s) ?sym (new_bybit_ticker ?sym))"
    by (rule dict_all_default [where P = bybit_ticker_inv])
      (use assms(1) in \<open>simp_all add: bybit_session_inv_def bybit_ticker_inv_def new_bybit_ticker_def\<close>)
  obtain b' c' rb where bs: "bybit_book_step
      (dict_default (bs_books s) ?sym (new_bybit_book ?sym), map_of (bs_book_connections s) ?sym) e
      = ((b', c'), rb)" by (metis surj_pair)
  obtain t' d' rt where ts: "bybit_ticker_step
      (dict_default (bs_tickers s) ?sym (new_bybit_ticker ?sym), map_of (bs_ticker_connections s) ?sym) e
      = ((t', d'), rt)" by (metis surj_pair)
  have "bybit_book_inv b'" "bybit_ticker_inv t'"
    using bybit_book_step_inv [OF _ bs] bybit_ticker_step_inv [OF _ ts] b t by simp_all
  with assms bs ts show ?thesis
    by (auto simp: bybit_session_apply_def Let_def bybit_session_inv_def dict_all_update
        split: if_splits)
qed

lemma bybit_session_run_inv:
  "bybit_session_inv s \<Longrightarrow> bybit_session_run s es = Inr s' \<Longrightarrow> bybit_session_inv s'"
proof (induction es arbitrary: s)
  case (Cons e es)
  then obtain s1 where st: "bybit_session_apply s e = (s1, Inr ())" "bybit_session_run s1 es = Inr s'"
    by (auto split: prod.splits sum.splits)
  with Cons.IH bybit_session_apply_inv [OF Cons.prems(1) st(1)] show ?case by simp
qed simp

lemma new_bybit_session_inv: "bybit_session_inv new_bybit_session"
  by (simp add: bybit_session_inv_def new_bybit_session_def)

section \<open>The book as a sequence gate\<close>

text \<open>
  One book with the connection that feeds it, seen through the shared contract: its position
  is the update id of a ready book, and an event links to a position when its \<open>u\<close> is the
  next number.
\<close>

definition bybit_gate_step ::
    "bybit_book \<times> string option \<Rightarrow> raw_event \<Rightarrow> (bybit_book \<times> string option) \<times> bool result" where
  "bybit_gate_step g e = (case bybit_book_step g e of (g', r) \<Rightarrow> (g', map_sum id (\<lambda>_. True) r))"

definition bybit_position :: "bybit_book \<times> string option \<Rightarrow> int option" where
  "bybit_position g = (if bybit_is_ready (fst g) then bb_update_id (fst g) else None)"

definition event_message :: "raw_event \<Rightarrow> (string, json) dict" where
  "event_message e = (case payload_value e of JObj d \<Rightarrow> d | _ \<Rightarrow> [])"

definition bybit_event_is_snapshot :: "raw_event \<Rightarrow> bool" where
  "bybit_event_is_snapshot e = (jget (event_message e) ''type'' = JStr ''snapshot'')"

definition bybit_event_u :: "raw_event \<Rightarrow> int" where
  "bybit_event_u e =
     (case jget (event_message e) ''data'' of
        JObj data \<Rightarrow> (case bybit_required_int (jget data ''u'') of Inr u \<Rightarrow> u | Inl _ \<Rightarrow> 0)
      | _ \<Rightarrow> 0)"

lemma bybit_book_step_accepts:
  assumes "bybit_book_step (b, c) e = (g', Inr ())"
  shows "\<exists>b1. b1 = (if c \<noteq> Some (connection_id e) then bybit_invalidate b else b) \<and>
    bybit_apply_message b1 (event_message e) = (fst g', Inr ()) \<and> snd g' = Some (connection_id e)"
  using assms
  by (auto simp: bybit_book_step_def Let_def bybit_apply_event_def event_payload_def event_message_def
      split: prod.splits if_splits sum.splits json.splits)

lemma bybit_fields_u: "bybit_fields data = Inr (u, r) \<Longrightarrow> bybit_required_int (jget data ''u'') = Inr u"
  by (cases r) (auto simp: bybit_fields_def bindE_eq_Inr)

lemma book_nonempty:
  "bybit_validate_book bids asks = Inr u \<Longrightarrow> bids \<noteq> [] \<and> asks \<noteq> []"
  by (simp add: bybit_validate_book_def validate_book_Inr)

lemma bybit_not_ready_invalidated [simp]: "\<not> bybit_is_ready (bybit_invalidate b)"
  by (simp add: bybit_is_ready_def bybit_invalidate_def)

lemma bybit_apply_event_failure:
  assumes "bybit_apply_event b e = (b', Inl x)"
  shows "b' = b \<or> b' = bybit_invalidate b"
proof (cases "exchange e \<noteq> ''bybit'' \<or> channel e \<noteq> ''orderbook'' \<or> symbol e \<noteq> bb_symbol b")
  case True
  with assms show ?thesis by (auto simp: bybit_apply_event_def split: if_splits)
next
  case False
  show ?thesis
  proof (cases "event_payload e")
    case (Inl y)
    with assms False show ?thesis by (simp add: bybit_apply_event_def)
  next
    case (Inr msg)
    with assms False have "bybit_apply_message b msg = (b', Inl x)"
      by (simp add: bybit_apply_event_def)
    then show ?thesis by (cases rule: bybit_apply_message_cases) auto
  qed
qed

lemma bybit_position_invalidated [simp]: "bybit_position (bybit_invalidate b, c) = None"
  by (simp add: bybit_position_def)

lemma bybit_failure_law:
  assumes "bybit_book_step (b, c) e = (g', Inl x)"
  shows "g' = (b, c) \<or> bybit_position g' = None"
proof (cases "c = Some (connection_id e)")
  case True
  then have "bybit_apply_event b e = (fst g', Inl x)" "snd g' = c"
    using assms by (auto simp: bybit_book_step_def split: prod.splits)
  with bybit_apply_event_failure [OF this(1)] show ?thesis
    by (cases g') auto
next
  case False
  then have "bybit_apply_event (bybit_invalidate b) e = (fst g', Inl x)"
    using assms by (auto simp: bybit_book_step_def split: prod.splits)
  from bybit_apply_event_failure [OF this] show ?thesis
    by (cases g') (auto simp: bybit_position_def)
qed

interpretation bybit_gate: sequence_gate bybit_gate_step bybit_position snd
  bybit_event_is_snapshot bybit_event_u "\<lambda>s e. bybit_event_u e = s + 1" connection_id
proof (unfold_locales, goal_cases)
  case (1 g e g')
  obtain b c where g: "g = (b, c)" by (cases g)
  with 1 have "bybit_book_step (b, c) e = (g', Inr ())"
    by (auto simp: bybit_gate_step_def map_sum_eq split: prod.splits)
  from bybit_book_step_accepts [OF this] obtain b1 where
    m: "bybit_apply_message b1 (event_message e) = (fst g', Inr ())" "snd g' = Some (connection_id e)"
    by blast
  from m(1) 1(2) show ?case
    by (cases rule: bybit_apply_message_cases)
      (auto simp: bybit_event_is_snapshot_def bybit_position_def bybit_is_ready_def bybit_event_u_def
        m(2) dest: bybit_fields_u book_nonempty)
next
  case (2 g e g')
  obtain b c where g: "g = (b, c)" by (cases g)
  with 2 have "bybit_book_step (b, c) e = (g', Inr ())"
    by (auto simp: bybit_gate_step_def map_sum_eq split: prod.splits)
  from bybit_book_step_accepts [OF this] obtain b1 where
    m: "b1 = (if c \<noteq> Some (connection_id e) then bybit_invalidate b else b)"
      "bybit_apply_message b1 (event_message e) = (fst g', Inr ())" "snd g' = Some (connection_id e)"
    by blast
  from m(2) show ?case
  proof (cases rule: bybit_apply_message_cases)
    case (delta data u sq bids asks prev_sq)
    have c: "c = Some (connection_id e)" "b1 = b"
      using m(1) delta(5) by (auto split: if_splits)
    with delta m(3) g show ?thesis
      by (auto simp: bybit_position_def bybit_is_ready_def bybit_event_u_def
          dest: bybit_fields_u book_nonempty)
  qed (use 2 in \<open>auto simp: bybit_event_is_snapshot_def\<close>)
next
  case (3 g e g')
  then show ?case
    by (auto simp: bybit_gate_step_def map_sum_eq split: prod.splits)
next
  case (4 g e g' x)
  obtain b c where g: "g = (b, c)" by (cases g)
  with 4 obtain y where "bybit_book_step (b, c) e = (g', Inl y)"
    by (auto simp: bybit_gate_step_def map_sum_eq split: prod.splits)
  with g show ?case
    by (auto dest: bybit_failure_law)
qed

section \<open>Properties\<close>

lemma bybit_snapshot_of_ready:
  assumes "bybit_book_inv b" "bybit_is_ready b"
  shows "\<exists>rb. bybit_snapshot b = Inr rb \<and> rb_best_bid rb = best_bid_of (bb_bids b) \<and>
    rb_best_ask rb = best_ask_of (bb_asks b) \<and> rb_best_bid rb < rb_best_ask rb \<and> 0 < rb_best_bid rb"
proof -
  from assms obtain u where u: "bb_update_id b = Some u" by (auto simp: bybit_is_ready_def)
  from bybit_ready_inv [OF assms] obtain sq where sq: "bb_sequence b = Some sq"
    and ok: "book_ok (bb_bids b) (bb_asks b)" by auto
  from ok have ne: "bb_bids b \<noteq> []" "bb_asks b \<noteq> []" "dict_ok (bb_bids b)" "dict_ok (bb_asks b)"
    by (auto simp: book_ok_def side_ok_def)
  from book_ok_best [OF ok] show ?thesis
    using assms(2) u sq sorted_sides_best [OF ne(1,3)] sorted_sides_best [OF ne(2,4)]
    by (simp add: bybit_snapshot_def Let_def)
qed

lemma bybit_ready_books:
  "bybit_session_inv s \<Longrightarrow>
   b \<in> set (filter bybit_is_ready (map snd (sort_key fst (bs_books s)))) \<Longrightarrow>
   bybit_book_inv b \<and> bybit_is_ready b"
  by (auto simp: bybit_session_inv_def dict_all_iff)

text \<open>
  A replay that reaches its end reports only sound books: in every book of the report
  the best bid is positive and strictly below the best ask.
\<close>

theorem bybit_report_uncrossed:
  assumes "replay_bybit_stream es = Inr rep" "rb \<in> set (br_orderbooks rep)"
  shows "0 < rb_best_bid rb \<and> rb_best_bid rb < rb_best_ask rb"
proof -
  from assms(1) obtain s where s: "bybit_session_run new_bybit_session es = Inr s"
    and r: "bybit_session_report s = Inr rep"
    by (auto simp: replay_bybit_stream_def bindE_eq_Inr)
  have inv: "bybit_session_inv s"
    using bybit_session_run_inv [OF new_bybit_session_inv s] .
  from r have "mapE bybit_snapshot (filter bybit_is_ready (map snd (sort_key fst (bs_books s))))
      = Inr (br_orderbooks rep)"
    by (auto simp: bybit_session_report_def bindE_eq_Inr)
  from mapE_set [OF this assms(2)] obtain b where
    b: "b \<in> set (filter bybit_is_ready (map snd (sort_key fst (bs_books s))))" "bybit_snapshot b = Inr rb"
    by blast
  from bybit_ready_books [OF inv b(1)] bybit_snapshot_of_ready b(2) show ?thesis by fastforce
qed

text \<open>
  Building the report raises nothing: a replay fails only where an event is refused,
  never afterwards.
\<close>

theorem bybit_report_total:
  assumes "bybit_session_run new_bybit_session es = Inr s"
  shows "\<exists>rep. replay_bybit_stream es = Inr rep"
proof -
  have inv: "bybit_session_inv s"
    using bybit_session_run_inv [OF new_bybit_session_inv assms] .
  obtain books where "mapE bybit_snapshot
      (filter bybit_is_ready (map snd (sort_key fst (bs_books s)))) = Inr books"
    using mapE_total bybit_ready_books [OF inv] bybit_snapshot_of_ready by metis
  moreover have "\<exists>y. bybit_ticker_state t = Inr y"
    if "t \<in> set (filter (\<lambda>t. bt_sequence t \<noteq> None) (map snd (sort_key fst (bs_tickers s))))" for t
    using that inv
    by (auto simp: bybit_session_inv_def dict_all_iff bybit_ticker_inv_def bybit_ticker_state_def
        split: option.split)
  then obtain tickers where "mapE bybit_ticker_state
      (filter (\<lambda>t. bt_sequence t \<noteq> None) (map snd (sort_key fst (bs_tickers s)))) = Inr tickers"
    using mapE_total by metis
  ultimately show ?thesis
    using assms by (simp add: replay_bybit_stream_def bybit_session_report_def)
qed

text \<open>
  An accepted delta changes exactly the named prices: afterwards a price has the size
  the delta names last for it, no entry if that size is zero, and its old size if the delta
  does not name it.
\<close>

theorem bybit_delta_refines_map:
  assumes "bybit_book_inv b" "jget msg ''type'' = JStr ''delta''"
    "jget msg ''data'' = JObj data" "bybit_fields data = Inr (u, sq, bids, asks)"
    "bybit_apply_message b msg = (b', Inr ())"
  shows "map_of (bb_bids b') p =
      (case last_size bids p of None \<Rightarrow> map_of (bb_bids b) p | Some s \<Rightarrow> if s = 0 then None else Some s) \<and>
    map_of (bb_asks b') p =
      (case last_size asks p of None \<Rightarrow> map_of (bb_asks b) p | Some s \<Rightarrow> if s = 0 then None else Some s) \<and>
    bb_update_id b' = Some u \<and> bb_update_id b = Some (u - 1)"
  using assms(5)
proof (cases rule: bybit_apply_message_cases)
  case (delta data' u' sq' bids' asks' prev_sq)
  with assms have eq: "u' = u" "bids' = bids" "asks' = asks" by auto
  from bybit_ready_inv [OF assms(1) delta(5)] have "dict_ok (bb_bids b)" "dict_ok (bb_asks b)"
    by (auto simp: book_ok_def side_ok_def)
  with delta eq show ?thesis by (simp add: bybit_apply_levels_def apply_levels_lookup)
qed (use assms in auto)

text \<open>
  C32. Contiguity. Whatever events a book is fed, and however many of them fail, a positioned
  book stands at the end of a chain: the accepted events since the last accepted snapshot
  carry consecutive \<open>u\<close> numbers and come from one connection.
\<close>

theorem bybit_book_contiguous:
  assumes "gate_history bybit_gate_step bybit_event_is_snapshot bybit_position
      (new_bybit_book name, None) [] es = (g, h)"
    "bybit_position g = Some s"
  shows "linked_chain bybit_event_is_snapshot bybit_event_u (\<lambda>s e. bybit_event_u e = s + 1) connection_id h \<and>
    s = bybit_event_u (last h) \<and> snd g = Some (connection_id (hd h))"
proof -
  have "bybit_position (new_bybit_book name, None) = None"
    by (simp add: bybit_position_def new_bybit_book_def)
  from bybit_gate.positioned_by_chain [OF this assms] show ?thesis .
qed

text \<open>
  C0. The bounded replay does not depend on the order in which its events are listed, as
  long as no two share receive time, sequence and id.
\<close>

theorem replay_bybit_order_independent:
  assumes "mset es = mset fs" "distinct (map receive_key es)"
  shows "replay_bybit es = replay_bybit fs"
  using receive_order_unique [OF assms] by (simp add: replay_bybit_def)

section \<open>A concrete stream\<close>

definition int_level :: "int \<Rightarrow> int \<Rightarrow> json" where
  "int_level p s = JList [JInt p, JInt s]"

definition bybit_demo_payload :: "string \<Rightarrow> int \<Rightarrow> int \<Rightarrow> json list \<Rightarrow> json list \<Rightarrow> (string, json) dict" where
  "bybit_demo_payload ty u sq bids asks =
     [(''type'', JStr ty),
      (''data'', JObj [(''u'', JInt u), (''seq'', JInt sq), (''b'', JList bids), (''a'', JList asks)])]"

definition bybit_demo_event :: "int \<Rightarrow> string \<Rightarrow> int \<Rightarrow> int \<Rightarrow> json list \<Rightarrow> json list \<Rightarrow> raw_event" where
  "bybit_demo_event n ty u sq bids asks =
     \<lparr>schema_version = 1, ingestion_version = ''greenfield-bybit-raw-v1'', event_id = ''e'',
      exchange = ''bybit'', market_type = ''linear'', channel = ''orderbook'',
      topic = ''orderbook.50.BTCUSDT'', symbol = ''BTCUSDT'', message_type = ty,
      exchange_ts_ms = None, receive_ts_ns = n, receive_sequence = n, matching_ts_ms = None,
      sequence = None, update_id = None, connection_id = ''c1'',
      payload_value = JObj (bybit_demo_payload ty u sq bids asks)\<rparr>"

definition bybit_demo :: "raw_event list" where
  "bybit_demo =
     [bybit_demo_event 1 ''snapshot'' 7 40 [int_level 100 2, int_level 99 1] [int_level 101 3],
      bybit_demo_event 2 ''delta'' 8 41 [int_level 100 0] [int_level 102 5]]"

lemmas bybit_eval =
  bybit_demo_def bybit_demo_event_def bybit_demo_payload_def int_level_def
  new_bybit_session_def new_bybit_book_def bybit_session_apply_def bybit_book_step_def
  bybit_apply_event_def bybit_apply_message_def bybit_fields_def bybit_levels_def
  bybit_required_int_def bybit_install_def bybit_validate_book_def bybit_apply_levels_def
  bybit_is_ready_def bybit_invalidate_def event_payload_def parse_levels_def pair_level_def
  decimal_pair_def validate_book_def best_bid_of_def best_ask_of_def snapshot_side_def
  dict_default_def dict_count_def jget_def bybit_session_report_def bybit_snapshot_def
  bybit_ticker_state_def replay_bybit_stream_def Let_def

lemma bybit_demo_run:
  "bybit_session_run new_bybit_session bybit_demo =
     Inr \<lparr>bs_books = [(''BTCUSDT'', \<lparr>bb_symbol = ''BTCUSDT'', bb_bids = [(99, 1)],
            bb_asks = [(101, 3), (102, 5)], bb_update_id = Some 8, bb_sequence = Some 41\<rparr>)],
          bs_tickers = [], bs_book_connections = [(''BTCUSDT'', ''c1'')], bs_ticker_connections = [],
          bs_channel_counts = [(''orderbook'', 2)], bs_raw_event_count = 2\<rparr>"
  by (simp add: bybit_eval)

lemma bybit_demo_report:
  "replay_bybit_stream bybit_demo =
     Inr \<lparr>br_raw_event_count = 2, br_channel_counts = [(''orderbook'', 2)],
          br_orderbooks = [\<lparr>rb_symbol = ''BTCUSDT'', rb_update_id = 8, rb_sequence = 41,
            rb_bid_levels = 1, rb_ask_levels = 2, rb_best_bid = 99, rb_best_ask = 101\<rparr>],
          br_tickers = []\<rparr>"
  by (simp add: replay_bybit_stream_def bybit_demo_run)
    (simp add: bybit_session_report_def bybit_is_ready_def bybit_snapshot_def)

lemma bybit_report_uncrossed_witness:
  "\<exists>rep rb. replay_bybit_stream bybit_demo = Inr rep \<and> rb \<in> set (br_orderbooks rep) \<and>
     0 < rb_best_bid rb \<and> rb_best_bid rb < rb_best_ask rb"
  using bybit_report_uncrossed [OF bybit_demo_report] by (simp add: bybit_demo_report)

lemma bybit_report_total_witness: "\<exists>rep. replay_bybit_stream bybit_demo = Inr rep"
  by (rule bybit_report_total [OF bybit_demo_run])

lemma bybit_delta_refines_map_witness:
  "\<exists>b'. bybit_apply_message
       (\<lparr>bb_symbol = ''BTCUSDT'', bb_bids = [(100, 2), (99, 1)], bb_asks = [(101, 3)],
         bb_update_id = Some 7, bb_sequence = Some 40\<rparr>)
       (bybit_demo_payload ''delta'' 8 41 [int_level 100 0] [int_level 102 5]) = (b', Inr ()) \<and>
     map_of (bb_bids b') 100 = None \<and> map_of (bb_asks b') 102 = Some 5"
proof -
  let ?b = "\<lparr>bb_symbol = ''BTCUSDT'', bb_bids = [(100, 2), (99, 1)], bb_asks = [(101, 3)],
    bb_update_id = Some 7, bb_sequence = Some 40\<rparr>"
  let ?data = "[(''u'', JInt 8), (''seq'', JInt 41), (''b'', JList [int_level 100 0]),
    (''a'', JList [int_level 102 5])]"
  let ?msg = "bybit_demo_payload ''delta'' 8 41 [int_level 100 0] [int_level 102 5]"
  obtain b' where step: "bybit_apply_message ?b ?msg = (b', Inr ())"
    by (simp add: bybit_eval)
  have inv: "bybit_book_inv ?b"
    by (simp add: bybit_book_inv_def book_ok_def side_ok_def)
  have data: "jget ?msg ''type'' = JStr ''delta''" "jget ?msg ''data'' = JObj ?data"
    by (simp_all add: bybit_demo_payload_def jget_def)
  have fields: "bybit_fields ?data = Inr (8, 41, [(100, 0)], [(102, 5)])"
    by (simp add: bybit_eval)
  from bybit_delta_refines_map [OF inv data fields step, of 100]
    bybit_delta_refines_map [OF inv data fields step, of 102] step
  show ?thesis by (simp add: last_size_def)
qed

lemma bybit_book_contiguous_witness:
  "\<exists>g h. gate_history bybit_gate_step bybit_event_is_snapshot bybit_position
      (new_bybit_book ''BTCUSDT'', None) [] bybit_demo = (g, h) \<and> length h = 2 \<and>
    linked_chain bybit_event_is_snapshot bybit_event_u (\<lambda>s e. bybit_event_u e = s + 1) connection_id h"
proof -
  obtain g h where run: "gate_history bybit_gate_step bybit_event_is_snapshot bybit_position
      (new_bybit_book ''BTCUSDT'', None) [] bybit_demo = (g, h)" "bybit_position g = Some 8" "length h = 2"
    by (simp add: bybit_eval bybit_gate_step_def bybit_event_is_snapshot_def event_message_def
        bybit_position_def)
  from bybit_book_contiguous [OF run(1,2)] run show ?thesis by blast
qed

lemma replay_bybit_order_independent_witness:
  "replay_bybit (rev bybit_demo) = replay_bybit bybit_demo"
  by (rule replay_bybit_order_independent)
    (simp_all add: bybit_demo_def bybit_demo_event_def receive_key_def)

end
