(* ===== verification/L2_Book.thy ===== *)
theory L2_Book
  imports Order_Book
begin

text \<open>
  The book and the session that \<open>okx_replay.py\<close>, \<open>deribit_replay.py\<close> and
  \<open>binance_replay.py\<close> share up to the names of their exceptions and of the position
  field: a book with one position, installed by a snapshot and advanced by a delta the
  venue's gate has accepted, and a session that keeps a book and a gate per symbol. What a
  finished replay reports is proved once, in a locale over the session step.
\<close>

section \<open>The book\<close>

record l2_book =
  l2_symbol :: string
  l2_bids :: side
  l2_asks :: side
  l2_position :: "int option"

definition new_l2_book :: "string \<Rightarrow> l2_book" where
  "new_l2_book s = \<lparr>l2_symbol = s, l2_bids = [], l2_asks = [], l2_position = None\<rparr>"

definition l2_is_ready :: "l2_book \<Rightarrow> bool" where
  "l2_is_ready b \<longleftrightarrow> l2_bids b \<noteq> [] \<and> l2_asks b \<noteq> [] \<and> l2_position b \<noteq> None"

definition l2_install :: "l2_book \<Rightarrow> side \<Rightarrow> side \<Rightarrow> int \<Rightarrow> l2_book \<times> unit result" where
  "l2_install b bids asks n =
     (case validate_book InvalidOrderBook bids asks of
        Inl e \<Rightarrow> (b, Inl e)
      | Inr _ \<Rightarrow> (b\<lparr>l2_bids := bids, l2_asks := asks, l2_position := Some n\<rparr>, Inr ()))"

text \<open>The tail of every \<open>apply_message\<close> and \<open>apply_delta\<close>, on parsed levels.\<close>

definition l2_delta :: "exn_class \<Rightarrow> l2_book \<Rightarrow> levels \<Rightarrow> levels \<Rightarrow> int \<Rightarrow> l2_book \<times> unit result" where
  "l2_delta cls b bids asks n =
     (if \<not> l2_is_ready b then (b, Inl (Raised cls ''delta arrived before a valid snapshot''))
      else l2_install b (apply_levels (l2_bids b) bids) (apply_levels (l2_asks b) asks) n)"

definition l2_load :: "l2_book \<Rightarrow> levels \<Rightarrow> levels \<Rightarrow> int \<Rightarrow> l2_book \<times> unit result" where
  "l2_load b bids asks n = l2_install b (snapshot_side bids) (snapshot_side asks) n"

record l2_replayed =
  lr_symbol :: string
  lr_position :: int
  lr_bid_levels :: nat
  lr_ask_levels :: nat
  lr_best_bid :: rat
  lr_best_ask :: rat

definition l2_snapshot :: "exn_class \<Rightarrow> l2_book \<Rightarrow> l2_replayed result" where
  "l2_snapshot cls b =
     (case (l2_is_ready b, l2_position b) of
        (True, Some n) \<Rightarrow>
          (let bids = rev (sort_key fst (l2_bids b)); asks = sort_key fst (l2_asks b)
           in Inr \<lparr>lr_symbol = l2_symbol b, lr_position = n,
                   lr_bid_levels = length bids, lr_ask_levels = length asks,
                   lr_best_bid = fst (hd bids), lr_best_ask = fst (hd asks)\<rparr>)
      | _ \<Rightarrow> Inl (Raised cls ''no valid snapshot''))"

section \<open>The book invariant\<close>

definition l2_inv :: "l2_book \<Rightarrow> bool" where
  "l2_inv b \<longleftrightarrow>
     (case l2_position b of
        None \<Rightarrow> l2_bids b = [] \<and> l2_asks b = []
      | Some _ \<Rightarrow> book_ok (l2_bids b) (l2_asks b))"

lemma new_l2_book_inv [simp]: "l2_inv (new_l2_book s)"
  by (simp add: l2_inv_def new_l2_book_def)

lemma l2_ready_ok: "l2_inv b \<Longrightarrow> l2_is_ready b \<Longrightarrow> book_ok (l2_bids b) (l2_asks b)"
  by (auto simp: l2_inv_def l2_is_ready_def)

lemma l2_install_cases:
  assumes "l2_install b bids asks n = (b', r)"
  obtains (rejected) x where "b' = b" "r = Inl x"
  | (installed) "b' = b\<lparr>l2_bids := bids, l2_asks := asks, l2_position := Some n\<rparr>" "r = Inr ()"
      "validate_book InvalidOrderBook bids asks = Inr ()"
proof (cases "validate_book InvalidOrderBook bids asks")
  case (Inl x)
  with assms rejected [of x] show thesis by (auto simp: l2_install_def)
next
  case (Inr u)
  with assms installed show thesis by (auto simp: l2_install_def)
qed

lemma l2_install_inv:
  assumes "l2_inv b" "side_ok bids" "side_ok asks" "l2_install b bids asks n = (b', r)"
  shows "l2_inv b'"
  using assms(4)
proof (cases rule: l2_install_cases)
  case installed
  with validated_book_ok [OF installed(3) assms(2,3)] show ?thesis by (simp add: l2_inv_def)
qed (use assms in simp)

lemma l2_load_inv:
  "l2_inv b \<Longrightarrow> \<forall>l \<in> set bids. valid_level l \<Longrightarrow> \<forall>l \<in> set asks. valid_level l \<Longrightarrow>
   l2_load b bids asks n = (b', r) \<Longrightarrow> l2_inv b'"
  unfolding l2_load_def by (blast intro: l2_install_inv snapshot_side_ok)

lemma l2_delta_inv:
  assumes "l2_inv b" "\<forall>l \<in> set bids. valid_level l" "\<forall>l \<in> set asks. valid_level l"
    "l2_delta cls b bids asks n = (b', r)"
  shows "l2_inv b'"
proof (cases "l2_is_ready b")
  case True
  with assms(1) have "side_ok (l2_bids b)" "side_ok (l2_asks b)"
    using l2_ready_ok by (auto simp: book_ok_def)
  with assms True show ?thesis
    unfolding l2_delta_def by (auto intro: l2_install_inv apply_levels_ok)
qed (use assms in \<open>auto simp: l2_delta_def\<close>)

text \<open>An accepted delta overwrites exactly the prices it names.\<close>

lemma l2_delta_lookup:
  assumes "l2_inv b" "l2_delta cls b bids asks n = (b', Inr ())"
  shows "map_of (l2_bids b') p =
      (case last_size bids p of None \<Rightarrow> map_of (l2_bids b) p | Some s \<Rightarrow> if s = 0 then None else Some s) \<and>
    map_of (l2_asks b') p =
      (case last_size asks p of None \<Rightarrow> map_of (l2_asks b) p | Some s \<Rightarrow> if s = 0 then None else Some s) \<and>
    l2_position b' = Some n"
proof -
  have ready: "l2_is_ready b" using assms(2) by (auto simp: l2_delta_def split: if_splits)
  with l2_ready_ok [OF assms(1)] have "dict_ok (l2_bids b)" "dict_ok (l2_asks b)"
    by (simp_all add: book_ok_def side_ok_def)
  with assms(2) ready show ?thesis
    by (auto simp: l2_delta_def apply_levels_lookup elim!: l2_install_cases)
qed

section \<open>The session\<close>

record 'g l2_session =
  ls_books :: "(string, l2_book) dict"
  ls_gates :: "(string, 'g) dict"
  ls_channel_counts :: "(string, int) dict"
  ls_raw_event_count :: int

definition new_l2_session :: "'g l2_session" where
  "new_l2_session =
     \<lparr>ls_books = [], ls_gates = [], ls_channel_counts = [], ls_raw_event_count = 0\<rparr>"

text \<open>Every event of the venue is counted, whatever its channel.\<close>

definition l2_count :: "'g l2_session \<Rightarrow> raw_event \<Rightarrow> 'g l2_session" where
  "l2_count s e =
     s\<lparr>ls_raw_event_count := ls_raw_event_count s + 1,
       ls_channel_counts := dict_count (ls_channel_counts s) (channel e)\<rparr>"

record l2_report =
  lp_raw_event_count :: int
  lp_channel_counts :: "(string, int) dict"
  lp_orderbooks :: "l2_replayed list"

definition l2_session_report :: "exn_class \<Rightarrow> 'g l2_session \<Rightarrow> l2_report result" where
  "l2_session_report cls s =
     bindE (mapE (l2_snapshot cls) (filter l2_is_ready (map snd (sort_key fst (ls_books s))))) (\<lambda>books.
     Inr \<lparr>lp_raw_event_count = ls_raw_event_count s,
          lp_channel_counts = sort_key fst (ls_channel_counts s), lp_orderbooks = books\<rparr>)"

text \<open>The loop over the events; the first exception leaves it.\<close>

fun l2_run :: "('s \<Rightarrow> raw_event \<Rightarrow> 's \<times> unit result) \<Rightarrow> 's \<Rightarrow> raw_event list \<Rightarrow> 's result" where
  "l2_run step s [] = Inr s"
| "l2_run step s (e # es) =
     (case step s e of (_, Inl x) \<Rightarrow> Inl x | (s', Inr _) \<Rightarrow> l2_run step s' es)"

definition l2_replay :: "('g l2_session \<Rightarrow> raw_event \<Rightarrow> 'g l2_session \<times> unit result) \<Rightarrow> exn_class
    \<Rightarrow> raw_event list \<Rightarrow> l2_report result" where
  "l2_replay step cls es = bindE (l2_run step new_l2_session es) (l2_session_report cls)"

definition l2_books_inv :: "'g l2_session \<Rightarrow> bool" where
  "l2_books_inv s \<longleftrightarrow> dict_all l2_inv (ls_books s)"

lemma new_l2_session_inv [simp]: "l2_books_inv new_l2_session"
  by (simp add: l2_books_inv_def new_l2_session_def)

lemma l2_count_inv [simp]: "l2_books_inv (l2_count s e) = l2_books_inv s"
  by (simp add: l2_books_inv_def l2_count_def)

lemma l2_book_default:
  "l2_books_inv s \<Longrightarrow> l2_inv (dict_default (ls_books s) k (new_l2_book k))"
  unfolding l2_books_inv_def by (rule dict_all_default [where P = l2_inv]) simp_all

lemma l2_snapshot_of_ready:
  assumes "l2_inv b" "l2_is_ready b"
  shows "\<exists>rb. l2_snapshot cls b = Inr rb \<and> 0 < lr_best_bid rb \<and> lr_best_bid rb < lr_best_ask rb"
proof -
  from assms obtain n where n: "l2_position b = Some n" by (auto simp: l2_is_ready_def)
  from l2_ready_ok [OF assms] have ok: "book_ok (l2_bids b) (l2_asks b)" .
  then have ne: "l2_bids b \<noteq> []" "l2_asks b \<noteq> []" "dict_ok (l2_bids b)" "dict_ok (l2_asks b)"
    by (auto simp: book_ok_def side_ok_def)
  from book_ok_best [OF ok] show ?thesis
    using assms(2) n sorted_sides_best [OF ne(1,3)] sorted_sides_best [OF ne(2,4)]
    by (simp add: l2_snapshot_def Let_def)
qed

locale book_feed =
  fixes step :: "'g l2_session \<Rightarrow> raw_event \<Rightarrow> 'g l2_session \<times> unit result"
    and cls :: exn_class
  assumes step_inv: "l2_books_inv s \<Longrightarrow> step s e = (s', r) \<Longrightarrow> l2_books_inv s'"
begin

lemma run_inv: "l2_books_inv s \<Longrightarrow> l2_run step s es = Inr s' \<Longrightarrow> l2_books_inv s'"
proof (induction es arbitrary: s)
  case (Cons e es)
  then obtain s1 where st: "step s e = (s1, Inr ())" "l2_run step s1 es = Inr s'"
    by (auto split: prod.splits sum.splits)
  with Cons.IH step_inv [OF Cons.prems(1) st(1)] show ?case by simp
qed simp

lemma ready_books:
  "l2_books_inv s \<Longrightarrow> b \<in> set (filter l2_is_ready (map snd (sort_key fst (ls_books s)))) \<Longrightarrow>
   l2_inv b \<and> l2_is_ready b"
  by (auto simp: l2_books_inv_def dict_all_iff)

text \<open>Once the events are through, the report is built without an exception.\<close>

lemma report_total: "l2_run step new_l2_session es = Inr s \<Longrightarrow> \<exists>rep. l2_replay step cls es = Inr rep"
proof -
  assume run: "l2_run step new_l2_session es = Inr s"
  have inv: "l2_books_inv s" using run_inv [OF new_l2_session_inv run] .
  obtain books where
    "mapE (l2_snapshot cls) (filter l2_is_ready (map snd (sort_key fst (ls_books s)))) = Inr books"
    using mapE_total ready_books [OF inv] l2_snapshot_of_ready by metis
  with run show ?thesis by (simp add: l2_replay_def l2_session_report_def)
qed

text \<open>Every reported book is sound.\<close>

lemma report_uncrossed:
  assumes "l2_replay step cls es = Inr rep" "rb \<in> set (lp_orderbooks rep)"
  shows "0 < lr_best_bid rb \<and> lr_best_bid rb < lr_best_ask rb"
proof -
  from assms(1) obtain s where s: "l2_run step new_l2_session es = Inr s"
    and r: "l2_session_report cls s = Inr rep"
    by (auto simp: l2_replay_def bindE_eq_Inr)
  have inv: "l2_books_inv s" using run_inv [OF new_l2_session_inv s] .
  from r have "mapE (l2_snapshot cls) (filter l2_is_ready (map snd (sort_key fst (ls_books s))))
      = Inr (lp_orderbooks rep)"
    by (auto simp: l2_session_report_def bindE_eq_Inr)
  from mapE_set [OF this assms(2)] obtain b where
    b: "b \<in> set (filter l2_is_ready (map snd (sort_key fst (ls_books s))))" "l2_snapshot cls b = Inr rb"
    by blast
  from ready_books [OF inv b(1)] l2_snapshot_of_ready [of b cls] b(2) show ?thesis by auto
qed

end

text \<open>
  A feed whose books follow its gates: as long as no step raises, the book of a symbol stands
  at the position of the symbol's gate.
\<close>

definition l2_in_step :: "('g \<Rightarrow> int option) \<Rightarrow> 'g l2_session \<Rightarrow> bool" where
  "l2_in_step gpos s \<longleftrightarrow>
     (\<forall>k g n. map_of (ls_gates s) k = Some g \<longrightarrow> gpos g = Some n \<longrightarrow>
        (\<exists>b. map_of (ls_books s) k = Some b \<and> l2_is_ready b \<and> l2_position b = Some n))"

lemma new_l2_session_in_step [simp]: "l2_in_step gpos new_l2_session"
  by (simp add: l2_in_step_def new_l2_session_def)

lemma l2_count_in_step [simp]: "l2_in_step gpos (l2_count s e) = l2_in_step gpos s"
  by (simp add: l2_in_step_def l2_count_def)

lemma l2_count_parts [simp]:
  "ls_books (l2_count s e) = ls_books s" "ls_gates (l2_count s e) = ls_gates s"
  by (simp_all add: l2_count_def)

text \<open>A gate that keeps its position keeps the session in step.\<close>

lemma l2_in_step_same:
  "l2_in_step gpos s \<Longrightarrow> gpos g = gpos (dict_default (ls_gates s) k g0) \<Longrightarrow> gpos g0 = None \<Longrightarrow>
   l2_in_step gpos (s\<lparr>ls_gates := AList.update k g (ls_gates s)\<rparr>)"
  by (auto simp: l2_in_step_def dict_default_def update_conv' split: option.splits)

text \<open>A book moved to the position of its gate keeps the session in step.\<close>

lemma l2_in_step_both:
  "l2_in_step gpos s \<Longrightarrow> (\<And>n. gpos g = Some n \<Longrightarrow> l2_is_ready b \<and> l2_position b = Some n) \<Longrightarrow>
   l2_in_step gpos
     (s\<lparr>ls_gates := AList.update k g (ls_gates s), ls_books := AList.update k b (ls_books s)\<rparr>)"
  by (auto simp: l2_in_step_def update_conv')

lemma l2_install_ok:
  "l2_install b bids asks n = (b', Inr u) \<Longrightarrow> l2_is_ready b' \<and> l2_position b' = Some n"
  by (erule l2_install_cases) (auto simp: l2_is_ready_def validate_book_Inr)

lemma l2_load_ok: "l2_load b bids asks n = (b', Inr u) \<Longrightarrow> l2_is_ready b' \<and> l2_position b' = Some n"
  by (simp add: l2_load_def l2_install_ok)

lemma l2_delta_ok: "l2_delta cls b bids asks n = (b', Inr u) \<Longrightarrow> l2_is_ready b' \<and> l2_position b' = Some n"
  by (auto simp: l2_delta_def l2_install_ok split: if_splits)

locale gated_feed = book_feed step cls
  for step :: "'g l2_session \<Rightarrow> raw_event \<Rightarrow> 'g l2_session \<times> unit result" and cls :: exn_class +
  fixes gpos :: "'g \<Rightarrow> int option"
  assumes step_in_step: "l2_in_step gpos s \<Longrightarrow> step s e = (s', Inr ()) \<Longrightarrow> l2_in_step gpos s'"
begin

lemma run_in_step: "l2_in_step gpos s \<Longrightarrow> l2_run step s es = Inr s' \<Longrightarrow> l2_in_step gpos s'"
proof (induction es arbitrary: s)
  case (Cons e es)
  then obtain s1 where st: "step s e = (s1, Inr ())" "l2_run step s1 es = Inr s'"
    by (auto split: prod.splits sum.splits)
  with Cons.IH step_in_step [OF Cons.prems(1) st(1)] show ?case by simp
qed simp

text \<open>After a replay without exception every positioned gate has its book at its position.\<close>

lemma gate_has_book:
  "l2_run step new_l2_session es = Inr s \<Longrightarrow> map_of (ls_gates s) k = Some g \<Longrightarrow> gpos g = Some n \<Longrightarrow>
   \<exists>b. map_of (ls_books s) k = Some b \<and> l2_is_ready b \<and> l2_position b = Some n"
  using run_in_step [OF new_l2_session_in_step] by (simp add: l2_in_step_def)

end

lemma l2_run_append:
  "l2_run step s (es @ fs) = bindE (l2_run step s es) (\<lambda>s'. l2_run step s' fs)"
  by (induction es arbitrary: s) (auto split: prod.splits sum.splits)

end
