(* ===== verification/Okx_Replay.thy ===== *)
theory Okx_Replay
  imports L2_Book
begin

text \<open>
  Model of \<open>OkxSequenceGate\<close> (\<open>src/data/okx_adapter.py\<close>) and of
  \<open>src/data/okx_replay.py\<close>. The gate links \<open>prevSeqId\<close> to its \<open>seqId\<close>, recognises a
  heartbeat, and forgets its position on a gap. Operations return the state they leave with
  their result.
\<close>

section \<open>The sequence gate\<close>

record okx_gate =
  og_symbol :: string
  og_sequence :: "int option"
  og_connection_id :: "string option"

definition new_okx_gate :: "string \<Rightarrow> okx_gate" where
  "new_okx_gate s = \<lparr>og_symbol = s, og_sequence = None, og_connection_id = None\<rparr>"

definition okx_invalidate :: "okx_gate \<Rightarrow> okx_gate" where
  "okx_invalidate g = g\<lparr>og_sequence := None, og_connection_id := None\<rparr>"

definition okx_first_data :: "(string, json) dict \<Rightarrow> (string, json) dict result" where
  "okx_first_data msg =
     (case jget msg ''data'' of
        JList [JObj d] \<Rightarrow> Inr d
      | _ \<Rightarrow> Inl (Raised OkxReplayError ''OKX book message must contain one data object''))"

definition okx_required_int :: "json \<Rightarrow> int result" where
  "okx_required_int v = required_int OkxReplayError v"

text \<open>The data object and the two sequence numbers, in the order the gate reads them.\<close>

definition okx_gate_fields :: "raw_event \<Rightarrow> ((string, json) dict \<times> int \<times> int) result" where
  "okx_gate_fields e =
     bindE (event_payload e) (\<lambda>msg.
     bindE (okx_first_data msg) (\<lambda>data.
     bindE (okx_required_int (jget data ''seqId'')) (\<lambda>sq.
     bindE (okx_required_int (jget data ''prevSeqId'')) (\<lambda>prev. Inr (data, sq, prev)))))"

definition okx_gate_apply :: "okx_gate \<Rightarrow> raw_event \<Rightarrow> okx_gate \<times> bool result" where
  "okx_gate_apply g e =
     (if exchange e \<noteq> ''okx'' \<or> channel e \<noteq> ''orderbook''
      then (g, Inl (Raised OkxReplayError ''OKX gate accepts only orderbook events''))
      else if symbol e \<noteq> og_symbol g
      then (g, Inl (Raised OkxReplayError ''gate cannot accept another symbol''))
      else if og_connection_id g \<noteq> None \<and> Some (connection_id e) \<noteq> og_connection_id g
      then (okx_invalidate g, Inl (Raised OkxSnapshotRequired ''connection changed''))
      else (case okx_gate_fields e of
        Inl x \<Rightarrow> (g, Inl x)
      | Inr (data, sq, prev) \<Rightarrow>
          if message_type e = ''snapshot''
          then (g\<lparr>og_sequence := Some sq, og_connection_id := Some (connection_id e)\<rparr>, Inr True)
          else if message_type e \<noteq> ''delta'' \<or> og_sequence g = None
          then (g, Inl (Raised OkxSnapshotRequired ''requires a fresh snapshot''))
          else if Some prev \<noteq> og_sequence g
          then (okx_invalidate g, Inl (Raised OkxSequenceGap ''unexpected prevSeqId''))
          else if sq < prev
          then (okx_invalidate g, Inl (Raised OkxSequenceGap ''seqId regressed''))
          else (g\<lparr>og_sequence := Some sq\<rparr>,
                Inr (\<not> (sq = prev \<and> \<not> json_truth (jget data ''bids'') \<and>
                       \<not> json_truth (jget data ''asks''))))))"

section \<open>The book and the session\<close>

definition okx_levels :: "json \<Rightarrow> levels result" where
  "okx_levels v = parse_levels OkxReplayError (pair_level OkxReplayError (\<lambda>n. 2 \<le> n)) v"

definition okx_book_int :: "json \<Rightarrow> int result" where
  "okx_book_int v = required_int_strict OkxReplayError v"

definition okx_apply_message :: "l2_book \<Rightarrow> string \<Rightarrow> (string, json) dict \<Rightarrow> int
    \<Rightarrow> l2_book \<times> unit result" where
  "okx_apply_message b ty data sq =
     (case bindE (okx_levels (jget data ''bids'')) (\<lambda>bids.
           bindE (okx_levels (jget data ''asks'')) (\<lambda>asks. Inr (bids, asks))) of
        Inl x \<Rightarrow> (b, Inl x)
      | Inr (bids, asks) \<Rightarrow>
          if ty = ''snapshot'' then l2_load b bids asks sq
          else l2_delta OkxSnapshotRequired b bids asks sq)"

type_synonym okx_session = "okx_gate l2_session"

text \<open>What follows an accepted event: the book is created if needed, then the message applied.\<close>

definition okx_feed_book :: "l2_book \<Rightarrow> raw_event \<Rightarrow> l2_book \<times> unit result" where
  "okx_feed_book b e =
     (case bindE (event_payload e) (\<lambda>msg.
           bindE (okx_first_data msg) (\<lambda>data.
           bindE (okx_book_int (jget data ''seqId'')) (\<lambda>sq. Inr (data, sq)))) of
        Inl x \<Rightarrow> (b, Inl x)
      | Inr (data, sq) \<Rightarrow> okx_apply_message b (message_type e) data sq)"

definition okx_session_apply :: "okx_session \<Rightarrow> raw_event \<Rightarrow> okx_session \<times> unit result" where
  "okx_session_apply s e =
     (if exchange e \<noteq> ''okx''
      then (s, Inl (Raised OkxReplayError ''OkxReplaySession accepts only OKX events''))
      else if channel e \<noteq> ''orderbook'' then (l2_count s e, Inr ())
      else
        (case okx_gate_apply (dict_default (ls_gates s) (symbol e) (new_okx_gate (symbol e))) e of
           (g, Inl x) \<Rightarrow> ((l2_count s e)\<lparr>ls_gates := AList.update (symbol e) g (ls_gates s)\<rparr>, Inl x)
         | (g, Inr False) \<Rightarrow>
             ((l2_count s e)\<lparr>ls_gates := AList.update (symbol e) g (ls_gates s)\<rparr>, Inr ())
         | (g, Inr True) \<Rightarrow>
             (case okx_feed_book (dict_default (ls_books s) (symbol e) (new_l2_book (symbol e))) e of
                (b, r) \<Rightarrow>
                  ((l2_count s e)\<lparr>ls_gates := AList.update (symbol e) g (ls_gates s),
                                  ls_books := AList.update (symbol e) b (ls_books s)\<rparr>, r))))"

definition okx_session_report :: "okx_session \<Rightarrow> l2_report result" where
  "okx_session_report s = l2_session_report OkxSnapshotRequired s"

definition replay_okx_stream :: "raw_event list \<Rightarrow> l2_report result" where
  "replay_okx_stream es = l2_replay okx_session_apply OkxSnapshotRequired es"

definition replay_okx :: "raw_event list \<Rightarrow> l2_report result" where
  "replay_okx es = replay_okx_stream (receive_order es)"

section \<open>The outcomes of a gate step\<close>

lemma okx_gate_apply_cases:
  assumes "okx_gate_apply g e = (g', r)"
  obtains (unchanged) x where "g' = g" "r = Inl x"
  | (invalidated) x where "g' = okx_invalidate g" "r = Inl x"
  | (snapshot) data sq prev where "message_type e = ''snapshot''"
      "okx_gate_fields e = Inr (data, sq, prev)" "r = Inr True"
      "g' = g\<lparr>og_sequence := Some sq, og_connection_id := Some (connection_id e)\<rparr>"
  | (delta) data sq prev where "message_type e = ''delta''"
      "okx_gate_fields e = Inr (data, sq, prev)" "og_sequence g = Some prev" "prev \<le> sq"
      "og_connection_id g = None \<or> og_connection_id g = Some (connection_id e)"
      "g' = g\<lparr>og_sequence := Some sq\<rparr>" "r = Inr True \<or> r = Inr False \<and> sq = prev"
proof (cases "okx_gate_fields e")
  case (Inl x)
  with assms that(1,2) show thesis
    by (auto simp: okx_gate_apply_def split: if_splits)
next
  case (Inr f)
  obtain data sq prev where f: "f = (data, sq, prev)" by (cases f) auto
  show thesis
  proof (cases "r")
    case (Inl x)
    with assms Inr f that(1,2) show thesis
      by (auto simp: okx_gate_apply_def split: if_splits)
  next
    case acc: (Inr b)
    show thesis
    proof (cases "message_type e = ''snapshot''")
      case True
      with assms Inr f acc that(3) show thesis
        by (auto simp: okx_gate_apply_def split: if_splits)
    next
      case False
      with assms Inr f acc have d: "message_type e = ''delta''" "og_sequence g = Some prev"
          "prev \<le> sq" "g' = g\<lparr>og_sequence := Some sq\<rparr>" "b \<or> sq = prev"
          "og_connection_id g = None \<or> og_connection_id g = Some (connection_id e)"
        by (auto simp: okx_gate_apply_def split: if_splits)
      with that(4) Inr f acc show thesis by (cases b) auto
    qed
  qed
qed

lemma okx_gate_symbol: "okx_gate_apply g e = (g', r) \<Longrightarrow> og_symbol g' = og_symbol g"
  by (erule okx_gate_apply_cases) (auto simp: okx_invalidate_def)

section \<open>The gate as a sequence gate\<close>

definition okx_is_snapshot :: "raw_event \<Rightarrow> bool" where
  "okx_is_snapshot e \<longleftrightarrow> message_type e = ''snapshot''"

definition okx_event_seq :: "raw_event \<Rightarrow> int" where
  "okx_event_seq e = (case okx_gate_fields e of Inr (_, sq, _) \<Rightarrow> sq | Inl _ \<Rightarrow> 0)"

text \<open>An event links to position \<open>s\<close> when its \<open>prevSeqId\<close> is \<open>s\<close> and it does not go back.\<close>

definition okx_links :: "int \<Rightarrow> raw_event \<Rightarrow> bool" where
  "okx_links s e = (case okx_gate_fields e of Inr (_, sq, prev) \<Rightarrow> prev = s \<and> s \<le> sq | Inl _ \<Rightarrow> False)"

interpretation okx_gate: sequence_gate okx_gate_apply og_sequence og_connection_id okx_is_snapshot
  okx_event_seq okx_links connection_id
proof (unfold_locales, goal_cases)
  case (1 g e g')
  from 1(1) show ?case
    by (cases rule: okx_gate_apply_cases) (use 1 in \<open>auto simp: okx_is_snapshot_def okx_event_seq_def\<close>)
next
  case (2 g e g')
  from 2(1) show ?case
    by (cases rule: okx_gate_apply_cases)
      (use 2 in \<open>auto simp: okx_is_snapshot_def okx_event_seq_def okx_links_def\<close>)
next
  case (3 g e g')
  from 3 show ?case
    by (cases rule: okx_gate_apply_cases) auto
next
  case (4 g e g' x)
  from 4 show ?case
    by (cases rule: okx_gate_apply_cases) (auto simp: okx_invalidate_def)
qed

section \<open>The session invariant\<close>

lemma okx_apply_message_inv:
  assumes "l2_inv b" "okx_apply_message b ty data sq = (b', r)"
  shows "l2_inv b'"
proof (cases "bindE (okx_levels (jget data ''bids'')) (\<lambda>bids.
    bindE (okx_levels (jget data ''asks'')) (\<lambda>asks. Inr (bids, asks)))")
  case (Inl x)
  with assms show ?thesis by (simp add: okx_apply_message_def)
next
  case (Inr ba)
  then obtain bids asks where ba: "ba = (bids, asks)"
    "okx_levels (jget data ''bids'') = Inr bids" "okx_levels (jget data ''asks'') = Inr asks"
    by (auto simp: bindE_eq_Inr)
  then have "\<forall>l \<in> set bids. valid_level l" "\<forall>l \<in> set asks. valid_level l"
    unfolding okx_levels_def by (fast dest: pair_levels_valid)+
  with assms Inr ba l2_load_inv [OF assms(1)] l2_delta_inv [OF assms(1)] show ?thesis
    by (auto simp: okx_apply_message_def split: if_splits)
qed

lemma okx_feed_book_inv: "l2_inv b \<Longrightarrow> okx_feed_book b e = (b', r) \<Longrightarrow> l2_inv b'"
  by (auto simp: okx_feed_book_def split: sum.splits dest: okx_apply_message_inv)

lemma okx_session_apply_inv:
  assumes "l2_books_inv s" "okx_session_apply s e = (s', r)"
  shows "l2_books_inv s'"
proof -
  let ?b = "dict_default (ls_books s) (symbol e) (new_l2_book (symbol e))"
  obtain b r' where fb: "okx_feed_book ?b e = (b, r')" by fastforce
  with assms(1) have "l2_inv b" using okx_feed_book_inv l2_book_default by blast
  with assms fb show ?thesis
    by (auto simp: okx_session_apply_def l2_books_inv_def l2_count_def dict_all_update
        split: if_splits prod.splits sum.splits bool.splits)
qed

text \<open>The book moves to the number the gate read from the same event.\<close>

lemma okx_feed_book_position:
  assumes "okx_feed_book b e = (b', Inr ())" "okx_gate_fields e = Inr (data, sq, prev)"
  shows "l2_is_ready b' \<and> l2_position b' = Some sq"
proof -
  from assms(1) obtain msg d n where f: "event_payload e = Inr msg" "okx_first_data msg = Inr d"
      "okx_book_int (jget d ''seqId'') = Inr n" "okx_apply_message b (message_type e) d n = (b', Inr ())"
    by (auto simp: okx_feed_book_def bindE_eq_Inr split: sum.splits)
  with assms(2) have "okx_required_int (jget d ''seqId'') = Inr sq"
    by (auto simp: okx_gate_fields_def bindE_eq_Inr)
  with f(3) have "n = sq"
    unfolding okx_required_int_def okx_book_int_def by (metis required_ints_agree)
  with f(4) show ?thesis
    by (auto simp: okx_apply_message_def split: sum.splits if_splits dest: l2_load_ok l2_delta_ok)
qed

lemma okx_session_apply_in_step:
  assumes "l2_in_step og_sequence s" "okx_session_apply s e = (s', Inr ())"
  shows "l2_in_step og_sequence s'"
proof (cases "channel e = ''orderbook'' \<and> exchange e = ''okx''")
  case False
  with assms show ?thesis by (auto simp: okx_session_apply_def split: if_splits)
next
  case True
  let ?g = "dict_default (ls_gates s) (symbol e) (new_okx_gate (symbol e))"
  let ?b = "dict_default (ls_books s) (symbol e) (new_l2_book (symbol e))"
  obtain g q where ga: "okx_gate_apply ?g e = (g, q)" by fastforce
  obtain b r where fb: "okx_feed_book ?b e = (b, r)" by fastforce
  have cs: "l2_in_step og_sequence (l2_count s e)" using assms(1) by simp
  from ga show ?thesis
  proof (cases rule: okx_gate_apply_cases)
    case (snapshot data sq prev)
    with assms(2) True ga fb l2_in_step_both [OF cs, of g b "symbol e"] okx_feed_book_position [of ?b e b]
    show ?thesis by (simp add: okx_session_apply_def)
  next
    case (delta data sq prev)
    show ?thesis
    proof (cases "q = Inr True")
      case True
      with assms(2) \<open>channel e = _ \<and> _\<close> ga fb delta l2_in_step_both [OF cs, of g b "symbol e"]
        okx_feed_book_position [of ?b e b]
      show ?thesis by (simp add: okx_session_apply_def)
    next
      case False
      with delta have q: "q = Inr False" "g = ?g" by auto
      then have "l2_in_step og_sequence
          ((l2_count s e)\<lparr>ls_gates := AList.update (symbol e) g (ls_gates (l2_count s e))\<rparr>)"
        using cs by (intro l2_in_step_same) (auto simp: new_okx_gate_def)
      with assms(2) \<open>channel e = _ \<and> _\<close> ga q show ?thesis
        by (simp add: okx_session_apply_def)
    qed
  qed (use assms(2) True ga in \<open>auto simp: okx_session_apply_def\<close>)
qed

interpretation okx_feed: gated_feed okx_session_apply OkxSnapshotRequired og_sequence
  by unfold_locales (fact okx_session_apply_inv okx_session_apply_in_step)+

definition okx_gates_named :: "okx_session \<Rightarrow> bool" where
  "okx_gates_named s \<longleftrightarrow> (\<forall>(k, g) \<in> set (ls_gates s). og_symbol g = k)"

lemma okx_gates_named_default:
  "okx_gates_named s \<Longrightarrow> og_symbol (dict_default (ls_gates s) k (new_okx_gate k)) = k"
  by (auto simp: okx_gates_named_def dict_default_def new_okx_gate_def split: option.split
      dest!: map_of_SomeD)

lemma okx_session_apply_named:
  assumes "okx_gates_named s" "okx_session_apply s e = (s', r)"
  shows "okx_gates_named s'"
proof -
  let ?g = "dict_default (ls_gates s) (symbol e) (new_okx_gate (symbol e))"
  obtain g q where ga: "okx_gate_apply ?g e = (g, q)" by fastforce
  then have "og_symbol g = symbol e"
    using okx_gate_symbol okx_gates_named_default [OF assms(1)] by simp
  then have "\<forall>(k, g') \<in> set (AList.update (symbol e) g (ls_gates s)). og_symbol g' = k"
    using assms(1) set_update_subset [of "symbol e" g "ls_gates s"]
    by (auto simp: okx_gates_named_def)
  with assms ga show ?thesis
    by (auto simp: okx_session_apply_def okx_gates_named_def l2_count_def
        split: if_splits prod.splits sum.splits bool.splits)
qed

lemma okx_run_named:
  "okx_gates_named s \<Longrightarrow> l2_run okx_session_apply s es = Inr s' \<Longrightarrow> okx_gates_named s'"
proof (induction es arbitrary: s)
  case (Cons e es)
  then obtain s1 where st: "okx_session_apply s e = (s1, Inr ())" "l2_run okx_session_apply s1 es = Inr s'"
    by (auto split: prod.splits sum.splits)
  with Cons.IH okx_session_apply_named [OF Cons.prems(1) st(1)] show ?case by simp
qed simp

section \<open>Properties\<close>

text \<open>
  Continuity of the OKX gate. Whatever a gate is fed, and however many events fail, a
  positioned gate stands at the end of a chain: since the last snapshot every accepted event
  named its predecessor's \<open>seqId\<close> as \<open>prevSeqId\<close>, did not go back, and came over the same
  connection.
\<close>

theorem okx_gate_continuous:
  assumes "gate_history okx_gate_apply okx_is_snapshot og_sequence (new_okx_gate name) [] es = (g, h)"
    "og_sequence g = Some s"
  shows "linked_chain okx_is_snapshot okx_event_seq okx_links connection_id h \<and>
    s = okx_event_seq (last h) \<and> og_connection_id g = Some (connection_id (hd h))"
proof -
  have "og_sequence (new_okx_gate name) = None" by (simp add: new_okx_gate_def)
  from okx_gate.positioned_by_chain [OF this assms] show ?thesis .
qed

text \<open>
  A reconnect ends an OKX replay. Once a symbol's gate is on a connection, the first
  orderbook event of that symbol from another connection makes the whole replay fail, a
  fresh snapshot included: the gate refuses the event before it looks at its type.
\<close>

theorem okx_reconnect_fails:
  assumes "l2_run okx_session_apply new_l2_session es = Inr s"
    "map_of (ls_gates s) (symbol e) = Some g" "og_connection_id g = Some c"
    "exchange e = ''okx''" "channel e = ''orderbook''" "connection_id e \<noteq> c"
  shows "replay_okx_stream (es @ e # fs) = Inl (Raised OkxSnapshotRequired ''connection changed'')"
proof -
  have "okx_gates_named (new_l2_session :: okx_session)"
    by (simp add: okx_gates_named_def new_l2_session_def)
  from okx_run_named [OF this assms(1)] have "og_symbol g = symbol e"
    using assms(2) by (auto simp: okx_gates_named_def dest!: map_of_SomeD)
  then have "okx_gate_apply g e =
      (okx_invalidate g, Inl (Raised OkxSnapshotRequired ''connection changed''))"
    using assms by (simp add: okx_gate_apply_def)
  with assms have "\<exists>s'. okx_session_apply s e = (s', Inl (Raised OkxSnapshotRequired ''connection changed''))"
    by (simp add: okx_session_apply_def dict_default_def)
  with assms(1) show ?thesis
    by (auto simp: replay_okx_stream_def l2_replay_def l2_run_append)
qed

text \<open>
  An OKX replay that reaches its end yields a report, and every book in it has a positive
  best bid strictly below its best ask.
\<close>

theorem okx_report_sound:
  assumes "l2_run okx_session_apply new_l2_session es = Inr s"
  shows "\<exists>rep. replay_okx_stream es = Inr rep \<and>
    (\<forall>rb \<in> set (lp_orderbooks rep). 0 < lr_best_bid rb \<and> lr_best_bid rb < lr_best_ask rb)"
  using okx_feed.report_total [OF assms] okx_feed.report_uncrossed
  unfolding replay_okx_stream_def by blast

section \<open>A concrete stream\<close>

definition okx_demo_event :: "string \<Rightarrow> string \<Rightarrow> int \<Rightarrow> int \<Rightarrow> json list \<Rightarrow> json list \<Rightarrow> raw_event" where
  "okx_demo_event con ty prev sq bids asks =
     \<lparr>schema_version = 1, ingestion_version = ''greenfield-okx-raw-v1'', event_id = ''e'',
      exchange = ''okx'', market_type = ''swap'', channel = ''orderbook'', topic = ''books'',
      symbol = ''BTC-USDT-SWAP'', message_type = ty, exchange_ts_ms = None, receive_ts_ns = sq,
      receive_sequence = sq, matching_ts_ms = None, sequence = Some sq, update_id = Some sq,
      connection_id = con,
      payload_value = JObj [(''data'', JList [JObj [(''seqId'', JInt sq), (''prevSeqId'', JInt prev),
        (''bids'', JList bids), (''asks'', JList asks)]])]\<rparr>"

definition okx_level :: "int \<Rightarrow> int \<Rightarrow> json" where
  "okx_level p n = JList [JInt p, JInt n, JInt 0, JInt 1]"

definition okx_demo :: "raw_event list" where
  "okx_demo =
     [okx_demo_event ''c1'' ''snapshot'' (-1) 5 [okx_level 100 2] [okx_level 101 3],
      okx_demo_event ''c1'' ''delta'' 5 9 [okx_level 100 0, okx_level 99 4] [],
      okx_demo_event ''c1'' ''delta'' 9 9 [] []]"

lemmas okx_eval =
  okx_demo_def okx_demo_event_def okx_level_def new_l2_session_def okx_session_apply_def
  okx_gate_apply_def okx_gate_fields_def okx_first_data_def okx_required_int_def okx_book_int_def
  event_payload_def jget_def okx_feed_book_def okx_apply_message_def okx_levels_def
  parse_levels_def pair_level_def decimal_pair_def l2_load_def l2_delta_def l2_install_def
  l2_is_ready_def validate_book_def best_bid_of_def best_ask_of_def snapshot_side_def
  dict_default_def dict_count_def l2_count_def new_okx_gate_def new_l2_book_def

lemma okx_demo_run:
  "l2_run okx_session_apply new_l2_session okx_demo =
     Inr \<lparr>ls_books = [(''BTC-USDT-SWAP'', \<lparr>l2_symbol = ''BTC-USDT-SWAP'', l2_bids = [(99, 4)],
            l2_asks = [(101, 3)], l2_position = Some 9\<rparr>)],
          ls_gates = [(''BTC-USDT-SWAP'', \<lparr>og_symbol = ''BTC-USDT-SWAP'', og_sequence = Some 9,
            og_connection_id = Some ''c1''\<rparr>)],
          ls_channel_counts = [(''orderbook'', 3)], ls_raw_event_count = 3\<rparr>"
  by (simp add: okx_eval)

lemma okx_gate_continuous_witness:
  "\<exists>g h. gate_history okx_gate_apply okx_is_snapshot og_sequence
      (new_okx_gate ''BTC-USDT-SWAP'') [] okx_demo = (g, h) \<and> length h = 2 \<and>
    linked_chain okx_is_snapshot okx_event_seq okx_links connection_id h"
proof -
  obtain g h where run: "gate_history okx_gate_apply okx_is_snapshot og_sequence
      (new_okx_gate ''BTC-USDT-SWAP'') [] okx_demo = (g, h)" "og_sequence g = Some 9" "length h = 2"
    by (simp add: okx_eval okx_is_snapshot_def)
  from okx_gate_continuous [OF run(1,2)] run show ?thesis by blast
qed

lemma okx_reconnect_fails_witness:
  "replay_okx_stream (okx_demo @ [okx_demo_event ''c2'' ''snapshot'' (-1) 5 [okx_level 100 2] [okx_level 101 3]])
     = Inl (Raised OkxSnapshotRequired ''connection changed'')"
  by (rule okx_reconnect_fails [OF okx_demo_run, where c = "''c1''" and
      g = "\<lparr>og_symbol = ''BTC-USDT-SWAP'', og_sequence = Some 9, og_connection_id = Some ''c1''\<rparr>"]) (simp_all add: okx_demo_event_def)

lemma okx_report_sound_witness:
  "\<exists>rep. replay_okx_stream okx_demo = Inr rep \<and>
    (\<forall>rb \<in> set (lp_orderbooks rep). lr_best_bid rb < lr_best_ask rb)"
  using okx_report_sound [OF okx_demo_run] by auto

end
