(* ===== verification/Deribit_Replay.thy ===== *)
theory Deribit_Replay
  imports L2_Book
begin

text \<open>
  Model of \<open>DeribitBookSequenceGate\<close> (\<open>src/data/deribit_adapter.py\<close>) and of
  \<open>src/data/deribit_replay.py\<close>: change ids that link and strictly advance, and book levels
  with an explicit action.
\<close>

section \<open>The sequence gate\<close>

record deribit_gate =
  dg_symbol :: string
  dg_change_id :: "int option"
  dg_connection_id :: "string option"

definition new_deribit_gate :: "string \<Rightarrow> deribit_gate" where
  "new_deribit_gate s = \<lparr>dg_symbol = s, dg_change_id = None, dg_connection_id = None\<rparr>"

definition deribit_invalidate :: "deribit_gate \<Rightarrow> deribit_gate" where
  "deribit_invalidate g = g\<lparr>dg_change_id := None, dg_connection_id := None\<rparr>"

definition deribit_book_data :: "(string, json) dict \<Rightarrow> (string, json) dict result" where
  "deribit_book_data msg =
     (case jget msg ''params'' of
        JObj params \<Rightarrow>
          (case jget params ''data'' of
             JObj data \<Rightarrow> Inr data
           | _ \<Rightarrow> Inl (Raised DeribitReplayError ''Deribit book notification must contain one data object''))
      | _ \<Rightarrow> Inl (Raised DeribitReplayError ''Deribit book notification must contain one data object''))"

definition deribit_required_int :: "json \<Rightarrow> int result" where
  "deribit_required_int v = required_int DeribitReplayError v"

definition deribit_gate_fields :: "raw_event \<Rightarrow> ((string, json) dict \<times> int) result" where
  "deribit_gate_fields e =
     bindE (event_payload e) (\<lambda>msg.
     bindE (deribit_book_data msg) (\<lambda>data.
     bindE (deribit_required_int (jget data ''change_id'')) (\<lambda>n. Inr (data, n))))"

definition deribit_gate_apply :: "deribit_gate \<Rightarrow> raw_event \<Rightarrow> deribit_gate \<times> bool result" where
  "deribit_gate_apply g e =
     (if exchange e \<noteq> ''deribit'' \<or> channel e \<noteq> ''orderbook''
      then (g, Inl (Raised DeribitReplayError ''Deribit gate accepts only orderbook events''))
      else if symbol e \<noteq> dg_symbol g
      then (g, Inl (Raised DeribitReplayError ''gate cannot accept another symbol''))
      else if dg_connection_id g \<noteq> None \<and> Some (connection_id e) \<noteq> dg_connection_id g
      then (deribit_invalidate g, Inl (Raised DeribitSnapshotRequired ''connection changed''))
      else (case deribit_gate_fields e of
        Inl x \<Rightarrow> (g, Inl x)
      | Inr (data, n) \<Rightarrow>
          if message_type e = ''snapshot''
          then (g\<lparr>dg_change_id := Some n, dg_connection_id := Some (connection_id e)\<rparr>, Inr True)
          else if message_type e \<noteq> ''delta'' \<or> dg_change_id g = None
          then (g, Inl (Raised DeribitSnapshotRequired ''requires a fresh snapshot''))
          else (case deribit_required_int (jget data ''prev_change_id'') of
            Inl x \<Rightarrow> (g, Inl x)
          | Inr prev \<Rightarrow>
              if Some prev \<noteq> dg_change_id g
              then (deribit_invalidate g, Inl (Raised DeribitSequenceGap ''unexpected prev_change_id''))
              else if n \<le> prev
              then (deribit_invalidate g, Inl (Raised DeribitSequenceGap ''change_id did not advance''))
              else (g\<lparr>dg_change_id := Some n\<rparr>, Inr True))))"

section \<open>The book and the session\<close>

text \<open>
  A level is an \<open>[action, price, amount]\<close> triplet. \<open>str(level[0])\<close> is one of the three
  actions only when the item is that string.
\<close>

definition deribit_level :: "json \<Rightarrow> (rat \<times> rat) result" where
  "deribit_level v =
     (case v of
        JList [a, p, n] \<Rightarrow>
          if a \<notin> {JStr ''new'', JStr ''change'', JStr ''delete''}
          then Inl (Raised DeribitReplayError ''invalid order-book action'')
          else bindE (decimal_pair DeribitReplayError p n) (\<lambda>(price, sz).
            if a = JStr ''delete'' \<and> sz \<noteq> 0
            then Inl (Raised DeribitReplayError ''delete level must have zero size'')
            else Inr (price, sz))
      | _ \<Rightarrow> Inl (Raised DeribitReplayError ''invalid order-book level''))"

definition deribit_levels :: "json \<Rightarrow> levels result" where
  "deribit_levels v = parse_levels DeribitReplayError deribit_level v"

definition deribit_book_int :: "json \<Rightarrow> int result" where
  "deribit_book_int v = required_int_strict DeribitReplayError v"

definition deribit_apply_message :: "l2_book \<Rightarrow> string \<Rightarrow> (string, json) dict \<Rightarrow> int
    \<Rightarrow> l2_book \<times> unit result" where
  "deribit_apply_message b ty data n =
     (case bindE (deribit_levels (jget data ''bids'')) (\<lambda>bids.
           bindE (deribit_levels (jget data ''asks'')) (\<lambda>asks. Inr (bids, asks))) of
        Inl x \<Rightarrow> (b, Inl x)
      | Inr (bids, asks) \<Rightarrow>
          if ty = ''snapshot'' then l2_load b bids asks n
          else l2_delta DeribitSnapshotRequired b bids asks n)"

type_synonym deribit_session = "deribit_gate l2_session"

definition deribit_feed_book :: "l2_book \<Rightarrow> raw_event \<Rightarrow> l2_book \<times> unit result" where
  "deribit_feed_book b e =
     (case bindE (event_payload e) (\<lambda>msg.
           bindE (deribit_book_data msg) (\<lambda>data.
           bindE (deribit_book_int (jget data ''change_id'')) (\<lambda>n. Inr (data, n)))) of
        Inl x \<Rightarrow> (b, Inl x)
      | Inr (data, n) \<Rightarrow> deribit_apply_message b (message_type e) data n)"

text \<open>The session ignores the gate's boolean.\<close>

definition deribit_session_apply :: "deribit_session \<Rightarrow> raw_event \<Rightarrow> deribit_session \<times> unit result" where
  "deribit_session_apply s e =
     (if exchange e \<noteq> ''deribit''
      then (s, Inl (Raised DeribitReplayError ''DeribitReplaySession accepts only Deribit events''))
      else if channel e \<noteq> ''orderbook'' then (l2_count s e, Inr ())
      else
        (case deribit_gate_apply (dict_default (ls_gates s) (symbol e) (new_deribit_gate (symbol e))) e of
           (g, Inl x) \<Rightarrow> ((l2_count s e)\<lparr>ls_gates := AList.update (symbol e) g (ls_gates s)\<rparr>, Inl x)
         | (g, Inr _) \<Rightarrow>
             (case deribit_feed_book (dict_default (ls_books s) (symbol e) (new_l2_book (symbol e))) e of
                (b, r) \<Rightarrow>
                  ((l2_count s e)\<lparr>ls_gates := AList.update (symbol e) g (ls_gates s),
                                  ls_books := AList.update (symbol e) b (ls_books s)\<rparr>, r))))"

definition deribit_session_report :: "deribit_session \<Rightarrow> l2_report result" where
  "deribit_session_report s = l2_session_report DeribitSnapshotRequired s"

definition replay_deribit_stream :: "raw_event list \<Rightarrow> l2_report result" where
  "replay_deribit_stream es = l2_replay deribit_session_apply DeribitSnapshotRequired es"

definition replay_deribit :: "raw_event list \<Rightarrow> l2_report result" where
  "replay_deribit es = replay_deribit_stream (receive_order es)"

section \<open>The outcomes of a gate step\<close>

text \<open>The gate raises or accepts: it never returns \<open>False\<close>.\<close>

lemma deribit_gate_apply_cases:
  assumes "deribit_gate_apply g e = (g', r)"
  obtains (unchanged) x where "g' = g" "r = Inl x"
  | (invalidated) x where "g' = deribit_invalidate g" "r = Inl x"
  | (snapshot) data n where "message_type e = ''snapshot''"
      "deribit_gate_fields e = Inr (data, n)" "r = Inr True"
      "g' = g\<lparr>dg_change_id := Some n, dg_connection_id := Some (connection_id e)\<rparr>"
  | (delta) data n prev where "message_type e = ''delta''"
      "deribit_gate_fields e = Inr (data, n)"
      "deribit_required_int (jget data ''prev_change_id'') = Inr prev"
      "dg_change_id g = Some prev" "prev < n" "r = Inr True"
      "dg_connection_id g = None \<or> dg_connection_id g = Some (connection_id e)"
      "g' = g\<lparr>dg_change_id := Some n\<rparr>"
proof (cases "deribit_gate_fields e")
  case (Inl x)
  with assms that(1,2) show thesis
    by (auto simp: deribit_gate_apply_def split: if_splits)
next
  case (Inr f)
  obtain data n where f: "f = (data, n)" by (cases f) auto
  show thesis
  proof (cases "r")
    case (Inl x)
    with assms Inr f that(1,2) show thesis
      by (auto simp: deribit_gate_apply_def split: if_splits sum.splits)
  next
    case acc: (Inr b)
    show thesis
    proof (cases "message_type e = ''snapshot''")
      case True
      with assms Inr f acc that(3) show thesis
        by (auto simp: deribit_gate_apply_def split: if_splits)
    next
      case False
      with assms Inr f acc obtain prev where
        "message_type e = ''delta''" "deribit_required_int (jget data ''prev_change_id'') = Inr prev"
        "dg_change_id g = Some prev" "prev < n" "b" "g' = g\<lparr>dg_change_id := Some n\<rparr>"
        "dg_connection_id g = None \<or> dg_connection_id g = Some (connection_id e)"
        by (auto simp: deribit_gate_apply_def split: if_splits sum.splits)
      with that(4) Inr f acc show thesis by simp
    qed
  qed
qed

section \<open>The gate as a sequence gate\<close>

definition deribit_is_snapshot :: "raw_event \<Rightarrow> bool" where
  "deribit_is_snapshot e \<longleftrightarrow> message_type e = ''snapshot''"

definition deribit_event_change :: "raw_event \<Rightarrow> int" where
  "deribit_event_change e = (case deribit_gate_fields e of Inr (_, n) \<Rightarrow> n | Inl _ \<Rightarrow> 0)"

definition deribit_links :: "int \<Rightarrow> raw_event \<Rightarrow> bool" where
  "deribit_links s e =
     (case deribit_gate_fields e of
        Inr (data, n) \<Rightarrow> deribit_required_int (jget data ''prev_change_id'') = Inr s \<and> s < n
      | Inl _ \<Rightarrow> False)"

interpretation deribit_gate: sequence_gate deribit_gate_apply dg_change_id dg_connection_id
  deribit_is_snapshot deribit_event_change deribit_links connection_id
proof (unfold_locales, goal_cases)
  case (1 g e g')
  from 1(1) show ?case
    by (cases rule: deribit_gate_apply_cases)
      (use 1 in \<open>auto simp: deribit_is_snapshot_def deribit_event_change_def\<close>)
next
  case (2 g e g')
  from 2(1) show ?case
    by (cases rule: deribit_gate_apply_cases)
      (use 2 in \<open>auto simp: deribit_is_snapshot_def deribit_event_change_def deribit_links_def\<close>)
next
  case (3 g e g')
  from 3 show ?case
    by (cases rule: deribit_gate_apply_cases) auto
next
  case (4 g e g' x)
  from 4 show ?case
    by (cases rule: deribit_gate_apply_cases) (auto simp: deribit_invalidate_def)
qed

section \<open>The session invariant\<close>

lemma deribit_level_valid: "deribit_level v = Inr l \<Longrightarrow> valid_level l"
  by (auto simp: deribit_level_def bindE_eq_Inr split: json.splits list.splits if_splits prod.splits
      dest: decimal_pair_valid)

lemma deribit_levels_valid: "deribit_levels v = Inr ls \<Longrightarrow> \<forall>l \<in> set ls. valid_level l"
  unfolding deribit_levels_def by (rule parse_levels_valid [OF deribit_level_valid])

lemma deribit_apply_message_inv:
  assumes "l2_inv b" "deribit_apply_message b ty data n = (b', r)"
  shows "l2_inv b'"
proof (cases "bindE (deribit_levels (jget data ''bids'')) (\<lambda>bids.
    bindE (deribit_levels (jget data ''asks'')) (\<lambda>asks. Inr (bids, asks)))")
  case (Inl x)
  with assms show ?thesis by (simp add: deribit_apply_message_def)
next
  case (Inr ba)
  then obtain bids asks where ba: "ba = (bids, asks)"
    "\<forall>l \<in> set bids. valid_level l" "\<forall>l \<in> set asks. valid_level l"
    by (auto simp only: bindE_eq_Inr sum.inject dest!: deribit_levels_valid)
  with assms Inr l2_load_inv [OF assms(1)] l2_delta_inv [OF assms(1)] show ?thesis
    by (auto simp: deribit_apply_message_def split: if_splits)
qed

lemma deribit_feed_book_inv: "l2_inv b \<Longrightarrow> deribit_feed_book b e = (b', r) \<Longrightarrow> l2_inv b'"
  by (auto simp: deribit_feed_book_def split: sum.splits dest: deribit_apply_message_inv)

lemma deribit_session_apply_inv:
  assumes "l2_books_inv s" "deribit_session_apply s e = (s', r)"
  shows "l2_books_inv s'"
proof -
  let ?b = "dict_default (ls_books s) (symbol e) (new_l2_book (symbol e))"
  obtain b r' where fb: "deribit_feed_book ?b e = (b, r')" by fastforce
  with assms(1) have "l2_inv b" using deribit_feed_book_inv l2_book_default by blast
  with assms fb show ?thesis
    by (auto simp: deribit_session_apply_def l2_books_inv_def l2_count_def dict_all_update
        split: if_splits prod.splits sum.splits)
qed

lemma deribit_feed_book_position:
  assumes "deribit_feed_book b e = (b', Inr ())" "deribit_gate_fields e = Inr (data, n)"
  shows "l2_is_ready b' \<and> l2_position b' = Some n"
proof -
  from assms(1) obtain msg d m where f: "event_payload e = Inr msg" "deribit_book_data msg = Inr d"
      "deribit_book_int (jget d ''change_id'') = Inr m"
      "deribit_apply_message b (message_type e) d m = (b', Inr ())"
    by (auto simp: deribit_feed_book_def bindE_eq_Inr split: sum.splits)
  with assms(2) have "deribit_required_int (jget d ''change_id'') = Inr n"
    by (auto simp: deribit_gate_fields_def bindE_eq_Inr)
  with f(3) have "m = n"
    unfolding deribit_required_int_def deribit_book_int_def by (metis required_ints_agree)
  with f(4) show ?thesis
    by (auto simp: deribit_apply_message_def split: sum.splits if_splits dest: l2_load_ok l2_delta_ok)
qed

lemma deribit_session_apply_in_step:
  assumes "l2_in_step dg_change_id s" "deribit_session_apply s e = (s', Inr ())"
  shows "l2_in_step dg_change_id s'"
proof (cases "channel e = ''orderbook'' \<and> exchange e = ''deribit''")
  case False
  with assms show ?thesis by (auto simp: deribit_session_apply_def split: if_splits)
next
  case True
  let ?g = "dict_default (ls_gates s) (symbol e) (new_deribit_gate (symbol e))"
  let ?b = "dict_default (ls_books s) (symbol e) (new_l2_book (symbol e))"
  obtain g q where ga: "deribit_gate_apply ?g e = (g, q)" by fastforce
  obtain b r where fb: "deribit_feed_book ?b e = (b, r)" by fastforce
  have cs: "l2_in_step dg_change_id (l2_count s e)" using assms(1) by simp
  note both = l2_in_step_both [OF cs, of g b "symbol e"] deribit_feed_book_position [of ?b e b]
  from ga show ?thesis
    by (cases rule: deribit_gate_apply_cases)
      (use assms(2) True ga fb both in \<open>auto simp: deribit_session_apply_def\<close>)
qed

interpretation deribit_feed: gated_feed deribit_session_apply DeribitSnapshotRequired dg_change_id
  by unfold_locales (fact deribit_session_apply_inv deribit_session_apply_in_step)+

section \<open>Properties\<close>

text \<open>
  Continuity of the Deribit gate: since the last snapshot the accepted events named their
  predecessor's change id, strictly advanced it and came over one connection, whatever else
  the gate was fed.
\<close>

theorem deribit_gate_continuous:
  assumes "gate_history deribit_gate_apply deribit_is_snapshot dg_change_id (new_deribit_gate name) [] es = (g, h)"
    "dg_change_id g = Some s"
  shows "linked_chain deribit_is_snapshot deribit_event_change deribit_links connection_id h \<and>
    s = deribit_event_change (last h) \<and> dg_connection_id g = Some (connection_id (hd h))"
proof -
  have "dg_change_id (new_deribit_gate name) = None" by (simp add: new_deribit_gate_def)
  from deribit_gate.positioned_by_chain [OF this assms] show ?thesis .
qed

text \<open>
  A Deribit replay that reaches its end yields a report whose books have a positive best
  bid strictly below the best ask.
\<close>

theorem deribit_report_sound:
  assumes "l2_run deribit_session_apply new_l2_session es = Inr s"
  shows "\<exists>rep. replay_deribit_stream es = Inr rep \<and>
    (\<forall>rb \<in> set (lp_orderbooks rep). 0 < lr_best_bid rb \<and> lr_best_bid rb < lr_best_ask rb)"
  using deribit_feed.report_total [OF assms] deribit_feed.report_uncrossed
  unfolding replay_deribit_stream_def by blast

section \<open>A concrete stream\<close>

definition deribit_demo_event :: "string \<Rightarrow> int \<Rightarrow> int \<Rightarrow> json list \<Rightarrow> json list \<Rightarrow> raw_event" where
  "deribit_demo_event ty prev n bids asks =
     \<lparr>schema_version = 1, ingestion_version = ''greenfield-deribit-raw-v1'', event_id = ''e'',
      exchange = ''deribit'', market_type = ''option'', channel = ''orderbook'', topic = ''book'',
      symbol = ''BTC-PERPETUAL'', message_type = ty, exchange_ts_ms = None, receive_ts_ns = n,
      receive_sequence = n, matching_ts_ms = None, sequence = Some n, update_id = Some n,
      connection_id = ''c1'',
      payload_value = JObj [(''params'', JObj [(''data'', JObj [(''change_id'', JInt n),
        (''prev_change_id'', JInt prev), (''bids'', JList bids), (''asks'', JList asks)])])]\<rparr>"

definition deribit_demo_level :: "string \<Rightarrow> int \<Rightarrow> int \<Rightarrow> json" where
  "deribit_demo_level a p n = JList [JStr a, JInt p, JInt n]"

definition deribit_demo :: "raw_event list" where
  "deribit_demo =
     [deribit_demo_event ''snapshot'' 0 5 [deribit_demo_level ''new'' 100 2] [deribit_demo_level ''new'' 101 3],
      deribit_demo_event ''delta'' 5 9
        [deribit_demo_level ''delete'' 100 0, deribit_demo_level ''change'' 99 4] []]"

lemmas deribit_eval =
  deribit_demo_def deribit_demo_event_def deribit_demo_level_def new_l2_session_def
  deribit_session_apply_def deribit_gate_apply_def deribit_gate_fields_def deribit_book_data_def
  deribit_required_int_def deribit_book_int_def event_payload_def jget_def deribit_feed_book_def
  deribit_apply_message_def deribit_levels_def deribit_level_def parse_levels_def
  decimal_pair_def l2_load_def l2_delta_def l2_install_def l2_is_ready_def validate_book_def
  best_bid_of_def best_ask_of_def snapshot_side_def dict_default_def dict_count_def l2_count_def
  new_deribit_gate_def new_l2_book_def

lemma deribit_demo_run:
  "l2_run deribit_session_apply new_l2_session deribit_demo =
     Inr \<lparr>ls_books = [(''BTC-PERPETUAL'', \<lparr>l2_symbol = ''BTC-PERPETUAL'', l2_bids = [(99, 4)],
            l2_asks = [(101, 3)], l2_position = Some 9\<rparr>)],
          ls_gates = [(''BTC-PERPETUAL'', \<lparr>dg_symbol = ''BTC-PERPETUAL'', dg_change_id = Some 9,
            dg_connection_id = Some ''c1''\<rparr>)],
          ls_channel_counts = [(''orderbook'', 2)], ls_raw_event_count = 2\<rparr>"
  by (simp add: deribit_eval)

lemma deribit_gate_continuous_witness:
  "\<exists>g h. gate_history deribit_gate_apply deribit_is_snapshot dg_change_id
      (new_deribit_gate ''BTC-PERPETUAL'') [] deribit_demo = (g, h) \<and> length h = 2 \<and>
    linked_chain deribit_is_snapshot deribit_event_change deribit_links connection_id h"
proof -
  obtain g h where run: "gate_history deribit_gate_apply deribit_is_snapshot dg_change_id
      (new_deribit_gate ''BTC-PERPETUAL'') [] deribit_demo = (g, h)" "dg_change_id g = Some 9" "length h = 2"
    by (simp add: deribit_eval deribit_is_snapshot_def)
  from deribit_gate_continuous [OF run(1,2)] run show ?thesis by blast
qed

lemma deribit_report_sound_witness:
  "\<exists>rep. replay_deribit_stream deribit_demo = Inr rep \<and>
    (\<forall>rb \<in> set (lp_orderbooks rep). lr_best_bid rb < lr_best_ask rb)"
  using deribit_report_sound [OF deribit_demo_run] by auto

end
