(* ===== verification/Binance_Replay.thy ===== *)
theory Binance_Replay
  imports L2_Book
begin

text \<open>
  Model of \<open>BinanceDepthSequenceGate\<close> (\<open>src/data/binance_adapter.py\<close>) and of
  \<open>src/data/binance_replay.py\<close>. The gate is bootstrapped by a REST snapshot; the first
  stream event must bridge its \<open>lastUpdateId\<close>, later ones link by \<open>pu\<close>, and events at or
  before the position are dropped without an error.
\<close>

section \<open>The depth gate\<close>

record binance_gate =
  ng_symbol :: string
  ng_update_id :: "int option"
  ng_connection_id :: "string option"
  ng_first_stream_event :: bool

definition new_binance_gate :: "string \<Rightarrow> binance_gate" where
  "new_binance_gate s =
     \<lparr>ng_symbol = s, ng_update_id = None, ng_connection_id = None, ng_first_stream_event = True\<rparr>"

definition binance_bootstrap :: "binance_gate \<Rightarrow> int \<Rightarrow> string \<Rightarrow> binance_gate \<times> unit result" where
  "binance_bootstrap g snapshot_id con =
     (if snapshot_id \<le> 0 \<or> con = []
      then (g, Inl (ValueError ''valid snapshot update ID and connection are required''))
      else (g\<lparr>ng_update_id := Some snapshot_id, ng_connection_id := Some con,
              ng_first_stream_event := True\<rparr>, Inr ()))"

definition binance_invalidate :: "binance_gate \<Rightarrow> binance_gate" where
  "binance_invalidate g =
     g\<lparr>ng_update_id := None, ng_connection_id := None, ng_first_stream_event := True\<rparr>"

text \<open>\<open>payload.get("data", payload)\<close>: only a missing key means a raw, unwrapped message.\<close>

definition binance_stream_message :: "(string, json) dict \<Rightarrow> (string, json) dict result" where
  "binance_stream_message payload =
     (case map_of payload ''data'' of
        None \<Rightarrow> Inr payload
      | Some (JObj d) \<Rightarrow> Inr d
      | Some _ \<Rightarrow> Inl (Raised BinanceReplayError ''combined stream data must be an object''))"

definition binance_required_int :: "json \<Rightarrow> int result" where
  "binance_required_int v = required_int BinanceReplayError v"

text \<open>The three ids of a depth update: \<open>U\<close>, \<open>u\<close> and \<open>pu\<close>.\<close>

definition binance_gate_fields :: "raw_event \<Rightarrow> (int \<times> int \<times> int) result" where
  "binance_gate_fields e =
     bindE (event_payload e) (\<lambda>payload.
     bindE (binance_stream_message payload) (\<lambda>msg.
     bindE (binance_required_int (jget msg ''U'')) (\<lambda>first_update.
     bindE (binance_required_int (jget msg ''u'')) (\<lambda>final_update.
     bindE (binance_required_int (jget msg ''pu'')) (\<lambda>previous_final.
     Inr (first_update, final_update, previous_final))))))"

definition binance_gate_apply :: "binance_gate \<Rightarrow> raw_event \<Rightarrow> binance_gate \<times> bool result" where
  "binance_gate_apply g e =
     (if exchange e \<noteq> ''binance'' \<or> channel e \<noteq> ''orderbook''
      then (g, Inl (Raised BinanceReplayError ''depth gate accepts only Binance orderbook events''))
      else if symbol e \<noteq> ng_symbol g
      then (g, Inl (Raised BinanceReplayError ''gate cannot accept another symbol''))
      else (case (ng_update_id g, ng_connection_id g) of
        (Some cur, Some con) \<Rightarrow>
          if connection_id e \<noteq> con
          then (binance_invalidate g, Inl (Raised BinanceSnapshotRequired ''connection changed''))
          else (case binance_gate_fields e of
            Inl x \<Rightarrow> (g, Inl x)
          | Inr (first_update, final_update, previous_final) \<Rightarrow>
              if final_update < first_update
              then (binance_invalidate g, Inl (Raised BinanceSequenceGap ''invalid update range''))
              else if final_update \<le> cur then (g, Inr False)
              else if ng_first_stream_event g
              then (if first_update \<le> cur + 1 \<and> cur + 1 \<le> final_update
                    then (g\<lparr>ng_first_stream_event := False, ng_update_id := Some final_update\<rparr>, Inr True)
                    else (binance_invalidate g,
                          Inl (Raised BinanceSequenceGap ''snapshot bridge missing expected update'')))
              else if previous_final \<noteq> cur
              then (binance_invalidate g, Inl (Raised BinanceSequenceGap ''unexpected pu''))
              else (g\<lparr>ng_update_id := Some final_update\<rparr>, Inr True))
      | _ \<Rightarrow> (g, Inl (Raised BinanceSnapshotRequired ''requires a REST depth snapshot''))))"

section \<open>The book and the session\<close>

definition binance_levels :: "json \<Rightarrow> levels result" where
  "binance_levels v = parse_levels BinanceReplayError (pair_level BinanceReplayError (\<lambda>n. n = 2)) v"

definition binance_book_int :: "json \<Rightarrow> int result" where
  "binance_book_int v = required_int_strict BinanceReplayError v"

definition binance_load_snapshot :: "l2_book \<Rightarrow> json \<Rightarrow> json \<Rightarrow> int \<Rightarrow> l2_book \<times> unit result" where
  "binance_load_snapshot b bids asks n =
     (case bindE (binance_levels bids) (\<lambda>bs. bindE (binance_levels asks) (\<lambda>as. Inr (bs, as))) of
        Inl x \<Rightarrow> (b, Inl x)
      | Inr (bs, as) \<Rightarrow> l2_load b bs as n)"

definition binance_apply_delta :: "l2_book \<Rightarrow> json \<Rightarrow> json \<Rightarrow> int \<Rightarrow> l2_book \<times> unit result" where
  "binance_apply_delta b bids asks n =
     (if \<not> l2_is_ready b
      then (b, Inl (Raised BinanceSnapshotRequired ''delta arrived before a valid snapshot''))
      else (case bindE (binance_levels bids) (\<lambda>bs. bindE (binance_levels asks) (\<lambda>as. Inr (bs, as))) of
              Inl x \<Rightarrow> (b, Inl x)
            | Inr (bs, as) \<Rightarrow> l2_install b (apply_levels (l2_bids b) bs) (apply_levels (l2_asks b) as) n))"

type_synonym binance_session = "binance_gate l2_session"

text \<open>A snapshot event loads the book first and bootstraps the gate only if that succeeded.\<close>

definition binance_snapshot_event :: "l2_book \<Rightarrow> binance_gate \<Rightarrow> raw_event
    \<Rightarrow> (l2_book \<times> binance_gate) \<times> unit result" where
  "binance_snapshot_event b g e =
     (case bindE (event_payload e) (\<lambda>payload.
           bindE (binance_book_int (jget payload ''lastUpdateId'')) (\<lambda>n. Inr (payload, n))) of
        Inl x \<Rightarrow> ((b, g), Inl x)
      | Inr (payload, n) \<Rightarrow>
          (case binance_load_snapshot b (jget payload ''bids'') (jget payload ''asks'') n of
             (b', Inl x) \<Rightarrow> ((b', g), Inl x)
           | (b', Inr _) \<Rightarrow>
               (case binance_bootstrap g n (connection_id e) of (g', r) \<Rightarrow> ((b', g'), r))))"

definition binance_delta_event :: "l2_book \<Rightarrow> binance_gate \<Rightarrow> raw_event
    \<Rightarrow> (l2_book \<times> binance_gate) \<times> unit result" where
  "binance_delta_event b g e =
     (case binance_gate_apply g e of
        (g', Inl x) \<Rightarrow> ((b, g'), Inl x)
      | (g', Inr False) \<Rightarrow> ((b, g'), Inr ())
      | (g', Inr True) \<Rightarrow>
          (case bindE (event_payload e) (\<lambda>payload.
                bindE (binance_stream_message payload) (\<lambda>msg.
                bindE (binance_book_int (jget msg ''u'')) (\<lambda>n. Inr (msg, n)))) of
             Inl x \<Rightarrow> ((b, g'), Inl x)
           | Inr (msg, n) \<Rightarrow>
               (case binance_apply_delta b (jget msg ''b'') (jget msg ''a'') n of
                  (b', r) \<Rightarrow> ((b', g'), r))))"

definition binance_session_apply :: "binance_session \<Rightarrow> raw_event \<Rightarrow> binance_session \<times> unit result" where
  "binance_session_apply s e =
     (if exchange e \<noteq> ''binance''
      then (s, Inl (Raised BinanceReplayError ''BinanceReplaySession accepts only Binance events''))
      else if channel e \<noteq> ''orderbook'' then (l2_count s e, Inr ())
      else
        (case (if message_type e = ''snapshot'' then binance_snapshot_event else binance_delta_event)
             (dict_default (ls_books s) (symbol e) (new_l2_book (symbol e)))
             (dict_default (ls_gates s) (symbol e) (new_binance_gate (symbol e))) e of
           ((b, g), r) \<Rightarrow>
             ((l2_count s e)\<lparr>ls_gates := AList.update (symbol e) g (ls_gates s),
                             ls_books := AList.update (symbol e) b (ls_books s)\<rparr>, r)))"

definition binance_session_report :: "binance_session \<Rightarrow> l2_report result" where
  "binance_session_report s = l2_session_report BinanceSnapshotRequired s"

definition replay_binance_stream :: "raw_event list \<Rightarrow> l2_report result" where
  "replay_binance_stream es = l2_replay binance_session_apply BinanceSnapshotRequired es"

definition replay_binance :: "raw_event list \<Rightarrow> l2_report result" where
  "replay_binance es = replay_binance_stream (receive_order es)"

section \<open>The outcomes of a gate step\<close>

lemma binance_gate_apply_cases:
  assumes "binance_gate_apply g e = (g', r)"
  obtains (unchanged) x where "g' = g" "r = Inl x"
  | (invalidated) x where "g' = binance_invalidate g" "r = Inl x"
  | (stale) cur fu lu prev where "binance_gate_fields e = Inr (fu, lu, prev)"
      "ng_update_id g = Some cur" "lu \<le> cur" "g' = g" "r = Inr False"
  | (accepted) cur fu lu prev where "binance_gate_fields e = Inr (fu, lu, prev)"
      "ng_update_id g = Some cur" "ng_connection_id g = Some (connection_id e)" "fu \<le> lu" "cur < lu"
      "if ng_first_stream_event g then fu \<le> cur + 1 else prev = cur"
      "g' = g\<lparr>ng_first_stream_event := False, ng_update_id := Some lu\<rparr>" "r = Inr True"
proof (cases "binance_gate_fields e")
  case (Inl x)
  with assms that(1,2) show thesis
    by (auto simp: binance_gate_apply_def split: if_splits option.splits)
next
  case (Inr f)
  obtain fu lu prev where f: "f = (fu, lu, prev)" by (cases f) auto
  show thesis
  proof (cases r)
    case (Inl x)
    with assms Inr f that(1,2) show thesis
      by (auto simp: binance_gate_apply_def split: if_splits option.splits)
  next
    case acc: (Inr b)
    with assms Inr f obtain cur where c: "ng_update_id g = Some cur"
        "ng_connection_id g = Some (connection_id e)" "fu \<le> lu"
      by (auto simp: binance_gate_apply_def split: if_splits option.splits)
    show thesis
    proof (cases "lu \<le> cur")
      case True
      with assms Inr f acc c that(3) show thesis
        by (auto simp: binance_gate_apply_def split: if_splits)
    next
      case False
      with assms Inr f acc c have "if ng_first_stream_event g then fu \<le> cur + 1 else prev = cur"
          "g' = g\<lparr>ng_first_stream_event := False, ng_update_id := Some lu\<rparr>" "r = Inr True"
        by (auto simp: binance_gate_apply_def split: if_splits)
      with Inr f c False that(4) show thesis by simp
    qed
  qed
qed

section \<open>The gate as a sequence gate\<close>

text \<open>
  The gate as the session drives it: a snapshot event bootstraps it with its
  \<open>lastUpdateId\<close>, any other event goes through \<open>apply\<close>. Its position is the update id
  together with the flag that the next event has to bridge a snapshot.
\<close>

definition binance_is_snapshot :: "raw_event \<Rightarrow> bool" where
  "binance_is_snapshot e \<longleftrightarrow> message_type e = ''snapshot''"

definition binance_snapshot_id :: "raw_event \<Rightarrow> int result" where
  "binance_snapshot_id e =
     bindE (event_payload e) (\<lambda>payload. binance_book_int (jget payload ''lastUpdateId''))"

definition binance_gate_step :: "binance_gate \<Rightarrow> raw_event \<Rightarrow> binance_gate \<times> bool result" where
  "binance_gate_step g e =
     (if binance_is_snapshot e
      then (case binance_snapshot_id e of
              Inl x \<Rightarrow> (g, Inl x)
            | Inr n \<Rightarrow> (case binance_bootstrap g n (connection_id e) of
                          (g', r) \<Rightarrow> (g', map_sum id (\<lambda>_. True) r)))
      else binance_gate_apply g e)"

definition binance_position :: "binance_gate \<Rightarrow> (int \<times> bool) option" where
  "binance_position g = map_option (\<lambda>n. (n, ng_first_stream_event g)) (ng_update_id g)"

definition binance_event_position :: "raw_event \<Rightarrow> int \<times> bool" where
  "binance_event_position e =
     (if binance_is_snapshot e
      then (case binance_snapshot_id e of Inr n \<Rightarrow> (n, True) | Inl _ \<Rightarrow> (0, True))
      else (case binance_gate_fields e of Inr (_, lu, _) \<Rightarrow> (lu, False) | Inl _ \<Rightarrow> (0, False)))"

text \<open>
  An update links to a position when it moves it forward and, right after a snapshot with
  \<open>lastUpdateId\<close> \<open>n\<close>, covers \<open>n + 1\<close>, otherwise names it as \<open>pu\<close>.
\<close>

definition binance_links :: "int \<times> bool \<Rightarrow> raw_event \<Rightarrow> bool" where
  "binance_links s e =
     (case binance_gate_fields e of
        Inr (fu, lu, prev) \<Rightarrow>
          fst s < lu \<and> (if snd s then fu \<le> fst s + 1 \<and> fst s + 1 \<le> lu else prev = fst s)
      | Inl _ \<Rightarrow> False)"

lemma binance_bootstrap_cases:
  assumes "binance_bootstrap g n con = (g', r)"
  obtains (refused) x where "g' = g" "r = Inl x"
  | (fresh) "g' = g\<lparr>ng_update_id := Some n, ng_connection_id := Some con, ng_first_stream_event := True\<rparr>"
      "r = Inr ()" "0 < n" "con \<noteq> []"
  using assms that by (auto simp: binance_bootstrap_def split: if_splits)

lemma binance_gate_step_snapshot:
  assumes "binance_gate_step g e = (g', r)" "binance_is_snapshot e"
  obtains (refused) x where "g' = g" "r = Inl x"
  | (fresh) n where "binance_snapshot_id e = Inr n" "r = Inr True"
      "g' = g\<lparr>ng_update_id := Some n, ng_connection_id := Some (connection_id e), ng_first_stream_event := True\<rparr>"
proof (cases "binance_snapshot_id e")
  case (Inl x)
  with assms that(1) show thesis by (auto simp: binance_gate_step_def)
next
  case (Inr n)
  obtain g1 r1 where b: "binance_bootstrap g n (connection_id e) = (g1, r1)" by fastforce
  with assms Inr have "g' = g1" "r = map_sum id (\<lambda>_. True) r1"
    by (simp_all add: binance_gate_step_def)
  with b Inr that show thesis by (cases rule: binance_bootstrap_cases) auto
qed

interpretation binance_gate: sequence_gate binance_gate_step binance_position ng_connection_id
  binance_is_snapshot binance_event_position binance_links connection_id
proof (unfold_locales, goal_cases)
  case (1 g e g')
  from 1 show ?case
    by (cases rule: binance_gate_step_snapshot)
      (use 1(2) in \<open>auto simp: binance_position_def binance_event_position_def\<close>)
next
  case (2 g e g')
  then have ap: "binance_gate_apply g e = (g', Inr True)" by (simp add: binance_gate_step_def)
  then show ?case
    by (cases rule: binance_gate_apply_cases)
      (use 2 in \<open>auto simp: binance_position_def binance_event_position_def binance_links_def split: if_splits\<close>)
next
  case (3 g e g')
  show ?case
  proof (cases "binance_is_snapshot e")
    case True
    from 3 True show ?thesis by (cases rule: binance_gate_step_snapshot) auto
  next
    case False
    with 3 have "binance_gate_apply g e = (g', Inr False)" by (simp add: binance_gate_step_def)
    then show ?thesis by (cases rule: binance_gate_apply_cases) auto
  qed
next
  case (4 g e g' x)
  show ?case
  proof (cases "binance_is_snapshot e")
    case True
    from 4 True show ?thesis by (cases rule: binance_gate_step_snapshot) auto
  next
    case False
    with 4 have "binance_gate_apply g e = (g', Inl x)" by (simp add: binance_gate_step_def)
    then show ?thesis
      by (cases rule: binance_gate_apply_cases) (auto simp: binance_invalidate_def binance_position_def)
  qed
qed

section \<open>The session invariant\<close>

lemma binance_levels_valid: "binance_levels v = Inr ls \<Longrightarrow> \<forall>l \<in> set ls. valid_level l"
  unfolding binance_levels_def by (rule pair_levels_valid)

lemma binance_load_snapshot_inv:
  "l2_inv b \<Longrightarrow> binance_load_snapshot b bids asks n = (b', r) \<Longrightarrow> l2_inv b'"
  by (auto simp: binance_load_snapshot_def bindE_eq_Inr split: sum.splits
      dest!: binance_levels_valid intro: l2_load_inv)

lemma binance_apply_delta_parsed:
  assumes "binance_apply_delta b bids asks n = (b', r)"
  obtains (refused) x where "b' = b" "r = Inl x"
  | (parsed) bs as where "\<forall>l \<in> set bs. valid_level l" "\<forall>l \<in> set as. valid_level l"
      "l2_delta BinanceSnapshotRequired b bs as n = (b', r)"
proof (cases "l2_is_ready b")
  case False
  with assms refused show thesis by (auto simp: binance_apply_delta_def)
next
  case ready: True
  show thesis
  proof (cases "bindE (binance_levels bids) (\<lambda>bs. bindE (binance_levels asks) (\<lambda>as. Inr (bs, as)))")
    case (Inl x)
    with assms ready refused show thesis by (auto simp: binance_apply_delta_def)
  next
    case (Inr ba)
    then obtain bs as where ba: "ba = (bs, as)" "binance_levels bids = Inr bs" "binance_levels asks = Inr as"
      by (auto simp: bindE_eq_Inr)
    with assms ready Inr have "l2_delta BinanceSnapshotRequired b bs as n = (b', r)"
      by (simp add: binance_apply_delta_def l2_delta_def)
    with parsed ba(2,3) show thesis by (blast dest: binance_levels_valid)
  qed
qed

lemma binance_apply_delta_inv:
  "l2_inv b \<Longrightarrow> binance_apply_delta b bids asks n = (b', r) \<Longrightarrow> l2_inv b'"
  by (erule binance_apply_delta_parsed) (auto dest: l2_delta_inv)

lemma binance_snapshot_event_inv:
  "l2_inv b \<Longrightarrow> binance_snapshot_event b g e = ((b', g'), r) \<Longrightarrow> l2_inv b'"
  by (auto simp: binance_snapshot_event_def split: sum.splits prod.splits
      dest: binance_load_snapshot_inv)

lemma binance_delta_event_inv:
  "l2_inv b \<Longrightarrow> binance_delta_event b g e = ((b', g'), r) \<Longrightarrow> l2_inv b'"
  by (auto simp: binance_delta_event_def split: sum.splits prod.splits bool.splits
      dest: binance_apply_delta_inv)

lemma binance_session_apply_inv:
  assumes "l2_books_inv s" "binance_session_apply s e = (s', r)"
  shows "l2_books_inv s'"
proof -
  let ?b = "dict_default (ls_books s) (symbol e) (new_l2_book (symbol e))"
  let ?g = "dict_default (ls_gates s) (symbol e) (new_binance_gate (symbol e))"
  obtain b g q where st: "(if message_type e = ''snapshot'' then binance_snapshot_event
      else binance_delta_event) ?b ?g e = ((b, g), q)" by (metis surj_pair)
  with l2_book_default [OF assms(1), of "symbol e"] have "l2_inv b"
    by (cases "message_type e = ''snapshot''")
      (auto intro: binance_snapshot_event_inv binance_delta_event_inv)
  with assms st show ?thesis
    by (auto simp: binance_session_apply_def l2_books_inv_def l2_count_def dict_all_update
        split: if_splits)
qed

text \<open>A step that raises nothing leaves the book where the gate stands.\<close>

definition binance_stands :: "l2_book \<Rightarrow> binance_gate \<Rightarrow> bool" where
  "binance_stands b g \<longleftrightarrow> (\<forall>n. ng_update_id g = Some n \<longrightarrow> l2_is_ready b \<and> l2_position b = Some n)"

lemma binance_snapshot_event_stands:
  assumes "binance_snapshot_event b g e = ((b', g'), Inr ())"
  shows "binance_stands b' g'"
proof -
  from assms obtain payload n where
    ld: "binance_load_snapshot b (jget payload ''bids'') (jget payload ''asks'') n = (b', Inr ())"
    and bs: "binance_bootstrap g n (connection_id e) = (g', Inr ())"
    by (auto simp: binance_snapshot_event_def split: sum.splits prod.splits)
  from ld have "l2_is_ready b' \<and> l2_position b' = Some n"
    by (auto simp: binance_load_snapshot_def split: sum.splits prod.splits dest: l2_load_ok)
  with bs show ?thesis
    by (auto simp: binance_stands_def elim: binance_bootstrap_cases)
qed

lemma binance_delta_event_stands:
  assumes "binance_stands b g" "binance_delta_event b g e = ((b', g'), Inr ())"
  shows "binance_stands b' g'"
proof -
  obtain g1 q where ga: "binance_gate_apply g e = (g1, q)" by fastforce
  from ga show ?thesis
  proof (cases rule: binance_gate_apply_cases)
    case (stale cur fu lu prev)
    with assms ga show ?thesis by (simp add: binance_delta_event_def)
  next
    case (accepted cur fu lu prev)
    with assms(2) ga obtain payload msg n where f: "event_payload e = Inr payload"
        "binance_stream_message payload = Inr msg" "binance_book_int (jget msg ''u'') = Inr n"
        and ad: "binance_apply_delta b (jget msg ''b'') (jget msg ''a'') n = (b', Inr ())" "g' = g1"
      by (auto simp: binance_delta_event_def bindE_eq_Inr split: sum.splits prod.splits)
    from f accepted(1) have "binance_required_int (jget msg ''u'') = Inr lu"
      by (auto simp: binance_gate_fields_def bindE_eq_Inr)
    with f(3) have "n = lu"
      unfolding binance_required_int_def binance_book_int_def by (metis required_ints_agree)
    moreover from ad(1) have "l2_is_ready b' \<and> l2_position b' = Some n"
      by (cases rule: binance_apply_delta_parsed) (auto dest: l2_delta_ok)
    ultimately show ?thesis using ad accepted by (simp add: binance_stands_def)
  qed (use assms(2) ga in \<open>auto simp: binance_delta_event_def\<close>)
qed

lemma binance_stands_default:
  assumes "l2_in_step ng_update_id s"
  shows "binance_stands (dict_default (ls_books s) k (new_l2_book k))
    (dict_default (ls_gates s) k (new_binance_gate k))"
proof (cases "map_of (ls_gates s) k")
  case None
  then show ?thesis by (simp add: binance_stands_def dict_default_def new_binance_gate_def)
next
  case (Some g)
  with assms have "\<And>n. ng_update_id g = Some n \<Longrightarrow>
      \<exists>b. map_of (ls_books s) k = Some b \<and> l2_is_ready b \<and> l2_position b = Some n"
    by (auto simp: l2_in_step_def)
  with Some show ?thesis by (auto simp: binance_stands_def dict_default_def)
qed

lemma binance_session_apply_in_step:
  assumes "l2_in_step ng_update_id s" "binance_session_apply s e = (s', Inr ())"
  shows "l2_in_step ng_update_id s'"
proof (cases "channel e = ''orderbook'' \<and> exchange e = ''binance''")
  case False
  with assms show ?thesis by (auto simp: binance_session_apply_def split: if_splits)
next
  case True
  let ?b = "dict_default (ls_books s) (symbol e) (new_l2_book (symbol e))"
  let ?g = "dict_default (ls_gates s) (symbol e) (new_binance_gate (symbol e))"
  have cs: "l2_in_step ng_update_id (l2_count s e)" using assms(1) by simp
  obtain b g q where st: "(if message_type e = ''snapshot'' then binance_snapshot_event
      else binance_delta_event) ?b ?g e = ((b, g), q)" by (metis surj_pair)
  with assms(2) True have q: "q = Inr ()" by (simp add: binance_session_apply_def)
  with st have "binance_stands b g"
    using binance_stands_default [OF assms(1), of "symbol e"]
    by (cases "message_type e = ''snapshot''")
      (auto intro: binance_snapshot_event_stands binance_delta_event_stands)
  with assms(2) True st l2_in_step_both [OF cs, of g b "symbol e"] show ?thesis
    by (simp add: binance_session_apply_def binance_stands_def)
qed

interpretation binance_feed: gated_feed binance_session_apply BinanceSnapshotRequired ng_update_id
  by unfold_locales (fact binance_session_apply_inv binance_session_apply_in_step)+

section \<open>Properties\<close>

text \<open>
  Continuity of the Binance depth gate. Since the last snapshot the accepted updates form
  a chain over one connection: the first covers \<open>lastUpdateId + 1\<close>, every later one names
  its predecessor's \<open>u\<close> as \<open>pu\<close>, each moves the position forward; stale updates between
  them leave no trace.
\<close>

theorem binance_gate_continuous:
  assumes "gate_history binance_gate_step binance_is_snapshot binance_position (new_binance_gate name) [] es
      = (g, h)"
    "binance_position g = Some s"
  shows "linked_chain binance_is_snapshot binance_event_position binance_links connection_id h \<and>
    s = binance_event_position (last h) \<and> ng_connection_id g = Some (connection_id (hd h))"
proof -
  have "binance_position (new_binance_gate name) = None"
    by (simp add: new_binance_gate_def binance_position_def)
  from binance_gate.positioned_by_chain [OF this assms] show ?thesis .
qed

text \<open>
  Book and gate stay in step. After a replay without exception the book of every symbol
  whose gate is positioned exists, is ready and carries the update id of the gate, stale
  events included.
\<close>

theorem binance_book_at_gate:
  assumes "l2_run binance_session_apply new_l2_session es = Inr s"
    "map_of (ls_gates s) k = Some g" "ng_update_id g = Some n"
  shows "\<exists>b. map_of (ls_books s) k = Some b \<and> l2_is_ready b \<and> l2_position b = Some n"
  by (rule binance_feed.gate_has_book [OF assms])

text \<open>
  A Binance replay that reaches its end yields a report whose books have a positive best
  bid strictly below the best ask.
\<close>

theorem binance_report_sound:
  assumes "l2_run binance_session_apply new_l2_session es = Inr s"
  shows "\<exists>rep. replay_binance_stream es = Inr rep \<and>
    (\<forall>rb \<in> set (lp_orderbooks rep). 0 < lr_best_bid rb \<and> lr_best_bid rb < lr_best_ask rb)"
  using binance_feed.report_total [OF assms] binance_feed.report_uncrossed
  unfolding replay_binance_stream_def by blast

section \<open>A concrete stream\<close>

definition binance_demo_event :: "string \<Rightarrow> int \<Rightarrow> (string, json) dict \<Rightarrow> raw_event" where
  "binance_demo_event ty n payload =
     \<lparr>schema_version = 1, ingestion_version = ''greenfield-binance-raw-v1'', event_id = ''e'',
      exchange = ''binance'', market_type = ''linear'', channel = ''orderbook'', topic = ''depth'',
      symbol = ''BTCUSDT'', message_type = ty, exchange_ts_ms = None, receive_ts_ns = n,
      receive_sequence = n, matching_ts_ms = None, sequence = None, update_id = None,
      connection_id = ''c1'', payload_value = JObj payload\<rparr>"

definition binance_demo_delta :: "int \<Rightarrow> int \<Rightarrow> int \<Rightarrow> json list \<Rightarrow> json list \<Rightarrow> (string, json) dict" where
  "binance_demo_delta fu lu prev bids asks =
     [(''data'', JObj [(''U'', JInt fu), (''u'', JInt lu), (''pu'', JInt prev), (''b'', JList bids),
        (''a'', JList asks)])]"

definition binance_demo :: "raw_event list" where
  "binance_demo =
     [binance_demo_event ''snapshot'' 1 [(''lastUpdateId'', JInt 10),
        (''bids'', JList [JList [JInt 100, JInt 2]]), (''asks'', JList [JList [JInt 101, JInt 3]])],
      binance_demo_event ''delta'' 2 (binance_demo_delta 5 9 4 [] []),
      binance_demo_event ''delta'' 3 (binance_demo_delta 10 12 9 [JList [JInt 99, JInt 4]] []),
      binance_demo_event ''delta'' 4 (binance_demo_delta 13 15 12 [JList [JInt 100, JInt 0]] [])]"

lemmas binance_eval =
  binance_demo_def binance_demo_event_def binance_demo_delta_def new_l2_session_def
  binance_session_apply_def binance_snapshot_event_def binance_delta_event_def
  binance_gate_apply_def binance_gate_fields_def binance_stream_message_def
  binance_required_int_def binance_book_int_def binance_bootstrap_def event_payload_def jget_def
  binance_load_snapshot_def binance_apply_delta_def binance_levels_def parse_levels_def
  pair_level_def decimal_pair_def l2_load_def l2_install_def l2_is_ready_def validate_book_def
  best_bid_of_def best_ask_of_def snapshot_side_def dict_default_def dict_count_def l2_count_def
  new_binance_gate_def new_l2_book_def

lemma binance_demo_run:
  "l2_run binance_session_apply new_l2_session binance_demo =
     Inr \<lparr>ls_books = [(''BTCUSDT'', \<lparr>l2_symbol = ''BTCUSDT'', l2_bids = [(99, 4)],
            l2_asks = [(101, 3)], l2_position = Some 15\<rparr>)],
          ls_gates = [(''BTCUSDT'', \<lparr>ng_symbol = ''BTCUSDT'', ng_update_id = Some 15,
            ng_connection_id = Some ''c1'', ng_first_stream_event = False\<rparr>)],
          ls_channel_counts = [(''orderbook'', 4)], ls_raw_event_count = 4\<rparr>"
  by (simp add: binance_eval)

lemma binance_gate_continuous_witness:
  "\<exists>g h. gate_history binance_gate_step binance_is_snapshot binance_position
      (new_binance_gate ''BTCUSDT'') [] binance_demo = (g, h) \<and> length h = 3 \<and>
    linked_chain binance_is_snapshot binance_event_position binance_links connection_id h"
proof -
  obtain g h where run: "gate_history binance_gate_step binance_is_snapshot binance_position
      (new_binance_gate ''BTCUSDT'') [] binance_demo = (g, h)"
      "binance_position g = Some (15, False)" "length h = 3"
    by (simp add: binance_eval binance_is_snapshot_def binance_position_def binance_gate_step_def
        binance_snapshot_id_def)
  from binance_gate_continuous [OF run(1,2)] run show ?thesis by blast
qed

lemma binance_book_at_gate_witness:
  "\<exists>s b. l2_run binance_session_apply new_l2_session binance_demo = Inr s \<and>
     map_of (ls_books s) ''BTCUSDT'' = Some b \<and> l2_position b = Some 15"
  using binance_book_at_gate [OF binance_demo_run, of "''BTCUSDT''"
      "\<lparr>ng_symbol = ''BTCUSDT'', ng_update_id = Some 15, ng_connection_id = Some ''c1'',
        ng_first_stream_event = False\<rparr>" 15]
  by (simp add: binance_demo_run)

lemma binance_report_sound_witness:
  "\<exists>rep. replay_binance_stream binance_demo = Inr rep \<and>
    (\<forall>rb \<in> set (lp_orderbooks rep). lr_best_bid rb < lr_best_ask rb)"
  using binance_report_sound [OF binance_demo_run] by auto

end
