(* ===== verification/Daily_Ledger.thy ===== *)
theory Daily_Ledger
  imports Prelude
begin

text \<open>
  The contract of a per-day loss ledger as the risk engines keep it: rolling to a later UTC
  day opens an empty ledger, rolling to the same or an earlier day changes nothing, a loss is
  added to whatever day the ledger stands on. The locale proves what a sequence of postings
  leaves in the ledger, out-of-order time stamps included.
\<close>

locale daily_ledger =
  fixes roll :: "'s \<Rightarrow> int \<Rightarrow> 's \<times> bool"
    and charge :: "'s \<Rightarrow> rat \<Rightarrow> 's"
    and day :: "'s \<Rightarrow> int option"
    and pnl :: "'s \<Rightarrow> rat"
  assumes roll_forward:
      "(\<And>d. day s = Some d \<Longrightarrow> d < utc_date t) \<Longrightarrow>
       snd (roll s t) \<and> day (fst (roll s t)) = Some (utc_date t) \<and> pnl (fst (roll s t)) = 0"
    and roll_back: "day s = Some d \<Longrightarrow> utc_date t \<le> d \<Longrightarrow> roll s t = (s, utc_date t = d)"
    and charge_law: "day (charge s x) = day s" "pnl (charge s x) = pnl s + x"
begin

definition post :: "'s \<Rightarrow> int \<times> rat \<Rightarrow> 's" where
  "post s e = charge (fst (roll s (fst e))) (snd e)"

lemma roll_day: "day (fst (roll s t)) =
    Some (case day s of None \<Rightarrow> utc_date t | Some d \<Rightarrow> max d (utc_date t))"
proof (cases "\<exists>d. day s = Some d \<and> utc_date t \<le> d")
  case True
  then obtain d where "day s = Some d" "utc_date t \<le> d" by blast
  with roll_back [OF this] show ?thesis by simp
next
  case False
  then have "\<And>d. day s = Some d \<Longrightarrow> d < utc_date t" by (metis not_le)
  with roll_forward [of s t] show ?thesis by (cases "day s") (auto simp: max_def)
qed

text \<open>The ledger never moves to an earlier day.\<close>

lemma roll_monotone: "day s = Some d \<Longrightarrow> \<exists>d'. day (fst (roll s t)) = Some d' \<and> d \<le> d'"
  using roll_day [of s t] by simp

lemma roll_answer: "snd (roll s t) \<longleftrightarrow> (\<forall>d. day s = Some d \<longrightarrow> d \<le> utc_date t)"
proof (cases "\<exists>d. day s = Some d \<and> utc_date t \<le> d")
  case True
  then obtain d where "day s = Some d" "utc_date t \<le> d" by blast
  with roll_back [OF this] show ?thesis by auto
next
  case False
  then have "\<And>d. day s = Some d \<Longrightarrow> d < utc_date t" by (metis not_le)
  with roll_forward [of s t] show ?thesis by auto
qed

text \<open>Postings that are not later than the ledger's day are all charged to it.\<close>

lemma posts_same_day:
  "day s = Some d \<Longrightarrow> (\<And>e. e \<in> set es \<Longrightarrow> utc_date (fst e) \<le> d) \<Longrightarrow>
   day (foldl post s es) = Some d \<and> pnl (foldl post s es) = pnl s + sum_list (map snd es)"
proof (induction es arbitrary: s)
  case (Cons e es)
  have "roll s (fst e) = (s, utc_date (fst e) = d)"
    using Cons.prems by (intro roll_back) auto
  then have "day (post s e) = Some d" "pnl (post s e) = pnl s + snd e"
    using Cons.prems(1) by (simp_all add: post_def charge_law)
  with Cons.IH [of "post s e"] Cons.prems show ?case by simp
qed simp

text \<open>
  After any postings the ledger stands on the latest day posted to and holds the amounts
  posted since it first reached that day.
\<close>

lemma posts_latest_day:
  assumes "\<And>d. day (foldl post s xs) = Some d \<Longrightarrow> d < utc_date t"
    and "\<And>e. e \<in> set ys \<Longrightarrow> utc_date (fst e) \<le> utc_date t"
  shows "day (foldl post s (xs @ (t, a) # ys)) = Some (utc_date t) \<and>
    pnl (foldl post s (xs @ (t, a) # ys)) = a + sum_list (map snd ys)"
proof -
  let ?s = "foldl post s xs"
  from roll_forward [of ?s t] assms(1) have "day (post ?s (t, a)) = Some (utc_date t)"
      "pnl (post ?s (t, a)) = a"
    by (simp_all add: post_def charge_law)
  with posts_same_day [of "post ?s (t, a)" "utc_date t" ys] assms(2) show ?thesis by simp
qed

lemma posts_day_below:
  "(\<And>d. day s = Some d \<Longrightarrow> d < m) \<Longrightarrow> (\<And>e. e \<in> set xs \<Longrightarrow> utc_date (fst e) < m) \<Longrightarrow>
   day (foldl post s xs) = Some d \<Longrightarrow> d < m"
proof (induction xs arbitrary: s)
  case (Cons e xs)
  have "d' < m" if "day (post s e) = Some d'" for d'
  proof -
    from that have "day (fst (roll s (fst e))) = Some d'" by (simp add: post_def charge_law)
    then show ?thesis
      using roll_day [of s "fst e"] Cons.prems(1) Cons.prems(2) [of e] by (cases "day s") auto
  qed
  with Cons.IH [of "post s e"] Cons.prems show ?case by simp
qed simp

end

end
