(* ===== verification/Portfolio_Risk.thy ===== *)
theory Portfolio_Risk
  imports Daily_Ledger
begin

text \<open>
  Model of \<open>src/risk/portfolio_engine.py\<close>: the validated value objects, the shared budget
  engine and its snapshot. A raw object holds \<open>num\<close> and \<open>pydatetime\<close> fields; its
  constructor function is the \<open>__post_init__\<close> check and yields the object over \<open>rat\<close>
  and UTC instants, which is what the engine works on. Operations return the engine they
  leave with their result.
\<close>

section \<open>Configuration\<close>

record 'n portfolio_config =
  max_gross :: 'n
  max_net :: 'n
  max_symbol :: 'n
  max_venue :: 'n
  max_strategy :: 'n
  max_engine :: 'n
  max_correlated :: 'n
  max_committed_risk :: 'n
  max_daily_loss_fraction :: 'n
  max_drawdown_fraction :: 'n
  max_open_positions :: int
  min_order_notional :: 'n

definition config_limits :: "'n portfolio_config \<Rightarrow> 'n list" where
  "config_limits c =
     [max_gross c, max_net c, max_symbol c, max_venue c, max_strategy c, max_engine c,
      max_correlated c, max_committed_risk c, max_daily_loss_fraction c, max_drawdown_fraction c,
      min_order_notional c]"

definition config_fractions :: "'n portfolio_config \<Rightarrow> 'n list" where
  "config_fractions c = [max_committed_risk c, max_daily_loss_fraction c, max_drawdown_fraction c]"

definition map_config :: "('a \<Rightarrow> 'b) \<Rightarrow> 'a portfolio_config \<Rightarrow> 'b portfolio_config" where
  "map_config f c =
     \<lparr>max_gross = f (max_gross c), max_net = f (max_net c), max_symbol = f (max_symbol c),
      max_venue = f (max_venue c), max_strategy = f (max_strategy c), max_engine = f (max_engine c),
      max_correlated = f (max_correlated c), max_committed_risk = f (max_committed_risk c),
      max_daily_loss_fraction = f (max_daily_loss_fraction c),
      max_drawdown_fraction = f (max_drawdown_fraction c),
      max_open_positions = max_open_positions c, min_order_notional = f (min_order_notional c)\<rparr>"

definition default_portfolio_config :: "num portfolio_config" where
  "default_portfolio_config =
     \<lparr>max_gross = Fin 2, max_net = Fin 1, max_symbol = Fin (1 / 2), max_venue = Fin 1,
      max_strategy = Fin (3 / 4), max_engine = Fin 1, max_correlated = Fin (3 / 4),
      max_committed_risk = Fin (5 / 100), max_daily_loss_fraction = Fin (3 / 100),
      max_drawdown_fraction = Fin (15 / 100), max_open_positions = 10, min_order_notional = Fin 10\<rparr>"

definition make_portfolio_config :: "num portfolio_config \<Rightarrow> rat portfolio_config result" where
  "make_portfolio_config c =
     (if list_ex (\<lambda>v. \<not> isfinite v \<or> num_le v (Fin 0)) (config_limits c)
      then Inl (ValueError ''portfolio risk limits must be finite and positive'')
      else if max_open_positions c < 1
      then Inl (ValueError ''portfolio risk requires at least one position slot'')
      else if list_ex (\<lambda>v. num_lt (Fin 1) v) (config_fractions c)
      then Inl (ValueError ''portfolio risk fractions cannot exceed one'')
      else Inr (map_config num_val c))"

definition portfolio_config_ok :: "rat portfolio_config \<Rightarrow> bool" where
  "portfolio_config_ok c \<longleftrightarrow>
     (\<forall>v \<in> set (config_limits c). 0 < v) \<and> 1 \<le> max_open_positions c \<and>
     (\<forall>v \<in> set (config_fractions c). v \<le> 1)"

lemma make_portfolio_config_ok: "make_portfolio_config c = Inr d \<Longrightarrow> portfolio_config_ok d"
  by (auto simp: make_portfolio_config_def portfolio_config_ok_def config_limits_def
      config_fractions_def map_config_def isfinite_iff)

section \<open>Positions, proposals and decisions\<close>

record ('n, 't) portfolio_position =
  pp_key :: string
  pp_symbol :: string
  pp_venue :: string
  pp_strategy :: string
  pp_engine :: string
  pp_signed_notional :: 'n
  pp_committed_risk :: 'n
  pp_opened_at :: 't

definition make_portfolio_position ::
    "(num, pydatetime) portfolio_position \<Rightarrow> (rat, int) portfolio_position result" where
  "make_portfolio_position p =
     (if list_ex blank [pp_key p, pp_symbol p, pp_venue p, pp_strategy p, pp_engine p]
      then Inl (ValueError ''portfolio position identifiers must be non-empty'')
      else if \<not> isfinite (pp_signed_notional p) \<or> pp_signed_notional p = Fin 0
      then Inl (ValueError ''portfolio position notional must be finite and non-zero'')
      else if \<not> isfinite (pp_committed_risk p) \<or>
              \<not> (num_lt (Fin 0) (pp_committed_risk p) \<and> num_le (pp_committed_risk p) (Fin 1))
      then Inl (ValueError ''portfolio position committed risk must be positive'')
      else bindE (utc_of ''position opened timestamp must be timezone-aware'' (pp_opened_at p)) (\<lambda>t.
        Inr \<lparr>pp_key = pp_key p, pp_symbol = pp_symbol p, pp_venue = pp_venue p,
             pp_strategy = pp_strategy p, pp_engine = pp_engine p,
             pp_signed_notional = num_val (pp_signed_notional p),
             pp_committed_risk = num_val (pp_committed_risk p), pp_opened_at = t\<rparr>))"

definition position_ok :: "(rat, int) portfolio_position \<Rightarrow> bool" where
  "position_ok p \<longleftrightarrow>
     \<not> list_ex blank [pp_key p, pp_symbol p, pp_venue p, pp_strategy p, pp_engine p] \<and>
     pp_signed_notional p \<noteq> 0 \<and> 0 < pp_committed_risk p \<and> pp_committed_risk p \<le> 1"

lemma make_portfolio_position_ok: "make_portfolio_position p = Inr q \<Longrightarrow> position_ok q"
  by (auto simp: make_portfolio_position_def position_ok_def bindE_eq_Inr isfinite_iff
      split: if_splits)

record ('n, 't) entry_proposal =
  ep_key :: string
  ep_symbol :: string
  ep_venue :: string
  ep_strategy :: string
  ep_engine :: string
  ep_signed_notional :: 'n
  ep_committed_risk :: 'n
  ep_correlation_checked :: "string list"
  ep_correlated :: "string list"
  ep_proposed_at :: 't

definition make_entry_proposal ::
    "(num, pydatetime) entry_proposal \<Rightarrow> (rat, int) entry_proposal result" where
  "make_entry_proposal p =
     (if list_ex blank [ep_key p, ep_symbol p, ep_venue p, ep_strategy p, ep_engine p]
      then Inl (ValueError ''portfolio proposal identifiers must be non-empty'')
      else if \<not> isfinite (ep_signed_notional p) \<or> ep_signed_notional p = Fin 0
      then Inl (ValueError ''portfolio proposal notional must be finite and non-zero'')
      else if \<not> isfinite (ep_committed_risk p) \<or>
              \<not> (num_lt (Fin 0) (ep_committed_risk p) \<and> num_le (ep_committed_risk p) (Fin 1))
      then Inl (ValueError ''portfolio proposal committed risk must be positive'')
      else if \<not> distinct (ep_correlation_checked p)
      then Inl (ValueError ''correlation checked symbols must be unique'')
      else if \<not> distinct (ep_correlated p)
      then Inl (ValueError ''portfolio proposal correlated symbols must be unique'')
      else if \<not> set (ep_correlated p) \<subseteq> set (ep_correlation_checked p)
      then Inl (ValueError ''correlated symbols must be covered by correlation evidence'')
      else if ep_symbol p \<in> set (ep_correlation_checked p) \<or> ep_symbol p \<in> set (ep_correlated p)
      then Inl (ValueError ''proposal symbol must not appear in correlation evidence'')
      else bindE (utc_of ''proposal timestamp must be timezone-aware'' (ep_proposed_at p)) (\<lambda>t.
        Inr \<lparr>ep_key = ep_key p, ep_symbol = ep_symbol p, ep_venue = ep_venue p,
             ep_strategy = ep_strategy p, ep_engine = ep_engine p,
             ep_signed_notional = num_val (ep_signed_notional p),
             ep_committed_risk = num_val (ep_committed_risk p),
             ep_correlation_checked = ep_correlation_checked p, ep_correlated = ep_correlated p,
             ep_proposed_at = t\<rparr>))"

definition proposal_ok :: "(rat, int) entry_proposal \<Rightarrow> bool" where
  "proposal_ok p \<longleftrightarrow>
     \<not> list_ex blank [ep_key p, ep_symbol p, ep_venue p, ep_strategy p, ep_engine p] \<and>
     ep_signed_notional p \<noteq> 0 \<and> 0 < ep_committed_risk p \<and> ep_committed_risk p \<le> 1 \<and>
     distinct (ep_correlation_checked p) \<and> distinct (ep_correlated p) \<and>
     set (ep_correlated p) \<subseteq> set (ep_correlation_checked p) \<and>
     ep_symbol p \<notin> set (ep_correlation_checked p)"

lemma make_entry_proposal_ok: "make_entry_proposal p = Inr q \<Longrightarrow> proposal_ok q"
  by (auto simp: make_entry_proposal_def proposal_ok_def bindE_eq_Inr isfinite_iff
      split: if_splits)

record portfolio_decision =
  pd_proposal_key :: string
  pd_approved :: bool
  pd_signed_notional :: rat
  pd_risk_fraction :: rat
  pd_reason :: string
  pd_projected_gross :: rat
  pd_projected_net :: rat
  pd_projected_risk :: rat

definition make_portfolio_decision :: "portfolio_decision \<Rightarrow> portfolio_decision result" where
  "make_portfolio_decision d =
     (if blank (pd_proposal_key d) \<or> blank (pd_reason d)
      then Inl (ValueError ''risk decision identifiers must be non-empty'')
      else if pd_approved d \<and> (pd_signed_notional d = 0 \<or> pd_risk_fraction d \<le> 0)
      then Inl (ValueError ''approved risk decision must allocate notional and risk'')
      else if \<not> pd_approved d \<and> (pd_signed_notional d \<noteq> 0 \<or> pd_risk_fraction d \<noteq> 0)
      then Inl (ValueError ''rejected risk decision cannot allocate notional or risk'')
      else Inr d)"

record 'n portfolio_snapshot =
  ps_positions :: "(rat, int) portfolio_position list"
  ps_peak_equity :: 'n
  ps_daily_pnl :: 'n
  ps_current_day :: "int option"
  ps_kill_reason :: "string option"

definition make_portfolio_snapshot :: "num portfolio_snapshot \<Rightarrow> rat portfolio_snapshot result" where
  "make_portfolio_snapshot s =
     (if \<not> distinct (map pp_key (ps_positions s))
      then Inl (ValueError ''risk snapshot position keys must be unique'')
      else if \<not> finite_nonneg (ps_peak_equity s)
      then Inl (ValueError ''risk snapshot peak equity must be finite and non-negative'')
      else if \<not> isfinite (ps_daily_pnl s)
      then Inl (ValueError ''risk snapshot daily PnL must be finite'')
      else if (case ps_kill_reason s of None \<Rightarrow> False | Some r \<Rightarrow> blank r)
      then Inl (ValueError ''risk snapshot kill switch reason must be non-empty'')
      else Inr \<lparr>ps_positions = ps_positions s, ps_peak_equity = num_val (ps_peak_equity s),
                ps_daily_pnl = num_val (ps_daily_pnl s), ps_current_day = ps_current_day s,
                ps_kill_reason = ps_kill_reason s\<rparr>)"

section \<open>The engine\<close>

record portfolio_engine =
  pe_config :: "rat portfolio_config"
  pe_positions :: "(string, (rat, int) portfolio_position) dict"
  pe_peak_equity :: rat
  pe_daily_pnl :: rat
  pe_current_day :: "int option"
  pe_kill_reason :: "string option"
  pe_pending :: "(string, portfolio_decision) dict"

definition new_portfolio_engine :: "rat portfolio_config \<Rightarrow> portfolio_engine" where
  "new_portfolio_engine c =
     \<lparr>pe_config = c, pe_positions = [], pe_peak_equity = 0, pe_daily_pnl = 0,
      pe_current_day = None, pe_kill_reason = None, pe_pending = []\<rparr>"

definition held :: "portfolio_engine \<Rightarrow> (rat, int) portfolio_position list" where
  "held e = map snd (pe_positions e)"

definition gross_where :: "((rat, int) portfolio_position \<Rightarrow> bool) \<Rightarrow> portfolio_engine \<Rightarrow> rat" where
  "gross_where P e = sum_list (map (\<lambda>p. \<bar>pp_signed_notional p\<bar>) (filter P (held e)))"

definition gross_exposure :: "portfolio_engine \<Rightarrow> rat" where
  "gross_exposure e = sum_list (map (\<lambda>p. \<bar>pp_signed_notional p\<bar>) (held e))"

definition net_exposure :: "portfolio_engine \<Rightarrow> rat" where
  "net_exposure e = sum_list (map pp_signed_notional (held e))"

definition committed_risk_fraction :: "portfolio_engine \<Rightarrow> rat" where
  "committed_risk_fraction e = sum_list (map pp_committed_risk (held e))"

definition sorted_positions :: "portfolio_engine \<Rightarrow> (rat, int) portfolio_position list" where
  "sorted_positions e = sort_key pp_key (held e)"

text \<open>\<open>from_snapshot\<close>: the dict comprehension keys the positions by their key.\<close>

definition from_snapshot :: "rat portfolio_snapshot \<Rightarrow> rat portfolio_config \<Rightarrow> portfolio_engine result" where
  "from_snapshot s c =
     (if max_open_positions c < int (length (ps_positions s))
      then Inl (ValueError ''risk snapshot exceeds the configured position limit'')
      else Inr \<lparr>pe_config = c,
                pe_positions = foldl (\<lambda>d p. AList.update (pp_key p) p d) [] (ps_positions s),
                pe_peak_equity = ps_peak_equity s, pe_daily_pnl = ps_daily_pnl s,
                pe_current_day = ps_current_day s, pe_kill_reason = ps_kill_reason s,
                pe_pending = []\<rparr>)"

definition portfolio_roll_day :: "portfolio_engine \<Rightarrow> int \<Rightarrow> portfolio_engine \<times> bool" where
  "portfolio_roll_day e now =
     (case pe_current_day e of
        None \<Rightarrow> (e\<lparr>pe_current_day := Some (utc_date now), pe_daily_pnl := 0\<rparr>, True)
      | Some d \<Rightarrow>
          if d < utc_date now
          then (e\<lparr>pe_current_day := Some (utc_date now), pe_daily_pnl := 0\<rparr>, True)
          else (e, utc_date now = d))"

definition positive_equity :: "num \<Rightarrow> rat result" where
  "positive_equity equity =
     (if finite_positive equity then Inr (num_val equity)
      else Inl (ValueError ''portfolio equity must be finite and positive''))"

definition rejected :: "portfolio_engine \<Rightarrow> string \<Rightarrow> string \<Rightarrow> portfolio_decision result" where
  "rejected e reason key =
     make_portfolio_decision
       \<lparr>pd_proposal_key = key, pd_approved = False, pd_signed_notional = 0, pd_risk_fraction = 0,
        pd_reason = reason, pd_projected_gross = gross_exposure e, pd_projected_net = net_exposure e,
        pd_projected_risk = committed_risk_fraction e\<rparr>"

definition blocking_reason :: "portfolio_engine \<Rightarrow> (rat, int) entry_proposal \<Rightarrow> rat \<Rightarrow> string option" where
  "blocking_reason e p equity =
     (let c = pe_config e in
      case pe_kill_reason e of
        Some r \<Rightarrow> Some (''KILL_SWITCH_ACTIVE:'' @ r)
      | None \<Rightarrow>
          if ep_key p \<in> fst ` set (pe_positions e) then Some ''POSITION_KEY_ALREADY_OPEN''
          else if max_open_positions c \<le> int (length (pe_positions e)) then Some ''MAXIMUM_OPEN_POSITIONS''
          else if pe_daily_pnl e \<le> - max_daily_loss_fraction c * equity then Some ''MAXIMUM_DAILY_LOSS''
          else if 0 < pe_peak_equity e \<and> max_drawdown_fraction c \<le> 1 - equity / pe_peak_equity e
          then Some ''MAXIMUM_DRAWDOWN''
          else if \<not> (\<forall>q \<in> set (held e). pp_symbol q \<noteq> ep_symbol p \<longrightarrow>
                      pp_symbol q \<in> set (ep_correlation_checked p))
          then Some ''MISSING_CORRELATION_EVIDENCE''
          else None)"

text \<open>The notional the budget leaves for a proposal: the minimum over all rooms.\<close>

definition approved_notional :: "portfolio_engine \<Rightarrow> (rat, int) entry_proposal \<Rightarrow> rat \<Rightarrow> rat" where
  "approved_notional e p equity =
     (let c = pe_config e;
          requested = \<bar>ep_signed_notional p\<bar>;
          net = net_exposure e;
          risk_room = max 0 (max_committed_risk c - committed_risk_fraction e);
          net_room = (if 0 < ep_signed_notional p then max_net c * equity - net
                      else max_net c * equity + net)
      in min_list_from requested
           [max 0 (max_gross c * equity - gross_exposure e),
            max 0 net_room,
            max 0 (max_symbol c * equity - gross_where (\<lambda>q. pp_symbol q = ep_symbol p) e),
            max 0 (max_venue c * equity - gross_where (\<lambda>q. pp_venue q = ep_venue p) e),
            max 0 (max_strategy c * equity - gross_where (\<lambda>q. pp_strategy q = ep_strategy p) e),
            max 0 (max_engine c * equity - gross_where (\<lambda>q. pp_engine q = ep_engine p) e),
            max 0 (max_correlated c * equity -
                   gross_where (\<lambda>q. pp_symbol q \<in> insert (ep_symbol p) (set (ep_correlated p))) e),
            requested * min 1 (risk_room / ep_committed_risk p)])"

definition evaluate_entry :: "portfolio_engine \<Rightarrow> (rat, int) entry_proposal \<Rightarrow> num
    \<Rightarrow> portfolio_engine \<times> portfolio_decision result" where
  "evaluate_entry e p equity_arg =
     (case portfolio_roll_day e (ep_proposed_at p) of
        (e1, False) \<Rightarrow> (e1, rejected e1 ''OUT_OF_ORDER_TIMESTAMP'' (ep_key p))
      | (e1, True) \<Rightarrow>
          (case positive_equity equity_arg of
             Inl x \<Rightarrow> (e1, Inl x)
           | Inr equity \<Rightarrow>
               (let e2 = e1\<lparr>pe_peak_equity := max (pe_peak_equity e1) equity\<rparr> in
                case blocking_reason e2 p equity of
                  Some reason \<Rightarrow> (e2, rejected e2 reason (ep_key p))
                | None \<Rightarrow>
                    (let approved = approved_notional e2 p equity;
                         requested = \<bar>ep_signed_notional p\<bar>;
                         approved_risk = ep_committed_risk p * approved / requested;
                         signed = (if 0 < ep_signed_notional p then 1 else - 1) * approved
                     in if approved < min_order_notional (pe_config e2)
                        then (e2, rejected e2 ''NO_PORTFOLIO_RISK_CAPACITY'' (ep_key p))
                        else (case make_portfolio_decision
                                \<lparr>pd_proposal_key = ep_key p, pd_approved = True,
                                 pd_signed_notional = signed, pd_risk_fraction = approved_risk,
                                 pd_reason = ''APPROVED'',
                                 pd_projected_gross = gross_exposure e2 + approved,
                                 pd_projected_net = net_exposure e2 + signed,
                                 pd_projected_risk = committed_risk_fraction e2 + approved_risk\<rparr> of
                                Inl x \<Rightarrow> (e2, Inl x)
                              | Inr d \<Rightarrow> (e2\<lparr>pe_pending := AList.update (ep_key p) d (pe_pending e2)\<rparr>,
                                          Inr d))))))"

definition record_open :: "portfolio_engine \<Rightarrow> (rat, int) entry_proposal \<Rightarrow> portfolio_decision
    \<Rightarrow> portfolio_engine \<times> unit result" where
  "record_open e p d =
     (let requested = \<bar>ep_signed_notional p\<bar>; approved = \<bar>pd_signed_notional d\<bar> in
      if \<not> pd_approved d then (e, Inl (ValueError ''cannot open a risk-rejected portfolio position''))
      else if pd_proposal_key d \<noteq> ep_key p
      then (e, Inl (ValueError ''risk decision does not belong to this proposal''))
      else if ep_key p \<in> fst ` set (pe_positions e)
      then (e, Inl (ValueError ''portfolio position key is already open''))
      else if map_of (pe_pending e) (ep_key p) \<noteq> Some d
      then (e, Inl (ValueError ''risk decision was not issued by this engine''))
      else if requested < approved \<or> approved < min_order_notional (pe_config e)
      then (e, Inl (ValueError ''risk decision has an invalid approved notional''))
      else if pd_signed_notional d * ep_signed_notional p \<le> 0
      then (e, Inl (ValueError ''risk decision changed the proposal direction''))
      else if \<not> isclose (1 / 10 ^ 12) (1 / 10 ^ 12) (pd_risk_fraction d)
                  (ep_committed_risk p * approved / requested)
      then (e, Inl (ValueError ''risk decision has an invalid approved risk''))
      else (case make_portfolio_position
              \<lparr>pp_key = ep_key p, pp_symbol = ep_symbol p, pp_venue = ep_venue p,
               pp_strategy = ep_strategy p, pp_engine = ep_engine p,
               pp_signed_notional = Fin (pd_signed_notional d),
               pp_committed_risk = Fin (pd_risk_fraction d), pp_opened_at = Aware (ep_proposed_at p)\<rparr> of
              Inl x \<Rightarrow> (e, Inl x)
            | Inr pos \<Rightarrow>
                (e\<lparr>pe_positions := AList.update (ep_key p) pos (pe_positions e),
                   pe_pending := AList.delete (ep_key p) (pe_pending e)\<rparr>, Inr ())))"

definition record_close :: "portfolio_engine \<Rightarrow> string \<Rightarrow> num \<Rightarrow> pydatetime
    \<Rightarrow> portfolio_engine \<times> unit result" where
  "record_close e key realized_pnl closed_at =
     (case utc_of ''position closed timestamp must be timezone-aware'' closed_at of
        Inl x \<Rightarrow> (e, Inl x)
      | Inr now \<Rightarrow>
          (let e1 = fst (portfolio_roll_day e now) in
           if key \<notin> fst ` set (pe_positions e1) then (e1, Inl (KeyError ''unknown portfolio position''))
           else if \<not> isfinite realized_pnl then (e1, Inl (ValueError ''realized PnL must be finite''))
           else (e1\<lparr>pe_positions := AList.delete key (pe_positions e1),
                    pe_daily_pnl := pe_daily_pnl e1 + num_val realized_pnl\<rparr>, Inr ())))"

definition activate_kill_switch :: "portfolio_engine \<Rightarrow> string \<Rightarrow> portfolio_engine \<times> unit result" where
  "activate_kill_switch e reason =
     (if blank reason then (e, Inl (ValueError ''kill switch activation requires a reason''))
      else (e\<lparr>pe_kill_reason := Some reason\<rparr>, Inr ()))"

definition clear_kill_switch :: "portfolio_engine \<Rightarrow> string \<Rightarrow> portfolio_engine \<times> unit result" where
  "clear_kill_switch e operator_reason =
     (if blank operator_reason
      then (e, Inl (ValueError ''kill switch reset requires an operator reason''))
      else (e\<lparr>pe_kill_reason := None\<rparr>, Inr ()))"

definition update_equity :: "portfolio_engine \<Rightarrow> num \<Rightarrow> portfolio_engine \<times> unit result" where
  "update_equity e equity =
     (case positive_equity equity of
        Inl x \<Rightarrow> (e, Inl x)
      | Inr v \<Rightarrow> (e\<lparr>pe_peak_equity := max (pe_peak_equity e) v\<rparr>, Inr ()))"

definition engine_snapshot :: "portfolio_engine \<Rightarrow> rat portfolio_snapshot result" where
  "engine_snapshot e =
     make_portfolio_snapshot
       \<lparr>ps_positions = sorted_positions e, ps_peak_equity = Fin (pe_peak_equity e),
        ps_daily_pnl = Fin (pe_daily_pnl e), ps_current_day = pe_current_day e,
        ps_kill_reason = pe_kill_reason e\<rparr>"

section \<open>The engine invariant\<close>

definition pending_ok :: "string \<times> portfolio_decision \<Rightarrow> bool" where
  "pending_ok kd \<longleftrightarrow> pd_approved (snd kd) \<and> pd_proposal_key (snd kd) = fst kd"

definition portfolio_inv :: "portfolio_engine \<Rightarrow> bool" where
  "portfolio_inv e \<longleftrightarrow>
     portfolio_config_ok (pe_config e) \<and>
     dict_ok (pe_positions e) \<and> (\<forall>(k, p) \<in> set (pe_positions e). pp_key p = k \<and> position_ok p) \<and>
     0 \<le> pe_peak_equity e \<and> (\<forall>r. pe_kill_reason e = Some r \<longrightarrow> \<not> blank r) \<and>
     dict_ok (pe_pending e) \<and> (\<forall>kd \<in> set (pe_pending e). pending_ok kd)"

lemma new_portfolio_engine_inv: "portfolio_config_ok c \<Longrightarrow> portfolio_inv (new_portfolio_engine c)"
  by (simp add: portfolio_inv_def new_portfolio_engine_def)

definition portfolio_charge :: "portfolio_engine \<Rightarrow> rat \<Rightarrow> portfolio_engine" where
  "portfolio_charge e x = e\<lparr>pe_daily_pnl := pe_daily_pnl e + x\<rparr>"

interpretation portfolio_ledger: daily_ledger portfolio_roll_day portfolio_charge pe_current_day pe_daily_pnl
  by unfold_locales (auto simp: portfolio_roll_day_def portfolio_charge_def split: option.split)

text \<open>Rolling the day touches the ledger only.\<close>

lemma portfolio_roll_frame:
  assumes "portfolio_roll_day e t = (e', b)"
  shows "pe_config e' = pe_config e" "pe_positions e' = pe_positions e"
    "pe_peak_equity e' = pe_peak_equity e" "pe_kill_reason e' = pe_kill_reason e"
    "pe_pending e' = pe_pending e"
  using assms by (auto simp: portfolio_roll_day_def split: option.splits if_splits)

lemma portfolio_roll_inv:
  "portfolio_inv e \<Longrightarrow> portfolio_roll_day e t = (e', b) \<Longrightarrow> portfolio_inv e'"
  by (simp add: portfolio_inv_def portfolio_roll_frame)

lemma config_ok_facts:
  assumes "portfolio_config_ok c"
  shows "0 < min_order_notional c" "1 \<le> max_open_positions c"
  using assms by (simp_all add: portfolio_config_ok_def config_limits_def)

section \<open>The budget of an approval\<close>

lemma room_bound: "a \<le> max 0 r \<Longrightarrow> 0 < a \<Longrightarrow> a \<le> (r :: rat)"
  by (simp add: max_def split: if_splits)

text \<open>A positive approved notional fits into every room and scales the risk down to its room.\<close>

lemma approved_notional_rooms:
  assumes "0 < approved_notional e p equity" "0 < ep_committed_risk p" "ep_signed_notional p \<noteq> 0"
  defines "a \<equiv> approved_notional e p equity" and "c \<equiv> pe_config e"
  shows "a \<le> \<bar>ep_signed_notional p\<bar>"
    "gross_exposure e + a \<le> max_gross c * equity"
    "0 < ep_signed_notional p \<Longrightarrow> net_exposure e + a \<le> max_net c * equity"
    "ep_signed_notional p < 0 \<Longrightarrow> - (max_net c * equity) \<le> net_exposure e - a"
    "gross_where (\<lambda>q. pp_symbol q = ep_symbol p) e + a \<le> max_symbol c * equity"
    "gross_where (\<lambda>q. pp_venue q = ep_venue p) e + a \<le> max_venue c * equity"
    "gross_where (\<lambda>q. pp_strategy q = ep_strategy p) e + a \<le> max_strategy c * equity"
    "gross_where (\<lambda>q. pp_engine q = ep_engine p) e + a \<le> max_engine c * equity"
    "gross_where (\<lambda>q. pp_symbol q \<in> insert (ep_symbol p) (set (ep_correlated p))) e + a
       \<le> max_correlated c * equity"
    "committed_risk_fraction e + ep_committed_risk p * a / \<bar>ep_signed_notional p\<bar> \<le> max_committed_risk c"
proof -
  have a: "0 < a" using assms by simp
  note le = min_list_from_le [where m = "\<bar>ep_signed_notional p\<bar>"]
  show "a \<le> \<bar>ep_signed_notional p\<bar>"
    unfolding a_def approved_notional_def Let_def by (rule min_list_from_le_start)
  have "a \<le> max 0 (max_gross c * equity - gross_exposure e)"
    unfolding a_def c_def approved_notional_def Let_def by (rule le) simp
  from room_bound [OF this a] show "gross_exposure e + a \<le> max_gross c * equity" by simp
  have net: "a \<le> max 0 (if 0 < ep_signed_notional p then max_net c * equity - net_exposure e
      else max_net c * equity + net_exposure e)"
    unfolding a_def c_def approved_notional_def Let_def by (rule le) simp
  from room_bound [OF this a] show "0 < ep_signed_notional p \<Longrightarrow> net_exposure e + a \<le> max_net c * equity"
    "ep_signed_notional p < 0 \<Longrightarrow> - (max_net c * equity) \<le> net_exposure e - a"
    by simp_all
  have "a \<le> max 0 (max_symbol c * equity - gross_where (\<lambda>q. pp_symbol q = ep_symbol p) e)"
    unfolding a_def c_def approved_notional_def Let_def by (rule le) simp
  from room_bound [OF this a]
  show "gross_where (\<lambda>q. pp_symbol q = ep_symbol p) e + a \<le> max_symbol c * equity" by simp
  have "a \<le> max 0 (max_venue c * equity - gross_where (\<lambda>q. pp_venue q = ep_venue p) e)"
    unfolding a_def c_def approved_notional_def Let_def by (rule le) simp
  from room_bound [OF this a]
  show "gross_where (\<lambda>q. pp_venue q = ep_venue p) e + a \<le> max_venue c * equity" by simp
  have "a \<le> max 0 (max_strategy c * equity - gross_where (\<lambda>q. pp_strategy q = ep_strategy p) e)"
    unfolding a_def c_def approved_notional_def Let_def by (rule le) simp
  from room_bound [OF this a]
  show "gross_where (\<lambda>q. pp_strategy q = ep_strategy p) e + a \<le> max_strategy c * equity" by simp
  have "a \<le> max 0 (max_engine c * equity - gross_where (\<lambda>q. pp_engine q = ep_engine p) e)"
    unfolding a_def c_def approved_notional_def Let_def by (rule le) simp
  from room_bound [OF this a]
  show "gross_where (\<lambda>q. pp_engine q = ep_engine p) e + a \<le> max_engine c * equity" by simp
  have "a \<le> max 0 (max_correlated c * equity -
      gross_where (\<lambda>q. pp_symbol q \<in> insert (ep_symbol p) (set (ep_correlated p))) e)"
    unfolding a_def c_def approved_notional_def Let_def by (rule le) simp
  from room_bound [OF this a]
  show "gross_where (\<lambda>q. pp_symbol q \<in> insert (ep_symbol p) (set (ep_correlated p))) e + a
      \<le> max_correlated c * equity" by simp
  let ?room = "max 0 (max_committed_risk c - committed_risk_fraction e)"
  let ?n = "\<bar>ep_signed_notional p\<bar>" and ?r = "ep_committed_risk p"
  have n: "0 < ?n" using assms(3) by simp
  have "a \<le> ?n * min 1 (?room / ?r)"
    unfolding a_def c_def approved_notional_def Let_def by (rule le) simp
  also have "\<dots> \<le> ?n * (?room / ?r)"
    by (intro mult_left_mono) simp_all
  finally have "?r * a / ?n \<le> ?room"
    using n assms(2) by (simp add: field_simps)
  moreover have "0 < ?r * a / ?n" using n assms(2) a by simp
  ultimately show "committed_risk_fraction e + ?r * a / ?n \<le> max_committed_risk c"
    using room_bound [of "?r * a / ?n" "max_committed_risk c - committed_risk_fraction e"] by simp
qed

section \<open>The outcomes of an evaluation\<close>

lemma evaluate_entry_cases:
  assumes "portfolio_config_ok (pe_config e)" "proposal_ok p"
    "evaluate_entry e p equity_arg = (e', r)"
  obtains (stale) "portfolio_roll_day e (ep_proposed_at p) = (e', False)" "r = rejected e' ''OUT_OF_ORDER_TIMESTAMP'' (ep_key p)"
  | (bad_equity) x where "portfolio_roll_day e (ep_proposed_at p) = (e', True)" "r = Inl x" "\<not> finite_positive equity_arg"
  | (blocked) e1 equity reason where "portfolio_roll_day e (ep_proposed_at p) = (e1, True)"
      "equity_arg = Fin equity" "0 < equity"
      "e' = e1\<lparr>pe_peak_equity := max (pe_peak_equity e1) equity\<rparr>" "r = rejected e' reason (ep_key p)"
  | (approved) e1 e2 equity a d where "portfolio_roll_day e (ep_proposed_at p) = (e1, True)"
      "equity_arg = Fin equity" "0 < equity"
      "e2 = e1\<lparr>pe_peak_equity := max (pe_peak_equity e1) equity\<rparr>" "blocking_reason e2 p equity = None"
      "a = approved_notional e2 p equity" "min_order_notional (pe_config e2) \<le> a"
      "d = \<lparr>pd_proposal_key = ep_key p, pd_approved = True,
            pd_signed_notional = (if 0 < ep_signed_notional p then 1 else - 1) * a,
            pd_risk_fraction = ep_committed_risk p * a / \<bar>ep_signed_notional p\<bar>,
            pd_reason = ''APPROVED'', pd_projected_gross = gross_exposure e2 + a,
            pd_projected_net = net_exposure e2 + (if 0 < ep_signed_notional p then 1 else - 1) * a,
            pd_projected_risk = committed_risk_fraction e2 + ep_committed_risk p * a / \<bar>ep_signed_notional p\<bar>\<rparr>"
      "e' = e2\<lparr>pe_pending := AList.update (ep_key p) d (pe_pending e2)\<rparr>" "r = Inr d"
proof -
  obtain e1 b where roll: "portfolio_roll_day e (ep_proposed_at p) = (e1, b)" by fastforce
  show thesis
  proof (cases b)
    case False
    with roll assms(3) stale show thesis by (auto simp: evaluate_entry_def)
  next
    case True
    with roll have roll: "portfolio_roll_day e (ep_proposed_at p) = (e1, True)" by simp
    show thesis
    proof (cases "positive_equity equity_arg")
      case (Inl x)
      then have "\<not> finite_positive equity_arg" by (auto simp: positive_equity_def split: if_splits)
      with roll assms(3) bad_equity [of x] Inl show thesis by (auto simp: evaluate_entry_def)
    next
      case (Inr equity)
      then have eq: "equity_arg = Fin equity" "0 < equity"
        by (auto simp: positive_equity_def split: if_splits)
      define e2 where "e2 = e1\<lparr>pe_peak_equity := max (pe_peak_equity e1) equity\<rparr>"
      define a where "a = approved_notional e2 p equity"
      have cfg: "pe_config e2 = pe_config e" using roll by (simp add: e2_def portfolio_roll_frame)
      show thesis
      proof (cases "blocking_reason e2 p equity = None \<and> min_order_notional (pe_config e2) \<le> a")
        case False
        with roll Inr eq assms(3) blocked [OF roll eq]
        show thesis by (auto simp: evaluate_entry_def Let_def e2_def a_def split: option.splits if_splits)
      next
        case True
        define d where "d = \<lparr>pd_proposal_key = ep_key p, pd_approved = True,
            pd_signed_notional = (if 0 < ep_signed_notional p then 1 else - 1) * a,
            pd_risk_fraction = ep_committed_risk p * a / \<bar>ep_signed_notional p\<bar>,
            pd_reason = ''APPROVED'', pd_projected_gross = gross_exposure e2 + a,
            pd_projected_net = net_exposure e2 + (if 0 < ep_signed_notional p then 1 else - 1) * a,
            pd_projected_risk = committed_risk_fraction e2 + ep_committed_risk p * a / \<bar>ep_signed_notional p\<bar>\<rparr>"
        have a: "0 < a" using True config_ok_facts(1) assms(1) cfg by fastforce
        then have "\<not> ep_committed_risk p * a \<le> 0"
          using assms(2) by (simp add: proposal_ok_def not_le)
        moreover have "\<not> blank ''APPROVED''" by code_simp
        ultimately have "make_portfolio_decision d = Inr d"
          using a assms(2) by (simp add: make_portfolio_decision_def d_def proposal_ok_def)
        with True roll Inr assms(3) have "e' = e2\<lparr>pe_pending := AList.update (ep_key p) d (pe_pending e2)\<rparr>"
            "r = Inr d"
          unfolding d_def by (auto simp: evaluate_entry_def Let_def e2_def a_def)
        with True show thesis using approved [OF roll eq e2_def _ a_def _ d_def] by simp
      qed
    qed
  qed
qed

lemma rejected_not_approved: "rejected e reason key = Inr d \<Longrightarrow> \<not> pd_approved d"
  by (auto simp: rejected_def make_portfolio_decision_def split: if_splits)

section \<open>Opening an approved position\<close>

text \<open>
  The facts an approval leaves behind for \<open>record_open\<close>; later evaluations and the kill
  switch keep them, because nothing but \<open>record_open\<close> removes a pending decision.
\<close>

definition openable :: "portfolio_engine \<Rightarrow> (rat, int) entry_proposal \<Rightarrow> portfolio_decision \<Rightarrow> bool" where
  "openable e p d \<longleftrightarrow>
     pd_approved d \<and> pd_proposal_key d = ep_key p \<and> ep_key p \<notin> fst ` set (pe_positions e) \<and>
     map_of (pe_pending e) (ep_key p) = Some d \<and>
     (\<exists>a. pd_signed_notional d = (if 0 < ep_signed_notional p then 1 else - 1) * a \<and> 0 < a \<and>
          a \<le> \<bar>ep_signed_notional p\<bar> \<and> min_order_notional (pe_config e) \<le> a \<and>
          pd_risk_fraction d = ep_committed_risk p * a / \<bar>ep_signed_notional p\<bar>)"

definition opened_position :: "(rat, int) entry_proposal \<Rightarrow> portfolio_decision \<Rightarrow> (rat, int) portfolio_position" where
  "opened_position p d =
     \<lparr>pp_key = ep_key p, pp_symbol = ep_symbol p, pp_venue = ep_venue p, pp_strategy = ep_strategy p,
      pp_engine = ep_engine p, pp_signed_notional = pd_signed_notional d,
      pp_committed_risk = pd_risk_fraction d, pp_opened_at = ep_proposed_at p\<rparr>"

lemma scaled_fraction:
  assumes "0 < (r :: rat)" "r \<le> 1" "0 < a" "a \<le> n"
  shows "0 < r * a / n \<and> r * a / n \<le> 1"
proof -
  have "r * a \<le> 1 * n" using assms by (intro mult_mono) auto
  moreover have "0 < n" using assms by simp
  ultimately show ?thesis using assms by simp
qed

lemma record_open_openable:
  assumes "openable e p d" "proposal_ok p"
  shows "record_open e p d =
    (e\<lparr>pe_positions := pe_positions e @ [(ep_key p, opened_position p d)],
       pe_pending := AList.delete (ep_key p) (pe_pending e)\<rparr>, Inr ())"
proof -
  from assms(1) obtain a where a: "pd_signed_notional d = (if 0 < ep_signed_notional p then 1 else - 1) * a"
      "0 < a" "a \<le> \<bar>ep_signed_notional p\<bar>" "min_order_notional (pe_config e) \<le> a"
      "pd_risk_fraction d = ep_committed_risk p * a / \<bar>ep_signed_notional p\<bar>"
    by (auto simp: openable_def)
  have n: "ep_signed_notional p \<noteq> 0" and risk: "0 < pd_risk_fraction d" "pd_risk_fraction d \<le> 1"
    using assms(2) scaled_fraction [of "ep_committed_risk p" a "\<bar>ep_signed_notional p\<bar>"] a
    by (simp_all add: proposal_ok_def)
  have abs: "\<bar>pd_signed_notional d\<bar> = a" and nz: "pd_signed_notional d \<noteq> 0" using a by auto
  have "0 < pd_signed_notional d * ep_signed_notional p"
    using a n by (auto simp: zero_less_mult_iff mult_neg_neg)
  moreover have "make_portfolio_position
      \<lparr>pp_key = ep_key p, pp_symbol = ep_symbol p, pp_venue = ep_venue p, pp_strategy = ep_strategy p,
       pp_engine = ep_engine p, pp_signed_notional = Fin (pd_signed_notional d),
       pp_committed_risk = Fin (pd_risk_fraction d), pp_opened_at = Aware (ep_proposed_at p)\<rparr>
      = Inr (opened_position p d)"
    using assms(2) nz risk by (simp add: make_portfolio_position_def proposal_ok_def opened_position_def)
  ultimately show ?thesis
    using assms(1) abs a(3-5)
    by (simp add: record_open_def openable_def update_new Let_def not_le not_less)
qed

lemma evaluate_openable:
  assumes "portfolio_config_ok (pe_config e)" "proposal_ok p"
    "evaluate_entry e p equity_arg = (e', Inr d)" "pd_approved d"
  shows "openable e' p d"
  using assms(1-3)
proof (cases rule: evaluate_entry_cases)
  case (approved e1 e2 equity a d')
  have "ep_key p \<notin> fst ` set (pe_positions e2)"
    using approved(5) by (auto simp: blocking_reason_def Let_def split: option.splits if_splits)
  moreover have "0 < min_order_notional (pe_config e2)"
    using approved(1,4) assms(1) config_ok_facts(1) by (simp add: portfolio_roll_frame)
  moreover have "a \<le> \<bar>ep_signed_notional p\<bar>"
    unfolding approved(6) approved_notional_def Let_def by (rule min_list_from_le_start)
  moreover have "map_of (pe_pending e') (ep_key p) = Some d'" "pe_positions e' = pe_positions e2"
      "pe_config e' = pe_config e2" "d = d'"
    using approved(9,10) by (simp_all add: update_conv')
  moreover note approved(7)
  ultimately show ?thesis
    by (auto simp: openable_def approved(8))
qed (use assms(4) rejected_not_approved in auto)

text \<open>An evaluation of another key and the kill switch keep a decision openable.\<close>

lemma evaluate_frame:
  assumes "portfolio_config_ok (pe_config e)" "proposal_ok q" "evaluate_entry e q equity_arg = (e', r)"
  shows "pe_positions e' = pe_positions e \<and> pe_config e' = pe_config e \<and>
    pe_kill_reason e' = pe_kill_reason e \<and>
    (\<forall>k. k \<noteq> ep_key q \<longrightarrow> map_of (pe_pending e') k = map_of (pe_pending e) k)"
  using assms
proof (cases rule: evaluate_entry_cases)
  case (approved e1 e2 equity a d)
  then show ?thesis by (simp add: portfolio_roll_frame update_conv')
qed (auto simp: portfolio_roll_frame)

lemma openable_after_evaluate:
  "openable e p d \<Longrightarrow> portfolio_config_ok (pe_config e) \<Longrightarrow> proposal_ok q \<Longrightarrow> ep_key q \<noteq> ep_key p \<Longrightarrow>
   evaluate_entry e q equity_arg = (e', r) \<Longrightarrow> openable e' p d"
  by (drule evaluate_frame, assumption, assumption) (simp add: openable_def)

lemma openable_kill_switch:
  "openable e p d \<Longrightarrow> openable (fst (activate_kill_switch e reason)) p d"
  by (simp add: openable_def activate_kill_switch_def)

lemma openable_after_open:
  "openable e q d \<Longrightarrow> ep_key q \<noteq> ep_key p \<Longrightarrow>
   openable (e\<lparr>pe_positions := pe_positions e @ [(ep_key p, pos)],
               pe_pending := AList.delete (ep_key p) (pe_pending e)\<rparr>) q d"
  by (auto simp: openable_def delete_conv')

section \<open>Sequences of operations\<close>

datatype portfolio_op =
    EvaluateEntry "(rat, int) entry_proposal" num
  | RecordOpen "(rat, int) entry_proposal" portfolio_decision
  | RecordClose string num pydatetime
  | ActivateKillSwitch string
  | ClearKillSwitch string
  | UpdateEquity num

fun portfolio_step :: "portfolio_engine \<Rightarrow> portfolio_op \<Rightarrow> portfolio_engine" where
  "portfolio_step e (EvaluateEntry p equity) = fst (evaluate_entry e p equity)"
| "portfolio_step e (RecordOpen p d) = fst (record_open e p d)"
| "portfolio_step e (RecordClose k x t) = fst (record_close e k x t)"
| "portfolio_step e (ActivateKillSwitch r) = fst (activate_kill_switch e r)"
| "portfolio_step e (ClearKillSwitch r) = fst (clear_kill_switch e r)"
| "portfolio_step e (UpdateEquity v) = fst (update_equity e v)"

fun op_ok :: "portfolio_op \<Rightarrow> bool" where
  "op_ok (EvaluateEntry p _) = proposal_ok p"
| "op_ok (RecordOpen p _) = proposal_ok p"
| "op_ok _ = True"

lemma evaluate_entry_inv:
  assumes "portfolio_inv e" "proposal_ok p" "evaluate_entry e p v = (e', r)"
  shows "portfolio_inv e'"
proof -
  have cfg: "portfolio_config_ok (pe_config e)" using assms(1) by (simp add: portfolio_inv_def)
  from cfg assms(2,3) show ?thesis
  proof (cases rule: evaluate_entry_cases)
    case stale
    then show ?thesis using portfolio_roll_inv [OF assms(1)] by blast
  next
    case bad_equity
    then show ?thesis using portfolio_roll_inv [OF assms(1)] by blast
  next
    case (blocked e1 equity reason)
    from portfolio_roll_inv [OF assms(1) blocked(1)] blocked show ?thesis
      by (simp add: portfolio_inv_def)
  next
    case (approved e1 e2 equity a d)
    have "portfolio_inv e2"
      using portfolio_roll_inv [OF assms(1) approved(1)] approved(3,4)
      by (simp add: portfolio_inv_def le_max_iff_disj)
    moreover have "pending_ok (ep_key p, d)" by (simp add: pending_ok_def approved(8))
    ultimately show ?thesis
      using set_update_subset [of "ep_key p" d "pe_pending e2"] approved(9)
      by (auto simp: portfolio_inv_def distinct_update)
  qed
qed

lemma record_open_inv:
  assumes "portfolio_inv e" "record_open e p d = (e', r)"
  shows "portfolio_inv e'"
proof (cases r)
  case (Inl x)
  with assms show ?thesis
    by (auto simp: record_open_def Let_def split: if_splits sum.splits)
next
  case (Inr u)
  with assms(2) obtain pos where pos: "make_portfolio_position
      \<lparr>pp_key = ep_key p, pp_symbol = ep_symbol p, pp_venue = ep_venue p, pp_strategy = ep_strategy p,
       pp_engine = ep_engine p, pp_signed_notional = Fin (pd_signed_notional d),
       pp_committed_risk = Fin (pd_risk_fraction d), pp_opened_at = Aware (ep_proposed_at p)\<rparr> = Inr pos"
    and e': "e' = e\<lparr>pe_positions := AList.update (ep_key p) pos (pe_positions e),
                    pe_pending := AList.delete (ep_key p) (pe_pending e)\<rparr>"
    by (auto simp: record_open_def Let_def split: if_splits sum.splits)
  from pos have key: "pp_key pos = ep_key p"
    by (auto simp: make_portfolio_position_def bindE_eq_Inr split: if_splits)
  have "\<forall>(k, q) \<in> set (AList.update (ep_key p) pos (pe_positions e)). pp_key q = k \<and> position_ok q"
    using assms(1) set_update_subset [of "ep_key p" pos "pe_positions e"]
      make_portfolio_position_ok [OF pos] key
    by (auto simp: portfolio_inv_def)
  with assms(1) e' show ?thesis
    by (auto simp: portfolio_inv_def set_delete intro: distinct_update distinct_delete)
qed

lemma record_close_inv:
  assumes "portfolio_inv e" "record_close e k x t = (e', r)"
  shows "portfolio_inv e'"
proof (cases t)
  case (Aware now)
  obtain e1 b where roll: "portfolio_roll_day e now = (e1, b)" by fastforce
  from portfolio_roll_inv [OF assms(1) roll] have "portfolio_inv e1" .
  with assms(2) Aware roll show ?thesis
    by (auto simp: record_close_def Let_def portfolio_inv_def set_delete distinct_delete split: if_splits)
qed (use assms in \<open>auto simp: record_close_def\<close>)

lemma portfolio_step_inv:
  assumes "portfolio_inv e" "op_ok x"
  shows "portfolio_inv (portfolio_step e x)"
proof (cases x)
  case (EvaluateEntry p v)
  with assms show ?thesis
    using evaluate_entry_inv [of e p v] by (cases "evaluate_entry e p v") auto
next
  case (RecordOpen p d)
  with assms show ?thesis
    using record_open_inv [of e p d] by (cases "record_open e p d") auto
next
  case (RecordClose k v t)
  with assms show ?thesis
    using record_close_inv [of e k v t] by (cases "record_close e k v t") auto
qed (use assms(1) in \<open>auto simp: portfolio_inv_def activate_kill_switch_def clear_kill_switch_def
    update_equity_def positive_equity_def\<close>)

lemma portfolio_steps_inv:
  "portfolio_inv e \<Longrightarrow> list_all op_ok ops \<Longrightarrow> portfolio_inv (foldl portfolio_step e ops)"
  by (induction ops arbitrary: e) (auto simp: portfolio_step_inv)

lemma portfolio_step_kill:
  assumes "portfolio_inv e" "op_ok x" "pe_kill_reason e \<noteq> None" "\<And>r. x \<noteq> ClearKillSwitch r"
  shows "pe_kill_reason (portfolio_step e x) \<noteq> None"
proof (cases x)
  case (EvaluateEntry p v)
  have "portfolio_config_ok (pe_config e)" using assms(1) by (simp add: portfolio_inv_def)
  from evaluate_frame [OF this] EvaluateEntry assms(2,3) show ?thesis
    by (cases "evaluate_entry e p v") simp
next
  case (RecordOpen p d)
  with assms(3) show ?thesis by (auto simp: record_open_def Let_def split: sum.splits)
next
  case (RecordClose k v t)
  with assms(3) show ?thesis
    by (cases t) (auto simp: record_close_def Let_def portfolio_roll_day_def split: option.splits)
qed (use assms in \<open>auto simp: activate_kill_switch_def update_equity_def split: sum.splits\<close>)

lemma portfolio_steps_kill:
  "portfolio_inv e \<Longrightarrow> list_all op_ok ops \<Longrightarrow> pe_kill_reason e \<noteq> None \<Longrightarrow>
   (\<And>r. ClearKillSwitch r \<notin> set ops) \<Longrightarrow> pe_kill_reason (foldl portfolio_step e ops) \<noteq> None"
proof (induction ops arbitrary: e)
  case (Cons x ops)
  have "pe_kill_reason (portfolio_step e x) \<noteq> None"
    by (rule portfolio_step_kill) (use Cons.prems in auto)
  with Cons show ?case by (simp add: portfolio_step_inv)
qed simp

section \<open>The books of a run\<close>

text \<open>
  What a run of operations has shown to its caller: the day of a time stamp, an equity that was taken in,
  an approval that was returned, a position opened or closed without an exception, the kill switch set
  or cleared without one.
\<close>

datatype portfolio_event =
    OnDay int
  | Saw rat
  | Issued portfolio_decision
  | Opened "(rat, int) entry_proposal" portfolio_decision
  | Closed string rat
  | Killed string
  | Cleared string

fun events :: "portfolio_engine \<Rightarrow> portfolio_op \<Rightarrow> portfolio_event list" where
  "events e (EvaluateEntry p v) =
     OnDay (utc_date (ep_proposed_at p)) #
     (if finite_positive v \<and> (\<forall>d. pe_current_day e = Some d \<longrightarrow> d \<le> utc_date (ep_proposed_at p)) then [Saw (num_val v)] else []) @
     (case snd (evaluate_entry e p v) of Inl _ \<Rightarrow> [] | Inr d \<Rightarrow> if pd_approved d then [Issued d] else [])"
| "events e (RecordOpen p d) = (if snd (record_open e p d) = Inr () then [Opened p d] else [])"
| "events e (RecordClose k x t) =
     (case t of
        Naive _ \<Rightarrow> []
      | Aware u \<Rightarrow> OnDay (utc_date u) # (if snd (record_close e k x t) = Inr () then [Closed k (num_val x)] else []))"
| "events e (ActivateKillSwitch r) = (if snd (activate_kill_switch e r) = Inr () then [Killed r] else [])"
| "events e (ClearKillSwitch r) = (if snd (clear_kill_switch e r) = Inr () then [Cleared r] else [])"
| "events e (UpdateEquity v) = (if snd (update_equity e v) = Inr () then [Saw (num_val v)] else [])"

fun events_of :: "portfolio_engine \<Rightarrow> portfolio_op list \<Rightarrow> portfolio_event list" where
  "events_of e [] = []"
| "events_of e (x # xs) = events e x @ events_of (portfolio_step e x) xs"

text \<open>The books that follow from them, kept without the engine.\<close>

record portfolio_books =
  bk_day :: "int option"
  bk_pnl :: rat
  bk_peak :: rat
  bk_kill :: "string option"
  bk_open :: "string \<rightharpoonup> (rat, int) portfolio_position"
  bk_issued :: "string \<rightharpoonup> portfolio_decision"

fun book :: "portfolio_event \<Rightarrow> portfolio_books \<Rightarrow> portfolio_books" where
  "book (OnDay d) b = (if \<exists>d'. bk_day b = Some d' \<and> d \<le> d' then b else b\<lparr>bk_day := Some d, bk_pnl := 0\<rparr>)"
| "book (Saw v) b = b\<lparr>bk_peak := max (bk_peak b) v\<rparr>"
| "book (Issued d) b = b\<lparr>bk_issued := (bk_issued b)(pd_proposal_key d \<mapsto> d)\<rparr>"
| "book (Opened p d) b =
     b\<lparr>bk_open := (bk_open b)(ep_key p \<mapsto>
           \<lparr>pp_key = ep_key p, pp_symbol = ep_symbol p, pp_venue = ep_venue p, pp_strategy = ep_strategy p,
            pp_engine = ep_engine p, pp_signed_notional = pd_signed_notional d,
            pp_committed_risk = pd_risk_fraction d, pp_opened_at = ep_proposed_at p\<rparr>),
       bk_issued := (bk_issued b)(ep_key p := None)\<rparr>"
| "book (Closed k x) b = b\<lparr>bk_open := (bk_open b)(k := None), bk_pnl := bk_pnl b + x\<rparr>"
| "book (Killed r) b = b\<lparr>bk_kill := Some r\<rparr>"
| "book (Cleared r) b = b\<lparr>bk_kill := None\<rparr>"

text \<open>
  What has to be true of an event: an approval is given only without a kill switch and for a key that is
  not open; a position is opened only on the approval last issued for its key and not yet used, with its
  side, no more than its size, and the risk scaled alike; only open positions are closed; the kill
  switch is set and cleared with a reason.
\<close>

fun lawful :: "rat portfolio_config \<Rightarrow> portfolio_books \<Rightarrow> portfolio_event \<Rightarrow> bool" where
  "lawful c b (Saw v) \<longleftrightarrow> 0 < v"
| "lawful c b (Issued d) \<longleftrightarrow> pd_approved d \<and> bk_kill b = None \<and> bk_open b (pd_proposal_key d) = None"
| "lawful c b (Opened p d) \<longleftrightarrow>
     bk_issued b (ep_key p) = Some d \<and> pd_approved d \<and> pd_proposal_key d = ep_key p \<and> bk_open b (ep_key p) = None \<and>
     min_order_notional c \<le> \<bar>pd_signed_notional d\<bar> \<and> \<bar>pd_signed_notional d\<bar> \<le> \<bar>ep_signed_notional p\<bar> \<and>
     0 < pd_signed_notional d * ep_signed_notional p \<and>
     isclose (1 / 10 ^ 12) (1 / 10 ^ 12) (pd_risk_fraction d)
       (ep_committed_risk p * \<bar>pd_signed_notional d\<bar> / \<bar>ep_signed_notional p\<bar>)"
| "lawful c b (Closed k x) \<longleftrightarrow> bk_open b k \<noteq> None"
| "lawful c b (Killed r) \<longleftrightarrow> \<not> blank r"
| "lawful c b (Cleared r) \<longleftrightarrow> \<not> blank r"
| "lawful c b (OnDay d) \<longleftrightarrow> True"

fun all_lawful :: "rat portfolio_config \<Rightarrow> portfolio_books \<Rightarrow> portfolio_event list \<Rightarrow> bool" where
  "all_lawful c b [] \<longleftrightarrow> True"
| "all_lawful c b (ev # evs) \<longleftrightarrow> lawful c b ev \<and> all_lawful c (book ev b) evs"

definition books_of :: "portfolio_engine \<Rightarrow> portfolio_books" where
  "books_of e =
     \<lparr>bk_day = pe_current_day e, bk_pnl = pe_daily_pnl e, bk_peak = pe_peak_equity e, bk_kill = pe_kill_reason e,
      bk_open = map_of (pe_positions e), bk_issued = map_of (pe_pending e)\<rparr>"

lemma all_lawful_append:
  "all_lawful c b (xs @ ys) \<longleftrightarrow> all_lawful c b xs \<and> all_lawful c (fold book xs b) ys"
  by (induction xs arbitrary: b) simp_all

lemma books_of_roll: "books_of (fst (portfolio_roll_day e t)) = book (OnDay (utc_date t)) (books_of e)"
  by (auto simp: portfolio_roll_day_def books_of_def split: option.split)

lemma books_of_simps [simp]:
  "bk_kill (books_of e) = pe_kill_reason e" "bk_open (books_of e) = map_of (pe_positions e)"
  "bk_issued (books_of e) = map_of (pe_pending e)" "bk_day (books_of e) = pe_current_day e"
  by (simp_all add: books_of_def)

lemma roll_in_order:
  "snd (portfolio_roll_day e t) \<longleftrightarrow> (\<forall>d. pe_current_day e = Some d \<longrightarrow> d \<le> utc_date t)"
  by (rule portfolio_ledger.roll_answer)

lemma evaluate_books:
  assumes "portfolio_config_ok (pe_config e)" "proposal_ok p" "evaluate_entry e p v = (e', r)"
  shows "books_of e' = fold book (events e (EvaluateEntry p v)) (books_of e) \<and>
    all_lawful (pe_config e) (books_of e) (events e (EvaluateEntry p v))"
  using assms
proof (cases rule: evaluate_entry_cases)
  case stale
  then have "\<not> (\<forall>d. pe_current_day e = Some d \<longrightarrow> d \<le> utc_date (ep_proposed_at p))"
    using roll_in_order [of e "ep_proposed_at p"] by simp
  moreover have "case r of Inl _ \<Rightarrow> True | Inr d \<Rightarrow> \<not> pd_approved d"
    using stale(2) rejected_not_approved by (auto split: sum.split)
  ultimately have "events e (EvaluateEntry p v) = [OnDay (utc_date (ep_proposed_at p))]"
    using assms(3) by (auto split: sum.split)
  then show ?thesis using books_of_roll [of e "ep_proposed_at p"] stale(1) by simp
next
  case (bad_equity x)
  then have "events e (EvaluateEntry p v) = [OnDay (utc_date (ep_proposed_at p))]"
    using assms(3) by simp
  then show ?thesis using books_of_roll [of e "ep_proposed_at p"] bad_equity(1) by simp
next
  case (blocked e1 equity reason)
  have "case r of Inl _ \<Rightarrow> True | Inr d \<Rightarrow> \<not> pd_approved d"
    using blocked(5) rejected_not_approved by (auto split: sum.split)
  then have ev: "events e (EvaluateEntry p v) = [OnDay (utc_date (ep_proposed_at p)), Saw equity]"
    using assms(3) blocked(1-3) roll_in_order [of e "ep_proposed_at p"] by (auto split: sum.split)
  have "books_of e' = (books_of e1)\<lparr>bk_peak := max (bk_peak (books_of e1)) equity\<rparr>"
    by (simp add: blocked(4) books_of_def)
  then show ?thesis using books_of_roll [of e "ep_proposed_at p"] blocked(1,3) unfolding ev by simp
next
  case (approved e1 e2 equity a d)
  have ev: "events e (EvaluateEntry p v) = [OnDay (utc_date (ep_proposed_at p)), Saw equity, Issued d]"
    using assms(3) approved(1-3,8,10) roll_in_order [of e "ep_proposed_at p"] by auto
  have d: "pd_proposal_key d = ep_key p" "pd_approved d" by (simp_all add: approved(8))
  have free: "pe_kill_reason e2 = None" "ep_key p \<notin> fst ` set (pe_positions e2)"
    using approved(5) by (auto simp: blocking_reason_def Let_def split: option.splits if_splits)
  have b1: "books_of e1 = book (OnDay (utc_date (ep_proposed_at p))) (books_of e)"
    using books_of_roll [of e "ep_proposed_at p"] approved(1) by simp
  have b2: "books_of e2 = book (Saw equity) (books_of e1)" by (simp add: approved(4) books_of_def)
  have b3: "books_of e' = book (Issued d) (books_of e2)"
    by (simp add: approved(9) books_of_def d(1) update_conv' fun_eq_iff)
  have "lawful (pe_config e) (books_of e2) (Issued d)"
    using free d by (simp add: map_of_eq_None_iff)
  then show ?thesis unfolding ev using approved(3) by (simp add: b1 [symmetric] b2 [symmetric] b3 [symmetric] del: book.simps)
qed

lemma open_books:
  assumes "record_open e p d = (e', r)"
  shows "books_of e' = fold book (events e (RecordOpen p d)) (books_of e) \<and>
    all_lawful (pe_config e) (books_of e) (events e (RecordOpen p d))"
proof (cases r)
  case (Inl x)
  with assms have "e' = e" by (auto simp: record_open_def Let_def split: if_splits sum.splits)
  with assms Inl show ?thesis by simp
next
  case (Inr u)
  with assms obtain pos where pos: "make_portfolio_position
      \<lparr>pp_key = ep_key p, pp_symbol = ep_symbol p, pp_venue = ep_venue p, pp_strategy = ep_strategy p,
       pp_engine = ep_engine p, pp_signed_notional = Fin (pd_signed_notional d),
       pp_committed_risk = Fin (pd_risk_fraction d), pp_opened_at = Aware (ep_proposed_at p)\<rparr> = Inr pos"
    and e': "e' = e\<lparr>pe_positions := AList.update (ep_key p) pos (pe_positions e),
                    pe_pending := AList.delete (ep_key p) (pe_pending e)\<rparr>"
    and g: "pd_approved d" "pd_proposal_key d = ep_key p" "ep_key p \<notin> fst ` set (pe_positions e)"
      "map_of (pe_pending e) (ep_key p) = Some d" "\<bar>pd_signed_notional d\<bar> \<le> \<bar>ep_signed_notional p\<bar>"
      "min_order_notional (pe_config e) \<le> \<bar>pd_signed_notional d\<bar>" "0 < pd_signed_notional d * ep_signed_notional p"
      "isclose (1 / 10 ^ 12) (1 / 10 ^ 12) (pd_risk_fraction d)
         (ep_committed_risk p * \<bar>pd_signed_notional d\<bar> / \<bar>ep_signed_notional p\<bar>)"
    by (auto simp: record_open_def Let_def not_less not_le split: if_splits sum.splits)
  have pos': "pos = opened_position p d"
    using pos by (auto simp: make_portfolio_position_def bindE_eq_Inr utc_of_def opened_position_def split: if_splits)
  have ev: "events e (RecordOpen p d) = [Opened p d]" using assms Inr by simp
  have "books_of e' = book (Opened p d) (books_of e)"
    by (simp add: e' books_of_def pos' opened_position_def update_conv' delete_conv' fun_eq_iff)
  moreover have "lawful (pe_config e) (books_of e) (Opened p d)" using g by (simp add: map_of_eq_None_iff)
  ultimately show ?thesis by (simp only: ev fold.simps comp_apply id_apply all_lawful.simps simp_thms)
qed

lemma close_books:
  assumes "record_close e k x t = (e', r)"
  shows "books_of e' = fold book (events e (RecordClose k x t)) (books_of e) \<and>
    all_lawful (pe_config e) (books_of e) (events e (RecordClose k x t))"
proof (cases t)
  case (Naive u)
  with assms show ?thesis by (auto simp: record_close_def utc_of_def)
next
  case (Aware u)
  obtain e1 b where roll: "portfolio_roll_day e u = (e1, b)" by fastforce
  have b1: "books_of e1 = book (OnDay (utc_date u)) (books_of e)" using books_of_roll [of e u] roll by simp
  show ?thesis
  proof (cases r)
    case (Inl y)
    with assms Aware roll have "e' = e1" by (auto simp: record_close_def utc_of_def Let_def split: if_splits)
    with assms Aware Inl b1 show ?thesis by simp
  next
    case (Inr y)
    with assms Aware roll have e': "e' = e1\<lparr>pe_positions := AList.delete k (pe_positions e1),
        pe_daily_pnl := pe_daily_pnl e1 + num_val x\<rparr>" and k: "k \<in> fst ` set (pe_positions e1)"
      by (auto simp: record_close_def utc_of_def Let_def split: if_splits)
    have ev: "events e (RecordClose k x t) = [OnDay (utc_date u), Closed k (num_val x)]"
      using assms Aware Inr by simp
    have "books_of e' = book (Closed k (num_val x)) (books_of e1)"
      by (simp add: e' books_of_def delete_conv' fun_eq_iff)
    moreover have "lawful (pe_config e) (books_of e1) (Closed k (num_val x))"
      using k by (simp add: map_of_eq_None_iff)
    ultimately show ?thesis
      by (simp only: ev fold.simps comp_apply id_apply all_lawful.simps lawful.simps b1 simp_thms)
  qed
qed

lemma step_books:
  assumes "portfolio_inv e" "op_ok x"
  shows "books_of (portfolio_step e x) = fold book (events e x) (books_of e) \<and>
    all_lawful (pe_config e) (books_of e) (events e x) \<and> pe_config (portfolio_step e x) = pe_config e"
proof (cases x)
  case (EvaluateEntry p v)
  obtain e' r where r: "evaluate_entry e p v = (e', r)" by fastforce
  have cfg: "portfolio_config_ok (pe_config e)" using assms(1) by (simp add: portfolio_inv_def)
  have ok: "proposal_ok p" using assms(2) EvaluateEntry by simp
  show ?thesis using evaluate_books [OF cfg ok r] evaluate_frame [OF cfg ok r] r
    by (simp add: EvaluateEntry del: events.simps)
next
  case (RecordOpen p d)
  obtain e' r where r: "record_open e p d = (e', r)" by fastforce
  have "pe_config e' = pe_config e"
    using r by (auto simp: record_open_def Let_def split: if_splits sum.splits)
  then show ?thesis using open_books [OF r] r by (simp add: RecordOpen del: events.simps)
next
  case (RecordClose k v t)
  obtain e' r where r: "record_close e k v t = (e', r)" by fastforce
  have "pe_config e' = pe_config e"
    using r by (cases t) (auto simp: record_close_def utc_of_def Let_def portfolio_roll_day_def split: if_splits option.splits)
  then show ?thesis using close_books [OF r] r by (simp add: RecordClose del: events.simps)
qed (auto simp: activate_kill_switch_def clear_kill_switch_def update_equity_def positive_equity_def books_of_def)

text \<open>
  C17. Every run keeps the books. Whatever operations are called in whatever order, failing ones
  included, the engine holds exactly what the calls have shown: the positions opened and not closed, the
  approvals issued and not used, the sum of the PnL realized since the ledger's day began, the highest
  equity taken in, and the last reason of the kill switch unless it was cleared. And every call that
  succeeds was lawful: no approval under the kill switch or for an open key, no opening but of an issued,
  unused approval of the same key and side within the size proposed, no closing but of an open position,
  and no change of the kill switch without a reason.
\<close>

theorem portfolio_run_accounts:
  "portfolio_inv e \<Longrightarrow> list_all op_ok ops \<Longrightarrow>
   portfolio_inv (foldl portfolio_step e ops) \<and>
   books_of (foldl portfolio_step e ops) = fold book (events_of e ops) (books_of e) \<and>
   all_lawful (pe_config e) (books_of e) (events_of e ops)"
proof (induction ops arbitrary: e)
  case (Cons x ops)
  have "portfolio_inv (portfolio_step e x)" using Cons.prems by (simp add: portfolio_step_inv)
  from Cons.IH [OF this] Cons.prems(2) step_books [OF Cons.prems(1), of x] show ?case
    by (simp add: all_lawful_append del: events.simps)
qed simp

section \<open>Properties of the budget\<close>

text \<open>The limits of the configuration, at an equity, for the buckets a proposal belongs to.\<close>

definition within_limits :: "portfolio_engine \<Rightarrow> (rat, int) entry_proposal \<Rightarrow> rat \<Rightarrow> bool" where
  "within_limits e p equity \<longleftrightarrow>
     (let c = pe_config e in
      gross_exposure e \<le> max_gross c * equity \<and>
      (if 0 < ep_signed_notional p then net_exposure e \<le> max_net c * equity
       else - (max_net c * equity) \<le> net_exposure e) \<and>
      gross_where (\<lambda>q. pp_symbol q = ep_symbol p) e \<le> max_symbol c * equity \<and>
      gross_where (\<lambda>q. pp_venue q = ep_venue p) e \<le> max_venue c * equity \<and>
      gross_where (\<lambda>q. pp_strategy q = ep_strategy p) e \<le> max_strategy c * equity \<and>
      gross_where (\<lambda>q. pp_engine q = ep_engine p) e \<le> max_engine c * equity \<and>
      gross_where (\<lambda>q. pp_symbol q \<in> insert (ep_symbol p) (set (ep_correlated p))) e
        \<le> max_correlated c * equity \<and>
      committed_risk_fraction e \<le> max_committed_risk c \<and>
      int (length (pe_positions e)) \<le> max_open_positions c)"

lemma exposures_after_open:
  assumes "pe_positions e' = pe_positions e @ [(k, pos)]"
  shows "gross_exposure e' = gross_exposure e + \<bar>pp_signed_notional pos\<bar>"
    "net_exposure e' = net_exposure e + pp_signed_notional pos"
    "committed_risk_fraction e' = committed_risk_fraction e + pp_committed_risk pos"
    "P pos \<Longrightarrow> gross_where P e' = gross_where P e + \<bar>pp_signed_notional pos\<bar>"
  using assms
  by (simp_all add: gross_exposure_def net_exposure_def committed_risk_fraction_def gross_where_def held_def)

lemma opened_within_limits:
  assumes "portfolio_inv e" "proposal_ok p" "evaluate_entry e p (Fin equity) = (e1, Inr d)" "pd_approved d"
  shows "\<exists>e2. record_open e1 p d = (e2, Inr ()) \<and> within_limits e2 p equity"
proof -
  have cfg: "portfolio_config_ok (pe_config e)" using assms(1) by (simp add: portfolio_inv_def)
  from record_open_openable [OF evaluate_openable [OF cfg assms(2-4)] assms(2)] obtain e2 where
    e2: "record_open e1 p d = (e2, Inr ())" "pe_positions e2 = pe_positions e1 @ [(ep_key p, opened_position p d)]"
      "pe_config e2 = pe_config e1" by simp
  note after = exposures_after_open [OF e2(2)]
  from cfg assms(2,3) have "within_limits e2 p equity"
  proof (cases rule: evaluate_entry_cases)
    case (approved f1 f2 eqt a d')
    have same: "gross_exposure e1 = gross_exposure f2" "net_exposure e1 = net_exposure f2"
        "committed_risk_fraction e1 = committed_risk_fraction f2" "\<And>P. gross_where P e1 = gross_where P f2"
        "pe_config e1 = pe_config f2" "pe_positions e1 = pe_positions f2"
      using approved(9)
      by (simp_all add: gross_exposure_def net_exposure_def committed_risk_fraction_def gross_where_def held_def)
    have a: "0 < a"
      using approved(1,4,7) cfg config_ok_facts(1) by (fastforce simp: portfolio_roll_frame)
    have d: "pd_signed_notional d = (if 0 < ep_signed_notional p then a else - a)"
        "pd_risk_fraction d = ep_committed_risk p * a / \<bar>ep_signed_notional p\<bar>" "eqt = equity"
      using approved(2,8,10) by simp_all
    have pok: "0 < ep_committed_risk p" "ep_signed_notional p \<noteq> 0"
      using assms(2) by (simp_all add: proposal_ok_def)
    have count: "int (length (pe_positions f2)) < max_open_positions (pe_config f2)"
      using approved(5) by (auto simp: blocking_reason_def Let_def split: option.splits if_splits)
    note rooms = approved_notional_rooms [of f2 p equity, folded approved(6) [unfolded d(3)], OF a pok]
    show ?thesis
      unfolding within_limits_def Let_def
      using rooms pok a d count
      by (simp add: after same e2 opened_position_def)
  qed (use assms(4) rejected_not_approved in auto)
  with e2(1) show ?thesis by blast
qed

text \<open>
  C1. The budget holds for a position opened right after its approval. The position is
  opened without an exception, and afterwards gross, directional net, symbol, venue,
  strategy, engine and correlated exposure, the committed risk and the number of positions
  are within the configured limits at the equity of the evaluation.
\<close>

theorem portfolio_open_within_limits:
  assumes "portfolio_inv e" "proposal_ok p" "evaluate_entry e p (Fin equity) = (e1, Inr d)" "pd_approved d"
  shows "\<exists>e2. record_open e1 p d = (e2, Inr ()) \<and> within_limits e2 p equity"
  by (rule opened_within_limits [OF assms])

text \<open>
  C13. Pending approvals are not reserved. Two proposals approved one after the other, before
  either is opened, both open without an exception even if the kill switch is activated in
  between, and the exposure grows by the sum of the two approvals although each was granted
  against the same free budget.
\<close>

theorem portfolio_pending_not_reserved:
  assumes "portfolio_inv e" "proposal_ok p" "proposal_ok q" "ep_key p \<noteq> ep_key q"
    "evaluate_entry e p v = (e1, Inr d1)" "pd_approved d1"
    "evaluate_entry e1 q w = (e2, Inr d2)" "pd_approved d2"
  shows "\<exists>e4 e5. record_open (fst (activate_kill_switch e2 reason)) p d1 = (e4, Inr ()) \<and>
    record_open e4 q d2 = (e5, Inr ()) \<and>
    gross_exposure e5 = gross_exposure e + \<bar>pd_signed_notional d1\<bar> + \<bar>pd_signed_notional d2\<bar> \<and>
    length (pe_positions e5) = length (pe_positions e) + 2"
proof -
  let ?e3 = "fst (activate_kill_switch e2 reason)"
  have cfg: "portfolio_config_ok (pe_config e)" "portfolio_config_ok (pe_config e1)"
    using assms(1) evaluate_entry_inv [OF assms(1,2,5)] by (simp_all add: portfolio_inv_def)
  have "openable e1 p d1" by (rule evaluate_openable [OF cfg(1) assms(2,5,6)])
  then have p: "openable ?e3 p d1"
    using openable_after_evaluate cfg(2) assms(3,4,7) openable_kill_switch by metis
  have q: "openable ?e3 q d2"
    using evaluate_openable [OF cfg(2) assms(3,7,8)] openable_kill_switch by blast
  let ?e4 = "?e3\<lparr>pe_positions := pe_positions ?e3 @ [(ep_key p, opened_position p d1)],
      pe_pending := AList.delete (ep_key p) (pe_pending ?e3)\<rparr>"
  have o4: "record_open ?e3 p d1 = (?e4, Inr ())" by (rule record_open_openable [OF p assms(2)])
  have "openable ?e4 q d2" by (rule openable_after_open [OF q]) (use assms(4) in simp)
  from record_open_openable [OF this assms(3)] obtain e5 where
    o5: "record_open ?e4 q d2 = (e5, Inr ())"
      "pe_positions e5 = pe_positions ?e4 @ [(ep_key q, opened_position q d2)]" by simp
  have pos: "pe_positions ?e3 = pe_positions e"
    using evaluate_frame [OF cfg(1) assms(2,5)] evaluate_frame [OF cfg(2) assms(3,7)]
    by (simp add: activate_kill_switch_def)
  with o5(2) have "gross_exposure e5 = gross_exposure e + \<bar>pd_signed_notional d1\<bar> + \<bar>pd_signed_notional d2\<bar>"
      "length (pe_positions e5) = length (pe_positions e) + 2"
    by (simp_all add: gross_exposure_def held_def opened_position_def)
  with o4 o5(1) show ?thesis by blast
qed

text \<open>
  The daily loss gate. With the loss limit of the day reached, no proposal of that day or
  an earlier one is approved: an out-of-order time stamp cannot roll the ledger back.
\<close>

theorem portfolio_daily_loss_blocks:
  assumes "portfolio_inv e" "proposal_ok p" "pe_current_day e = Some d"
    "pe_daily_pnl e \<le> - max_daily_loss_fraction (pe_config e) * equity"
    "utc_date (ep_proposed_at p) \<le> d"
    "evaluate_entry e p (Fin equity) = (e', Inr dec)"
  shows "\<not> pd_approved dec \<and> pe_current_day e' = Some d \<and> pe_daily_pnl e' = pe_daily_pnl e"
proof -
  have cfg: "portfolio_config_ok (pe_config e)" using assms(1) by (simp add: portfolio_inv_def)
  have roll: "fst (portfolio_roll_day e (ep_proposed_at p)) = e"
    using portfolio_ledger.roll_back [OF assms(3,5)] by simp
  from cfg assms(2,6) show ?thesis
  proof (cases rule: evaluate_entry_cases)
    case (approved e1 e2 eqt a d')
    have "e1 = e" "eqt = equity" using roll approved(1,2) by simp_all
    with approved(4) assms(4) have "blocking_reason e2 p eqt \<noteq> None"
      by (cases "pe_kill_reason e") (simp_all add: blocking_reason_def Let_def)
    with approved(5) show ?thesis by simp
  next
    case stale
    with roll assms(3) show ?thesis by (auto dest: rejected_not_approved [OF sym])
  next
    case (blocked e1 eqt reason)
    with roll assms(3) show ?thesis by (auto dest: rejected_not_approved [OF sym])
  qed auto
qed

text \<open>
  The kill switch. Once active it stays active through every sequence of operations
  without an operator reset, and at the end of it no proposal is approved.
\<close>

theorem portfolio_kill_switch_blocks:
  assumes "portfolio_inv e" "pe_kill_reason e \<noteq> None" "list_all op_ok ops"
    "\<And>r. ClearKillSwitch r \<notin> set ops" "proposal_ok p"
    "evaluate_entry (foldl portfolio_step e ops) p v = (e', Inr dec)"
  shows "pe_kill_reason (foldl portfolio_step e ops) \<noteq> None \<and> \<not> pd_approved dec"
proof -
  let ?f = "foldl portfolio_step e ops"
  have on: "pe_kill_reason ?f \<noteq> None"
    by (rule portfolio_steps_kill) (use assms in auto)
  have cfg: "portfolio_config_ok (pe_config ?f)"
    using portfolio_steps_inv [OF assms(1,3)] by (simp add: portfolio_inv_def)
  from cfg assms(5,6) have "\<not> pd_approved dec"
  proof (cases rule: evaluate_entry_cases)
    case (approved e1 e2 eqt a d)
    with on have "blocking_reason e2 p eqt \<noteq> None"
      by (auto simp: blocking_reason_def Let_def portfolio_roll_frame)
    with approved(5) show ?thesis by simp
  qed (auto dest: rejected_not_approved [OF sym])
  with on show ?thesis by blast
qed

section \<open>Snapshots\<close>

lemma update_all_new:
  "distinct (map fst d @ map f ps) \<Longrightarrow>
   foldl (\<lambda>d p. AList.update (f p) p d) d ps = d @ map (\<lambda>p. (f p, p)) ps"
proof (induction ps arbitrary: d)
  case (Cons p ps)
  then have "AList.update (f p) p d = d @ [(f p, p)]" by (intro update_new) auto
  with Cons show ?case by simp
qed simp

lemma map_of_same_set:
  assumes "set xs = set ys" "dict_ok xs" "dict_ok ys"
  shows "map_of xs k = map_of ys k"
  using assms by (metis dict_ok_mem option.exhaust)

text \<open>The engine that a snapshot restores: positions in the order of their keys, nothing pending.\<close>

definition restored_engine :: "portfolio_engine \<Rightarrow> portfolio_engine" where
  "restored_engine e =
     e\<lparr>pe_positions := map (\<lambda>p. (pp_key p, p)) (sorted_positions e), pe_pending := []\<rparr>"

definition snapshot_of :: "portfolio_engine \<Rightarrow> rat portfolio_snapshot" where
  "snapshot_of e =
     \<lparr>ps_positions = sorted_positions e, ps_peak_equity = pe_peak_equity e, ps_daily_pnl = pe_daily_pnl e,
      ps_current_day = pe_current_day e, ps_kill_reason = pe_kill_reason e\<rparr>"

lemma held_keys:
  assumes "portfolio_inv e"
  shows "map (\<lambda>p. (pp_key p, p)) (held e) = pe_positions e" "distinct (map pp_key (sorted_positions e))"
proof -
  have "map (\<lambda>p. (pp_key p, p)) (map snd d) = d" if "\<forall>(k, p) \<in> set d. pp_key p = k" for d
    using that by (induction d) auto
  then show k: "map (\<lambda>p. (pp_key p, p)) (held e) = pe_positions e"
    using assms by (auto simp: held_def portfolio_inv_def)
  have "map fst (map (\<lambda>p. (pp_key p, p)) (held e)) = map pp_key (held e)" by simp
  with k assms have "distinct (map pp_key (held e))" by (simp add: portfolio_inv_def)
  then show "distinct (map pp_key (sorted_positions e))" by (simp add: sorted_positions_def distinct_map)
qed

lemma set_sorted_positions:
  "portfolio_inv e \<Longrightarrow> set (map (\<lambda>p. (pp_key p, p)) (sorted_positions e)) = set (pe_positions e)"
  by (subst held_keys(1) [symmetric]) (simp_all add: sorted_positions_def)

lemma engine_snapshot_of: "portfolio_inv e \<Longrightarrow> engine_snapshot e = Inr (snapshot_of e)"
  using held_keys(2) [of e]
  by (auto simp: engine_snapshot_def make_portfolio_snapshot_def portfolio_inv_def snapshot_of_def split: option.split)

lemma from_snapshot_of:
  assumes "portfolio_inv e" "int (length (pe_positions e)) \<le> max_open_positions (pe_config e)"
  shows "from_snapshot (snapshot_of e) (pe_config e) = Inr (restored_engine e)"
proof -
  have "length (sorted_positions e) = length (pe_positions e)" by (simp add: sorted_positions_def held_def)
  moreover have "foldl (\<lambda>d p. AList.update (pp_key p) p d) [] (sorted_positions e) =
      map (\<lambda>p. (pp_key p, p)) (sorted_positions e)"
    using update_all_new [of "[]" pp_key "sorted_positions e"] held_keys(2) [OF assms(1)] by simp
  ultimately show ?thesis
    using assms(2) by (simp add: from_snapshot_def snapshot_of_def restored_engine_def)
qed

lemma restored_parts [simp]:
  "pe_config (restored_engine e) = pe_config e" "pe_peak_equity (restored_engine e) = pe_peak_equity e"
  "pe_daily_pnl (restored_engine e) = pe_daily_pnl e" "pe_current_day (restored_engine e) = pe_current_day e"
  "pe_kill_reason (restored_engine e) = pe_kill_reason e" "pe_pending (restored_engine e) = []"
  "held (restored_engine e) = sorted_positions e" "length (pe_positions (restored_engine e)) = length (pe_positions e)"
  by (simp_all add: restored_engine_def held_def sorted_positions_def comp_def)

lemma restored_lookup: "portfolio_inv e \<Longrightarrow> map_of (pe_positions (restored_engine e)) k = map_of (pe_positions e) k"
proof (rule map_of_same_set)
  assume inv: "portfolio_inv e"
  show "set (pe_positions (restored_engine e)) = set (pe_positions e)"
    using set_sorted_positions [OF inv] by (simp add: restored_engine_def)
  show "dict_ok (pe_positions e)" using inv by (simp add: portfolio_inv_def)
  show "dict_ok (pe_positions (restored_engine e))"
    using held_keys(2) [OF inv] by (simp add: restored_engine_def comp_def)
qed

lemma restored_inv:
  assumes "portfolio_inv e"
  shows "portfolio_inv (restored_engine e)"
proof -
  have "set (pe_positions (restored_engine e)) = set (pe_positions e)"
    using set_sorted_positions [OF assms] by (simp add: restored_engine_def)
  moreover have "dict_ok (pe_positions (restored_engine e))"
    using held_keys(2) [OF assms] by (simp add: restored_engine_def comp_def)
  ultimately show ?thesis using assms by (simp add: portfolio_inv_def)
qed

lemma snapshot_of_restored [simp]: "snapshot_of (restored_engine e) = snapshot_of e"
  by (simp add: snapshot_of_def sorted_positions_def sort_key_id_if_sorted)

lemma restored_idem [simp]: "restored_engine (restored_engine e) = restored_engine e"
  by (simp add: restored_engine_def sorted_positions_def held_def comp_def sort_key_id_if_sorted)

lemma restored_exposure:
  "gross_exposure (restored_engine e) = gross_exposure e" "net_exposure (restored_engine e) = net_exposure e"
  "committed_risk_fraction (restored_engine e) = committed_risk_fraction e"
proof -
  have "sum_list (map f (sorted_positions e)) = sum_list (map f (held e))" for f :: "_ \<Rightarrow> rat"
    unfolding sorted_positions_def sum_mset_sum_list [symmetric] by (simp only: mset_map mset_sort)
  then show "gross_exposure (restored_engine e) = gross_exposure e" "net_exposure (restored_engine e) = net_exposure e"
    "committed_risk_fraction (restored_engine e) = committed_risk_fraction e"
    by (simp_all add: gross_exposure_def net_exposure_def committed_risk_fraction_def)
qed

text \<open>
  A snapshot is a full copy of the safety state. It can always be taken; an engine
  restored from it with the same configuration has the same positions, peak equity, daily
  result, day and kill switch, and no pending decision, provided the positions are within the
  configured number.
\<close>

theorem portfolio_snapshot_roundtrip:
  assumes "portfolio_inv e" "int (length (pe_positions e)) \<le> max_open_positions (pe_config e)"
  shows "\<exists>s e'. engine_snapshot e = Inr s \<and> from_snapshot s (pe_config e) = Inr e' \<and>
    map_of (pe_positions e') = map_of (pe_positions e) \<and> pe_peak_equity e' = pe_peak_equity e \<and>
    pe_daily_pnl e' = pe_daily_pnl e \<and> pe_current_day e' = pe_current_day e \<and>
    pe_kill_reason e' = pe_kill_reason e \<and> pe_pending e' = []"
  using engine_snapshot_of [OF assms(1)] from_snapshot_of [OF assms]
  by (intro exI [of _ "snapshot_of e"] exI [of _ "restored_engine e"])
    (simp add: fun_eq_iff restored_lookup [OF assms(1)])

section \<open>A concrete portfolio\<close>

definition demo_portfolio :: portfolio_engine where
  "demo_portfolio = new_portfolio_engine (map_config num_val default_portfolio_config)"

definition demo_entry :: "string \<Rightarrow> (rat, int) entry_proposal" where
  "demo_entry k =
     \<lparr>ep_key = k, ep_symbol = ''BTCUSDT'', ep_venue = ''bybit'', ep_strategy = ''breakout'',
      ep_engine = ''trend'', ep_signed_notional = 500, ep_committed_risk = 1 / 100,
      ep_correlation_checked = [], ep_correlated = [], ep_proposed_at = 0\<rparr>"

definition demo_approval :: "string \<Rightarrow> portfolio_decision" where
  "demo_approval k =
     \<lparr>pd_proposal_key = k, pd_approved = True, pd_signed_notional = 500, pd_risk_fraction = 1 / 100,
      pd_reason = ''APPROVED'', pd_projected_gross = 500, pd_projected_net = 500,
      pd_projected_risk = 1 / 100\<rparr>"

lemma demo_portfolio_inv: "portfolio_inv demo_portfolio"
  unfolding demo_portfolio_def
  by (rule new_portfolio_engine_inv)
    (simp add: portfolio_config_ok_def map_config_def default_portfolio_config_def config_limits_def
      config_fractions_def)

lemma demo_not_blank:
  "\<not> blank ''a''" "\<not> blank ''b''" "\<not> blank ''BTCUSDT''" "\<not> blank ''bybit''" "\<not> blank ''breakout''"
  "\<not> blank ''trend''" "\<not> blank ''APPROVED''" "\<not> blank ''manual''" "\<not> blank ''MAXIMUM_DAILY_LOSS''"
  by code_simp+

lemma demo_entry_ok: "k = ''a'' \<or> k = ''b'' \<Longrightarrow> proposal_ok (demo_entry k)"
  by (auto simp: proposal_ok_def demo_entry_def demo_not_blank)

lemma demo_portfolio_parts:
  "pe_positions demo_portfolio = []" "pe_peak_equity demo_portfolio = 0" "pe_daily_pnl demo_portfolio = 0"
  "pe_current_day demo_portfolio = None" "pe_kill_reason demo_portfolio = None"
  "pe_pending demo_portfolio = []"
  "max_gross (pe_config demo_portfolio) = 2" "max_net (pe_config demo_portfolio) = 1"
  "max_symbol (pe_config demo_portfolio) = 1 / 2" "max_venue (pe_config demo_portfolio) = 1"
  "max_strategy (pe_config demo_portfolio) = 3 / 4" "max_engine (pe_config demo_portfolio) = 1"
  "max_correlated (pe_config demo_portfolio) = 3 / 4"
  "max_committed_risk (pe_config demo_portfolio) = 5 / 100"
  "max_daily_loss_fraction (pe_config demo_portfolio) = 3 / 100"
  "max_drawdown_fraction (pe_config demo_portfolio) = 15 / 100"
  "max_open_positions (pe_config demo_portfolio) = 10" "min_order_notional (pe_config demo_portfolio) = 10"
  by (simp_all add: demo_portfolio_def new_portfolio_engine_def map_config_def default_portfolio_config_def)

lemma demo_entry_parts:
  "ep_key (demo_entry k) = k" "ep_signed_notional (demo_entry k) = 500"
  "ep_committed_risk (demo_entry k) = 1 / 100" "ep_proposed_at (demo_entry k) = 0"
  by (simp_all add: demo_entry_def)

lemma demo_held: "pe_positions e = [] \<Longrightarrow> held e = []"
  by (simp add: held_def)

lemma demo_exposures:
  assumes "pe_positions e = []"
  shows "gross_exposure e = 0" "net_exposure e = 0" "committed_risk_fraction e = 0" "gross_where P e = 0"
  using assms by (simp_all add: gross_exposure_def net_exposure_def gross_where_def committed_risk_fraction_def held_def)

lemma demo_approved_notional:
  assumes "pe_positions e = []" "pe_config e = pe_config demo_portfolio"
  shows "approved_notional e (demo_entry k) 1000 = 500"
  unfolding approved_notional_def Let_def demo_exposures [OF assms(1)] assms(2) demo_entry_parts demo_portfolio_parts
  by (simp add: min_def max_def)

lemmas portfolio_eval =
  demo_portfolio_parts demo_entry_parts evaluate_entry_def portfolio_roll_day_def positive_equity_def
  demo_held demo_exposures demo_approved_notional make_portfolio_decision_def demo_not_blank utc_date_def

lemma demo_no_block:
  "pe_positions e = [] \<Longrightarrow> pe_config e = pe_config demo_portfolio \<Longrightarrow> pe_kill_reason e = None \<Longrightarrow>
   pe_daily_pnl e = 0 \<Longrightarrow> pe_peak_equity e = 1000 \<Longrightarrow> blocking_reason e (demo_entry k) 1000 = None"
  by (simp add: blocking_reason_def Let_def demo_held demo_portfolio_parts)

lemma demo_evaluate_a:
  "evaluate_entry demo_portfolio (demo_entry ''a'') (Fin 1000) =
     (demo_portfolio\<lparr>pe_current_day := Some 0, pe_daily_pnl := 0, pe_peak_equity := 1000,
        pe_pending := [(''a'', demo_approval ''a'')]\<rparr>, Inr (demo_approval ''a''))"
  by (simp add: portfolio_eval demo_no_block demo_approval_def Let_def)

lemma demo_evaluate_b:
  "evaluate_entry (demo_portfolio\<lparr>pe_current_day := Some 0, pe_daily_pnl := 0, pe_peak_equity := 1000,
        pe_pending := [(''a'', demo_approval ''a'')]\<rparr>) (demo_entry ''b'') (Fin 1000) =
     (demo_portfolio\<lparr>pe_current_day := Some 0, pe_daily_pnl := 0, pe_peak_equity := 1000,
        pe_pending := [(''a'', demo_approval ''a''), (''b'', demo_approval ''b'')]\<rparr>, Inr (demo_approval ''b''))"
  by (simp add: portfolio_eval demo_no_block demo_approval_def Let_def)

lemma portfolio_run_accounts_witness:
  "let e = foldl portfolio_step demo_portfolio
     [EvaluateEntry (demo_entry ''a'') (Fin 1000), RecordOpen (demo_entry ''a'') (demo_approval ''a''),
      ClearKillSwitch '' '', RecordClose ''a'' (Fin (- 40)) (Aware 5)]
   in pe_daily_pnl e = - 40 \<and> pe_peak_equity e = 1000 \<and> map_of (pe_positions e) ''a'' = None"
proof -
  let ?ops = "[EvaluateEntry (demo_entry ''a'') (Fin 1000), RecordOpen (demo_entry ''a'') (demo_approval ''a''),
      ClearKillSwitch '' '', RecordClose ''a'' (Fin (- 40)) (Aware 5)]"
  let ?e1 = "demo_portfolio\<lparr>pe_current_day := Some 0, pe_daily_pnl := 0, pe_peak_equity := 1000,
        pe_pending := [(''a'', demo_approval ''a'')]\<rparr>"
  have ok: "list_all op_ok ?ops" by (simp add: demo_entry_ok)
  have "openable ?e1 (demo_entry ''a'') (demo_approval ''a'')"
    using evaluate_openable [of demo_portfolio "demo_entry ''a''" "Fin 1000"] demo_portfolio_inv demo_entry_ok demo_evaluate_a
    by (simp add: portfolio_inv_def demo_approval_def)
  from record_open_openable [OF this demo_entry_ok] have o: "record_open ?e1 (demo_entry ''a'') (demo_approval ''a'') =
      (?e1\<lparr>pe_positions := [(''a'', opened_position (demo_entry ''a'') (demo_approval ''a''))], pe_pending := []\<rparr>, Inr ())"
    by (simp add: demo_portfolio_parts demo_entry_parts)
  have bl: "blank '' ''" by code_simp
  have ap: "pd_approved (demo_approval ''a'')" by (simp add: demo_approval_def)
  have "events_of demo_portfolio ?ops =
      [OnDay 0, Saw 1000, Issued (demo_approval ''a''), Opened (demo_entry ''a'') (demo_approval ''a''),
       OnDay 0, Closed ''a'' (- 40)]"
    by (simp add: demo_evaluate_a o demo_entry_parts demo_portfolio_parts utc_date_def clear_kill_switch_def bl
        record_close_def utc_of_def Let_def portfolio_roll_day_def ap)
  then show ?thesis
    using portfolio_run_accounts [OF demo_portfolio_inv ok]
    by (simp add: books_of_def demo_portfolio_parts demo_entry_parts Let_def fun_eq_iff del: foldl.simps portfolio_step.simps)
qed

lemma portfolio_open_within_limits_witness:
  "\<exists>e1 e2. evaluate_entry demo_portfolio (demo_entry ''a'') (Fin 1000) = (e1, Inr (demo_approval ''a'')) \<and>
     record_open e1 (demo_entry ''a'') (demo_approval ''a'') = (e2, Inr ()) \<and>
     within_limits e2 (demo_entry ''a'') 1000"
proof -
  have "pd_approved (demo_approval ''a'')" by (simp add: demo_approval_def)
  from portfolio_open_within_limits [OF demo_portfolio_inv demo_entry_ok demo_evaluate_a this]
  show ?thesis by (auto simp: demo_evaluate_a)
qed

text \<open>
  In the witness the symbol limit is half of an equity of 1000, each approval takes all of
  it, and the two positions together are twice the limit.
\<close>

lemma portfolio_pending_not_reserved_witness:
  "\<exists>e1 e2 e4 e5. evaluate_entry demo_portfolio (demo_entry ''a'') (Fin 1000) = (e1, Inr (demo_approval ''a'')) \<and>
     evaluate_entry e1 (demo_entry ''b'') (Fin 1000) = (e2, Inr (demo_approval ''b'')) \<and>
     record_open (fst (activate_kill_switch e2 ''manual'')) (demo_entry ''a'') (demo_approval ''a'') = (e4, Inr ()) \<and>
     record_open e4 (demo_entry ''b'') (demo_approval ''b'') = (e5, Inr ()) \<and>
     gross_exposure e5 = 1000 \<and> max_symbol (pe_config demo_portfolio) * 1000 = 500"
proof -
  have keys: "ep_key (demo_entry ''a'') \<noteq> ep_key (demo_entry ''b'')" by (simp add: demo_entry_def)
  have ap: "pd_approved (demo_approval k)" "pd_signed_notional (demo_approval k) = 500" for k
    by (simp_all add: demo_approval_def)
  have "gross_exposure demo_portfolio = 0" "max_symbol (pe_config demo_portfolio) * 1000 = 500"
    by (simp_all add: demo_exposures demo_portfolio_parts)
  then show ?thesis
    using portfolio_pending_not_reserved [OF demo_portfolio_inv demo_entry_ok demo_entry_ok keys
        demo_evaluate_a ap(1) demo_evaluate_b ap(1), of "''manual''"] ap(2)
    by (auto simp: demo_evaluate_a demo_evaluate_b)
qed

lemma portfolio_daily_loss_blocks_witness:
  "\<exists>e' dec. evaluate_entry (demo_portfolio\<lparr>pe_current_day := Some 0, pe_daily_pnl := - 40\<rparr>)
       (demo_entry ''a'') (Fin 1000) = (e', Inr dec) \<and> \<not> pd_approved dec"
proof -
  let ?e = "demo_portfolio\<lparr>pe_current_day := Some 0, pe_daily_pnl := - 40\<rparr>"
  have inv: "portfolio_inv ?e" using demo_portfolio_inv by (simp add: portfolio_inv_def)
  obtain e' dec where run: "evaluate_entry ?e (demo_entry ''a'') (Fin 1000) = (e', Inr dec)"
    by (simp add: portfolio_eval Let_def rejected_def blocking_reason_def)
  have "\<not> pd_approved dec"
    using portfolio_daily_loss_blocks [OF inv demo_entry_ok _ _ _ run]
    by (simp add: portfolio_eval)
  with run show ?thesis by blast
qed

lemma portfolio_kill_switch_blocks_witness:
  "\<exists>e' dec. evaluate_entry (foldl portfolio_step (demo_portfolio\<lparr>pe_kill_reason := Some ''manual''\<rparr>) [UpdateEquity (Fin 7)])
       (demo_entry ''a'') (Fin 1000) = (e', Inr dec) \<and> \<not> pd_approved dec"
proof -
  let ?e = "demo_portfolio\<lparr>pe_kill_reason := Some ''manual''\<rparr>"
  have inv: "portfolio_inv ?e" using demo_portfolio_inv by (simp add: portfolio_inv_def demo_not_blank)
  have nb: "\<not> blank ''KILL_SWITCH_ACTIVE:manual''" by code_simp
  obtain e' dec where run: "evaluate_entry (foldl portfolio_step ?e [UpdateEquity (Fin 7)])
      (demo_entry ''a'') (Fin 1000) = (e', Inr dec)"
    by (simp add: portfolio_eval Let_def rejected_def blocking_reason_def update_equity_def nb)
  have "\<not> pd_approved dec"
    using portfolio_kill_switch_blocks [OF inv _ _ _ demo_entry_ok run] by simp
  with run show ?thesis by blast
qed

lemma portfolio_snapshot_roundtrip_witness:
  "\<exists>s e'. engine_snapshot demo_portfolio = Inr s \<and> from_snapshot s (pe_config demo_portfolio) = Inr e' \<and>
     pe_positions e' = []"
proof -
  have "int (length (pe_positions demo_portfolio)) \<le> max_open_positions (pe_config demo_portfolio)"
    by (simp add: portfolio_eval)
  from portfolio_snapshot_roundtrip [OF demo_portfolio_inv this] show ?thesis
    by (auto simp: demo_portfolio_parts dest!: map_of_eq_empty_iff [THEN iffD1])
qed

end
