(* ===== verification/Risk_Engine.thy ===== *)
theory Risk_Engine
  imports Daily_Ledger
begin

text \<open>
  Model of \<open>src/risk/engine.py\<close>, the single-strategy risk engine: entry gate, position
  sizing and the daily loss ledger. \<open>instrument.make_qty\<close> belongs to NautilusTrader and is
  a parameter; it may raise. Numbers are exact rationals.
\<close>

record risk_config =
  risk_per_trade :: rat
  max_portfolio_risk :: rat
  max_daily_loss :: rat
  max_drawdown :: rat
  max_concurrent_positions :: int
  max_leverage :: rat
  volatility_target :: "rat option"

record 'q risk_decision =
  rd_approved :: bool
  rd_quantity :: 'q
  rd_risk_fraction :: rat
  rd_reason :: string

record risk_engine =
  re_config :: risk_config
  re_open_positions :: "(string, rat) dict"
  re_peak_equity :: rat
  re_daily_pnl :: rat
  re_current_day :: "int option"

text \<open>\<open>make_qty True x\<close> is \<open>instrument.make_qty(x, round_down=True)\<close>.\<close>

record 'q instrument =
  make_qty :: "bool \<Rightarrow> rat \<Rightarrow> 'q result"
  as_double :: "'q \<Rightarrow> rat"

definition new_risk_engine :: "risk_config \<Rightarrow> risk_engine" where
  "new_risk_engine c =
     \<lparr>re_config = c, re_open_positions = [], re_peak_equity = 0, re_daily_pnl = 0,
      re_current_day = None\<rparr>"

definition risk_roll_day :: "risk_engine \<Rightarrow> int \<Rightarrow> risk_engine \<times> bool" where
  "risk_roll_day s now =
     (case re_current_day s of
        None \<Rightarrow> (s\<lparr>re_current_day := Some (utc_date now), re_daily_pnl := 0\<rparr>, True)
      | Some d \<Rightarrow>
          if d < utc_date now
          then (s\<lparr>re_current_day := Some (utc_date now), re_daily_pnl := 0\<rparr>, True)
          else (s, utc_date now = d))"

definition risk_open_sum :: "risk_engine \<Rightarrow> rat" where
  "risk_open_sum s = sum_values (\<lambda>r. r) (re_open_positions s)"

text \<open>The target risk fraction: volatility scaled when a target and a positive volatility exist.\<close>

definition risk_target :: "risk_config \<Rightarrow> rat option \<Rightarrow> rat" where
  "risk_target c realized_vol =
     (case (volatility_target c, realized_vol) of
        (Some target, Some v) \<Rightarrow> if 0 < v then target / v * risk_per_trade c else risk_per_trade c
      | _ \<Rightarrow> risk_per_trade c)"

definition risk_sized :: "'q instrument \<Rightarrow> risk_engine \<Rightarrow> rat \<Rightarrow> rat \<Rightarrow> rat option \<Rightarrow> 'q
    \<Rightarrow> 'q risk_decision result" where
  "risk_sized ins s price equity realized_vol zero =
     (let c = re_config s; available = max_portfolio_risk c - risk_open_sum s in
      if available \<le> 0
      then Inr \<lparr>rd_approved = False, rd_quantity = zero, rd_risk_fraction = 0,
                rd_reason = ''max_portfolio_risk reached''\<rparr>
      else
        (let fraction = max 0 (min (risk_target c realized_vol) available) in
         if price \<le> 0 \<or> fraction \<le> 0
         then Inr \<lparr>rd_approved = False, rd_quantity = zero, rd_risk_fraction = 0,
                   rd_reason = ''no valid risk budget''\<rparr>
         else bindE (make_qty ins True (min (equity * fraction) (equity * max_leverage c) / price)) (\<lambda>q.
           if as_double ins q \<le> 0
           then Inr \<lparr>rd_approved = False, rd_quantity = q, rd_risk_fraction = 0,
                     rd_reason = ''computed size rounds to zero''\<rparr>
           else Inr \<lparr>rd_approved = True, rd_quantity = q, rd_risk_fraction = fraction,
                     rd_reason = ''approved''\<rparr>)))"

definition risk_evaluate :: "'q instrument \<Rightarrow> risk_engine \<Rightarrow> rat \<Rightarrow> rat \<Rightarrow> int \<Rightarrow> rat option
    \<Rightarrow> risk_engine \<times> 'q risk_decision result" where
  "risk_evaluate ins s price equity now realized_vol =
     (case risk_roll_day s now of
        (s1, False) \<Rightarrow>
          (s1, bindE (make_qty ins False 0) (\<lambda>zero.
             Inr \<lparr>rd_approved = False, rd_quantity = zero, rd_risk_fraction = 0,
                  rd_reason = ''out-of-order timestamp''\<rparr>))
      | (s1, True) \<Rightarrow>
          (let s2 = s1\<lparr>re_peak_equity := max (re_peak_equity s1) equity\<rparr>;
               c = re_config s2;
               no = (\<lambda>why zero. \<lparr>rd_approved = False, rd_quantity = zero, rd_risk_fraction = 0,
                                  rd_reason = why\<rparr>)
           in (s2, bindE (make_qty ins False 0) (\<lambda>zero.
                if max_concurrent_positions c \<le> int (length (re_open_positions s2))
                then Inr (no ''max_concurrent_positions reached'' zero)
                else if 0 < equity \<and> re_daily_pnl s2 \<le> - max_daily_loss c * equity
                then Inr (no ''max_daily_loss breached'' zero)
                else if 0 < re_peak_equity s2 \<and>
                        (equity - re_peak_equity s2) / re_peak_equity s2 \<le> - max_drawdown c
                then Inr (no ''max_drawdown breached'' zero)
                else risk_sized ins s2 price equity realized_vol zero))))"

definition risk_open_position :: "risk_engine \<Rightarrow> string \<Rightarrow> rat \<Rightarrow> risk_engine" where
  "risk_open_position s key fraction =
     s\<lparr>re_open_positions := AList.update key fraction (re_open_positions s)\<rparr>"

definition risk_close_position :: "risk_engine \<Rightarrow> string \<Rightarrow> rat \<Rightarrow> int \<Rightarrow> risk_engine" where
  "risk_close_position s key realized_pnl now =
     (let s1 = fst (risk_roll_day s now) in
      s1\<lparr>re_open_positions := AList.delete key (re_open_positions s1),
         re_daily_pnl := re_daily_pnl s1 + realized_pnl\<rparr>)"

section \<open>The daily ledger\<close>

definition risk_charge :: "risk_engine \<Rightarrow> rat \<Rightarrow> risk_engine" where
  "risk_charge s x = s\<lparr>re_daily_pnl := re_daily_pnl s + x\<rparr>"

interpretation risk_ledger: daily_ledger risk_roll_day risk_charge re_current_day re_daily_pnl
  by unfold_locales (auto simp: risk_roll_day_def risk_charge_def split: option.split)

text \<open>A sequence of closes, each with key, realised result and time.\<close>

definition risk_closes :: "risk_engine \<Rightarrow> (string \<times> rat \<times> int) list \<Rightarrow> risk_engine" where
  "risk_closes s cs = foldl (\<lambda>s (k, x, t). risk_close_position s k x t) s cs"

lemma risk_close_posts:
  "re_current_day (risk_close_position s k x t) = re_current_day (risk_ledger.post s (t, x))"
  "re_daily_pnl (risk_close_position s k x t) = re_daily_pnl (risk_ledger.post s (t, x))"
  by (simp_all add: risk_close_position_def risk_ledger.post_def risk_charge_def Let_def)

lemma risk_post_cong:
  "re_current_day s = re_current_day s' \<Longrightarrow> re_daily_pnl s = re_daily_pnl s' \<Longrightarrow>
   re_current_day (risk_ledger.post s e) = re_current_day (risk_ledger.post s' e) \<and>
   re_daily_pnl (risk_ledger.post s e) = re_daily_pnl (risk_ledger.post s' e)"
  by (auto simp: risk_ledger.post_def risk_charge_def risk_roll_day_def split: option.split)

lemma risk_closes_posts:
  "re_current_day s = re_current_day s' \<Longrightarrow> re_daily_pnl s = re_daily_pnl s' \<Longrightarrow>
   re_current_day (risk_closes s cs) =
     re_current_day (foldl risk_ledger.post s' (map (\<lambda>(k, x, t). (t, x)) cs)) \<and>
   re_daily_pnl (risk_closes s cs) =
     re_daily_pnl (foldl risk_ledger.post s' (map (\<lambda>(k, x, t). (t, x)) cs))"
proof (induction cs arbitrary: s s')
  case (Cons c cs)
  obtain k x t where c: "c = (k, x, t)" by (cases c) auto
  have "re_current_day (risk_close_position s k x t) = re_current_day (risk_ledger.post s' (t, x))"
    "re_daily_pnl (risk_close_position s k x t) = re_daily_pnl (risk_ledger.post s' (t, x))"
    using risk_post_cong [OF Cons.prems] by (simp_all add: risk_close_posts)
  from Cons.IH [OF this] c show ?case by (simp add: risk_closes_def)
qed (simp add: risk_closes_def)

section \<open>Properties\<close>

text \<open>
  The daily loss ledger survives out-of-order closes. After closes of which \<open>c\<close> is the
  first on the latest day, the ledger stands on that day and holds the results of \<open>c\<close> and of
  every close recorded after it, those with an older time stamp included.
\<close>

theorem risk_daily_loss_ledger:
  assumes "\<And>k x t. (k, x, t) \<in> set before \<Longrightarrow> utc_date t < utc_date now"
    and "\<And>k x t. (k, x, t) \<in> set after \<Longrightarrow> utc_date t \<le> utc_date now"
  shows "re_current_day (risk_closes (new_risk_engine cfg) (before @ (key, pnl, now) # after))
      = Some (utc_date now) \<and>
    re_daily_pnl (risk_closes (new_risk_engine cfg) (before @ (key, pnl, now) # after))
      = pnl + sum_list (map (\<lambda>(k, x, t). x) after)"
proof -
  let ?e = "new_risk_engine cfg" and ?f = "\<lambda>(k, x, t). (t, x)"
  have none: "re_current_day ?e = None" by (simp add: new_risk_engine_def)
  have "d < utc_date now" if "re_current_day (foldl risk_ledger.post ?e (map ?f before)) = Some d" for d
    by (rule risk_ledger.posts_day_below [OF _ _ that]) (use none assms(1) in auto)
  moreover have "utc_date (fst e) \<le> utc_date now" if "e \<in> set (map ?f after)" for e
    using that assms(2) by auto
  ultimately have "re_current_day (foldl risk_ledger.post ?e (map ?f before @ (now, pnl) # map ?f after))
        = Some (utc_date now) \<and>
      re_daily_pnl (foldl risk_ledger.post ?e (map ?f before @ (now, pnl) # map ?f after))
        = pnl + sum_list (map snd (map ?f after))"
    by (rule risk_ledger.posts_latest_day)
  moreover have "sum_list (map snd (map ?f after)) = sum_list (map (\<lambda>(k, x, t). x) after)"
    by (induction after) auto
  ultimately show ?thesis
    using risk_closes_posts [of ?e ?e "before @ (key, pnl, now) # after"]
    by (simp del: map_map)
qed

text \<open>
  What an approval guarantees. With an instrument whose \<open>make_qty\<close> rounds down, an
  approved entry has room among the positions, keeps the committed risk within
  \<open>max_portfolio_risk\<close>, and its notional is positive and within the leverage cap and the
  committed fraction of equity; the ledger has not lost the daily limit.
\<close>

theorem risk_approval_within_limits:
  assumes "risk_evaluate ins s price equity now vol = (s', Inr d)" "rd_approved d"
    and "\<And>x q. make_qty ins True x = Inr q \<Longrightarrow> as_double ins q \<le> x"
  shows "0 < rd_risk_fraction d \<and>
    risk_open_sum s' + rd_risk_fraction d \<le> max_portfolio_risk (re_config s') \<and>
    int (length (re_open_positions s')) < max_concurrent_positions (re_config s') \<and>
    0 < as_double ins (rd_quantity d) * price \<and>
    as_double ins (rd_quantity d) * price \<le> equity * max_leverage (re_config s') \<and>
    as_double ins (rd_quantity d) * price \<le> equity * rd_risk_fraction d \<and>
    \<not> (0 < equity \<and> re_daily_pnl s' \<le> - max_daily_loss (re_config s') * equity)"
proof -
  obtain s1 b where roll: "risk_roll_day s now = (s1, b)" by fastforce
  let ?s2 = "s1\<lparr>re_peak_equity := max (re_peak_equity s1) equity\<rparr>"
  from assms(1,2) roll have b: "b" by (cases b) (auto simp: risk_evaluate_def bindE_eq_Inr)
  with assms(1,2) roll obtain zero where s': "s' = ?s2"
    and pos: "int (length (re_open_positions s')) < max_concurrent_positions (re_config s')"
    and loss: "\<not> (0 < equity \<and> re_daily_pnl s' \<le> - max_daily_loss (re_config s') * equity)"
    and sized: "risk_sized ins s' price equity vol zero = Inr d"
    by (auto simp: risk_evaluate_def Let_def bindE_eq_Inr split: if_splits)
  define fr where "fr = max 0 (min (risk_target (re_config s') vol)
      (max_portfolio_risk (re_config s') - risk_open_sum s'))"
  from sized assms(2) have price: "0 < price" and fr: "0 < fr" "rd_risk_fraction d = fr"
      "0 < max_portfolio_risk (re_config s') - risk_open_sum s'"
    and q: "make_qty ins True (min (equity * fr) (equity * max_leverage (re_config s')) / price)
        = Inr (rd_quantity d)" "0 < as_double ins (rd_quantity d)"
    by (auto simp: risk_sized_def fr_def Let_def bindE_eq_Inr not_le split: if_splits)
  have "as_double ins (rd_quantity d) * price
      \<le> min (equity * fr) (equity * max_leverage (re_config s'))"
    using assms(3) [OF q(1)] price by (simp add: field_simps)
  moreover have "fr \<le> max_portfolio_risk (re_config s') - risk_open_sum s'"
    using fr by (simp add: fr_def)
  ultimately show ?thesis using fr pos loss price q(2) by auto
qed

section \<open>A concrete run\<close>

definition demo_risk_config :: risk_config where
  "demo_risk_config =
     \<lparr>risk_per_trade = 1 / 100, max_portfolio_risk = 5 / 100, max_daily_loss = 3 / 100,
      max_drawdown = 1 / 4, max_concurrent_positions = 1, max_leverage = 3, volatility_target = None\<rparr>"

definition lot_instrument :: "rat instrument" where
  "lot_instrument = \<lparr>make_qty = (\<lambda>down x. Inr (of_int \<lfloor>x\<rfloor>)), as_double = (\<lambda>q. q)\<rparr>"

lemma risk_daily_loss_ledger_witness:
  "re_daily_pnl (risk_closes (new_risk_engine demo_risk_config)
     ([(''a'', - 7, 0)] @ (''b'', - 2, 86400000000) # [(''c'', - 3, 5)])) = - 5"
  using risk_daily_loss_ledger [of "[(''a'', - 7, 0)]" 86400000000 "[(''c'', - 3, 5)]"]
  by (auto simp: utc_date_def)

lemma risk_approval_within_limits_witness:
  "\<exists>s' d. risk_evaluate lot_instrument (new_risk_engine demo_risk_config) 10 10000 0 None = (s', Inr d) \<and>
     rd_approved d \<and> as_double lot_instrument (rd_quantity d) * 10 \<le> 10000 * rd_risk_fraction d"
proof -
  obtain s' d where run: "risk_evaluate lot_instrument (new_risk_engine demo_risk_config) 10 10000 0 None
      = (s', Inr d)" "rd_approved d"
    by (simp add: risk_evaluate_def risk_roll_day_def risk_sized_def risk_target_def risk_open_sum_def
        new_risk_engine_def demo_risk_config_def lot_instrument_def Let_def)
  have "as_double lot_instrument q \<le> x" if "make_qty lot_instrument True x = Inr q" for x q
    using that by (simp add: lot_instrument_def) linarith
  from risk_approval_within_limits [OF run this] run show ?thesis by blast
qed

end
