(* ===== verification/Setup_Contracts.thy ===== *)
theory Setup_Contracts
  imports Prelude
begin

text \<open>
  Model of \<open>src/engines/contracts.py\<close>: the value objects the decision engines exchange and
  their \<open>__post_init__\<close> checks. A constructor function takes the raw fields and yields the
  object or the exception; validated objects hold \<open>rat\<close> numbers and UTC instants.
\<close>

datatype setup_action = LONG | SHORT | WAIT | ARBITRAGE
datatype leg_side = BUY | SELL
datatype data_quality_status = QualityPass | QualityDegraded | QualityFail
datatype confirmation_family =
  PriceAuction | OrderFlow | Derivatives | VolatilityOptions | CrossMarket | RegimeAnalog

section \<open>Parts of a setup\<close>

record 'n numeric_range =
  nr_low :: 'n
  nr_base :: 'n
  nr_high :: 'n

definition make_numeric_range :: "num numeric_range \<Rightarrow> rat numeric_range result" where
  "make_numeric_range r =
     (if \<not> (isfinite (nr_low r) \<and> isfinite (nr_base r) \<and> isfinite (nr_high r))
      then Inl (ValueError ''numeric range must be finite'')
      else if \<not> (num_le (nr_low r) (nr_base r) \<and> num_le (nr_base r) (nr_high r))
      then Inl (ValueError ''numeric range must be ordered low <= base <= high'')
      else Inr \<lparr>nr_low = num_val (nr_low r), nr_base = num_val (nr_base r), nr_high = num_val (nr_high r)\<rparr>)"

record market_target =
  mt_symbol :: string
  mt_venues :: "string list"

definition make_market_target :: "market_target \<Rightarrow> market_target result" where
  "make_market_target t =
     (if \<not> trimmed (mt_symbol t)
      then Inl (ValueError ''market target symbol must be non-empty and trimmed'')
      else if mt_venues t = [] \<or> list_ex (\<lambda>v. \<not> trimmed v) (mt_venues t)
      then Inl (ValueError ''market target requires trimmed venues'')
      else if \<not> distinct (map py_lower (mt_venues t))
      then Inl (ValueError ''market target venues must be unique'')
      else Inr t)"

record setup_leg =
  sl_symbol :: string
  sl_venue :: string
  sl_side :: leg_side

definition make_setup_leg :: "setup_leg \<Rightarrow> setup_leg result" where
  "make_setup_leg l =
     (if \<not> trimmed (sl_symbol l) \<or> \<not> trimmed (sl_venue l)
      then Inl (ValueError ''setup leg symbol and venue must be non-empty and trimmed'')
      else Inr l)"

record ('n, 't) family_evidence =
  fe_family :: confirmation_family
  fe_score :: 'n
  fe_confidence :: 'n
  fe_quality :: 'n
  fe_max_source :: 't
  fe_components :: "string list"
  fe_rationale :: string

definition unit_interval :: "num \<Rightarrow> bool" where
  "unit_interval v \<longleftrightarrow> isfinite v \<and> num_le (Fin 0) v \<and> num_le v (Fin 1)"

definition make_family_evidence :: "(num, pydatetime) family_evidence \<Rightarrow> (rat, int) family_evidence result" where
  "make_family_evidence f =
     (if \<not> isfinite (fe_score f) \<or> \<not> (num_le (Fin (- 1)) (fe_score f) \<and> num_le (fe_score f) (Fin 1))
      then Inl (ValueError ''family evidence score must be between -1 and 1'')
      else if \<not> unit_interval (fe_confidence f) \<or> \<not> unit_interval (fe_quality f)
      then Inl (ValueError ''family confidence and quality must be between zero and one'')
      else bindE (utc_of ''family source timestamp must be timezone-aware'' (fe_max_source f)) (\<lambda>t.
        if fe_components f = [] \<or> list_ex blank (fe_components f)
        then Inl (ValueError ''family evidence requires named components'')
        else if \<not> distinct (fe_components f)
        then Inl (ValueError ''family evidence components must be unique'')
        else if blank (fe_rationale f) then Inl (ValueError ''family evidence requires rationale'')
        else Inr \<lparr>fe_family = fe_family f, fe_score = num_val (fe_score f),
                  fe_confidence = num_val (fe_confidence f), fe_quality = num_val (fe_quality f),
                  fe_max_source = t, fe_components = fe_components f, fe_rationale = fe_rationale f\<rparr>))"

definition effective_score :: "(rat, int) family_evidence \<Rightarrow> rat" where
  "effective_score f = fe_score f * fe_confidence f * fe_quality f"

lemma effective_score_bounded:
  assumes "make_family_evidence raw = Inr f"
  shows "\<bar>effective_score f\<bar> \<le> 1"
proof -
  from assms have b: "\<bar>fe_score f\<bar> \<le> 1" "\<bar>fe_confidence f\<bar> \<le> 1" "\<bar>fe_quality f\<bar> \<le> 1"
    by (auto simp: make_family_evidence_def unit_interval_def bindE_eq_Inr isfinite_iff split: if_splits)
  then have "\<bar>fe_score f\<bar> * \<bar>fe_confidence f\<bar> * \<bar>fe_quality f\<bar> \<le> 1 * 1 * 1"
    by (intro mult_mono) auto
  then show ?thesis by (simp add: effective_score_def abs_mult)
qed

record engine_gate_state =
  gs_kill_switch_active :: bool
  gs_operational_healthy :: bool
  gs_promotion_eligible :: bool
  gs_promotion_state :: string
  gs_risk_approved :: bool
  gs_risk_reason :: string

definition make_engine_gate_state :: "engine_gate_state \<Rightarrow> engine_gate_state result" where
  "make_engine_gate_state g =
     (if blank (gs_promotion_state g) \<or> blank (gs_risk_reason g)
      then Inl (ValueError ''engine gate state requires promotion and risk reasons'')
      else Inr g)"

section \<open>The setup decision\<close>

record ('n, 't) setup_decision =
  sd_action :: setup_action
  sd_targets :: "market_target list"
  sd_legs :: "setup_leg list"
  sd_decision_at :: 't
  sd_data_cutoff :: 't
  sd_horizon :: string
  sd_evidence :: "(rat, int) family_evidence list"
  sd_regimes :: "(string \<times> string) list"
  sd_entry_condition :: string
  sd_invalidation :: string
  sd_stop_or_hedge :: string
  sd_expected_cost :: "rat numeric_range"
  sd_expected_value :: "rat numeric_range"
  sd_capacity :: 'n
  sd_quality :: data_quality_status
  sd_model_version :: string
  sd_feature_version :: string
  sd_reason_codes :: "string list"

definition target_pairs :: "market_target list \<Rightarrow> (string \<times> string) list" where
  "target_pairs ts = concat (map (\<lambda>t. map (\<lambda>v. (mt_symbol t, py_lower v)) (mt_venues t)) ts)"

text \<open>The checks on the legs against the action, from the WAIT branch to the end.\<close>

definition check_action :: "('n, 't) setup_decision \<Rightarrow> unit result" where
  "check_action s =
     (let sides = map sl_side (sd_legs s) in
      if sd_action s = WAIT \<and> sd_reason_codes s = []
      then Inl (ValueError ''WAIT requires at least one reason code'')
      else if sd_action s = WAIT \<and> sd_legs s \<noteq> []
      then Inl (ValueError ''WAIT cannot contain executable legs'')
      else if sd_action s \<noteq> WAIT \<and> sd_legs s = []
      then Inl (ValueError ''actionable setup requires execution legs'')
      else if sd_action s = LONG \<and> list_ex (\<lambda>x. x \<noteq> BUY) sides
      then Inl (ValueError ''LONG setup legs must buy'')
      else if sd_action s = SHORT \<and> list_ex (\<lambda>x. x \<noteq> SELL) sides
      then Inl (ValueError ''SHORT setup legs must sell'')
      else if sd_action s = ARBITRAGE \<and> (length (sd_legs s) < 2 \<or> set sides \<noteq> {BUY, SELL})
      then Inl (ValueError ''ARBITRAGE requires opposing buy and sell legs'')
      else if sd_action s \<noteq> WAIT \<and>
              (blank (sd_entry_condition s) \<or> blank (sd_invalidation s) \<or> blank (sd_stop_or_hedge s))
      then Inl (ValueError ''actionable setup requires entry, invalidation, and risk logic'')
      else Inr ())"

definition check_setup :: "('n, 't) setup_decision \<Rightarrow> int \<Rightarrow> int \<Rightarrow> num \<Rightarrow> unit result" where
  "check_setup s decision cutoff capacity =
     (if decision < cutoff then Inl (ValueError ''setup data cutoff cannot follow decision time'')
      else if \<not> distinct (map fe_family (sd_evidence s))
      then Inl (ValueError ''a setup may contain at most one vote per family'')
      else if list_ex (\<lambda>f. cutoff < fe_max_source f) (sd_evidence s)
      then Inl (ValueError ''setup evidence cannot follow the data cutoff'')
      else if sd_targets s = [] then Inl (ValueError ''setup requires at least one market target'')
      else if \<not> distinct (map mt_symbol (sd_targets s))
      then Inl (ValueError ''setup market targets must be unique by symbol'')
      else if list_ex (\<lambda>l. (sl_symbol l, py_lower (sl_venue l)) \<notin> set (target_pairs (sd_targets s))) (sd_legs s)
      then Inl (ValueError ''every setup leg must belong to a declared market target'')
      else if blank (sd_horizon s) \<or> blank (sd_model_version s) \<or> blank (sd_feature_version s)
      then Inl (ValueError ''setup requires horizon, model version, and feature version'')
      else if nr_low (sd_expected_cost s) < 0
      then Inl (ValueError ''expected cost range cannot be negative'')
      else if \<not> finite_nonneg capacity
      then Inl (ValueError ''setup capacity must be finite and non-negative'')
      else if sd_regimes s = [] \<or> list_ex (\<lambda>(n, v). blank n \<or> blank v) (sd_regimes s)
      then Inl (ValueError ''setup requires named regime domains and values'')
      else if \<not> distinct (map fst (sd_regimes s))
      then Inl (ValueError ''setup regime domains must be unique'')
      else check_action s)"

definition make_setup_decision :: "(num, pydatetime) setup_decision \<Rightarrow> (rat, int) setup_decision result" where
  "make_setup_decision s =
     bindE (utc_of ''decision timestamp must be timezone-aware'' (sd_decision_at s)) (\<lambda>decision.
     bindE (utc_of ''data cutoff must be timezone-aware'' (sd_data_cutoff s)) (\<lambda>cutoff.
     bindE (check_setup s decision cutoff (sd_capacity s)) (\<lambda>_.
     Inr \<lparr>sd_action = sd_action s, sd_targets = sd_targets s, sd_legs = sd_legs s,
          sd_decision_at = decision, sd_data_cutoff = cutoff, sd_horizon = sd_horizon s,
          sd_evidence = sd_evidence s, sd_regimes = sd_regimes s,
          sd_entry_condition = sd_entry_condition s, sd_invalidation = sd_invalidation s,
          sd_stop_or_hedge = sd_stop_or_hedge s, sd_expected_cost = sd_expected_cost s,
          sd_expected_value = sd_expected_value s, sd_capacity = num_val (sd_capacity s),
          sd_quality = sd_quality s, sd_model_version = sd_model_version s,
          sd_feature_version = sd_feature_version s, sd_reason_codes = sd_reason_codes s\<rparr>)))"

text \<open>What later components rely on in a constructed setup.\<close>

definition setup_ok :: "(rat, int) setup_decision \<Rightarrow> bool" where
  "setup_ok s \<longleftrightarrow>
     sd_data_cutoff s \<le> sd_decision_at s \<and>
     (\<forall>f \<in> set (sd_evidence s). fe_max_source f \<le> sd_data_cutoff s) \<and>
     sd_targets s \<noteq> [] \<and> distinct (map mt_symbol (sd_targets s)) \<and>
     0 \<le> sd_capacity s \<and>
     (sd_action s = WAIT \<longleftrightarrow> sd_legs s = []) \<and>
     (sd_action s = LONG \<longrightarrow> (\<forall>l \<in> set (sd_legs s). sl_side l = BUY)) \<and>
     (sd_action s = SHORT \<longrightarrow> (\<forall>l \<in> set (sd_legs s). sl_side l = SELL)) \<and>
     (sd_action s = ARBITRAGE \<longrightarrow> sl_side ` set (sd_legs s) = {BUY, SELL})"

lemma check_action_ok:
  "check_action s = Inr u \<Longrightarrow>
     (sd_action s = WAIT \<longleftrightarrow> sd_legs s = []) \<and>
     (sd_action s = LONG \<longrightarrow> (\<forall>l \<in> set (sd_legs s). sl_side l = BUY)) \<and>
     (sd_action s = SHORT \<longrightarrow> (\<forall>l \<in> set (sd_legs s). sl_side l = SELL)) \<and>
     (sd_action s = ARBITRAGE \<longrightarrow> sl_side ` set (sd_legs s) = {BUY, SELL})"
  by (cases "sd_action s") (auto simp: check_action_def Let_def list_ex_iff split: if_splits)

lemma check_setup_ok:
  "check_setup s decision cutoff capacity = Inr u \<Longrightarrow>
     cutoff \<le> decision \<and> (\<forall>f \<in> set (sd_evidence s). fe_max_source f \<le> cutoff) \<and>
     sd_targets s \<noteq> [] \<and> distinct (map mt_symbol (sd_targets s)) \<and>
     finite_nonneg capacity \<and> check_action s = Inr ()"
  by (auto simp: check_setup_def list_ex_iff not_less split: if_splits)

lemma make_setup_decision_ok:
  assumes "make_setup_decision raw = Inr s"
  shows "setup_ok s"
proof -
  obtain decision cutoff u where c: "check_setup raw decision cutoff (sd_capacity raw) = Inr u"
    and s: "sd_action s = sd_action raw" "sd_legs s = sd_legs raw" "sd_targets s = sd_targets raw"
      "sd_evidence s = sd_evidence raw" "sd_decision_at s = decision" "sd_data_cutoff s = cutoff"
      "sd_capacity s = num_val (sd_capacity raw)"
    using assms unfolding make_setup_decision_def bindE_eq_Inr sum.inject
    by (elim exE conjE, hypsubst) (rule that, simp_all)
  note ok = check_setup_ok [OF c]
  then have "check_action raw = Inr ()" by simp
  from check_action_ok [OF this] ok show ?thesis by (auto simp: setup_ok_def s)
qed

end
