(* ===== verification/Meta_Engine.thy ===== *)
theory Meta_Engine
  imports Setup_Contracts
begin

text \<open>
  Model of \<open>src/engines/meta.py\<close>: global gates, the ranking of candidate setups, the
  allocation under portfolio limits, the conflict check and the selection.
\<close>

datatype engine_kind = DIRECTIONAL | NEUTRAL | RESEARCH

record engine_candidate =
  ec_engine_id :: string
  ec_kind :: engine_kind
  ec_setup :: "(rat, int) setup_decision"
  ec_research_approved :: bool

definition make_engine_candidate :: "engine_candidate \<Rightarrow> engine_candidate result" where
  "make_engine_candidate c =
     (if blank (ec_engine_id c) then Inl (ValueError ''meta candidate requires engine id'') else Inr c)"

record 'n correlation_pair =
  cp_first :: string
  cp_second :: string
  cp_correlation :: 'n

definition make_correlation_pair :: "num correlation_pair \<Rightarrow> rat correlation_pair result" where
  "make_correlation_pair p =
     (if blank (cp_first p) \<or> blank (cp_second p) \<or> cp_first p = cp_second p \<or>
         \<not> isfinite (cp_correlation p) \<or>
         \<not> (num_le (Fin (- 1)) (cp_correlation p) \<and> num_le (cp_correlation p) (Fin 1))
      then Inl (ValueError ''invalid portfolio correlation pair'')
      else Inr \<lparr>cp_first = cp_first p, cp_second = cp_second p, cp_correlation = num_val (cp_correlation p)\<rparr>)"

record 'n meta_portfolio =
  mp_gross :: 'n
  mp_exposure :: "(string \<times> 'n) list"
  mp_correlations :: "rat correlation_pair list"
  mp_available_risk :: 'n
  mp_kill_switch_active :: bool
  mp_operational_healthy :: bool
  mp_risk_approved :: bool
  mp_risk_reason :: string

definition pair_key :: "'n correlation_pair \<Rightarrow> string \<times> string" where
  "pair_key p = (min (cp_first p) (cp_second p), max (cp_first p) (cp_second p))"

definition make_meta_portfolio :: "num meta_portfolio \<Rightarrow> rat meta_portfolio result" where
  "make_meta_portfolio m =
     (if list_ex (\<lambda>v. \<not> finite_nonneg v) (mp_gross m # mp_available_risk m # map snd (mp_exposure m))
      then Inl (ValueError ''meta portfolio exposures must be finite and non-negative'')
      else if list_ex (\<lambda>(s, _). blank s) (mp_exposure m) \<or> \<not> distinct (map fst (mp_exposure m))
      then Inl (ValueError ''meta portfolio symbols must be named and unique'')
      else if \<not> distinct (map pair_key (mp_correlations m))
      then Inl (ValueError ''meta portfolio correlation pairs must be unique'')
      else if blank (mp_risk_reason m) then Inl (ValueError ''meta portfolio risk reason is required'')
      else Inr \<lparr>mp_gross = num_val (mp_gross m),
                mp_exposure = map (\<lambda>(s, v). (s, num_val v)) (mp_exposure m),
                mp_correlations = mp_correlations m, mp_available_risk = num_val (mp_available_risk m),
                mp_kill_switch_active = mp_kill_switch_active m,
                mp_operational_healthy = mp_operational_healthy m,
                mp_risk_approved = mp_risk_approved m, mp_risk_reason = mp_risk_reason m\<rparr>)"

record 'n meta_config =
  mc_max_age_seconds :: 'n
  mc_max_gross :: 'n
  mc_max_symbol :: 'n
  mc_max_correlated :: 'n
  mc_correlation_threshold :: 'n
  mc_uncertainty_penalty :: 'n

definition make_meta_config :: "num meta_config \<Rightarrow> rat meta_config result" where
  "make_meta_config c =
     (if \<not> finite_positive (mc_max_age_seconds c) \<or> \<not> finite_positive (mc_max_gross c) \<or>
         \<not> finite_positive (mc_max_symbol c) \<or> \<not> finite_positive (mc_max_correlated c) \<or>
         \<not> (num_le (Fin 0) (mc_correlation_threshold c) \<and> num_le (mc_correlation_threshold c) (Fin 1)) \<or>
         \<not> finite_nonneg (mc_uncertainty_penalty c)
      then Inl (ValueError ''invalid Meta Engine configuration'')
      else Inr \<lparr>mc_max_age_seconds = num_val (mc_max_age_seconds c), mc_max_gross = num_val (mc_max_gross c),
                mc_max_symbol = num_val (mc_max_symbol c), mc_max_correlated = num_val (mc_max_correlated c),
                mc_correlation_threshold = num_val (mc_correlation_threshold c),
                mc_uncertainty_penalty = num_val (mc_uncertainty_penalty c)\<rparr>)"

record candidate_ranking =
  cr_engine_id :: string
  cr_kind :: engine_kind
  cr_action :: setup_action
  cr_eligible :: bool
  cr_score :: "rat option"
  cr_max_allocation :: rat
  cr_reason :: string

record meta_decision =
  md_action :: setup_action
  md_decided_at :: int
  md_engine_id :: "string option"
  md_setup :: "(rat, int) setup_decision option"
  md_allocated :: rat
  md_rankings :: "candidate_ranking list"
  md_reason_codes :: "string list"

definition make_meta_decision :: "meta_decision \<Rightarrow> meta_decision result" where
  "make_meta_decision d =
     (if md_action d = WAIT
      then (if md_setup d \<noteq> None \<or> md_engine_id d \<noteq> None
            then Inl (ValueError ''WAIT Meta Decision cannot select a setup'')
            else if md_reason_codes d = [] \<or> md_allocated d \<noteq> 0
            then Inl (ValueError ''WAIT Meta Decision requires reasons and zero allocation'')
            else Inr d)
      else (case (md_setup d, md_engine_id d) of
              (Some s, Some _) \<Rightarrow>
                if sd_action s \<noteq> md_action d \<or> md_allocated d \<le> 0
                then Inl (ValueError ''Meta Decision cannot alter action or allocate zero'')
                else Inr d
            | _ \<Rightarrow> Inl (ValueError ''actionable Meta Decision requires a selected setup'')))"

section \<open>Ranking\<close>

definition ineligible :: "engine_candidate \<Rightarrow> string \<Rightarrow> candidate_ranking" where
  "ineligible c reason =
     \<lparr>cr_engine_id = ec_engine_id c, cr_kind = ec_kind c, cr_action = sd_action (ec_setup c),
      cr_eligible = False, cr_score = None, cr_max_allocation = 0, cr_reason = reason\<rparr>"

definition global_gate_reason :: "rat meta_portfolio \<Rightarrow> string option" where
  "global_gate_reason m =
     (if mp_kill_switch_active m then Some ''GLOBAL_KILL_SWITCH_ACTIVE''
      else if \<not> mp_operational_healthy m then Some ''GLOBAL_OPERATIONAL_HEALTH_FAILED''
      else if \<not> mp_risk_approved m then Some (''GLOBAL_RISK_REJECTED:'' @ mp_risk_reason m)
      else if mp_available_risk m \<le> 0 then Some ''NO_AVAILABLE_PORTFOLIO_RISK''
      else None)"

definition correlation_of :: "string \<Rightarrow> string \<Rightarrow> rat correlation_pair list \<Rightarrow> rat" where
  "correlation_of a b ps =
     (case find (\<lambda>p. {cp_first p, cp_second p} = {a, b}) ps of
        Some p \<Rightarrow> cp_correlation p
      | None \<Rightarrow> 0)"

definition setup_symbols :: "('n, 't) setup_decision \<Rightarrow> string list" where
  "setup_symbols s = remdups (map mt_symbol (sd_targets s))"

definition correlation_coverage_complete :: "(rat, int) setup_decision \<Rightarrow> rat meta_portfolio \<Rightarrow> bool" where
  "correlation_coverage_complete s m =
     list_all (\<lambda>t. list_all (\<lambda>(x, amount).
        x \<in> set (setup_symbols s) \<or> amount = 0 \<or>
        list_ex (\<lambda>p. {cp_first p, cp_second p} = {t, x}) (mp_correlations m)) (mp_exposure m))
      (setup_symbols s)"

definition exposure_of :: "rat meta_portfolio \<Rightarrow> string \<Rightarrow> rat" where
  "exposure_of m x = dict_default (mp_exposure m) x 0"

definition correlated_exposure :: "rat meta_portfolio \<Rightarrow> rat meta_config \<Rightarrow> string \<Rightarrow> rat" where
  "correlated_exposure m c x =
     sum_list (map snd (filter (\<lambda>(y, _). y \<noteq> x \<and>
       mc_correlation_threshold c \<le> \<bar>correlation_of x y (mp_correlations m)\<bar>) (mp_exposure m)))"

text \<open>
  The allocation: capacity, risk and gross room, then the tightest symbol room and the
  correlated rooms, each times the number of symbols. Python iterates over a set; the
  minimum does not depend on the order.
\<close>

definition maximum_allocation :: "(rat, int) setup_decision \<Rightarrow> rat meta_portfolio \<Rightarrow> rat meta_config \<Rightarrow> rat" where
  "maximum_allocation s m c =
     (let syms = setup_symbols s;
          n = of_nat (length syms);
          a0 = min (min (sd_capacity s) (mp_available_risk m)) (max 0 (mc_max_gross c - mp_gross m));
          rooms = map (\<lambda>x. max 0 (mc_max_symbol c - exposure_of m x) * n) syms;
          correlated = map (\<lambda>x. max 0 (mc_max_correlated c - correlated_exposure m c x) * n) syms
      in if a0 / n \<le> 0 then 0 else min_list_from a0 (rooms @ correlated))"

definition risk_adjusted_score :: "(rat, int) setup_decision \<Rightarrow> rat meta_config \<Rightarrow> rat" where
  "risk_adjusted_score s c =
     nr_base (sd_expected_value s) -
     mc_uncertainty_penalty c * ((nr_high (sd_expected_value s) - nr_low (sd_expected_value s)) / 2)"

definition rank_candidate :: "engine_candidate \<Rightarrow> int \<Rightarrow> rat meta_portfolio \<Rightarrow> rat meta_config \<Rightarrow> candidate_ranking" where
  "rank_candidate x decision m c =
     (let s = ec_setup x; age = of_int (decision - sd_data_cutoff s) / 1000000;
          allocation = maximum_allocation s m c; score = risk_adjusted_score s c
      in if sd_action s = WAIT then ineligible x ''ENGINE_RETURNED_WAIT''
         else if \<not> ec_research_approved x then ineligible x ''RESEARCH_PROMOTION_NOT_APPROVED''
         else if sd_quality s \<noteq> QualityPass then ineligible x ''SETUP_DATA_QUALITY_NOT_PASS''
         else if decision < sd_decision_at s then ineligible x ''SETUP_FROM_FUTURE''
         else if age < 0 then ineligible x ''SETUP_FROM_FUTURE''
         else if mc_max_age_seconds c < age then ineligible x ''STALE_SETUP''
         else if \<not> correlation_coverage_complete s m then ineligible x ''MISSING_CORRELATION_EVIDENCE''
         else if allocation \<le> 0 then ineligible x ''PORTFOLIO_EXPOSURE_LIMIT''
         else if score \<le> 0 \<or> nr_low (sd_expected_value s) \<le> 0
         then ineligible x ''NON_POSITIVE_RISK_ADJUSTED_EDGE''
         else \<lparr>cr_engine_id = ec_engine_id x, cr_kind = ec_kind x, cr_action = sd_action s,
               cr_eligible = True, cr_score = Some score, cr_max_allocation = allocation,
               cr_reason = ''ELIGIBLE''\<rparr>)"

section \<open>Selection\<close>

definition candidate_by_id :: "engine_candidate list \<Rightarrow> string \<Rightarrow> engine_candidate option" where
  "candidate_by_id cs = map_of (rev (map (\<lambda>c. (ec_engine_id c, c)) cs))"

text \<open>Two eligible rankings, one LONG and one SHORT, whose setups target a common symbol.\<close>

definition has_directional_conflict :: "candidate_ranking list \<Rightarrow> engine_candidate list \<Rightarrow> bool" where
  "has_directional_conflict eligible cs =
     list_ex (\<lambda>r. cr_action r = LONG \<and>
       list_ex (\<lambda>q. cr_action q = SHORT \<and>
         (case (candidate_by_id cs (cr_engine_id r), candidate_by_id cs (cr_engine_id q)) of
            (Some x, Some y) \<Rightarrow>
              list_ex (\<lambda>t. t \<in> set (map mt_symbol (sd_targets (ec_setup y))))
                (map mt_symbol (sd_targets (ec_setup x)))
          | _ \<Rightarrow> False)) eligible) eligible"

definition wait_decision :: "int \<Rightarrow> candidate_ranking list \<Rightarrow> string \<Rightarrow> meta_decision result" where
  "wait_decision decision rankings reason =
     make_meta_decision
       \<lparr>md_action = WAIT, md_decided_at = decision, md_engine_id = None, md_setup = None,
        md_allocated = 0, md_rankings = rankings, md_reason_codes = [reason]\<rparr>"

text \<open>Best score first, ties by engine id; a missing score counts as minus infinity.\<close>

definition ranking_key :: "candidate_ranking \<Rightarrow> (bool \<times> rat) \<times> string" where
  "ranking_key r =
     (case cr_score r of None \<Rightarrow> (True, 0) | Some v \<Rightarrow> (False, - v), cr_engine_id r)"

definition evaluate_meta_candidates :: "engine_candidate list \<Rightarrow> pydatetime \<Rightarrow> rat meta_portfolio
    \<Rightarrow> rat meta_config \<Rightarrow> meta_decision result" where
  "evaluate_meta_candidates cs decided_at m c =
     bindE (utc_of ''meta decision timestamp must be timezone-aware'' decided_at) (\<lambda>decision.
       if \<not> distinct (map ec_engine_id cs)
       then Inl (ValueError ''Meta Engine candidate ids must be unique'')
       else (case global_gate_reason m of
         Some reason \<Rightarrow> wait_decision decision (map (\<lambda>x. ineligible x reason) cs) reason
       | None \<Rightarrow>
           (let rankings = map (\<lambda>x. rank_candidate x decision m c) cs;
                eligible = filter cr_eligible rankings
            in if eligible = [] then wait_decision decision rankings ''NO_ELIGIBLE_ENGINE_SETUP''
               else if has_directional_conflict eligible cs
               then wait_decision decision rankings ''CONFLICTING_DIRECTIONAL_SETUPS''
               else
                 (let best = hd (sort_key ranking_key eligible) in
                  case candidate_by_id cs (cr_engine_id best) of
                    None \<Rightarrow> Inl (KeyError ''engine id'')
                  | Some x \<Rightarrow>
                      make_meta_decision
                        \<lparr>md_action = sd_action (ec_setup x), md_decided_at = decision,
                         md_engine_id = Some (ec_engine_id x), md_setup = Some (ec_setup x),
                         md_allocated = cr_max_allocation best, md_rankings = rankings,
                         md_reason_codes = [''BEST_ELIGIBLE_EDGE_AFTER_COST_AND_UNCERTAINTY'']\<rparr>))))"

section \<open>The allocation\<close>

lemma positive_room: "a \<le> max 0 r * n \<Longrightarrow> 0 < a \<Longrightarrow> 0 < n \<Longrightarrow> a / n \<le> (r :: rat)"
  by (auto simp: max_def field_simps split: if_splits)

lemma maximum_allocation_rooms:
  assumes "0 < maximum_allocation s m c"
  defines "a \<equiv> maximum_allocation s m c" and "n \<equiv> of_nat (length (setup_symbols s)) :: rat"
  shows "a \<le> sd_capacity s" "a \<le> mp_available_risk m" "mp_gross m + a \<le> mc_max_gross c"
    "x \<in> set (setup_symbols s) \<Longrightarrow> exposure_of m x + a / n \<le> mc_max_symbol c"
    "x \<in> set (setup_symbols s) \<Longrightarrow> correlated_exposure m c x + a / n \<le> mc_max_correlated c"
proof -
  let ?a0 = "min (min (sd_capacity s) (mp_available_risk m)) (max 0 (mc_max_gross c - mp_gross m))"
  let ?rooms = "map (\<lambda>x. max 0 (mc_max_symbol c - exposure_of m x) * n) (setup_symbols s)"
  let ?corr = "map (\<lambda>x. max 0 (mc_max_correlated c - correlated_exposure m c x) * n) (setup_symbols s)"
  have pos: "0 < a" using assms(1) by (simp add: a_def)
  then have a: "a = min_list_from ?a0 (?rooms @ ?corr)"
    by (auto simp: a_def n_def maximum_allocation_def Let_def split: if_splits)
  have "a \<le> ?a0" unfolding a by (rule min_list_from_le_start)
  with pos show "a \<le> sd_capacity s" "a \<le> mp_available_risk m" "mp_gross m + a \<le> mc_max_gross c"
    by (auto simp: max_def min_def split: if_splits)
  assume x: "x \<in> set (setup_symbols s)"
  then have n: "0 < n" by (auto simp: n_def)
  have "a \<le> max 0 (mc_max_symbol c - exposure_of m x) * n"
    unfolding a by (rule min_list_from_le) (use x in auto)
  from positive_room [OF this pos n] show "exposure_of m x + a / n \<le> mc_max_symbol c" by simp
  have "a \<le> max 0 (mc_max_correlated c - correlated_exposure m c x) * n"
    unfolding a by (rule min_list_from_le) (use x in auto)
  from positive_room [OF this pos n] show "correlated_exposure m c x + a / n \<le> mc_max_correlated c" by simp
qed

text \<open>What an eligible ranking says about its candidate.\<close>

definition fit_candidate :: "engine_candidate \<Rightarrow> int \<Rightarrow> rat meta_portfolio \<Rightarrow> rat meta_config \<Rightarrow> bool" where
  "fit_candidate x decision m c \<longleftrightarrow>
     (let s = ec_setup x in
      sd_action s \<noteq> WAIT \<and> ec_research_approved x \<and> sd_quality s = QualityPass \<and>
      sd_decision_at s \<le> decision \<and> sd_data_cutoff s \<le> decision \<and>
      of_int (decision - sd_data_cutoff s) / 1000000 \<le> mc_max_age_seconds c \<and>
      correlation_coverage_complete s m \<and> 0 < maximum_allocation s m c \<and>
      0 < risk_adjusted_score s c \<and> 0 < nr_low (sd_expected_value s))"

lemma rank_candidate_eligible:
  "cr_eligible (rank_candidate x decision m c) \<Longrightarrow>
   fit_candidate x decision m c \<and>
   rank_candidate x decision m c =
     \<lparr>cr_engine_id = ec_engine_id x, cr_kind = ec_kind x, cr_action = sd_action (ec_setup x),
      cr_eligible = True, cr_score = Some (risk_adjusted_score (ec_setup x) c),
      cr_max_allocation = maximum_allocation (ec_setup x) m c, cr_reason = ''ELIGIBLE''\<rparr>"
  by (auto simp: rank_candidate_def ineligible_def fit_candidate_def Let_def not_less not_le split: if_splits)

lemma rank_candidate_fit: "fit_candidate x decision m c \<Longrightarrow> cr_eligible (rank_candidate x decision m c)"
  by (auto simp: rank_candidate_def fit_candidate_def Let_def not_less not_le)

lemma candidate_by_id_unique:
  "distinct (map ec_engine_id cs) \<Longrightarrow> x \<in> set cs \<Longrightarrow> candidate_by_id cs (ec_engine_id x) = Some x"
proof -
  assume d: "distinct (map ec_engine_id cs)" and x: "x \<in> set cs"
  have "dict_ok (rev (map (\<lambda>c. (ec_engine_id c, c)) cs))"
    using d by (simp add: rev_map [symmetric] comp_def)
  with x show ?thesis
    unfolding candidate_by_id_def by (intro map_of_is_SomeI) auto
qed

lemma hd_sort_key_min:
  assumes "xs \<noteq> []" "x \<in> set xs"
  shows "hd (sort_key k xs) \<in> set xs" "k (hd (sort_key k xs)) \<le> (k x :: 'b::linorder)"
proof -
  have ne: "sort_key k xs \<noteq> []" using assms(1) by (metis length_0_conv length_sort)
  then have "hd (sort_key k xs) \<in> set (sort_key k xs)" by (rule hd_in_set)
  then show "hd (sort_key k xs) \<in> set xs" by simp
  have "sorted (map k (sort_key k xs))" "x \<in> set (sort_key k xs)" using assms(2) by simp_all
  then show "k (hd (sort_key k xs)) \<le> k x" by (cases "sort_key k xs") auto
qed

section \<open>The outcomes of an evaluation\<close>

lemma evaluate_meta_cases:
  assumes "evaluate_meta_candidates cs (Aware decision) m c = r" "distinct (map ec_engine_id cs)"
  obtains (gated) reason where "global_gate_reason m = Some reason"
      "r = wait_decision decision (map (\<lambda>x. ineligible x reason) cs) reason"
  | (waits) reason where "global_gate_reason m = None"
      "r = wait_decision decision (map (\<lambda>x. rank_candidate x decision m c) cs) reason"
      "(\<forall>x \<in> set cs. \<not> fit_candidate x decision m c) \<or>
       has_directional_conflict (filter cr_eligible (map (\<lambda>x. rank_candidate x decision m c) cs)) cs"
  | (selects) x where "global_gate_reason m = None" "x \<in> set cs" "fit_candidate x decision m c"
      "\<not> has_directional_conflict (filter cr_eligible (map (\<lambda>x. rank_candidate x decision m c) cs)) cs"
      "\<forall>y \<in> set cs. fit_candidate y decision m c \<longrightarrow>
         ranking_key (rank_candidate x decision m c) \<le> ranking_key (rank_candidate y decision m c)"
      "r = Inr \<lparr>md_action = sd_action (ec_setup x), md_decided_at = decision,
                md_engine_id = Some (ec_engine_id x), md_setup = Some (ec_setup x),
                md_allocated = maximum_allocation (ec_setup x) m c,
                md_rankings = map (\<lambda>x. rank_candidate x decision m c) cs,
                md_reason_codes = [''BEST_ELIGIBLE_EDGE_AFTER_COST_AND_UNCERTAINTY'']\<rparr>"
proof (cases "global_gate_reason m")
  case (Some reason)
  with assms gated show thesis by (auto simp: evaluate_meta_candidates_def)
next
  case None
  let ?rk = "\<lambda>x. rank_candidate x decision m c"
  let ?el = "filter cr_eligible (map ?rk cs)"
  show thesis
  proof (cases "?el = [] \<or> has_directional_conflict ?el cs")
    case True
    then have "(\<forall>x \<in> set cs. \<not> fit_candidate x decision m c) \<or> has_directional_conflict ?el cs"
      using rank_candidate_fit by (auto simp: filter_empty_conv)
    moreover obtain reason where "r = wait_decision decision (map ?rk cs) reason"
      using assms None True by (auto simp: evaluate_meta_candidates_def Let_def split: if_splits)
    ultimately show thesis using waits [OF None] by blast
  next
    case False
    let ?best = "hd (sort_key ranking_key ?el)"
    from False obtain z where z: "z \<in> set ?el" by (cases ?el) auto
    have ne: "?el \<noteq> []" using False by simp
    have "?best \<in> set ?el" using hd_sort_key_min(1) [OF ne z] .
    then obtain x where x: "x \<in> set cs" "?best = ?rk x" "cr_eligible (?rk x)" by auto
    note fit = rank_candidate_eligible [OF x(3)]
    have "ranking_key (?rk x) \<le> ranking_key (?rk y)" if "y \<in> set cs" "fit_candidate y decision m c" for y
      using hd_sort_key_min(2) [OF ne, of "?rk y" ranking_key] that rank_candidate_fit x(2) by auto
    moreover have "candidate_by_id cs (cr_engine_id ?best) = Some x"
      using candidate_by_id_unique [OF assms(2) x(1)] x(2) fit by simp
    moreover have "cr_max_allocation ?best = maximum_allocation (ec_setup x) m c"
      using x(2) fit by simp
    moreover have "r = make_meta_decision
        \<lparr>md_action = sd_action (ec_setup x), md_decided_at = decision,
         md_engine_id = Some (ec_engine_id x), md_setup = Some (ec_setup x),
         md_allocated = maximum_allocation (ec_setup x) m c, md_rankings = map ?rk cs,
         md_reason_codes = [''BEST_ELIGIBLE_EDGE_AFTER_COST_AND_UNCERTAINTY'']\<rparr>"
      using assms None False calculation(2,3) by (simp add: evaluate_meta_candidates_def Let_def)
    ultimately show thesis
      using fit False x(1) None
      by (intro selects [of x]) (auto simp: make_meta_decision_def fit_candidate_def Let_def)
  qed
qed

lemma wait_decision_Inr:
  "wait_decision decision rankings reason = Inr d \<Longrightarrow> md_action d = WAIT \<and> md_allocated d = 0 \<and> md_setup d = None"
  "\<exists>d. wait_decision decision rankings reason = Inr d \<and> md_action d = WAIT \<and> md_allocated d = 0"
  by (auto simp: wait_decision_def make_meta_decision_def)

section \<open>Properties\<close>

text \<open>
  C22. The Meta Engine only reduces or rejects. A decision that is not WAIT passes on the
  setup and the action of one candidate unchanged; that candidate is research-approved, of
  passing data quality, within the maximum age and free of evidence from after the decision;
  the allocation is positive and within capacity, available risk, gross, symbol and
  correlated limits, the last two per symbol of an equal split.
\<close>

theorem meta_allocation_within_limits:
  assumes "evaluate_meta_candidates cs (Aware decision) m c = Inr d" "md_action d \<noteq> WAIT"
    and "\<And>x. x \<in> set cs \<Longrightarrow> setup_ok (ec_setup x)"
  shows "\<exists>x \<in> set cs. md_setup d = Some (ec_setup x) \<and> md_engine_id d = Some (ec_engine_id x) \<and>
    md_action d = sd_action (ec_setup x) \<and> ec_research_approved x \<and> sd_quality (ec_setup x) = QualityPass \<and>
    (\<forall>f \<in> set (sd_evidence (ec_setup x)). fe_max_source f \<le> decision) \<and>
    of_int (decision - sd_data_cutoff (ec_setup x)) / 1000000 \<le> mc_max_age_seconds c \<and>
    0 < md_allocated d \<and> md_allocated d \<le> sd_capacity (ec_setup x) \<and>
    md_allocated d \<le> mp_available_risk m \<and> mp_gross m + md_allocated d \<le> mc_max_gross c \<and>
    (\<forall>s \<in> set (setup_symbols (ec_setup x)).
       exposure_of m s + md_allocated d / of_nat (length (setup_symbols (ec_setup x))) \<le> mc_max_symbol c \<and>
       correlated_exposure m c s + md_allocated d / of_nat (length (setup_symbols (ec_setup x)))
         \<le> mc_max_correlated c)"
proof -
  have "distinct (map ec_engine_id cs)"
    using assms(1) by (auto simp: evaluate_meta_candidates_def split: if_splits)
  from assms(1) this show ?thesis
  proof (cases rule: evaluate_meta_cases)
    case (selects x)
    then have d: "d = \<lparr>md_action = sd_action (ec_setup x), md_decided_at = decision,
        md_engine_id = Some (ec_engine_id x), md_setup = Some (ec_setup x),
        md_allocated = maximum_allocation (ec_setup x) m c,
        md_rankings = map (\<lambda>x. rank_candidate x decision m c) cs,
        md_reason_codes = [''BEST_ELIGIBLE_EDGE_AFTER_COST_AND_UNCERTAINTY'']\<rparr>" by simp
    have fit: "ec_research_approved x" "sd_quality (ec_setup x) = QualityPass"
        "sd_data_cutoff (ec_setup x) \<le> decision"
        "of_int (decision - sd_data_cutoff (ec_setup x)) / 1000000 \<le> mc_max_age_seconds c"
        "0 < maximum_allocation (ec_setup x) m c"
      using selects(3) by (simp_all add: fit_candidate_def Let_def)
    have "\<forall>f \<in> set (sd_evidence (ec_setup x)). fe_max_source f \<le> decision"
      using assms(3) [OF selects(2)] fit(3) by (fastforce simp: setup_ok_def)
    with fit maximum_allocation_rooms [OF fit(5)] selects(2) show ?thesis
      by (intro bexI [of _ x]) (auto simp: d)
  qed (use assms(2) in \<open>auto dest!: sym [of "Inr d"] wait_decision_Inr(1)\<close>)
qed

text \<open>
  The selected candidate has the best score after cost and uncertainty among all
  candidates that pass every gate.
\<close>

theorem meta_selects_best:
  assumes "evaluate_meta_candidates cs (Aware decision) m c = Inr d" "md_setup d = Some s"
    and "y \<in> set cs" "cr_eligible (rank_candidate y decision m c)"
  shows "risk_adjusted_score (ec_setup y) c \<le> risk_adjusted_score s c"
proof -
  have "distinct (map ec_engine_id cs)"
    using assms(1) by (auto simp: evaluate_meta_candidates_def split: if_splits)
  from assms(1) this show ?thesis
  proof (cases rule: evaluate_meta_cases)
    case (selects x)
    then have s: "s = ec_setup x" using assms(2) by simp
    have "ranking_key (rank_candidate x decision m c) \<le> ranking_key (rank_candidate y decision m c)"
      using selects(5) assms(3) rank_candidate_eligible [OF assms(4)] by blast
    then show ?thesis
      using rank_candidate_eligible [OF assms(4)]
        rank_candidate_eligible [OF rank_candidate_fit [OF selects(3)]]
      by (auto simp: s ranking_key_def less_eq_prod_def less_prod_def)
  qed (use assms(2) in \<open>auto dest!: sym [of "Inr d"] wait_decision_Inr(1)\<close>)
qed

text \<open>
  With unique engine ids and an aware time stamp the evaluation always returns a
  decision, and a LONG and a SHORT eligible candidate that target a common symbol make it
  WAIT with nothing allocated.
\<close>

theorem meta_total_and_conflict_waits:
  assumes "distinct (map ec_engine_id cs)" "x \<in> set cs" "y \<in> set cs"
    "cr_eligible (rank_candidate x decision m c)" "cr_eligible (rank_candidate y decision m c)"
    "sd_action (ec_setup x) = LONG" "sd_action (ec_setup y) = SHORT"
    "t \<in> set (sd_targets (ec_setup x))" "u \<in> set (sd_targets (ec_setup y))" "mt_symbol t = mt_symbol u"
  shows "\<exists>d. evaluate_meta_candidates cs (Aware decision) m c = Inr d \<and> md_action d = WAIT \<and> md_allocated d = 0"
proof -
  let ?rk = "\<lambda>x. rank_candidate x decision m c"
  have el: "?rk x \<in> set (filter cr_eligible (map ?rk cs))" "?rk y \<in> set (filter cr_eligible (map ?rk cs))"
    using assms(2-5) by auto
  have "has_directional_conflict (filter cr_eligible (map ?rk cs)) cs"
    unfolding has_directional_conflict_def list_ex_iff
    by (rule bexI [OF _ el(1)], rule conjI, use rank_candidate_eligible [OF assms(4)] assms(6) in simp,
        rule bexI [OF _ el(2)])
      (use rank_candidate_eligible [OF assms(4)] rank_candidate_eligible [OF assms(5)] assms
        candidate_by_id_unique [OF assms(1,2)] candidate_by_id_unique [OF assms(1,3)]
        in \<open>auto intro: image_eqI [of _ mt_symbol] bexI [of _ t]\<close>)
  then show ?thesis
    by (cases rule: evaluate_meta_cases [where decision = decision and m = m and c = c, OF refl assms(1)])
      (auto simp: wait_decision_Inr(2))
qed

section \<open>A concrete selection\<close>

definition demo_setup :: "setup_action \<Rightarrow> rat \<Rightarrow> (rat, int) setup_decision" where
  "demo_setup action value =
     \<lparr>sd_action = action, sd_targets = [\<lparr>mt_symbol = ''BTC'', mt_venues = [''bybit'']\<rparr>],
      sd_legs = [\<lparr>sl_symbol = ''BTC'', sl_venue = ''bybit'', sl_side = (if action = LONG then BUY else SELL)\<rparr>],
      sd_decision_at = 5, sd_data_cutoff = 4, sd_horizon = ''1h'', sd_evidence = [],
      sd_regimes = [(''trend'', ''up'')], sd_entry_condition = ''x'', sd_invalidation = ''y'',
      sd_stop_or_hedge = ''z'', sd_expected_cost = \<lparr>nr_low = 1, nr_base = 1, nr_high = 1\<rparr>,
      sd_expected_value = \<lparr>nr_low = value, nr_base = value, nr_high = value\<rparr>, sd_capacity = 100,
      sd_quality = QualityPass, sd_model_version = ''m'', sd_feature_version = ''f'', sd_reason_codes = []\<rparr>"

definition demo_candidate :: "string \<Rightarrow> setup_action \<Rightarrow> rat \<Rightarrow> engine_candidate" where
  "demo_candidate name action value =
     \<lparr>ec_engine_id = name, ec_kind = DIRECTIONAL, ec_setup = demo_setup action value,
      ec_research_approved = True\<rparr>"

definition demo_meta_portfolio :: "rat meta_portfolio" where
  "demo_meta_portfolio =
     \<lparr>mp_gross = 10, mp_exposure = [(''ETH'', 10)],
      mp_correlations = [\<lparr>cp_first = ''BTC'', cp_second = ''ETH'', cp_correlation = 8 / 10\<rparr>],
      mp_available_risk = 70, mp_kill_switch_active = False, mp_operational_healthy = True,
      mp_risk_approved = True, mp_risk_reason = ''ok''\<rparr>"

definition demo_meta_config :: "rat meta_config" where
  "demo_meta_config =
     \<lparr>mc_max_age_seconds = 30, mc_max_gross = 1000, mc_max_symbol = 300, mc_max_correlated = 50,
      mc_correlation_threshold = 7 / 10, mc_uncertainty_penalty = 1 / 2\<rparr>"

lemma demo_setup_ok: "action = LONG \<or> action = SHORT \<Longrightarrow> setup_ok (demo_setup action value)"
  by (auto simp: setup_ok_def demo_setup_def)

lemma demo_maximum_allocation:
  "maximum_allocation (demo_setup action value) demo_meta_portfolio demo_meta_config = 40"
  by (simp add: maximum_allocation_def Let_def setup_symbols_def demo_setup_def demo_meta_portfolio_def
      demo_meta_config_def exposure_of_def dict_default_def correlated_exposure_def correlation_of_def
      insert_commute)

lemma demo_rank:
  assumes "action = LONG \<or> action = SHORT" "0 < value"
  shows "rank_candidate (demo_candidate name action value) 9 demo_meta_portfolio demo_meta_config =
    \<lparr>cr_engine_id = name, cr_kind = DIRECTIONAL, cr_action = action, cr_eligible = True,
     cr_score = Some value, cr_max_allocation = 40, cr_reason = ''ELIGIBLE''\<rparr>"
proof -
  let ?s = "demo_setup action value"
  have s: "sd_action ?s = action" "sd_quality ?s = QualityPass" "sd_decision_at ?s = 5" "sd_data_cutoff ?s = 4"
    "nr_low (sd_expected_value ?s) = value"
    by (simp_all add: demo_setup_def)
  have sc: "risk_adjusted_score ?s demo_meta_config = value"
    by (simp add: risk_adjusted_score_def demo_setup_def)
  have cov: "correlation_coverage_complete ?s demo_meta_portfolio"
    by (simp add: correlation_coverage_complete_def setup_symbols_def demo_setup_def demo_meta_portfolio_def)
  have age: "mc_max_age_seconds demo_meta_config = 30" by (simp add: demo_meta_config_def)
  have c: "ec_setup (demo_candidate name action value) = ?s" "ec_research_approved (demo_candidate name action value)"
    "ec_engine_id (demo_candidate name action value) = name" "ec_kind (demo_candidate name action value) = DIRECTIONAL"
    by (simp_all add: demo_candidate_def)
  show ?thesis
    using assms by (auto simp: rank_candidate_def Let_def c s sc cov age demo_maximum_allocation)
qed

definition demo_candidates :: "engine_candidate list" where
  "demo_candidates = [demo_candidate ''a'' LONG 3, demo_candidate ''b'' LONG 5]"

lemma demo_meta_run:
  "\<exists>d. evaluate_meta_candidates demo_candidates (Aware 9) demo_meta_portfolio demo_meta_config = Inr d \<and>
     md_action d = LONG \<and> md_setup d = Some (demo_setup LONG 5) \<and> md_allocated d = 40"
proof -
  have gate: "global_gate_reason demo_meta_portfolio = None"
    by (simp add: global_gate_reason_def demo_meta_portfolio_def)
  have parts: "ec_engine_id (demo_candidate n a v) = n" "ec_setup (demo_candidate n a v) = demo_setup a v"
    "sd_action (demo_setup a v) = a" for n a v
    by (simp_all add: demo_candidate_def demo_setup_def)
  have by_id: "candidate_by_id demo_candidates ''b'' = Some (demo_candidate ''b'' LONG 5)"
    by (simp add: candidate_by_id_def demo_candidates_def parts)
  then show ?thesis
    by (simp add: evaluate_meta_candidates_def gate demo_rank parts Let_def make_meta_decision_def
        has_directional_conflict_def ranking_key_def demo_candidates_def)
qed

lemma meta_allocation_within_limits_witness:
  "\<exists>d. evaluate_meta_candidates demo_candidates (Aware 9) demo_meta_portfolio demo_meta_config = Inr d \<and>
     md_allocated d = 40 \<and> md_allocated d \<le> mp_available_risk demo_meta_portfolio"
proof -
  obtain d where d: "evaluate_meta_candidates demo_candidates (Aware 9) demo_meta_portfolio demo_meta_config = Inr d"
      "md_action d = LONG" "md_allocated d = 40" using demo_meta_run by blast
  have "setup_ok (ec_setup x)" if "x \<in> set demo_candidates" for x
    using that demo_setup_ok by (auto simp: demo_candidates_def demo_candidate_def)
  from meta_allocation_within_limits [OF d(1) _ this] d show ?thesis by auto
qed

lemma meta_selects_best_witness:
  "\<exists>d s. evaluate_meta_candidates demo_candidates (Aware 9) demo_meta_portfolio demo_meta_config = Inr d \<and>
     md_setup d = Some s \<and>
     risk_adjusted_score (demo_setup LONG 3) demo_meta_config \<le> risk_adjusted_score s demo_meta_config"
proof -
  obtain d where d: "evaluate_meta_candidates demo_candidates (Aware 9) demo_meta_portfolio demo_meta_config = Inr d"
      "md_setup d = Some (demo_setup LONG 5)" using demo_meta_run by blast
  from meta_selects_best [OF d, of "demo_candidate ''a'' LONG 3"] d show ?thesis
    by (auto simp: demo_candidates_def demo_rank) (simp add: demo_candidate_def)
qed

lemma meta_total_and_conflict_waits_witness:
  "\<exists>d. evaluate_meta_candidates [demo_candidate ''a'' LONG 3, demo_candidate ''b'' SHORT 5] (Aware 9)
      demo_meta_portfolio demo_meta_config = Inr d \<and> md_action d = WAIT \<and> md_allocated d = 0"
  by (rule meta_total_and_conflict_waits
        [where x = "demo_candidate ''a'' LONG 3" and y = "demo_candidate ''b'' SHORT 5"
          and t = "\<lparr>mt_symbol = ''BTC'', mt_venues = [''bybit'']\<rparr>"
          and u = "\<lparr>mt_symbol = ''BTC'', mt_venues = [''bybit'']\<rparr>"])
    (auto simp: demo_rank, simp_all add: demo_candidate_def demo_setup_def)

end
