(* ===== verification/Demo_Risk.thy ===== *)
theory Demo_Risk
  imports Setup_Contracts
begin

text \<open>
  Model of \<open>src/execution/demo_autonomous_risk.py\<close>: configuration checks, position sizing,
  the exit decision, the volatility-scaled exits and the daily loss limit; with the two
  snapshots of \<open>src/execution/bybit_demo_gateway.py\<close> the sizing reads. A \<open>Decimal\<close> is
  \<open>num\<close> before validation and \<open>rat\<close> after it; the 28-digit rounding of the decimal
  context and the float conversions are not modelled.
\<close>

section \<open>Configuration\<close>

record 'd demo_risk_config =
  dc_leverage :: int
  dc_margin_fraction :: 'd
  dc_max_open_positions :: int
  dc_max_trades_per_day :: int
  dc_stop_loss_bps :: 'd
  dc_take_profit_bps :: 'd
  dc_max_holding_seconds :: int
  dc_cooldown_seconds :: int
  dc_max_daily_loss_fraction :: 'd

definition make_demo_risk_config :: "num demo_risk_config \<Rightarrow> rat demo_risk_config result" where
  "make_demo_risk_config c =
     (if dc_leverage c \<noteq> 100
      then Inl (ValueError ''operator-selected autonomous Demo leverage must be exactly 100x'')
      else if dc_margin_fraction c \<noteq> Fin (1 / 100)
      then Inl (ValueError ''operator-selected autonomous Demo margin must be exactly 1%'')
      else if dc_max_open_positions c \<noteq> 1
      then Inl (ValueError ''autonomous Demo permits exactly one open position'')
      else if list_ex (\<lambda>v. \<not> finite_positive v)
                [dc_stop_loss_bps c, dc_take_profit_bps c, dc_max_daily_loss_fraction c]
      then Inl (ValueError ''autonomous Demo risk thresholds must be positive'')
      else if num_le (Fin 100) (dc_stop_loss_bps c)
      then Inl (ValueError ''100x Demo stop must remain below a 1% price move'')
      else if dc_max_trades_per_day c < 1 \<or> dc_max_holding_seconds c < 1 \<or> dc_cooldown_seconds c < 0
      then Inl (ValueError ''invalid autonomous Demo time/trade limits'')
      else Inr \<lparr>dc_leverage = dc_leverage c, dc_margin_fraction = num_val (dc_margin_fraction c),
                dc_max_open_positions = dc_max_open_positions c,
                dc_max_trades_per_day = dc_max_trades_per_day c,
                dc_stop_loss_bps = num_val (dc_stop_loss_bps c),
                dc_take_profit_bps = num_val (dc_take_profit_bps c),
                dc_max_holding_seconds = dc_max_holding_seconds c,
                dc_cooldown_seconds = dc_cooldown_seconds c,
                dc_max_daily_loss_fraction = num_val (dc_max_daily_loss_fraction c)\<rparr>)"

definition default_demo_risk_config :: "num demo_risk_config" where
  "default_demo_risk_config =
     \<lparr>dc_leverage = 100, dc_margin_fraction = Fin (1 / 100), dc_max_open_positions = 1,
      dc_max_trades_per_day = 6, dc_stop_loss_bps = Fin 20, dc_take_profit_bps = Fin 30,
      dc_max_holding_seconds = 1800, dc_cooldown_seconds = 900, dc_max_daily_loss_fraction = Fin (1 / 100)\<rparr>"

definition demo_risk_config_ok :: "rat demo_risk_config \<Rightarrow> bool" where
  "demo_risk_config_ok c \<longleftrightarrow>
     dc_leverage c = 100 \<and> dc_margin_fraction c = 1 / 100 \<and> dc_max_open_positions c = 1 \<and>
     0 < dc_stop_loss_bps c \<and> dc_stop_loss_bps c < 100 \<and> 0 < dc_take_profit_bps c \<and>
     0 < dc_max_daily_loss_fraction c \<and> 1 \<le> dc_max_trades_per_day c \<and>
     1 \<le> dc_max_holding_seconds c \<and> 0 \<le> dc_cooldown_seconds c"

lemma make_demo_risk_config_ok: "make_demo_risk_config c = Inr d \<Longrightarrow> demo_risk_config_ok d"
  by (auto simp: make_demo_risk_config_def demo_risk_config_ok_def split: if_splits)

section \<open>Sizing\<close>

record 'd demo_balance =
  db_total_equity :: 'd
  db_total_wallet :: 'd
  db_total_available :: 'd

definition make_demo_balance :: "num demo_balance \<Rightarrow> rat demo_balance result" where
  "make_demo_balance b =
     (if list_ex (\<lambda>v. \<not> finite_nonneg v) [db_total_equity b, db_total_wallet b, db_total_available b]
      then Inl (Raised BybitDemoGatewayError ''invalid Demo account balance'')
      else Inr \<lparr>db_total_equity = num_val (db_total_equity b), db_total_wallet = num_val (db_total_wallet b),
                db_total_available = num_val (db_total_available b)\<rparr>)"

record 'd linear_instrument =
  li_symbol :: string
  li_last_price :: 'd
  li_quantity_step :: 'd
  li_min_quantity :: 'd

definition make_linear_instrument :: "num linear_instrument \<Rightarrow> rat linear_instrument result" where
  "make_linear_instrument i =
     (if blank (li_symbol i) \<or> \<not> finite_positive (li_last_price i) \<or>
         \<not> finite_positive (li_quantity_step i) \<or> \<not> finite_positive (li_min_quantity i)
      then Inl (Raised BybitDemoGatewayError ''invalid Bybit public instrument snapshot'')
      else Inr \<lparr>li_symbol = li_symbol i, li_last_price = num_val (li_last_price i),
                li_quantity_step = num_val (li_quantity_step i), li_min_quantity = num_val (li_min_quantity i)\<rparr>)"

definition linear_instrument_ok :: "rat linear_instrument \<Rightarrow> bool" where
  "linear_instrument_ok i \<longleftrightarrow> 0 < li_last_price i \<and> 0 < li_quantity_step i \<and> 0 < li_min_quantity i"

lemma make_linear_instrument_ok: "make_linear_instrument i = Inr j \<Longrightarrow> linear_instrument_ok j"
  by (auto simp: make_linear_instrument_def linear_instrument_ok_def split: if_splits)

record demo_sizing =
  dz_account_equity :: rat
  dz_sizing_capital :: rat
  dz_target_margin :: rat
  dz_target_notional :: rat
  dz_quantity :: rat
  dz_estimated_notional :: rat
  dz_estimated_margin :: rat

definition make_demo_sizing :: "demo_sizing \<Rightarrow> demo_sizing result" where
  "make_demo_sizing z =
     (if list_ex (\<lambda>v. v \<le> 0) [dz_account_equity z, dz_sizing_capital z, dz_target_margin z,
           dz_target_notional z, dz_quantity z, dz_estimated_notional z, dz_estimated_margin z]
      then Inl (ValueError ''autonomous Demo sizing values must be positive'')
      else if dz_target_margin z < dz_estimated_margin z
      then Inl (ValueError ''quantized Demo order exceeds the 1% margin envelope'')
      else Inr z)"

definition deployable_capital :: "rat demo_balance \<Rightarrow> rat" where
  "deployable_capital b = min (db_total_equity b) (db_total_available b)"

text \<open>
  The quantity is rounded down to a multiple of the step; the operands are positive, so
  \<open>ROUND_DOWN\<close> is the floor.
\<close>

definition size_autonomous_demo_trade :: "rat demo_balance \<Rightarrow> rat linear_instrument
    \<Rightarrow> rat demo_risk_config \<Rightarrow> demo_sizing result" where
  "size_autonomous_demo_trade b i c =
     (let equity = db_total_equity b;
          capital = deployable_capital b
      in if capital \<le> 0 then Inl (ValueError ''autonomous Demo deployable capital must be positive'')
         else
           (let margin = capital * dc_margin_fraction c;
                notional = margin * of_int (dc_leverage c);
                raw_quantity = notional / li_last_price i;
                quantity = of_int \<lfloor>raw_quantity / li_quantity_step i\<rfloor> * li_quantity_step i
            in if quantity < li_min_quantity i
               then Inl (ValueError ''1% Demo margin is below the venue minimum order quantity'')
               else
                 (let actual_notional = quantity * li_last_price i;
                      actual_margin = actual_notional / of_int (dc_leverage c)
                  in make_demo_sizing
                       \<lparr>dz_account_equity = equity, dz_sizing_capital = capital, dz_target_margin = margin,
                        dz_target_notional = notional, dz_quantity = quantity,
                        dz_estimated_notional = actual_notional, dz_estimated_margin = actual_margin\<rparr>)))"

section \<open>Exits\<close>

datatype demo_exit_reason = STOP_LOSS | TAKE_PROFIT | MAX_HOLDING_TIME

definition autonomous_demo_exit_reason :: "setup_action \<Rightarrow> num \<Rightarrow> num \<Rightarrow> pydatetime \<Rightarrow> pydatetime
    \<Rightarrow> rat demo_risk_config \<Rightarrow> num option \<Rightarrow> num option \<Rightarrow> demo_exit_reason option result" where
  "autonomous_demo_exit_reason action entry_price current_price opened_at now_at c stop_override target_override =
     (let stop = (case stop_override of Some v \<Rightarrow> v | None \<Rightarrow> Fin (dc_stop_loss_bps c));
          target = (case target_override of Some v \<Rightarrow> v | None \<Rightarrow> Fin (dc_take_profit_bps c))
      in if \<not> finite_positive stop
         then Inl (ValueError ''autonomous Demo effective stop-loss must be positive'')
         else if \<not> finite_positive target
         then Inl (ValueError ''autonomous Demo effective take-profit must be positive'')
         else if action \<noteq> LONG \<and> action \<noteq> SHORT
         then Inl (ValueError ''autonomous Demo exit requires LONG or SHORT'')
         else if \<not> finite_positive entry_price \<or> \<not> finite_positive current_price
         then Inl (ValueError ''autonomous Demo exit prices must be positive'')
         else
           bindE (utc_of ''autonomous Demo opened timestamp must be timezone-aware'' opened_at) (\<lambda>opened.
           bindE (utc_of ''autonomous Demo exit timestamp must be timezone-aware'' now_at) (\<lambda>now.
             if now < opened then Inl (ValueError ''autonomous Demo exit cannot precede entry'')
             else
               (let direction = (if action = LONG then 1 else - 1);
                    return_bps = direction * (num_val current_price / num_val entry_price - 1) * 10000
                in Inr (if return_bps \<le> - num_val stop then Some STOP_LOSS
                        else if num_val target \<le> return_bps then Some TAKE_PROFIT
                        else if seconds (dc_max_holding_seconds c) \<le> now - opened then Some MAX_HOLDING_TIME
                        else None)))))"

record 'd atr_exit_config =
  ae_window :: nat
  ae_stop_multiple :: 'd
  ae_target_multiple :: 'd
  ae_minimum_stop_bps :: 'd
  ae_maximum_stop_bps :: 'd

definition make_atr_exit_config :: "num atr_exit_config \<Rightarrow> rat atr_exit_config result" where
  "make_atr_exit_config c =
     (if ae_window c < 2 then Inl (ValueError ''ATR window must cover at least two candles'')
      else if list_ex (\<lambda>v. \<not> finite_positive v) [ae_stop_multiple c, ae_target_multiple c, ae_minimum_stop_bps c]
      then Inl (ValueError ''ATR exit multiples/bounds must be positive'')
      else if \<not> isfinite (ae_maximum_stop_bps c) \<or> num_le (ae_maximum_stop_bps c) (ae_minimum_stop_bps c)
      then Inl (ValueError ''ATR maximum stop must exceed the minimum stop'')
      else if num_le (Fin 100) (ae_maximum_stop_bps c)
      then Inl (ValueError ''100x Demo stop must remain below a 1% price move'')
      else Inr \<lparr>ae_window = ae_window c, ae_stop_multiple = num_val (ae_stop_multiple c),
                ae_target_multiple = num_val (ae_target_multiple c),
                ae_minimum_stop_bps = num_val (ae_minimum_stop_bps c),
                ae_maximum_stop_bps = num_val (ae_maximum_stop_bps c)\<rparr>)"

record candle =
  cd_high :: rat
  cd_low :: rat
  cd_close :: rat

text \<open>True ranges of a frame from its second row on, with the previous close.\<close>

fun true_ranges :: "candle list \<Rightarrow> rat list" where
  "true_ranges (c # d # cs) =
     max (cd_high d - cd_low d) (max \<bar>cd_high d - cd_close c\<bar> \<bar>cd_low d - cd_close c\<bar>) # true_ranges (d # cs)"
| "true_ranges _ = []"

definition atr_stop_take_profit_bps :: "candle list \<Rightarrow> rat atr_exit_config \<Rightarrow> (rat \<times> rat) result" where
  "atr_stop_take_profit_bps candles c =
     (if length candles < ae_window c + 1
      then Inl (ValueError ''insufficient candle history for ATR computation'')
      else
        (let frame = drop (length candles - (ae_window c + 1)) candles;
             tr = true_ranges frame
         in if tr = [] \<or> list_ex (\<lambda>v. v < 0) tr then Inl (ValueError ''invalid ATR true-range series'')
            else
              (let atr = sum_list tr / of_nat (length tr); last_close = cd_close (last frame)
               in if last_close \<le> 0 then Inl (ValueError ''invalid ATR inputs'')
                  else
                    (let atr_bps = atr / last_close * 10000;
                         stop = min (max (atr_bps * ae_stop_multiple c) (ae_minimum_stop_bps c)) (ae_maximum_stop_bps c);
                         target = atr_bps * ae_target_multiple c
                     in Inr (stop, if target \<le> stop then stop * (ae_target_multiple c / ae_stop_multiple c)
                                   else target)))))"

definition daily_loss_limit_usd :: "num \<Rightarrow> rat demo_risk_config \<Rightarrow> rat result" where
  "daily_loss_limit_usd starting_equity c =
     (if finite_positive starting_equity
      then Inr (num_val starting_equity * dc_max_daily_loss_fraction c)
      else Inl (ValueError ''daily starting Demo equity must be positive''))"

section \<open>Properties\<close>

lemma floor_multiple:
  assumes "0 < step"
  shows "of_int \<lfloor>q / step\<rfloor> * step \<le> (q :: rat)" "q < of_int \<lfloor>q / step\<rfloor> * step + step"
proof -
  have le: "of_int \<lfloor>q / step\<rfloor> \<le> q / step" and lt: "q / step < of_int \<lfloor>q / step\<rfloor> + 1" by linarith+
  from le show "of_int \<lfloor>q / step\<rfloor> * step \<le> q" by (simp only: pos_le_divide_eq [OF assms])
  from lt have "q < (of_int \<lfloor>q / step\<rfloor> + 1) * step" by (simp only: pos_divide_less_eq [OF assms])
  then show "q < of_int \<lfloor>q / step\<rfloor> * step + step" by (simp only: distrib_right mult_1)
qed

text \<open>
  C37. Sizing is total and tight. With a validated configuration and instrument it refuses for
  want of capital exactly when there is none, and for the venue minimum exactly when no whole
  number of steps of at least the minimum quantity (the minimum itself included) has a margin
  within one percent of the deployable capital; in every other case it answers a whole number of
  steps, at least the minimum, whose margin is within that percent while one more step exceeds it.
\<close>

theorem demo_sizing_tight:
  assumes "demo_risk_config_ok c" "linear_instrument_ok i"
  shows "case size_autonomous_demo_trade b i c of
      Inl x \<Rightarrow>
        deployable_capital b \<le> 0 \<and> x = ValueError ''autonomous Demo deployable capital must be positive'' \<or>
        0 < deployable_capital b \<and>
        x = ValueError ''1% Demo margin is below the venue minimum order quantity'' \<and>
        (\<nexists>n. li_min_quantity i \<le> of_int n * li_quantity_step i \<and>
             of_int n * li_quantity_step i * li_last_price i / 100 \<le> deployable_capital b / 100)
    | Inr z \<Rightarrow> 0 < deployable_capital b \<and> (\<exists>n. 0 < n \<and> dz_quantity z = of_int n * li_quantity_step i) \<and> li_min_quantity i \<le> dz_quantity z \<and>
        dz_estimated_margin z \<le> deployable_capital b / 100 \<and>
        deployable_capital b / 100 < (dz_quantity z + li_quantity_step i) * li_last_price i / 100"
proof (cases "deployable_capital b \<le> 0")
  case True
  then show ?thesis by (simp add: size_autonomous_demo_trade_def deployable_capital_def Let_def)
next
  case False
  have cfg: "dc_leverage c = 100" "dc_margin_fraction c = 1 / 100" and pos: "0 < li_last_price i" "0 < li_quantity_step i"
    "0 < li_min_quantity i"
    using assms(1,2) by (simp_all add: demo_risk_config_ok_def linear_instrument_ok_def)
  define raw where "raw = deployable_capital b / li_last_price i"
  define n where "n = \<lfloor>raw / li_quantity_step i\<rfloor>"
  let ?q = "of_int n * li_quantity_step i"
  have raw: "0 < raw" using False pos by (simp add: raw_def)
  note fl = floor_multiple [OF pos(2), of raw, folded n_def]
  have nt: "deployable_capital b * dc_margin_fraction c * of_int (dc_leverage c) = deployable_capital b"
    using cfg by simp
  have mg: "deployable_capital b * dc_margin_fraction c = deployable_capital b / 100"
    using cfg by simp
  have size: "size_autonomous_demo_trade b i c =
      (if ?q < li_min_quantity i
       then Inl (ValueError ''1% Demo margin is below the venue minimum order quantity'')
       else make_demo_sizing
         \<lparr>dz_account_equity = db_total_equity b, dz_sizing_capital = deployable_capital b,
          dz_target_margin = deployable_capital b / 100, dz_target_notional = deployable_capital b,
          dz_quantity = ?q, dz_estimated_notional = ?q * li_last_price i,
          dz_estimated_margin = ?q * li_last_price i / 100\<rparr>)"
    using False cfg unfolding size_autonomous_demo_trade_def Let_def nt
    unfolding raw_def [symmetric] n_def [symmetric] mg
    by simp
  show ?thesis
  proof (cases "?q < li_min_quantity i")
    case True
    have "deployable_capital b < of_int m * li_quantity_step i * li_last_price i"
      if "li_min_quantity i \<le> of_int m * li_quantity_step i" for m
    proof -
      from True that have "of_int n * li_quantity_step i < of_int m * li_quantity_step i" by linarith
      then have "n + 1 \<le> m" using pos by (simp add: mult_less_cancel_right)
      then have "of_int (n + 1) * li_quantity_step i \<le> of_int m * li_quantity_step i"
        using pos by (intro mult_right_mono) (simp_all flip: of_int_add)
      then have "raw < of_int m * li_quantity_step i" using fl(2) by (simp add: algebra_simps)
      then show ?thesis using pos by (simp add: raw_def pos_divide_less_eq)
    qed
    then have "\<nexists>m. li_min_quantity i \<le> of_int m * li_quantity_step i \<and>
        of_int m * li_quantity_step i * li_last_price i / 100 \<le> deployable_capital b / 100"
      by (fastforce simp: divide_le_cancel)
    then show ?thesis using True False by (simp add: size not_le)
  next
    case big: False
    with pos have q: "0 < ?q" by simp
    then have npos: "0 < n" using pos by (simp add: zero_less_mult_iff)
    have margin: "?q * li_last_price i / 100 \<le> deployable_capital b / 100"
      using fl(1) pos by (simp add: raw_def field_simps)
    have more: "deployable_capital b / 100 < (?q + li_quantity_step i) * li_last_price i / 100"
      using fl(2) pos by (simp add: raw_def field_simps)
    have eq: "0 < db_total_equity b" using False by (simp add: deployable_capital_def)
    have "size_autonomous_demo_trade b i c = Inr
        \<lparr>dz_account_equity = db_total_equity b, dz_sizing_capital = deployable_capital b,
         dz_target_margin = deployable_capital b / 100, dz_target_notional = deployable_capital b,
         dz_quantity = ?q, dz_estimated_notional = ?q * li_last_price i,
         dz_estimated_margin = ?q * li_last_price i / 100\<rparr>"
      using False big q margin pos eq npos by (simp add: size make_demo_sizing_def not_le)
    with npos big margin more False show ?thesis by (auto simp: not_less not_le)
  qed
qed

text \<open>
  The exit decision is complete and stop-first. On validated inputs the answer is
  STOP_LOSS exactly when the signed return in basis points has reached the stop, TAKE_PROFIT
  exactly when it has reached the target, MAX_HOLDING_TIME exactly when neither holds and the
  holding time is used up; so a position is never kept past its holding time.
\<close>

theorem demo_exit_complete:
  assumes "action = LONG \<or> action = SHORT" "0 < entry" "0 < current" "opened \<le> now" "0 < stop" "0 < target"
  defines "ret \<equiv> (if action = LONG then current / entry - 1 else 1 - current / entry) * 10000"
  shows "\<exists>r. autonomous_demo_exit_reason action (Fin entry) (Fin current) (Aware opened) (Aware now) c
      (Some (Fin stop)) (Some (Fin target)) = Inr r \<and>
    (r = Some STOP_LOSS \<longleftrightarrow> ret \<le> - stop) \<and> (r = Some TAKE_PROFIT \<longleftrightarrow> target \<le> ret) \<and>
    (r = Some MAX_HOLDING_TIME \<longleftrightarrow>
       - stop < ret \<and> ret < target \<and> seconds (dc_max_holding_seconds c) \<le> now - opened) \<and>
    (seconds (dc_max_holding_seconds c) \<le> now - opened \<longrightarrow> r \<noteq> None)"
proof -
  have "(if action = LONG then 1 else - 1) * (current / entry - 1) * 10000 = ret"
    by (simp add: ret_def algebra_simps)
  with assms(1-6) show ?thesis
    by (auto simp: autonomous_demo_exit_reason_def Let_def not_less not_le)
qed

text \<open>
  The volatility-scaled stop stays within its configured bounds, below a one percent
  move, whatever the candles; the target exceeds the stop when the target multiple exceeds
  the stop multiple.
\<close>

theorem atr_exits_bounded:
  assumes "make_atr_exit_config raw = Inr c" "atr_stop_take_profit_bps candles c = Inr (stop, target)"
    "ae_stop_multiple c < ae_target_multiple c"
  shows "ae_minimum_stop_bps c \<le> stop \<and> stop \<le> ae_maximum_stop_bps c \<and> 0 < stop \<and> stop < 100 \<and> stop < target"
proof -
  from assms(1) have c: "0 < ae_stop_multiple c" "0 < ae_minimum_stop_bps c"
      "ae_minimum_stop_bps c < ae_maximum_stop_bps c" "ae_maximum_stop_bps c < 100"
    by (auto simp: make_atr_exit_config_def isfinite_iff not_le split: if_splits)
  from assms(2) obtain x y where st: "stop = min (max x (ae_minimum_stop_bps c)) (ae_maximum_stop_bps c)"
      "target = (if y \<le> stop then stop * (ae_target_multiple c / ae_stop_multiple c) else y)"
    unfolding atr_stop_take_profit_bps_def Let_def if_Inl_eq_Inr sum.inject prod.inject by blast
  then have s: "ae_minimum_stop_bps c \<le> stop" "stop \<le> ae_maximum_stop_bps c"
    using c by auto
  then have "0 < stop" using c by simp
  moreover have "1 < ae_target_multiple c / ae_stop_multiple c" using assms(3) c by simp
  ultimately have "stop * 1 < stop * (ae_target_multiple c / ae_stop_multiple c)"
    by (intro mult_strict_left_mono)
  with st(2) s c \<open>0 < stop\<close> show ?thesis by auto
qed

section \<open>Concrete values\<close>

lemma demo_sizing_tight_witness:
  "case size_autonomous_demo_trade \<lparr>db_total_equity = 1000, db_total_wallet = 1000, db_total_available = 900\<rparr>
      \<lparr>li_symbol = ''BTCUSDT'', li_last_price = 70, li_quantity_step = 1 / 10, li_min_quantity = 1 / 10\<rparr>
      \<lparr>dc_leverage = 100, dc_margin_fraction = 1 / 100, dc_max_open_positions = 1, dc_max_trades_per_day = 6,
       dc_stop_loss_bps = 20, dc_take_profit_bps = 30, dc_max_holding_seconds = 1800,
       dc_cooldown_seconds = 900, dc_max_daily_loss_fraction = 1 / 100\<rparr> of
      Inl x \<Rightarrow> False
    | Inr z \<Rightarrow> dz_quantity z = 128 / 10 \<and> dz_estimated_margin z \<le> 9"
proof -
  let ?b = "\<lparr>db_total_equity = 1000, db_total_wallet = 1000, db_total_available = 900\<rparr> :: rat demo_balance"
  let ?i = "\<lparr>li_symbol = ''BTCUSDT'', li_last_price = 70, li_quantity_step = 1 / 10, li_min_quantity = 1 / 10\<rparr>
    :: rat linear_instrument"
  let ?c = "\<lparr>dc_leverage = 100, dc_margin_fraction = 1 / 100, dc_max_open_positions = 1, dc_max_trades_per_day = 6,
       dc_stop_loss_bps = 20, dc_take_profit_bps = 30, dc_max_holding_seconds = 1800,
       dc_cooldown_seconds = 900, dc_max_daily_loss_fraction = 1 / 100\<rparr> :: rat demo_risk_config"
  have ok: "demo_risk_config_ok ?c" "linear_instrument_ok ?i"
    by (simp_all add: demo_risk_config_ok_def linear_instrument_ok_def)
  have "\<lfloor>9000 / 70 :: rat\<rfloor> = 128" by (simp add: floor_eq_iff)
  then have z: "size_autonomous_demo_trade ?b ?i ?c = Inr
     \<lparr>dz_account_equity = 1000, dz_sizing_capital = 900, dz_target_margin = 9, dz_target_notional = 900,
      dz_quantity = 128 / 10, dz_estimated_notional = 896, dz_estimated_margin = 896 / 100\<rparr>"
    by (simp add: size_autonomous_demo_trade_def make_demo_sizing_def deployable_capital_def Let_def)
  from demo_sizing_tight [OF ok, of ?b] show ?thesis by (simp add: z deployable_capital_def)
qed

lemma demo_exit_complete_witness:
  "\<exists>r. autonomous_demo_exit_reason SHORT (Fin 100) (Fin 101) (Aware 0) (Aware 1)
     \<lparr>dc_leverage = 100, dc_margin_fraction = 1 / 100, dc_max_open_positions = 1, dc_max_trades_per_day = 6,
      dc_stop_loss_bps = 20, dc_take_profit_bps = 30, dc_max_holding_seconds = 1800,
      dc_cooldown_seconds = 900, dc_max_daily_loss_fraction = 1 / 100\<rparr> (Some (Fin 20)) (Some (Fin 30))
     = Inr r \<and> r = Some STOP_LOSS"
  using demo_exit_complete [of SHORT 100 101 0 1 20 30] by simp

lemma atr_exits_bounded_witness:
  "\<exists>raw c stop target. make_atr_exit_config raw = Inr c \<and>
     atr_stop_take_profit_bps [\<lparr>cd_high = 101, cd_low = 99, cd_close = 100\<rparr>,
       \<lparr>cd_high = 101, cd_low = 100, cd_close = 100\<rparr>, \<lparr>cd_high = 101, cd_low = 100, cd_close = 100\<rparr>] c
       = Inr (stop, target) \<and> stop = 50 \<and> stop < target"
proof -
  let ?raw = "\<lparr>ae_window = 2, ae_stop_multiple = Fin (1 / 2), ae_target_multiple = Fin (12 / 10),
    ae_minimum_stop_bps = Fin 8, ae_maximum_stop_bps = Fin 60\<rparr>"
  let ?c = "\<lparr>ae_window = 2, ae_stop_multiple = 1 / 2, ae_target_multiple = 12 / 10,
    ae_minimum_stop_bps = 8, ae_maximum_stop_bps = 60\<rparr>"
  let ?cs = "[\<lparr>cd_high = 101, cd_low = 99, cd_close = 100\<rparr>,
       \<lparr>cd_high = 101, cd_low = 100, cd_close = 100\<rparr>, \<lparr>cd_high = 101, cd_low = 100, cd_close = 100\<rparr>]"
  have c: "make_atr_exit_config ?raw = Inr ?c"
    by (simp add: make_atr_exit_config_def finite_positive_Fin del: finite_positive_iff)
  have r: "atr_stop_take_profit_bps ?cs ?c = Inr (50, 120)"
    by (simp add: atr_stop_take_profit_bps_def Let_def)
  have "50 < (120 :: rat)" using atr_exits_bounded [OF c r] by simp
  with c r show ?thesis by (intro exI [of _ ?raw] exI [of _ ?c] exI [of _ 50] exI [of _ 120]) simp
qed

end
