(* ===== verification/Lifecycle.thy ===== *)
theory Lifecycle
  imports Prelude
begin

text \<open>
  The contract of a store of items that move through phases: an operation leaves every item
  where it is, creates items in a start phase, or moves items along the edges of a graph.
  The durable stores of the execution and research layers are interpreted here; the locale
  proves what any sequence of operations can do to an item.
\<close>

locale lifecycle =
  fixes step :: "'s \<Rightarrow> 'op \<Rightarrow> 's"
    and phase :: "'s \<Rightarrow> 'k \<Rightarrow> 'p option"
    and edge :: "'p \<Rightarrow> 'p \<Rightarrow> bool"
    and start :: "'p \<Rightarrow> bool"
    and inv :: "'s \<Rightarrow> bool"
  assumes step_inv: "inv s \<Longrightarrow> inv (step s x)"
    and step_new: "inv s \<Longrightarrow> phase s k = None \<Longrightarrow> phase (step s x) k = Some q \<Longrightarrow> start q"
    and step_old: "inv s \<Longrightarrow> phase s k = Some p \<Longrightarrow>
      \<exists>q. phase (step s x) k = Some q \<and> (q = p \<or> edge p q)"
begin

lemma run_inv: "inv s \<Longrightarrow> inv (foldl step s xs)"
  by (induction xs arbitrary: s) (auto intro: step_inv)

text \<open>An item is never deleted and only moves along paths of the graph.\<close>

lemma run_path:
  "inv s \<Longrightarrow> phase s k = Some p \<Longrightarrow> \<exists>q. phase (foldl step s xs) k = Some q \<and> edge\<^sup>*\<^sup>* p q"
proof (induction xs arbitrary: s p)
  case (Cons x xs)
  obtain q where q: "phase (step s x) k = Some q" "q = p \<or> edge p q"
    using step_old [OF Cons.prems] by blast
  obtain r where "phase (foldl step (step s x) xs) k = Some r" "edge\<^sup>*\<^sup>* q r"
    using Cons.IH [OF step_inv [OF Cons.prems(1)] q(1)] by blast
  moreover have "edge\<^sup>*\<^sup>* p q" using q(2) by auto
  ultimately show ?case by (auto intro: rtranclp_trans)
qed auto

text \<open>An item that appears starts in a start phase.\<close>

lemma run_from_start:
  "inv s \<Longrightarrow> phase s k = None \<Longrightarrow> phase (foldl step s xs) k = Some q \<Longrightarrow> \<exists>p. start p \<and> edge\<^sup>*\<^sup>* p q"
proof (induction xs arbitrary: s)
  case (Cons x xs)
  show ?case
  proof (cases "phase (step s x) k")
    case None
    from Cons.IH [OF step_inv [OF Cons.prems(1)] None] Cons.prems(3) show ?thesis by simp
  next
    case (Some p)
    have "start p" using step_new [OF Cons.prems(1,2) Some] .
    moreover have "edge\<^sup>*\<^sup>* p q"
      using run_path [OF step_inv [OF Cons.prems(1)] Some, of xs] Cons.prems(3) by auto
    ultimately show ?thesis by blast
  qed
qed simp

text \<open>A phase without an edge to another phase is final.\<close>

lemma run_terminal:
  "inv s \<Longrightarrow> phase s k = Some p \<Longrightarrow> (\<And>q. edge p q \<Longrightarrow> q = p) \<Longrightarrow> phase (foldl step s xs) k = Some p"
proof -
  assume i: "inv s" and p: "phase s k = Some p" and t: "\<And>q. edge p q \<Longrightarrow> q = p"
  obtain q where q: "phase (foldl step s xs) k = Some q" "edge\<^sup>*\<^sup>* p q"
    using run_path [OF i p] by blast
  from q(2) have "q = p" by (induction rule: rtranclp_induct) (auto dest: t)
  with q show ?thesis by simp
qed

end

end
