(* ===== verification/Demo_State.thy ===== *)
theory Demo_State
  imports Demo_Risk Lifecycle
begin

text \<open>
  Model of \<open>src/execution/demo_autonomous_state.py\<close>: the durable lifecycle of autonomous
  Demo trades and the daily risk ledger. The SQLite file is a state with the two tables; an
  operation is one transaction, so an exception leaves the state as it was. Columns that hold
  decimals and ISO time stamps as text hold the represented decimal and the instant.
  \<open>uuid5\<close> of the observation id is a parameter.
\<close>

datatype trade_phase = OBSERVED | ENTRY_SUBMITTED | OPEN | EXIT_SUBMITTED | CLOSED | SAFETY_HOLD

definition active_phases :: "trade_phase list" where
  "active_phases = [OBSERVED, ENTRY_SUBMITTED, OPEN, EXIT_SUBMITTED, SAFETY_HOLD]"

lemma active_phases_iff: "p \<in> set active_phases \<longleftrightarrow> p \<noteq> CLOSED"
  by (cases p) (simp_all add: active_phases_def)

section \<open>Tables\<close>

record demo_trade =
  td_trade_id :: string
  td_observation_id :: string
  td_candidate_id :: string
  td_symbol :: string
  td_action :: setup_action
  td_phase :: trade_phase
  td_target_quantity :: pydecimal
  td_reference_price :: pydecimal
  td_stop_loss_bps :: "pydecimal option"
  td_take_profit_bps :: "pydecimal option"
  td_entry_order_id :: "string option"
  td_entry_fill_price :: "pydecimal option"
  td_opened_at :: "int option"
  td_exit_order_id :: "string option"
  td_exit_reason :: "string option"
  td_realized_pnl :: "pydecimal option"
  td_closed_at :: "int option"
  td_safety_reason :: "string option"
  td_created_at :: int
  td_updated_at :: int

record demo_day =
  dd_date :: int
  dd_starting_capital :: num
  dd_entries :: int
  dd_realized_pnl :: rat
  dd_cooldown_until :: "int option"
  dd_kill_reason :: "string option"
  dd_updated_at :: int

record demo_db =
  trades :: "demo_trade list"
  days :: "(int, demo_day) dict"

definition empty_demo_db :: demo_db where
  "empty_demo_db = \<lparr>trades = [], days = []\<rparr>"

definition fetch_trade :: "demo_db \<Rightarrow> string \<Rightarrow> demo_trade option" where
  "fetch_trade db k = find (\<lambda>t. td_trade_id t = k) (trades db)"

definition active_trades :: "demo_db \<Rightarrow> demo_trade list" where
  "active_trades db = filter (\<lambda>t. td_phase t \<in> set active_phases) (trades db)"

definition fetch_active :: "demo_db \<Rightarrow> demo_trade option result" where
  "fetch_active db =
     (case active_trades db of
        [] \<Rightarrow> Inr None
      | [t] \<Rightarrow> Inr (Some t)
      | _ \<Rightarrow> Inl (Raised AutonomousDemoStateError ''multiple active autonomous Demo trades''))"

definition fetch_day :: "demo_db \<Rightarrow> int \<Rightarrow> demo_day option" where
  "fetch_day db d = map_of (days db) d"

section \<open>Beginning a trade\<close>

record demo_request =
  rq_observation_id :: string
  rq_candidate_id :: string
  rq_symbol :: string
  rq_action :: setup_action
  rq_target_quantity :: pydecimal
  rq_reference_price :: pydecimal
  rq_stop_loss_bps :: "pydecimal option"
  rq_take_profit_bps :: "pydecimal option"

definition check_request :: "demo_request \<Rightarrow> unit result" where
  "check_request q =
     (if rq_action q \<noteq> LONG \<and> rq_action q \<noteq> SHORT
      then Inl (ValueError ''autonomous Demo trade requires LONG or SHORT'')
      else if blank (rq_observation_id q) \<or> blank (rq_candidate_id q) \<or> blank (rq_symbol q)
      then Inl (ValueError ''autonomous Demo trade identity is incomplete'')
      else if \<not> dec_positive (rq_target_quantity q)
      then Inl (ValueError ''autonomous Demo target quantity must be positive'')
      else if \<not> dec_positive (rq_reference_price q)
      then Inl (ValueError ''autonomous Demo reference price must be positive'')
      else if (case rq_stop_loss_bps q of None \<Rightarrow> False | Some v \<Rightarrow> \<not> dec_positive v)
      then Inl (ValueError ''autonomous Demo stop-loss override must be positive'')
      else if (case rq_take_profit_bps q of None \<Rightarrow> False | Some v \<Rightarrow> \<not> dec_positive v)
      then Inl (ValueError ''autonomous Demo take-profit override must be positive'')
      else Inr ())"

text \<open>The comparison of the stored with the requested payload is by value.\<close>

definition same_request :: "demo_trade \<Rightarrow> demo_request \<Rightarrow> bool" where
  "same_request t q \<longleftrightarrow>
     td_candidate_id t = rq_candidate_id q \<and> td_symbol t = rq_symbol q \<and> td_action t = rq_action q \<and>
     dec_eq (td_target_quantity t) (rq_target_quantity q) \<and>
     dec_eq (td_reference_price t) (rq_reference_price q) \<and>
     dec_opt_eq (td_stop_loss_bps t) (rq_stop_loss_bps q) \<and>
     dec_opt_eq (td_take_profit_bps t) (rq_take_profit_bps q)"

definition new_demo_trade :: "string \<Rightarrow> demo_request \<Rightarrow> int \<Rightarrow> demo_trade" where
  "new_demo_trade k q now =
     \<lparr>td_trade_id = k, td_observation_id = rq_observation_id q, td_candidate_id = rq_candidate_id q,
      td_symbol = rq_symbol q, td_action = rq_action q, td_phase = OBSERVED,
      td_target_quantity = rq_target_quantity q, td_reference_price = rq_reference_price q,
      td_stop_loss_bps = rq_stop_loss_bps q, td_take_profit_bps = rq_take_profit_bps q,
      td_entry_order_id = None, td_entry_fill_price = None, td_opened_at = None,
      td_exit_order_id = None, td_exit_reason = None, td_realized_pnl = None, td_closed_at = None,
      td_safety_reason = None, td_created_at = now, td_updated_at = now\<rparr>"

definition demo_begin_trade :: "(string \<Rightarrow> string) \<Rightarrow> demo_db \<Rightarrow> demo_request \<Rightarrow> pydatetime
    \<Rightarrow> (demo_db \<times> demo_trade) result" where
  "demo_begin_trade trade_id_of db q now_utc =
     bindE (check_request q) (\<lambda>_.
     bindE (utc_of ''autonomous Demo timestamp must be timezone-aware'' now_utc) (\<lambda>now.
       let k = trade_id_of (rq_observation_id q) in
       case fetch_trade db k of
         Some existing \<Rightarrow>
           if same_request existing q then Inr (db, existing)
           else Inl (Raised AutonomousDemoStateError ''observation id conflicts with durable trade'')
       | None \<Rightarrow>
           bindE (fetch_active db) (\<lambda>active.
             if active \<noteq> None
             then Inl (Raised AutonomousDemoStateError ''another autonomous Demo trade is active'')
             else if list_ex (\<lambda>t. td_observation_id t = rq_observation_id q) (trades db)
             then Inl (IntegrityError ''UNIQUE autonomous_demo_trades.observation_id'')
             else Inr (db\<lparr>trades := trades db @ [new_demo_trade k q now]\<rparr>, new_demo_trade k q now))))"

section \<open>Transitions\<close>

datatype trade_update =
    EntryOrderId string
  | EntryFillPrice pydecimal
  | OpenedAt int
  | ExitOrderId string
  | ExitReason string
  | RealizedPnl pydecimal
  | ClosedAt int
  | SafetyReason string

fun apply_update :: "trade_update \<Rightarrow> demo_trade \<Rightarrow> demo_trade" where
  "apply_update (EntryOrderId v) t = t\<lparr>td_entry_order_id := Some v\<rparr>"
| "apply_update (EntryFillPrice v) t = t\<lparr>td_entry_fill_price := Some v\<rparr>"
| "apply_update (OpenedAt v) t = t\<lparr>td_opened_at := Some v\<rparr>"
| "apply_update (ExitOrderId v) t = t\<lparr>td_exit_order_id := Some v\<rparr>"
| "apply_update (ExitReason v) t = t\<lparr>td_exit_reason := Some v\<rparr>"
| "apply_update (RealizedPnl v) t = t\<lparr>td_realized_pnl := Some v\<rparr>"
| "apply_update (ClosedAt v) t = t\<lparr>td_closed_at := Some v\<rparr>"
| "apply_update (SafetyReason v) t = t\<lparr>td_safety_reason := Some v\<rparr>"

text \<open>\<open>normalized not in {None, value}\<close>: the column holds another text.\<close>

fun update_conflicts :: "trade_update \<Rightarrow> demo_trade \<Rightarrow> bool" where
  "update_conflicts (EntryOrderId v) t = (td_entry_order_id t \<notin> {None, Some v})"
| "update_conflicts (EntryFillPrice v) t = (td_entry_fill_price t \<notin> {None, Some v})"
| "update_conflicts (OpenedAt v) t = (td_opened_at t \<notin> {None, Some v})"
| "update_conflicts (ExitOrderId v) t = (td_exit_order_id t \<notin> {None, Some v})"
| "update_conflicts (ExitReason v) t = (td_exit_reason t \<notin> {None, Some v})"
| "update_conflicts (RealizedPnl v) t = (td_realized_pnl t \<notin> {None, Some v})"
| "update_conflicts (ClosedAt v) t = (td_closed_at t \<notin> {None, Some v})"
| "update_conflicts (SafetyReason v) t = (td_safety_reason t \<notin> {None, Some v})"

text \<open>\<open>replaceable_fields\<close> is the exit order id or nothing.\<close>

fun is_exit_order_id :: "trade_update \<Rightarrow> bool" where
  "is_exit_order_id (ExitOrderId _) = True"
| "is_exit_order_id _ = False"

definition updated_trade :: "trade_phase \<Rightarrow> trade_update list \<Rightarrow> int \<Rightarrow> demo_trade \<Rightarrow> demo_trade" where
  "updated_trade target us now t = foldl (\<lambda>t u. apply_update u t) (t\<lparr>td_phase := target, td_updated_at := now\<rparr>) us"

text \<open>The UNIQUE constraints on the two order id columns, checked on the new row.\<close>

definition order_ids_unique :: "demo_db \<Rightarrow> demo_trade \<Rightarrow> bool" where
  "order_ids_unique db t \<longleftrightarrow>
     list_all (\<lambda>o'. td_trade_id o' = td_trade_id t \<or>
       (td_entry_order_id t = None \<or> td_entry_order_id o' \<noteq> td_entry_order_id t) \<and>
       (td_exit_order_id t = None \<or> td_exit_order_id o' \<noteq> td_exit_order_id t)) (trades db)"

definition demo_transition :: "demo_db \<Rightarrow> string \<Rightarrow> trade_phase list \<Rightarrow> trade_phase \<Rightarrow> trade_update list
    \<Rightarrow> pydatetime \<Rightarrow> bool \<Rightarrow> (demo_db \<times> demo_trade) result" where
  "demo_transition db k allowed target us now_utc exit_order_replaceable =
     (case fetch_trade db k of
        None \<Rightarrow> Inl (Raised AutonomousDemoStateError ''unknown autonomous Demo trade'')
      | Some existing \<Rightarrow>
          if td_phase existing \<notin> set allowed
          then Inl (Raised AutonomousDemoStateError ''cannot move autonomous Demo trade'')
          else if td_phase existing = target \<and>
                  list_ex (\<lambda>u. \<not> (exit_order_replaceable \<and> is_exit_order_id u) \<and> update_conflicts u existing) us
          then Inl (Raised AutonomousDemoStateError ''idempotent transition payload conflicts'')
          else bindE (utc_of ''autonomous Demo timestamp must be timezone-aware'' now_utc) (\<lambda>now.
            let new = updated_trade target us now existing in
            if \<not> order_ids_unique db new then Inl (IntegrityError ''UNIQUE client order id'')
            else Inr (db\<lparr>trades := map (\<lambda>t. if td_trade_id t = k then updated_trade target us now t else t) (trades db)\<rparr>,
                      new)))"

definition mark_entry_submitted :: "demo_db \<Rightarrow> string \<Rightarrow> string \<Rightarrow> pydatetime \<Rightarrow> (demo_db \<times> demo_trade) result" where
  "mark_entry_submitted db k order_id now =
     demo_transition db k [OBSERVED, ENTRY_SUBMITTED] ENTRY_SUBMITTED [EntryOrderId order_id] now False"

definition mark_open :: "demo_db \<Rightarrow> string \<Rightarrow> pydecimal \<Rightarrow> pydatetime \<Rightarrow> (demo_db \<times> demo_trade) result" where
  "mark_open db k fill_price opened_at =
     (if \<not> dec_positive fill_price then Inl (ValueError ''autonomous Demo entry fill price must be positive'')
      else bindE (utc_of ''autonomous Demo timestamp must be timezone-aware'' opened_at) (\<lambda>opened.
        demo_transition db k [ENTRY_SUBMITTED, OPEN] OPEN [EntryFillPrice fill_price, OpenedAt opened] opened_at False))"

definition mark_exit_submitted :: "demo_db \<Rightarrow> string \<Rightarrow> string \<Rightarrow> string \<Rightarrow> pydatetime
    \<Rightarrow> (demo_db \<times> demo_trade) result" where
  "mark_exit_submitted db k order_id reason now =
     (if blank reason then Inl (ValueError ''autonomous Demo exit reason is required'')
      else demo_transition db k [OPEN, EXIT_SUBMITTED] EXIT_SUBMITTED [ExitOrderId order_id, ExitReason reason] now True)"

definition mark_closed :: "demo_db \<Rightarrow> string \<Rightarrow> pydecimal \<Rightarrow> pydatetime \<Rightarrow> (demo_db \<times> demo_trade) result" where
  "mark_closed db k pnl closed_at =
     (if \<not> isfinite (dec_num pnl) then Inl (ValueError ''autonomous Demo realized PnL must be finite'')
      else bindE (utc_of ''autonomous Demo timestamp must be timezone-aware'' closed_at) (\<lambda>closed.
        demo_transition db k [ENTRY_SUBMITTED, EXIT_SUBMITTED, CLOSED] CLOSED [RealizedPnl pnl, ClosedAt closed]
          closed_at False))"

definition mark_safety_hold :: "demo_db \<Rightarrow> string \<Rightarrow> string \<Rightarrow> pydatetime \<Rightarrow> (demo_db \<times> demo_trade) result" where
  "mark_safety_hold db k reason now =
     (if blank reason then Inl (ValueError ''autonomous Demo safety reason is required'')
      else demo_transition db k active_phases SAFETY_HOLD [SafetyReason reason] now False)"

definition close_unsubmitted_safety_hold :: "demo_db \<Rightarrow> string \<Rightarrow> pydatetime \<Rightarrow> (demo_db \<times> demo_trade) result" where
  "close_unsubmitted_safety_hold db k closed_at =
     (case fetch_trade db k of
        None \<Rightarrow> Inl (Raised AutonomousDemoStateError ''unknown autonomous Demo trade'')
      | Some existing \<Rightarrow>
          if td_phase existing \<noteq> SAFETY_HOLD
          then Inl (Raised AutonomousDemoStateError ''trade is not in Demo safety hold'')
          else if td_entry_order_id existing \<noteq> None \<or> td_opened_at existing \<noteq> None \<or> td_exit_order_id existing \<noteq> None
          then Inl (Raised AutonomousDemoStateError ''cannot close a safety hold with order exposure'')
          else bindE (utc_of ''autonomous Demo timestamp must be timezone-aware'' closed_at) (\<lambda>closed.
            demo_transition db k [SAFETY_HOLD] CLOSED
              [ExitReason ''UNSUBMITTED_ATTEMPT_CLEARED'', RealizedPnl (Dec False 0 0), ClosedAt closed] closed_at False))"

section \<open>The daily risk ledger\<close>

definition daily_risk_state :: "demo_db \<Rightarrow> pydatetime \<Rightarrow> demo_day option result" where
  "daily_risk_state db now_utc =
     bindE (utc_of ''autonomous Demo timestamp must be timezone-aware'' now_utc) (\<lambda>now.
       Inr (fetch_day db (utc_date now)))"

definition ensure_day :: "demo_db \<Rightarrow> int \<Rightarrow> num \<Rightarrow> demo_db \<times> demo_day" where
  "ensure_day db now capital =
     (case fetch_day db (utc_date now) of
        Some d \<Rightarrow> (db, d)
      | None \<Rightarrow>
          (let d = \<lparr>dd_date = utc_date now, dd_starting_capital = capital, dd_entries = 0,
                    dd_realized_pnl = 0, dd_cooldown_until = None, dd_kill_reason = None, dd_updated_at = now\<rparr>
           in (db\<lparr>days := AList.update (utc_date now) d (days db)\<rparr>, d)))"

definition validate_entry_authorization :: "demo_day \<Rightarrow> int \<Rightarrow> num \<Rightarrow> rat demo_risk_config \<Rightarrow> unit result" where
  "validate_entry_authorization d now capital c =
     (if \<not> finite_positive capital then Inl (ValueError ''autonomous Demo current capital must be positive'')
      else if dd_kill_reason d \<noteq> None
      then Inl (Raised AutonomousDemoEntryNotAuthorizedError ''autonomous Demo daily kill switch is active'')
      else if dc_max_trades_per_day c \<le> dd_entries d
      then Inl (Raised AutonomousDemoEntryNotAuthorizedError ''autonomous Demo daily trade limit reached'')
      else if (case dd_cooldown_until d of None \<Rightarrow> False | Some u \<Rightarrow> now < u)
      then Inl (Raised AutonomousDemoEntryNotAuthorizedError ''autonomous Demo cooldown is active'')
      else bindE (daily_loss_limit_usd (dd_starting_capital d) c) (\<lambda>limit.
        if dd_realized_pnl d \<le> - limit
        then Inl (Raised AutonomousDemoEntryNotAuthorizedError ''autonomous Demo daily loss limit reached'')
        else Inr ()))"

definition authorize_entry :: "demo_db \<Rightarrow> pydatetime \<Rightarrow> num \<Rightarrow> rat demo_risk_config \<Rightarrow> (demo_db \<times> demo_day) result" where
  "authorize_entry db now_utc capital c =
     (if \<not> finite_positive capital then Inl (ValueError ''autonomous Demo daily starting capital must be positive'')
      else bindE (utc_of ''autonomous Demo timestamp must be timezone-aware'' now_utc) (\<lambda>now.
        case ensure_day db now capital of (db1, d) \<Rightarrow>
          bindE (validate_entry_authorization d now capital c) (\<lambda>_. Inr (db1, d))))"

definition set_day :: "demo_db \<Rightarrow> demo_day \<Rightarrow> demo_db \<times> demo_day" where
  "set_day db d = (db\<lparr>days := AList.update (dd_date d) d (days db)\<rparr>, d)"

definition record_entry :: "demo_db \<Rightarrow> pydatetime \<Rightarrow> num \<Rightarrow> rat demo_risk_config \<Rightarrow> (demo_db \<times> demo_day) result" where
  "record_entry db now_utc capital c =
     bindE (utc_of ''autonomous Demo timestamp must be timezone-aware'' now_utc) (\<lambda>now.
       case ensure_day db now capital of (db1, d) \<Rightarrow>
         bindE (validate_entry_authorization d now capital c) (\<lambda>_.
           Inr (set_day db1 (d\<lparr>dd_entries := dd_entries d + 1, dd_updated_at := now\<rparr>))))"

definition demo_record_close :: "demo_db \<Rightarrow> pydatetime \<Rightarrow> num \<Rightarrow> num \<Rightarrow> rat demo_risk_config
    \<Rightarrow> (demo_db \<times> demo_day) result" where
  "demo_record_close db now_utc capital pnl c =
     (if \<not> isfinite pnl then Inl (ValueError ''daily realized PnL must be finite'')
      else bindE (utc_of ''autonomous Demo timestamp must be timezone-aware'' now_utc) (\<lambda>now.
        case ensure_day db now capital of (db1, d) \<Rightarrow>
          (let total = dd_realized_pnl d + num_val pnl in
           bindE (daily_loss_limit_usd (dd_starting_capital d) c) (\<lambda>limit.
             Inr (set_day db1
               (d\<lparr>dd_realized_pnl := total,
                  dd_cooldown_until := Some (now + seconds (dc_cooldown_seconds c)),
                  dd_kill_reason := (if total \<le> - limit then Some ''DAILY_LOSS_LIMIT'' else dd_kill_reason d),
                  dd_updated_at := now\<rparr>))))))"

definition demo_activate_kill_switch :: "demo_db \<Rightarrow> pydatetime \<Rightarrow> num \<Rightarrow> string \<Rightarrow> (demo_db \<times> demo_day) result" where
  "demo_activate_kill_switch db now_utc capital reason =
     (if blank reason then Inl (ValueError ''kill switch reason is required'')
      else bindE (utc_of ''autonomous Demo timestamp must be timezone-aware'' now_utc) (\<lambda>now.
        case ensure_day db now capital of (db1, d) \<Rightarrow>
          Inr (set_day db1 (d\<lparr>dd_kill_reason := Some reason, dd_updated_at := now\<rparr>))))"

section \<open>Operations\<close>

datatype demo_op =
    BeginTrade demo_request pydatetime
  | MarkEntrySubmitted string string pydatetime
  | MarkOpen string pydecimal pydatetime
  | MarkExitSubmitted string string string pydatetime
  | MarkClosed string pydecimal pydatetime
  | MarkSafetyHold string string pydatetime
  | CloseUnsubmittedSafetyHold string pydatetime
  | AuthorizeEntry pydatetime num "rat demo_risk_config"
  | RecordEntry pydatetime num "rat demo_risk_config"
  | RecordClose pydatetime num num "rat demo_risk_config"
  | ActivateKillSwitch pydatetime num string

text \<open>The state an operation leaves: that of its result, or the old one after an exception.\<close>

definition committed :: "demo_db \<Rightarrow> (demo_db \<times> 'a) result \<Rightarrow> demo_db" where
  "committed db r = (case r of Inl _ \<Rightarrow> db | Inr (db', _) \<Rightarrow> db')"

fun demo_step :: "(string \<Rightarrow> string) \<Rightarrow> demo_db \<Rightarrow> demo_op \<Rightarrow> demo_db" where
  "demo_step f db (BeginTrade q t) = committed db (demo_begin_trade f db q t)"
| "demo_step f db (MarkEntrySubmitted k i t) = committed db (mark_entry_submitted db k i t)"
| "demo_step f db (MarkOpen k p t) = committed db (mark_open db k p t)"
| "demo_step f db (MarkExitSubmitted k i r t) = committed db (mark_exit_submitted db k i r t)"
| "demo_step f db (MarkClosed k p t) = committed db (mark_closed db k p t)"
| "demo_step f db (MarkSafetyHold k r t) = committed db (mark_safety_hold db k r t)"
| "demo_step f db (CloseUnsubmittedSafetyHold k t) = committed db (close_unsubmitted_safety_hold db k t)"
| "demo_step f db (AuthorizeEntry t m c) = committed db (authorize_entry db t m c)"
| "demo_step f db (RecordEntry t m c) = committed db (record_entry db t m c)"
| "demo_step f db (RecordClose t m p c) = committed db (demo_record_close db t m p c)"
| "demo_step f db (ActivateKillSwitch t m r) = committed db (demo_activate_kill_switch db t m r)"

text \<open>The edges of the lifecycle.\<close>

fun demo_edge :: "trade_phase \<Rightarrow> trade_phase \<Rightarrow> bool" where
  "demo_edge OBSERVED q = (q \<in> {ENTRY_SUBMITTED, SAFETY_HOLD})"
| "demo_edge ENTRY_SUBMITTED q = (q \<in> {OPEN, CLOSED, SAFETY_HOLD})"
| "demo_edge OPEN q = (q \<in> {EXIT_SUBMITTED, SAFETY_HOLD})"
| "demo_edge EXIT_SUBMITTED q = (q \<in> {CLOSED, SAFETY_HOLD})"
| "demo_edge SAFETY_HOLD q = (q = CLOSED)"
| "demo_edge CLOSED q = False"

section \<open>What a transition does\<close>

lemma apply_update_frame [simp]:
  "td_trade_id (apply_update u t) = td_trade_id t" "td_phase (apply_update u t) = td_phase t"
  "td_observation_id (apply_update u t) = td_observation_id t"
  "td_candidate_id (apply_update u t) = td_candidate_id t" "td_symbol (apply_update u t) = td_symbol t"
  "td_action (apply_update u t) = td_action t" "td_target_quantity (apply_update u t) = td_target_quantity t"
  "td_reference_price (apply_update u t) = td_reference_price t"
  "td_stop_loss_bps (apply_update u t) = td_stop_loss_bps t"
  "td_take_profit_bps (apply_update u t) = td_take_profit_bps t"
  "td_created_at (apply_update u t) = td_created_at t"
  by (cases u; simp)+

lemma apply_updates_frame:
  "td_trade_id (foldl (\<lambda>t u. apply_update u t) t us) = td_trade_id t"
  "td_phase (foldl (\<lambda>t u. apply_update u t) t us) = td_phase t"
  "td_observation_id (foldl (\<lambda>t u. apply_update u t) t us) = td_observation_id t"
  "same_request (foldl (\<lambda>t u. apply_update u t) t us) q = same_request t q"
  by (induction us arbitrary: t) (simp_all add: same_request_def)

lemma updated_trade_frame [simp]:
  "td_trade_id (updated_trade p us now t) = td_trade_id t" "td_phase (updated_trade p us now t) = p"
  "td_observation_id (updated_trade p us now t) = td_observation_id t"
  "same_request (updated_trade p us now t) q = same_request t q"
  by (simp_all add: updated_trade_def apply_updates_frame) (simp add: same_request_def)

lemma fetch_trade_id: "fetch_trade db k = Some t \<Longrightarrow> td_trade_id t = k"
  by (simp add: fetch_trade_def find_Some_iff) blast

text \<open>A successful transition rewrites the row of one trade and nothing else.\<close>

lemma demo_transition_Inr:
  assumes "demo_transition db k allowed target us now_utc rep = Inr (db', t')"
  obtains t now where "fetch_trade db k = Some t" "td_phase t \<in> set allowed"
    "td_phase t = target \<Longrightarrow> \<forall>u \<in> set us. rep \<and> is_exit_order_id u \<or> \<not> update_conflicts u t"
    "t' = updated_trade target us now t" "fetch_trade db' k = Some t'"
    "\<And>k'. k' \<noteq> k \<Longrightarrow> fetch_trade db' k' = fetch_trade db k'"
    "trades db' = map (\<lambda>t. if td_trade_id t = k then updated_trade target us now t else t) (trades db)"
    "days db' = days db"
proof (cases "fetch_trade db k")
  case None
  with assms show thesis by (simp add: demo_transition_def)
next
  case (Some t)
  with assms obtain now where now: "td_phase t \<in> set allowed"
      "td_phase t = target \<Longrightarrow> \<forall>u \<in> set us. rep \<and> is_exit_order_id u \<or> \<not> update_conflicts u t"
      "t' = updated_trade target us now t"
      "db' = db\<lparr>trades := map (\<lambda>t. if td_trade_id t = k then updated_trade target us now t else t) (trades db)\<rparr>"
    by (auto simp: demo_transition_def bindE_eq_Inr Let_def list_ex_iff split: if_splits)
  have "fetch_trade db' k' = (if k' = k then Some t' else fetch_trade db k')" for k'
    using Some by (simp add: now fetch_trade_def find_map_key)
  with Some now show thesis by (intro that) auto
qed

section \<open>The moves of a trade\<close>

definition exposed :: "demo_trade \<Rightarrow> bool" where
  "exposed t \<longleftrightarrow> td_entry_order_id t \<noteq> None \<or> td_opened_at t \<noteq> None \<or> td_exit_order_id t \<noteq> None"

definition settled :: "demo_trade \<Rightarrow> bool" where
  "settled t \<longleftrightarrow> (td_phase t = CLOSED \<longrightarrow> td_realized_pnl t \<noteq> None \<and> td_closed_at t \<noteq> None)"

text \<open>
  What any operation may do to a trade: the identity stays, the phase follows an edge, a
  settled closed trade is frozen up to its update time, a hold with order exposure stays one.
\<close>

definition demo_move :: "demo_trade \<Rightarrow> demo_trade \<Rightarrow> bool" where
  "demo_move t t' \<longleftrightarrow>
     td_trade_id t' = td_trade_id t \<and> td_observation_id t' = td_observation_id t \<and>
     (\<forall>q. same_request t' q = same_request t q) \<and>
     (td_phase t' = td_phase t \<or> demo_edge (td_phase t) (td_phase t')) \<and>
     settled t' \<and>
     (td_phase t = CLOSED \<longrightarrow> settled t \<longrightarrow> t' = t\<lparr>td_updated_at := td_updated_at t'\<rparr>) \<and>
     (td_phase t = SAFETY_HOLD \<longrightarrow> exposed t \<longrightarrow> td_phase t' = SAFETY_HOLD) \<and>
     (exposed t \<longrightarrow> exposed t')"

definition moved :: "demo_db \<Rightarrow> demo_db \<Rightarrow> bool" where
  "moved db db' \<longleftrightarrow>
     (\<exists>k t t' h. fetch_trade db k = Some t \<and> fetch_trade db' k = Some t' \<and> demo_move t t' \<and>
        (\<forall>k'. k' \<noteq> k \<longrightarrow> fetch_trade db' k' = fetch_trade db k') \<and> days db' = days db \<and>
        trades db' = map (\<lambda>r. if td_trade_id r = k then h r else r) (trades db) \<and>
        (\<forall>r. td_trade_id (h r) = td_trade_id r \<and> td_observation_id (h r) = td_observation_id r \<and>
             td_phase (h r) = td_phase t') \<and>
        (td_phase t' \<noteq> CLOSED \<longrightarrow> td_phase t \<noteq> CLOSED))"

lemma transition_moved:
  assumes "demo_transition db k allowed target us now_utc rep = Inr (db', t')"
    and "\<And>t now. fetch_trade db k = Some t \<Longrightarrow> td_phase t \<in> set allowed \<Longrightarrow>
      (td_phase t = target \<Longrightarrow> \<forall>u \<in> set us. rep \<and> is_exit_order_id u \<or> \<not> update_conflicts u t) \<Longrightarrow>
      demo_move t (updated_trade target us now t)"
  shows "moved db db'"
  using assms(1)
proof (rule demo_transition_Inr)
  fix t now
  assume t: "fetch_trade db k = Some t" "td_phase t \<in> set allowed"
    "td_phase t = target \<Longrightarrow> \<forall>u \<in> set us. rep \<and> is_exit_order_id u \<or> \<not> update_conflicts u t"
    "t' = updated_trade target us now t" "fetch_trade db' k = Some t'"
    "\<And>k'. k' \<noteq> k \<Longrightarrow> fetch_trade db' k' = fetch_trade db k'"
    "trades db' = map (\<lambda>t. if td_trade_id t = k then updated_trade target us now t else t) (trades db)"
    "days db' = days db"
  from assms(2) [OF t(1-3)] have mv: "demo_move t t'" by (simp add: t(4))
  then have "td_phase t' \<noteq> CLOSED \<longrightarrow> td_phase t \<noteq> CLOSED"
    by (cases "td_phase t'") (auto simp: demo_move_def)
  with mv t show "moved db db'" unfolding moved_def
    by (intro exI [of _ k] exI [of _ t] exI [of _ t'] exI [of _ "updated_trade target us now"]) simp
qed

lemma exposed_updates: "exposed t \<Longrightarrow> exposed (foldl (\<lambda>t u. apply_update u t) t us)"
proof (induction us arbitrary: t)
  case (Cons u us)
  have "exposed (apply_update u t)" using Cons.prems by (cases u) (auto simp: exposed_def)
  then show ?case using Cons.IH by simp
qed simp

lemma exposed_updated: "exposed t \<Longrightarrow> exposed (updated_trade tg us now t)"
  unfolding updated_trade_def by (rule exposed_updates) (simp add: exposed_def)

text \<open>What a transition to another phase than CLOSED, and one to CLOSED, has to establish.\<close>

lemma move_open:
  assumes "td_phase t = tg \<or> demo_edge (td_phase t) tg" "tg \<noteq> CLOSED" "td_phase t = SAFETY_HOLD \<Longrightarrow> tg = SAFETY_HOLD"
  shows "demo_move t (updated_trade tg us now t)"
proof -
  have "td_phase t \<noteq> CLOSED" using assms(1,2) by auto
  with assms show ?thesis by (auto simp: demo_move_def settled_def intro: exposed_updated)
qed

lemma move_closed:
  assumes "demo_edge (td_phase t) CLOSED" "td_phase t = SAFETY_HOLD \<Longrightarrow> \<not> exposed t"
    and "td_realized_pnl (updated_trade CLOSED us now t) \<noteq> None" "td_closed_at (updated_trade CLOSED us now t) \<noteq> None"
  shows "demo_move t (updated_trade CLOSED us now t)"
proof -
  have "td_phase t \<noteq> CLOSED" using assms(1) by auto
  with assms show ?thesis by (auto simp: demo_move_def settled_def intro: exposed_updated)
qed

lemma move_closed_again:
  assumes "td_phase t = CLOSED" "\<not> update_conflicts (RealizedPnl p) t" "\<not> update_conflicts (ClosedAt w) t"
  shows "demo_move t (updated_trade CLOSED [RealizedPnl p, ClosedAt w] now t)"
proof -
  let ?t = "updated_trade CLOSED [RealizedPnl p, ClosedAt w] now t"
  have "settled ?t" by (simp add: settled_def updated_trade_def)
  moreover have "?t = t\<lparr>td_updated_at := td_updated_at ?t\<rparr>" if "settled t"
    using assms that by (cases t) (auto simp: updated_trade_def settled_def)
  ultimately show ?thesis using assms(1) by (simp add: demo_move_def exposed_updated)
qed

lemma mark_entry_submitted_moved: "mark_entry_submitted db k i t = Inr (db', r) \<Longrightarrow> moved db db'"
  unfolding mark_entry_submitted_def by (erule transition_moved, rule move_open) auto

lemma mark_open_moved:
  assumes "mark_open db k p t = Inr (db', r)"
  shows "moved db db'"
proof -
  obtain w where "demo_transition db k [ENTRY_SUBMITTED, OPEN] OPEN [EntryFillPrice p, OpenedAt w] t False = Inr (db', r)"
    using assms unfolding mark_open_def by (auto simp: bindE_eq_Inr split: if_splits)
  then show ?thesis by (rule transition_moved) (rule move_open, auto)
qed

lemma mark_exit_submitted_moved:
  assumes "mark_exit_submitted db k i w t = Inr (db', r)"
  shows "moved db db'"
proof -
  have "demo_transition db k [OPEN, EXIT_SUBMITTED] EXIT_SUBMITTED [ExitOrderId i, ExitReason w] t True = Inr (db', r)"
    using assms unfolding mark_exit_submitted_def by (simp split: if_splits)
  then show ?thesis by (rule transition_moved) (rule move_open, auto)
qed

lemma mark_closed_moved:
  assumes "mark_closed db k p t = Inr (db', r)"
  shows "moved db db'"
proof -
  obtain w where "demo_transition db k [ENTRY_SUBMITTED, EXIT_SUBMITTED, CLOSED] CLOSED [RealizedPnl p, ClosedAt w] t False
      = Inr (db', r)"
    using assms unfolding mark_closed_def by (auto simp: bindE_eq_Inr split: if_splits)
  then show ?thesis
  proof (rule transition_moved)
    fix x :: demo_trade and now
    assume x: "td_phase x \<in> set [ENTRY_SUBMITTED, EXIT_SUBMITTED, CLOSED]"
      "td_phase x = CLOSED \<Longrightarrow> \<forall>u \<in> set [RealizedPnl p, ClosedAt w]. False \<and> is_exit_order_id u \<or> \<not> update_conflicts u x"
    show "demo_move x (updated_trade CLOSED [RealizedPnl p, ClosedAt w] now x)"
    proof (cases "td_phase x = CLOSED")
      case True
      with x(2) show ?thesis by (intro move_closed_again) simp_all
    next
      case False
      with x(1) show ?thesis by (intro move_closed) (auto simp: updated_trade_def)
    qed
  qed
qed

lemma mark_safety_hold_moved:
  assumes "mark_safety_hold db k w t = Inr (db', r)"
  shows "moved db db'"
proof -
  have "demo_transition db k active_phases SAFETY_HOLD [SafetyReason w] t False = Inr (db', r)"
    using assms unfolding mark_safety_hold_def by (simp split: if_splits)
  then show ?thesis
  proof (rule transition_moved)
    fix x :: demo_trade and now
    assume "td_phase x \<in> set active_phases"
    then show "demo_move x (updated_trade SAFETY_HOLD [SafetyReason w] now x)"
      by (intro move_open) (cases "td_phase x"; simp add: active_phases_iff)+
  qed
qed

lemma close_unsubmitted_moved:
  assumes "close_unsubmitted_safety_hold db k t = Inr (db', r)"
  shows "moved db db'"
proof (cases "fetch_trade db k")
  case None
  with assms show ?thesis by (simp add: close_unsubmitted_safety_hold_def)
next
  case (Some x)
  with assms obtain closed where x: "td_phase x = SAFETY_HOLD" "\<not> exposed x"
      "demo_transition db k [SAFETY_HOLD] CLOSED
         [ExitReason ''UNSUBMITTED_ATTEMPT_CLEARED'', RealizedPnl (Dec False 0 0), ClosedAt closed] t False = Inr (db', r)"
    by (simp add: close_unsubmitted_safety_hold_def exposed_def bindE_eq_Inr split: if_splits) blast
  from x(3) show ?thesis
  proof (rule transition_moved)
    fix y :: demo_trade and now
    assume "fetch_trade db k = Some y"
    with Some have "y = x" by simp
    with x(1,2) show "demo_move y (updated_trade CLOSED
        [ExitReason ''UNSUBMITTED_ATTEMPT_CLEARED'', RealizedPnl (Dec False 0 0), ClosedAt closed] now y)"
      by (intro move_closed) (simp_all add: updated_trade_def)
  qed
qed

section \<open>The outcomes of an operation\<close>

definition began :: "(string \<Rightarrow> string) \<Rightarrow> demo_db \<Rightarrow> demo_db \<Rightarrow> bool" where
  "began f db db' \<longleftrightarrow>
     (\<exists>q now. fetch_trade db (f (rq_observation_id q)) = None \<and> active_trades db = [] \<and>
        days db' = days db \<and>
        trades db' = trades db @ [new_demo_trade (f (rq_observation_id q)) q now])"

lemma begin_trade_outcome:
  assumes "demo_begin_trade f db q t = Inr (db', r)"
  shows "db' = db \<and> fetch_trade db (f (rq_observation_id q)) = Some r \<and> same_request r q \<or>
    began f db db' \<and> (\<exists>now. r = new_demo_trade (f (rq_observation_id q)) q now)"
proof (cases "fetch_trade db (f (rq_observation_id q))")
  case (Some e)
  with assms show ?thesis by (auto simp: demo_begin_trade_def bindE_eq_Inr Let_def split: if_splits)
next
  case None
  with assms obtain now where "fetch_active db = Inr None"
      "db' = db\<lparr>trades := trades db @ [new_demo_trade (f (rq_observation_id q)) q now]\<rparr>"
      "r = new_demo_trade (f (rq_observation_id q)) q now"
    by (auto simp: demo_begin_trade_def bindE_eq_Inr Let_def split: if_splits)
  moreover from this(1) have "active_trades db = []"
    by (auto simp: fetch_active_def split: list.splits)
  ultimately show ?thesis using None by (auto simp: began_def)
qed

lemma ensure_day_trades: "ensure_day db now m = (db1, d) \<Longrightarrow> trades db1 = trades db"
  by (auto simp: ensure_day_def Let_def split: option.splits)

lemma ensure_day_fst: "trades (fst (ensure_day db now m)) = trades db"
  by (rule ensure_day_trades [OF surjective_pairing])

lemma day_ops_trades:
  "authorize_entry db t m c = Inr (db', d) \<Longrightarrow> trades db' = trades db"
  "record_entry db t m c = Inr (db', d) \<Longrightarrow> trades db' = trades db"
  "demo_record_close db t m p c = Inr (db', d) \<Longrightarrow> trades db' = trades db"
  "demo_activate_kill_switch db t m w = Inr (db', d) \<Longrightarrow> trades db' = trades db"
  unfolding authorize_entry_def record_entry_def demo_record_close_def demo_activate_kill_switch_def set_day_def
  by (auto simp: bindE_eq_Inr Let_def split_beta ensure_day_fst dest: ensure_day_trades split: if_splits)

lemma committed_cases:
  assumes "\<And>db' a. r = Inr (db', a) \<Longrightarrow> P db'" "P db"
  shows "P (committed db r)"
  using assms by (cases r) (auto simp: committed_def)

lemma demo_step_outcome:
  "trades (demo_step f db x) = trades db \<or> began f db (demo_step f db x) \<or> moved db (demo_step f db x)"
proof (cases x)
  case (BeginTrade q t)
  show ?thesis unfolding BeginTrade demo_step.simps
    by (rule committed_cases) (auto dest: begin_trade_outcome)
next
  case (MarkEntrySubmitted k i t)
  show ?thesis unfolding MarkEntrySubmitted demo_step.simps
    by (rule committed_cases) (auto dest: mark_entry_submitted_moved)
next
  case (MarkOpen k p t)
  show ?thesis unfolding MarkOpen demo_step.simps
    by (rule committed_cases) (auto dest: mark_open_moved)
next
  case (MarkExitSubmitted k i w t)
  show ?thesis unfolding MarkExitSubmitted demo_step.simps
    by (rule committed_cases) (auto dest: mark_exit_submitted_moved)
next
  case (MarkClosed k p t)
  show ?thesis unfolding MarkClosed demo_step.simps
    by (rule committed_cases) (auto dest: mark_closed_moved)
next
  case (MarkSafetyHold k w t)
  show ?thesis unfolding MarkSafetyHold demo_step.simps
    by (rule committed_cases) (auto dest: mark_safety_hold_moved)
next
  case (CloseUnsubmittedSafetyHold k t)
  show ?thesis unfolding CloseUnsubmittedSafetyHold demo_step.simps
    by (rule committed_cases) (auto dest: close_unsubmitted_moved)
next
  case (AuthorizeEntry t m c)
  show ?thesis unfolding AuthorizeEntry demo_step.simps
    by (rule committed_cases) (auto dest: day_ops_trades)
next
  case (RecordEntry t m c)
  show ?thesis unfolding RecordEntry demo_step.simps
    by (rule committed_cases) (auto dest: day_ops_trades)
next
  case (RecordClose t m p c)
  show ?thesis unfolding RecordClose demo_step.simps
    by (rule committed_cases) (auto dest: day_ops_trades)
next
  case (ActivateKillSwitch t m w)
  show ?thesis unfolding ActivateKillSwitch demo_step.simps
    by (rule committed_cases) (auto dest: day_ops_trades)
qed

end
