(* ===== verification/Demo_Guarantees.thy ===== *)
theory Demo_Guarantees
  imports Demo_State
begin

text \<open>
  What the durable Demo state promises over any sequence of its operations: one active trade,
  paths of a trade through the phases, idempotent creation, frozen closed trades, safety holds
  that keep their exposure, and the daily entry limits.
\<close>

section \<open>The invariant of the trade table\<close>

definition demo_ok :: "demo_db \<Rightarrow> bool" where
  "demo_ok db \<longleftrightarrow>
     distinct (map td_trade_id (trades db)) \<and> length (active_trades db) \<le> 1 \<and> list_all settled (trades db)"

definition trade_phase_of :: "demo_db \<Rightarrow> string \<Rightarrow> trade_phase option" where
  "trade_phase_of db k = map_option td_phase (fetch_trade db k)"

lemma demo_ok_empty [simp]: "demo_ok empty_demo_db"
  by (simp add: demo_ok_def empty_demo_db_def active_trades_def)

lemma length_filter_map_le:
  "(\<And>x. x \<in> set xs \<Longrightarrow> P (g x) \<Longrightarrow> P x) \<Longrightarrow> length (filter P (map g xs)) \<le> length (filter P xs)"
  by (induction xs) (auto intro: le_SucI)

lemma fetch_trade_iff:
  "distinct (map td_trade_id (trades db)) \<Longrightarrow>
   fetch_trade db k = Some t \<longleftrightarrow> t \<in> set (trades db) \<and> td_trade_id t = k"
  by (simp add: fetch_trade_def find_key_iff)

lemma fetch_trade_none: "fetch_trade db k = None \<longleftrightarrow> k \<notin> td_trade_id ` set (trades db)"
  by (simp add: fetch_trade_def find_key_none)

lemma demo_ok_began:
  assumes ok: "demo_ok db" and b: "began f db db'"
  shows "demo_ok db'"
proof -
  obtain q now where q: "fetch_trade db (f (rq_observation_id q)) = None" "active_trades db = []"
      "trades db' = trades db @ [new_demo_trade (f (rq_observation_id q)) q now]"
    using b by (auto simp: began_def)
  have "td_trade_id (new_demo_trade k q now) = k" "td_phase (new_demo_trade k q now) = OBSERVED" for k
    by (simp_all add: new_demo_trade_def)
  with ok q show ?thesis
    by (auto simp: demo_ok_def active_trades_def fetch_trade_none settled_def)
qed

lemma demo_ok_moved:
  assumes ok: "demo_ok db" and m: "moved db db'"
  shows "demo_ok db'"
proof -
  obtain k t t' h where m: "fetch_trade db k = Some t" "fetch_trade db' k = Some t'" "demo_move t t'"
      "trades db' = map (\<lambda>r. if td_trade_id r = k then h r else r) (trades db)"
      "\<forall>r. td_trade_id (h r) = td_trade_id r \<and> td_observation_id (h r) = td_observation_id r \<and>
             td_phase (h r) = td_phase t'"
      "td_phase t' \<noteq> CLOSED \<longrightarrow> td_phase t \<noteq> CLOSED"
    using m unfolding moved_def by blast
  from ok have d: "distinct (map td_trade_id (trades db))" by (simp add: demo_ok_def)
  have ids: "map td_trade_id (trades db') = map td_trade_id (trades db)" by (simp add: m(4,5) if_distrib [of td_trade_id] cong: if_cong)
  have row: "r = t" if "r \<in> set (trades db)" "td_trade_id r = k" for r
    using fetch_trade_iff [OF d, of k r] m(1) that by simp
  have ht: "h t = t'"
    using m(1,2) m(5) by (simp add: fetch_trade_def m(4) find_map_key)
  have "length (active_trades db') \<le> length (active_trades db)"
    unfolding active_trades_def m(4)
    by (rule length_filter_map_le) (use row m(5,6) in \<open>auto simp: active_phases_iff split: if_splits\<close>)
  moreover have "settled t'" using m(3) by (simp add: demo_move_def)
  moreover have "r \<in> set (trades db) \<Longrightarrow> settled r" for r using ok by (simp add: demo_ok_def list_all_iff)
  ultimately have "\<forall>r \<in> set (trades db'). settled r" using row ht by (auto simp: m(4))
  with \<open>length (active_trades db') \<le> length (active_trades db)\<close> ok ids show ?thesis
    by (simp add: demo_ok_def list_all_iff)
qed

lemma demo_ok_same: "trades db' = trades db \<Longrightarrow> demo_ok db \<Longrightarrow> demo_ok db'"
  by (simp add: demo_ok_def active_trades_def)

lemma demo_step_ok: "demo_ok db \<Longrightarrow> demo_ok (demo_step f db x)"
  using demo_step_outcome [of f db x] by (blast intro: demo_ok_began demo_ok_moved demo_ok_same)

lemma fetch_trade_same: "trades db' = trades db \<Longrightarrow> fetch_trade db' = fetch_trade db"
  by (simp add: fetch_trade_def fun_eq_iff)

text \<open>One operation seen from one trade.\<close>

lemma demo_step_trade:
  obtains (same) "fetch_trade (demo_step f db x) k = fetch_trade db k"
  | (fresh) q now where "fetch_trade db k = None" "k = f (rq_observation_id q)"
      "fetch_trade (demo_step f db x) k = Some (new_demo_trade k q now)"
  | (move) t t' where "fetch_trade db k = Some t" "fetch_trade (demo_step f db x) k = Some t'" "demo_move t t'"
proof -
  consider "trades (demo_step f db x) = trades db" | "began f db (demo_step f db x)" | "moved db (demo_step f db x)"
    using demo_step_outcome by blast
  then show thesis
  proof cases
    case 1
    then show thesis by (intro same) (simp add: fetch_trade_same [OF 1])
  next
    case 2
    then obtain q now where q: "fetch_trade db (f (rq_observation_id q)) = None"
        "trades (demo_step f db x) = trades db @ [new_demo_trade (f (rq_observation_id q)) q now]"
      by (auto simp: began_def)
    have "td_trade_id (new_demo_trade i q now) = i" for i by (simp add: new_demo_trade_def)
    with q have f: "fetch_trade (demo_step f db x) k =
        (if k = f (rq_observation_id q) then Some (new_demo_trade k q now) else fetch_trade db k)"
      by (auto simp: fetch_trade_def find_append split: option.splits)
    show thesis
    proof (cases "k = f (rq_observation_id q)")
      case True
      then show thesis using f q(1) by (intro fresh [of q now]) simp_all
    qed (use f same in simp)
  next
    case 3
    then show thesis unfolding moved_def by (metis same move)
  qed
qed

lemma new_demo_trade_phase [simp]: "td_phase (new_demo_trade k q now) = OBSERVED"
  by (simp add: new_demo_trade_def)

interpretation demo_life: lifecycle "demo_step f" trade_phase_of demo_edge "\<lambda>p. p = OBSERVED" demo_ok for f
proof unfold_locales
  fix db x k p q
  show "demo_ok db \<Longrightarrow> demo_ok (demo_step f db x)" by (rule demo_step_ok)
  show "trade_phase_of db k = None \<Longrightarrow> trade_phase_of (demo_step f db x) k = Some q \<Longrightarrow> q = OBSERVED"
    by (cases rule: demo_step_trade [of f db x k]) (auto simp: trade_phase_of_def)
  show "trade_phase_of db k = Some p \<Longrightarrow>
      \<exists>q. trade_phase_of (demo_step f db x) k = Some q \<and> (q = p \<or> demo_edge p q)"
    by (cases rule: demo_step_trade [of f db x k]) (auto simp: trade_phase_of_def demo_move_def)
qed

section \<open>Facts about one trade that every operation keeps\<close>

lemma run_trade_invariant:
  assumes "fetch_trade db k = Some t" "P t" and step: "\<And>t t'. P t \<Longrightarrow> demo_move t t' \<Longrightarrow> P t'"
  shows "\<exists>t'. fetch_trade (foldl (demo_step f) db xs) k = Some t' \<and> P t'"
  using assms(1,2)
proof (induction xs arbitrary: db t)
  case (Cons x xs)
  from Cons.prems have "\<exists>t'. fetch_trade (demo_step f db x) k = Some t' \<and> P t'"
    by (cases rule: demo_step_trade [of f db x k]) (auto dest: step)
  with Cons.IH show ?case by auto
qed simp

lemma run_from_empty_ok: "demo_ok (foldl (demo_step f) empty_demo_db xs)"
  by (rule demo_life.run_inv) simp

lemma begin_trade_row:
  assumes "demo_begin_trade f db q t = Inr (db', r)"
  shows "fetch_trade db' (f (rq_observation_id q)) = Some r" "same_request r q" "check_request q = Inr ()"
proof -
  from assms show c: "check_request q = Inr ()" by (auto simp: demo_begin_trade_def bindE_eq_Inr)
  have same: "same_request (new_demo_trade k q now) q" for k now
    using c by (auto simp: check_request_def same_request_def new_demo_trade_def dec_opt_eq_def
        dec_eq_refl split: if_splits option.splits)
  from assms show "same_request r q" using begin_trade_outcome same by blast
  have id: "td_trade_id (new_demo_trade k q now) = k" for k q now by (simp add: new_demo_trade_def)
  show "fetch_trade db' (f (rq_observation_id q)) = Some r"
  proof (cases "fetch_trade db (f (rq_observation_id q))")
    case (Some e)
    with assms show ?thesis by (auto simp: demo_begin_trade_def bindE_eq_Inr Let_def split: if_splits)
  next
    case None
    with assms obtain now where
        "trades db' = trades db @ [new_demo_trade (f (rq_observation_id q)) q now]"
        "r = new_demo_trade (f (rq_observation_id q)) q now"
      by (auto simp: demo_begin_trade_def bindE_eq_Inr Let_def split: if_splits)
    with None show ?thesis by (simp add: fetch_trade_def find_append id)
  qed
qed

section \<open>Facts about one day that every operation keeps\<close>

definition day_move :: "int \<Rightarrow> demo_day \<Rightarrow> demo_day \<Rightarrow> bool" where
  "day_move m d d' \<longleftrightarrow>
     dd_date d' = dd_date d \<and> dd_starting_capital d' = dd_starting_capital d \<and>
     (dd_entries d' = dd_entries d \<or> dd_entries d < m \<and> dd_entries d' = dd_entries d + 1) \<and>
     (dd_kill_reason d \<noteq> None \<longrightarrow> dd_kill_reason d' \<noteq> None \<and> dd_entries d' = dd_entries d)"

text \<open>The largest number of entries an operation may admit.\<close>

fun admits :: "demo_op \<Rightarrow> int" where
  "admits (RecordEntry t m c) = dc_max_trades_per_day c"
| "admits _ = 0"

definition days_ok :: "demo_db \<Rightarrow> bool" where
  "days_ok db \<longleftrightarrow> (\<forall>date d. fetch_day db date = Some d \<longrightarrow> dd_date d = date)"

lemma ensure_day_cases:
  assumes "days_ok db" "ensure_day db now m = (db1, d)"
  obtains "days_ok db1" "fetch_day db1 (utc_date now) = Some d" "dd_date d = utc_date now"
    "\<And>date. date \<noteq> utc_date now \<Longrightarrow> fetch_day db1 date = fetch_day db date"
    "case fetch_day db (utc_date now) of Some d' \<Rightarrow> d' = d | None \<Rightarrow> dd_entries d = 0 \<and> dd_kill_reason d = None"
  using assms
  by (auto simp: ensure_day_def days_ok_def fetch_day_def update_conv' Let_def split: option.splits)

lemma set_day_fetch:
  "fetch_day (fst (set_day db d)) date = (if date = dd_date d then Some d else fetch_day db date)"
  by (simp add: set_day_def fetch_day_def update_conv')

lemma transition_days: "demo_transition db k al tg us t r = Inr (db', row) \<Longrightarrow> days db' = days db"
  by (rule demo_transition_Inr)

lemma trade_ops_days:
  "demo_begin_trade f db q t = Inr (db', r) \<Longrightarrow> days db' = days db"
  "mark_entry_submitted db k i t = Inr (db', r) \<Longrightarrow> days db' = days db"
  "mark_open db k p t = Inr (db', r) \<Longrightarrow> days db' = days db"
  "mark_exit_submitted db k i w t = Inr (db', r) \<Longrightarrow> days db' = days db"
  "mark_closed db k p t = Inr (db', r) \<Longrightarrow> days db' = days db"
  "mark_safety_hold db k w t = Inr (db', r) \<Longrightarrow> days db' = days db"
  "close_unsubmitted_safety_hold db k t = Inr (db', r) \<Longrightarrow> days db' = days db"
  using begin_trade_outcome [of f db q t db' r]
  by (auto simp: began_def mark_entry_submitted_def mark_open_def mark_exit_submitted_def mark_closed_def
      mark_safety_hold_def close_unsubmitted_safety_hold_def bindE_eq_Inr
      split: if_splits option.splits dest: transition_days)

definition day_step :: "int \<Rightarrow> demo_day option \<Rightarrow> demo_day option \<Rightarrow> bool" where
  "day_step m old new \<longleftrightarrow>
     (case old of
        Some d \<Rightarrow> (\<exists>d'. new = Some d' \<and> day_move m d d')
      | None \<Rightarrow> (case new of None \<Rightarrow> True | Some d' \<Rightarrow> dd_entries d' \<le> max 0 m))"

definition days_step :: "int \<Rightarrow> demo_db \<Rightarrow> demo_db \<Rightarrow> bool" where
  "days_step m db db' \<longleftrightarrow> days_ok db' \<and> (\<forall>date. day_step m (fetch_day db date) (fetch_day db' date))"

lemma day_move_refl [simp]: "day_move m d d"
  by (simp add: day_move_def)

lemma set_day_eq: "set_day a d = (db', r) \<longleftrightarrow> db' = fst (set_day a d) \<and> r = d"
  by (auto simp: set_day_def)

lemma days_step_same: "days_ok db \<Longrightarrow> days db' = days db \<Longrightarrow> days_step m db db'"
  by (auto simp: days_step_def day_step_def days_ok_def fetch_day_def split: option.splits)

lemma days_step_ensure:
  assumes "days_ok db" "ensure_day db now c = (db1, d)"
  shows "days_step m db db1"
  using assms
proof (rule ensure_day_cases)
  assume e: "days_ok db1" "fetch_day db1 (utc_date now) = Some d"
    "\<And>date. date \<noteq> utc_date now \<Longrightarrow> fetch_day db1 date = fetch_day db date"
    "case fetch_day db (utc_date now) of Some d' \<Rightarrow> d' = d | None \<Rightarrow> dd_entries d = 0 \<and> dd_kill_reason d = None"
  have "day_step m (fetch_day db date) (fetch_day db1 date)" for date
    using e(2-4) by (cases "date = utc_date now") (auto simp: day_step_def split: option.splits)
  with e(1) show ?thesis by (simp add: days_step_def)
qed

lemma days_step_set:
  assumes "days_ok db" "ensure_day db now c = (db1, d)" "day_move m d d'"
  shows "days_step m db (fst (set_day db1 d'))"
  using assms(1,2)
proof (rule ensure_day_cases)
  assume e: "days_ok db1" "fetch_day db1 (utc_date now) = Some d" "dd_date d = utc_date now"
    "\<And>date. date \<noteq> utc_date now \<Longrightarrow> fetch_day db1 date = fetch_day db date"
    "case fetch_day db (utc_date now) of Some d' \<Rightarrow> d' = d | None \<Rightarrow> dd_entries d = 0 \<and> dd_kill_reason d = None"
  have date: "dd_date d' = utc_date now" using assms(3) e(3) by (simp add: day_move_def)
  have "day_step m (fetch_day db date) (fetch_day (fst (set_day db1 d')) date)" for date
    using e(4,5) assms(3) date
    by (cases "date = utc_date now")
      (auto simp: day_step_def set_day_fetch day_move_def split: option.splits)
  moreover have "days_ok (fst (set_day db1 d'))"
    using e(1) date by (simp add: days_ok_def set_day_fetch)
  ultimately show ?thesis by (simp add: days_step_def)
qed

lemmas days_step_ensure_fst = days_step_ensure [OF _ surjective_pairing]
lemmas days_step_set_fst = days_step_set [OF _ surjective_pairing]

lemma authorize_entry_step:
  assumes "days_ok db" "authorize_entry db t c cfg = Inr (db', r)"
  shows "days_step m db db'"
proof -
  obtain now where "db' = fst (ensure_day db now c)"
    using assms(2) unfolding authorize_entry_def split_beta if_Inl_eq_Inr bindE_eq_Inr
    by (auto, metis fst_conv)
  then show ?thesis using days_step_ensure_fst [OF assms(1)] by simp
qed

lemma validate_Inr:
  "validate_entry_authorization d now c cfg = Inr u \<Longrightarrow>
   finite_positive c \<and> dd_kill_reason d = None \<and> dd_entries d < dc_max_trades_per_day cfg \<and>
   (case dd_cooldown_until d of None \<Rightarrow> True | Some w \<Rightarrow> w \<le> now) \<and>
   (\<exists>l. daily_loss_limit_usd (dd_starting_capital d) cfg = Inr l \<and> - l < dd_realized_pnl d)"
  by (auto simp: validate_entry_authorization_def bindE_eq_Inr split: if_splits option.splits)

lemma record_entry_step:
  assumes ok: "days_ok db" and r: "record_entry db t c cfg = Inr (db', r)"
  shows "days_step (dc_max_trades_per_day cfg) db db'"
proof -
  obtain now where e: "validate_entry_authorization (snd (ensure_day db now c)) now c cfg = Inr ()"
      "db' = fst (set_day (fst (ensure_day db now c))
         ((snd (ensure_day db now c))\<lparr>dd_entries := dd_entries (snd (ensure_day db now c)) + 1, dd_updated_at := now\<rparr>))"
    using r unfolding record_entry_def by (auto simp: bindE_eq_Inr split_beta set_day_eq)
  show ?thesis unfolding e(2)
    by (rule days_step_set_fst [OF ok]) (use validate_Inr [OF e(1)] in \<open>simp add: day_move_def\<close>)
qed

lemma record_close_step:
  assumes ok: "days_ok db" and r: "demo_record_close db t c p cfg = Inr (db', r)"
  shows "days_step m db db'"
proof -
  obtain now l where "db' = fst (set_day (fst (ensure_day db now c)) ((snd (ensure_day db now c))
       \<lparr>dd_realized_pnl := dd_realized_pnl (snd (ensure_day db now c)) + num_val p,
         dd_cooldown_until := Some (now + seconds (dc_cooldown_seconds cfg)),
         dd_kill_reason := (if dd_realized_pnl (snd (ensure_day db now c)) + num_val p \<le> - l
           then Some ''DAILY_LOSS_LIMIT'' else dd_kill_reason (snd (ensure_day db now c))),
         dd_updated_at := now\<rparr>))"
    using r unfolding demo_record_close_def Let_def split_beta
    unfolding if_Inl_eq_Inr bindE_eq_Inr sum.inject set_day_eq by blast
  then show ?thesis using days_step_set_fst [OF ok, of m] by (simp add: day_move_def)
qed

lemma activate_kill_step:
  assumes ok: "days_ok db" and r: "demo_activate_kill_switch db t c w = Inr (db', r)"
  shows "days_step m db db'"
proof -
  obtain now where e: "db' = fst (set_day (fst (ensure_day db now c))
       ((snd (ensure_day db now c))\<lparr>dd_kill_reason := Some w, dd_updated_at := now\<rparr>))"
    using r unfolding demo_activate_kill_switch_def split_beta
    by (auto simp: bindE_eq_Inr set_day_eq split: if_split_asm)
  show ?thesis unfolding e by (rule days_step_set_fst [OF ok]) (simp add: day_move_def)
qed

lemmas op_days_steps = authorize_entry_step record_entry_step record_close_step activate_kill_step
  days_step_same days_step_same [OF _ trade_ops_days(1)] days_step_same [OF _ trade_ops_days(2)]
  days_step_same [OF _ trade_ops_days(3)] days_step_same [OF _ trade_ops_days(4)]
  days_step_same [OF _ trade_ops_days(5)] days_step_same [OF _ trade_ops_days(6)]
  days_step_same [OF _ trade_ops_days(7)]

lemma demo_step_days: "days_ok db \<Longrightarrow> days_step (admits x) db (demo_step f db x)"
  by (cases x; simp only: demo_step.simps admits.simps; rule committed_cases) (blast intro: op_days_steps)+

lemma days_ok_empty [simp]: "days_ok empty_demo_db"
  by (simp add: days_ok_def empty_demo_db_def fetch_day_def)

lemma run_days_ok: "days_ok db \<Longrightarrow> days_ok (foldl (demo_step f) db xs)"
  by (induction xs arbitrary: db) (use demo_step_days in \<open>auto simp: days_step_def\<close>)

lemma run_day_invariant:
  assumes "days_ok db" "fetch_day db date = Some d" "P d"
    and step: "\<And>m d d'. P d \<Longrightarrow> day_move m d d' \<Longrightarrow> P d'"
  shows "\<exists>d'. fetch_day (foldl (demo_step f) db xs) date = Some d' \<and> P d'"
  using assms(1-3)
proof (induction xs arbitrary: db d)
  case (Cons x xs)
  from demo_step_days [OF Cons.prems(1), of x f] Cons.prems(2,3)
  have "days_ok (demo_step f db x)" "\<exists>d'. fetch_day (demo_step f db x) date = Some d' \<and> P d'"
    using step by (auto simp: days_step_def day_step_def dest!: spec [of _ date])
  with Cons.IH show ?case by auto
qed auto

lemma run_entries_bounded:
  assumes "days_ok db" "\<And>d. fetch_day db date = Some d \<Longrightarrow> dd_entries d \<le> m" "0 \<le> m"
    and "\<forall>x \<in> set xs. admits x \<le> m"
    and "fetch_day (foldl (demo_step f) db xs) date = Some d"
  shows "dd_entries d \<le> m"
  using assms
proof (induction xs arbitrary: db)
  case (Cons x xs)
  have st: "days_step (admits x) db (demo_step f db x)" using demo_step_days [OF Cons.prems(1)] .
  have "dd_entries d' \<le> m" if d': "fetch_day (demo_step f db x) date = Some d'" for d'
  proof -
    have ds: "day_step (admits x) (fetch_day db date) (Some d')" using st d' unfolding days_step_def by metis
    have am: "admits x \<le> m" using Cons.prems(4) by simp
    show ?thesis
    proof (cases "fetch_day db date")
      case None
      with ds am Cons.prems(3) show ?thesis by (simp add: day_step_def)
    next
      case (Some d0)
      with ds am Cons.prems(2) [OF Some] show ?thesis by (auto simp: day_step_def day_move_def)
    qed
  qed
  moreover have "days_ok (demo_step f db x)" using st by (simp add: days_step_def)
  ultimately show ?case using Cons.IH [of "demo_step f db x"] Cons.prems(3-5) by simp
qed simp

lemma ensure_existing: "fetch_day db (utc_date now) = Some d \<Longrightarrow> ensure_day db now c = (db, d)"
  by (simp add: ensure_day_def)

lemma killed_day_blocks:
  assumes "days_ok db" "fetch_day db (utc_date now) = Some d" "dd_kill_reason d \<noteq> None"
  shows "\<exists>e. record_entry (foldl (demo_step f) db ys) (Aware now) c cfg = Inl e"
    "\<exists>e. authorize_entry (foldl (demo_step f) db ys) (Aware now) c cfg = Inl e"
proof -
  obtain d' where "fetch_day (foldl (demo_step f) db ys) (utc_date now) = Some d'" "dd_kill_reason d' \<noteq> None"
    using run_day_invariant [OF assms(1,2), of "\<lambda>d. dd_kill_reason d \<noteq> None" f ys] assms(3)
    by (auto simp: day_move_def)
  then show "\<exists>e. record_entry (foldl (demo_step f) db ys) (Aware now) c cfg = Inl e"
    "\<exists>e. authorize_entry (foldl (demo_step f) db ys) (Aware now) c cfg = Inl e"
    by (auto simp: record_entry_def authorize_entry_def ensure_existing validate_entry_authorization_def)
qed

lemma record_close_day:
  assumes "days_ok db" "demo_record_close db (Aware now) cap pnl cfg = Inr (db', d)"
  shows "days_ok db'" "fetch_day db' (utc_date now) = Some d"
    "daily_loss_limit_usd (dd_starting_capital d) cfg = Inr l \<Longrightarrow> dd_realized_pnl d \<le> - l \<Longrightarrow> dd_kill_reason d \<noteq> None"
proof -
  obtain db1 d1 where e: "ensure_day db now cap = (db1, d1)" by (cases "ensure_day db now cap")
  have date: "dd_date d1 = utc_date now" using assms(1) e by (rule ensure_day_cases)
  obtain l' where l': "daily_loss_limit_usd (dd_starting_capital d1) cfg = Inr l'" "db' = fst (set_day db1 d)"
      "d = d1\<lparr>dd_realized_pnl := dd_realized_pnl d1 + num_val pnl,
         dd_cooldown_until := Some (now + seconds (dc_cooldown_seconds cfg)),
         dd_kill_reason := (if dd_realized_pnl d1 + num_val pnl \<le> - l' then Some ''DAILY_LOSS_LIMIT''
           else dd_kill_reason d1), dd_updated_at := now\<rparr>"
    using assms(2) unfolding demo_record_close_def Let_def utc_of_simps bindE_simps e prod.case if_Inl_eq_Inr
      bindE_eq_Inr sum.inject set_day_eq by blast
  then have parts: "dd_date d = dd_date d1" "dd_starting_capital d = dd_starting_capital d1"
      "dd_realized_pnl d = dd_realized_pnl d1 + num_val pnl"
      "dd_realized_pnl d \<le> - l' \<Longrightarrow> dd_kill_reason d = Some ''DAILY_LOSS_LIMIT''"
    by simp_all
  then show "fetch_day db' (utc_date now) = Some d" using date l'(2) by (simp add: set_day_fetch)
  show "days_ok db'" using record_close_step [OF assms] by (simp add: days_step_def)
  assume "daily_loss_limit_usd (dd_starting_capital d) cfg = Inr l" "dd_realized_pnl d \<le> - l"
  with l'(1) parts show "dd_kill_reason d \<noteq> None" by simp
qed

lemma activate_kill_day:
  assumes "days_ok db" "demo_activate_kill_switch db (Aware now) cap w = Inr (db', d)"
  shows "days_ok db'" "fetch_day db' (utc_date now) = Some d" "dd_kill_reason d \<noteq> None"
proof -
  obtain db1 d1 where e: "ensure_day db now cap = (db1, d1)" by (cases "ensure_day db now cap")
  have "dd_date d1 = utc_date now" using assms(1) e by (rule ensure_day_cases)
  with assms(2) e show "fetch_day db' (utc_date now) = Some d" "dd_kill_reason d \<noteq> None"
    by (auto simp: demo_activate_kill_switch_def set_day_def fetch_day_def update_conv' split: if_splits)
  show "days_ok db'" using activate_kill_step [OF assms] by (simp add: days_step_def)
qed

section \<open>Properties\<close>

text \<open>
  C24. Whatever operations run from the empty database, at most one Demo trade is active, the
  trade ids are distinct, and every closed trade carries its realized result and closing time.
\<close>

theorem demo_one_active_trade:
  "length (active_trades (foldl (demo_step f) empty_demo_db xs)) \<le> 1 \<and>
   distinct (map td_trade_id (trades (foldl (demo_step f) empty_demo_db xs))) \<and>
   list_all settled (trades (foldl (demo_step f) empty_demo_db xs))"
  using run_from_empty_ok [of f xs] by (simp add: demo_ok_def)

text \<open>
  A trade that is closed stays closed under every later operation, and its row never changes
  except for the update time.
\<close>

theorem demo_closed_trade_frozen:
  assumes "fetch_trade (foldl (demo_step f) empty_demo_db xs) k = Some t" "td_phase t = CLOSED"
  shows "\<exists>u. fetch_trade (foldl (demo_step f) empty_demo_db (xs @ ys)) k = Some (t\<lparr>td_updated_at := u\<rparr>)"
proof -
  let ?db = "foldl (demo_step f) empty_demo_db xs"
  let ?P = "\<lambda>r. td_phase r = CLOSED \<and> settled r \<and> (\<exists>u. r = t\<lparr>td_updated_at := u\<rparr>)"
  have "settled t"
    using run_from_empty_ok [of f xs] assms(1)
    by (auto simp: demo_ok_def fetch_trade_iff list_all_iff)
  moreover have "\<exists>u. t = t\<lparr>td_updated_at := u\<rparr>" by (intro exI [of _ "td_updated_at t"]) simp
  ultimately have "?P t" using assms(2) by simp
  moreover have "?P r'" if "?P r" "demo_move r r'" for r r'
  proof -
    from that have "settled r'" "r' = r\<lparr>td_updated_at := td_updated_at r'\<rparr>"
      by (simp_all add: demo_move_def)
    with that(1) show ?thesis by (metis (no_types, lifting) demo_trade.surjective demo_trade.update_convs(20) demo_trade.select_convs(6))
  qed
  ultimately have "\<exists>r. fetch_trade (foldl (demo_step f) ?db ys) k = Some r \<and> ?P r"
    using assms(1) by (intro run_trade_invariant)
  then show ?thesis unfolding foldl_append by blast
qed

text \<open>
  Beginning a trade is idempotent: after any later operations the same request returns the
  trade that was created first and leaves the database as it is.
\<close>

theorem demo_begin_trade_idempotent:
  assumes "demo_begin_trade f db q now = Inr (db', t)"
  shows "\<exists>t'. demo_begin_trade f (foldl (demo_step f) db' xs) q (Aware later) =
      Inr (foldl (demo_step f) db' xs, t') \<and> td_trade_id t' = td_trade_id t"
proof -
  have t: "fetch_trade db' (f (rq_observation_id q)) = Some t" "same_request t q" "check_request q = Inr ()"
    using begin_trade_row [OF assms] .
  have "\<exists>r. fetch_trade (foldl (demo_step f) db' xs) (f (rq_observation_id q)) = Some r \<and>
      same_request r q \<and> td_trade_id r = td_trade_id t"
    using t by (intro run_trade_invariant) (simp_all add: demo_move_def)
  then obtain t' where "fetch_trade (foldl (demo_step f) db' xs) (f (rq_observation_id q)) = Some t'"
      "same_request t' q" "td_trade_id t' = td_trade_id t" by blast
  with t(3) show ?thesis by (auto simp: demo_begin_trade_def)
qed

text \<open>
  A safety hold with order exposure (an entry order, an opening or an exit order on record) is
  never released by any sequence of operations.
\<close>

theorem demo_exposed_hold_kept:
  assumes "fetch_trade (foldl (demo_step f) empty_demo_db xs) k = Some t"
    and "td_phase t = SAFETY_HOLD" "exposed t"
  shows "trade_phase_of (foldl (demo_step f) empty_demo_db (xs @ ys)) k = Some SAFETY_HOLD \<and>
    (\<forall>now. \<exists>e. close_unsubmitted_safety_hold (foldl (demo_step f) empty_demo_db (xs @ ys)) k now = Inl e)"
proof -
  obtain t' where "fetch_trade (foldl (demo_step f) empty_demo_db (xs @ ys)) k = Some t'"
      "td_phase t' = SAFETY_HOLD" "exposed t'"
    using run_trade_invariant [OF assms(1), of "\<lambda>r. td_phase r = SAFETY_HOLD \<and> exposed r" f ys] assms(2,3)
    by (auto simp: demo_move_def)
  then show ?thesis
    by (auto simp: trade_phase_of_def close_unsubmitted_safety_hold_def exposed_def)
qed

text \<open>
  Once the realized loss of a day reaches the daily limit, no later operation of that day
  authorizes or records an entry, whatever runs in between and whatever configuration is passed.
\<close>

theorem demo_daily_loss_stops:
  assumes "demo_record_close (foldl (demo_step f) empty_demo_db xs) (Aware now) cap pnl cfg = Inr (db, d)"
    and "daily_loss_limit_usd (dd_starting_capital d) cfg = Inr l" "dd_realized_pnl d \<le> - l"
    and "utc_date now' = utc_date now"
  shows "(\<exists>e. record_entry (foldl (demo_step f) db ys) (Aware now') cap' cfg' = Inl e) \<and>
    (\<exists>e. authorize_entry (foldl (demo_step f) db ys) (Aware now') cap' cfg' = Inl e)"
proof -
  note day = record_close_day [OF run_days_ok [OF days_ok_empty] assms(1)]
  from day(2) have "fetch_day db (utc_date now') = Some d" by (simp add: assms(4))
  from killed_day_blocks [OF day(1) this day(3) [OF assms(2,3)]] show ?thesis by blast
qed

text \<open>
  After the kill switch has been activated on a day, no entry is authorized or recorded on
  that day again.
\<close>

theorem demo_kill_switch_stops:
  assumes "demo_activate_kill_switch (foldl (demo_step f) empty_demo_db xs) (Aware now) cap why = Inr (db, d)"
    and "utc_date now' = utc_date now"
  shows "(\<exists>e. record_entry (foldl (demo_step f) db ys) (Aware now') cap' cfg' = Inl e) \<and>
    (\<exists>e. authorize_entry (foldl (demo_step f) db ys) (Aware now') cap' cfg' = Inl e)"
proof -
  note day = activate_kill_day [OF run_days_ok [OF days_ok_empty] assms(1)]
  from day(2) have "fetch_day db (utc_date now') = Some d" by (simp add: assms(2))
  from killed_day_blocks [OF day(1) this day(3)] show ?thesis by blast
qed

text \<open>
  The number of entries recorded on a day never exceeds the largest daily limit among the
  configurations the entries were recorded with.
\<close>

theorem demo_entries_bounded:
  assumes "\<forall>x \<in> set xs. admits x \<le> m" "0 \<le> m"
    and "fetch_day (foldl (demo_step f) empty_demo_db xs) date = Some d"
  shows "dd_entries d \<le> m"
  using run_entries_bounded [OF days_ok_empty _ assms(2,1,3)]
  by (simp add: fetch_day_def empty_demo_db_def)

section \<open>Every trade can be closed\<close>

definition ids_apart :: "demo_trade \<Rightarrow> demo_trade \<Rightarrow> bool" where
  "ids_apart a b \<longleftrightarrow> td_trade_id b = td_trade_id a \<or>
     (td_entry_order_id a = None \<or> td_entry_order_id b \<noteq> td_entry_order_id a) \<and>
     (td_exit_order_id a = None \<or> td_exit_order_id b \<noteq> td_exit_order_id a)"

lemma ids_apart_sym: "ids_apart a b \<Longrightarrow> ids_apart b a"
  by (auto simp: ids_apart_def)

lemma order_ids_unique_iff: "order_ids_unique db t \<longleftrightarrow> (\<forall>b \<in> set (trades db). ids_apart t b)"
  by (simp add: order_ids_unique_def ids_apart_def list_all_iff)

definition ids_ok :: "demo_db \<Rightarrow> bool" where
  "ids_ok db \<longleftrightarrow> demo_ok db \<and> (\<forall>a \<in> set (trades db). \<forall>b \<in> set (trades db). ids_apart a b)"

lemma ids_ok_transition:
  assumes ok: "ids_ok db" and tr: "demo_transition db k al tg us w r = Inr (db', row)"
  shows "\<forall>a \<in> set (trades db'). \<forall>b \<in> set (trades db'). ids_apart a b"
proof -
  obtain t now where t: "fetch_trade db k = Some t" "order_ids_unique db (updated_trade tg us now t)"
      "trades db' = map (\<lambda>t. if td_trade_id t = k then updated_trade tg us now t else t) (trades db)"
    using tr by (auto simp: demo_transition_def bindE_eq_Inr Let_def split: option.splits if_splits)
  let ?n = "updated_trade tg us now t"
  have row: "x = t" if "x \<in> set (trades db)" "td_trade_id x = k" for x
    using ok t(1) that by (auto simp: ids_ok_def demo_ok_def fetch_trade_iff dest: inj_onD [of td_trade_id] simp: distinct_map)
  have "a \<in> insert ?n (set (trades db))" if "a \<in> set (trades db')" for a
    using that row by (auto simp: t(3))
  moreover have "ids_apart a b" if "a \<in> insert ?n (set (trades db))" "b \<in> insert ?n (set (trades db))" for a b
    using that ok t(2) by (auto simp: ids_ok_def order_ids_unique_iff intro: ids_apart_sym) (simp add: ids_apart_def)
  ultimately show ?thesis by blast
qed

lemma demo_step_transitions:
  obtains (same) "trades (demo_step f db x) = trades db" | (fresh) "began f db (demo_step f db x)"
  | (move) k al tg us w r row where "demo_transition db k al tg us w r = Inr (demo_step f db x, row)"
proof -
  note defs = mark_entry_submitted_def mark_open_def mark_exit_submitted_def mark_closed_def
    mark_safety_hold_def close_unsubmitted_safety_hold_def bindE_eq_Inr
  have "trades (demo_step f db x) = trades db \<or> began f db (demo_step f db x) \<or>
      (\<exists>k al tg us w r row. demo_transition db k al tg us w r = Inr (demo_step f db x, row))"
    by (cases x; simp only: demo_step.simps; rule committed_cases)
      (auto simp: defs split: if_splits option.splits dest: begin_trade_outcome day_ops_trades)
  then show thesis using that by blast
qed

lemma began_ids:
  assumes "\<forall>a \<in> set (trades db). \<forall>b \<in> set (trades db). ids_apart a b" "began f db db'"
  shows "\<forall>a \<in> set (trades db'). \<forall>b \<in> set (trades db'). ids_apart a b"
proof -
  obtain q now where "trades db' = trades db @ [new_demo_trade (f (rq_observation_id q)) q now]"
    using assms(2) by (auto simp: began_def)
  moreover have "ids_apart a (new_demo_trade k q now)" "ids_apart (new_demo_trade k q now) a" for a k q now
    by (auto simp: ids_apart_def new_demo_trade_def)
  ultimately show ?thesis using assms(1) by auto
qed

lemma demo_step_ids: "ids_ok db \<Longrightarrow> ids_ok (demo_step f db x)"
proof (cases rule: demo_step_transitions [of f db x])
  case same
  then show "ids_ok db \<Longrightarrow> ids_ok (demo_step f db x)"
    using demo_step_ok [of db f x] by (simp add: ids_ok_def)
next
  case fresh
  then show "ids_ok db \<Longrightarrow> ids_ok (demo_step f db x)"
    using demo_step_ok [of db f x] began_ids [of db f "demo_step f db x"] by (auto simp: ids_ok_def)
next
  case (move k al tg us w r row)
  then show "ids_ok db \<Longrightarrow> ids_ok (demo_step f db x)"
    using demo_step_ok [of db f x] ids_ok_transition [of db k al tg us w r] by (auto simp: ids_ok_def)
qed

lemma run_ids_ok: "ids_ok db \<Longrightarrow> ids_ok (foldl (demo_step f) db xs)"
  by (induction xs arbitrary: db) (auto intro: demo_step_ids)

lemma transition_succeeds:
  assumes "fetch_trade db k = Some t" "td_phase t \<in> set al" "td_phase t \<noteq> tg"
    and "order_ids_unique db (updated_trade tg us now t)"
  shows "\<exists>db'. demo_transition db k al tg us (Aware now) r = Inr (db', updated_trade tg us now t) \<and>
    fetch_trade db' k = Some (updated_trade tg us now t)"
proof -
  have "\<exists>db'. demo_transition db k al tg us (Aware now) r = Inr (db', updated_trade tg us now t)"
    using assms by (simp add: demo_transition_def)
  then show ?thesis by (blast elim: demo_transition_Inr)
qed

lemma fresh_order_id:
  assumes ok: "ids_ok db" and t: "fetch_trade db k = Some t"
  obtains i where "order_ids_unique db (updated_trade ENTRY_SUBMITTED [EntryOrderId i] now t)"
    "order_ids_unique db (updated_trade EXIT_SUBMITTED [ExitOrderId i, ExitReason w] now t)"
proof -
  let ?used = "\<Union>o' \<in> set (trades db). set_option (td_entry_order_id o') \<union> set_option (td_exit_order_id o')"
  have "finite ?used" by (intro finite_UN_I) simp_all
  then obtain i where i: "i \<notin> ?used" using ex_new_if_finite [OF infinite_UNIV_listI] by blast
  have "t \<in> set (trades db)" using t by (auto simp: fetch_trade_def find_Some_iff)
  then have apart: "\<forall>b \<in> set (trades db). ids_apart t b" using ok by (simp add: ids_ok_def)
  show thesis
    by (rule that [of i]; unfold order_ids_unique_iff)
      (use apart i in \<open>force simp: ids_apart_def updated_trade_def\<close>)+
qed

lemma mark_closed_succeeds:
  assumes ok: "ids_ok db" and t: "fetch_trade db k = Some t" "td_phase t = ENTRY_SUBMITTED \<or> td_phase t = EXIT_SUBMITTED"
  shows "trade_phase_of (demo_step f db (MarkClosed k (Dec False 0 0) (Aware now))) k = Some CLOSED"
proof -
  have "t \<in> set (trades db)" using t(1) by (auto simp: fetch_trade_def find_Some_iff)
  then have "order_ids_unique db (updated_trade CLOSED [RealizedPnl (Dec False 0 0), ClosedAt now] now t)"
    using ok by (auto simp: ids_ok_def order_ids_unique_iff ids_apart_def updated_trade_def)
  from transition_succeeds [OF t(1) _ _ this, of "[ENTRY_SUBMITTED, EXIT_SUBMITTED, CLOSED]" False] t(2)
  show ?thesis by (auto simp: mark_closed_def committed_def trade_phase_of_def)
qed

lemma closable:
  assumes ok: "ids_ok db" and t: "fetch_trade db k = Some t" "\<not> (td_phase t = SAFETY_HOLD \<and> exposed t)"
  shows "\<exists>xs. trade_phase_of (foldl (demo_step f) db xs) k = Some CLOSED"
proof -
  obtain i where i: "order_ids_unique db (updated_trade ENTRY_SUBMITTED [EntryOrderId i] 0 t)"
      "order_ids_unique db (updated_trade EXIT_SUBMITTED [ExitOrderId i, ExitReason ''R''] 0 t)"
    using fresh_order_id [OF ok t(1)] .
  let ?close = "MarkClosed k (Dec False 0 0) (Aware 0)"
  have close: "trade_phase_of (demo_step f (demo_step f db x) ?close) k = Some CLOSED"
    if "\<exists>t'. fetch_trade (demo_step f db x) k = Some t' \<and> (td_phase t' = ENTRY_SUBMITTED \<or> td_phase t' = EXIT_SUBMITTED)"
    for x using that mark_closed_succeeds [OF demo_step_ids [OF ok]] by blast
  show ?thesis
  proof (cases "td_phase t")
    case OBSERVED
    have "trade_phase_of (demo_step f (demo_step f db (MarkEntrySubmitted k i (Aware 0))) ?close) k = Some CLOSED"
      using transition_succeeds [OF t(1) _ _ i(1), of "[OBSERVED, ENTRY_SUBMITTED]" False] OBSERVED
      by (intro close) (auto simp: mark_entry_submitted_def committed_def)
    then show ?thesis by (intro exI [of _ "[MarkEntrySubmitted k i (Aware 0), ?close]"]) simp
  next
    case OPEN
    have "\<not> blank ''R''" by code_simp
    with transition_succeeds [OF t(1) _ _ i(2), of "[OPEN, EXIT_SUBMITTED]" True] OPEN
    have "trade_phase_of (demo_step f (demo_step f db (MarkExitSubmitted k i ''R'' (Aware 0))) ?close) k = Some CLOSED"
      by (intro close) (auto simp: mark_exit_submitted_def committed_def)
    then show ?thesis by (intro exI [of _ "[MarkExitSubmitted k i ''R'' (Aware 0), ?close]"]) simp
  next
    case SAFETY_HOLD
    with t(2) have e: "td_entry_order_id t = None" "td_opened_at t = None" "td_exit_order_id t = None"
      by (simp_all add: exposed_def)
    let ?us = "[ExitReason ''UNSUBMITTED_ATTEMPT_CLEARED'', RealizedPnl (Dec False 0 0), ClosedAt 0]"
    have "order_ids_unique db (updated_trade CLOSED ?us 0 t)"
      by (simp add: order_ids_unique_iff ids_apart_def updated_trade_def e)
    from transition_succeeds [OF t(1) _ _ this, of "[SAFETY_HOLD]" False] SAFETY_HOLD t(1) e
    have "trade_phase_of (demo_step f db (CloseUnsubmittedSafetyHold k (Aware 0))) k = Some CLOSED"
      by (auto simp: close_unsubmitted_safety_hold_def committed_def trade_phase_of_def)
    then show ?thesis by (intro exI [of _ "[CloseUnsubmittedSafetyHold k (Aware 0)]"]) simp
  next
    case CLOSED
    then show ?thesis using t(1) by (intro exI [of _ "[]"]) (simp add: trade_phase_of_def)
  qed (use mark_closed_succeeds [OF ok t(1)] in \<open>auto intro!: exI [of _ "[?close]"]\<close>)
qed

text \<open>
  C28. A trade can be brought to closed by some sequence of operations exactly when it is not a
  safety hold with order exposure: no other phase is a dead end.
\<close>

theorem demo_closable_iff:
  assumes "fetch_trade (foldl (demo_step f) empty_demo_db xs) k = Some t"
  shows "(\<exists>ys. trade_phase_of (foldl (demo_step f) empty_demo_db (xs @ ys)) k = Some CLOSED) \<longleftrightarrow>
    \<not> (td_phase t = SAFETY_HOLD \<and> exposed t)"
proof -
  have "ids_ok empty_demo_db" by (simp add: ids_ok_def) (simp add: empty_demo_db_def)
  then have ok: "ids_ok (foldl (demo_step f) empty_demo_db xs)" by (rule run_ids_ok)
  have "trade_phase_of (foldl (demo_step f) empty_demo_db (xs @ ys)) k = Some SAFETY_HOLD"
    if "td_phase t = SAFETY_HOLD \<and> exposed t" for ys
    using run_trade_invariant [OF assms, of "\<lambda>r. td_phase r = SAFETY_HOLD \<and> exposed r" f ys] that
    by (auto simp: demo_move_def trade_phase_of_def)
  with closable [OF ok assms] show ?thesis by auto
qed

section \<open>Witnesses\<close>

definition demo_ids :: "string \<Rightarrow> string" where
  "demo_ids i = CHR ''t'' # i"

definition demo_rq :: demo_request where
  "demo_rq = \<lparr>rq_observation_id = ''o1'', rq_candidate_id = ''c1'', rq_symbol = ''BTCUSDT'', rq_action = LONG,
     rq_target_quantity = Dec False 1 0, rq_reference_price = Dec False 100 0,
     rq_stop_loss_bps = None, rq_take_profit_bps = None\<rparr>"

lemma demo_rq_ok [simp]: "check_request demo_rq = Inr ()"
proof -
  have "\<not> blank ''o1''" "\<not> blank ''c1''" "\<not> blank ''BTCUSDT''" by code_simp+
  moreover have "dec_positive (Dec False 1 0)" "dec_positive (Dec False 100 0)" by (simp_all add: dec_positive_def power10_def)
  ultimately show ?thesis by (simp add: check_request_def demo_rq_def)
qed

lemma demo_rq_parts: "rq_observation_id demo_rq = ''o1''"
  by (simp add: demo_rq_def)

lemma demo_begun:
  "demo_begin_trade demo_ids empty_demo_db demo_rq (Aware 5) =
     Inr (\<lparr>trades = [new_demo_trade ''to1'' demo_rq 5], days = []\<rparr>, new_demo_trade ''to1'' demo_rq 5)"
  by (simp add: demo_begin_trade_def fetch_trade_def empty_demo_db_def fetch_active_def active_trades_def
      demo_ids_def demo_rq_parts Let_def)

lemmas demo_run_simps = foldl_Cons foldl_Nil demo_step.simps demo_begun committed_def
  mark_entry_submitted_def mark_closed_def mark_safety_hold_def demo_transition_def fetch_trade_def
  updated_trade_def new_demo_trade_def order_ids_unique_def active_phases_def Let_def

definition demo_to_closed :: "demo_op list" where
  "demo_to_closed = [BeginTrade demo_rq (Aware 5), MarkEntrySubmitted ''to1'' ''e'' (Aware 6),
     MarkClosed ''to1'' (Dec True 2 0) (Aware 7)]"

definition demo_to_hold :: "demo_op list" where
  "demo_to_hold = [BeginTrade demo_rq (Aware 5), MarkEntrySubmitted ''to1'' ''e'' (Aware 6),
     MarkSafetyHold ''to1'' ''why'' (Aware 7)]"

lemma demo_closed_row:
  "\<exists>t. fetch_trade (foldl (demo_step demo_ids) empty_demo_db demo_to_closed) ''to1'' = Some t \<and> td_phase t = CLOSED"
  by (simp add: demo_run_simps demo_to_closed_def)

lemma demo_hold_row:
  "\<exists>t. fetch_trade (foldl (demo_step demo_ids) empty_demo_db demo_to_hold) ''to1'' = Some t \<and>
     td_phase t = SAFETY_HOLD \<and> exposed t"
proof -
  have "\<not> blank ''why''" by code_simp
  then show ?thesis by (simp add: demo_run_simps demo_to_hold_def exposed_def)
qed

lemma demo_closed_trade_frozen_witness:
  "\<exists>t u. fetch_trade (foldl (demo_step demo_ids) empty_demo_db
      (demo_to_closed @ [MarkSafetyHold ''to1'' ''late'' (Aware 9)])) ''to1'' = Some (t\<lparr>td_updated_at := u\<rparr>)"
proof -
  obtain t where "fetch_trade (foldl (demo_step demo_ids) empty_demo_db demo_to_closed) ''to1'' = Some t"
    "td_phase t = CLOSED" using demo_closed_row by blast
  from demo_closed_trade_frozen [OF this] show ?thesis by blast
qed

lemma demo_begin_trade_idempotent_witness:
  "\<exists>db t'. demo_begin_trade demo_ids db demo_rq (Aware 9) = Inr (db, t') \<and> td_trade_id t' = ''to1''"
  using demo_begin_trade_idempotent [OF demo_begun, of "[MarkEntrySubmitted ''to1'' ''e'' (Aware 6)]" 9]
  by (auto simp: new_demo_trade_def)

lemma demo_closable_iff_witness:
  "\<not> (\<exists>ys. trade_phase_of (foldl (demo_step demo_ids) empty_demo_db (demo_to_hold @ ys)) ''to1'' = Some CLOSED)"
proof -
  obtain t where "fetch_trade (foldl (demo_step demo_ids) empty_demo_db demo_to_hold) ''to1'' = Some t"
    "td_phase t = SAFETY_HOLD" "exposed t" using demo_hold_row by blast
  with demo_closable_iff [OF this(1)] show ?thesis by blast
qed

definition demo_day_cfg :: "rat demo_risk_config" where
  "demo_day_cfg = \<lparr>dc_leverage = 100, dc_margin_fraction = 1 / 100, dc_max_open_positions = 1,
     dc_max_trades_per_day = 6, dc_stop_loss_bps = 20, dc_take_profit_bps = 30,
     dc_max_holding_seconds = 1800, dc_cooldown_seconds = 900, dc_max_daily_loss_fraction = 1 / 100\<rparr>"

lemma demo_day_closed:
  "demo_record_close (foldl (demo_step demo_ids) empty_demo_db []) (Aware 0) (Fin 1000) (Fin (- 20)) demo_day_cfg =
     Inr (\<lparr>trades = [], days = [(0, \<lparr>dd_date = 0, dd_starting_capital = Fin 1000, dd_entries = 0, dd_realized_pnl = - 20,
       dd_cooldown_until = Some 900000000, dd_kill_reason = Some ''DAILY_LOSS_LIMIT'', dd_updated_at = 0\<rparr>)]\<rparr>,
       \<lparr>dd_date = 0, dd_starting_capital = Fin 1000, dd_entries = 0, dd_realized_pnl = - 20,
       dd_cooldown_until = Some 900000000, dd_kill_reason = Some ''DAILY_LOSS_LIMIT'', dd_updated_at = 0\<rparr>)"
  by (simp add: demo_record_close_def ensure_day_def fetch_day_def empty_demo_db_def utc_date_def set_day_def
      daily_loss_limit_usd_def demo_day_cfg_def seconds_def Let_def)

lemma demo_daily_loss_stops_witness:
  "\<exists>db e. fetch_day db 0 \<noteq> None \<and>
     record_entry (foldl (demo_step demo_ids) db [RecordEntry (Aware 5) (Fin 1000) demo_day_cfg]) (Aware 9)
       (Fin 1000) demo_day_cfg = Inl e"
proof -
  let ?d = "\<lparr>dd_date = 0, dd_starting_capital = Fin 1000, dd_entries = 0, dd_realized_pnl = - 20,
       dd_cooldown_until = Some 900000000, dd_kill_reason = Some ''DAILY_LOSS_LIMIT'', dd_updated_at = 0\<rparr>"
  let ?db = "\<lparr>trades = [], days = [(0, ?d)]\<rparr>"
  have "daily_loss_limit_usd (dd_starting_capital ?d) demo_day_cfg = Inr 10" "dd_realized_pnl ?d \<le> - 10"
      "utc_date 9 = utc_date 0"
    by (simp_all add: daily_loss_limit_usd_def demo_day_cfg_def utc_date_def)
  from demo_daily_loss_stops [OF demo_day_closed this, of "[RecordEntry (Aware 5) (Fin 1000) demo_day_cfg]"]
  obtain e where "record_entry (foldl (demo_step demo_ids) ?db [RecordEntry (Aware 5) (Fin 1000) demo_day_cfg]) (Aware 9)
       (Fin 1000) demo_day_cfg = Inl e" by blast
  moreover have "fetch_day ?db 0 \<noteq> None" by (simp add: fetch_day_def)
  ultimately show ?thesis by blast
qed

lemma demo_entries_bounded_witness:
  "\<exists>d. fetch_day (foldl (demo_step demo_ids) empty_demo_db [RecordEntry (Aware 0) (Fin 1000) demo_day_cfg]) 0 = Some d \<and>
     dd_entries d \<le> 6"
proof -
  have "\<exists>d. fetch_day (foldl (demo_step demo_ids) empty_demo_db [RecordEntry (Aware 0) (Fin 1000) demo_day_cfg]) 0 = Some d"
    by (simp add: record_entry_def ensure_day_def fetch_day_def empty_demo_db_def utc_date_def set_day_def
        validate_entry_authorization_def daily_loss_limit_usd_def demo_day_cfg_def committed_def Let_def)
  moreover have "\<forall>x \<in> set [RecordEntry (Aware 0) (Fin 1000) demo_day_cfg]. admits x \<le> 6"
    by (simp add: demo_day_cfg_def)
  ultimately show ?thesis using demo_entries_bounded [of "[RecordEntry (Aware 0) (Fin 1000) demo_day_cfg]" 6] by fastforce
qed

end
