(* ===== verification/Paper_Orders.thy ===== *)
theory Paper_Orders
  imports Lifecycle
begin

text \<open>
  Model of \<open>src/execution/paper_reconciliation.py\<close> (with \<open>Fill\<close> of \<open>adapter.py\<close> and
  \<open>IntentSide\<close> of \<open>intent.py\<close>): the durable store of paper orders, fills and positions.
  The SQLite file is a state with three tables; an operation is one transaction, so an exception
  leaves the state as it was. \<open>uuid5\<close> of the idempotency key is a parameter; the cost
  components of a fill are finite. Time stamps are stored as ISO text in UTC, whose order is that
  of the instants.
\<close>

section \<open>Data\<close>

datatype intent_side = BUY_INTENT | SELL_INTENT

datatype paper_state = PENDING_SUBMIT | SUBMITTED | PARTIALLY_FILLED | FILLED | CANCELED | REJECTED

datatype leg_group_state = GROUP_PENDING | SETTLED | CLEANLY_REJECTED | ORPHANED

record paper_order =
  po_id :: string
  po_key :: string
  po_group :: "string option"
  po_symbol :: string
  po_side :: intent_side
  po_quantity :: rat
  po_reference :: rat
  po_state :: paper_state
  po_filled :: rat
  po_notional :: rat
  po_spread :: rat
  po_slippage :: rat
  po_fee :: rat
  po_funding :: rat
  po_reason :: "string option"
  po_attempts :: int
  po_created :: int
  po_updated :: int

record paper_position =
  pp_net :: rat
  pp_average :: rat
  pp_realized :: rat
  pp_updated :: int

record paper_fill =
  pf_id :: string
  pf_order :: string
  pf_quantity :: rat
  pf_price :: rat
  pf_spread :: rat
  pf_slippage :: rat
  pf_fee :: rat
  pf_funding :: rat
  pf_at :: int

record paper_db =
  orders :: "paper_order list"
  positions :: "(string, paper_position) dict"
  fills :: "paper_fill list"

definition empty_paper_db :: paper_db where
  "empty_paper_db = \<lparr>orders = [], positions = [], fills = []\<rparr>"

text \<open>A \<open>Fill\<close> as the store reads it (the intent is never read).\<close>

record fill =
  fl_price :: num
  fl_quantity :: num
  fl_at :: pydatetime
  fl_rejected :: bool
  fl_reason :: string
  fl_spread :: rat
  fl_slippage :: rat
  fl_fee :: rat
  fl_funding :: rat
  fl_id :: string

definition fetch_order :: "paper_db \<Rightarrow> string \<Rightarrow> paper_order option" where
  "fetch_order db i = find (\<lambda>r. po_id r = i) (orders db)"

definition fetch_fill :: "paper_db \<Rightarrow> string \<Rightarrow> paper_fill option" where
  "fetch_fill db i = find (\<lambda>r. pf_id r = i) (fills db)"

text \<open>The average price a fetched record carries.\<close>

definition average_fill_price :: "paper_order \<Rightarrow> rat option" where
  "average_fill_price r = (if 0 < po_filled r then Some (po_notional r / po_filled r) else None)"

section \<open>Beginning an order\<close>

record order_request =
  oq_key :: string
  oq_symbol :: string
  oq_side :: intent_side
  oq_quantity :: num
  oq_reference :: num
  oq_group :: "string option"

definition client_order_id_for :: "(string \<Rightarrow> string) \<Rightarrow> string \<Rightarrow> string result" where
  "client_order_id_for uid key =
     (if blank key then Inl (ValueError ''paper order idempotency key must be non-empty'')
      else Inr (''paper-'' @ uid key))"

definition same_order :: "paper_order \<Rightarrow> order_request \<Rightarrow> bool" where
  "same_order r q \<longleftrightarrow>
     po_key r = oq_key q \<and> po_symbol r = oq_symbol q \<and> po_side r = oq_side q \<and>
     isclose (1 / 10 ^ 9) (1 / 10 ^ 12) (po_quantity r) (num_val (oq_quantity q)) \<and>
     isclose (1 / 10 ^ 9) (1 / 10 ^ 12) (po_reference r) (num_val (oq_reference q)) \<and>
     po_group r = oq_group q"

definition new_order :: "string \<Rightarrow> order_request \<Rightarrow> int \<Rightarrow> paper_order" where
  "new_order i q now =
     \<lparr>po_id = i, po_key = oq_key q, po_group = oq_group q, po_symbol = oq_symbol q, po_side = oq_side q,
      po_quantity = num_val (oq_quantity q), po_reference = num_val (oq_reference q),
      po_state = PENDING_SUBMIT, po_filled = 0, po_notional = 0, po_spread = 0, po_slippage = 0,
      po_fee = 0, po_funding = 0, po_reason = None, po_attempts = 0, po_created = now, po_updated = now\<rparr>"

definition begin_order :: "(string \<Rightarrow> string) \<Rightarrow> paper_db \<Rightarrow> order_request \<Rightarrow> pydatetime
    \<Rightarrow> (paper_db \<times> paper_order) result" where
  "begin_order uid db q now_utc =
     (if blank (oq_symbol q) then Inl (ValueError ''paper order symbol must be non-empty'')
      else if \<not> finite_positive (oq_quantity q)
      then Inl (ValueError ''paper order quantity must be finite and positive'')
      else if \<not> finite_positive (oq_reference q)
      then Inl (ValueError ''paper order reference price must be finite and positive'')
      else
        bindE (client_order_id_for uid (oq_key q)) (\<lambda>i.
        bindE (utc_of ''paper order created_at must be timezone-aware'' now_utc) (\<lambda>now.
          case fetch_order db i of
            Some existing \<Rightarrow>
              if same_order existing q then Inr (db, existing)
              else Inl (Raised PaperReconciliationError ''idempotency_key conflict'')
          | None \<Rightarrow>
              if list_ex (\<lambda>r. po_key r = oq_key q) (orders db)
              then Inl (IntegrityError ''UNIQUE paper_orders.idempotency_key'')
              else Inr (db\<lparr>orders := orders db @ [new_order i q now]\<rparr>, new_order i q now))))"

section \<open>State changes\<close>

text \<open>\<open>UPDATE paper_orders SET ... WHERE client_order_id = ?\<close>.\<close>

definition update_order :: "string \<Rightarrow> (paper_order \<Rightarrow> paper_order) \<Rightarrow> paper_db \<Rightarrow> paper_db" where
  "update_order i g db = db\<lparr>orders := map (\<lambda>r. if po_id r = i then g r else r) (orders db)\<rparr>"

definition paper_mark_submitted :: "paper_db \<Rightarrow> string \<Rightarrow> pydatetime \<Rightarrow> (paper_db \<times> paper_order) result" where
  "paper_mark_submitted db i now_utc =
     bindE (utc_of ''paper order submitted_at must be timezone-aware'' now_utc) (\<lambda>now.
       case fetch_order db i of
         None \<Rightarrow> Inl (Raised PaperReconciliationError ''unknown paper order'')
       | Some r \<Rightarrow>
           if po_state r \<notin> {PENDING_SUBMIT, SUBMITTED}
           then Inl (Raised PaperReconciliationError ''cannot submit paper order'')
           else (let g = (\<lambda>r. r\<lparr>po_state := SUBMITTED, po_attempts := po_attempts r + 1, po_updated := now\<rparr>)
                 in Inr (update_order i g db, g r)))"

definition paper_mark_canceled :: "paper_db \<Rightarrow> string \<Rightarrow> pydatetime \<Rightarrow> (paper_db \<times> paper_order) result" where
  "paper_mark_canceled db i now_utc =
     bindE (utc_of ''paper order canceled_at must be timezone-aware'' now_utc) (\<lambda>now.
       case fetch_order db i of
         None \<Rightarrow> Inl (Raised PaperReconciliationError ''unknown paper order'')
       | Some r \<Rightarrow>
           if po_state r = CANCELED then Inr (db, r)
           else if po_state r \<notin> {SUBMITTED, PARTIALLY_FILLED}
           then Inl (Raised PaperReconciliationError ''cannot cancel paper order'')
           else (let g = (\<lambda>r. r\<lparr>po_state := CANCELED, po_updated := now\<rparr>)
                 in Inr (update_order i g db, g r)))"

definition record_rejection :: "paper_db \<Rightarrow> string \<Rightarrow> string \<Rightarrow> pydatetime \<Rightarrow> (paper_db \<times> paper_order) result" where
  "record_rejection db i reason now_utc =
     bindE (utc_of ''paper order rejected_at must be timezone-aware'' now_utc) (\<lambda>now.
       case fetch_order db i of
         None \<Rightarrow> Inl (Raised PaperReconciliationError ''unknown paper order'')
       | Some r \<Rightarrow>
           if po_state r \<notin> {PENDING_SUBMIT, SUBMITTED}
           then Inl (Raised PaperReconciliationError ''cannot reject paper order'')
           else (let g = (\<lambda>r. r\<lparr>po_state := REJECTED, po_reason := Some reason, po_updated := now\<rparr>)
                 in Inr (update_order i g db, g r)))"

section \<open>Fills\<close>

text \<open>\<open>_fill_row_conflicts\<close>; the new time is already in UTC.\<close>

definition fill_conflicts :: "paper_fill \<Rightarrow> string \<Rightarrow> fill \<Rightarrow> int \<Rightarrow> bool" where
  "fill_conflicts row i f now \<longleftrightarrow>
     pf_order row \<noteq> i \<or> pf_at row \<noteq> now \<or>
     list_ex (\<lambda>(stored, requested). \<not> isclose (1 / 10 ^ 9) (1 / 10 ^ 12) stored requested)
       [(pf_quantity row, num_val (fl_quantity f)), (pf_price row, num_val (fl_price f)),
        (pf_spread row, fl_spread f), (pf_slippage row, fl_slippage f), (pf_fee row, fl_fee f),
        (pf_funding row, fl_funding f)]"

text \<open>\<open>_apply_fill_to_position\<close>.\<close>

definition signed_delta :: "intent_side \<Rightarrow> rat \<Rightarrow> rat" where
  "signed_delta side quantity = (if side = BUY_INTENT then quantity else - quantity)"

definition position_after :: "paper_position option \<Rightarrow> intent_side \<Rightarrow> rat \<Rightarrow> rat \<Rightarrow> int \<Rightarrow> paper_position" where
  "position_after old side quantity price now =
     (let delta = signed_delta side quantity in
      case old of
        None \<Rightarrow> \<lparr>pp_net = delta, pp_average = price, pp_realized = 0, pp_updated = now\<rparr>
      | Some p \<Rightarrow>
          if pp_net p = 0 \<or> (0 < pp_net p) = (0 < delta)
          then
            (let new = pp_net p + delta in
             \<lparr>pp_net = new,
              pp_average = (if new \<noteq> 0 then (pp_average p * \<bar>pp_net p\<bar> + price * \<bar>delta\<bar>) / \<bar>new\<bar> else pp_average p),
              pp_realized = pp_realized p, pp_updated = now\<rparr>)
          else
            (let closing = min \<bar>pp_net p\<bar> \<bar>delta\<bar>;
                 direction = (if 0 < pp_net p then 1 else - 1);
                 remainder = \<bar>delta\<bar> - closing
             in \<lparr>pp_net = pp_net p + delta,
                 pp_average = (if 1 / 10 ^ 12 < remainder then price else pp_average p),
                 pp_realized = pp_realized p + closing * (price - pp_average p) * direction,
                 pp_updated = now\<rparr>))"

definition apply_fill_to_position :: "paper_db \<Rightarrow> string \<Rightarrow> intent_side \<Rightarrow> rat \<Rightarrow> rat \<Rightarrow> int \<Rightarrow> paper_db" where
  "apply_fill_to_position db symbol side quantity price now =
     db\<lparr>positions := AList.update symbol (position_after (map_of (positions db) symbol) side quantity price now)
          (positions db)\<rparr>"

definition fill_row :: "string \<Rightarrow> fill \<Rightarrow> int \<Rightarrow> paper_fill" where
  "fill_row i f now =
     \<lparr>pf_id = fl_id f, pf_order = i, pf_quantity = num_val (fl_quantity f), pf_price = num_val (fl_price f),
      pf_spread = fl_spread f, pf_slippage = fl_slippage f, pf_fee = fl_fee f, pf_funding = fl_funding f,
      pf_at = now\<rparr>"

text \<open>The order row a fill leaves; \<open>average_fill_price or 0.0\<close> times the filled quantity.\<close>

definition filled_order :: "paper_order \<Rightarrow> rat \<Rightarrow> rat \<Rightarrow> fill \<Rightarrow> int \<Rightarrow> paper_order" where
  "filled_order r quantity price f now =
     (let total = po_filled r + quantity;
          notional = (case average_fill_price r of None \<Rightarrow> 0 | Some a \<Rightarrow> a) * po_filled r
      in r\<lparr>po_state := (if po_quantity r - 1 / 10 ^ 9 \<le> total then FILLED else PARTIALLY_FILLED),
           po_filled := total, po_notional := notional + price * quantity,
           po_spread := po_spread r + fl_spread f, po_slippage := po_slippage r + fl_slippage f,
           po_fee := po_fee r + fl_fee f, po_funding := po_funding r + fl_funding f, po_updated := now\<rparr>)"

definition record_fill :: "paper_db \<Rightarrow> string \<Rightarrow> fill \<Rightarrow> (paper_db \<times> paper_order) result" where
  "record_fill db i f =
     (if blank (fl_id f) then Inl (ValueError ''paper fill fill_id must be non-empty'')
      else if \<not> finite_positive (fl_quantity f)
      then Inl (ValueError ''paper fill quantity must be finite and positive'')
      else if \<not> finite_positive (fl_price f)
      then Inl (ValueError ''paper fill price must be finite and positive'')
      else
        bindE (utc_of ''paper fill filled_at must be timezone-aware'' (fl_at f)) (\<lambda>now.
          case fetch_fill db (fl_id f) of
            Some row \<Rightarrow>
              if fill_conflicts row i f now
              then Inl (Raised PaperReconciliationError ''fill_id was already recorded with different content'')
              else (case fetch_order db i of
                      None \<Rightarrow> Inl (OtherError ''AssertionError'')
                    | Some r \<Rightarrow> Inr (db, r))
          | None \<Rightarrow>
              (case fetch_order db i of
                 None \<Rightarrow> Inl (Raised PaperReconciliationError ''unknown paper order'')
               | Some r \<Rightarrow>
                   let quantity = num_val (fl_quantity f); price = num_val (fl_price f) in
                   if po_state r \<notin> {SUBMITTED, PARTIALLY_FILLED}
                   then Inl (Raised PaperReconciliationError ''cannot fill paper order'')
                   else if po_quantity r + 1 / 10 ^ 9 < po_filled r + quantity
                   then Inl (Raised PaperReconciliationError ''paper order overfilled'')
                   else Inr (apply_fill_to_position
                               (update_order i (\<lambda>r. filled_order r quantity price f now)
                                 (db\<lparr>fills := fills db @ [fill_row i f now]\<rparr>))
                               (po_symbol r) (po_side r) quantity price now,
                             filled_order r quantity price f now))))"

definition apply_fill_result :: "paper_db \<Rightarrow> string \<Rightarrow> fill \<Rightarrow> (paper_db \<times> paper_order) result" where
  "apply_fill_result db i f =
     (if fl_rejected f
      then record_rejection db i (if fl_reason f = [] then ''rejected'' else fl_reason f) (fl_at f)
      else record_fill db i f)"

section \<open>Queries and reconciliation of ambiguous orders\<close>

definition list_fills :: "paper_db \<Rightarrow> string \<Rightarrow> paper_fill list" where
  "list_fills db i = sort_key (\<lambda>f. (pf_at f, pf_id f)) (filter (\<lambda>f. pf_order f = i) (fills db))"

definition get_by_idempotency_key :: "(string \<Rightarrow> string) \<Rightarrow> paper_db \<Rightarrow> string \<Rightarrow> paper_order option result" where
  "get_by_idempotency_key uid db key = bindE (client_order_id_for uid key) (\<lambda>i. Inr (fetch_order db i))"

definition list_by_leg_group :: "paper_db \<Rightarrow> string \<Rightarrow> paper_order list result" where
  "list_by_leg_group db g =
     (if blank g then Inl (ValueError ''paper leg group id must be non-empty'')
      else Inr (sort_key (\<lambda>r. (po_created r, po_id r)) (filter (\<lambda>r. po_group r = Some g) (orders db))))"

definition list_in_state :: "paper_db \<Rightarrow> paper_state \<Rightarrow> paper_order list" where
  "list_in_state db s = sort_key po_created (filter (\<lambda>r. po_state r = s) (orders db))"

definition reconcile_ambiguous_order :: "paper_db \<Rightarrow> string \<Rightarrow> (string \<Rightarrow> fill option)
    \<Rightarrow> (paper_db \<times> paper_order) result" where
  "reconcile_ambiguous_order db i query =
     (case fetch_order db i of
        None \<Rightarrow> Inl (Raised PaperReconciliationError ''unknown paper order'')
      | Some r \<Rightarrow>
          if po_state r \<noteq> SUBMITTED then Inr (db, r)
          else (case query i of None \<Rightarrow> Inr (db, r) | Some f \<Rightarrow> apply_fill_result db i f))"

text \<open>
  The loop over the ambiguous orders: one transaction each, so an exception keeps what the
  earlier ones committed.
\<close>

fun reconcile_each :: "paper_db \<Rightarrow> string list \<Rightarrow> (string \<Rightarrow> fill option) \<Rightarrow> paper_db \<times> paper_order list result" where
  "reconcile_each db [] query = (db, Inr [])"
| "reconcile_each db (i # is) query =
     (case reconcile_ambiguous_order db i query of
        Inl e \<Rightarrow> (db, Inl e)
      | Inr (db', r) \<Rightarrow>
          (case reconcile_each db' is query of
             (db'', Inl e) \<Rightarrow> (db'', Inl e)
           | (db'', Inr rs) \<Rightarrow> (db'', Inr (r # rs))))"

definition reconcile_ambiguous_orders :: "paper_db \<Rightarrow> (string \<Rightarrow> fill option) \<Rightarrow> paper_db \<times> paper_order list result" where
  "reconcile_ambiguous_orders db query = reconcile_each db (map po_id (list_in_state db SUBMITTED)) query"

definition leg_group_status :: "paper_db \<Rightarrow> string \<Rightarrow> leg_group_state result" where
  "leg_group_status db g =
     (let rows = filter (\<lambda>r. po_group r = Some g) (orders db);
          states = set (map po_state rows);
          has_exposure = list_ex (\<lambda>r. 0 < po_filled r) rows
      in if rows = [] then Inl (Raised PaperReconciliationError ''unknown paper leg group'')
         else if states \<subseteq> {REJECTED, CANCELED} \<and> \<not> has_exposure then Inr CLEANLY_REJECTED
         else if states \<subseteq> {FILLED} then Inr SETTLED
         else if has_exposure \<and> states \<inter> {REJECTED, CANCELED, SUBMITTED, PENDING_SUBMIT} \<noteq> {}
         then Inr ORPHANED
         else Inr GROUP_PENDING)"

definition get_position :: "paper_db \<Rightarrow> string \<Rightarrow> paper_position option" where
  "get_position db symbol = map_of (positions db) symbol"

section \<open>Operations\<close>

datatype paper_op =
    BeginOrder order_request pydatetime
  | MarkSubmitted string pydatetime
  | MarkCanceled string pydatetime
  | ApplyFill string fill

definition stored :: "paper_db \<Rightarrow> (paper_db \<times> 'a) result \<Rightarrow> paper_db" where
  "stored db r = (case r of Inl _ \<Rightarrow> db | Inr (db', _) \<Rightarrow> db')"

fun paper_step :: "(string \<Rightarrow> string) \<Rightarrow> paper_db \<Rightarrow> paper_op \<Rightarrow> paper_db" where
  "paper_step uid db (BeginOrder q t) = stored db (begin_order uid db q t)"
| "paper_step uid db (MarkSubmitted i t) = stored db (paper_mark_submitted db i t)"
| "paper_step uid db (MarkCanceled i t) = stored db (paper_mark_canceled db i t)"
| "paper_step uid db (ApplyFill i f) = stored db (apply_fill_result db i f)"

abbreviation paper_run :: "(string \<Rightarrow> string) \<Rightarrow> paper_op list \<Rightarrow> paper_db" where
  "paper_run uid xs \<equiv> foldl (paper_step uid) empty_paper_db xs"

text \<open>The edges of the state machine.\<close>

fun paper_edge :: "paper_state \<Rightarrow> paper_state \<Rightarrow> bool" where
  "paper_edge PENDING_SUBMIT q = (q \<in> {SUBMITTED, REJECTED})"
| "paper_edge SUBMITTED q = (q \<in> {PARTIALLY_FILLED, FILLED, CANCELED, REJECTED})"
| "paper_edge PARTIALLY_FILLED q = (q \<in> {FILLED, CANCELED})"
| "paper_edge _ q = False"

end
