(* ===== verification/Paper_Guarantees.thy ===== *)
theory Paper_Guarantees
  imports Paper_Orders
begin

text \<open>
  What the durable paper store promises over any sequence of operations: order totals and
  positions are functions of the recorded fills, the state machine's paths, idempotent orders
  and fills, bounded fills and the meaning of a leg group's status.
\<close>

section \<open>The outcomes of an operation\<close>

text \<open>An order without the fields a change of state may write.\<close>

definition order_core :: "paper_order \<Rightarrow> paper_order" where
  "order_core r = r\<lparr>po_state := PENDING_SUBMIT, po_attempts := 0, po_reason := None, po_updated := 0\<rparr>"

lemma fetch_order_id: "fetch_order db i = Some r \<Longrightarrow> po_id r = i"
  by (simp add: fetch_order_def find_Some_iff) blast

lemma stored_cases:
  assumes "\<And>db' a. r = Inr (db', a) \<Longrightarrow> P db'" "P db"
  shows "P (stored db r)"
  using assms by (cases r) (auto simp: stored_def)

definition paper_fresh :: "paper_db \<Rightarrow> paper_db \<Rightarrow> bool" where
  "paper_fresh db db' \<longleftrightarrow>
     (\<exists>i q now. fetch_order db i = None \<and> 0 < num_val (oq_quantity q) \<and> 0 < num_val (oq_reference q) \<and>
        db' = db\<lparr>orders := orders db @ [new_order i q now]\<rparr>)"

definition paper_change :: "paper_db \<Rightarrow> paper_db \<Rightarrow> bool" where
  "paper_change db db' \<longleftrightarrow>
     (\<exists>i r s g. fetch_order db i = Some r \<and> db' = update_order i g db \<and>
        (\<forall>x. order_core (g x) = order_core x \<and> po_state (g x) = s) \<and>
        (s = SUBMITTED \<and> po_state r = SUBMITTED \<or> paper_edge (po_state r) s) \<and>
        s \<in> {SUBMITTED, CANCELED, REJECTED})"

definition paper_filled :: "paper_db \<Rightarrow> paper_db \<Rightarrow> bool" where
  "paper_filled db db' \<longleftrightarrow>
     (\<exists>i f r now. fetch_fill db (fl_id f) = None \<and> fetch_order db i = Some r \<and>
        po_state r \<in> {SUBMITTED, PARTIALLY_FILLED} \<and>
        0 < num_val (fl_quantity f) \<and> 0 < num_val (fl_price f) \<and>
        po_filled r + num_val (fl_quantity f) \<le> po_quantity r + 1 / 10 ^ 9 \<and>
        db' = apply_fill_to_position
                (update_order i (\<lambda>r. filled_order r (num_val (fl_quantity f)) (num_val (fl_price f)) f now)
                  (db\<lparr>fills := fills db @ [fill_row i f now]\<rparr>))
                (po_symbol r) (po_side r) (num_val (fl_quantity f)) (num_val (fl_price f)) now)"

lemma begin_order_outcome:
  assumes "begin_order uid db q t = Inr (db', r)"
  shows "db' = db \<and> fetch_order db (po_id r) = Some r \<and> same_order r q \<or> paper_fresh db db'"
proof -
  obtain i now where i: "0 < num_val (oq_quantity q)" "0 < num_val (oq_reference q)"
      "(case fetch_order db i of
            Some existing \<Rightarrow>
              if same_order existing q then Inr (db, existing)
              else Inl (Raised PaperReconciliationError ''idempotency_key conflict'')
          | None \<Rightarrow>
              if list_ex (\<lambda>r. po_key r = oq_key q) (orders db)
              then Inl (IntegrityError ''UNIQUE paper_orders.idempotency_key'')
              else Inr (db\<lparr>orders := orders db @ [new_order i q now]\<rparr>, new_order i q now)) = Inr (db', r)"
    using assms unfolding begin_order_def if_Inl_eq_Inr bindE_eq_Inr finite_positive_iff by force
  show ?thesis
  proof (cases "fetch_order db i")
    case None
    with i show ?thesis by (auto simp: paper_fresh_def)
  next
    case (Some x)
    with i(3) show ?thesis by (auto simp: fetch_order_id split: if_splits)
  qed
qed

lemma mark_submitted_outcome:
  assumes "paper_mark_submitted db i t = Inr (db', r')"
  shows "paper_change db db'"
proof (cases "fetch_order db i")
  case None
  with assms show ?thesis by (auto simp: paper_mark_submitted_def bindE_eq_Inr)
next
  case (Some r)
  with assms obtain now where "po_state r \<in> {PENDING_SUBMIT, SUBMITTED}"
      "db' = update_order i (\<lambda>r. r\<lparr>po_state := SUBMITTED, po_attempts := po_attempts r + 1, po_updated := now\<rparr>) db"
    by (auto simp: paper_mark_submitted_def bindE_eq_Inr Let_def split: if_splits)
  with Some show ?thesis unfolding paper_change_def
    by (intro exI [of _ i] exI [of _ r] exI [of _ SUBMITTED]
        exI [of _ "\<lambda>r. r\<lparr>po_state := SUBMITTED, po_attempts := po_attempts r + 1, po_updated := now\<rparr>"])
      (auto simp: order_core_def)
qed

lemma mark_canceled_outcome:
  assumes "paper_mark_canceled db i t = Inr (db', r')"
  shows "db' = db \<or> paper_change db db'"
proof (cases "fetch_order db i")
  case None
  with assms show ?thesis by (auto simp: paper_mark_canceled_def bindE_eq_Inr)
next
  case (Some r)
  with assms have "db' = db \<or> (\<exists>now. po_state r \<in> {SUBMITTED, PARTIALLY_FILLED} \<and>
      db' = update_order i (\<lambda>r. r\<lparr>po_state := CANCELED, po_updated := now\<rparr>) db)"
    by (auto simp: paper_mark_canceled_def bindE_eq_Inr Let_def split: if_splits)
  then show ?thesis
  proof (elim disjE exE conjE)
    fix now
    assume "po_state r \<in> {SUBMITTED, PARTIALLY_FILLED}"
      "db' = update_order i (\<lambda>r. r\<lparr>po_state := CANCELED, po_updated := now\<rparr>) db"
    with Some have "paper_change db db'" unfolding paper_change_def
      by (intro exI [of _ i] exI [of _ r] exI [of _ CANCELED]
          exI [of _ "\<lambda>r. r\<lparr>po_state := CANCELED, po_updated := now\<rparr>"])
        (auto simp: order_core_def)
    then show ?thesis ..
  qed simp
qed

lemma record_rejection_outcome:
  assumes "record_rejection db i reason t = Inr (db', r')"
  shows "paper_change db db'"
proof (cases "fetch_order db i")
  case None
  with assms show ?thesis by (auto simp: record_rejection_def bindE_eq_Inr)
next
  case (Some r)
  with assms obtain now where "po_state r \<in> {PENDING_SUBMIT, SUBMITTED}"
      "db' = update_order i (\<lambda>r. r\<lparr>po_state := REJECTED, po_reason := Some reason, po_updated := now\<rparr>) db"
    by (auto simp: record_rejection_def bindE_eq_Inr Let_def split: if_splits)
  with Some show ?thesis unfolding paper_change_def
    by (intro exI [of _ i] exI [of _ r] exI [of _ REJECTED]
        exI [of _ "\<lambda>r. r\<lparr>po_state := REJECTED, po_reason := Some reason, po_updated := now\<rparr>"])
      (auto simp: order_core_def)
qed

lemma record_fill_cases:
  assumes "record_fill db i f = Inr (db', r')"
  obtains (replay) row now where "fetch_fill db (fl_id f) = Some row" "fl_at f = Aware now"
      "\<not> fill_conflicts row i f now" "fetch_order db i = Some r'" "db' = db"
  | (applied) r now where "fetch_fill db (fl_id f) = None" "fl_at f = Aware now" "fetch_order db i = Some r"
      "po_state r \<in> {SUBMITTED, PARTIALLY_FILLED}" "0 < num_val (fl_quantity f)" "0 < num_val (fl_price f)"
      "po_filled r + num_val (fl_quantity f) \<le> po_quantity r + 1 / 10 ^ 9"
      "r' = filled_order r (num_val (fl_quantity f)) (num_val (fl_price f)) f now"
      "db' = apply_fill_to_position
                (update_order i (\<lambda>r. filled_order r (num_val (fl_quantity f)) (num_val (fl_price f)) f now)
                  (db\<lparr>fills := fills db @ [fill_row i f now]\<rparr>))
                (po_symbol r) (po_side r) (num_val (fl_quantity f)) (num_val (fl_price f)) now"
proof (cases "fetch_fill db (fl_id f)")
  case (Some row)
  with assms show thesis
    by (auto simp: record_fill_def bindE_eq_Inr utc_of_eq_Inr split: if_splits option.splits intro: replay)
next
  case None
  then obtain now r where "fl_at f = Aware now" "fetch_order db i = Some r"
    using assms by (auto simp: record_fill_def bindE_eq_Inr utc_of_eq_Inr split: if_splits option.splits)
  with None assms show thesis
    by (intro applied [OF None, of now r])
      (auto simp: record_fill_def Let_def not_less not_le split: if_split_asm)
qed

lemma apply_fill_outcome:
  assumes "apply_fill_result db i f = Inr (db', r')"
  shows "db' = db \<or> paper_change db db' \<or> paper_filled db db'"
proof (cases "fl_rejected f")
  case True
  with assms show ?thesis by (simp add: apply_fill_result_def record_rejection_outcome)
next
  case False
  with assms have "record_fill db i f = Inr (db', r')" by (simp add: apply_fill_result_def)
  then show ?thesis by (cases rule: record_fill_cases) (auto simp: paper_filled_def)
qed

lemma paper_step_outcome:
  obtains (same) "paper_step uid db x = db" | (fresh) "paper_fresh db (paper_step uid db x)"
  | (change) "paper_change db (paper_step uid db x)" | (filled) "paper_filled db (paper_step uid db x)"
proof -
  let ?P = "\<lambda>db'. db' = db \<or> paper_fresh db db' \<or> paper_change db db' \<or> paper_filled db db'"
  have "?P (paper_step uid db x)"
    by (cases x; simp only: paper_step.simps; rule stored_cases [where P = ?P])
      (auto dest: begin_order_outcome mark_submitted_outcome mark_canceled_outcome apply_fill_outcome)
  then show thesis using that by blast
qed

section \<open>The invariant of the store\<close>

definition order_key :: "paper_db \<Rightarrow> string \<Rightarrow> (string \<times> intent_side) option" where
  "order_key db i = map_option (\<lambda>r. (po_symbol r, po_side r)) (fetch_order db i)"

definition order_fills :: "paper_db \<Rightarrow> string \<Rightarrow> paper_fill list" where
  "order_fills db i = filter (\<lambda>f. pf_order f = i) (fills db)"

text \<open>The fills of a symbol in the order they were applied, and the position they add up to.\<close>

type_synonym trade = "intent_side \<times> rat \<times> rat \<times> int"

definition fill_trade :: "paper_db \<Rightarrow> string \<Rightarrow> paper_fill \<Rightarrow> trade option" where
  "fill_trade db s f =
     (case order_key db (pf_order f) of
        Some (s', side) \<Rightarrow> if s' = s then Some (side, pf_quantity f, pf_price f, pf_at f) else None
      | None \<Rightarrow> None)"

definition trade_log :: "paper_db \<Rightarrow> string \<Rightarrow> trade list" where
  "trade_log db s = List.map_filter (fill_trade db s) (fills db)"

definition ledger :: "trade list \<Rightarrow> paper_position option" where
  "ledger ts = foldl (\<lambda>p (side, quantity, price, now). Some (position_after p side quantity price now)) None ts"

definition state_ok :: "paper_order \<Rightarrow> bool" where
  "state_ok r =
     (case po_state r of
        PARTIALLY_FILLED \<Rightarrow> 0 < po_filled r \<and> po_filled r < po_quantity r - 1 / 10 ^ 9
      | FILLED \<Rightarrow> 0 < po_filled r \<and> po_quantity r - 1 / 10 ^ 9 \<le> po_filled r
      | CANCELED \<Rightarrow> po_filled r = 0 \<or> po_filled r < po_quantity r - 1 / 10 ^ 9
      | _ \<Rightarrow> po_filled r = 0)"

definition totals_ok :: "paper_fill list \<Rightarrow> paper_order \<Rightarrow> bool" where
  "totals_ok fs r \<longleftrightarrow>
     po_filled r = sum_list (map pf_quantity fs) \<and>
     po_notional r = sum_list (map (\<lambda>f. pf_price f * pf_quantity f) fs) \<and>
     po_spread r = sum_list (map pf_spread fs) \<and> po_slippage r = sum_list (map pf_slippage fs) \<and>
     po_fee r = sum_list (map pf_fee fs) \<and> po_funding r = sum_list (map pf_funding fs)"

definition order_ok :: "paper_db \<Rightarrow> paper_order \<Rightarrow> bool" where
  "order_ok db r \<longleftrightarrow>
     0 < po_quantity r \<and> 0 \<le> po_filled r \<and> po_filled r \<le> po_quantity r + 1 / 10 ^ 9 \<and> state_ok r \<and>
     (po_filled r = 0 \<longrightarrow> po_notional r = 0) \<and> totals_ok (order_fills db (po_id r)) r"

definition paper_ok :: "paper_db \<Rightarrow> bool" where
  "paper_ok db \<longleftrightarrow>
     distinct (map po_id (orders db)) \<and> distinct (map pf_id (fills db)) \<and>
     (\<forall>r \<in> set (orders db). order_ok db r) \<and>
     (\<forall>f \<in> set (fills db). 0 < pf_quantity f \<and> 0 < pf_price f \<and> fetch_order db (pf_order f) \<noteq> None) \<and>
     (\<forall>s. map_of (positions db) s = ledger (trade_log db s))"

lemma paper_ok_empty [simp]: "paper_ok empty_paper_db"
  by (simp add: paper_ok_def empty_paper_db_def trade_log_def ledger_def List.map_filter_def)

lemma fetch_order_none: "fetch_order db i = None \<longleftrightarrow> i \<notin> po_id ` set (orders db)"
  by (simp add: fetch_order_def find_key_none)

lemma fetch_fill_none: "fetch_fill db i = None \<longleftrightarrow> i \<notin> pf_id ` set (fills db)"
  by (simp add: fetch_fill_def find_key_none)

lemma fetch_order_mem: "fetch_order db i = Some r \<Longrightarrow> r \<in> set (orders db)"
  by (auto simp: fetch_order_def find_Some_iff)

lemma order_row:
  "distinct (map po_id (orders db)) \<Longrightarrow> fetch_order db i = Some r \<longleftrightarrow> r \<in> set (orders db) \<and> po_id r = i"
  by (simp add: fetch_order_def find_key_iff)

lemma fetch_order_update:
  "(\<And>r. po_id (g r) = po_id r) \<Longrightarrow> fetch_order (update_order i g db) j =
    (if j = i then map_option g (fetch_order db j) else fetch_order db j)"
  by (simp add: fetch_order_def update_order_def find_map_key)

lemma update_order_frame [simp]:
  "fills (update_order i g db) = fills db" "positions (update_order i g db) = positions db"
  by (simp_all add: update_order_def)

lemma update_order_ids:
  "(\<And>r. po_id (g r) = po_id r) \<Longrightarrow> map po_id (orders (update_order i g db)) = map po_id (orders db)"
  using map_key_same [of po_id g i "orders db"] by (simp add: update_order_def)

lemma trade_log_cong:
  assumes "fills db' = fills db" "\<And>f. f \<in> set (fills db) \<Longrightarrow> order_key db' (pf_order f) = order_key db (pf_order f)"
  shows "trade_log db' s = trade_log db s"
proof -
  have "fill_trade db' s f = fill_trade db s f" if "f \<in> set (fills db)" for f
    using assms(2) [OF that] by (simp add: fill_trade_def)
  then show ?thesis unfolding trade_log_def assms(1) by (rule map_filter_cong)
qed

lemma ledger_snoc: "ledger (ts @ [(side, q, p, t)]) = Some (position_after (ledger ts) side q p t)"
  by (simp add: ledger_def)

lemma order_core_fields:
  assumes "order_core r' = order_core r"
  shows "po_id r' = po_id r" "po_key r' = po_key r" "po_symbol r' = po_symbol r" "po_side r' = po_side r"
    "po_quantity r' = po_quantity r" "po_filled r' = po_filled r" "po_group r' = po_group r"
    "po_reference r' = po_reference r" "po_notional r' = po_notional r" "totals_ok fs r' = totals_ok fs r" "same_order r' q = same_order r q"
  using assms by (cases r; cases r'; simp add: order_core_def totals_ok_def same_order_def)+

lemma paper_ok_fresh:
  assumes ok: "paper_ok db" and st: "paper_fresh db db'"
  shows "paper_ok db'"
proof -
  obtain i q now where q: "fetch_order db i = None" "0 < num_val (oq_quantity q)"
      "db' = db\<lparr>orders := orders db @ [new_order i q now]\<rparr>"
    using st by (auto simp: paper_fresh_def)
  have id: "po_id (new_order i q now) = i" by (simp add: new_order_def)
  have keep: "fetch_order db' j = fetch_order db j" if "fetch_order db j \<noteq> None" for j
    using that by (auto simp: fetch_order_def q(3)) (simp add: find_append)
  have log: "trade_log db' s = trade_log db s" for s
  proof (rule trade_log_cong)
    fix f assume "f \<in> set (fills db)"
    with ok have "fetch_order db (pf_order f) \<noteq> None" by (simp add: paper_ok_def)
    then show "order_key db' (pf_order f) = order_key db (pf_order f)" by (simp add: order_key_def keep)
  qed (simp add: q(3))
  have none: "order_fills db i = []"
    using ok q(1) by (auto simp: order_fills_def paper_ok_def filter_empty_conv)
  have "order_ok db' r" if "r \<in> set (orders db')" for r
  proof (cases "r \<in> set (orders db)")
    case True
    then show ?thesis using ok by (simp add: paper_ok_def order_ok_def order_fills_def q(3))
  next
    case False
    then have "r = new_order i q now" using that by (simp add: q(3))
    then show ?thesis using q(2) none
      by (simp add: order_ok_def order_fills_def q(3) new_order_def state_ok_def totals_ok_def)
  qed
  moreover have "distinct (map po_id (orders db'))"
    using ok q(1) by (auto simp: paper_ok_def q(3) id fetch_order_none)
  ultimately show ?thesis using ok keep log by (auto simp: paper_ok_def q(3))
qed

lemma state_ok_change:
  assumes "state_ok r" "order_core r' = order_core r" "s = SUBMITTED \<and> po_state r = SUBMITTED \<or> paper_edge (po_state r) s" "po_state r' = s"
    "s \<in> {SUBMITTED, CANCELED, REJECTED}"
  shows "state_ok r'"
  using assms order_core_fields [OF assms(2)]
  by (cases "po_state r") (auto simp: state_ok_def)

lemma paper_ok_change:
  assumes ok: "paper_ok db" and st: "paper_change db db'"
  shows "paper_ok db'"
proof -
  obtain i r s g where c: "fetch_order db i = Some r" "db' = update_order i g db"
      "\<And>x. order_core (g x) = order_core x" "\<And>x. po_state (g x) = s"
      "s = SUBMITTED \<and> po_state r = SUBMITTED \<or> paper_edge (po_state r) s"
      "s \<in> {SUBMITTED, CANCELED, REJECTED}"
    using st unfolding paper_change_def by blast
  note gid = order_core_fields [OF c(3)]
  have key: "order_key db' j = order_key db j" for j
    by (auto simp: order_key_def c(2) fetch_order_update gid option.map_comp comp_def)
  have log: "trade_log db' s = trade_log db s" for s
    by (rule trade_log_cong) (simp_all add: c(2) key [unfolded c(2)])
  have dist: "distinct (map po_id (orders db))" using ok by (simp add: paper_ok_def)
  have "order_ok db' x" if "x \<in> set (orders db')" for x
  proof (cases "x \<in> set (orders db) \<and> po_id x \<noteq> i")
    case True
    then show ?thesis using ok by (simp add: paper_ok_def order_ok_def order_fills_def c(2))
  next
    case False
    obtain y where "y \<in> set (orders db)" "x = (if po_id y = i then g y else y)"
      using \<open>x \<in> set (orders db')\<close> by (auto simp: c(2) update_order_def)
    with False have "y \<in> set (orders db)" "po_id y = i" "x = g y" by (auto split: if_splits)
    moreover have "y = r" using c(1) order_row [OF dist, of i y] \<open>y \<in> set (orders db)\<close> \<open>po_id y = i\<close> by simp
    ultimately have "x = g r" "order_ok db r" using ok by (auto simp: paper_ok_def)
    then show ?thesis
      using state_ok_change [OF _ c(3,5,4,6)] by (simp add: order_ok_def order_fills_def c(2) gid)
  qed
  moreover have "map po_id (orders db') = map po_id (orders db)"
    by (simp add: c(2) update_order_ids gid)
  moreover have "fetch_order db' j \<noteq> None" if "fetch_order db j \<noteq> None" for j
    using that by (auto simp: c(2) fetch_order_update gid)
  ultimately show ?thesis using ok log by (auto simp: paper_ok_def c(2))
qed

lemma filled_order_core:
  "po_id (filled_order r q p f now) = po_id r" "po_symbol (filled_order r q p f now) = po_symbol r"
  "po_side (filled_order r q p f now) = po_side r" "po_quantity (filled_order r q p f now) = po_quantity r"
  "po_filled (filled_order r q p f now) = po_filled r + q"
  "po_key (filled_order r q p f now) = po_key r" "po_group (filled_order r q p f now) = po_group r"
  "po_reference (filled_order r q p f now) = po_reference r"
  "same_order (filled_order r q p f now) w = same_order r w"
  by (simp_all add: filled_order_def Let_def same_order_def)

lemma order_ok_filled:
  assumes ok: "order_ok db r" and f: "0 < num_val (fl_quantity f)" "po_state r \<in> {SUBMITTED, PARTIALLY_FILLED}"
      "po_filled r + num_val (fl_quantity f) \<le> po_quantity r + 1 / 10 ^ 9"
    and fs: "order_fills db' (po_id r) = order_fills db (po_id r) @ [fill_row (po_id r) f now]"
  shows "order_ok db' (filled_order r (num_val (fl_quantity f)) (num_val (fl_price f)) f now)"
proof -
  let ?r = "filled_order r (num_val (fl_quantity f)) (num_val (fl_price f)) f now"
  have n: "(case average_fill_price r of None \<Rightarrow> 0 | Some a \<Rightarrow> a) * po_filled r = po_notional r"
    using ok by (auto simp: average_fill_price_def order_ok_def)
  have parts: "po_notional ?r = po_notional r + num_val (fl_price f) * num_val (fl_quantity f)"
      "po_spread ?r = po_spread r + fl_spread f" "po_slippage ?r = po_slippage r + fl_slippage f"
      "po_fee ?r = po_fee r + fl_fee f" "po_funding ?r = po_funding r + fl_funding f"
    by (simp_all add: filled_order_def Let_def n)
  have "totals_ok (order_fills db' (po_id r)) ?r"
    using ok unfolding fs by (simp add: order_ok_def totals_ok_def parts filled_order_core fill_row_def)
  moreover have "state_ok ?r" using ok f(1) by (simp add: state_ok_def filled_order_def Let_def order_ok_def)
  ultimately show ?thesis using ok f by (simp add: order_ok_def filled_order_core)
qed

lemma paper_filled_parts:
  assumes "distinct (map po_id (orders db))" "paper_filled db db'"
  obtains i f r now where "fetch_fill db (fl_id f) = None" "fetch_order db i = Some r"
    "po_state r \<in> {SUBMITTED, PARTIALLY_FILLED}" "0 < num_val (fl_quantity f)" "0 < num_val (fl_price f)"
    "po_filled r + num_val (fl_quantity f) \<le> po_quantity r + 1 / 10 ^ 9"
    "fills db' = fills db @ [fill_row i f now]"
    "positions db' = AList.update (po_symbol r) (position_after (map_of (positions db) (po_symbol r)) (po_side r)
        (num_val (fl_quantity f)) (num_val (fl_price f)) now) (positions db)"
    "map po_id (orders db') = map po_id (orders db)"
    "\<And>j. fetch_order db' j = (if j = i
        then Some (filled_order r (num_val (fl_quantity f)) (num_val (fl_price f)) f now) else fetch_order db j)"
proof -
  obtain i f r now where f: "fetch_fill db (fl_id f) = None" "fetch_order db i = Some r"
      "po_state r \<in> {SUBMITTED, PARTIALLY_FILLED}" "0 < num_val (fl_quantity f)" "0 < num_val (fl_price f)"
      "po_filled r + num_val (fl_quantity f) \<le> po_quantity r + 1 / 10 ^ 9"
      "db' = apply_fill_to_position
                (update_order i (\<lambda>r. filled_order r (num_val (fl_quantity f)) (num_val (fl_price f)) f now)
                  (db\<lparr>fills := fills db @ [fill_row i f now]\<rparr>))
                (po_symbol r) (po_side r) (num_val (fl_quantity f)) (num_val (fl_price f)) now"
    using assms(2) unfolding paper_filled_def by blast
  let ?u = "update_order i (\<lambda>r. filled_order r (num_val (fl_quantity f)) (num_val (fl_price f)) f now)
                  (db\<lparr>fills := fills db @ [fill_row i f now]\<rparr>)"
  have o: "orders db' = orders ?u" by (simp add: f(7) apply_fill_to_position_def)
  then have "fetch_order db' j = fetch_order ?u j" for j by (simp add: fetch_order_def)
  then have "fetch_order db' j = (if j = i
        then Some (filled_order r (num_val (fl_quantity f)) (num_val (fl_price f)) f now) else fetch_order db j)" for j
    using f(2) by (simp add: fetch_order_update filled_order_core) (simp add: fetch_order_def)
  moreover have "map po_id (orders db') = map po_id (orders db)"
    unfolding o using update_order_ids [OF filled_order_core(1)] by simp
  ultimately show thesis using f(1-6)
    by (intro that) (simp_all add: f(7) apply_fill_to_position_def)
qed

lemma paper_ok_filled:
  assumes ok: "paper_ok db" and st: "paper_filled db db'"
  shows "paper_ok db'"
proof -
  have dist: "distinct (map po_id (orders db))" using ok by (simp add: paper_ok_def)
  obtain i f r now where f: "fetch_fill db (fl_id f) = None" "fetch_order db i = Some r"
      "po_state r \<in> {SUBMITTED, PARTIALLY_FILLED}" "0 < num_val (fl_quantity f)" "0 < num_val (fl_price f)"
      "po_filled r + num_val (fl_quantity f) \<le> po_quantity r + 1 / 10 ^ 9"
      "fills db' = fills db @ [fill_row i f now]"
      "positions db' = AList.update (po_symbol r) (position_after (map_of (positions db) (po_symbol r)) (po_side r)
          (num_val (fl_quantity f)) (num_val (fl_price f)) now) (positions db)"
      "map po_id (orders db') = map po_id (orders db)"
      "\<And>j. fetch_order db' j = (if j = i
          then Some (filled_order r (num_val (fl_quantity f)) (num_val (fl_price f)) f now) else fetch_order db j)"
    using paper_filled_parts [OF dist st] by metis
  have row: "pf_id (fill_row i f now) = fl_id f" "pf_order (fill_row i f now) = i"
      "pf_quantity (fill_row i f now) = num_val (fl_quantity f)" "pf_price (fill_row i f now) = num_val (fl_price f)"
      "pf_at (fill_row i f now) = now"
    by (simp_all add: fill_row_def)
  have dist': "distinct (map po_id (orders db'))" using dist by (simp add: f(9))
  have key: "order_key db' j = order_key db j" for j
    by (simp add: order_key_def f(2,10) filled_order_core)
  have log: "trade_log db' s = trade_log db s @ (if po_symbol r = s
      then [(po_side r, num_val (fl_quantity f), num_val (fl_price f), now)] else [])" for s
  proof -
    have "fill_trade db' s = fill_trade db s" by (simp add: fill_trade_def key fun_eq_iff)
    then show ?thesis
      by (simp add: trade_log_def f(7) map_filter_def fill_trade_def row order_key_def f(2))
  qed
  have "map_of (positions db') s = ledger (trade_log db' s)" for s
    using ok by (simp add: f(8) update_conv' log ledger_snoc paper_ok_def)
  moreover have "order_ok db' x" if "x \<in> set (orders db')" for x
  proof (cases "po_id x = i")
    case True
    then have "x = filled_order r (num_val (fl_quantity f)) (num_val (fl_price f)) f now"
      using order_row [OF dist', of i x] that f(10) [of i] by simp
    moreover have "order_ok db r" using ok fetch_order_mem [OF f(2)] by (simp add: paper_ok_def)
    moreover have "order_fills db' i = order_fills db i @ [fill_row i f now]"
      by (simp add: order_fills_def f(7) row)
    ultimately show ?thesis using f(3-6) fetch_order_id [OF f(2)] by (simp add: order_ok_filled)
  next
    case False
    then have "fetch_order db (po_id x) = Some x"
      using f(10) [of "po_id x"] order_row [OF dist', of "po_id x" x] that by simp
    then have "order_ok db x" using ok by (auto simp: paper_ok_def dest: fetch_order_mem)
    moreover have "order_fills db' (po_id x) = order_fills db (po_id x)"
      using False by (simp add: order_fills_def f(7) row)
    ultimately show ?thesis by (simp add: order_ok_def)
  qed
  ultimately show ?thesis
    using ok dist' f(1,4,5,10) by (auto simp: paper_ok_def f(7) row fetch_fill_none)
qed

lemma paper_step_ok: "paper_ok db \<Longrightarrow> paper_ok (paper_step uid db x)"
  by (cases rule: paper_step_outcome [of uid db x])
    (auto intro: paper_ok_fresh paper_ok_change paper_ok_filled)

section \<open>The state machine\<close>

definition order_state :: "paper_db \<Rightarrow> string \<Rightarrow> paper_state option" where
  "order_state db i = map_option po_state (fetch_order db i)"

text \<open>One operation seen from one order.\<close>

definition order_move :: "paper_order \<Rightarrow> paper_order \<Rightarrow> bool" where
  "order_move r r' \<longleftrightarrow>
     (po_state r' = po_state r \<or> paper_edge (po_state r) (po_state r')) \<and>
     po_id r' = po_id r \<and> po_symbol r' = po_symbol r \<and> po_side r' = po_side r \<and>
     po_reference r' = po_reference r \<and> (\<forall>q. same_order r' q = same_order r q) \<and>
     (po_state r \<in> {FILLED, CANCELED, REJECTED} \<longrightarrow> r' = r)"

lemma order_move_refl [simp]: "order_move r r"
  by (simp add: order_move_def)

lemma order_move_core:
  assumes c: "order_core r' = order_core r"
    and s: "s = SUBMITTED \<and> po_state r = SUBMITTED \<or> paper_edge (po_state r) s" "po_state r' = s"
  shows "order_move r r'"
proof -
  have "po_state r \<notin> {FILLED, CANCELED, REJECTED}" using s(1) by auto
  then show ?thesis using order_core_fields [OF c] s by (auto simp: order_move_def)
qed

lemma order_move_filled:
  assumes "po_state r \<in> {SUBMITTED, PARTIALLY_FILLED}"
  shows "order_move r (filled_order r q p f now)"
proof -
  have "po_state (filled_order r q p f now) \<in> {FILLED, PARTIALLY_FILLED}"
    by (simp add: filled_order_def Let_def)
  with assms show ?thesis by (auto simp: order_move_def filled_order_core)
qed

lemma paper_step_order:
  assumes ok: "paper_ok db"
  obtains (fresh) q now where "fetch_order db i = None"
      "fetch_order (paper_step uid db x) i = Some (new_order i q now)"
  | (absent) "fetch_order db i = None" "fetch_order (paper_step uid db x) i = None"
  | (move) r r' where "fetch_order db i = Some r" "fetch_order (paper_step uid db x) i = Some r'" "order_move r r'"
proof (cases rule: paper_step_outcome [of uid db x])
  case same
  then show thesis using absent move by (cases "fetch_order db i") auto
next
  case fresh
  then obtain j q now where q: "fetch_order db j = None"
      "paper_step uid db x = db\<lparr>orders := orders db @ [new_order j q now]\<rparr>"
    by (auto simp: paper_fresh_def)
  have id: "po_id (new_order j q now) = j" by (simp add: new_order_def)
  have "fetch_order (paper_step uid db x) i = (if i = j then Some (new_order j q now) else fetch_order db i)"
    using q(1) by (auto simp: q(2) fetch_order_def find_append id split: option.splits)
  then show thesis using q(1) that by (cases "i = j"; cases "fetch_order db i") auto
next
  case change
  then obtain j r s g where c: "fetch_order db j = Some r" "paper_step uid db x = update_order j g db"
      "\<And>x. order_core (g x) = order_core x" "\<And>x. po_state (g x) = s"
      "s = SUBMITTED \<and> po_state r = SUBMITTED \<or> paper_edge (po_state r) s"
    unfolding paper_change_def by blast
  have "fetch_order (paper_step uid db x) i = (if i = j then Some (g r) else fetch_order db i)"
    using c(1) by (simp add: c(2) fetch_order_update order_core_fields(1) [OF c(3)])
  moreover have "order_move r (g r)" using order_move_core [OF c(3,5,4)] .
  ultimately show thesis using c(1) absent move by (cases "i = j"; cases "fetch_order db i") auto
next
  case filled
  have "distinct (map po_id (orders db))" using ok by (simp add: paper_ok_def)
  from paper_filled_parts [OF this filled] obtain j f r q p now where f: "fetch_order db j = Some r"
      "po_state r \<in> {SUBMITTED, PARTIALLY_FILLED}"
      "fetch_order (paper_step uid db x) i = (if i = j then Some (filled_order r q p f now) else fetch_order db i)"
    by metis
  then show thesis using absent move order_move_filled [OF f(2)]
    by (cases "i = j"; cases "fetch_order db i") auto
qed

interpretation paper_life: lifecycle "paper_step uid" order_state paper_edge "\<lambda>s. s = PENDING_SUBMIT" paper_ok for uid
proof unfold_locales
  fix db x i p q
  assume ok: "paper_ok db"
  show "paper_ok (paper_step uid db x)" using ok by (rule paper_step_ok)
  show "order_state db i = None \<Longrightarrow> order_state (paper_step uid db x) i = Some q \<Longrightarrow> q = PENDING_SUBMIT"
    by (cases rule: paper_step_order [OF ok, of i uid x]) (auto simp: order_state_def new_order_def)
  show "order_state db i = Some p \<Longrightarrow>
      \<exists>q. order_state (paper_step uid db x) i = Some q \<and> (q = p \<or> paper_edge p q)"
    by (cases rule: paper_step_order [OF ok, of i uid x]) (auto simp: order_state_def order_move_def)
qed

lemma run_order_invariant:
  assumes "paper_ok db" "fetch_order db i = Some r" "P r" and step: "\<And>r r'. P r \<Longrightarrow> order_move r r' \<Longrightarrow> P r'"
  shows "\<exists>r'. fetch_order (foldl (paper_step uid) db xs) i = Some r' \<and> P r'"
  using assms(1-3)
proof (induction xs arbitrary: db r)
  case (Cons x xs)
  obtain r' where "fetch_order (paper_step uid db x) i = Some r'" "P r'"
    using Cons.prems step by (cases rule: paper_step_order [OF Cons.prems(1), of i uid x]) auto
  with Cons.IH [OF paper_step_ok [OF Cons.prems(1)]] show ?case by simp
qed auto

section \<open>Fills are never forgotten\<close>

lemma paper_step_fills:
  assumes "paper_ok db"
  shows "\<exists>new. fills (paper_step uid db x) = fills db @ new"
proof (cases rule: paper_step_outcome [of uid db x])
  case filled
  have "distinct (map po_id (orders db))" using assms by (simp add: paper_ok_def)
  from paper_filled_parts [OF this filled] show ?thesis by metis
next
  case change
  then obtain i g where "paper_step uid db x = update_order i g db" unfolding paper_change_def by blast
  then show ?thesis by simp
qed (auto simp: paper_fresh_def)

lemma run_fill_kept:
  assumes "paper_ok db" "fetch_fill db k = Some row"
  shows "fetch_fill (foldl (paper_step uid) db xs) k = Some row"
  using assms
proof (induction xs arbitrary: db)
  case (Cons x xs)
  obtain new where "fills (paper_step uid db x) = fills db @ new"
    using paper_step_fills [OF Cons.prems(1)] by blast
  with Cons.prems(2) have "fetch_fill (paper_step uid db x) k = Some row"
    by (simp add: fetch_fill_def find_append)
  with Cons.IH [OF paper_step_ok [OF Cons.prems(1)]] show ?case by simp
qed simp

section \<open>The position ledger\<close>

lemma ledger_Nil [simp]: "ledger [] = None"
  by (simp add: ledger_def)


definition trade_delta :: "trade \<Rightarrow> rat" where
  "trade_delta t = signed_delta (fst t) (fst (snd t))"

lemma trade_delta_simp [simp]: "trade_delta (side, q, p, t) = signed_delta side q"
  by (simp add: trade_delta_def)













text \<open>
  Average-cost accounts, kept without any average: the open inventory as the parts it was
  bought (positive) or sold (negative) in, each with its own price, and the profit so far. A fill
  on the side of the inventory adds a part. A fill against it takes the same share of every part
  and books its cash less what those parts cost; one that is larger takes all of them and opens
  what is left at its own price.
\<close>

type_synonym inventory = "(rat \<times> rat) list"

definition held :: "inventory \<Rightarrow> rat" where
  "held parts = sum_list (map fst parts)"

definition paid :: "inventory \<Rightarrow> rat" where
  "paid parts = sum_list (map (\<lambda>(quantity, price). quantity * price) parts)"

definition take_share :: "rat \<Rightarrow> inventory \<Rightarrow> inventory" where
  "take_share share parts = map (\<lambda>(quantity, price). (quantity * (1 - share), price)) parts"




lemma held_simps [simp]:
  "held [] = 0" "held (parts @ [(x, y)]) = held parts + x" "held [(x, y)] = x"
  "held (take_share share parts) = held parts * (1 - share)"
proof -
  show "held (take_share share parts) = held parts * (1 - share)"
    by (induction parts) (auto simp: held_def take_share_def algebra_simps)
qed (simp_all add: held_def)

lemma paid_simps [simp]:
  "paid [] = 0" "paid (parts @ [(x, y)]) = paid parts + x * y" "paid [(x, y)] = x * y"
  "paid (take_share share parts) = paid parts * (1 - share)"
proof -
  show "paid (take_share share parts) = paid parts * (1 - share)"
    by (induction parts) (auto simp: paid_def take_share_def algebra_simps)
qed (simp_all add: paid_def)






lemma paper_run_ok: "paper_ok (paper_run uid xs)"
  by (rule paper_life.run_inv) simp

lemma begin_order_row:
  assumes ok: "paper_ok db" and b: "begin_order uid db q now = Inr (db', r)"
  shows "paper_ok db'" "fetch_order db' (po_id r) = Some r" "same_order r q"
    "\<not> blank (oq_symbol q)" "finite_positive (oq_quantity q)" "finite_positive (oq_reference q)"
    "client_order_id_for uid (oq_key q) = Inr (po_id r)"
proof -
  show "paper_ok db'" using begin_order_outcome [OF b] ok paper_ok_fresh by auto
  obtain i t where i: "client_order_id_for uid (oq_key q) = Inr i" "\<not> blank (oq_symbol q)"
      "finite_positive (oq_quantity q)" "finite_positive (oq_reference q)"
      "(case fetch_order db i of
            Some existing \<Rightarrow>
              if same_order existing q then Inr (db, existing)
              else Inl (Raised PaperReconciliationError ''idempotency_key conflict'')
          | None \<Rightarrow>
              if list_ex (\<lambda>r. po_key r = oq_key q) (orders db)
              then Inl (IntegrityError ''UNIQUE paper_orders.idempotency_key'')
              else Inr (db\<lparr>orders := orders db @ [new_order i q t]\<rparr>, new_order i q t)) = Inr (db', r)"
    using b unfolding begin_order_def if_Inl_eq_Inr bindE_eq_Inr by blast
  then show "\<not> blank (oq_symbol q)" "finite_positive (oq_quantity q)" "finite_positive (oq_reference q)" by blast+
  have "fetch_order db' i = Some r \<and> same_order r q \<and> po_id r = i"
  proof (cases "fetch_order db i")
    case None
    then show ?thesis using i(5)
      by (auto simp: fetch_order_def find_append new_order_def same_order_def split: if_splits)
  next
    case (Some x)
    then show ?thesis using i(5) by (auto simp: fetch_order_id split: if_splits)
  qed
  then show "fetch_order db' (po_id r) = Some r" "same_order r q"
    "client_order_id_for uid (oq_key q) = Inr (po_id r)" using i(1) by auto
qed

section \<open>Replayed fills\<close>

text \<open>A fill that the store recognizes as one it has applied.\<close>

definition replayable :: "paper_db \<Rightarrow> string \<Rightarrow> fill \<Rightarrow> bool" where
  "replayable db i f \<longleftrightarrow>
     (\<exists>row now. fetch_fill db (fl_id f) = Some row \<and> fl_at f = Aware now \<and> \<not> fill_conflicts row i f now) \<and>
     fetch_order db i \<noteq> None \<and> \<not> blank (fl_id f) \<and> finite_positive (fl_quantity f) \<and> finite_positive (fl_price f)"

lemma record_fill_replayable:
  assumes "record_fill db0 i f = Inr (db, r)"
  shows "replayable db i f" "fetch_order db i = Some r"
proof -
  have guards: "\<not> blank (fl_id f)" "finite_positive (fl_quantity f)" "finite_positive (fl_price f)"
    using assms unfolding record_fill_def if_Inl_eq_Inr by blast+
  have "replayable db i f \<and> fetch_order db i = Some r"
    using assms
  proof (cases rule: record_fill_cases)
    case (replay row now)
    then show ?thesis using guards by (auto simp: replayable_def)
  next
    case (applied x now)
    have "fetch_fill db (fl_id f) = Some (fill_row i f now)"
      using applied(1) unfolding applied(9) by (simp add: fetch_fill_def find_append apply_fill_to_position_def fill_row_def)
    moreover have "\<not> fill_conflicts (fill_row i f now) i f now" by (simp add: fill_conflicts_def fill_row_def)
    moreover have "fetch_order db i = Some r"
      using applied(3,8) unfolding applied(9)
      by (simp add: fetch_order_def apply_fill_to_position_def update_order_def find_map_key filled_order_core)
    ultimately show ?thesis using applied(2) guards by (auto simp: replayable_def)
  qed
  then show "replayable db i f" "fetch_order db i = Some r" by blast+
qed

lemma replayable_run:
  assumes ok: "paper_ok db" and r: "replayable db i f"
  shows "replayable (foldl (paper_step uid) db ys) i f"
proof -
  obtain x where "fetch_order db i = Some x" using r by (auto simp: replayable_def)
  then have "fetch_order (foldl (paper_step uid) db ys) i \<noteq> None"
    using run_order_invariant [OF ok, of i x "\<lambda>_. True"] by auto
  with r run_fill_kept [OF ok] show ?thesis by (auto simp: replayable_def)
qed

lemma replayable_noop:
  assumes "replayable db i f"
  shows "\<exists>r. record_fill db i f = Inr (db, r) \<and> fetch_order db i = Some r"
  using assms by (auto simp: replayable_def record_fill_def simp del: finite_positive_iff)

lemma known_fill_noop:
  assumes "fetch_fill db (fl_id g) \<noteq> None" "\<not> fl_rejected g"
  shows "stored db (apply_fill_result db j g) = db"
proof (cases "apply_fill_result db j g")
  case (Inr a)
  then obtain db' r' where a: "a = (db', r')" "record_fill db j g = Inr (db', r')"
    using assms(2) by (cases a) (simp add: apply_fill_result_def)
  from a(2) have "db' = db" by (cases rule: record_fill_cases) (use assms(1) in auto)
  then show ?thesis by (simp add: Inr a(1) stored_def)
qed (simp add: stored_def)

lemma apply_fill_ok: "paper_ok db \<Longrightarrow> apply_fill_result db i f = Inr (db', r) \<Longrightarrow> paper_ok db'"
  using apply_fill_outcome [of db i f db' r] by (auto intro: paper_ok_change paper_ok_filled)

section \<open>Properties\<close>

text \<open>
  Whatever operations run, every order's filled quantity, notional and costs are the sums over
  the fills recorded for it, the filled quantity is never more than the ordered one (up to the
  code's 1e-9), and the state agrees with it.
\<close>

theorem paper_order_totals:
  assumes "fetch_order (paper_run uid xs) i = Some r"
  shows "totals_ok (order_fills (paper_run uid xs) i) r \<and> 0 \<le> po_filled r \<and>
    po_filled r \<le> po_quantity r + 1 / 10 ^ 9 \<and> state_ok r"
  using paper_run_ok [of uid xs] fetch_order_mem [OF assms] fetch_order_id [OF assms]
  by (auto simp: paper_ok_def order_ok_def)


text \<open>
  C8. A fill is applied once. After a fill has been accepted, and whatever operations follow, the same
  fill is accepted again without changing the store, and no other fill with its id ever changes the
  store.
\<close>

theorem paper_fill_applied_once:
  assumes "apply_fill_result (paper_run uid xs) i f = Inr (db, r)" "\<not> fl_rejected f"
  shows "(\<exists>r'. apply_fill_result (foldl (paper_step uid) db ys) i f = Inr (foldl (paper_step uid) db ys, r') \<and> po_id r' = i) \<and>
    (\<forall>j g. \<not> fl_rejected g \<and> fl_id g = fl_id f \<longrightarrow>
       stored (foldl (paper_step uid) db ys) (apply_fill_result (foldl (paper_step uid) db ys) j g) = foldl (paper_step uid) db ys)"
proof -
  let ?db = "foldl (paper_step uid) db ys"
  have ok: "paper_ok db" using apply_fill_ok [OF paper_run_ok assms(1)] .
  from assms have "record_fill (paper_run uid xs) i f = Inr (db, r)" by (simp add: apply_fill_result_def)
  then have rep: "replayable ?db i f" using replayable_run [OF ok] record_fill_replayable(1) by blast
  from replayable_noop [OF this] obtain x where "record_fill ?db i f = Inr (?db, x)" "fetch_order ?db i = Some x"
    by blast
  then have "apply_fill_result ?db i f = Inr (?db, x) \<and> po_id x = i"
    using assms(2) by (simp add: apply_fill_result_def fetch_order_id)
  moreover have "fetch_fill ?db (fl_id f) \<noteq> None" using rep by (auto simp: replayable_def)
  ultimately show ?thesis using known_fill_noop by metis
qed

text \<open>
  Beginning an order is idempotent: after any later operations the same request returns the order
  created first and leaves the store unchanged.
\<close>

theorem paper_begin_idempotent:
  assumes "begin_order uid (paper_run uid xs) q now = Inr (db, r)"
  shows "\<exists>r'. begin_order uid (foldl (paper_step uid) db ys) q (Aware later) =
      Inr (foldl (paper_step uid) db ys, r') \<and> po_id r' = po_id r"
proof -
  note row = begin_order_row [OF paper_run_ok assms]
  have "\<exists>x. fetch_order (foldl (paper_step uid) db ys) (po_id r) = Some x \<and> same_order x q \<and> po_id x = po_id r"
    using row(1-3) by (intro run_order_invariant) (simp_all add: order_move_def)
  then obtain r' where "fetch_order (foldl (paper_step uid) db ys) (po_id r) = Some r'"
      "same_order r' q" "po_id r' = po_id r" by blast
  with row(4-7) show ?thesis by (simp add: begin_order_def del: finite_positive_iff)
qed

text \<open>
  FILLED, CANCELED and REJECTED are final: no later operation changes the row of such an order,
  and every order is on a path of the state machine from PENDING_SUBMIT.
\<close>

theorem paper_terminal_frozen:
  assumes "fetch_order (paper_run uid xs) i = Some r"
  shows "(po_state r \<in> {FILLED, CANCELED, REJECTED} \<longrightarrow> fetch_order (paper_run uid (xs @ ys)) i = Some r) \<and>
    paper_edge\<^sup>*\<^sup>* PENDING_SUBMIT (po_state r)"
proof -
  have "\<exists>x. fetch_order (paper_run uid (xs @ ys)) i = Some x \<and> x = r" if "po_state r \<in> {FILLED, CANCELED, REJECTED}"
    unfolding foldl_append using that
    by (intro run_order_invariant [OF paper_run_ok assms]) (auto simp: order_move_def)
  moreover have "order_state empty_paper_db i = None" by (simp add: order_state_def empty_paper_db_def fetch_order_def)
  then have "paper_edge\<^sup>*\<^sup>* PENDING_SUBMIT (po_state r)"
    using paper_life.run_from_start [OF paper_ok_empty, of i uid xs "po_state r"] assms by (simp add: order_state_def)
  ultimately show ?thesis by blast
qed

lemma state_exposure:
  assumes "state_ok r"
  shows "po_filled r = 0 \<Longrightarrow> po_state r \<in> {REJECTED, CANCELED, SUBMITTED, PENDING_SUBMIT}"
    "po_state r \<in> {PENDING_SUBMIT, SUBMITTED, REJECTED} \<Longrightarrow> po_filled r = 0"
    "po_state r = FILLED \<Longrightarrow> po_quantity r - 1 / 10 ^ 9 \<le> po_filled r"
  using assms by (cases "po_state r"; simp add: state_ok_def)+

text \<open>
  The status of a leg group reports a naked position: as soon as one leg has a fill and another
  has none, the group is ORPHANED; a group is SETTLED only when every leg is filled up to 1e-9, and
  CLEANLY_REJECTED only when no leg has any fill and every leg is closed.
\<close>

theorem paper_leg_group_exposure:
  assumes "leg_group_status (paper_run uid xs) g = Inr st"
  defines "legs \<equiv> {r \<in> set (orders (paper_run uid xs)). po_group r = Some g}"
  shows "((\<exists>r \<in> legs. 0 < po_filled r) \<and> (\<exists>r \<in> legs. po_filled r = 0) \<longrightarrow> st = ORPHANED) \<and>
    (st = SETTLED \<longrightarrow> (\<forall>r \<in> legs. po_quantity r - 1 / 10 ^ 9 \<le> po_filled r)) \<and>
    (st = CLEANLY_REJECTED \<longrightarrow> (\<forall>r \<in> legs. po_filled r = 0 \<and> po_state r \<in> {REJECTED, CANCELED}))"
proof -
  have ok: "state_ok r" "0 \<le> po_filled r" if "r \<in> legs" for r
    using that paper_run_ok [of uid xs] by (simp_all add: legs_def paper_ok_def order_ok_def)
  have legs: "set (map po_state (filter (\<lambda>r. po_group r = Some g) (orders (paper_run uid xs)))) = po_state ` legs"
    "list_ex (\<lambda>r. 0 < po_filled r) (filter (\<lambda>r. po_group r = Some g) (orders (paper_run uid xs))) =
       (\<exists>r \<in> legs. 0 < po_filled r)"
    by (auto simp: legs_def list_ex_iff)
  have st: "(if po_state ` legs \<subseteq> {REJECTED, CANCELED} \<and> \<not> (\<exists>r \<in> legs. 0 < po_filled r) then Inr CLEANLY_REJECTED
      else if po_state ` legs \<subseteq> {FILLED} then Inr SETTLED
      else if (\<exists>r \<in> legs. 0 < po_filled r) \<and> po_state ` legs \<inter> {REJECTED, CANCELED, SUBMITTED, PENDING_SUBMIT} \<noteq> {}
      then Inr ORPHANED else (Inr GROUP_PENDING :: leg_group_state result)) = Inr st"
    using assms(1) unfolding leg_group_status_def Let_def if_Inl_eq_Inr legs by blast
  have "st = ORPHANED" if e: "a \<in> legs" "0 < po_filled a" "b \<in> legs" "po_filled b = 0" for a b
  proof -
    have b: "po_state b \<in> {REJECTED, CANCELED, SUBMITTED, PENDING_SUBMIT}"
      using state_exposure(1) [OF ok(1) [OF e(3)] e(4)] .
    have mem: "po_state b \<in> po_state ` legs" using e(3) by (rule imageI)
    have "po_state ` legs \<inter> {REJECTED, CANCELED, SUBMITTED, PENDING_SUBMIT} \<noteq> {}" using IntI [OF mem b] by (metis empty_iff)
    moreover have "po_state b \<noteq> FILLED" using b by auto
    then have "\<not> po_state ` legs \<subseteq> {FILLED}" using mem by (metis singletonD subsetD)
    moreover have "\<exists>r \<in> legs. 0 < po_filled r" using e(1,2) by blast
    ultimately show ?thesis using st by (simp split: if_splits)
  qed
  moreover have "po_quantity r - 1 / 10 ^ 9 \<le> po_filled r" if "st = SETTLED" "r \<in> legs" for r
  proof -
    have "po_state ` legs \<subseteq> {FILLED}" using st that(1) by (auto split: if_splits)
    then show ?thesis using that(2) state_exposure(3) [OF ok(1) [OF that(2)]] by auto
  qed
  moreover have "po_filled r = 0 \<and> po_state r \<in> {REJECTED, CANCELED}" if "st = CLEANLY_REJECTED" "r \<in> legs" for r
  proof -
    have "po_state ` legs \<subseteq> {REJECTED, CANCELED} \<and> \<not> (\<exists>r \<in> legs. 0 < po_filled r)" using st that(1) by (auto split: if_splits)
    then show ?thesis using that(2) ok(2) [OF that(2)] by (auto simp: not_less)
  qed
  ultimately show ?thesis by blast
qed

section \<open>Witnesses\<close>

definition paper_rq :: order_request where
  "paper_rq = \<lparr>oq_key = ''k'', oq_symbol = ''S'', oq_side = BUY_INTENT, oq_quantity = Fin 2, oq_reference = Fin 10,
     oq_group = Some ''g''\<rparr>"

definition paper_rq2 :: order_request where
  "paper_rq2 = paper_rq\<lparr>oq_key := ''l'', oq_side := SELL_INTENT\<rparr>"

definition paper_fl :: fill where
  "paper_fl = \<lparr>fl_price = Fin 11, fl_quantity = Fin 2, fl_at = Aware 3, fl_rejected = False, fl_reason = [],
     fl_spread = 0, fl_slippage = 2, fl_fee = 1, fl_funding = 0, fl_id = ''x''\<rparr>"

definition paper_demo :: "paper_op list" where
  "paper_demo = [BeginOrder paper_rq (Aware 1), BeginOrder paper_rq2 (Aware 1), MarkSubmitted ''paper-k'' (Aware 2)]"

lemma paper_demo_texts: "\<not> blank ''k''" "\<not> blank ''l''" "\<not> blank ''S''" "\<not> blank ''x''"
  by code_simp+

lemma paper_begun:
  "begin_order id empty_paper_db paper_rq (Aware 1) =
     Inr (\<lparr>orders = [new_order ''paper-k'' paper_rq 1], positions = [], fills = []\<rparr>, new_order ''paper-k'' paper_rq 1)"
  by (simp add: begin_order_def client_order_id_for_def paper_rq_def paper_demo_texts fetch_order_def empty_paper_db_def)

definition paper_demo_db :: paper_db where
  "paper_demo_db = \<lparr>orders = [(new_order ''paper-k'' paper_rq 1)\<lparr>po_state := SUBMITTED, po_attempts := 1, po_updated := 2\<rparr>,
     new_order ''paper-l'' paper_rq2 1], positions = [], fills = []\<rparr>"

lemma paper_demo_run: "paper_run id paper_demo = paper_demo_db"
proof -
  have 2: "begin_order id \<lparr>orders = [new_order ''paper-k'' paper_rq 1], positions = [], fills = []\<rparr> paper_rq2 (Aware 1) =
     Inr (\<lparr>orders = [new_order ''paper-k'' paper_rq 1, new_order ''paper-l'' paper_rq2 1], positions = [], fills = []\<rparr>,
       new_order ''paper-l'' paper_rq2 1)"
    by (simp add: begin_order_def client_order_id_for_def paper_rq_def paper_rq2_def paper_demo_texts fetch_order_def
        new_order_def)
  have 3: "paper_mark_submitted \<lparr>orders = [new_order ''paper-k'' paper_rq 1, new_order ''paper-l'' paper_rq2 1],
       positions = [], fills = []\<rparr> ''paper-k'' (Aware 2) =
     Inr (paper_demo_db, (new_order ''paper-k'' paper_rq 1)\<lparr>po_state := SUBMITTED, po_attempts := 1, po_updated := 2\<rparr>)"
    by (simp add: paper_mark_submitted_def fetch_order_def update_order_def new_order_def Let_def paper_demo_db_def)
  show ?thesis by (simp add: paper_demo_def paper_begun stored_def 2 3)
qed

lemma paper_demo_fill:
  "\<exists>db. apply_fill_result (paper_run id paper_demo) ''paper-k'' paper_fl =
     Inr (db, filled_order ((new_order ''paper-k'' paper_rq 1)\<lparr>po_state := SUBMITTED, po_attempts := 1, po_updated := 2\<rparr>) 2 11 paper_fl 3)"
  by (simp add: paper_demo_run apply_fill_result_def record_fill_def paper_fl_def paper_demo_texts fetch_fill_def
      fetch_order_def paper_demo_db_def new_order_def Let_def paper_rq_def)

definition paper_all :: "paper_op list" where
  "paper_all = paper_demo @ [ApplyFill ''paper-k'' paper_fl]"

lemma paper_demo_filled:
  "fetch_order (paper_run id paper_all) ''paper-k'' =
     Some (filled_order ((new_order ''paper-k'' paper_rq 1)\<lparr>po_state := SUBMITTED, po_attempts := 1, po_updated := 2\<rparr>) 2 11 paper_fl 3)"
  "orders (paper_run id paper_all) =
     [filled_order ((new_order ''paper-k'' paper_rq 1)\<lparr>po_state := SUBMITTED, po_attempts := 1, po_updated := 2\<rparr>) 2 11 paper_fl 3,
      new_order ''paper-l'' paper_rq2 1]"
  by (simp_all add: paper_all_def paper_demo_run apply_fill_result_def record_fill_def paper_fl_def paper_demo_texts
      fetch_fill_def fetch_order_def paper_demo_db_def new_order_def Let_def paper_rq_def paper_rq2_def stored_def
      apply_fill_to_position_def update_order_def filled_order_core)

lemma paper_demo_state:
  "po_state (filled_order ((new_order ''paper-k'' paper_rq 1)\<lparr>po_state := SUBMITTED, po_attempts := 1, po_updated := 2\<rparr>) 2 11 paper_fl 3) = FILLED"
  "po_group (filled_order ((new_order ''paper-k'' paper_rq 1)\<lparr>po_state := SUBMITTED, po_attempts := 1, po_updated := 2\<rparr>) 2 11 paper_fl 3) = Some ''g''"
  "po_filled (filled_order ((new_order ''paper-k'' paper_rq 1)\<lparr>po_state := SUBMITTED, po_attempts := 1, po_updated := 2\<rparr>) 2 11 paper_fl 3) = 2"
  by (simp_all add: filled_order_def new_order_def Let_def paper_rq_def)

lemma paper_order_totals_witness:
  "\<exists>r. totals_ok (order_fills (paper_run id paper_all) ''paper-k'') r \<and> po_filled r = 2"
  using paper_order_totals [OF paper_demo_filled(1)] paper_demo_state(3) by blast



lemma paper_fill_applied_once_witness:
  "\<exists>db r. apply_fill_result db ''paper-k'' paper_fl = Inr (db, r) \<and> po_id r = ''paper-k''"
proof -
  obtain db r where "apply_fill_result (paper_run id paper_demo) ''paper-k'' paper_fl = Inr (db, r)"
    using paper_demo_fill by blast
  moreover have "\<not> fl_rejected paper_fl" by (simp add: paper_fl_def)
  ultimately show ?thesis using paper_fill_applied_once [of id paper_demo "''paper-k''" paper_fl db r "[]"] by auto
qed

lemma paper_begin_idempotent_witness:
  "\<exists>db r. begin_order id db paper_rq (Aware 9) = Inr (db, r) \<and> po_id r = ''paper-k''"
proof -
  have "po_id (new_order ''paper-k'' paper_rq 1) = ''paper-k''" by (simp add: new_order_def)
  with paper_begin_idempotent [of id "[]", unfolded foldl_Nil, OF paper_begun, of "[MarkSubmitted ''paper-k'' (Aware 2)]" 9]
  show ?thesis by auto
qed

lemma paper_terminal_frozen_witness:
  "\<exists>r. fetch_order (paper_run id (paper_all @ [MarkCanceled ''paper-k'' (Aware 5)])) ''paper-k'' = Some r \<and> po_state r = FILLED"
  using paper_terminal_frozen [OF paper_demo_filled(1), of "[MarkCanceled ''paper-k'' (Aware 5)]"] paper_demo_state(1) by blast

lemma paper_leg_group_exposure_witness:
  "leg_group_status (paper_run id paper_all) ''g'' = Inr ORPHANED"
proof -
  let ?a = "filled_order ((new_order ''paper-k'' paper_rq 1)\<lparr>po_state := SUBMITTED, po_attempts := 1, po_updated := 2\<rparr>) 2 11 paper_fl 3"
  let ?b = "new_order ''paper-l'' paper_rq2 1"
  have b: "po_group ?b = Some ''g''" "po_filled ?b = 0" by (simp_all add: new_order_def paper_rq2_def paper_rq_def)
  have st: "\<exists>st. leg_group_status (paper_run id paper_all) ''g'' = Inr st"
    by (simp add: leg_group_status_def Let_def paper_demo_filled(2) paper_demo_state(2))
  then obtain st where st: "leg_group_status (paper_run id paper_all) ''g'' = Inr st" by blast
  have "st = ORPHANED"
  proof (rule paper_leg_group_exposure [OF st, THEN conjunct1, rule_format], intro conjI)
    show "\<exists>r \<in> {r \<in> set (orders (paper_run id paper_all)). po_group r = Some ''g''}. 0 < po_filled r"
      by (rule bexI [of _ ?a]) (simp_all add: paper_demo_filled(2) paper_demo_state)
    show "\<exists>r \<in> {r \<in> set (orders (paper_run id paper_all)). po_group r = Some ''g''}. po_filled r = 0"
      by (rule bexI [of _ ?b]) (simp_all add: paper_demo_filled(2) b)
  qed
  with st show ?thesis by simp
qed

end
