(* ===== verification/Demo_Reconciler.thy ===== *)
theory Demo_Reconciler
  imports Paper_Guarantees
begin

text \<open>
  Model of \<open>src/execution/demo_order_reconciler.py\<close> with the value objects of
  \<open>bybit_demo_gateway.py\<close> it reads: the executions and the order the exchange reports are
  brought into the durable store. The two gateway queries and SHA-256 are parameters; numbers
  are exact, so \<open>float\<close> of a decimal is its value.
\<close>

section \<open>What the exchange reports\<close>

datatype demo_order_status =
  STATUS_NEW | STATUS_PARTIALLY_FILLED | STATUS_FILLED | STATUS_CANCELLED | STATUS_REJECTED | STATUS_DEACTIVATED

fun status_text :: "demo_order_status \<Rightarrow> string" where
  "status_text STATUS_NEW = ''New''"
| "status_text STATUS_PARTIALLY_FILLED = ''PartiallyFilled''"
| "status_text STATUS_FILLED = ''Filled''"
| "status_text STATUS_CANCELLED = ''Cancelled''"
| "status_text STATUS_REJECTED = ''Rejected''"
| "status_text STATUS_DEACTIVATED = ''Deactivated''"

text \<open>\<open>^[A-Za-z0-9_-]{1,36}$\<close> as a full match.\<close>

definition order_link_ok :: "string \<Rightarrow> bool" where
  "order_link_ok s \<longleftrightarrow>
     1 \<le> length s \<and> length s \<le> 36 \<and>
     list_all (\<lambda>c. let n = (of_char c :: nat) in
       65 \<le> n \<and> n \<le> 90 \<or> 97 \<le> n \<and> n \<le> 122 \<or> 48 \<le> n \<and> n \<le> 57 \<or> n = 95 \<or> n = 45) s"

record demo_execution =
  dx_id :: string
  dx_link :: string
  dx_quantity :: rat
  dx_price :: rat
  dx_fee :: rat
  dx_at :: pydatetime

definition make_demo_execution :: "demo_execution \<Rightarrow> demo_execution result" where
  "make_demo_execution x =
     (if blank (dx_id x) \<or> \<not> order_link_ok (dx_link x) \<or> dx_quantity x \<le> 0 \<or> dx_price x \<le> 0 \<or> dx_fee x < 0 \<or>
         (case dx_at x of Naive _ \<Rightarrow> True | Aware _ \<Rightarrow> False)
      then Inl (Raised BybitDemoGatewayError ''invalid Demo execution'') else Inr x)"

record demo_order_snapshot =
  dn_id :: string
  dn_link :: string
  dn_symbol :: string
  dn_status :: demo_order_status
  dn_cumulative :: rat
  dn_updated :: pydatetime
  dn_reason :: "string option"

definition make_demo_order_snapshot :: "demo_order_snapshot \<Rightarrow> demo_order_snapshot result" where
  "make_demo_order_snapshot x =
     (if blank (dn_id x) \<or> \<not> order_link_ok (dn_link x) \<or> blank (dn_symbol x) \<or> dn_cumulative x < 0 \<or>
         (case dn_updated x of Naive _ \<Rightarrow> True | Aware _ \<Rightarrow> False)
      then Inl (Raised BybitDemoGatewayError ''invalid Demo order snapshot'') else Inr x)"

section \<open>Reconciliation\<close>

definition demo_order_link_id_for :: "(string \<Rightarrow> string) \<Rightarrow> string \<Rightarrow> string result" where
  "demo_order_link_id_for sha256_hex i =
     (if blank i then Inl (ValueError ''paper client order id must be non-empty'')
      else Inr (''gfd-'' @ take 32 (sha256_hex i)))"

definition fill_from_execution :: "paper_order \<Rightarrow> demo_execution \<Rightarrow> fill" where
  "fill_from_execution r x =
     (let adverse = (if po_side r = BUY_INTENT then max 0 (dx_price x - po_reference r)
                     else max 0 (po_reference r - dx_price x))
      in \<lparr>fl_price = Fin (dx_price x), fl_quantity = Fin (dx_quantity x), fl_at = dx_at x, fl_rejected = False,
          fl_reason = [], fl_spread = 0, fl_slippage = adverse * dx_quantity x, fl_fee = dx_fee x,
          fl_funding = 0, fl_id = dx_id x\<rparr>)"

text \<open>The instant an execution is sorted by; the executions are aware.\<close>

fun instant :: "pydatetime \<Rightarrow> int" where
  "instant (Naive t) = t"
| "instant (Aware t) = t"

text \<open>The loop over the executions: every fill is a transaction of its own.\<close>

fun apply_executions :: "paper_db \<Rightarrow> string \<Rightarrow> paper_order \<Rightarrow> demo_execution list \<Rightarrow> paper_db \<times> unit result" where
  "apply_executions db i r [] = (db, Inr ())"
| "apply_executions db i r (x # xs) =
     (case apply_fill_result db i (fill_from_execution r x) of
        Inl e \<Rightarrow> (db, Inl e)
      | Inr (db', _) \<Rightarrow> apply_executions db' i r xs)"

definition rejection_fill :: "demo_order_snapshot \<Rightarrow> fill" where
  "rejection_fill s =
     \<lparr>fl_price = Fin 0, fl_quantity = Fin 0, fl_at = dn_updated s, fl_rejected = True,
      fl_reason = (case dn_reason s of None \<Rightarrow> status_text (dn_status s)
                   | Some w \<Rightarrow> if w = [] then status_text (dn_status s) else w),
      fl_spread = 0, fl_slippage = 0, fl_fee = 0, fl_funding = 0, fl_id = []\<rparr>"

definition require_matching_cumulative_quantity :: "paper_order \<Rightarrow> demo_order_snapshot \<Rightarrow> unit result" where
  "require_matching_cumulative_quantity r s =
     (if 1 / 10 ^ 9 < \<bar>po_filled r - dn_cumulative s\<bar>
      then Inl (Raised DemoExecutionLagError
             ''Bybit Demo cumulative fill quantity does not match durable executions'')
      else Inr ())"

text \<open>What the reported status does to the store.\<close>

definition settle_status :: "paper_db \<Rightarrow> string \<Rightarrow> paper_order \<Rightarrow> demo_order_snapshot \<Rightarrow> (paper_db \<times> paper_order) result" where
  "settle_status db i r s =
     (case dn_status s of
        STATUS_FILLED \<Rightarrow>
          if po_state r \<noteq> FILLED
          then Inl (Raised PaperReconciliationError ''Bybit Demo reports FILLED but durable executions are incomplete'')
          else Inr (db, r)
      | STATUS_CANCELLED \<Rightarrow> paper_mark_canceled db i (dn_updated s)
      | STATUS_NEW \<Rightarrow> Inr (db, r)
      | STATUS_PARTIALLY_FILLED \<Rightarrow> Inr (db, r)
      | _ \<Rightarrow>
          if 0 < po_filled r then paper_mark_canceled db i (dn_updated s)
          else if po_state r \<noteq> REJECTED then apply_fill_result db i (rejection_fill s)
          else Inr (db, r))"

definition demo_reconcile :: "(string \<Rightarrow> string) \<Rightarrow> (string \<Rightarrow> string \<Rightarrow> demo_execution list result)
    \<Rightarrow> (string \<Rightarrow> string \<Rightarrow> demo_order_snapshot option result) \<Rightarrow> paper_db \<Rightarrow> string
    \<Rightarrow> paper_db \<times> (paper_order \<times> demo_order_snapshot option \<times> nat) result" where
  "demo_reconcile sha256_hex fetch_executions fetch_exchange_order db i =
     (case fetch_order db i of
        None \<Rightarrow> (db, Inl (Raised PaperReconciliationError ''unknown paper order''))
      | Some r \<Rightarrow>
          (case bindE (demo_order_link_id_for sha256_hex i) (\<lambda>link.
                bindE (fetch_executions link (po_symbol r)) (\<lambda>xs. Inr (link, xs))) of
             Inl e \<Rightarrow> (db, Inl e)
           | Inr (link, xs) \<Rightarrow>
               (case apply_executions db i r (sort_key (\<lambda>x. (instant (dx_at x), dx_id x)) xs) of
                  (db1, Inl e) \<Rightarrow> (db1, Inl e)
                | (db1, Inr _) \<Rightarrow>
                    (case fetch_order db1 i of
                       None \<Rightarrow> (db1, Inl (OtherError ''AssertionError''))
                     | Some r1 \<Rightarrow>
                         (case fetch_exchange_order link (po_symbol r1) of
                            Inl e \<Rightarrow> (db1, Inl e)
                          | Inr None \<Rightarrow> (db1, Inr (r1, None, length xs))
                          | Inr (Some s) \<Rightarrow>
                              (case bindE (require_matching_cumulative_quantity r1 s) (\<lambda>_. settle_status db1 i r1 s) of
                                 Inl e \<Rightarrow> (db1, Inl e)
                               | Inr (db2, r2) \<Rightarrow> (db2, Inr (r2, Some s, length xs))))))))"

section \<open>Every reconciliation is a run of the store\<close>

lemma apply_fill_is_step: "apply_fill_result db i f = Inr (db', r) \<Longrightarrow> db' = paper_step uid db (ApplyFill i f)"
  by (simp add: stored_def)

lemma apply_executions_run:
  "apply_executions db i r xs = (db', e) \<Longrightarrow> \<exists>ys. db' = foldl (paper_step uid) db ys"
proof (induction xs arbitrary: db)
  case Nil
  then show ?case by (intro exI [of _ "[]"]) simp
next
  case (Cons x xs)
  show ?case
  proof (cases "apply_fill_result db i (fill_from_execution r x)")
    case (Inl e')
    with Cons.prems show ?thesis by (intro exI [of _ "[]"]) simp
  next
    case (Inr a)
    then obtain db1 r1 where a: "apply_fill_result db i (fill_from_execution r x) = Inr (db1, r1)" by (cases a) simp
    with Cons.prems obtain ys where "db' = foldl (paper_step uid) db1 ys" using Cons.IH by auto
    then show ?thesis using apply_fill_is_step [OF a, of uid]
      by (intro exI [of _ "ApplyFill i (fill_from_execution r x) # ys"]) simp
  qed
qed

lemma settle_status_run:
  assumes "settle_status db i r s = Inr (db', r')"
  shows "\<exists>ys. db' = foldl (paper_step uid) db ys"
proof -
  have "db' = db \<or> db' = paper_step uid db (MarkCanceled i (dn_updated s)) \<or>
      db' = paper_step uid db (ApplyFill i (rejection_fill s))"
    using assms by (auto simp: settle_status_def stored_def split: demo_order_status.splits if_splits)
  then show ?thesis
    by (elim disjE) (intro exI [of _ "[]"], simp, metis foldl_Cons foldl_Nil, metis foldl_Cons foldl_Nil)
qed

lemma settled_run:
  assumes "case os of None \<Rightarrow> db = db1 \<and> r = r1
     | Some s \<Rightarrow> require_matching_cumulative_quantity r1 s = Inr () \<and> settle_status db1 i r1 s = Inr (db, r)"
  shows "\<exists>zs. db = foldl (paper_step uid) db1 zs"
proof (cases os)
  case None
  with assms show ?thesis by (intro exI [of _ "[]"]) simp
next
  case (Some s)
  with assms show ?thesis using settle_status_run [of db1 i r1 s db r] by simp
qed

section \<open>Reconciling again changes nothing\<close>

lemma fill_from_execution_cong:
  "po_side r' = po_side r \<Longrightarrow> po_reference r' = po_reference r \<Longrightarrow> fill_from_execution r' x = fill_from_execution r x"
  by (simp add: fill_from_execution_def)

lemma not_rejected_execution [simp]: "\<not> fl_rejected (fill_from_execution r x)"
  by (simp add: fill_from_execution_def Let_def)

lemma apply_execution_record: "apply_fill_result db i (fill_from_execution r x) = record_fill db i (fill_from_execution r x)"
  by (simp add: apply_fill_result_def)

lemma apply_executions_replayable:
  "paper_ok db \<Longrightarrow> apply_executions db i r xs = (db', Inr ()) \<Longrightarrow>
   paper_ok db' \<and> (\<forall>x \<in> set xs. replayable db' i (fill_from_execution r x))"
proof (induction xs arbitrary: db)
  case (Cons x xs)
  then obtain db1 r1 where a: "apply_fill_result db i (fill_from_execution r x) = Inr (db1, r1)"
      "apply_executions db1 i r xs = (db', Inr ())"
    by (auto split: sum.splits)
  have ok1: "paper_ok db1" using apply_fill_ok [OF Cons.prems(1) a(1)] .
  have "replayable db1 i (fill_from_execution r x)"
    using a(1) by (auto simp: apply_execution_record dest: record_fill_replayable)
  moreover obtain ys where "db' = foldl (paper_step id) db1 ys"
    using apply_executions_run [OF a(2)] by blast
  ultimately have "replayable db' i (fill_from_execution r x)" using replayable_run [OF ok1] by simp
  with Cons.IH [OF ok1 a(2)] show ?case by simp
qed simp

lemma apply_executions_noop:
  "\<forall>x \<in> set xs. replayable db i (fill_from_execution r x) \<Longrightarrow> apply_executions db i r xs = (db, Inr ())"
proof (induction xs)
  case (Cons x xs)
  from Cons.prems have "replayable db i (fill_from_execution r x)" by simp
  from replayable_noop [OF this] obtain r1 where "apply_fill_result db i (fill_from_execution r x) = Inr (db, r1)"
    by (auto simp: apply_execution_record)
  with Cons show ?case by simp
qed simp

lemma mark_canceled_again:
  assumes "paper_mark_canceled db i t = Inr (db', r')"
  shows "fetch_order db' i = Some r' \<and> po_state r' = CANCELED \<and> paper_mark_canceled db' i t = Inr (db', r') \<and>
    (\<forall>r. fetch_order db i = Some r \<longrightarrow> po_filled r' = po_filled r)"
proof -
  obtain now r where t: "t = Aware now" and r: "fetch_order db i = Some r"
    using assms by (cases t; cases "fetch_order db i") (auto simp: paper_mark_canceled_def)
  have "fetch_order db' i = Some r' \<and> po_state r' = CANCELED \<and> po_filled r' = po_filled r"
  proof (cases "po_state r = CANCELED")
    case True
    with assms t r show ?thesis by (auto simp: paper_mark_canceled_def)
  next
    case False
    with assms t r have "db' = update_order i (\<lambda>r. r\<lparr>po_state := CANCELED, po_updated := now\<rparr>) db"
      "r' = r\<lparr>po_state := CANCELED, po_updated := now\<rparr>"
      by (auto simp: paper_mark_canceled_def Let_def split: if_splits)
    with r show ?thesis by (simp add: fetch_order_update)
  qed
  then show ?thesis using t r by (auto simp: paper_mark_canceled_def)
qed

lemma rejection_again:
  assumes "apply_fill_result db i (rejection_fill s) = Inr (db', r')"
  shows "fetch_order db' i = Some r' \<and> po_state r' = REJECTED \<and>
    (\<forall>r. fetch_order db i = Some r \<longrightarrow> po_filled r' = po_filled r)"
proof -
  obtain w where "record_rejection db i w (dn_updated s) = Inr (db', r')"
    using assms by (auto simp: apply_fill_result_def rejection_fill_def)
  then show ?thesis
    by (cases "fetch_order db i")
      (auto simp: record_rejection_def bindE_eq_Inr Let_def fetch_order_update split: if_splits)
qed

lemma settle_status_again:
  assumes r: "fetch_order db i = Some r" and s: "settle_status db i r s = Inr (db', r')"
  shows "fetch_order db' i = Some r' \<and> po_filled r' = po_filled r \<and> settle_status db' i r' s = Inr (db', r')"
proof (cases "dn_status s = STATUS_CANCELLED \<or> dn_status s \<in> {STATUS_REJECTED, STATUS_DEACTIVATED} \<and> 0 < po_filled r")
  case True
  with s have m: "paper_mark_canceled db i (dn_updated s) = Inr (db', r')" by (auto simp: settle_status_def)
  from mark_canceled_again [OF m] r True show ?thesis by (auto simp: settle_status_def)
next
  case no_cancel: False
  show ?thesis
  proof (cases "dn_status s \<in> {STATUS_REJECTED, STATUS_DEACTIVATED} \<and> po_state r \<noteq> REJECTED")
    case True
    with s no_cancel have m: "apply_fill_result db i (rejection_fill s) = Inr (db', r')" by (auto simp: settle_status_def)
    from rejection_again [OF m] r True no_cancel show ?thesis by (auto simp: settle_status_def)
  next
    case False
    with s no_cancel have "db' = db \<and> r' = r"
      by (auto simp: settle_status_def split: demo_order_status.splits if_splits)
    then show ?thesis using r s by simp
  qed
qed

lemma settle_status_terminal:
  assumes r: "fetch_order db i = Some r" and s: "settle_status db i r s = Inr (db', r')"
  shows "(dn_status s = STATUS_FILLED \<longrightarrow> po_state r' = FILLED) \<and>
    (dn_status s = STATUS_CANCELLED \<longrightarrow> po_state r' = CANCELED) \<and>
    (dn_status s \<in> {STATUS_REJECTED, STATUS_DEACTIVATED} \<longrightarrow>
       po_state r' = (if 0 < po_filled r' then CANCELED else REJECTED))"
proof (intro conjI impI)
  assume "dn_status s = STATUS_FILLED"
  with s show "po_state r' = FILLED" by (auto simp: settle_status_def split: if_splits)
next
  assume "dn_status s = STATUS_CANCELLED"
  with s have "paper_mark_canceled db i (dn_updated s) = Inr (db', r')" by (simp add: settle_status_def)
  from mark_canceled_again [OF this] show "po_state r' = CANCELED" by blast
next
  assume st: "dn_status s \<in> {STATUS_REJECTED, STATUS_DEACTIVATED}"
  have keep: "po_filled r' = po_filled r" using settle_status_again [OF r s] by blast
  show "po_state r' = (if 0 < po_filled r' then CANCELED else REJECTED)"
  proof (cases "0 < po_filled r")
    case True
    with s st have "paper_mark_canceled db i (dn_updated s) = Inr (db', r')" by (auto simp: settle_status_def)
    from mark_canceled_again [OF this] keep True show ?thesis by simp
  next
    case False
    with s st have "po_state r \<noteq> REJECTED \<and> apply_fill_result db i (rejection_fill s) = Inr (db', r') \<or>
        po_state r = REJECTED \<and> r' = r"
      by (auto simp: settle_status_def split: if_splits)
    with rejection_again [of db i s db' r'] keep False show ?thesis by auto
  qed
qed

lemma require_matching_cong:
  "po_filled r' = po_filled r \<Longrightarrow> require_matching_cumulative_quantity r' s = require_matching_cumulative_quantity r s"
  by (simp add: require_matching_cumulative_quantity_def)

lemma demo_reconcile_cases:
  assumes "demo_reconcile sha ex eo db i = (db2, Inr (r2, os, n))"
  obtains r link xs db1 r1 where "fetch_order db i = Some r" "demo_order_link_id_for sha i = Inr link"
    "ex link (po_symbol r) = Inr xs" "n = length xs"
    "apply_executions db i r (sort_key (\<lambda>x. (instant (dx_at x), dx_id x)) xs) = (db1, Inr ())"
    "fetch_order db1 i = Some r1" "eo link (po_symbol r1) = Inr os"
    "case os of None \<Rightarrow> db2 = db1 \<and> r2 = r1
     | Some s \<Rightarrow> require_matching_cumulative_quantity r1 s = Inr () \<and> settle_status db1 i r1 s = Inr (db2, r2)"
  using assms unfolding demo_reconcile_def
  by (auto simp: bindE_eq_Inr bindE_eq_Inl split: option.splits sum.splits prod.splits)

section \<open>Properties\<close>

text \<open>
  C18. Reconciliation is idempotent: once it has succeeded, running it again on the same exchange
  reports returns the same order and count and leaves the store exactly as it is.
\<close>

theorem demo_reconcile_idempotent:
  assumes "demo_reconcile sha ex eo (paper_run uid ops) i = (db, Inr (r, os, n))"
  shows "demo_reconcile sha ex eo db i = (db, Inr (r, os, n))"
  using assms
proof (rule demo_reconcile_cases)
  fix r0 link db1 r1 and xs :: "demo_execution list"
  let ?xs = "sort_key (\<lambda>x. (instant (dx_at x), dx_id x)) xs"
  assume a: "fetch_order (paper_run uid ops) i = Some r0" "demo_order_link_id_for sha i = Inr link"
    "ex link (po_symbol r0) = Inr xs" "n = length xs"
    "apply_executions (paper_run uid ops) i r0 ?xs = (db1, Inr ())"
    "fetch_order db1 i = Some r1" "eo link (po_symbol r1) = Inr os"
    "case os of None \<Rightarrow> db = db1 \<and> r = r1
     | Some s \<Rightarrow> require_matching_cumulative_quantity r1 s = Inr () \<and> settle_status db1 i r1 s = Inr (db, r)"
  have rep: "paper_ok db1" "\<forall>x \<in> set ?xs. replayable db1 i (fill_from_execution r0 x)"
    using apply_executions_replayable [OF paper_run_ok a(5)] by blast+
  have fin: "fetch_order db i = Some r" "po_filled r = po_filled r1"
      "case os of None \<Rightarrow> True | Some s \<Rightarrow> settle_status db i r s = Inr (db, r)"
    using a(6,8) settle_status_again [OF a(6)] by (auto split: option.splits)
  obtain ys where run1: "db1 = foldl (paper_step uid) (paper_run uid ops) ys" using apply_executions_run [OF a(5)] by blast
  obtain zs where run2: "db = foldl (paper_step uid) db1 zs" using settled_run [OF a(8)] by blast
  let ?same = "\<lambda>x. po_symbol x = po_symbol r0 \<and> po_side x = po_side r0 \<and> po_reference x = po_reference r0"
  have "\<exists>x. fetch_order db1 i = Some x \<and> ?same x" unfolding run1
    by (rule run_order_invariant [OF paper_run_ok a(1)]) (auto simp: order_move_def)
  then have r1: "?same r1" using a(6) by simp
  have "\<exists>x. fetch_order db i = Some x \<and> ?same x" unfolding run2
    by (rule run_order_invariant [OF rep(1) a(6)]) (use r1 in \<open>auto simp: order_move_def\<close>)
  then have r: "?same r" using fin(1) by simp
  have "\<forall>x \<in> set ?xs. replayable db i (fill_from_execution r x)"
    using rep(2) replayable_run [OF rep(1)] r run2 fill_from_execution_cong [of r r0] by metis
  then have "apply_executions db i r ?xs = (db, Inr ())" by (rule apply_executions_noop)
  then show ?thesis
    using a(2-4,7,8) fin r r1 require_matching_cong [OF fin(2)]
    by (cases os) (simp_all add: demo_reconcile_def)
qed

text \<open>
  C21. A successful reconciliation has recorded every execution the exchange reported, agrees with the
  reported cumulative quantity up to 1e-9, and maps a reported terminal status to the same terminal
  state of the order.
\<close>

theorem demo_reconcile_agrees:
  assumes "demo_reconcile sha ex eo (paper_run uid ops) i = (db, Inr (r, Some s, n))"
  shows "\<bar>po_filled r - dn_cumulative s\<bar> \<le> 1 / 10 ^ 9 \<and>
    (dn_status s = STATUS_FILLED \<longrightarrow> po_state r = FILLED) \<and>
    (dn_status s = STATUS_CANCELLED \<longrightarrow> po_state r = CANCELED) \<and>
    (dn_status s \<in> {STATUS_REJECTED, STATUS_DEACTIVATED} \<longrightarrow>
       po_state r = (if 0 < po_filled r then CANCELED else REJECTED)) \<and>
    (\<exists>link xs. ex link (po_symbol r) = Inr xs \<and> length xs = n \<and>
       (\<forall>x \<in> set xs. \<exists>row. fetch_fill db (dx_id x) = Some row \<and> pf_order row = i))"
  using assms
proof (rule demo_reconcile_cases)
  fix r0 link db1 r1 and xs :: "demo_execution list"
  let ?xs = "sort_key (\<lambda>x. (instant (dx_at x), dx_id x)) xs"
  assume a: "fetch_order (paper_run uid ops) i = Some r0"
    "ex link (po_symbol r0) = Inr xs" "n = length xs"
    "apply_executions (paper_run uid ops) i r0 ?xs = (db1, Inr ())"
    "fetch_order db1 i = Some r1"
    "case Some s of None \<Rightarrow> db = db1 \<and> r = r1
     | Some s \<Rightarrow> require_matching_cumulative_quantity r1 s = Inr () \<and> settle_status db1 i r1 s = Inr (db, r)"
  have rep: "paper_ok db1" "\<forall>x \<in> set ?xs. replayable db1 i (fill_from_execution r0 x)"
    using apply_executions_replayable [OF paper_run_ok a(4)] by blast+
  have st: "settle_status db1 i r1 s = Inr (db, r)" "\<bar>po_filled r1 - dn_cumulative s\<bar> \<le> 1 / 10 ^ 9"
    using a(6) by (simp_all add: require_matching_cumulative_quantity_def split: if_splits)
  note again = settle_status_again [OF a(5) st(1)]
  have status: "(dn_status s = STATUS_FILLED \<longrightarrow> po_state r = FILLED) \<and>
    (dn_status s = STATUS_CANCELLED \<longrightarrow> po_state r = CANCELED) \<and>
    (dn_status s \<in> {STATUS_REJECTED, STATUS_DEACTIVATED} \<longrightarrow>
       po_state r = (if 0 < po_filled r then CANCELED else REJECTED))"
    using settle_status_terminal [OF a(5) st(1)] .
  obtain ys where run1: "db1 = foldl (paper_step uid) (paper_run uid ops) ys"
    using apply_executions_run [OF a(4)] by blast
  obtain zs where run2: "db = foldl (paper_step uid) db1 zs" using settle_status_run [OF st(1)] by blast
  have eq: "db = foldl (paper_step uid) (paper_run uid ops) (ys @ zs)" unfolding foldl_append run1 [symmetric] by (rule run2)
  have "\<exists>x. fetch_order db i = Some x \<and> po_symbol x = po_symbol r0" unfolding eq
    by (rule run_order_invariant [OF paper_run_ok a(1)]) (auto simp: order_move_def)
  then have sym: "po_symbol r = po_symbol r0" using again by simp
  have rows: "\<exists>row. fetch_fill db (dx_id x) = Some row \<and> pf_order row = i" if "x \<in> set xs" for x
  proof -
    have "replayable db1 i (fill_from_execution r0 x)" using rep(2) that by simp
    then obtain row where "fetch_fill db1 (dx_id x) = Some row" "pf_order row = i"
      by (auto simp: replayable_def fill_conflicts_def fill_from_execution_def Let_def)
    then show ?thesis using run_fill_kept [OF rep(1)] run2 by blast
  qed
  have "ex link (po_symbol r) = Inr xs" "length xs = n" using a(2,3) sym by simp_all
  moreover have "\<bar>po_filled r - dn_cumulative s\<bar> \<le> 1 / 10 ^ 9" using st(2) again by simp
  ultimately show ?thesis using status rows by blast
qed

section \<open>Witnesses\<close>

definition demo_x :: demo_execution where
  "demo_x = \<lparr>dx_id = ''x'', dx_link = ''gfd-'', dx_quantity = 2, dx_price = 11, dx_fee = 1, dx_at = Aware 3\<rparr>"

definition demo_s :: demo_order_snapshot where
  "demo_s = \<lparr>dn_id = ''o'', dn_link = ''gfd-'', dn_symbol = ''S'', dn_status = STATUS_FILLED, dn_cumulative = 2,
     dn_updated = Aware 4, dn_reason = None\<rparr>"

lemma demo_reconcile_run:
  "\<exists>db r. demo_reconcile (\<lambda>_. []) (\<lambda>_ _. Inr [demo_x]) (\<lambda>_ _. Inr (Some demo_s)) (paper_run id paper_demo) ''paper-k'' =
     (db, Inr (r, Some demo_s, 1)) \<and> po_state r = FILLED"
proof -
  let ?r = "(new_order ''paper-k'' paper_rq 1)\<lparr>po_state := SUBMITTED, po_attempts := 1, po_updated := 2\<rparr>"
  have fl: "fill_from_execution ?r demo_x = paper_fl"
    by (simp add: fill_from_execution_def demo_x_def new_order_def paper_rq_def paper_fl_def)
  obtain db where db: "apply_fill_result (paper_run id paper_demo) ''paper-k'' paper_fl = Inr (db, filled_order ?r 2 11 paper_fl 3)"
    using paper_demo_fill by blast
  have "record_fill (paper_run id paper_demo) ''paper-k'' paper_fl = Inr (db, filled_order ?r 2 11 paper_fl 3)"
    using db by (simp add: apply_fill_result_def paper_fl_def)
  from record_fill_replayable(2) [OF this] have f1: "fetch_order db ''paper-k'' = Some (filled_order ?r 2 11 paper_fl 3)" .
  have f0: "fetch_order (paper_run id paper_demo) ''paper-k'' = Some ?r"
    by (simp add: paper_demo_run fetch_order_def paper_demo_db_def new_order_def)
  have link: "demo_order_link_id_for (\<lambda>_. []) ''paper-k'' = Inr ''gfd-''"
  proof -
    have "\<not> blank ''paper-k''" by code_simp
    then show ?thesis by (simp add: demo_order_link_id_for_def)
  qed
  have s: "require_matching_cumulative_quantity (filled_order ?r 2 11 paper_fl 3) demo_s = Inr ()"
      "settle_status db ''paper-k'' (filled_order ?r 2 11 paper_fl 3) demo_s = Inr (db, filled_order ?r 2 11 paper_fl 3)"
    by (simp_all add: require_matching_cumulative_quantity_def settle_status_def demo_s_def paper_demo_state)
  have "apply_executions (paper_run id paper_demo) ''paper-k'' ?r [demo_x] = (db, Inr ())"
    by (simp add: fl db)
  then show ?thesis using f0 f1 link s paper_demo_state(1)
    by (intro exI [of _ db] exI [of _ "filled_order ?r 2 11 paper_fl 3"]) (simp add: demo_reconcile_def)
qed

lemma demo_reconcile_idempotent_witness:
  "\<exists>db r. demo_reconcile (\<lambda>_. []) (\<lambda>_ _. Inr [demo_x]) (\<lambda>_ _. Inr (Some demo_s)) db ''paper-k'' = (db, Inr (r, Some demo_s, 1))"
proof -
  obtain db r where "demo_reconcile (\<lambda>_. []) (\<lambda>_ _. Inr [demo_x]) (\<lambda>_ _. Inr (Some demo_s)) (paper_run id paper_demo) ''paper-k'' =
     (db, Inr (r, Some demo_s, 1))" using demo_reconcile_run by blast
  from demo_reconcile_idempotent [OF this] show ?thesis by blast
qed

lemma demo_reconcile_agrees_witness:
  "\<exists>db r. demo_reconcile (\<lambda>_. []) (\<lambda>_ _. Inr [demo_x]) (\<lambda>_ _. Inr (Some demo_s)) (paper_run id paper_demo) ''paper-k'' =
     (db, Inr (r, Some demo_s, 1)) \<and> \<bar>po_filled r - 2\<bar> \<le> 1 / 10 ^ 9"
proof -
  obtain db r where r: "demo_reconcile (\<lambda>_. []) (\<lambda>_ _. Inr [demo_x]) (\<lambda>_ _. Inr (Some demo_s)) (paper_run id paper_demo) ''paper-k'' =
     (db, Inr (r, Some demo_s, 1))" using demo_reconcile_run by blast
  have "dn_cumulative demo_s = 2" by (simp add: demo_s_def)
  with demo_reconcile_agrees [OF r] r show ?thesis by auto
qed

end
