(* ===== verification/Session.thy ===== *)
theory Session
  imports Prelude
begin

text \<open>
  Model of the paper session layer: \<open>src/execution/mode.py\<close> (the LIVE gate),
  \<open>heartbeat.py\<close>, \<open>session_state.py\<close> and \<open>supervisor.py\<close> (the bounded restart loop). The
  supervised callable, the clock and the checkpoint file's content are inputs: the outcome of the
  k-th attempt is \<open>outcome k\<close>, the time of its checkpoint \<open>clock k\<close>. ISO texts are the
  instants they denote; backoff times are exact.
\<close>

section \<open>Trading mode\<close>

datatype trading_mode = RESEARCH | BACKTEST | SHADOW | PAPER | LIVE

fun mode_value :: "trading_mode \<Rightarrow> string" where
  "mode_value RESEARCH = ''RESEARCH''"
| "mode_value BACKTEST = ''BACKTEST''"
| "mode_value SHADOW = ''SHADOW''"
| "mode_value PAPER = ''PAPER''"
| "mode_value LIVE = ''LIVE''"

definition trading_modes :: "trading_mode list" where
  "trading_modes = [RESEARCH, BACKTEST, SHADOW, PAPER, LIVE]"

definition resolve_trading_mode :: "string \<Rightarrow> (string, string) dict \<Rightarrow> trading_mode result" where
  "resolve_trading_mode raw_mode env =
     (case find (\<lambda>m. mode_value m = py_upper (py_strip raw_mode)) trading_modes of
        None \<Rightarrow> Inl (ValueError ''unknown TRADING_MODE'')
      | Some m \<Rightarrow>
          if m = LIVE \<and> map_of env ''CONFIRM_LIVE_TRADING'' \<noteq> Some ''I_UNDERSTAND_THE_RISK''
          then Inl (Raised LiveTradingBlockedError ''TRADING_MODE=LIVE requires explicit confirmation'')
          else Inr m)"

section \<open>Heartbeat\<close>

record heartbeat_monitor =
  hm_max_gap :: rat
  hm_last_seen :: "int option"

definition heartbeat_record :: "heartbeat_monitor \<Rightarrow> int \<Rightarrow> heartbeat_monitor" where
  "heartbeat_record m now = m\<lparr>hm_last_seen := Some now\<rparr>"

definition seconds_since_last :: "heartbeat_monitor \<Rightarrow> int \<Rightarrow> rat option" where
  "seconds_since_last m now = map_option (\<lambda>t. of_int (now - t) / 1000000) (hm_last_seen m)"

definition is_stale :: "heartbeat_monitor \<Rightarrow> int \<Rightarrow> bool" where
  "is_stale m now = (case seconds_since_last m now of None \<Rightarrow> True | Some gap \<Rightarrow> hm_max_gap m < gap)"

section \<open>Session state\<close>

text \<open>The fill summary is data of its own, carried through: the type variable.\<close>

record 'f session_state =
  ss_session_id :: string
  ss_started :: int
  ss_checkpoint :: int
  ss_restarts :: int
  ss_error :: "string option"
  ss_summary :: "'f option"

definition new_session_state :: "string \<Rightarrow> int \<Rightarrow> 'f session_state" where
  "new_session_state i now =
     \<lparr>ss_session_id = i, ss_started = now, ss_checkpoint = now, ss_restarts = 0, ss_error = None, ss_summary = None\<rparr>"

definition checkpoint :: "'f session_state \<Rightarrow> 'f option \<Rightarrow> string option \<Rightarrow> int \<Rightarrow> 'f session_state" where
  "checkpoint s summary error now =
     \<lparr>ss_session_id = ss_session_id s, ss_started = ss_started s, ss_checkpoint = now, ss_restarts = ss_restarts s,
      ss_error = (if error \<noteq> None then error else ss_error s),
      ss_summary = (if summary \<noteq> None then summary else ss_summary s)\<rparr>"

definition bump_restart :: "'f session_state \<Rightarrow> string \<Rightarrow> int \<Rightarrow> 'f session_state" where
  "bump_restart s error now =
     \<lparr>ss_session_id = ss_session_id s, ss_started = ss_started s, ss_checkpoint = now,
      ss_restarts = ss_restarts s + 1, ss_error = Some error, ss_summary = ss_summary s\<rparr>"

section \<open>The supervisor\<close>

record supervisor_config =
  sc_max_restarts :: int
  sc_backoff :: rat
  sc_multiplier :: rat
  sc_max_backoff :: rat

definition default_supervisor_config :: supervisor_config where
  "default_supervisor_config = \<lparr>sc_max_restarts = 5, sc_backoff = 30, sc_multiplier = 2, sc_max_backoff = 900\<rparr>"

text \<open>What a supervised run leaves: the checkpoint file, the sleeps, the attempts and the result.\<close>

record 'f supervised =
  sv_saved :: "'f session_state"
  sv_sleeps :: "rat list"
  sv_attempts :: nat
  sv_result :: "'f session_state result"

definition exhausted :: exn where
  "exhausted = Raised RestartsExhaustedError ''session failed too often''"

function supervise :: "supervisor_config \<Rightarrow> (nat \<Rightarrow> string + 'f option) \<Rightarrow> (nat \<Rightarrow> int) \<Rightarrow> nat \<Rightarrow> rat
    \<Rightarrow> 'f session_state \<Rightarrow> 'f supervised" where
  "supervise c outcome clock k backoff s =
     (if sc_max_restarts c < ss_restarts s
      then \<lparr>sv_saved = s, sv_sleeps = [], sv_attempts = k, sv_result = Inl exhausted\<rparr>
      else
        (case outcome k of
           Inr summary \<Rightarrow>
             (let s' = checkpoint s summary None (clock k)
              in \<lparr>sv_saved = s', sv_sleeps = [], sv_attempts = Suc k, sv_result = Inr s'\<rparr>)
         | Inl error \<Rightarrow>
             (let s' = bump_restart s error (clock k)
              in if sc_max_restarts c < ss_restarts s'
                 then \<lparr>sv_saved = s', sv_sleeps = [], sv_attempts = Suc k, sv_result = Inl exhausted\<rparr>
                 else
                   (let rest = supervise c outcome clock (Suc k)
                                 (min (backoff * sc_multiplier c) (sc_max_backoff c)) s'
                    in rest\<lparr>sv_sleeps := backoff # sv_sleeps rest\<rparr>))))"
  by pat_completeness auto
termination
  by (relation "measure (\<lambda>(c, _, _, _, _, s). nat (sc_max_restarts c + 1 - ss_restarts s))")
    (auto simp: bump_restart_def)

declare supervise.simps [simp del]

text \<open>\<open>load_session_state(path) or new_session_state(...)\<close>.\<close>

definition session_start :: "'f session_state option \<Rightarrow> string \<Rightarrow> int \<Rightarrow> 'f session_state" where
  "session_start saved i now = (case saved of Some s \<Rightarrow> s | None \<Rightarrow> new_session_state i now)"

definition supervisor_run :: "supervisor_config \<Rightarrow> string \<Rightarrow> (nat \<Rightarrow> string + 'f option) \<Rightarrow> (nat \<Rightarrow> int) \<Rightarrow> int
    \<Rightarrow> 'f session_state option \<Rightarrow> 'f supervised" where
  "supervisor_run c i outcome clock now saved =
     supervise c outcome clock 0 (sc_backoff c) (session_start saved i now)"

section \<open>The restart loop\<close>

definition attempts_left :: "supervisor_config \<Rightarrow> 'f session_state \<Rightarrow> nat" where
  "attempts_left c s = nat (sc_max_restarts c + 1 - ss_restarts s)"

lemma bump_attempts: "ss_restarts s \<le> sc_max_restarts c \<Longrightarrow> attempts_left c s = Suc (attempts_left c (bump_restart s e t))"
  by (simp add: attempts_left_def bump_restart_def)

lemma exhausted_attempts: "sc_max_restarts c < ss_restarts s \<longleftrightarrow> attempts_left c s = 0"
  by (auto simp: attempts_left_def)

text \<open>The three ways an attempt continues.\<close>

lemma supervise_spent: "attempts_left c s = 0 \<Longrightarrow> supervise c outcome clock k b s =
    \<lparr>sv_saved = s, sv_sleeps = [], sv_attempts = k, sv_result = Inl exhausted\<rparr>"
  by (simp add: supervise.simps [of c outcome clock k b s] exhausted_attempts)

lemma supervise_success: "attempts_left c s \<noteq> 0 \<Longrightarrow> outcome k = Inr x \<Longrightarrow> supervise c outcome clock k b s =
    \<lparr>sv_saved = checkpoint s x None (clock k), sv_sleeps = [], sv_attempts = Suc k,
     sv_result = Inr (checkpoint s x None (clock k))\<rparr>"
  by (simp add: supervise.simps [of c outcome clock k b s] exhausted_attempts Let_def)

lemma supervise_failure:
  fixes clock :: "nat \<Rightarrow> int"
  assumes "attempts_left c s = Suc n" "outcome k = Inl e"
  defines "s' \<equiv> bump_restart s e (clock k)"
  shows "attempts_left c s' = n"
    "supervise c outcome clock k b s =
       (if n = 0 then \<lparr>sv_saved = s', sv_sleeps = [], sv_attempts = Suc k, sv_result = Inl exhausted\<rparr>
        else (let rest = supervise c outcome clock (Suc k) (min (b * sc_multiplier c) (sc_max_backoff c)) s'
              in rest\<lparr>sv_sleeps := b # sv_sleeps rest\<rparr>))"
proof -
  have le: "ss_restarts s \<le> sc_max_restarts c" using assms(1) by (simp add: attempts_left_def)
  show n: "attempts_left c s' = n" using bump_attempts [OF le, of e "clock k"] assms(1) by (simp add: s'_def)
  show "supervise c outcome clock k b s =
       (if n = 0 then \<lparr>sv_saved = s', sv_sleeps = [], sv_attempts = Suc k, sv_result = Inl exhausted\<rparr>
        else (let rest = supervise c outcome clock (Suc k) (min (b * sc_multiplier c) (sc_max_backoff c)) s'
              in rest\<lparr>sv_sleeps := b # sv_sleeps rest\<rparr>))"
    unfolding supervise.simps [of c outcome clock k b s] assms(2) sum.case Let_def s'_def [symmetric] exhausted_attempts n
    by (simp add: assms(1))
qed

lemma ex_less_Suc_shift: "(\<exists>j < Suc n. P j) \<longleftrightarrow> P 0 \<or> (\<exists>j < n. P (Suc j))"
  by (metis Suc_less_eq less_Suc_eq_0_disj)

lemma supervise_outcome:
  "attempts_left c s = n \<Longrightarrow>
   (is_ok (sv_result (supervise c outcome clock k b s)) \<longleftrightarrow> (\<exists>j < n. is_ok (outcome (k + j)))) \<and>
   sv_attempts (supervise c outcome clock k b s) \<le> k + n \<and>
   (\<forall>r. sv_result (supervise c outcome clock k b s) = Inr r \<longrightarrow> sv_saved (supervise c outcome clock k b s) = r) \<and>
   ss_restarts (sv_saved (supervise c outcome clock k b s)) \<le> ss_restarts s + int n"
proof (induction n arbitrary: k b s)
  case 0
  then show ?case by (simp add: supervise_spent)
next
  case (Suc n)
  show ?case
  proof (cases "outcome k")
    case (Inr x)
    then show ?thesis using Suc.prems by (simp add: supervise_success ex_less_Suc_shift checkpoint_def)
  next
    case (Inl e)
    let ?s = "bump_restart s e (clock k)" and ?b = "min (b * sc_multiplier c) (sc_max_backoff c)"
    note f = supervise_failure [where c = c and s = s and outcome = outcome and k = k and clock = clock, OF Suc.prems Inl]
    have r: "ss_restarts ?s = ss_restarts s + 1" by (simp add: bump_restart_def)
    show ?thesis
    proof (cases "n = 0")
      case True
      then show ?thesis by (simp add: f(2) ex_less_Suc_shift Inl r)
    next
      case False
      have fields: "sv_result (supervise c outcome clock k b s) = sv_result (supervise c outcome clock (Suc k) ?b ?s)"
          "sv_attempts (supervise c outcome clock k b s) = sv_attempts (supervise c outcome clock (Suc k) ?b ?s)"
          "sv_saved (supervise c outcome clock k b s) = sv_saved (supervise c outcome clock (Suc k) ?b ?s)"
        using False by (simp_all add: f(2) Let_def)
      show ?thesis using Suc.IH [OF f(1), of "Suc k" ?b] Inl
        by (auto simp: fields ex_less_Suc_shift r)
    qed
  qed
qed

lemma min_capped:
  fixes x m p :: rat
  assumes "0 \<le> m" "1 \<le> p"
  shows "min (min x m * p) m = min (x * p) m"
proof (cases "x \<le> m")
  case False
  have "m \<le> m * p" using mult_left_mono [OF assms(2,1)] by simp
  moreover have "m * p \<le> x * p" using False assms(2) by (intro mult_right_mono) simp_all
  ultimately have "min (m * p) m = m" "min (x * p) m = m" "min x m = m"
    using False by (simp_all only: min_absorb2 order_trans [of m "m * p"] linear not_le less_imp_le)
  then show ?thesis by (simp only:)
qed simp

lemma supervise_sleeps:
  assumes "1 \<le> sc_multiplier c" "0 \<le> b" "b \<le> sc_max_backoff c"
  shows "i < length (sv_sleeps (supervise c outcome clock k b s)) \<Longrightarrow>
    sv_sleeps (supervise c outcome clock k b s) ! i = min (b * sc_multiplier c ^ i) (sc_max_backoff c)"
  using assms
proof (induction "attempts_left c s" arbitrary: k b s i)
  case 0
  then show ?case by (simp add: supervise_spent)
next
  case (Suc n)
  show ?case
  proof (cases "outcome k")
    case (Inr x)
    with Suc show ?thesis by (simp add: supervise_success)
  next
    case (Inl e)
    let ?b = "min (b * sc_multiplier c) (sc_max_backoff c)"
    note f = supervise_failure [where c = c and s = s and outcome = outcome and k = k and clock = clock,
      OF Suc.hyps(2) [symmetric] Inl]
    show ?thesis
    proof (cases "n = 0 \<or> i = 0")
      case True
      then show ?thesis using Suc.prems by (auto simp: f(2) Let_def split: if_splits)
    next
      case False
      then obtain j where j: "i = Suc j" by (cases i) auto
      have b: "0 \<le> ?b" "?b \<le> sc_max_backoff c" using Suc.prems by simp_all
      have "min (?b * sc_multiplier c ^ j) (sc_max_backoff c) = min (b * sc_multiplier c ^ Suc j) (sc_max_backoff c)"
        using min_capped [of "sc_max_backoff c" "sc_multiplier c ^ j" "b * sc_multiplier c"] Suc.prems(2-4)
        by (simp add: mult.assoc)
      moreover have "sv_sleeps (supervise c outcome clock k b s) ! i =
          sv_sleeps (supervise c outcome clock (Suc k) ?b (bump_restart s e (clock k))) ! j"
        "j < length (sv_sleeps (supervise c outcome clock (Suc k) ?b (bump_restart s e (clock k))))"
        using False Suc.prems(1) by (simp_all add: f(2) Let_def j)
      ultimately show ?thesis using Suc.hyps(1) [OF f(1) [symmetric] _ Suc.prems(2) b] by (simp add: j)
    qed
  qed
qed

section \<open>Properties\<close>

text \<open>
  LIVE is never reached without the explicit confirmation: the mode is LIVE only when the
  trimmed, upper-cased text is LIVE and the confirmation variable has the exact value; every other
  mode is resolved from its own name, and all other texts raise.
\<close>

theorem trading_mode_live_gate:
  "resolve_trading_mode raw env = Inr m \<longleftrightarrow>
     mode_value m = py_upper (py_strip raw) \<and>
     \<not> (m = LIVE \<and> map_of env ''CONFIRM_LIVE_TRADING'' \<noteq> Some ''I_UNDERSTAND_THE_RISK'')"
proof -
  have f: "find (\<lambda>x. mode_value x = t) trading_modes = Some m \<longleftrightarrow> mode_value m = t" for t m
    by (cases m) (auto simp: trading_modes_def)
  show ?thesis
  proof (cases "find (\<lambda>x. mode_value x = py_upper (py_strip raw)) trading_modes")
    case None
    then show ?thesis using f [of "py_upper (py_strip raw)" m] by (simp add: resolve_trading_mode_def)
  next
    case (Some x)
    moreover have "mode_value m = py_upper (py_strip raw) \<longleftrightarrow> x = m"
      using f [of "py_upper (py_strip raw)" m] Some by simp
    ultimately show ?thesis by (auto simp: resolve_trading_mode_def)
  qed
qed

text \<open>
  C14. The restart loop terminates within its budget and gives up only when the budget is spent: with
  N attempts left by the checkpoint, the run returns exactly when one of the next N attempts
  succeeds, never makes more than N, and the restart counter stays within the maximum plus one.
\<close>

theorem supervisor_returns_iff:
  "((\<exists>r. sv_result (supervisor_run c i outcome clock now saved) = Inr r) \<longleftrightarrow>
      (\<exists>j < attempts_left c (session_start saved i now). \<exists>x. outcome j = Inr x)) \<and>
   sv_attempts (supervisor_run c i outcome clock now saved) \<le> attempts_left c (session_start saved i now) \<and>
   ss_restarts (sv_saved (supervisor_run c i outcome clock now saved)) \<le>
     max (ss_restarts (session_start saved i now)) (sc_max_restarts c + 1)"
proof -
  let ?s = "session_start saved i now"
  note o = supervise_outcome [where c = c and s = ?s and k = 0 and b = "sc_backoff c" and outcome = outcome and clock = clock, OF refl]
  have "ss_restarts ?s + int (attempts_left c ?s) = max (ss_restarts ?s) (sc_max_restarts c + 1)"
    by (simp add: attempts_left_def)
  with o show ?thesis by (simp add: supervisor_run_def is_ok_iff)
qed

text \<open>
  With a growing backoff that starts within its cap, the i-th pause of a supervised run is the
  exponential backoff cut at the cap: min (backoff * multiplier ^ i) maximum.
\<close>

theorem supervisor_backoff_closed_form:
  assumes "1 \<le> sc_multiplier c" "0 \<le> sc_backoff c" "sc_backoff c \<le> sc_max_backoff c"
    and "n < length (sv_sleeps (supervisor_run c i outcome clock now saved))"
  shows "sv_sleeps (supervisor_run c i outcome clock now saved) ! n = min (sc_backoff c * sc_multiplier c ^ n) (sc_max_backoff c)"
  using assms(4) unfolding supervisor_run_def by (rule supervise_sleeps [OF assms(1-3)])

section \<open>Witnesses\<close>

lemma supervisor_backoff_closed_form_witness:
  "sv_sleeps (supervisor_run default_supervisor_config ''s'' (\<lambda>k. if k < 2 then Inl ''e'' else Inr (None :: unit option)) int 0 None) ! 1 = 60"
proof -
  let ?o = "\<lambda>k. if k < (2 :: nat) then Inl ''e'' else Inr (None :: unit option)"
  have "length (sv_sleeps (supervisor_run default_supervisor_config ''s'' ?o int 0 None)) = 2"
    by (simp add: supervisor_run_def session_start_def new_session_state_def default_supervisor_config_def
        bump_restart_def checkpoint_def supervise.simps [of _ _ _ 0] supervise.simps [of _ _ _ "Suc 0"]
        supervise.simps [of _ _ _ "Suc (Suc 0)"] Let_def)
  then have "1 < length (sv_sleeps (supervisor_run default_supervisor_config ''s'' ?o int 0 None))" by simp
  from supervisor_backoff_closed_form [OF _ _ _ this] show ?thesis
    by (simp add: default_supervisor_config_def)
qed

end
