(* ===== verification/Cycle_Lock.thy ===== *)
theory Cycle_Lock
  imports Prelude
begin

text \<open>
  Model of \<open>CycleLock\<close> in \<open>src/research/locking.py\<close>: several processes run
  \<open>acquire\<close> and \<open>release\<close> on one lock file. The step relation interleaves the system calls:
  the exclusive open, the \<open>stat\<close>, the \<open>unlink\<close> and the second open are separate steps, time
  passes between them, and a holder may die without releasing. The file is its modification
  time; the process that created it is kept beside it to state who is in.
\<close>

section \<open>Processes and the lock file\<close>

datatype lock_pc =
    Outside \<comment> \<open>not in \<open>acquire\<close>, or \<open>acquire\<close> raised\<close>
  | AtStat \<comment> \<open>the exclusive open failed, \<open>_steal_if_stale\<close> is about to stat\<close>
  | AtUnlink \<comment> \<open>the file was seen old enough, the unlink is next\<close>
  | AtReopen \<comment> \<open>\<open>_steal_if_stale\<close> returned True, the second exclusive open is next\<close>
  | Holding \<comment> \<open>\<open>acquire\<close> returned\<close>

record lock_state =
  lk_now :: int
  lk_file :: "(int \<times> nat) option"
  lk_pc :: "nat \<Rightarrow> lock_pc"
  lk_died :: "nat set"

datatype lock_event =
    Tick nat
  | OpenOk nat
  | OpenFails nat
  | StatGone nat
  | StatYoung nat
  | StatOld nat
  | Unlinks nat
  | ReopenOk nat
  | ReopenFails nat
  | Releases nat
  | Dies nat

definition lock_init :: "int \<Rightarrow> lock_state" where
  "lock_init t = \<lparr>lk_now = t, lk_file = None, lk_pc = (\<lambda>_. Outside), lk_died = {}\<rparr>"

text \<open>\<open>age_seconds < stale_after_seconds\<close>, in microseconds.\<close>

definition too_young :: "int \<Rightarrow> lock_state \<Rightarrow> int \<Rightarrow> bool" where
  "too_young stale_after s mtime \<longleftrightarrow> lk_now s - mtime < stale_after"

text \<open>
  One step. \<open>OpenOk\<close> to \<open>ReopenFails\<close> are the paths of \<open>acquire\<close>; \<open>Releases\<close> is
  \<open>release\<close>, whose unlink does not look whose file it removes; \<open>Dies\<close> is a holder that
  ends without it (each process number is one invocation, so it does not come back).
\<close>

inductive lock_step :: "int \<Rightarrow> lock_state \<Rightarrow> lock_event \<Rightarrow> lock_state \<Rightarrow> bool" for stale_after :: int where
  tick: "lock_step stale_after s (Tick d) (s\<lparr>lk_now := lk_now s + int d\<rparr>)"
| open_ok: "lk_pc s p = Outside \<Longrightarrow> p \<notin> lk_died s \<Longrightarrow> lk_file s = None \<Longrightarrow>
    lock_step stale_after s (OpenOk p) (s\<lparr>lk_file := Some (lk_now s, p), lk_pc := (lk_pc s)(p := Holding)\<rparr>)"
| open_fails: "lk_pc s p = Outside \<Longrightarrow> p \<notin> lk_died s \<Longrightarrow> lk_file s \<noteq> None \<Longrightarrow>
    lock_step stale_after s (OpenFails p) (s\<lparr>lk_pc := (lk_pc s)(p := AtStat)\<rparr>)"
| stat_gone: "lk_pc s p = AtStat \<Longrightarrow> lk_file s = None \<Longrightarrow>
    lock_step stale_after s (StatGone p) (s\<lparr>lk_pc := (lk_pc s)(p := AtReopen)\<rparr>)"
| stat_young: "lk_pc s p = AtStat \<Longrightarrow> lk_file s = Some (m, q) \<Longrightarrow> too_young stale_after s m \<Longrightarrow>
    lock_step stale_after s (StatYoung p) (s\<lparr>lk_pc := (lk_pc s)(p := Outside)\<rparr>)"
| stat_old: "lk_pc s p = AtStat \<Longrightarrow> lk_file s = Some (m, q) \<Longrightarrow> \<not> too_young stale_after s m \<Longrightarrow>
    lock_step stale_after s (StatOld p) (s\<lparr>lk_pc := (lk_pc s)(p := AtUnlink)\<rparr>)"
| unlinks: "lk_pc s p = AtUnlink \<Longrightarrow>
    lock_step stale_after s (Unlinks p) (s\<lparr>lk_file := None, lk_pc := (lk_pc s)(p := AtReopen)\<rparr>)"
| reopen_ok: "lk_pc s p = AtReopen \<Longrightarrow> lk_file s = None \<Longrightarrow>
    lock_step stale_after s (ReopenOk p) (s\<lparr>lk_file := Some (lk_now s, p), lk_pc := (lk_pc s)(p := Holding)\<rparr>)"
| reopen_fails: "lk_pc s p = AtReopen \<Longrightarrow> lk_file s \<noteq> None \<Longrightarrow>
    lock_step stale_after s (ReopenFails p) (s\<lparr>lk_pc := (lk_pc s)(p := Outside)\<rparr>)"
| releases: "lk_pc s p = Holding \<Longrightarrow>
    lock_step stale_after s (Releases p) (s\<lparr>lk_file := None, lk_pc := (lk_pc s)(p := Outside)\<rparr>)"
| dies: "lk_pc s p = Holding \<Longrightarrow>
    lock_step stale_after s (Dies p) (s\<lparr>lk_pc := (lk_pc s)(p := Outside), lk_died := insert p (lk_died s)\<rparr>)"

inductive_cases lock_step_openE [elim!]: "lock_step stale_after s (OpenOk p) s'"
inductive_cases lock_step_staleE [elim!]: "lock_step stale_after s (StatOld p) s'"
inductive_simps lock_step_unlink: "lock_step stale_after s (Unlinks p) s'"
inductive_simps lock_step_release: "lock_step stale_after s (Releases p) s'"

inductive lock_run :: "int \<Rightarrow> lock_state \<Rightarrow> lock_event list \<Rightarrow> lock_state \<Rightarrow> bool" for stale_after :: int where
  none: "lock_run stale_after s [] s"
| more: "lock_run stale_after s es s' \<Longrightarrow> lock_step stale_after s' e s'' \<Longrightarrow> lock_run stale_after s (es @ [e]) s''"

section \<open>Exclusion without a steal\<close>

definition stealing :: "lock_event \<Rightarrow> bool" where
  "stealing e \<longleftrightarrow> (case e of Unlinks _ \<Rightarrow> True | _ \<Rightarrow> False)"

text \<open>Whoever holds is the creator of the file.\<close>

definition lock_owned :: "lock_state \<Rightarrow> bool" where
  "lock_owned s \<longleftrightarrow> (\<forall>p. lk_pc s p = Holding \<longrightarrow> (\<exists>m. lk_file s = Some (m, p)))"

lemma lock_owned_unique: "lock_owned s \<Longrightarrow> lk_pc s p = Holding \<Longrightarrow> lk_pc s q = Holding \<Longrightarrow> p = q"
  unfolding lock_owned_def by (metis option.inject prod.inject)

lemma lock_step_owned:
  assumes st: "lock_step stale_after s e s'" "\<not> stealing e" and owned: "lock_owned s"
  shows "lock_owned s'"
  using st(1)
proof cases
  case (releases p)
  then have "lk_pc s q \<noteq> Holding" if "q \<noteq> p" for q using lock_owned_unique [OF owned] that by blast
  then show ?thesis using releases by (simp add: lock_owned_def)
next
  case (dies p)
  then have "lk_pc s q \<noteq> Holding" if "q \<noteq> p" for q using lock_owned_unique [OF owned] that by blast
  then show ?thesis using dies by (simp add: lock_owned_def)
qed (use st(2) owned in \<open>auto simp: lock_owned_def stealing_def\<close>)

lemma lock_run_owned:
  "lock_run stale_after s es s' \<Longrightarrow> list_all (\<lambda>e. \<not> stealing e) es \<Longrightarrow> lock_owned s \<Longrightarrow> lock_owned s'"
  by (induction rule: lock_run.induct) (auto intro: lock_step_owned)

lemma lock_init_owned: "lock_owned (lock_init t)"
  by (simp add: lock_owned_def lock_init_def)

text \<open>No process sees an old file before the limit has passed.\<close>

definition lock_times :: "int \<Rightarrow> int \<Rightarrow> lock_state \<Rightarrow> bool" where
  "lock_times stale_after t s \<longleftrightarrow>
     (case lk_file s of None \<Rightarrow> True | Some (m, _) \<Rightarrow> t \<le> m) \<and> t \<le> lk_now s \<and>
     (\<forall>p. lk_pc s p = AtUnlink \<longrightarrow> t + stale_after \<le> lk_now s)"

lemma lock_step_times:
  "lock_step stale_after s e s' \<Longrightarrow> lock_times stale_after t s \<Longrightarrow>
   lock_times stale_after t s' \<and> lk_now s \<le> lk_now s' \<and> (stealing e \<longrightarrow> t + stale_after \<le> lk_now s')"
  by (induction rule: lock_step.induct) (fastforce simp: lock_times_def stealing_def too_young_def)+

lemma lock_run_times:
  "lock_run stale_after s es s' \<Longrightarrow> lock_times stale_after t s \<Longrightarrow>
   lock_times stale_after t s' \<and> (list_ex stealing es \<longrightarrow> t + stale_after \<le> lk_now s')"
proof (induction rule: lock_run.induct)
  case (more s es s' e s'')
  then show ?case using lock_step_times [OF more.hyps(2), of t] by (auto simp: list_ex_iff)
qed simp

section \<open>The steps as a function\<close>

text \<open>The state after an event, if the event is possible.\<close>

fun lock_next :: "int \<Rightarrow> lock_state \<Rightarrow> lock_event \<Rightarrow> lock_state option" where
  "lock_next st s (Tick d) = Some (s\<lparr>lk_now := lk_now s + int d\<rparr>)"
| "lock_next st s (OpenOk p) =
     (if lk_pc s p = Outside \<and> p \<notin> lk_died s \<and> lk_file s = None
      then Some (s\<lparr>lk_file := Some (lk_now s, p), lk_pc := (lk_pc s)(p := Holding)\<rparr>) else None)"
| "lock_next st s (OpenFails p) =
     (if lk_pc s p = Outside \<and> p \<notin> lk_died s \<and> lk_file s \<noteq> None
      then Some (s\<lparr>lk_pc := (lk_pc s)(p := AtStat)\<rparr>) else None)"
| "lock_next st s (StatGone p) =
     (if lk_pc s p = AtStat \<and> lk_file s = None then Some (s\<lparr>lk_pc := (lk_pc s)(p := AtReopen)\<rparr>) else None)"
| "lock_next st s (StatYoung p) =
     (if lk_pc s p = AtStat \<and> (case lk_file s of None \<Rightarrow> False | Some (m, _) \<Rightarrow> too_young st s m)
      then Some (s\<lparr>lk_pc := (lk_pc s)(p := Outside)\<rparr>) else None)"
| "lock_next st s (StatOld p) =
     (if lk_pc s p = AtStat \<and> (case lk_file s of None \<Rightarrow> False | Some (m, _) \<Rightarrow> \<not> too_young st s m)
      then Some (s\<lparr>lk_pc := (lk_pc s)(p := AtUnlink)\<rparr>) else None)"
| "lock_next st s (Unlinks p) =
     (if lk_pc s p = AtUnlink then Some (s\<lparr>lk_file := None, lk_pc := (lk_pc s)(p := AtReopen)\<rparr>) else None)"
| "lock_next st s (ReopenOk p) =
     (if lk_pc s p = AtReopen \<and> lk_file s = None
      then Some (s\<lparr>lk_file := Some (lk_now s, p), lk_pc := (lk_pc s)(p := Holding)\<rparr>) else None)"
| "lock_next st s (ReopenFails p) =
     (if lk_pc s p = AtReopen \<and> lk_file s \<noteq> None then Some (s\<lparr>lk_pc := (lk_pc s)(p := Outside)\<rparr>) else None)"
| "lock_next st s (Releases p) =
     (if lk_pc s p = Holding then Some (s\<lparr>lk_file := None, lk_pc := (lk_pc s)(p := Outside)\<rparr>) else None)"
| "lock_next st s (Dies p) =
     (if lk_pc s p = Holding
      then Some (s\<lparr>lk_pc := (lk_pc s)(p := Outside), lk_died := insert p (lk_died s)\<rparr>) else None)"

lemma lock_step_iff: "lock_step st s e s' \<longleftrightarrow> lock_next st s e = Some s'"
proof
  show "lock_step st s e s' \<Longrightarrow> lock_next st s e = Some s'"
    by (induction rule: lock_step.induct) auto
  show "lock_next st s e = Some s' \<Longrightarrow> lock_step st s e s'"
    by (cases e) (auto intro: lock_step.intros split: if_splits option.splits)
qed

fun lock_exec :: "int \<Rightarrow> lock_state \<Rightarrow> lock_event list \<Rightarrow> lock_state option" where
  "lock_exec st s [] = Some s"
| "lock_exec st s (e # es) = (case lock_next st s e of None \<Rightarrow> None | Some s' \<Rightarrow> lock_exec st s' es)"

lemma lock_run_Cons: "lock_run st s' es s'' \<Longrightarrow> lock_step st s e s' \<Longrightarrow> lock_run st s (e # es) s''"
proof (induction rule: lock_run.induct)
  case (none s')
  then show ?case using lock_run.more [OF lock_run.none, of st s e s'] by simp
next
  case (more s0 es s1 e1 s2)
  then have "lock_run st s (e # es) s1" by simp
  from lock_run.more [OF this more.hyps(2)] show ?case by simp
qed

lemma lock_exec_run: "lock_exec st s es = Some s' \<Longrightarrow> lock_run st s es s'"
  by (induction es arbitrary: s)
    (auto simp: lock_run.none lock_step_iff intro: lock_run_Cons [rotated] split: option.splits)

section \<open>Properties\<close>

text \<open>
  C38. Two processes are inside at the same time only after a steal: in every interleaving of
  acquires, releases, crashes and passing time from the start at time t, if two different processes
  hold the lock then some process has unlinked a file, and at least the stale limit has passed
  since t.
\<close>

theorem lock_exclusive_without_steal:
  assumes "lock_run stale_after (lock_init t) es s" "lk_pc s p = Holding" "lk_pc s q = Holding" "p \<noteq> q"
  shows "list_ex stealing es \<and> t + stale_after \<le> lk_now s"
proof -
  have "\<not> lock_owned s" using assms(2-4) lock_owned_unique by blast
  then have "list_ex stealing es"
    using lock_run_owned [OF assms(1) _ lock_init_owned] by (auto simp: list_ex_iff list_all_iff)
  moreover have "lock_times stale_after t (lock_init t)" by (simp add: lock_times_def lock_init_def)
  ultimately show ?thesis using lock_run_times [OF assms(1)] by blast
qed

definition lock_race :: "nat \<Rightarrow> lock_event list" where
  "lock_race n = [OpenOk 0, Dies 0, Tick n, OpenFails 1, StatOld 1, OpenFails 2, StatOld 2,
     Unlinks 1, ReopenOk 1, Unlinks 2, ReopenOk 2]"

text \<open>
  Taking over an abandoned lock is not exclusive: after a holder has died, two processes that both
  find the file stale can both acquire the lock, because the second unlink removes the file the first
  one has just created. So two cycles can run at the same time although every holder is younger than
  the limit.
\<close>

theorem lock_steal_race:
  "\<exists>s. lock_run (int n) (lock_init 0) (lock_race n) s \<and> lk_pc s 1 = Holding \<and> lk_pc s 2 = Holding \<and>
     1 \<notin> lk_died s \<and> 2 \<notin> lk_died s"
proof -
  let ?s = "\<lparr>lk_now = int n, lk_file = Some (int n, 2), lk_pc = (\<lambda>_. Outside)(1 := Holding, 2 := Holding), lk_died = {0}\<rparr>"
  have "lock_exec (int n) (lock_init 0) (lock_race n) = Some ?s"
    by (simp add: lock_race_def lock_init_def too_young_def fun_eq_iff)
  then show ?thesis by (intro exI [of _ ?s] conjI lock_exec_run) simp_all
qed

lemma lock_exclusive_without_steal_witness: "list_ex stealing (lock_race 5)"
proof -
  let ?s = "\<lparr>lk_now = 5, lk_file = Some (5, 2), lk_pc = (\<lambda>_. Outside)(1 := Holding, 2 := Holding), lk_died = {0}\<rparr>"
  have "lock_exec 5 (lock_init 0) (lock_race 5) = Some ?s"
    by (simp add: lock_race_def lock_init_def too_young_def fun_eq_iff)
  from lock_exclusive_without_steal [OF lock_exec_run [OF this], of 1 2] show ?thesis by simp
qed

end
