(* ===== verification/Research_Protocol.thy ===== *)
theory Research_Protocol
  imports Prelude
begin

text \<open>
  Model of \<open>src/research/config.py\<close>: the research protocol, its validation and the three
  queries on it. Reading the YAML file is not modelled: a protocol is the typed value that the
  loader builds and validates. A threshold written as a float may be any number, NaN included.
\<close>

section \<open>The protocol\<close>

record universe_config =
  uc_symbols :: "string list"
  uc_primary :: "string list"
  uc_secondary :: "string list"
  uc_disabled :: "string list"

record data_split_config =
  ds_train_days :: int
  ds_validation_days :: int
  ds_test_days :: int
  ds_purge_bars :: int
  ds_embargo_bars :: int
  ds_max_lookback_days :: "int option"

record holdout_config =
  hc_enabled :: bool
  hc_id :: string
  hc_days :: int

record hypothesis_budget =
  hb_max_new :: int
  hb_max_variants :: int
  hb_max_cpu_minutes :: int
  hb_max_wall_minutes :: int

record hypothesis_family =
  hf_id :: string
  hf_enabled :: bool
  hf_description :: string

record cost_scenario =
  co_fee :: num
  co_slippage :: num
  co_funding :: num
  co_delay_bars :: int

record cost_scenarios =
  co_base :: cost_scenario
  co_adverse :: cost_scenario
  co_severe :: cost_scenario

record promotion_gate =
  pg_min_oos_trades :: int
  pg_min_symbols_positive :: int
  pg_adverse_return_positive :: bool
  pg_median_fold_positive :: bool
  pg_min_positive_folds :: num
  pg_max_fold_share :: num
  pg_max_trade_share :: num
  pg_min_dsr :: num
  pg_max_pbo :: num
  pg_parameter_stability :: bool
  pg_max_drawdown :: num
  pg_max_perturbation :: num
  pg_entry_lag_nonneg :: bool
  pg_requires_funding :: bool
  pg_requires_mark_to_market :: bool
  pg_requires_complete_data :: bool

record paper_promotion_config =
  pc_min_weeks :: int
  pc_max_weeks :: int
  pc_min_trades :: int
  pc_max_deviation :: num
  pc_max_slippage :: num
  pc_min_fill_rate :: num
  pc_no_violations :: bool
  pc_human_approval :: bool

record retirement_config =
  rc_max_drawdown :: num
  rc_degraded_reviews :: int
  rc_auto_kill_on :: "string list"

record research_protocol =
  rp_version :: int
  rp_universe :: universe_config
  rp_data_split :: data_split_config
  rp_holdout :: holdout_config
  rp_budget :: hypothesis_budget
  rp_families :: "hypothesis_family list"
  rp_costs :: cost_scenarios
  rp_gate :: promotion_gate
  rp_paper :: paper_promotion_config
  rp_retirement :: retirement_config

definition enabled_families :: "research_protocol \<Rightarrow> hypothesis_family list" where
  "enabled_families p = filter hf_enabled (rp_families p)"

definition is_symbol_allowed :: "research_protocol \<Rightarrow> string \<Rightarrow> bool" where
  "is_symbol_allowed p s \<longleftrightarrow> s \<in> set (uc_symbols (rp_universe p))"

definition is_timeframe_allowed :: "research_protocol \<Rightarrow> string \<Rightarrow> bool" where
  "is_timeframe_allowed p t \<longleftrightarrow> t \<in> set (uc_primary (rp_universe p)) \<or> t \<in> set (uc_secondary (rp_universe p))"

section \<open>Validation\<close>

definition in_range :: "rat \<Rightarrow> rat \<Rightarrow> num \<Rightarrow> bool" where
  "in_range lo hi x \<longleftrightarrow> num_le (Fin lo) x \<and> num_le x (Fin hi)"

lemma in_range_iff [simp]: "in_range lo hi x \<longleftrightarrow> (\<exists>r. x = Fin r \<and> lo \<le> r \<and> r \<le> hi)"
  by (cases x) (auto simp: in_range_def)

definition require_pct_0_100 :: "num \<Rightarrow> unit result" where
  "require_pct_0_100 x =
     (if \<not> in_range 0 100 x then Inl (ValueError ''must be a number on a 0-100 percentage scale'') else Inr ())"

definition validate_protocol :: "research_protocol \<Rightarrow> unit result" where
  "validate_protocol p =
     (if hb_max_new (rp_budget p) \<le> 0
      then Inl (ValueError ''max_new_hypotheses_per_cycle must be positive'')
      else if hb_max_variants (rp_budget p) \<le> 0
      then Inl (ValueError ''max_variants_per_hypothesis must be positive'')
      else if \<not> in_range 0 1 (pg_min_positive_folds (rp_gate p))
      then Inl (ValueError ''min_fraction_positive_oos_folds must be in [0, 1]'')
      else if \<not> in_range 0 1 (pg_max_pbo (rp_gate p))
      then Inl (ValueError ''max_probability_of_backtest_overfitting must be in [0, 1]'')
      else if num_lt (pg_min_dsr (rp_gate p)) (Fin 0)
      then Inl (ValueError ''min_deflated_sharpe_ratio must be non-negative'')
      else if card (set (map hf_id (rp_families p))) \<noteq> length (rp_families p)
      then Inl (ValueError ''duplicate hypothesis_families id'')
      else
        bindE (require_pct_0_100 (pc_max_deviation (rp_paper p))) (\<lambda>_.
        bindE (require_pct_0_100 (pc_min_fill_rate (rp_paper p))) (\<lambda>_.
        require_pct_0_100 (rc_max_drawdown (rp_retirement p)))))"

text \<open>What the cycle may rely on: a positive budget and families with distinct ids.\<close>

lemma validate_protocol_Inr:
  assumes "validate_protocol p = Inr u"
  shows "0 < hb_max_new (rp_budget p)" "0 < hb_max_variants (rp_budget p)"
    "distinct (map hf_id (rp_families p))" "distinct (map hf_id (enabled_families p))"
proof -
  show "0 < hb_max_new (rp_budget p)" "0 < hb_max_variants (rp_budget p)"
    using assms by (auto simp: validate_protocol_def split: if_splits)
  show d: "distinct (map hf_id (rp_families p))"
    using assms by (auto simp: validate_protocol_def intro!: card_distinct split: if_splits)
  then show "distinct (map hf_id (enabled_families p))"
    unfolding enabled_families_def by (rule distinct_map_filter)
qed

section \<open>The protocol that is shipped\<close>

text \<open>The values of \<open>configs/research_protocol.yaml\<close>, the descriptions of the families abridged.\<close>

definition shipped_gate :: promotion_gate where
  "shipped_gate =
     \<lparr>pg_min_oos_trades = 30, pg_min_symbols_positive = 2, pg_adverse_return_positive = True,
      pg_median_fold_positive = True, pg_min_positive_folds = Fin (3 / 5), pg_max_fold_share = Fin (1 / 2),
      pg_max_trade_share = Fin (1 / 5), pg_min_dsr = Fin (95 / 100), pg_max_pbo = Fin (1 / 5),
      pg_parameter_stability = True, pg_max_drawdown = Fin (3 / 10), pg_max_perturbation = Fin (3 / 10),
      pg_entry_lag_nonneg = True, pg_requires_funding = True, pg_requires_mark_to_market = True,
      pg_requires_complete_data = True\<rparr>"

definition shipped_paper :: paper_promotion_config where
  "shipped_paper =
     \<lparr>pc_min_weeks = 8, pc_max_weeks = 12, pc_min_trades = 20, pc_max_deviation = Fin 40, pc_max_slippage = Fin 25,
      pc_min_fill_rate = Fin 90, pc_no_violations = True, pc_human_approval = True\<rparr>"

definition shipped_retirement :: retirement_config where
  "shipped_retirement =
     \<lparr>rc_max_drawdown = Fin 25, rc_degraded_reviews = 3,
      rc_auto_kill_on = [''risk_limit_breach'', ''heartbeat_loss'', ''position_state_mismatch'',
        ''order_error_storm'', ''data_corruption'']\<rparr>"

definition shipped_families :: "hypothesis_family list" where
  "shipped_families =
     [\<lparr>hf_id = ''momentum_trend'', hf_enabled = True, hf_description = ''momentum''\<rparr>,
      \<lparr>hf_id = ''cross_asset_regime'', hf_enabled = True, hf_description = ''regime''\<rparr>,
      \<lparr>hf_id = ''funding_oi'', hf_enabled = True, hf_description = ''funding''\<rparr>,
      \<lparr>hf_id = ''portfolio_combination'', hf_enabled = True, hf_description = ''portfolio''\<rparr>,
      \<lparr>hf_id = ''microstructure'', hf_enabled = False, hf_description = ''disabled''\<rparr>,
      \<lparr>hf_id = ''price_action_confluence'', hf_enabled = True, hf_description = ''sweep''\<rparr>,
      \<lparr>hf_id = ''funding_aware_multi_horizon_trend'', hf_enabled = True, hf_description = ''trend''\<rparr>,
      \<lparr>hf_id = ''market_cipher_like'', hf_enabled = True, hf_description = ''wave''\<rparr>]"

definition shipped_protocol :: research_protocol where
  "shipped_protocol =
     \<lparr>rp_version = 1,
      rp_universe = \<lparr>uc_symbols = [''BTCUSDT'', ''ETHUSDT'', ''SOLUSDT''], uc_primary = [''4h'', ''1d''],
        uc_secondary = [''1h''], uc_disabled = [''15m'', ''5m'', ''1m'']\<rparr>,
      rp_data_split = \<lparr>ds_train_days = 90, ds_validation_days = 21, ds_test_days = 21, ds_purge_bars = 20,
        ds_embargo_bars = 10, ds_max_lookback_days = Some 730\<rparr>,
      rp_holdout = \<lparr>hc_enabled = True, hc_id = ''2026H1-v1'', hc_days = 60\<rparr>,
      rp_budget = \<lparr>hb_max_new = 37, hb_max_variants = 12, hb_max_cpu_minutes = 240, hb_max_wall_minutes = 360\<rparr>,
      rp_families = shipped_families,
      rp_costs = \<lparr>co_base = \<lparr>co_fee = Fin 1, co_slippage = Fin 1, co_funding = Fin 1, co_delay_bars = 0\<rparr>,
        co_adverse = \<lparr>co_fee = Fin (3 / 2), co_slippage = Fin 2, co_funding = Fin (3 / 2), co_delay_bars = 1\<rparr>,
        co_severe = \<lparr>co_fee = Fin 2, co_slippage = Fin 4, co_funding = Fin 2, co_delay_bars = 2\<rparr>\<rparr>,
      rp_gate = shipped_gate, rp_paper = shipped_paper, rp_retirement = shipped_retirement\<rparr>"

lemma shipped_protocol_valid: "validate_protocol shipped_protocol = Inr ()"
  by code_simp

end
