(* ===== verification/Promotion.thy ===== *)
theory Promotion
  imports Setup_Contracts Lifecycle Research_Protocol
begin

text \<open>
  Model of \<open>src/research/promotion.py\<close> with the promotion check of
  \<open>confirmation_independence.py\<close>: the PAPER champion/challenger state machine. The JSON
  file is a dictionary from candidate ids to their states; an operation that raises leaves it as
  it was. The clock is an argument; confirmation families are kept as the enumeration values.
\<close>

section \<open>Data\<close>

datatype promotion_status =
  REJECTED_STATUS | RESEARCH_CANDIDATE | PAPER_CHALLENGER | PAPER_CHAMPION | DEGRADED | RETIRED

record transition_event =
  te_from :: "promotion_status option"
  te_to :: promotion_status
  te_reason :: string
  te_at :: int
  te_human :: "string option"

record candidate_state =
  cs_id :: string
  cs_status :: promotion_status
  cs_history :: "transition_event list"
  cs_paper_started :: "int option"
  cs_degraded_reviews :: int
  cs_families :: "confirmation_family list"

type_synonym registry = "(string, candidate_state) dict"

text \<open>The parts of the independence report that are read.\<close>

datatype independence_status = PASS | FAIL | INSUFFICIENT_DATA

record independence_report =
  ir_families :: "confirmation_family list"
  ir_status :: independence_status

section \<open>Operations\<close>

definition promotion_transition :: "registry \<Rightarrow> string \<Rightarrow> promotion_status \<Rightarrow> promotion_status option list option
    \<Rightarrow> string \<Rightarrow> string option \<Rightarrow> int \<Rightarrow> (registry \<times> candidate_state) result" where
  "promotion_transition states i new_status allowed_from reason human now =
     (let current = map_of states i; current_status = map_option cs_status current in
      if (case allowed_from of None \<Rightarrow> False | Some al \<Rightarrow> current_status \<notin> set al)
      then Inl (Raised InvalidTransition ''cannot move candidate'')
      else
        (let base = (case current of
               None \<Rightarrow> \<lparr>cs_id = i, cs_status = new_status, cs_history = [], cs_paper_started = None,
                        cs_degraded_reviews = 0, cs_families = []\<rparr>
             | Some c \<Rightarrow> c\<lparr>cs_status := new_status\<rparr>);
             event = \<lparr>te_from = current_status, te_to = new_status, te_reason = reason, te_at = now, te_human = human\<rparr>;
             c = base\<lparr>cs_history := cs_history base @ [event]\<rparr>
         in Inr (AList.update i c states, c)))"

text \<open>\<open>dict.fromkeys\<close> keeps the first occurrence.\<close>

definition unique_families :: "confirmation_family list \<Rightarrow> confirmation_family list" where
  "unique_families fs = rev (remdups (rev fs))"

definition register_research_candidate :: "registry \<Rightarrow> string \<Rightarrow> string \<Rightarrow> confirmation_family list \<Rightarrow> int
    \<Rightarrow> (registry \<times> candidate_state) result" where
  "register_research_candidate states i reason fs now =
     (if unique_families fs = []
      then Inl (Raised InvalidTransition ''research candidate requires confirmation-family metadata'')
      else bindE (promotion_transition states i RESEARCH_CANDIDATE None reason None now) (\<lambda>(states', c).
        (let c' = c\<lparr>cs_families := unique_families fs\<rparr> in Inr (AList.update i c' states', c'))))"

definition reject_candidate :: "registry \<Rightarrow> string \<Rightarrow> string \<Rightarrow> int \<Rightarrow> (registry \<times> candidate_state) result" where
  "reject_candidate states i reason now = promotion_transition states i REJECTED_STATUS None reason None now"

definition require_independence_for_promotion :: "independence_report \<Rightarrow> confirmation_family list \<Rightarrow> unit result" where
  "require_independence_for_promotion r required =
     (if ir_status r \<noteq> PASS
      then Inl (Raised ConfirmationIndependenceError ''confirmation independence is not promotion-eligible'')
      else if \<not> set required \<subseteq> set (ir_families r)
      then Inl (Raised ConfirmationIndependenceError ''independence report does not cover every family'')
      else Inr ())"

definition promote_to_challenger :: "registry \<Rightarrow> string \<Rightarrow> string \<Rightarrow> independence_report option \<Rightarrow> int
    \<Rightarrow> (registry \<times> candidate_state) result" where
  "promote_to_challenger states i reason report now =
     (case map_of states i of
        None \<Rightarrow> Inl (Raised InvalidTransition ''candidate confirmation-family metadata is missing'')
      | Some c \<Rightarrow>
          if cs_families c = []
          then Inl (Raised InvalidTransition ''candidate confirmation-family metadata is missing'')
          else
            bindE (if 2 \<le> length (cs_families c)
                   then (case report of
                           None \<Rightarrow> Inl (Raised InvalidTransition ''multi-family candidate requires an independence report'')
                         | Some r \<Rightarrow> require_independence_for_promotion r (cs_families c))
                   else Inr ()) (\<lambda>_.
            bindE (promotion_transition states i PAPER_CHALLENGER (Some [Some RESEARCH_CANDIDATE]) reason None now)
              (\<lambda>(states', c1).
                (let c' = c1\<lparr>cs_paper_started := Some now\<rparr> in Inr (AList.update i c' states', c')))))"

definition promote_multi_family_to_challenger :: "registry \<Rightarrow> string \<Rightarrow> string \<Rightarrow> independence_report
    \<Rightarrow> confirmation_family list \<Rightarrow> int \<Rightarrow> (registry \<times> candidate_state) result" where
  "promote_multi_family_to_challenger states i reason report required now =
     (if card (set required) < 2
      then Inl (Raised InvalidTransition ''multi-family promotion requires at least two families'')
      else
        (case map_of states i of
           None \<Rightarrow> Inl (Raised InvalidTransition ''required families do not match registered candidate metadata'')
         | Some c \<Rightarrow>
             if set (cs_families c) \<noteq> set required
             then Inl (Raised InvalidTransition ''required families do not match registered candidate metadata'')
             else promote_to_challenger states i reason (Some report) now))"

definition promote_to_champion :: "registry \<Rightarrow> string \<Rightarrow> num \<Rightarrow> int \<Rightarrow> int \<Rightarrow> string \<Rightarrow> paper_promotion_config
    \<Rightarrow> string \<Rightarrow> int \<Rightarrow> (registry \<times> candidate_state) result" where
  "promote_to_champion states i weeks trades violations human c reason now =
     (if \<not> pc_human_approval c
      then Inl (Raised InvalidTransition ''requires_human_approval is False in the protocol'')
      else if blank human
      then Inl (Raised InvalidTransition ''promote_to_champion requires a non-empty human_approved_by identifier'')
      else if num_lt weeks (Fin (of_int (pc_min_weeks c)))
      then Inl (Raised InvalidTransition ''too few paper weeks elapsed'')
      else if trades < pc_min_trades c
      then Inl (Raised InvalidTransition ''too few paper trades'')
      else if 0 < violations \<and> pc_no_violations c
      then Inl (Raised InvalidTransition ''risk limit violations during paper'')
      else promotion_transition states i PAPER_CHAMPION (Some [Some PAPER_CHALLENGER]) reason (Some human) now)"

definition retire_candidate :: "registry \<Rightarrow> string \<Rightarrow> string \<Rightarrow> int \<Rightarrow> (registry \<times> candidate_state) result" where
  "retire_candidate states i reason now =
     promotion_transition states i RETIRED
       (Some [Some PAPER_CHALLENGER, Some PAPER_CHAMPION, Some DEGRADED]) reason None now"

definition retirement_reason :: "int \<Rightarrow> string" where
  "retirement_reason n = ''auto-retired after '' @ show_int n @ '' consecutive degraded reviews''"

definition mark_degraded :: "registry \<Rightarrow> string \<Rightarrow> string \<Rightarrow> int \<Rightarrow> int \<Rightarrow> (registry \<times> candidate_state) result" where
  "mark_degraded states i reason threshold now =
     bindE (promotion_transition states i DEGRADED
              (Some [Some PAPER_CHALLENGER, Some PAPER_CHAMPION, Some DEGRADED]) reason None now) (\<lambda>(states', c).
       (let c' = c\<lparr>cs_degraded_reviews := cs_degraded_reviews c + 1\<rparr>;
            states'' = AList.update i c' states'
        in if threshold \<le> cs_degraded_reviews c'
           then retire_candidate states'' i (retirement_reason (cs_degraded_reviews c')) now
           else Inr (states'', c')))"

definition kill_paper :: "registry \<Rightarrow> string \<Rightarrow> string \<Rightarrow> int \<Rightarrow> (registry \<times> candidate_state) result" where
  "kill_paper states i reason now =
     promotion_transition states i RETIRED (Some [Some PAPER_CHALLENGER, Some PAPER_CHAMPION])
       (''AUTO_KILL: '' @ reason) None now"

datatype promotion_op =
    Register string string "confirmation_family list" int
  | Reject string string int
  | ToChallenger string string "independence_report option" int
  | MultiToChallenger string string independence_report "confirmation_family list" int
  | ToChampion string num int int string paper_promotion_config string int
  | MarkDegraded string string int int
  | Retire string string int
  | KillPaper string string int

definition registered :: "registry \<Rightarrow> (registry \<times> 'a) result \<Rightarrow> registry" where
  "registered states r = (case r of Inl _ \<Rightarrow> states | Inr (states', _) \<Rightarrow> states')"

fun promotion_op_result :: "registry \<Rightarrow> promotion_op \<Rightarrow> (registry \<times> candidate_state) result" where
  "promotion_op_result s (Register i w fs t) = register_research_candidate s i w fs t"
| "promotion_op_result s (Reject i w t) = reject_candidate s i w t"
| "promotion_op_result s (ToChallenger i w r t) = promote_to_challenger s i w r t"
| "promotion_op_result s (MultiToChallenger i w r fs t) = promote_multi_family_to_challenger s i w r fs t"
| "promotion_op_result s (ToChampion i wk tr v h c w t) = promote_to_champion s i wk tr v h c w t"
| "promotion_op_result s (MarkDegraded i w n t) = mark_degraded s i w n t"
| "promotion_op_result s (Retire i w t) = retire_candidate s i w t"
| "promotion_op_result s (KillPaper i w t) = kill_paper s i w t"

definition promotion_step :: "registry \<Rightarrow> promotion_op \<Rightarrow> registry" where
  "promotion_step s x = registered s (promotion_op_result s x)"

fun promotion_edge :: "promotion_status \<Rightarrow> promotion_status \<Rightarrow> bool" where
  "promotion_edge p REJECTED_STATUS = True"
| "promotion_edge p RESEARCH_CANDIDATE = True"
| "promotion_edge p PAPER_CHALLENGER = (p = RESEARCH_CANDIDATE)"
| "promotion_edge p PAPER_CHAMPION = (p = PAPER_CHALLENGER)"
| "promotion_edge p DEGRADED = (p \<in> {PAPER_CHALLENGER, PAPER_CHAMPION, DEGRADED})"
| "promotion_edge p RETIRED = (p \<in> {PAPER_CHALLENGER, PAPER_CHAMPION, DEGRADED})"

section \<open>The history of a candidate\<close>

definition event_ok :: "transition_event \<Rightarrow> bool" where
  "event_ok e \<longleftrightarrow>
     (case te_from e of
        None \<Rightarrow> te_to e \<in> {REJECTED_STATUS, RESEARCH_CANDIDATE}
      | Some p \<Rightarrow> promotion_edge p (te_to e)) \<and>
     (te_to e = PAPER_CHAMPION \<longrightarrow> (\<exists>h. te_human e = Some h \<and> \<not> blank h))"

fun linked_from :: "promotion_status option \<Rightarrow> transition_event list \<Rightarrow> bool" where
  "linked_from p [] = True"
| "linked_from p (e # es) = (te_from e = p \<and> event_ok e \<and> linked_from (Some (te_to e)) es)"

fun status_after :: "promotion_status option \<Rightarrow> transition_event list \<Rightarrow> promotion_status option" where
  "status_after p [] = p"
| "status_after p (e # es) = status_after (Some (te_to e)) es"

lemma linked_snoc: "linked_from p (es @ [e]) \<longleftrightarrow> linked_from p es \<and> te_from e = status_after p es \<and> event_ok e"
  by (induction es arbitrary: p) auto

lemma status_snoc: "status_after p (es @ [e]) = Some (te_to e)"
  by (induction es arbitrary: p) auto

definition degraded_count :: "transition_event list \<Rightarrow> int" where
  "degraded_count es = int (length (filter (\<lambda>e. te_to e = DEGRADED) es))"

definition cand_ok :: "int \<Rightarrow> candidate_state \<Rightarrow> bool" where
  "cand_ok n c \<longleftrightarrow>
     linked_from None (cs_history c) \<and> status_after None (cs_history c) = Some (cs_status c) \<and>
     cs_degraded_reviews c + n = degraded_count (cs_history c)"

definition registry_ok :: "registry \<Rightarrow> bool" where
  "registry_ok s \<longleftrightarrow> (\<forall>i c. map_of s i = Some c \<longrightarrow> cand_ok 0 c)"

lemma transition_ok:
  assumes ok: "registry_ok s" and t: "promotion_transition s i ns al w h now = Inr (s', c)"
    and edge: "\<And>p. (case al of None \<Rightarrow> True | Some l \<Rightarrow> Some p \<in> set l) \<Longrightarrow> promotion_edge p ns"
    and start: "(case al of None \<Rightarrow> True | Some l \<Rightarrow> None \<in> set l) \<Longrightarrow> ns \<in> {REJECTED_STATUS, RESEARCH_CANDIDATE}"
    and human: "ns = PAPER_CHAMPION \<Longrightarrow> \<exists>x. h = Some x \<and> \<not> blank x"
  shows "s' = AList.update i c s" "cs_status c = ns" "cand_ok (if ns = DEGRADED then 1 else 0) c"
    "case map_of s i of None \<Rightarrow> ns \<in> {REJECTED_STATUS, RESEARCH_CANDIDATE} | Some c0 \<Rightarrow> promotion_edge (cs_status c0) ns"
proof -
  let ?cur = "map_option cs_status (map_of s i)"
  let ?e = "\<lparr>te_from = ?cur, te_to = ns, te_reason = w, te_at = now, te_human = h\<rparr>"
  have al: "case al of None \<Rightarrow> True | Some l \<Rightarrow> ?cur \<in> set l"
    using t by (auto simp: promotion_transition_def Let_def split: option.splits if_splits)
  show e: "case map_of s i of None \<Rightarrow> ns \<in> {REJECTED_STATUS, RESEARCH_CANDIDATE} | Some c0 \<Rightarrow> promotion_edge (cs_status c0) ns"
    using al edge start by (cases "map_of s i"; cases al) auto
  then have ev: "event_ok ?e"
    using human by (auto simp: event_ok_def split: option.splits)
  have u: "s' = AList.update i c s \<and> cs_status c = ns \<and> cand_ok (if ns = DEGRADED then 1 else 0) c"
  proof (cases "map_of s i")
    case None
    with t ev show ?thesis
      by (auto simp: promotion_transition_def Let_def cand_ok_def degraded_count_def split: if_splits)
  next
    case (Some c0)
    then have c0: "cand_ok 0 c0" using ok by (simp add: registry_ok_def)
    from Some t have "s' = AList.update i c s" "c = c0\<lparr>cs_status := ns, cs_history := cs_history c0 @ [?e]\<rparr>"
      by (auto simp: promotion_transition_def Let_def split: if_splits)
    with c0 ev Some show ?thesis
      by (simp add: cand_ok_def linked_snoc status_snoc degraded_count_def)
  qed
  then show "s' = AList.update i c s" "cs_status c = ns" "cand_ok (if ns = DEGRADED then 1 else 0) c" by blast+
qed

text \<open>What every operation that returns has done: one candidate moved along an edge, soundly.\<close>

definition promoted :: "registry \<Rightarrow> registry \<Rightarrow> candidate_state \<Rightarrow> bool" where
  "promoted s s' c \<longleftrightarrow>
     (\<exists>i. map_of s' = (map_of s)(i \<mapsto> c) \<and> cand_ok 0 c \<and>
        (case map_of s i of
           None \<Rightarrow> cs_status c \<in> {REJECTED_STATUS, RESEARCH_CANDIDATE}
         | Some c0 \<Rightarrow> promotion_edge (cs_status c0) (cs_status c)))"

lemma promotedI:
  assumes "registry_ok s" "promotion_transition s i ns al w h now = Inr (s1, c)"
    and "\<And>p. (case al of None \<Rightarrow> True | Some l \<Rightarrow> Some p \<in> set l) \<Longrightarrow> promotion_edge p ns"
    and "(case al of None \<Rightarrow> True | Some l \<Rightarrow> None \<in> set l) \<Longrightarrow> ns \<in> {REJECTED_STATUS, RESEARCH_CANDIDATE}"
    and "ns = PAPER_CHAMPION \<Longrightarrow> \<exists>x. h = Some x \<and> \<not> blank x"
    and "map_of s' = (map_of s1)(i \<mapsto> c')" "cs_status c' = cs_status c" "cs_history c' = cs_history c"
    and "cs_degraded_reviews c' = cs_degraded_reviews c + (if ns = DEGRADED then 1 else 0)"
  shows "promoted s s' c'"
proof -
  note t = transition_ok [OF assms(1-5)]
  have "map_of s' = (map_of s)(i \<mapsto> c')" by (simp add: assms(6) t(1) update_conv')
  moreover have "cand_ok 0 c'" using t(3) by (simp add: cand_ok_def assms(7-9) split: if_splits)
  ultimately show ?thesis using t(2,4) unfolding promoted_def by (intro exI [of _ i]) (simp add: assms(7) split: option.splits)
qed

lemma mark_degraded_promoted:
  assumes ok: "registry_ok s" and r: "mark_degraded s i w n t = Inr (s', c)"
  shows "promoted s s' c"
proof -
  let ?al = "Some [Some PAPER_CHALLENGER, Some PAPER_CHAMPION, Some DEGRADED]"
  obtain s1 c1 where t1: "promotion_transition s i DEGRADED ?al w None t = Inr (s1, c1)"
    and k: "(if n \<le> cs_degraded_reviews (c1\<lparr>cs_degraded_reviews := cs_degraded_reviews c1 + 1\<rparr>)
        then retire_candidate (AList.update i (c1\<lparr>cs_degraded_reviews := cs_degraded_reviews c1 + 1\<rparr>) s1) i
               (retirement_reason (cs_degraded_reviews (c1\<lparr>cs_degraded_reviews := cs_degraded_reviews c1 + 1\<rparr>))) t
        else Inr (AList.update i (c1\<lparr>cs_degraded_reviews := cs_degraded_reviews c1 + 1\<rparr>) s1,
               c1\<lparr>cs_degraded_reviews := cs_degraded_reviews c1 + 1\<rparr>)) = Inr (s', c)"
    using r unfolding mark_degraded_def bindE_eq_Inr Let_def by auto
  let ?c = "c1\<lparr>cs_degraded_reviews := cs_degraded_reviews c1 + 1\<rparr>" and ?s = "AList.update i (c1\<lparr>cs_degraded_reviews := cs_degraded_reviews c1 + 1\<rparr>) s1"
  have p: "promoted s ?s ?c"
    by (rule promotedI [OF ok t1]) (auto simp: update_conv')
  show ?thesis
  proof (cases "n \<le> cs_degraded_reviews ?c")
    case False
    with k p show ?thesis by auto
  next
    case True
    have "cand_ok 0 ?c" using p unfolding promoted_def by blast
    moreover have m: "map_of ?s = (map_of s)(i \<mapsto> ?c)" "cs_status ?c = DEGRADED"
      using transition_ok(1,2) [OF ok t1] by (auto simp: update_conv')
    ultimately have ok1: "registry_ok ?s" using ok by (auto simp: registry_ok_def)
    from True k have t2: "promotion_transition ?s i RETIRED ?al (retirement_reason (cs_degraded_reviews ?c)) None t = Inr (s', c)"
      by (simp add: retire_candidate_def)
    note r2 = transition_ok [OF ok1 t2]
    have "map_of s' = (map_of s)(i \<mapsto> c)" "cand_ok 0 c" "cs_status c = RETIRED"
      using r2(1-3) transition_ok(1) [OF ok t1] by (auto simp: update_conv')
    moreover have "case map_of s i of None \<Rightarrow> False | Some c0 \<Rightarrow> promotion_edge (cs_status c0) RETIRED"
      using transition_ok(4) [OF ok t1] by (auto split: option.splits)
    ultimately show ?thesis unfolding promoted_def by (intro exI [of _ i]) (auto split: option.splits)
  qed
qed

lemma promotion_op_promoted:
  assumes ok: "registry_ok s" and r: "promotion_op_result s x = Inr (s', c)"
  shows "promoted s s' c"
proof (cases x)
  case (Register i w fs t)
  with r obtain s1 c1 where "promotion_transition s i RESEARCH_CANDIDATE None w None t = Inr (s1, c1)"
      "s' = AList.update i c s1" "c = c1\<lparr>cs_families := unique_families fs\<rparr>"
    by (auto simp: register_research_candidate_def bindE_eq_Inr Let_def split: if_splits)
  then show ?thesis by (intro promotedI [OF ok, of i RESEARCH_CANDIDATE None w None t s1 c1]) (simp_all add: update_conv')
next
  case (Reject i w t)
  with r have "promotion_transition s i REJECTED_STATUS None w None t = Inr (s', c)"
    by (simp add: reject_candidate_def)
  moreover from transition_ok(1) [OF ok this] have "s' = AList.update i c s" by simp
  ultimately show ?thesis
    by (intro promotedI [OF ok, of i REJECTED_STATUS None w None t s' c]) (simp_all add: update_conv')
next
  case (ToChallenger i w rep t)
  with r obtain s1 c1 where "promotion_transition s i PAPER_CHALLENGER (Some [Some RESEARCH_CANDIDATE]) w None t = Inr (s1, c1)"
      "s' = AList.update i c s1" "c = c1\<lparr>cs_paper_started := Some t\<rparr>"
    by (auto simp: promote_to_challenger_def bindE_eq_Inr Let_def split: if_splits option.splits)
  then show ?thesis
    by (intro promotedI [OF ok, of i PAPER_CHALLENGER "Some [Some RESEARCH_CANDIDATE]" w None t s1 c1])
      (simp_all add: update_conv')
next
  case (MultiToChallenger i w rep fs t)
  with r obtain s1 c1 where "promotion_transition s i PAPER_CHALLENGER (Some [Some RESEARCH_CANDIDATE]) w None t = Inr (s1, c1)"
      "s' = AList.update i c s1" "c = c1\<lparr>cs_paper_started := Some t\<rparr>"
    by (auto simp: promote_multi_family_to_challenger_def promote_to_challenger_def bindE_eq_Inr Let_def
        split: if_splits option.splits)
  then show ?thesis
    by (intro promotedI [OF ok, of i PAPER_CHALLENGER "Some [Some RESEARCH_CANDIDATE]" w None t s1 c1])
      (simp_all add: update_conv')
next
  case (ToChampion i wk tr v h cfg w t)
  with r have b: "\<not> blank h"
      "promotion_transition s i PAPER_CHAMPION (Some [Some PAPER_CHALLENGER]) w (Some h) t = Inr (s', c)"
    by (auto simp: promote_to_champion_def split: if_splits)
  moreover from transition_ok(1) [OF ok b(2)] b(1) have "s' = AList.update i c s" by simp
  ultimately show ?thesis
    by (intro promotedI [OF ok, of i PAPER_CHAMPION "Some [Some PAPER_CHALLENGER]" w "Some h" t s' c])
      (simp_all add: update_conv')
next
  case (Retire i w t)
  let ?al = "Some [Some PAPER_CHALLENGER, Some PAPER_CHAMPION, Some DEGRADED]"
  from Retire r have b: "promotion_transition s i RETIRED ?al w None t = Inr (s', c)"
    by (simp add: retire_candidate_def)
  moreover from transition_ok(1) [OF ok this] have "s' = AList.update i c s" by auto
  ultimately show ?thesis by (intro promotedI [OF ok, of i RETIRED ?al w None t s' c]) (auto simp: update_conv')
next
  case (KillPaper i w t)
  let ?al = "Some [Some PAPER_CHALLENGER, Some PAPER_CHAMPION]"
  from KillPaper r have b: "promotion_transition s i RETIRED ?al (''AUTO_KILL: '' @ w) None t = Inr (s', c)"
    by (simp add: kill_paper_def)
  moreover from transition_ok(1) [OF ok this] have "s' = AList.update i c s" by auto
  ultimately show ?thesis
    by (intro promotedI [OF ok, of i RETIRED ?al "''AUTO_KILL: '' @ w" None t s' c]) (auto simp: update_conv')
next
  case (MarkDegraded i w n t)
  with r have "mark_degraded s i w n t = Inr (s', c)" by simp
  then show ?thesis by (rule mark_degraded_promoted [OF ok])
qed

lemma promotion_step_cases:
  assumes "registry_ok s"
  obtains (same) "promotion_step s x = s" | (moved) c where "promoted s (promotion_step s x) c"
proof (cases "promotion_op_result s x")
  case (Inl e)
  then show thesis by (intro same) (simp add: promotion_step_def registered_def)
next
  case (Inr a)
  obtain s' c where a: "a = (s', c)" by (cases a)
  with Inr have "promoted s s' c" using promotion_op_promoted [OF assms] by simp
  then show thesis using Inr a by (intro moved) (simp add: promotion_step_def registered_def)
qed

lemma promotion_step_ok:
  assumes ok: "registry_ok s"
  shows "registry_ok (promotion_step s x)"
proof (rule promotion_step_cases [OF ok, of x])
  assume "promotion_step s x = s"
  with ok show ?thesis by simp
next
  fix c
  assume "promoted s (promotion_step s x) c"
  then obtain i where "map_of (promotion_step s x) = (map_of s)(i \<mapsto> c)" "cand_ok 0 c"
    unfolding promoted_def by blast
  with ok show ?thesis by (simp add: registry_ok_def)
qed

definition candidate_status :: "registry \<Rightarrow> string \<Rightarrow> promotion_status option" where
  "candidate_status s i = map_option cs_status (map_of s i)"

interpretation promotion_life:
  lifecycle promotion_step candidate_status promotion_edge "\<lambda>p. p \<in> {REJECTED_STATUS, RESEARCH_CANDIDATE}" registry_ok
proof unfold_locales
  fix s x i p q
  assume ok: "registry_ok s"
  show "registry_ok (promotion_step s x)" using ok by (rule promotion_step_ok)
  show "candidate_status s i = None \<Longrightarrow> candidate_status (promotion_step s x) i = Some q \<Longrightarrow>
      q \<in> {REJECTED_STATUS, RESEARCH_CANDIDATE}"
    by (cases rule: promotion_step_cases [OF ok, of x])
      (auto simp: promoted_def candidate_status_def split: option.splits if_splits)
  show "candidate_status s i = Some p \<Longrightarrow>
      \<exists>q. candidate_status (promotion_step s x) i = Some q \<and> (q = p \<or> promotion_edge p q)"
    by (cases rule: promotion_step_cases [OF ok, of x])
      (auto simp: promoted_def candidate_status_def split: option.splits if_splits)
qed

section \<open>Properties\<close>

lemma linked_last:
  "linked_from p es \<Longrightarrow> es \<noteq> [] \<Longrightarrow> event_ok (last es) \<and> status_after p es = Some (te_to (last es))"
  by (induction es arbitrary: p) auto

text \<open>
  The registry's history is sound for every sequence of operations: each candidate's events form
  an unbroken chain from its registration to its current status along the edges of the state
  machine, and a candidate is PAPER_CHAMPION only if its last event moved it there from
  PAPER_CHALLENGER with a non-blank human approval.
\<close>

theorem promotion_history_sound:
  assumes "map_of (foldl promotion_step [] ops) i = Some c"
  shows "linked_from None (cs_history c) \<and> status_after None (cs_history c) = Some (cs_status c) \<and>
    (cs_status c = PAPER_CHAMPION \<longrightarrow>
       te_from (last (cs_history c)) = Some PAPER_CHALLENGER \<and>
       (\<exists>h. te_human (last (cs_history c)) = Some h \<and> \<not> blank h))"
proof -
  have "registry_ok (foldl promotion_step [] ops)"
    by (rule promotion_life.run_inv) (simp add: registry_ok_def)
  then have c: "linked_from None (cs_history c)" "status_after None (cs_history c) = Some (cs_status c)"
    using assms by (simp_all add: registry_ok_def cand_ok_def)
  then have "cs_history c \<noteq> []" by (cases "cs_history c") auto
  from linked_last [OF c(1) this] c show ?thesis by (auto simp: event_ok_def split: option.splits)
qed

text \<open>
  The counter called \<open>consecutive_degraded_reviews\<close> counts every DEGRADED event of the
  candidate's whole history, not consecutive ones: nothing ever resets it.
\<close>

theorem promotion_degraded_counts_all:
  assumes "map_of (foldl promotion_step [] ops) i = Some c"
  shows "cs_degraded_reviews c = degraded_count (cs_history c)"
proof -
  have "registry_ok (foldl promotion_step [] ops)"
    by (rule promotion_life.run_inv) (simp add: registry_ok_def)
  with assms show ?thesis by (simp add: registry_ok_def cand_ok_def)
qed

section \<open>A concrete history\<close>

text \<open>Degraded, registered again, promoted again, degraded: retired at a threshold of two.\<close>

definition promotion_demo :: "promotion_op list" where
  "promotion_demo = [Register ''c'' ''r'' [OrderFlow] 1, ToChallenger ''c'' ''r'' None 2, MarkDegraded ''c'' ''r'' 2 3,
     Register ''c'' ''r'' [OrderFlow] 4, ToChallenger ''c'' ''r'' None 5, MarkDegraded ''c'' ''r'' 2 6]"

lemma promotion_demo_run:
  "map_option (\<lambda>c. (cs_status c, map te_to (cs_history c))) (map_of (foldl promotion_step [] promotion_demo) ''c'') =
     Some (RETIRED, [RESEARCH_CANDIDATE, PAPER_CHALLENGER, DEGRADED, RESEARCH_CANDIDATE, PAPER_CHALLENGER,
       DEGRADED, RETIRED])"
  by code_simp

lemma promotion_degraded_counts_all_witness:
  "\<exists>c. map_of (foldl promotion_step [] promotion_demo) ''c'' = Some c \<and> cs_status c = RETIRED \<and> cs_degraded_reviews c = 2"
proof -
  obtain c where c: "map_of (foldl promotion_step [] promotion_demo) ''c'' = Some c" "cs_status c = RETIRED"
    "map te_to (cs_history c) = [RESEARCH_CANDIDATE, PAPER_CHALLENGER, DEGRADED, RESEARCH_CANDIDATE, PAPER_CHALLENGER,
       DEGRADED, RETIRED]" using promotion_demo_run by auto
  have "degraded_count es = int (length (filter (\<lambda>p. p = DEGRADED) (map te_to es)))" for es
    by (simp add: degraded_count_def filter_map comp_def)
  with promotion_degraded_counts_all [OF c(1)] c show ?thesis by simp
qed

definition champion_demo :: "promotion_op list" where
  "champion_demo = [Register ''c'' ''r'' [OrderFlow] 1, ToChallenger ''c'' ''r'' None 2,
     ToChampion ''c'' (Fin 4) 50 0 ''me'' (shipped_paper\<lparr>pc_min_weeks := 4, pc_min_trades := 30\<rparr>) ''r'' 3]"

lemma champion_demo_run:
  "map_option cs_status (map_of (foldl promotion_step [] champion_demo) ''c'') = Some PAPER_CHAMPION"
  by code_simp

lemma promotion_history_sound_witness:
  "\<exists>c. map_of (foldl promotion_step [] champion_demo) ''c'' = Some c \<and> cs_status c = PAPER_CHAMPION \<and>
     te_from (last (cs_history c)) = Some PAPER_CHALLENGER"
proof -
  obtain c where c: "map_of (foldl promotion_step [] champion_demo) ''c'' = Some c" "cs_status c = PAPER_CHAMPION"
    using champion_demo_run by auto
  with promotion_history_sound [OF c(1)] show ?thesis by blast
qed

end
