(* ===== verification/Py_Time.thy ===== *)
theory Py_Time
  imports Py_Json
begin

text \<open>
  The texts of time stamps: \<open>datetime.isoformat\<close> of a UTC instant, \<open>date.isoformat\<close>, and
  \<open>fromisoformat\<close> of both, on the proleptic Gregorian calendar of Python's \<open>datetime\<close>. The
  durable stores write these texts and read them back. \<open>fromisoformat\<close> is modelled on the extended
  calendar format \<open>YYYY-MM-DD\<close>, one separator, \<open>HH:MM:SS\<close> with optional fraction and offset,
  which is what \<open>isoformat\<close> writes; the other ISO 8601 forms Python accepts (week dates,
  forms without separators or seconds) are outside the model and read as errors.
\<close>

section \<open>Fixed-width decimal fields\<close>

definition digit_char :: "nat \<Rightarrow> char" where
  "digit_char d = char_of (48 + d)"

primrec digits :: "nat \<Rightarrow> nat \<Rightarrow> string" where
  "digits 0 n = []"
| "digits (Suc k) n = digits k (n div 10) @ [digit_char (n mod 10)]"

definition eat_digits :: "nat \<Rightarrow> string \<Rightarrow> (nat \<times> string) option" where
  "eat_digits k s =
     (if k \<le> length s \<and> list_all is_digit (take k s)
      then Some (digits_val (take k s), drop k s) else None)"

definition eat :: "char \<Rightarrow> string \<Rightarrow> string option" where
  "eat c s = (case s of [] \<Rightarrow> None | x # xs \<Rightarrow> if x = c then Some xs else None)"

lemma digit_char_digit: "d < 10 \<Longrightarrow> is_digit (digit_char d) \<and> digit_val (digit_char d) = d"
  by (simp add: digit_char_def is_digit_def digit_val_def Let_def)

lemma length_digits [simp]: "length (digits k n) = k"
  by (induction k arbitrary: n) auto

lemma digits_all_digit: "list_all is_digit (digits k n)"
  by (induction k arbitrary: n) (simp_all add: digit_char_digit)

lemma digits_val_snoc: "digits_val (s @ [c]) = 10 * digits_val s + digit_val c"
  by (simp add: digits_val_def)

lemma digits_val_digits: "n < 10 ^ k \<Longrightarrow> digits_val (digits k n) = n"
proof (induction k arbitrary: n)
  case (Suc k)
  then have "n div 10 < 10 ^ k" by (simp add: less_mult_imp_div_less mult.commute)
  with Suc.IH show ?case by (simp add: digits_val_snoc digit_char_digit)
qed (simp add: digits_val_def)

lemma eat_digits_digits [simp]:
  "n < 10 ^ k \<Longrightarrow> eat_digits k (digits k n @ s) = Some (n, s)"
  by (simp add: eat_digits_def digits_all_digit digits_val_digits)

lemma eat_Cons [simp]: "eat c (x # s) = (if x = c then Some s else None)"
  by (simp add: eat_def)

section \<open>The calendar\<close>

definition leap_year :: "nat \<Rightarrow> bool" where
  "leap_year y \<longleftrightarrow> y mod 4 = 0 \<and> (y mod 100 \<noteq> 0 \<or> y mod 400 = 0)"

definition days_in_month :: "nat \<Rightarrow> nat \<Rightarrow> nat" where
  "days_in_month y m =
     (if m = 2 then if leap_year y then 29 else 28
      else if m \<in> {4, 6, 9, 11} then 30 else 31)"

text \<open>\<open>_days_before_year\<close> and \<open>_days_before_month\<close> of the \<open>datetime\<close> module.\<close>

definition days_before_year :: "nat \<Rightarrow> nat" where
  "days_before_year y = 365 * (y - 1) + (y - 1) div 4 - (y - 1) div 100 + (y - 1) div 400"

definition days_before_month :: "nat \<Rightarrow> nat \<Rightarrow> nat" where
  "days_before_month y m = sum_list (map (days_in_month y) [1..<m])"

definition date_ordinal :: "nat \<Rightarrow> nat \<Rightarrow> nat \<Rightarrow> nat" where
  "date_ordinal y m d = days_before_year y + days_before_month y m + d"

lemma days_before_year_Suc: "y \<le> days_before_year (Suc y)"
  by (simp add: days_before_year_def)

function year_from :: "nat \<Rightarrow> nat \<Rightarrow> nat" where
  "year_from y n = (if n \<le> days_before_year (Suc y) then y else year_from (Suc y) n)"
  by pat_completeness auto
termination
proof (relation "measure (\<lambda>(y, n). n - y)")
  fix y n
  assume "\<not> n \<le> days_before_year (Suc y)"
  with days_before_year_Suc [of y] have "y < n" by simp
  then show "((Suc y, n), y, n) \<in> measure (\<lambda>(y, n). n - y)" by simp
qed simp

lemma days_in_month_pos: "0 < days_in_month y m"
  by (simp add: days_in_month_def)

function month_from :: "nat \<Rightarrow> nat \<Rightarrow> nat \<Rightarrow> nat \<times> nat" where
  "month_from y m d =
     (if d \<le> days_in_month y m then (m, d) else month_from y (Suc m) (d - days_in_month y m))"
  by pat_completeness auto
termination
  by (relation "measure (\<lambda>(y, m, d). d)") (use days_in_month_pos in auto)

declare year_from.simps [simp del] month_from.simps [simp del]

text \<open>A year has at most 366 days, so the search may start at \<open>n div 366\<close>.\<close>

definition ordinal_date :: "nat \<Rightarrow> nat \<times> nat \<times> nat" where
  "ordinal_date n =
     (let y = year_from (Suc ((n - 1) div 366)) n; (m, d) = month_from y 1 (n - days_before_year y)
      in (y, m, d))"

lemma days_before_year_le: "days_before_year (Suc y) \<le> 366 * y"
proof -
  have "y div 4 - y div 100 + y div 400 \<le> y div 4 + y div 400" by simp
  also have "\<dots> \<le> y" by simp
  finally show ?thesis by (simp add: days_before_year_def)
qed

lemma year_from_bounds:
  "days_before_year y < n \<Longrightarrow>
   days_before_year (year_from y n) < n \<and> n \<le> days_before_year (Suc (year_from y n)) \<and> y \<le> year_from y n"
proof (induction y n rule: year_from.induct)
  case (1 y n)
  show ?case
  proof (cases "n \<le> days_before_year (Suc y)")
    case True
    with 1(2) show ?thesis by (simp add: year_from.simps [of y n])
  next
    case False
    with 1 have "days_before_year (year_from (Suc y) n) < n \<and>
        n \<le> days_before_year (Suc (year_from (Suc y) n)) \<and> Suc y \<le> year_from (Suc y) n" by simp
    with False show ?thesis by (simp add: year_from.simps [of y n])
  qed
qed

lemma days_before_month_Suc:
  "1 \<le> m \<Longrightarrow> days_before_month y (Suc m) = days_before_month y m + days_in_month y m"
  by (simp add: days_before_month_def)

lemma days_before_month_mono: "1 \<le> m \<Longrightarrow> m \<le> m' \<Longrightarrow> days_before_month y m \<le> days_before_month y m'"
proof (induction m' rule: nat_induct)
  case (Suc k)
  then show ?case by (cases "m = Suc k") (auto simp: days_before_month_Suc)
qed simp

lemma month_from_bounds:
  "1 \<le> m \<Longrightarrow> 1 \<le> d \<Longrightarrow>
   (case month_from y m d of (m', d') \<Rightarrow>
      days_before_month y m' + d' = days_before_month y m + d \<and> 1 \<le> d' \<and> d' \<le> days_in_month y m' \<and> m \<le> m')"
proof (induction y m d rule: month_from.induct)
  case (1 y m d)
  show ?case
  proof (cases "d \<le> days_in_month y m")
    case True
    with 1(2,3) show ?thesis by (simp add: month_from.simps [of y m d])
  next
    case False
    then have "1 \<le> d - days_in_month y m" by simp
    with 1(1) [OF False] 1(2) False show ?thesis
      by (auto simp: month_from.simps [of y m d] days_before_month_Suc split: prod.splits)
  qed
qed

lemma days_of_year:
  "days_before_month y 13 = (if leap_year y then 366 else 365)"
  by (simp add: days_before_month_def days_in_month_def upt_rec numeral_eq_Suc)

lemma leap_year_Suc: "leap_year (Suc y) \<longleftrightarrow> 4 dvd Suc y \<and> (\<not> 100 dvd Suc y \<or> 400 dvd Suc y)"
  by (simp add: leap_year_def dvd_eq_mod_eq_0)

lemma div_Suc_dvd: "Suc y div k = y div k + (if k dvd Suc y then 1 else 0)" if "0 < k" for y k :: nat
  using that by (simp add: div_Suc dvd_eq_mod_eq_0)

lemma year_length_arith:
  fixes y a b c :: nat
  assumes "b \<le> 365 * y + a" "Q \<Longrightarrow> P" "R \<Longrightarrow> Q"
  shows "365 * Suc y + (a + (if P then 1 else 0)) - (b + (if Q then 1 else 0)) + (c + (if R then 1 else 0)) =
    365 * y + a - b + c + (if P \<and> (\<not> Q \<or> R) then 366 else 365)"
  using assms by (cases P; cases Q; cases R) simp_all

lemma days_before_year_step:
  "days_before_year (Suc (Suc y)) = days_before_year (Suc y) + (if leap_year (Suc y) then 366 else 365)"
proof -
  have d: "Suc y div 4 = y div 4 + (if 4 dvd Suc y then 1 else 0)"
    "Suc y div 100 = y div 100 + (if 100 dvd Suc y then 1 else 0)"
    "Suc y div 400 = y div 400 + (if 400 dvd Suc y then 1 else 0)"
    by (rule div_Suc_dvd, simp)+
  have "4 dvd Suc y" if "100 dvd Suc y" using that by (rule dvd_trans [rotated]) simp
  moreover have "100 dvd Suc y" if "400 dvd Suc y" using that by (rule dvd_trans [rotated]) simp
  moreover have "y div 100 \<le> 365 * y + y div 4" by (rule trans_le_add2) (rule div_le_mono2, simp_all)
  ultimately show ?thesis
    unfolding days_before_year_def diff_Suc_1 leap_year_Suc d by (intro year_length_arith)
qed

text \<open>Every day from the first of year 1 on is the ordinal of its date, a valid one.\<close>

lemma ordinal_date_ordinal:
  assumes "1 \<le> n" "ordinal_date n = (y, m, d)"
  shows "date_ordinal y m d = n" "1 \<le> y" "1 \<le> m" "m \<le> 12" "1 \<le> d" "d \<le> days_in_month y m"
    "days_before_year y < n"
proof -
  let ?y0 = "Suc ((n - 1) div 366)"
  have "days_before_year ?y0 < n"
    using days_before_year_le [of "(n - 1) div 366"] assms(1) by (simp add: mult.commute) 
  note b = year_from_bounds [OF this]
  have y: "y = year_from ?y0 n" "month_from y 1 (n - days_before_year y) = (m, d)"
    using assms(2) by (auto simp: ordinal_date_def Let_def split: prod.splits)
  with b have y1: "1 \<le> y" "days_before_year y < n" "n \<le> days_before_year (Suc y)" by auto
  have mf: "days_before_month y m + d = n - days_before_year y" "1 \<le> d" "d \<le> days_in_month y m" "1 \<le> m"
    using month_from_bounds [of 1 "n - days_before_year y" y] y(2) y1 by (auto simp: days_before_month_def)
  then show "date_ordinal y m d = n" "1 \<le> d" "d \<le> days_in_month y m" "1 \<le> m" "1 \<le> y" "days_before_year y < n"
    using y1 by (simp_all add: date_ordinal_def)
  have "n \<le> days_before_year y + days_before_month y 13"
    using y1 days_before_year_step [of "y - 1"] by (simp add: days_of_year split: if_splits)
  with mf(1,2) y1 have "days_before_month y m < days_before_month y 13" by linarith
  then show "m \<le> 12" using days_before_month_mono [of 13 m y] by (cases "m \<le> 12") auto
qed

lemma days_before_year_mono: "1 \<le> y \<Longrightarrow> y \<le> y' \<Longrightarrow> days_before_year y \<le> days_before_year y'"
  using lift_Suc_mono_le [of "\<lambda>y. days_before_year (Suc y)" "y - 1" "y' - 1"]
  by (simp add: days_before_year_step)

section \<open>Texts of dates and instants\<close>

definition epoch_ordinal :: int where
  "epoch_ordinal = 719163"

text \<open>The days and instants Python can represent: the years 1 to 9999.\<close>

definition day_in_range :: "int \<Rightarrow> bool" where
  "day_in_range d \<longleftrightarrow> 1 \<le> d + epoch_ordinal \<and> d + epoch_ordinal \<le> 3652059"

definition instant_in_range :: "int \<Rightarrow> bool" where
  "instant_in_range t \<longleftrightarrow> day_in_range (utc_date t)"

definition date_isoformat :: "int \<Rightarrow> string" where
  "date_isoformat day =
     (case ordinal_date (nat (day + epoch_ordinal)) of (y, m, d) \<Rightarrow>
        digits 4 y @ ''-'' @ digits 2 m @ ''-'' @ digits 2 d)"

definition isoformat :: "int \<Rightarrow> string" where
  "isoformat t =
     (let us = t mod 86400000000; s = us div 1000000; f = us mod 1000000
      in date_isoformat (utc_date t) @ ''T'' @ digits 2 (nat (s div 3600)) @ '':'' @
         digits 2 (nat (s mod 3600 div 60)) @ '':'' @ digits 2 (nat (s mod 60)) @
         (if f = 0 then [] else ''.'' @ digits 6 (nat f)) @ ''+00:00'')"

definition eat_date :: "string \<Rightarrow> (int \<times> string) option" where
  "eat_date s0 =
     Option.bind (eat_digits 4 s0) (\<lambda>(y, s1).
     Option.bind (eat (CHR ''-'') s1) (\<lambda>s2.
     Option.bind (eat_digits 2 s2) (\<lambda>(m, s3).
     Option.bind (eat (CHR ''-'') s3) (\<lambda>s4.
     Option.bind (eat_digits 2 s4) (\<lambda>(d, s5).
       if 1 \<le> y \<and> 1 \<le> m \<and> m \<le> 12 \<and> 1 \<le> d \<and> d \<le> days_in_month y m
       then Some (int (date_ordinal y m d) - epoch_ordinal, s5) else None)))))"

definition eat_time :: "string \<Rightarrow> (int \<times> string) option" where
  "eat_time s0 =
     Option.bind (eat_digits 2 s0) (\<lambda>(h, s1).
     Option.bind (eat (CHR '':'') s1) (\<lambda>s2.
     Option.bind (eat_digits 2 s2) (\<lambda>(mi, s3).
     Option.bind (eat (CHR '':'') s3) (\<lambda>s4.
     Option.bind (eat_digits 2 s4) (\<lambda>(s, s5).
       if h < 24 \<and> mi < 60 \<and> s < 60 then Some (int (3600 * h + 60 * mi + s), s5) else None)))))"

definition eat_fraction :: "string \<Rightarrow> (int \<times> string) option" where
  "eat_fraction s =
     (case eat (CHR ''.'') s of
        None \<Rightarrow> Some (0, s)
      | Some r \<Rightarrow>
          (let ds = takeWhile is_digit r
           in if ds = [] then None
              else Some (int (digits_val (take 6 (ds @ replicate 6 (CHR ''0'')))), dropWhile is_digit r)))"

text \<open>The offset in minutes; \<open>Some None\<close> is a text without one.\<close>

definition eat_offset :: "string \<Rightarrow> int option option" where
  "eat_offset s =
     (case s of
        [] \<Rightarrow> Some None
      | c # s1 \<Rightarrow>
          if c \<noteq> CHR ''+'' \<and> c \<noteq> CHR ''-'' then None
          else
            Option.bind (eat_digits 2 s1) (\<lambda>(h, s2).
            Option.bind (eat (CHR '':'') s2) (\<lambda>s3.
            Option.bind (eat_digits 2 s3) (\<lambda>(mi, s4).
              if s4 = [] \<and> h < 24 \<and> mi < 60
              then Some (Some ((if c = CHR ''-'' then - 1 else 1) * int (60 * h + mi))) else None))))"

definition date_fromisoformat :: "string \<Rightarrow> int option" where
  "date_fromisoformat s =
     Option.bind (eat_date s) (\<lambda>(day, r). if r = [] then Some day else None)"

definition fromisoformat :: "string \<Rightarrow> pydatetime option" where
  "fromisoformat s0 =
     Option.bind (eat_date s0) (\<lambda>(day, s1).
     Option.bind (case s1 of [] \<Rightarrow> None | _ # s2 \<Rightarrow> Some s2) (\<lambda>s2.
     Option.bind (eat_time s2) (\<lambda>(secs, s3).
     Option.bind (eat_fraction s3) (\<lambda>(us, s4).
     Option.bind (eat_offset s4) (\<lambda>off.
       let local = day * 86400000000 + secs * 1000000 + us
       in Some (case off of None \<Rightarrow> Naive local | Some m \<Rightarrow> Aware (local - m * 60000000)))))))"

text \<open>\<open>value.replace("Z", "+00:00")\<close>, which the readers apply first.\<close>

definition replace_Z :: "string \<Rightarrow> string" where
  "replace_Z s = concat (map (\<lambda>c. if c = CHR ''Z'' then ''+00:00'' else [c]) s)"

definition parse_datetime :: "string \<Rightarrow> pydatetime option" where
  "parse_datetime s = fromisoformat (replace_Z s)"

section \<open>Round trips\<close>

lemma eat_date_isoformat:
  assumes "day_in_range day"
  shows "eat_date (date_isoformat day @ s) = Some (day, s)"
proof -
  obtain y m d where o: "ordinal_date (nat (day + epoch_ordinal)) = (y, m, d)" by (metis prod_cases3)
  have n: "1 \<le> nat (day + epoch_ordinal)" "nat (day + epoch_ordinal) \<le> 3652059"
    using assms unfolding day_in_range_def by linarith+
  note f = ordinal_date_ordinal [OF n(1) o]
  have "y < 10 ^ 4"
  proof (rule ccontr)
    assume "\<not> y < 10 ^ 4"
    with f(2) have "days_before_year 10000 \<le> days_before_year y" by (intro days_before_year_mono) simp_all
    moreover have "days_before_year 10000 = 3652059" by (simp add: days_before_year_def)
    ultimately show False using f(7) n(2) by linarith
  qed
  moreover have "m < 10 ^ 2" "d < 10 ^ 2"
    using f(4,6) by (simp_all add: days_in_month_def split: if_splits)
  moreover have "int (date_ordinal y m d) - epoch_ordinal = day"
    using assms f(1) by (simp add: day_in_range_def)
  ultimately show ?thesis
    using f by (simp add: date_isoformat_def o eat_date_def)
qed

lemma date_roundtrip [simp]: "day_in_range day \<Longrightarrow> date_fromisoformat (date_isoformat day) = Some day"
  using eat_date_isoformat [of day "[]"] by (simp add: date_fromisoformat_def)

lemma eat_fraction_digits:
  assumes "f < 10 ^ 6"
  shows "eat_fraction (''.'' @ digits 6 f @ ''+00:00'') = Some (int f, ''+00:00'')"
proof -
  have "takeWhile is_digit (digits 6 f @ ''+00:00'') = digits 6 f"
    using digits_all_digit [of 6 f] by (simp add: takeWhile_append list_all_iff is_digit_def)
  moreover have "dropWhile is_digit (digits 6 f @ ''+00:00'') = ''+00:00''"
    using digits_all_digit [of 6 f] by (simp add: dropWhile_append list_all_iff is_digit_def)
  moreover have "digits 6 f \<noteq> []" using length_digits [of 6 f] by force
  ultimately show ?thesis using assms by (simp add: eat_fraction_def Let_def digits_val_digits)
qed

lemma eat_offset_utc: "eat_offset ''+00:00'' = Some (Some 0)"
  by code_simp

lemma split_seconds: "0 \<le> (s :: int) \<Longrightarrow> 3600 * (s div 3600) + 60 * (s mod 3600 div 60) + s mod 60 = s"
proof -
  have "s = 3600 * (s div 3600) + s mod 3600" by simp
  moreover have "s mod 3600 = 60 * (s mod 3600 div 60) + s mod 3600 mod 60" by simp
  moreover have "s mod 3600 mod 60 = s mod 60" by (simp add: mod_mod_cancel)
  ultimately show ?thesis by linarith
qed

lemma eat_time_digits:
  assumes "0 \<le> s" "s < 86400"
  shows "eat_time (digits 2 (nat (s div 3600)) @ '':'' @ digits 2 (nat (s mod 3600 div 60)) @ '':'' @
    digits 2 (nat (s mod 60)) @ r) = Some (s, r)"
proof -
  define h mi se where "h = nat (s div 3600)" and "mi = nat (s mod 3600 div 60)" and "se = nat (s mod 60)"
  have f: "h < 24" "mi < 60" "se < 60" using assms by (simp_all add: h_def mi_def se_def)
  then have p: "h < 10 ^ 2" "mi < 10 ^ 2" "se < 10 ^ 2" by simp_all
  have "int (3600 * h + 60 * mi + se) = s"
    using split_seconds [OF assms(1)] assms(1)
    by (simp add: h_def mi_def se_def pos_imp_zdiv_nonneg_iff)
  then show ?thesis unfolding h_def [symmetric] mi_def [symmetric] se_def [symmetric]
    by (simp add: eat_time_def f eat_digits_digits [OF p(1)] eat_digits_digits [OF p(2)] eat_digits_digits [OF p(3)] del: eat_digits_digits)
qed

text \<open>Reading what was written gives the instant back.\<close>

lemma isoformat_roundtrip:
  assumes "instant_in_range t"
  shows "fromisoformat (isoformat t) = Some (Aware t)"
proof -
  let ?us = "t mod 86400000000"
  let ?s = "?us div 1000000" and ?f = "?us mod 1000000"
  have d: "eat_date (date_isoformat (utc_date t) @ s) = Some (utc_date t, s)" for s
    using assms by (intro eat_date_isoformat) (simp add: instant_in_range_def)
  have "?s < 86400" by simp
  then have e: "eat_time (digits 2 (nat (?s div 3600)) @ '':'' @ digits 2 (nat (?s mod 3600 div 60)) @ '':'' @
    digits 2 (nat (?s mod 60)) @ r) = Some (?s, r)" for r by (intro eat_time_digits) simp_all
  have f: "eat_fraction ((if ?f = 0 then [] else ''.'' @ digits 6 (nat ?f)) @ ''+00:00'') = Some (?f, ''+00:00'')"
  proof (cases "?f = 0")
    case True
    then show ?thesis by (simp add: eat_fraction_def)
  next
    case False
    moreover have "nat ?f < 10 ^ 6" by simp
    ultimately show ?thesis using eat_fraction_digits [of "nat ?f"] by simp
  qed
  have "t = utc_date t * 86400000000 + ?s * 1000000 + ?f" by (simp add: utc_date_def)
  then show ?thesis
    unfolding fromisoformat_def isoformat_def Let_def
    using e f by (simp add: d eat_offset_utc)
qed

lemma replace_Z_id: "CHR ''Z'' \<notin> set s \<Longrightarrow> replace_Z s = s"
  by (induction s) (auto simp: replace_Z_def)

lemma digits_no_Z: "CHR ''Z'' \<notin> set (digits k n)"
  using digits_all_digit [of k n] by (auto simp: list_all_iff is_digit_def)

lemma parse_isoformat [simp]: "instant_in_range t \<Longrightarrow> parse_datetime (isoformat t) = Some (Aware t)"
proof -
  have "CHR ''Z'' \<notin> set (date_isoformat (utc_date t))"
    by (cases "ordinal_date (nat (utc_date t + epoch_ordinal))") (simp add: date_isoformat_def digits_no_Z)
  then have "CHR ''Z'' \<notin> set (isoformat t)" by (simp add: isoformat_def Let_def digits_no_Z)
  then show "instant_in_range t \<Longrightarrow> ?thesis" by (simp add: parse_datetime_def replace_Z_id isoformat_roundtrip)
qed

section \<open>The order of the texts\<close>

text \<open>
  SQLite compares texts byte by byte; the stores rely on that order being the order of time.
\<close>

lemma less_append:
  fixes p q s r :: string
  assumes "length p = length q"
  shows "p @ s < q @ r \<longleftrightarrow> p < q \<or> (p = q \<and> s < r)"
  using assms by (induction p q rule: list_induct2) auto

lemma digit_char_less: "a < 10 \<Longrightarrow> b < 10 \<Longrightarrow> digit_char a < digit_char b \<longleftrightarrow> a < b"
  by (simp add: digit_char_def less_char_def)

lemma digit_char_inject: "a < 10 \<Longrightarrow> b < 10 \<Longrightarrow> digit_char a = digit_char b \<longleftrightarrow> a = b"
  by (metis digit_char_less less_irrefl nat_neq_iff)

lemma ten_fields: "a < 10 \<Longrightarrow> b < 10 \<Longrightarrow> (p < q \<or> (p = q \<and> a < b)) \<longleftrightarrow> 10 * p + a < 10 * q + b" for a b p q :: nat
  by auto

lemma digits_inject:
  assumes "m < 10 ^ k" "n < 10 ^ k"
  shows "digits k m = digits k n \<longleftrightarrow> m = n"
  using assms by (metis digits_val_digits)

lemma digits_less: "m < 10 ^ k \<Longrightarrow> n < 10 ^ k \<Longrightarrow> digits k m < digits k n \<longleftrightarrow> m < n"
proof (induction k arbitrary: m n)
  case (Suc k)
  have d: "m div 10 < 10 ^ k" "n div 10 < 10 ^ k"
    using Suc.prems by (simp_all add: less_mult_imp_div_less mult.commute)
  have "digits (Suc k) m < digits (Suc k) n \<longleftrightarrow> m div 10 < n div 10 \<or> (m div 10 = n div 10 \<and> m mod 10 < n mod 10)"
    using Suc.IH [OF d] by (simp add: less_append digits_inject [OF d] digit_char_less)
  also have "\<dots> \<longleftrightarrow> m < n"
    using ten_fields [of "m mod 10" "n mod 10" "m div 10" "n div 10"] by simp
  finally show ?case .
qed simp

text \<open>Fields of fixed width compare field by field.\<close>

lemma digits_append_less:
  "m < 10 ^ k \<Longrightarrow> n < 10 ^ k \<Longrightarrow> digits k m @ s < digits k n @ r \<longleftrightarrow> m < n \<or> (m = n \<and> s < r)"
  by (simp add: less_append digits_less digits_inject)

lemma days_before_month_bound: "1 \<le> m \<Longrightarrow> m \<le> 12 \<Longrightarrow> d \<le> days_in_month y m \<Longrightarrow> days_before_month y m + d \<le> days_before_month y 13"
  using days_before_month_mono [of "Suc m" 13 y] by (simp add: days_before_month_Suc)

lemma date_ordinal_mono:
  assumes "1 \<le> y" "1 \<le> m" "m \<le> 12" "1 \<le> d" "d \<le> days_in_month y m" "1 \<le> y'" "1 \<le> m'" "1 \<le> d'"
    "y < y' \<or> (y = y' \<and> (m < m' \<or> (m = m' \<and> d < d')))"
  shows "date_ordinal y m d < date_ordinal y' m' d'"
proof (cases "y < y'")
  case True
  have "days_before_month y m + d \<le> (if leap_year y then 366 else 365)"
    using days_before_month_bound [OF assms(2,3,5)] by (simp only: days_of_year)
  then have "date_ordinal y m d \<le> days_before_year (Suc y)"
    using days_before_year_step [of "y - 1"] assms(1) by (simp add: date_ordinal_def)
  also have "\<dots> \<le> days_before_year y'" using True by (intro days_before_year_mono) simp_all
  also have "\<dots> < date_ordinal y' m' d'" using assms(8) by (simp add: date_ordinal_def)
  finally show ?thesis .
next
  case False
  with assms(9) have y: "y' = y" and md: "m < m' \<or> (m = m' \<and> d < d')" by auto
  show ?thesis
  proof (cases "m < m'")
    case True
    have "days_before_month y m + d \<le> days_before_month y (Suc m)" using assms(2,5) by (simp add: days_before_month_Suc)
    also have "\<dots> \<le> days_before_month y m'" using True by (intro days_before_month_mono) simp_all
    finally show ?thesis using assms(8) by (simp add: date_ordinal_def y)
  next
    case False
    with md show ?thesis by (simp add: date_ordinal_def y)
  qed
qed

lemma date_isoformat_less:
  assumes "day_in_range a" "day_in_range b" "a < b"
  shows "date_isoformat a < date_isoformat b" "length (date_isoformat a) = length (date_isoformat b)"
proof -
  obtain y m d where o: "ordinal_date (nat (a + epoch_ordinal)) = (y, m, d)" by (metis prod.exhaust)
  obtain y' m' d' where o': "ordinal_date (nat (b + epoch_ordinal)) = (y', m', d')" by (metis prod.exhaust)
  have n: "1 \<le> nat (a + epoch_ordinal)" "1 \<le> nat (b + epoch_ordinal)" "nat (a + epoch_ordinal) < nat (b + epoch_ordinal)"
    "nat (a + epoch_ordinal) \<le> 3652059" "nat (b + epoch_ordinal) \<le> 3652059"
    using assms by (simp_all add: day_in_range_def)
  note p = ordinal_date_ordinal [OF n(1) o] and p' = ordinal_date_ordinal [OF n(2) o']
  have bound: "x < 10 ^ 4" if "days_before_year x < 3652059" for x
  proof (rule ccontr)
    assume "\<not> x < 10 ^ 4"
    then have "days_before_year 10000 \<le> days_before_year x" by (intro days_before_year_mono) simp_all
    moreover have "days_before_year 10000 = 3652059" by (simp add: days_before_year_def)
    ultimately show False using that by linarith
  qed
  have y: "y < 10 ^ 4" "y' < 10 ^ 4" using bound p(7) p'(7) n(4,5) by simp_all
  have small: "days_in_month x z \<le> 31" for x z by (simp add: days_in_month_def)
  have md: "m < 10 ^ 2" "m' < 10 ^ 2" "d < 10 ^ 2" "d' < 10 ^ 2"
    using p(4,6) p'(4,6) small [of y m] small [of y' m'] by simp_all
  have "y < y' \<or> (y = y' \<and> (m < m' \<or> (m = m' \<and> d < d')))"
  proof (rule ccontr)
    assume "\<not> ?thesis"
    then have "y' < y \<or> (y' = y \<and> (m' < m \<or> (m' = m \<and> d' < d))) \<or> (y' = y \<and> m' = m \<and> d' = d)" by auto
    then show False
      using date_ordinal_mono [OF p'(2-6) p(2,3,5)] p(1) p'(1) n(3) by auto
  qed
  with y md show "date_isoformat a < date_isoformat b"
    by (simp add: date_isoformat_def o o' digits_append_less digits_less)
  show "length (date_isoformat a) = length (date_isoformat b)" by (simp add: date_isoformat_def o o')
qed

lemma date_isoformat_inject: "day_in_range a \<Longrightarrow> day_in_range b \<Longrightarrow> date_isoformat a = date_isoformat b \<longleftrightarrow> a = b"
  by (metis date_roundtrip option.inject)

lemma length_date_isoformat: "day_in_range a \<Longrightarrow> day_in_range b \<Longrightarrow> length (date_isoformat a) = length (date_isoformat b)"
  using date_isoformat_less(2) [of a b] date_isoformat_less(2) [of b a] by (metis linorder_neqE)

lemma fields_less:
  fixes h m s :: int
  assumes "m < 60" "0 \<le> m'" "s < 60" "0 \<le> s'" "0 \<le> m" "m' < 60" "0 \<le> s" "s' < 60"
    "3600 * h + 60 * m + s < 3600 * h' + 60 * m' + s'"
  shows "h < h' \<or> (h = h' \<and> (m < m' \<or> (m = m' \<and> s < s')))"
proof -
  have "h \<le> h'"
  proof (rule ccontr)
    assume "\<not> h \<le> h'"
    then have "h' + 1 \<le> h" by simp
    with assms show False by linarith
  qed
  moreover have "m \<le> m'" if "h = h'"
  proof (rule ccontr)
    assume "\<not> m \<le> m'"
    then have "m' + 1 \<le> m" by simp
    with assms that show False by linarith
  qed
  moreover have "s < s'" if "h = h'" "m = m'" using assms(9) that by linarith
  ultimately show ?thesis by (cases "h = h'"; cases "m = m'") simp_all
qed

lemma clock_fields_less:
  fixes u v :: int
  assumes "0 \<le> u" "0 \<le> v" "u < v"
  defines "s \<equiv> u div 1000000" and "r \<equiv> v div 1000000"
  shows "s div 3600 < r div 3600 \<or> (s div 3600 = r div 3600 \<and> (s mod 3600 div 60 < r mod 3600 div 60 \<or>
    (s mod 3600 div 60 = r mod 3600 div 60 \<and> (s mod 60 < r mod 60 \<or>
      (s mod 60 = r mod 60 \<and> u mod 1000000 < v mod 1000000)))))"
proof -
  have pos: "0 \<le> s" "0 \<le> r" using assms(1,2) by (simp_all add: s_def r_def pos_imp_zdiv_nonneg_iff)
  have le: "s \<le> r" using assms by (simp add: zdiv_mono1)
  have b: "x mod 3600 div 60 < 60" "0 \<le> x mod 3600 div 60" "x mod 60 < 60" "0 \<le> x mod 60" for x :: int
    by (simp_all add: pos_imp_zdiv_nonneg_iff)
  show ?thesis
  proof (cases "s = r")
    case True
    have "u = 1000000 * s + u mod 1000000" "v = 1000000 * r + v mod 1000000" by (simp_all add: s_def r_def)
    with True assms(3) have "u mod 1000000 < v mod 1000000" by linarith
    with True show ?thesis by simp
  next
    case False
    with le have "s < r" by simp
    then have "3600 * (s div 3600) + 60 * (s mod 3600 div 60) + s mod 60 < 3600 * (r div 3600) + 60 * (r mod 3600 div 60) + r mod 60"
      by (simp only: split_seconds [OF pos(1)] split_seconds [OF pos(2)])
    from fields_less [OF b(1) b(2) b(3) b(4) b(2) b(1) b(4) b(3) this] show ?thesis by blast
  qed
qed

text \<open>The clock part of a text, and its order.\<close>

definition fraction_text :: "nat \<Rightarrow> string" where
  "fraction_text f = (if f = 0 then [] else ''.'' @ digits 6 f) @ ''+00:00''"

definition clock_text :: "nat \<Rightarrow> nat \<Rightarrow> nat \<Rightarrow> nat \<Rightarrow> string" where
  "clock_text h m s f = digits 2 h @ '':'' @ digits 2 m @ '':'' @ digits 2 s @ fraction_text f"

lemma isoformat_clock:
  "isoformat t = date_isoformat (utc_date t) @ ''T'' @
     clock_text (nat (t mod 86400000000 div 1000000 div 3600)) (nat (t mod 86400000000 div 1000000 mod 3600 div 60))
       (nat (t mod 86400000000 div 1000000 mod 60)) (nat (t mod 86400000000 mod 1000000))"
proof -
  have "0 \<le> t mod 86400000000 mod 1000000" by simp
  then have "nat (t mod 86400000000 mod 1000000) = 0 \<longleftrightarrow> t mod 86400000000 mod 1000000 = 0" by linarith
  then show ?thesis unfolding isoformat_def clock_text_def fraction_text_def Let_def by simp
qed

lemma fraction_text_less:
  assumes "f < g" "g < 10 ^ 6"
  shows "fraction_text f < fraction_text g"
proof -
  have f: "f < 10 ^ 6" using assms by linarith
  have "CHR ''+'' < CHR ''.''" by (simp add: less_char_def)
  then show ?thesis
    unfolding fraction_text_def using assms(1) digits_append_less [OF f assms(2), of "''+00:00''" "''+00:00''"] by simp
qed

lemma clock_text_less:
  assumes "h < 100" "m < 100" "s < 100" "h' < 100" "m' < 100" "s' < 100" "g < 10 ^ 6"
    "h < h' \<or> (h = h' \<and> (m < m' \<or> (m = m' \<and> (s < s' \<or> (s = s' \<and> f < g)))))"
  shows "clock_text h m s f < clock_text h' m' s' g"
proof -
  have small: "x < 100 \<Longrightarrow> x < 10 ^ 2" for x :: nat by simp
  note d = digits_append_less [OF small small]
  have c: "'':'' @ x < '':'' @ y \<longleftrightarrow> x < y" for x y :: string by simp
  have t: "s = s' \<and> f < g \<Longrightarrow> fraction_text f < fraction_text g" using fraction_text_less assms(7) by blast
  show ?thesis
    unfolding clock_text_def d [OF assms(1,4)] c d [OF assms(2,5)] d [OF assms(3,6)] using assms(8) t by blast
qed

text \<open>The texts of two instants compare as the instants do, with and without a fraction.\<close>

lemma isoformat_less:
  assumes "instant_in_range a" "instant_in_range b" "a < b"
  shows "isoformat a < isoformat b"
proof -
  define u v where "u = a mod 86400000000" and "v = b mod 86400000000"
  have day: "day_in_range (utc_date a)" "day_in_range (utc_date b)" using assms by (simp_all add: instant_in_range_def)
  have uv: "0 \<le> u" "u < 86400000000" "0 \<le> v" "v < 86400000000" by (simp_all add: u_def v_def)
  have le: "utc_date a \<le> utc_date b" using assms(3) by (intro utc_date_mono) simp
  show ?thesis
  proof (cases "utc_date a = utc_date b")
    case True
    have "a = 86400000000 * utc_date a + u" "b = 86400000000 * utc_date b + v" by (simp_all add: u_def v_def utc_date_def)
    with True assms(3) have "u < v" by linarith
    note f = clock_fields_less [OF uv(1,3) this]
    have hour: "nat (w div 1000000 div 3600) < 100" if "w < 86400000000" for w :: int
    proof -
      have "w div 1000000 div 3600 \<le> 86399999999 div 1000000 div 3600" using that by (intro zdiv_mono1) simp_all
      then show ?thesis by simp
    qed
    have rest: "nat (w div 1000000 mod 3600 div 60) < 100" "nat (w div 1000000 mod 60) < 100" "nat (w mod 1000000) < 10 ^ 6" for w :: int
    proof -
      have "w div 1000000 mod 3600 div 60 < 60" "w div 1000000 mod 60 < 60" "w mod 1000000 < 1000000" by simp_all
      then show "nat (w div 1000000 mod 3600 div 60) < 100" "nat (w div 1000000 mod 60) < 100" "nat (w mod 1000000) < 10 ^ 6"
        by simp_all
    qed
    have nn: "0 \<le> w div 1000000 div 3600" "0 \<le> w div 1000000 mod 3600 div 60" "0 \<le> w div 1000000 mod 60" "0 \<le> w mod 1000000"
      if "0 \<le> w" for w :: int using that by (simp_all add: pos_imp_zdiv_nonneg_iff)
    note to_nat = nat_less_eq_zless eq_nat_nat_iff
    have "clock_text (nat (u div 1000000 div 3600)) (nat (u div 1000000 mod 3600 div 60)) (nat (u div 1000000 mod 60)) (nat (u mod 1000000)) <
        clock_text (nat (v div 1000000 div 3600)) (nat (v div 1000000 mod 3600 div 60)) (nat (v div 1000000 mod 60)) (nat (v mod 1000000))"
      by (rule clock_text_less [OF hour [OF uv(2)] rest(1,2) hour [OF uv(4)] rest])
        (use f in \<open>simp only: to_nat nn [OF uv(1)] nn [OF uv(3)]\<close>)
    then show ?thesis unfolding isoformat_clock u_def v_def True by (simp add: less_append)
  next
    case False
    with le have "date_isoformat (utc_date a) < date_isoformat (utc_date b)" using date_isoformat_less(1) [OF day] by simp
    then show ?thesis unfolding isoformat_clock by (simp add: less_append [OF length_date_isoformat [OF day]])
  qed
qed

end
