(* ===== verification/Canonical_Json.thy ===== *)
theory Canonical_Json
  imports Py_Time
begin

text \<open>
  What the checksummed stores share: the canonical form of a JSON value
  (\<open>json.dumps(..., sort_keys=True)\<close>), the comparison of checksums and the readers of string
  fields. SHA-256 itself is an argument of the stores, a function from canonical values to texts.
\<close>

section \<open>Sorted keys\<close>

fun canonical :: "json \<Rightarrow> json" where
  "canonical (JList xs) = JList (map canonical xs)"
| "canonical (JObj d) = JObj (sort_key fst (map (\<lambda>p. (fst p, canonical (snd p))) d))"
| "canonical v = v"

lemma map_of_filter_key: "map_of (filter (\<lambda>p. fst p = k) d) k = map_of d k"
  by (induction d) auto

lemma map_of_sort: "map_of (sort_key fst d) k = map_of d k"
  using map_of_filter_key [of k "sort_key fst d"] map_of_filter_key [of k d] by (simp add: sort_key_stable)

lemma map_of_canonical:
  "map_of (sort_key fst (map (\<lambda>p. (fst p, canonical (snd p))) d)) k = map_option canonical (map_of d k)"
proof -
  have "map_of (map (\<lambda>p. (fst p, canonical (snd p))) d) k = map_option canonical (map_of d k)"
    by (induction d) auto
  then show ?thesis by (simp add: map_of_sort)
qed

lemma sort_key_map_snd:
  "sort_key fst (map (\<lambda>p. (fst p, f (snd p))) d) = map (\<lambda>p. (fst p, f (snd p))) (sort_key fst d)"
proof (induction d)
  case (Cons p d)
  have "insort_key fst (fst p, f (snd p)) (map (\<lambda>p. (fst p, f (snd p))) xs) =
      map (\<lambda>p. (fst p, f (snd p))) (insort_key fst p xs)" for xs
    by (induction xs) auto
  with Cons show ?case by simp
qed simp

lemma sort_key_idem: "sort_key f (sort_key f xs) = sort_key f xs"
  by (simp add: sort_key_id_if_sorted)

lemma canonical_idem [simp]: "canonical (canonical v) = canonical v"
proof (induction v rule: canonical.induct)
  case (2 d)
  have m: "map (\<lambda>p. (fst p, canonical (canonical (snd p)))) d = map (\<lambda>p. (fst p, canonical (snd p))) d"
    using 2 by (intro map_cong) (auto simp: prod_eq_iff)
  have "canonical (canonical (JObj d)) =
      JObj (sort_key fst (sort_key fst (map (\<lambda>p. (fst p, canonical (canonical (snd p)))) d)))"
    by (simp add: sort_key_map_snd [symmetric] comp_def)
  then show ?case by (simp only: m sort_key_idem canonical.simps)
qed auto

definition without_key :: "string \<Rightarrow> (string, json) dict \<Rightarrow> (string, json) dict" where
  "without_key k d = filter (\<lambda>p. fst p \<noteq> k) d"

definition json_entries :: "json \<Rightarrow> (string, json) dict" where
  "json_entries v = (case v of JObj d \<Rightarrow> d | _ \<Rightarrow> [])"

section \<open>Fields\<close>

text \<open>\<open>d[name]\<close> raises \<open>KeyError\<close>; a value of another type is a \<open>TypeError\<close>.\<close>

definition key_of :: "(string, json) dict \<Rightarrow> string \<Rightarrow> json result" where
  "key_of d name = (case map_of d name of None \<Rightarrow> Inl (KeyError name) | Some v \<Rightarrow> Inr v)"

definition type_error :: "string \<Rightarrow> exn" where
  "type_error msg = OtherError (''TypeError: '' @ msg)"

definition object_of :: "string \<Rightarrow> json \<Rightarrow> (string, json) dict result" where
  "object_of msg v = (case v of JObj d \<Rightarrow> Inr d | _ \<Rightarrow> Inl (type_error msg))"

definition string_field :: "(string, json) dict \<Rightarrow> string \<Rightarrow> string result" where
  "string_field d name =
     bindE (key_of d name) (\<lambda>v. case v of JStr s \<Rightarrow> Inr s | _ \<Rightarrow> Inl (type_error ''must be a string''))"

definition optional_string_field :: "(string, json) dict \<Rightarrow> string \<Rightarrow> string option result" where
  "optional_string_field d name =
     bindE (key_of d name) (\<lambda>v. case v of
       JStr s \<Rightarrow> Inr (Some s) | JNull \<Rightarrow> Inr None | _ \<Rightarrow> Inl (type_error ''must be a string or null''))"

definition optional_text :: "string option \<Rightarrow> json" where
  "optional_text t = (case t of None \<Rightarrow> JNull | Some s \<Rightarrow> JStr s)"

definition list_of :: "json \<Rightarrow> json list result" where
  "list_of v = (case v of JList xs \<Rightarrow> Inr xs | _ \<Rightarrow> Inl (type_error ''must be a list''))"

definition str_of :: "json \<Rightarrow> string result" where
  "str_of v = (case v of JStr s \<Rightarrow> Inr s | _ \<Rightarrow> Inl (type_error ''must be a string list''))"

definition string_tuple_field :: "(string, json) dict \<Rightarrow> string \<Rightarrow> string list result" where
  "string_tuple_field d name = bindE (bindE (key_of d name) list_of) (mapE str_of)"

definition datetime_of_text :: "string \<Rightarrow> pydatetime result" where
  "datetime_of_text s =
     (case parse_datetime s of None \<Rightarrow> Inl (ValueError ''Invalid isoformat string'') | Some t \<Rightarrow> Inr t)"

lemma bindE_map_sum: "bindE (map_sum id f r) k = bindE r (\<lambda>a. k (f a))"
  by (cases r) simp_all

text \<open>A reader does not see whether the keys were sorted.\<close>

definition sorted_entries :: "(string, json) dict \<Rightarrow> (string, json) dict" where
  "sorted_entries d = sort_key fst (map (\<lambda>p. (fst p, canonical (snd p))) d)"

lemma canonical_JObj: "canonical (JObj d) = JObj (sorted_entries d)"
  by (simp add: sorted_entries_def)

declare canonical.simps(2) [simp del] canonical_JObj [simp]

lemma map_of_sorted_entries: "map_of (sorted_entries d) k = map_option canonical (map_of d k)"
  by (simp add: sorted_entries_def map_of_canonical)

lemma without_key_sorted: "without_key k (sorted_entries d) = sorted_entries (without_key k d)"
  by (simp add: without_key_def sorted_entries_def filter_sort filter_map comp_def)

lemma sorted_entries_idem [simp]: "sorted_entries (sorted_entries d) = sorted_entries d"
  using canonical_idem [of "JObj d"] by (simp only: canonical_JObj json.inject)

lemma map_of_without [simp]: "map_of (without_key k d) k' = (if k' = k then None else map_of d k')"
  by (induction d) (auto simp: without_key_def)

lemma jget_sorted: "jget (sorted_entries d) name = canonical (jget d name)"
  by (simp add: jget_def map_of_sorted_entries split: option.split)

lemma key_of_sorted: "key_of (sorted_entries d) name = map_sum id canonical (key_of d name)"
  by (simp add: key_of_def map_of_sorted_entries split: option.split)

lemma canonical_cases [simp]:
  "canonical v = JStr s \<longleftrightarrow> v = JStr s" "canonical v = JNull \<longleftrightarrow> v = JNull"
  "canonical v = JInt i \<longleftrightarrow> v = JInt i" "canonical v = JFloat f \<longleftrightarrow> v = JFloat f"
  "canonical v = JBool b \<longleftrightarrow> v = JBool b"
  by (cases v; simp)+

lemma string_field_sorted [simp]: "string_field (sorted_entries d) name = string_field d name"
  by (cases "key_of d name") (auto simp: string_field_def key_of_sorted split: json.split)

lemma optional_string_field_sorted [simp]:
  "optional_string_field (sorted_entries d) name = optional_string_field d name"
  by (cases "key_of d name") (auto simp: optional_string_field_def key_of_sorted split: json.split)

lemma str_of_canonical [simp]: "str_of (canonical v) = str_of v"
  by (cases v) (simp_all add: str_of_def)

lemma mapE_str_canonical [simp]: "mapE str_of (map canonical xs) = mapE str_of xs"
  by (induction xs) simp_all

lemma string_tuple_field_sorted [simp]: "string_tuple_field (sorted_entries d) name = string_tuple_field d name"
proof (cases "key_of d name")
  case (Inr v)
  then show ?thesis by (cases v) (simp_all add: string_tuple_field_def key_of_sorted list_of_def)
qed (simp add: string_tuple_field_def key_of_sorted)

section \<open>Checksums\<close>

text \<open>\<open>hmac.compare_digest\<close> of two texts refuses characters beyond ASCII.\<close>

definition ascii :: "string \<Rightarrow> bool" where
  "ascii s = list_all (\<lambda>c. (of_char c :: nat) < 128) s"

definition compare_digest :: "string \<Rightarrow> string \<Rightarrow> bool result" where
  "compare_digest a b =
     (if ascii a \<and> ascii b then Inr (a = b) else Inl (type_error ''comparing strings with non-ASCII characters''))"

text \<open>
  What the code relies on of SHA-256: the hexadecimal digest has 64 ASCII characters, and no two
  canonical values it meets have the same digest.
\<close>

definition hex_digest :: "(json \<Rightarrow> string) \<Rightarrow> bool" where
  "hex_digest sha \<longleftrightarrow> (\<forall>v. length (sha v) = 64 \<and> ascii (sha v))"

definition collision_free :: "(json \<Rightarrow> string) \<Rightarrow> json set \<Rightarrow> bool" where
  "collision_free sha vs \<longleftrightarrow> inj_on sha vs"

definition digest_of :: "(json \<Rightarrow> string) \<Rightarrow> json \<Rightarrow> string" where
  "digest_of sha v = sha (canonical v)"

text \<open>
  \<open>except (KeyError, TypeError, ValueError) as exc: raise C(...) from exc\<close>: every other exception, an
  \<open>OverflowError\<close> among them, passes through.
\<close>

definition caught :: "exn \<Rightarrow> bool" where
  "caught x \<longleftrightarrow>
     (case x of
        ValueError _ \<Rightarrow> True
      | KeyError _ \<Rightarrow> True
      | OtherError m \<Rightarrow> take 11 m = ''TypeError: ''
      | Raised _ _ \<Rightarrow> False)"

definition wrap_error :: "exn \<Rightarrow> 'a result \<Rightarrow> 'a result" where
  "wrap_error e r = (case r of Inl x \<Rightarrow> Inl (if caught x then e else x) | Inr a \<Rightarrow> Inr a)"

definition overflow_error :: exn where
  "overflow_error = OtherError ''OverflowError''"

text \<open>\<open>value.astimezone(UTC)\<close> of an aware time: the year in UTC has to be one of 1 to 9999.\<close>

definition to_utc :: "string \<Rightarrow> pydatetime \<Rightarrow> int result" where
  "to_utc msg t = bindE (utc_of msg t) (\<lambda>u. if instant_in_range u then Inr u else Inl overflow_error)"

lemma caught_simps [simp]:
  "caught (ValueError m)" "caught (KeyError k)" "caught (type_error m)" "\<not> caught overflow_error"
  by (simp_all add: caught_def type_error_def overflow_error_def)

lemma wrap_error_Inr [simp]: "wrap_error e (Inr a) = Inr a"
  by (simp add: wrap_error_def)

lemma wrap_error_eq:
  "wrap_error e r = Inr a \<longleftrightarrow> r = Inr a"
  "wrap_error e r = Inl x \<longleftrightarrow> (\<exists>y. r = Inl y \<and> x = (if caught y then e else y))"
  by (cases r; auto simp: wrap_error_def)+

lemma to_utc_eq: "to_utc msg t = Inr u \<longleftrightarrow> t = Aware u \<and> instant_in_range u"
  by (cases t) (auto simp: to_utc_def utc_of_def)

lemma to_utc_Aware [simp]: "instant_in_range u \<Longrightarrow> to_utc msg (Aware u) = Inr u"
  by (simp add: to_utc_eq)

lemma object_of_eq: "object_of msg v = Inr d \<longleftrightarrow> v = JObj d"
  by (cases v) (simp_all add: object_of_def)

lemma key_of_eq: "key_of d name = Inr v \<longleftrightarrow> map_of d name = Some v"
  by (simp add: key_of_def split: option.split)

lemma compare_digest_eq: "compare_digest a b = Inr x \<longleftrightarrow> ascii a \<and> ascii b \<and> x = (a = b)"
  by (auto simp: compare_digest_def)

lemma canonical_optional_text [simp]: "canonical (optional_text t) = optional_text t"
  by (cases t) (simp_all add: optional_text_def)

lemma optional_text_inject [simp]: "optional_text a = optional_text b \<longleftrightarrow> a = b"
  by (cases a; cases b) (simp_all add: optional_text_def)

end
