(* ===== verification/Risk_State_Store.thy ===== *)
theory Risk_State_Store
  imports Canonical_Json Portfolio_Risk
begin

text \<open>
  Model of \<open>src/risk/portfolio_state_store.py\<close>: the checksummed file of the portfolio risk
  state. The file is what reading and \<open>json.loads\<close> make of it, the texts on which they raise included;
  the temporary file, the \<open>fsync\<close> and the atomic replacement are the step from one content to the
  next. A float is written and read back exactly, and an integer that fits a float converts exactly.
\<close>

section \<open>The file\<close>

text \<open>
  A file that is not UTF-8, that is no JSON, that has an integer of more than 4300 digits, that nests
  deeper than the recursion limit, or that \<open>json.loads\<close> reads.
\<close>

datatype state_file = NoFile | Undecodable | NotJson | LongInteger | TooDeep | Written json

definition risk_schema_version :: int where
  "risk_schema_version = 1"

definition risk_state_error :: "string \<Rightarrow> exn" where
  "risk_state_error msg = Raised PortfolioRiskStateError msg"

section \<open>Encoding\<close>

definition position_to_dict :: "(rat, int) portfolio_position \<Rightarrow> json" where
  "position_to_dict p =
     JObj [(''key'', JStr (pp_key p)), (''symbol'', JStr (pp_symbol p)), (''venue'', JStr (pp_venue p)),
           (''strategy'', JStr (pp_strategy p)), (''engine'', JStr (pp_engine p)),
           (''signed_notional'', JFloat (Fin (pp_signed_notional p))),
           (''committed_risk_fraction'', JFloat (Fin (pp_committed_risk p))),
           (''opened_at_utc'', JStr (isoformat (pp_opened_at p)))]"

definition snapshot_to_dict :: "rat portfolio_snapshot \<Rightarrow> json" where
  "snapshot_to_dict s =
     JObj [(''positions'', JList (map position_to_dict (ps_positions s))),
           (''peak_equity'', JFloat (Fin (ps_peak_equity s))),
           (''daily_realized_pnl'', JFloat (Fin (ps_daily_pnl s))),
           (''current_day'', optional_text (map_option date_isoformat (ps_current_day s))),
           (''kill_switch_reason'', optional_text (ps_kill_reason s))]"

definition risk_payload :: "int \<Rightarrow> rat portfolio_snapshot \<Rightarrow> (string, json) dict" where
  "risk_payload saved_at s =
     [(''schema_version'', JInt risk_schema_version), (''saved_at_utc'', JStr (isoformat saved_at)),
      (''snapshot'', snapshot_to_dict s)]"

text \<open>\<open>save\<close>: the new content of the file and the checksum it returns.\<close>

definition save_risk_state :: "(json \<Rightarrow> string) \<Rightarrow> rat portfolio_snapshot \<Rightarrow> pydatetime option \<Rightarrow> int
    \<Rightarrow> (state_file \<times> string) result" where
  "save_risk_state sha s saved_at_utc now =
     bindE (to_utc ''risk state timestamp must be timezone-aware''
              (case saved_at_utc of None \<Rightarrow> Aware now | Some t \<Rightarrow> t)) (\<lambda>saved_at.
       let payload = risk_payload saved_at s;
           checksum = digest_of sha (JObj payload)
       in Inr (Written (canonical (JObj (payload @ [(''sha256'', JStr checksum)]))), checksum))"

section \<open>Decoding\<close>

text \<open>\<open>float\<close> of an integer raises from the first one that would round to \<open>2 ** 1024\<close>.\<close>

definition float_bound :: int where
  "float_bound = 2 ^ 1024 - 2 ^ 970"

definition json_number :: "string \<Rightarrow> json \<Rightarrow> num result" where
  "json_number name v =
     (case v of
        JInt i \<Rightarrow> if float_bound \<le> \<bar>i\<bar> then Inl overflow_error else Inr (Fin (of_int i))
      | JFloat f \<Rightarrow> if isfinite f then Inr f else Inl (ValueError (name @ '' must be finite''))
      | _ \<Rightarrow> Inl (type_error (name @ '' must be numeric'')))"

definition is_str :: "json \<Rightarrow> bool" where
  "is_str v = (case v of JStr _ \<Rightarrow> True | _ \<Rightarrow> False)"

text \<open>The constructor ends with the conversion of the opening time to UTC, which may overflow.\<close>

definition position_from_dict :: "json \<Rightarrow> (rat, int) portfolio_position result" where
  "position_from_dict value =
     bindE (object_of ''position must be an object'' value) (\<lambda>d.
       if list_ex (\<lambda>name. \<not> is_str (jget d name)) [''key'', ''symbol'', ''venue'', ''strategy'', ''engine'']
       then Inl (type_error ''position identifiers must be strings'')
       else
         bindE (string_field d ''key'') (\<lambda>key.
         bindE (string_field d ''symbol'') (\<lambda>symbol.
         bindE (string_field d ''venue'') (\<lambda>venue.
         bindE (string_field d ''strategy'') (\<lambda>strategy.
         bindE (string_field d ''engine'') (\<lambda>engine.
         bindE (bindE (key_of d ''signed_notional'') (json_number ''position notional'')) (\<lambda>notional.
         bindE (bindE (key_of d ''committed_risk_fraction'') (json_number ''position committed risk'')) (\<lambda>risk.
         bindE (bindE (string_field d ''opened_at_utc'') datetime_of_text) (\<lambda>opened.
         bindE (make_portfolio_position
             \<lparr>pp_key = key, pp_symbol = symbol, pp_venue = venue, pp_strategy = strategy, pp_engine = engine,
              pp_signed_notional = notional, pp_committed_risk = risk, pp_opened_at = opened\<rparr>) (\<lambda>p.
           if instant_in_range (pp_opened_at p) then Inr p else Inl overflow_error))))))))))"

definition day_of_text :: "string option \<Rightarrow> int option result" where
  "day_of_text t =
     (case t of
        None \<Rightarrow> Inr None
      | Some s \<Rightarrow>
          if s = [] then Inr None
          else (case date_fromisoformat s of
                  None \<Rightarrow> Inl (ValueError ''Invalid isoformat string'') | Some d \<Rightarrow> Inr (Some d)))"

definition snapshot_from_dict :: "(string, json) dict \<Rightarrow> rat portfolio_snapshot result" where
  "snapshot_from_dict d =
     bindE (bindE (key_of d ''positions'') list_of) (\<lambda>raw.
     bindE (mapE position_from_dict raw) (\<lambda>positions.
     bindE (optional_string_field d ''current_day'') (\<lambda>day_text.
     bindE (bindE (key_of d ''peak_equity'') (json_number ''peak equity'')) (\<lambda>peak.
     bindE (bindE (key_of d ''daily_realized_pnl'') (json_number ''daily realized PnL'')) (\<lambda>pnl.
     bindE (optional_string_field d ''kill_switch_reason'') (\<lambda>reason.
     bindE (day_of_text day_text) (\<lambda>day.
       make_portfolio_snapshot
         \<lparr>ps_positions = positions, ps_peak_equity = peak, ps_daily_pnl = pnl, ps_current_day = day,
          ps_kill_reason = reason\<rparr>)))))))"

text \<open>Python's \<open>==\<close> between a JSON value and an integer: \<open>True\<close> and \<open>1.0\<close> are equal to 1.\<close>

fun equals_int :: "int \<Rightarrow> json \<Rightarrow> bool" where
  "equals_int n (JInt i) = (i = n)"
| "equals_int n (JBool b) = ((if b then 1 else 0) = n)"
| "equals_int n (JFloat f) = (f = Fin (of_int n))"
| "equals_int n _ = False"

definition decode_risk_state :: "(json \<Rightarrow> string) \<Rightarrow> json \<Rightarrow> rat portfolio_snapshot result" where
  "decode_risk_state sha v =
     (case v of
        JObj d \<Rightarrow>
          if \<not> equals_int risk_schema_version (jget d ''schema_version'')
          then Inl (risk_state_error ''unsupported portfolio risk state schema'')
          else
            (case jget d ''sha256'' of
               JStr checksum \<Rightarrow>
                 if length checksum \<noteq> 64
                 then Inl (risk_state_error ''portfolio risk state checksum is missing'')
                 else
                   bindE (compare_digest checksum (digest_of sha (JObj (without_key ''sha256'' d)))) (\<lambda>same.
                     if \<not> same then Inl (risk_state_error ''portfolio risk state checksum mismatch'')
                     else
                       let payload = without_key ''sha256'' d in
                       wrap_error (risk_state_error ''portfolio risk state payload is invalid'')
                         (bindE (bindE (bindE (string_field payload ''saved_at_utc'') datetime_of_text)
                                   (to_utc ''risk state timestamp must be timezone-aware'')) (\<lambda>_.
                          bindE (bindE (key_of payload ''snapshot'') (object_of ''snapshot is not an object''))
                            snapshot_from_dict)))
             | _ \<Rightarrow> Inl (risk_state_error ''portfolio risk state checksum is missing''))
      | _ \<Rightarrow> Inl (risk_state_error ''portfolio risk state must be a JSON object''))"

text \<open>
  Reading the file and \<open>json.loads\<close>: only \<open>JSONDecodeError\<close> becomes the store's own error.
\<close>

definition read_error :: "state_file \<Rightarrow> exn option" where
  "read_error f =
     (case f of
        Undecodable \<Rightarrow> Some (ValueError ''UnicodeDecodeError'')
      | NotJson \<Rightarrow> Some (risk_state_error ''portfolio risk state is not valid JSON'')
      | LongInteger \<Rightarrow> Some (ValueError ''Exceeds the limit (4300 digits) for integer string conversion'')
      | TooDeep \<Rightarrow> Some (OtherError ''RecursionError'')
      | _ \<Rightarrow> None)"

definition load_risk_state :: "(json \<Rightarrow> string) \<Rightarrow> state_file \<Rightarrow> rat portfolio_snapshot option result" where
  "load_risk_state sha f =
     (case f of
        NoFile \<Rightarrow> Inr None
      | Written v \<Rightarrow> map_sum id Some (decode_risk_state sha v)
      | _ \<Rightarrow> Inl (the (read_error f)))"

definition load_required_risk_state :: "(json \<Rightarrow> string) \<Rightarrow> state_file \<Rightarrow> rat portfolio_snapshot result" where
  "load_required_risk_state sha f =
     bindE (load_risk_state sha f) (\<lambda>s. case s of
       None \<Rightarrow> Inl (risk_state_error ''required portfolio risk state is absent'') | Some x \<Rightarrow> Inr x)"

definition risk_state_checksum :: "(json \<Rightarrow> string) \<Rightarrow> state_file \<Rightarrow> string option result" where
  "risk_state_checksum sha f =
     (case f of
        NoFile \<Rightarrow> Inr None
      | Written v \<Rightarrow>
          bindE (decode_risk_state sha v) (\<lambda>_.
            (case jget (json_entries v) ''sha256'' of JStr c \<Rightarrow> Inr (Some c) | _ \<Rightarrow> Inl (type_error ''sha256'')))
      | _ \<Rightarrow> Inl (the (read_error f)))"

section \<open>Valid snapshots\<close>

definition snapshot_ok :: "rat portfolio_snapshot \<Rightarrow> bool" where
  "snapshot_ok s \<longleftrightarrow>
     distinct (map pp_key (ps_positions s)) \<and> list_all position_ok (ps_positions s) \<and>
     0 \<le> ps_peak_equity s \<and> (\<forall>r. ps_kill_reason s = Some r \<longrightarrow> \<not> blank r)"

text \<open>The instants and the day have to be ones Python can write.\<close>

definition snapshot_writable :: "rat portfolio_snapshot \<Rightarrow> bool" where
  "snapshot_writable s \<longleftrightarrow>
     list_all (\<lambda>p. instant_in_range (pp_opened_at p)) (ps_positions s) \<and>
     (case ps_current_day s of None \<Rightarrow> True | Some d \<Rightarrow> day_in_range d)"

lemma json_number_simps [simp]:
  "json_number name (JFloat (Fin r)) = Inr (Fin r)"
  by (simp_all add: json_number_def)

lemma position_roundtrip:
  assumes "position_ok p" "instant_in_range (pp_opened_at p)"
  shows "position_from_dict (position_to_dict p) = Inr p"
  using assms
  by (simp add: position_to_dict_def position_from_dict_def object_of_def is_str_def jget_def string_field_def
      key_of_def datetime_of_text_def make_portfolio_position_def position_ok_def)

lemma positions_roundtrip:
  "list_all position_ok ps \<Longrightarrow> list_all (\<lambda>p. instant_in_range (pp_opened_at p)) ps \<Longrightarrow>
   mapE position_from_dict (map position_to_dict ps) = Inr ps"
  by (induction ps) (simp_all add: position_roundtrip)

lemma date_isoformat_nonempty: "date_isoformat d \<noteq> []"
  by (cases "ordinal_date (nat (d + epoch_ordinal))") (simp add: date_isoformat_def)

lemma day_roundtrip:
  assumes "case d of None \<Rightarrow> True | Some x \<Rightarrow> day_in_range x"
  shows "day_of_text (map_option date_isoformat d) = Inr d"
  using assms by (cases d) (simp_all add: day_of_text_def date_isoformat_nonempty)

lemma optional_text_field:
  "map_of d name = Some (optional_text t) \<Longrightarrow> optional_string_field d name = Inr t"
  by (cases t) (simp_all add: optional_string_field_def key_of_def optional_text_def)

lemma snapshot_roundtrip:
  assumes "snapshot_ok s" "snapshot_writable s"
  shows "snapshot_from_dict (json_entries (snapshot_to_dict s)) = Inr s"
proof -
  let ?d = "json_entries (snapshot_to_dict s)"
  have f: "map_of ?d ''positions'' = Some (JList (map position_to_dict (ps_positions s)))"
    "map_of ?d ''peak_equity'' = Some (JFloat (Fin (ps_peak_equity s)))"
    "map_of ?d ''daily_realized_pnl'' = Some (JFloat (Fin (ps_daily_pnl s)))"
    "map_of ?d ''current_day'' = Some (optional_text (map_option date_isoformat (ps_current_day s)))"
    "map_of ?d ''kill_switch_reason'' = Some (optional_text (ps_kill_reason s))"
    by (simp_all add: snapshot_to_dict_def json_entries_def)
  have "mapE position_from_dict (map position_to_dict (ps_positions s)) = Inr (ps_positions s)"
    using assms by (intro positions_roundtrip) (simp_all add: snapshot_ok_def snapshot_writable_def)
  moreover have "day_of_text (map_option date_isoformat (ps_current_day s)) = Inr (ps_current_day s)"
    using assms(2) by (intro day_roundtrip) (simp add: snapshot_writable_def)
  ultimately show ?thesis
    using assms(1)
    by (simp add: snapshot_from_dict_def key_of_def f list_of_def optional_text_field make_portfolio_snapshot_def
        snapshot_ok_def split: option.splits)
qed

section \<open>The order of the keys in the file does not matter\<close>

lemma is_str_canonical [simp]: "is_str (canonical v) = is_str v"
  by (cases v) (simp_all add: is_str_def)

lemma json_number_canonical [simp]: "json_number name (canonical v) = json_number name v"
  by (cases v) (simp_all add: json_number_def)

lemma position_from_canonical [simp]: "position_from_dict (canonical v) = position_from_dict v"
proof (cases v)
  case (JObj d)
  then show ?thesis
    by (simp only: position_from_dict_def canonical_JObj object_of_def json.case bindE_simps jget_sorted
        is_str_canonical string_field_sorted key_of_sorted bindE_map_sum json_number_canonical)
qed (simp_all add: position_from_dict_def object_of_def)

lemma mapE_map: "mapE f (map g xs) = mapE (\<lambda>x. f (g x)) xs"
  by (induction xs) simp_all

lemma list_of_canonical: "list_of (canonical v) = map_sum id (map canonical) (list_of v)"
  by (cases v) (simp_all add: list_of_def)

lemma snapshot_from_sorted [simp]: "snapshot_from_dict (sorted_entries d) = snapshot_from_dict d"
proof -
  have "bindE (key_of (sorted_entries d) ''positions'') list_of =
      map_sum id (map canonical) (bindE (key_of d ''positions'') list_of)"
    by (cases "key_of d ''positions''") (simp_all add: key_of_sorted list_of_canonical)
  then show ?thesis
    by (simp only: snapshot_from_dict_def bindE_map_sum mapE_map position_from_canonical optional_string_field_sorted
        key_of_sorted json_number_canonical)
qed

lemma object_of_canonical: "object_of msg (canonical v) = map_sum id sorted_entries (object_of msg v)"
proof (cases v)
  case (JObj d)
  then show ?thesis by (simp only: canonical_JObj object_of_def json.case map_sum.simps)
qed (simp_all add: object_of_def)

lemma equals_int_canonical [simp]: "equals_int n (canonical v) = equals_int n v"
  by (cases v) simp_all

lemma decode_canonical [simp]: "decode_risk_state sha (canonical v) = decode_risk_state sha v"
proof (cases v)
  case (JObj d)
  have k: "bindE (bindE (key_of (sorted_entries e) ''snapshot'') (object_of m)) snapshot_from_dict =
      bindE (bindE (key_of e ''snapshot'') (object_of m)) snapshot_from_dict" for e m
    by (cases "key_of e ''snapshot''") (simp_all add: key_of_sorted object_of_canonical bindE_map_sum)
  show ?thesis
    by (cases "jget d ''sha256''")
      (simp_all add: JObj decode_risk_state_def jget_sorted without_key_sorted digest_of_def k
        sorted_entries_def [symmetric] Let_def cong: if_cong)
qed (simp_all add: decode_risk_state_def)

section \<open>What a load returns\<close>

lemma make_portfolio_snapshot_ok:
  "make_portfolio_snapshot s = Inr s' \<Longrightarrow> list_all position_ok (ps_positions s) \<Longrightarrow> snapshot_ok s'"
  by (auto simp: make_portfolio_snapshot_def snapshot_ok_def split: if_splits option.splits)

lemma position_from_dict_ok: "position_from_dict v = Inr p \<Longrightarrow> position_ok p"
  by (auto simp: position_from_dict_def bindE_eq_Inr split: if_splits dest: make_portfolio_position_ok)

lemma snapshot_from_dict_ok:
  assumes "snapshot_from_dict d = Inr s"
  shows "snapshot_ok s"
proof -
  obtain raw ps peak pnl day reason where ps: "mapE position_from_dict raw = Inr ps"
    and m: "make_portfolio_snapshot \<lparr>ps_positions = ps, ps_peak_equity = peak, ps_daily_pnl = pnl, ps_current_day = day,
        ps_kill_reason = reason\<rparr> = Inr s"
    using assms by (auto simp: snapshot_from_dict_def bindE_eq_Inr)
  have "list_all position_ok ps"
    unfolding list_all_iff using mapE_set [OF ps] position_from_dict_ok by blast
  with m show ?thesis by (intro make_portfolio_snapshot_ok [OF m]) simp
qed

text \<open>
  The numbers and instants on which a conversion of the decoder overflows: an integer too large for a
  float among the equity, the PnL, a notional or a committed risk, or a time whose year in UTC is not one
  of 1 to 9999.
\<close>

definition huge :: "json \<Rightarrow> bool" where
  "huge v \<longleftrightarrow> (case v of JInt i \<Rightarrow> float_bound \<le> \<bar>i\<bar> | _ \<Rightarrow> False)"

definition far_text :: "json \<Rightarrow> bool" where
  "far_text v \<longleftrightarrow> (case v of JStr s \<Rightarrow> (case parse_datetime s of Some (Aware t) \<Rightarrow> \<not> instant_in_range t | _ \<Rightarrow> False) | _ \<Rightarrow> False)"

definition overflowing_position :: "json \<Rightarrow> bool" where
  "overflowing_position v \<longleftrightarrow>
     huge (jget (json_entries v) ''signed_notional'') \<or> huge (jget (json_entries v) ''committed_risk_fraction'') \<or>
     far_text (jget (json_entries v) ''opened_at_utc'')"

definition overflowing_snapshot :: "(string, json) dict \<Rightarrow> bool" where
  "overflowing_snapshot d \<longleftrightarrow>
     huge (jget d ''peak_equity'') \<or> huge (jget d ''daily_realized_pnl'') \<or>
     (\<exists>raw. map_of d ''positions'' = Some (JList raw) \<and> list_ex overflowing_position raw)"

definition overflowing_state :: "(string, json) dict \<Rightarrow> bool" where
  "overflowing_state d \<longleftrightarrow>
     far_text (jget d ''saved_at_utc'') \<or>
     (\<exists>snap. map_of d ''snapshot'' = Some (JObj snap) \<and> overflowing_snapshot snap)"

text \<open>What an exception of the decoder is: caught, or an overflow with its cause.\<close>

abbreviation from_overflow :: "bool \<Rightarrow> exn \<Rightarrow> bool" where
  "from_overflow cause x \<equiv> caught x \<or> x = overflow_error \<and> cause"

lemma bindE_raises: "bindE r k = Inl x \<Longrightarrow> (r = Inl x \<Longrightarrow> P) \<Longrightarrow> (\<And>a. r = Inr a \<Longrightarrow> k a = Inl x \<Longrightarrow> P) \<Longrightarrow> P"
  by (cases r) simp_all

lemma field_raises:
  "key_of d n = Inl x \<Longrightarrow> caught x" "string_field d n = Inl x \<Longrightarrow> caught x"
  "optional_string_field d n = Inl x \<Longrightarrow> caught x" "object_of m v = Inl x \<Longrightarrow> caught x"
  "list_of v = Inl x \<Longrightarrow> caught x" "datetime_of_text s = Inl x \<Longrightarrow> caught x" "day_of_text t = Inl x \<Longrightarrow> caught x"
  by (auto simp: key_of_def string_field_def optional_string_field_def object_of_def list_of_def datetime_of_text_def
      day_of_text_def bindE_eq_Inl split: option.splits json.splits if_splits)

lemma number_raises:
  assumes "bindE (key_of d n) (json_number name) = Inl x"
  shows "from_overflow (huge (jget d n)) x"
proof (cases "map_of d n")
  case (Some v)
  then show ?thesis using assms
    by (cases v) (auto simp: key_of_def json_number_def huge_def jget_def split: if_splits)
qed (use assms in \<open>auto simp: key_of_def\<close>)

lemma time_raises:
  assumes "bindE (bindE (string_field d n) datetime_of_text) (to_utc m) = Inl x"
  shows "from_overflow (far_text (jget d n)) x"
proof (rule bindE_raises [OF assms], goal_cases)
  case 1
  then show ?case by (auto elim: bindE_raises intro: field_raises)
next
  case (2 dt)
  from 2(1) obtain s where f: "string_field d n = Inr s" and p: "datetime_of_text s = Inr dt"
    by (auto simp: bindE_eq_Inr)
  from f obtain v where v: "map_of d n = Some v" "(case v of JStr s \<Rightarrow> Inr s | _ \<Rightarrow> Inl (type_error ''must be a string'')) = Inr s"
    by (auto simp: string_field_def bindE_eq_Inr key_of_eq)
  then have s: "map_of d n = Some (JStr s)" "parse_datetime s = Some dt"
    using p by (cases v; auto simp: datetime_of_text_def split: option.splits)+
  show ?case
  proof (cases dt)
    case (Aware u)
    then show ?thesis using 2(2) s by (auto simp: to_utc_def utc_of_def far_text_def jget_def split: if_splits)
  qed (use 2(2) in \<open>auto simp: to_utc_def utc_of_def\<close>)
qed

lemma make_raises:
  "make_portfolio_position p = Inl x \<Longrightarrow> caught x" "make_portfolio_snapshot s = Inl x \<Longrightarrow> caught x"
  by (auto simp: make_portfolio_position_def make_portfolio_snapshot_def utc_of_def bindE_eq_Inl
      split: if_splits pydatetime.splits option.splits)

lemma position_raises:
  assumes "position_from_dict v = Inl x"
  shows "from_overflow (overflowing_position v) x"
proof (cases v)
  case (JObj d)
  have e: "json_entries v = d" by (simp add: JObj json_entries_def)
  have far: "far_text (jget d ''opened_at_utc'')"
    if "bindE (string_field d ''opened_at_utc'') datetime_of_text = Inr opened" "make_portfolio_position q = Inr p"
      "pp_opened_at q = opened" "\<not> instant_in_range (pp_opened_at p)" for opened q p
  proof -
    have "opened = Aware (pp_opened_at p)"
      using that(2,3) by (auto simp: make_portfolio_position_def bindE_eq_Inr utc_of_def split: if_splits pydatetime.splits)
    with that(1,4) show ?thesis
      by (auto simp: bindE_eq_Inr string_field_def key_of_def datetime_of_text_def far_text_def jget_def
          split: option.splits json.splits)
  qed
  have o: "bindE (object_of m v) k = k d" for m and k :: "(string, json) dict \<Rightarrow> (rat, int) portfolio_position result"
    by (simp add: JObj object_of_def)
  show ?thesis
  proof (cases "list_ex (\<lambda>name. \<not> is_str (jget d name)) [''key'', ''symbol'', ''venue'', ''strategy'', ''engine'']")
    case True
    with assms show ?thesis unfolding position_from_dict_def o by (simp only: if_True) auto
  next
    case False
    note a = assms [unfolded position_from_dict_def o if_not_P [OF False]]
    show ?thesis unfolding overflowing_position_def e
      apply (rule bindE_raises [OF a], use field_raises(2) in blast)
      apply (erule bindE_raises, use field_raises(2) in blast)
      apply (erule bindE_raises, use field_raises(2) in blast)
      apply (erule bindE_raises, use field_raises(2) in blast)
      apply (erule bindE_raises, use field_raises(2) in blast)
      apply (erule bindE_raises, use number_raises in blast)
      apply (erule bindE_raises, use number_raises in blast)
      apply (erule bindE_raises)
       apply (erule bindE_raises, use field_raises(2) in blast, use field_raises(6) in blast)
      apply (erule bindE_raises, use make_raises(1) in blast)
      using far by (force split: if_splits)
  qed
qed (use assms in \<open>auto simp: position_from_dict_def object_of_def\<close>)

lemma mapE_raises: "mapE f xs = Inl x \<Longrightarrow> \<exists>v \<in> set xs. f v = Inl x"
  by (induction xs) (auto simp: bindE_eq_Inl)

lemma snapshot_raises:
  assumes "snapshot_from_dict d = Inl x"
  shows "from_overflow (overflowing_snapshot d) x"
proof (rule bindE_raises [OF assms [unfolded snapshot_from_dict_def]], goal_cases)
  case 1
  then show ?case using field_raises(1,5) by (auto elim: bindE_raises)
next
  case (2 raw)
  have raw: "map_of d ''positions'' = Some (JList raw)"
    using 2(1) by (auto simp: bindE_eq_Inr key_of_def list_of_def split: option.splits json.splits)
  show ?case
  proof (rule bindE_raises [OF 2(2)], goal_cases)
    case 1
    then obtain v where "v \<in> set raw" "position_from_dict v = Inl x" by (auto dest: mapE_raises)
    then have "from_overflow (list_ex overflowing_position raw) x"
      using position_raises [of v x] by (auto simp: list_ex_iff)
    then show ?case using raw by (auto simp: overflowing_snapshot_def)
  next
    case (2 ps)
    show ?case unfolding overflowing_snapshot_def
      apply (rule bindE_raises [OF 2(2)], use field_raises(3) in blast)
      apply (erule bindE_raises, use number_raises in blast)
      apply (erule bindE_raises, use number_raises in blast)
      apply (erule bindE_raises, use field_raises(3) in blast)
      apply (erule bindE_raises, use field_raises(7) in blast)
      using make_raises(2) by blast
  qed
qed

lemma decode_cases:
  assumes "decode_risk_state sha v = r"
  obtains (error) msg where "r = Inl (risk_state_error msg)"
  | (not_ascii) d c where "v = JObj d" "jget d ''sha256'' = JStr c"
      "\<not> (ascii c \<and> ascii (digest_of sha (JObj (without_key ''sha256'' d))))"
      "r = Inl (type_error ''comparing strings with non-ASCII characters'')"
  | (overflow) d where "v = JObj d" "jget d ''sha256'' = JStr (digest_of sha (JObj (without_key ''sha256'' d)))"
      "overflowing_state d" "r = Inl overflow_error"
  | (decoded) d s snap where "v = JObj d"
      "jget d ''sha256'' = JStr (digest_of sha (JObj (without_key ''sha256'' d)))"
      "map_of d ''snapshot'' = Some (JObj snap)" "snapshot_from_dict snap = Inr s" "r = Inr s"
proof (cases v)
  case (JObj d)
  show thesis
  proof (cases "jget d ''sha256''")
    case (JStr c)
    let ?p = "without_key ''sha256'' d"
    let ?x = "digest_of sha (JObj ?p)"
    let ?saved = "bindE (bindE (string_field ?p ''saved_at_utc'') datetime_of_text)
      (to_utc ''risk state timestamp must be timezone-aware'')"
    let ?snap = "bindE (bindE (key_of ?p ''snapshot'') (object_of ''snapshot is not an object'')) snapshot_from_dict"
    let ?body = "bindE ?saved (\<lambda>_. ?snap)"
    have get: "jget ?p ''saved_at_utc'' = jget d ''saved_at_utc''" by (simp add: jget_def)
    have raises: "from_overflow (overflowing_state d) x" if b: "?body = Inl x" for x
    proof (rule bindE_raises [OF b], goal_cases)
      case 1
      then show ?case using time_raises by (fastforce simp: overflowing_state_def get)
    next
      case (2 t)
      show ?case
      proof (rule bindE_raises [OF 2(2)], goal_cases)
        case 1
        then show ?case using field_raises(1,4) by (auto elim: bindE_raises)
      next
        case (2 snap)
        then have "map_of d ''snapshot'' = Some (JObj snap)"
          by (auto simp: bindE_eq_Inr key_of_eq object_of_eq)
        then show ?case using snapshot_raises [OF 2(2)] by (auto simp: overflowing_state_def)
      qed
    qed
    have r: "r = (if \<not> equals_int risk_schema_version (jget d ''schema_version'')
        then Inl (risk_state_error ''unsupported portfolio risk state schema'')
        else if length c \<noteq> 64 then Inl (risk_state_error ''portfolio risk state checksum is missing'')
        else bindE (compare_digest c ?x) (\<lambda>same.
          if \<not> same then Inl (risk_state_error ''portfolio risk state checksum mismatch'')
          else wrap_error (risk_state_error ''portfolio risk state payload is invalid'') ?body))"
      by (simp only: assms [symmetric] decode_risk_state_def JObj JStr json.case Let_def)
    show thesis
    proof (cases "\<not> equals_int risk_schema_version (jget d ''schema_version'') \<or> length c \<noteq> 64 \<or> ascii c \<and> ascii ?x \<and> c \<noteq> ?x")
      case True
      then show thesis using r error by (auto simp: compare_digest_def split: if_splits)
    next
      case False
      show thesis
      proof (cases "ascii c \<and> ascii ?x")
        case False
        then have "compare_digest c ?x = Inl (type_error ''comparing strings with non-ASCII characters'')"
          by (simp only: compare_digest_def if_False)
        then have "r = Inl (type_error ''comparing strings with non-ASCII characters'')"
          using r \<open>\<not> (_ \<or> _ \<or> _)\<close> by simp
        then show thesis by (rule not_ascii [OF JObj JStr False])
      next
        case True
        then have c: "c = ?x" using False by blast
        have rw: "r = wrap_error (risk_state_error ''portfolio risk state payload is invalid'') ?body"
          using True False r c by (simp add: compare_digest_def)
        show thesis
        proof (cases ?body)
          case (Inl x)
          with rw raises [OF Inl] show thesis
            using error overflow [OF JObj] JStr c by (auto simp: wrap_error_def split: if_splits)
        next
          case (Inr s)
          then obtain snap where "map_of d ''snapshot'' = Some (JObj snap)" "snapshot_from_dict snap = Inr s"
            by (auto simp: bindE_eq_Inr key_of_eq object_of_eq)
          then show thesis using decoded [OF JObj] JStr c rw Inr by simp
        qed
      qed
    qed
  qed (use assms error JObj in \<open>auto simp: decode_risk_state_def split: if_splits\<close>)
qed (use assms error in \<open>auto simp: decode_risk_state_def\<close>)

lemma decode_written:
  assumes "hex_digest sha" "snapshot_ok s" "snapshot_writable s" "instant_in_range t"
  shows "decode_risk_state sha (JObj (risk_payload t s @
    [(''sha256'', JStr (digest_of sha (JObj (risk_payload t s))))])) = Inr s"
proof -
  have h: "length (digest_of sha v) = 64" "ascii (digest_of sha v)" for v
    using assms(1) by (simp_all add: hex_digest_def digest_of_def)
  let ?d = "risk_payload t s @ [(''sha256'', JStr (digest_of sha (JObj (risk_payload t s))))]"
  have w: "without_key ''sha256'' ?d = risk_payload t s" by (simp add: without_key_def risk_payload_def)
  have j: "jget ?d ''schema_version'' = JInt risk_schema_version"
    "jget ?d ''sha256'' = JStr (digest_of sha (JObj (risk_payload t s)))"
    by (simp_all add: jget_def risk_payload_def)
  have k: "string_field (risk_payload t s) ''saved_at_utc'' = Inr (isoformat t)"
    "key_of (risk_payload t s) ''snapshot'' = Inr (JObj (json_entries (snapshot_to_dict s)))"
    by (simp_all add: string_field_def key_of_def risk_payload_def snapshot_to_dict_def json_entries_def)
  show ?thesis
    by (simp add: decode_risk_state_def j w k h compare_digest_def Let_def datetime_of_text_def assms(4) object_of_def
        snapshot_roundtrip [OF assms(2,3)] del: append.simps)
qed

lemma saved_loads:
  assumes "hex_digest sha" "snapshot_ok s" "snapshot_writable s" "instant_in_range t"
    and "save_risk_state sha s (Some (Aware t)) now = Inr (f, c)"
  shows "load_risk_state sha f = Inr (Some s) \<and> risk_state_checksum sha f = Inr (Some c)"
proof -
  let ?v = "JObj (risk_payload t s @ [(''sha256'', JStr (digest_of sha (JObj (risk_payload t s))))])"
  have f: "f = Written (canonical ?v)" "c = digest_of sha (JObj (risk_payload t s))"
    using assms(4,5) by (auto simp: save_risk_state_def Let_def)
  have "decode_risk_state sha (canonical ?v) = Inr s"
    unfolding decode_canonical by (rule decode_written [OF assms(1-4)])
  moreover have "jget (json_entries (canonical ?v)) ''sha256'' = JStr c"
    by (simp only: canonical_JObj json_entries_def json.case jget_sorted)
      (simp add: f(2) jget_def risk_payload_def)
  ultimately show ?thesis by (simp add: f(1) load_risk_state_def risk_state_checksum_def)
qed

section \<open>Properties\<close>

text \<open>
  C2. Saving and loading is the identity: a valid snapshot whose times Python can write is loaded
  back exactly from the file it was saved to, and the checksum of the file is the one \<open>save\<close>
  returned.
\<close>

theorem risk_state_roundtrip:
  assumes "hex_digest sha" "snapshot_ok s" "snapshot_writable s" "instant_in_range t"
    and "save_risk_state sha s (Some (Aware t)) now = Inr (f, c)"
  shows "load_risk_state sha f = Inr (Some s) \<and> risk_state_checksum sha f = Inr (Some c)"
  by (rule saved_loads [OF assms])

text \<open>
  C36. What a load gives, whatever the file holds. A snapshot it returns is valid, and it returns none
  exactly when there is no file. Most exceptions are the store's own; the others are listed with their
  causes: a file that is not UTF-8, holds an integer of more than 4300 digits or nests too deeply raises
  what reading it raises; a checksum text beyond ASCII a \<open>TypeError\<close>; and, its checksum being right, an
  integer too large for a float or a time without a year in UTC an \<open>OverflowError\<close>.
\<close>

theorem risk_state_load_typed:
  assumes "hex_digest sha"
  shows "(load_risk_state sha f = Inr None \<longleftrightarrow> f = NoFile) \<and>
    (case load_risk_state sha f of
      Inr None \<Rightarrow> True
    | Inr (Some s) \<Rightarrow> snapshot_ok s
    | Inl e \<Rightarrow> (\<exists>msg. e = risk_state_error msg) \<or>
        f \<in> {Undecodable, LongInteger, TooDeep} \<and> read_error f = Some e \<or>
        (\<exists>d c. f = Written (JObj d) \<and> jget d ''sha256'' = JStr c \<and> \<not> ascii c \<and>
           e = type_error ''comparing strings with non-ASCII characters'') \<or>
        (\<exists>d. f = Written (JObj d) \<and> jget d ''sha256'' = JStr (digest_of sha (JObj (without_key ''sha256'' d))) \<and>
           overflowing_state d \<and> e = overflow_error))"
proof (cases f)
  case (Written v)
  show ?thesis
  proof (rule decode_cases [of sha v, OF refl])
    fix d c
    assume "v = JObj d" "jget d ''sha256'' = JStr c"
      "\<not> (ascii c \<and> ascii (digest_of sha (JObj (without_key ''sha256'' d))))"
      "decode_risk_state sha v = Inl (type_error ''comparing strings with non-ASCII characters'')"
    with Written assms show ?thesis by (simp add: load_risk_state_def hex_digest_def digest_of_def)
  qed (use Written in \<open>auto simp: load_risk_state_def intro: snapshot_from_dict_ok\<close>)
qed (auto simp: load_risk_state_def read_error_def)

text \<open>
  C31. The checksum binds the content: if the digest does not collide on the two payloads, a file
  with the checksum that a save returned loads to the snapshot that was saved.
\<close>

theorem risk_state_integrity:
  assumes "hex_digest sha" "snapshot_ok s" "snapshot_writable s"
    and "save_risk_state sha s (Some (Aware t)) now = Inr (f, c)"
    and "risk_state_checksum sha (Written (JObj d)) = Inr (Some c)"
    and "collision_free sha {canonical (JObj (risk_payload t s)), canonical (JObj (without_key ''sha256'' d))}"
  shows "load_risk_state sha (Written (JObj d)) = Inr (Some s)"
proof -
  have c: "c = digest_of sha (JObj (risk_payload t s))"
    using assms(4) by (auto simp: save_risk_state_def Let_def bindE_eq_Inr to_utc_eq)
  obtain x where x: "decode_risk_state sha (JObj d) = Inr x" "jget d ''sha256'' = JStr c"
    using assms(5) by (auto simp: risk_state_checksum_def bindE_eq_Inr json_entries_def split: json.splits)
  show ?thesis
    using x(1)
  proof (cases rule: decode_cases)
    case (decoded d' s' snap)
    then have "digest_of sha (JObj (without_key ''sha256'' d)) = c" using x(2) by simp
    then have same: "sha (canonical (JObj (without_key ''sha256'' d))) = sha (canonical (JObj (risk_payload t s)))"
      by (simp only: c digest_of_def)
    have "canonical (JObj (without_key ''sha256'' d)) = canonical (JObj (risk_payload t s))"
      by (rule inj_onD [OF assms(6) [unfolded collision_free_def] same]) simp_all
    then have e: "sorted_entries (without_key ''sha256'' d) = sorted_entries (risk_payload t s)"
      by (simp only: canonical_JObj json.inject)
    have "map_of (sorted_entries (without_key ''sha256'' d)) ''snapshot'' = Some (canonical (JObj snap))"
      using decoded(1,3) by (simp add: map_of_sorted_entries)
    then have "canonical (JObj snap) = canonical (snapshot_to_dict s)"
      by (simp add: e map_of_sorted_entries) (simp add: risk_payload_def)
    then have "sorted_entries snap = sorted_entries (json_entries (snapshot_to_dict s))"
      by (simp only: snapshot_to_dict_def json_entries_def json.case canonical_JObj json.inject)
    then have "snapshot_from_dict snap = snapshot_from_dict (json_entries (snapshot_to_dict s))"
      by (metis snapshot_from_sorted)
    with decoded(4,5) snapshot_roundtrip [OF assms(2,3)] have "x = s" by simp
    with x(1) show ?thesis by (simp add: load_risk_state_def)
  qed simp_all
qed

section \<open>Witnesses\<close>

definition zero_sha :: "json \<Rightarrow> string" where
  "zero_sha v = replicate 64 (CHR ''0'')"

lemma zero_sha_hex: "hex_digest zero_sha"
  by (simp add: hex_digest_def zero_sha_def ascii_def list_all_iff)

definition demo_snapshot :: "rat portfolio_snapshot" where
  "demo_snapshot =
     \<lparr>ps_positions = [\<lparr>pp_key = ''k'', pp_symbol = ''BTC'', pp_venue = ''v'', pp_strategy = ''s'', pp_engine = ''e'',
        pp_signed_notional = - 5 / 2, pp_committed_risk = 1 / 100, pp_opened_at = 1700000000123456\<rparr>],
      ps_peak_equity = 1000, ps_daily_pnl = - 3, ps_current_day = Some 19675, ps_kill_reason = None\<rparr>"

lemma demo_snapshot_ok: "snapshot_ok demo_snapshot" "snapshot_writable demo_snapshot"
proof -
  have "\<not> list_ex blank [''k'', ''BTC'', ''v'', ''s'', ''e'']" by code_simp
  then show "snapshot_ok demo_snapshot" by (simp add: demo_snapshot_def snapshot_ok_def position_ok_def)
  show "snapshot_writable demo_snapshot"
    by (simp add: demo_snapshot_def snapshot_writable_def instant_in_range_def day_in_range_def utc_date_def epoch_ordinal_def)
qed

lemma instant_zero: "instant_in_range 0"
  by (simp add: instant_in_range_def day_in_range_def utc_date_def epoch_ordinal_def)

lemma demo_saved:
  "save_risk_state zero_sha demo_snapshot (Some (Aware 0)) 0 =
     Inr (Written (canonical (JObj (risk_payload 0 demo_snapshot @ [(''sha256'', JStr (replicate 64 (CHR ''0'')))]))),
       replicate 64 (CHR ''0''))"
  by (simp add: save_risk_state_def Let_def digest_of_def zero_sha_def instant_zero del: append.simps canonical_JObj)

lemma risk_state_roundtrip_witness:
  "\<exists>f c. save_risk_state zero_sha demo_snapshot (Some (Aware 0)) 0 = Inr (f, c) \<and>
     load_risk_state zero_sha f = Inr (Some demo_snapshot)"
  using risk_state_roundtrip [OF zero_sha_hex demo_snapshot_ok instant_zero demo_saved] demo_saved by blast

text \<open>A file with a right checksum whose peak equity is an integer no float can hold.\<close>

definition huge_file :: state_file where
  "huge_file = Written (JObj
     [(''schema_version'', JInt 1), (''saved_at_utc'', JStr (isoformat 0)),
      (''snapshot'', JObj [(''positions'', JList []), (''peak_equity'', JInt (2 ^ 1024)), (''daily_realized_pnl'', JInt 0),
         (''current_day'', JNull), (''kill_switch_reason'', JNull)]),
      (''sha256'', JStr (replicate 64 (CHR ''0'')))])"

lemma huge_file_raises: "load_risk_state zero_sha huge_file = Inl overflow_error"
proof -
  have "compare_digest (replicate 64 (CHR ''0'')) (digest_of zero_sha v) = Inr True" for v
    using zero_sha_hex by (auto simp: compare_digest_def digest_of_def hex_digest_def zero_sha_def)
  moreover have "float_bound \<le> \<bar>2 ^ 1024\<bar>" by (simp add: float_bound_def)
  ultimately show ?thesis
    by (simp add: huge_file_def load_risk_state_def decode_risk_state_def jget_def risk_schema_version_def Let_def
        without_key_def string_field_def key_of_def datetime_of_text_def instant_zero object_of_def snapshot_from_dict_def
        list_of_def optional_string_field_def json_number_def wrap_error_def del: power_numeral)
qed

lemma risk_state_load_typed_witness:
  "\<exists>d. huge_file = Written (JObj d) \<and> overflowing_state d"
proof -
  have "\<forall>msg. overflow_error \<noteq> risk_state_error msg" "\<forall>m. overflow_error \<noteq> type_error m"
    by (simp_all add: overflow_error_def risk_state_error_def type_error_def)
  with risk_state_load_typed [OF zero_sha_hex, of huge_file] show ?thesis
    unfolding huge_file_raises by (auto simp: huge_file_def)
qed

lemma risk_state_integrity_witness:
  "load_risk_state zero_sha (Written (JObj ((''sha256'', JStr (replicate 64 (CHR ''0''))) # risk_payload 0 demo_snapshot))) =
     Inr (Some demo_snapshot)"
proof -
  let ?d = "(''sha256'', JStr (replicate 64 (CHR ''0''))) # risk_payload 0 demo_snapshot"
  let ?e = "risk_payload 0 demo_snapshot @ [(''sha256'', JStr (digest_of zero_sha (JObj (risk_payload 0 demo_snapshot))))]"
  have w: "without_key ''sha256'' ?d = risk_payload 0 demo_snapshot"
    by (simp add: without_key_def risk_payload_def)
  have "sorted_entries ?d = sorted_entries ?e"
    unfolding sorted_entries_def
    by (simp add: digest_of_def zero_sha_def risk_payload_def less_char_def)
  then have "decode_risk_state zero_sha (JObj ?d) = Inr demo_snapshot"
    using decode_written [OF zero_sha_hex demo_snapshot_ok instant_zero]
    by (metis canonical_JObj decode_canonical)
  then have "risk_state_checksum zero_sha (Written (JObj ?d)) = Inr (Some (replicate 64 (CHR ''0'')))"
    by (simp add: risk_state_checksum_def json_entries_def jget_def)
  from risk_state_integrity [OF zero_sha_hex demo_snapshot_ok demo_saved this] show ?thesis
    unfolding w by (simp add: collision_free_def)
qed

end
