(* ===== verification/Shadow_Journal.thy ===== *)
theory Shadow_Journal
  imports Canonical_Json
begin

text \<open>
  Model of the audit journal of \<open>src/execution/shadow_runtime.py\<close>: \<open>ShadowAuditRecord\<close>, its
  encoding and \<open>ShadowAuditJournal\<close>, an append-only file of JSON lines chained by SHA-256. The
  file is the list of its lines as \<open>json.loads\<close> returns them, \<open>None\<close> where it raises; an
  \<open>append\<close> writes its line whole. The journal's lock makes each operation one step.
\<close>

section \<open>Records\<close>

datatype shadow_status =
  INITIALIZED | WAITING | RISK_REJECTED | ELIGIBLE_NO_ORDER | VIRTUAL_CLOSE | SHADOW_SAFETY_HOLD

fun shadow_status_value :: "shadow_status \<Rightarrow> string" where
  "shadow_status_value INITIALIZED = ''INITIALIZED''"
| "shadow_status_value WAITING = ''WAIT''"
| "shadow_status_value RISK_REJECTED = ''RISK_REJECTED''"
| "shadow_status_value ELIGIBLE_NO_ORDER = ''ELIGIBLE_NO_ORDER''"
| "shadow_status_value VIRTUAL_CLOSE = ''VIRTUAL_CLOSE''"
| "shadow_status_value SHADOW_SAFETY_HOLD = ''SAFETY_HOLD''"

definition shadow_statuses :: "shadow_status list" where
  "shadow_statuses =
     [INITIALIZED, WAITING, RISK_REJECTED, ELIGIBLE_NO_ORDER, VIRTUAL_CLOSE, SHADOW_SAFETY_HOLD]"

definition shadow_status_of :: "string \<Rightarrow> shadow_status result" where
  "shadow_status_of s =
     (case find (\<lambda>x. shadow_status_value x = s) shadow_statuses of
        None \<Rightarrow> Inl (ValueError ''is not a valid ShadowStatus'') | Some x \<Rightarrow> Inr x)"

lemma shadow_status_roundtrip [simp]: "shadow_status_of (shadow_status_value x) = Inr x"
  by (cases x) (simp_all add: shadow_status_of_def shadow_statuses_def)

record session_context =
  sx_session_id :: string
  sx_dataset :: string
  sx_commit :: string
  sx_config :: string

definition make_session_context :: "session_context \<Rightarrow> session_context result" where
  "make_session_context c =
     (if list_ex blank [sx_session_id c, sx_dataset c, sx_commit c, sx_config c]
      then Inl (ValueError ''shadow session requires complete fingerprints'')
      else Inr c)"

record 't audit_record =
  ar_observation_id :: string
  ar_session_id :: string
  ar_decided_at :: 't
  ar_action :: string
  ar_status :: shadow_status
  ar_engine_id :: "string option"
  ar_proposal_keys :: "string list"
  ar_risk_reasons :: "string list"
  ar_reason_codes :: "string list"
  ar_dataset :: string
  ar_commit :: string
  ar_config :: string
  ar_state_sha :: "string option"

definition audit_fields_ok :: "'t audit_record \<Rightarrow> bool" where
  "audit_fields_ok r \<longleftrightarrow>
     \<not> blank (ar_observation_id r) \<and> \<not> blank (ar_session_id r) \<and> \<not> blank (ar_action r) \<and>
     ar_reason_codes r \<noteq> [] \<and> \<not> list_ex blank [ar_dataset r, ar_commit r, ar_config r] \<and>
     (case ar_state_sha r of None \<Rightarrow> True | Some s \<Rightarrow> length s = 64)"

definition make_audit_record :: "pydatetime audit_record \<Rightarrow> int audit_record result" where
  "make_audit_record r =
     (if blank (ar_observation_id r) \<or> blank (ar_session_id r)
      then Inl (ValueError ''shadow audit identifiers must be non-empty'')
      else bindE (utc_of ''shadow decision timestamp must be timezone-aware'' (ar_decided_at r)) (\<lambda>t.
        if blank (ar_action r) \<or> ar_reason_codes r = []
        then Inl (ValueError ''shadow audit requires action and reason codes'')
        else if list_ex blank [ar_dataset r, ar_commit r, ar_config r]
        then Inl (ValueError ''shadow audit requires complete fingerprints'')
        else if (case ar_state_sha r of None \<Rightarrow> False | Some s \<Rightarrow> length s \<noteq> 64)
        then Inl (ValueError ''shadow risk-state checksum must be SHA-256'')
        else Inr \<lparr>ar_observation_id = ar_observation_id r, ar_session_id = ar_session_id r, ar_decided_at = t,
                  ar_action = ar_action r, ar_status = ar_status r, ar_engine_id = ar_engine_id r,
                  ar_proposal_keys = ar_proposal_keys r, ar_risk_reasons = ar_risk_reasons r,
                  ar_reason_codes = ar_reason_codes r, ar_dataset = ar_dataset r, ar_commit = ar_commit r,
                  ar_config = ar_config r, ar_state_sha = ar_state_sha r\<rparr>))"

section \<open>Encoding\<close>

definition text_list :: "string list \<Rightarrow> json" where
  "text_list xs = JList (map JStr xs)"

definition record_to_dict :: "int audit_record \<Rightarrow> (string, json) dict" where
  "record_to_dict r =
     [(''observation_id'', JStr (ar_observation_id r)), (''session_id'', JStr (ar_session_id r)),
      (''decision_timestamp_utc'', JStr (isoformat (ar_decided_at r))), (''action'', JStr (ar_action r)),
      (''status'', JStr (shadow_status_value (ar_status r))),
      (''selected_engine_id'', optional_text (ar_engine_id r)),
      (''proposal_keys'', text_list (ar_proposal_keys r)), (''risk_reasons'', text_list (ar_risk_reasons r)),
      (''reason_codes'', text_list (ar_reason_codes r)), (''dataset_fingerprint'', JStr (ar_dataset r)),
      (''code_commit'', JStr (ar_commit r)), (''config_fingerprint'', JStr (ar_config r)),
      (''risk_state_sha256'', optional_text (ar_state_sha r))]"

definition record_from_dict :: "json \<Rightarrow> int audit_record result" where
  "record_from_dict v =
     bindE (object_of ''shadow record must be an object'' v) (\<lambda>d.
     bindE (string_field d ''observation_id'') (\<lambda>observation_id.
     bindE (string_field d ''session_id'') (\<lambda>session_id.
     bindE (bindE (string_field d ''decision_timestamp_utc'') datetime_of_text) (\<lambda>decided_at.
     bindE (string_field d ''action'') (\<lambda>action.
     bindE (bindE (string_field d ''status'') shadow_status_of) (\<lambda>status.
     bindE (optional_string_field d ''selected_engine_id'') (\<lambda>engine_id.
     bindE (string_tuple_field d ''proposal_keys'') (\<lambda>proposal_keys.
     bindE (string_tuple_field d ''risk_reasons'') (\<lambda>risk_reasons.
     bindE (string_tuple_field d ''reason_codes'') (\<lambda>reason_codes.
     bindE (string_field d ''dataset_fingerprint'') (\<lambda>dataset.
     bindE (string_field d ''code_commit'') (\<lambda>commit.
     bindE (string_field d ''config_fingerprint'') (\<lambda>config.
     bindE (optional_string_field d ''risk_state_sha256'') (\<lambda>state_sha.
       make_audit_record
         \<lparr>ar_observation_id = observation_id, ar_session_id = session_id, ar_decided_at = decided_at,
          ar_action = action, ar_status = status, ar_engine_id = engine_id, ar_proposal_keys = proposal_keys,
          ar_risk_reasons = risk_reasons, ar_reason_codes = reason_codes, ar_dataset = dataset,
          ar_commit = commit, ar_config = config, ar_state_sha = state_sha\<rparr>))))))))))))))"

section \<open>The journal\<close>

definition audit_error :: "string \<Rightarrow> exn" where
  "audit_error msg = Raised ShadowAuditError msg"

text \<open>
  The file with what the object caches of it: the observation ids and the hash of the last line.
\<close>

record journal =
  aj_lines :: "json option list"
  aj_ids :: "string list"
  aj_last :: "string option"

text \<open>\<open>_digest\<close> of the chained pair of predecessor and record.\<close>

definition chained :: "json \<Rightarrow> json \<Rightarrow> json" where
  "chained previous raw = JObj [(''previous_sha256'', previous), (''record'', raw)]"

text \<open>One line: its record and its checksum, or an exception of the body of the \<open>try\<close>.\<close>

definition check_line :: "(json \<Rightarrow> string) \<Rightarrow> string option \<Rightarrow> string list \<Rightarrow> json option
    \<Rightarrow> (int audit_record \<times> string) result" where
  "check_line sha previous seen line =
     (case line of
        None \<Rightarrow> Inl (ValueError ''JSONDecodeError'')
      | Some v \<Rightarrow>
          bindE (object_of ''envelope is not an object'' v) (\<lambda>d.
          bindE (key_of d ''previous_sha256'') (\<lambda>actual_previous.
          bindE (key_of d ''sha256'') (\<lambda>raw_checksum.
          bindE (key_of d ''record'') (\<lambda>raw_record.
            if actual_previous \<noteq> optional_text previous
            then Inl (ValueError ''hash-chain predecessor mismatch'')
            else
              (case raw_checksum of
                 JStr checksum \<Rightarrow>
                   if length checksum \<noteq> 64 then Inl (ValueError ''invalid checksum'')
                   else
                     bindE (compare_digest checksum (digest_of sha (chained actual_previous raw_record))) (\<lambda>same.
                       if \<not> same then Inl (ValueError ''record checksum mismatch'')
                       else
                         bindE (record_from_dict raw_record) (\<lambda>r.
                           if ar_observation_id r \<in> set seen
                           then Inl (ValueError ''duplicate observation id'')
                           else Inr (r, checksum)))
               | _ \<Rightarrow> Inl (ValueError ''invalid checksum'')))))))"

fun verify_from :: "(json \<Rightarrow> string) \<Rightarrow> string option \<Rightarrow> string list \<Rightarrow> json option list
    \<Rightarrow> int audit_record list result" where
  "verify_from sha previous seen [] = Inr []"
| "verify_from sha previous seen (line # rest) =
     bindE (wrap_error (audit_error ''invalid shadow audit line'') (check_line sha previous seen line))
       (\<lambda>(r, checksum).
       bindE (verify_from sha (Some checksum) (ar_observation_id r # seen) rest) (\<lambda>rs. Inr (r # rs)))"

definition verify_lines :: "(json \<Rightarrow> string) \<Rightarrow> json option list \<Rightarrow> int audit_record list result" where
  "verify_lines sha lines = verify_from sha None [] lines"

text \<open>\<open>str(json.loads(lines[-1])["sha256"])\<close> of a verified file.\<close>

definition read_last_hash :: "json option list \<Rightarrow> string option" where
  "read_last_hash lines =
     (if lines = [] then None
      else (case last lines of
              None \<Rightarrow> None
            | Some v \<Rightarrow> (case jget (json_entries v) ''sha256'' of JStr s \<Rightarrow> Some s | _ \<Rightarrow> None)))"

definition open_journal :: "(json \<Rightarrow> string) \<Rightarrow> json option list \<Rightarrow> journal result" where
  "open_journal sha lines =
     bindE (verify_lines sha lines) (\<lambda>verified.
       Inr \<lparr>aj_lines = lines, aj_ids = map ar_observation_id verified, aj_last = read_last_hash lines\<rparr>)"

definition journal_envelope :: "(json \<Rightarrow> string) \<Rightarrow> string option \<Rightarrow> int audit_record \<Rightarrow> json" where
  "journal_envelope sha previous r =
     (let payload = JObj (record_to_dict r)
      in JObj [(''previous_sha256'', optional_text previous), (''record'', payload),
               (''sha256'', JStr (digest_of sha (chained (optional_text previous) payload)))])"

definition journal_append :: "(json \<Rightarrow> string) \<Rightarrow> journal \<Rightarrow> int audit_record \<Rightarrow> (journal \<times> string) result" where
  "journal_append sha j r =
     (if ar_observation_id r \<in> set (aj_ids j)
      then Inl (audit_error ''duplicate shadow observation id'')
      else
        (let checksum = digest_of sha (chained (optional_text (aj_last j)) (JObj (record_to_dict r)))
         in Inr (\<lparr>aj_lines = aj_lines j @ [Some (canonical (journal_envelope sha (aj_last j) r))],
                  aj_ids = aj_ids j @ [ar_observation_id r], aj_last = Some checksum\<rparr>, checksum)))"

definition ensure_available :: "journal \<Rightarrow> string \<Rightarrow> unit result" where
  "ensure_available j observation_id =
     (if blank observation_id then Inl (ValueError ''shadow observation id must be non-empty'')
      else if observation_id \<in> set (aj_ids j) then Inl (audit_error ''duplicate shadow observation id'')
      else Inr ())"

definition journal_find :: "(json \<Rightarrow> string) \<Rightarrow> journal \<Rightarrow> string \<Rightarrow> int audit_record option result" where
  "journal_find sha j observation_id =
     bindE (verify_lines sha (aj_lines j)) (\<lambda>records.
       Inr (find (\<lambda>r. ar_observation_id r = observation_id) records))"

definition latest_state_sha :: "int audit_record list \<Rightarrow> string option" where
  "latest_state_sha records =
     Option.bind (find (\<lambda>r. ar_state_sha r \<noteq> None) (rev records)) ar_state_sha"

definition latest_risk_state_sha :: "(json \<Rightarrow> string) \<Rightarrow> journal \<Rightarrow> string option result" where
  "latest_risk_state_sha sha j = map_sum id latest_state_sha (verify_lines sha (aj_lines j))"

section \<open>Round trip of a record\<close>

definition audit_writable :: "int audit_record \<Rightarrow> bool" where
  "audit_writable r \<longleftrightarrow> audit_fields_ok r \<and> instant_in_range (ar_decided_at r)"

lemma make_audit_record_cases:
  "make_audit_record r = Inr x \<longleftrightarrow> audit_fields_ok r \<and> (\<exists>t. ar_decided_at r = Aware t \<and>
     x = \<lparr>ar_observation_id = ar_observation_id r, ar_session_id = ar_session_id r, ar_decided_at = t,
          ar_action = ar_action r, ar_status = ar_status r, ar_engine_id = ar_engine_id r,
          ar_proposal_keys = ar_proposal_keys r, ar_risk_reasons = ar_risk_reasons r,
          ar_reason_codes = ar_reason_codes r, ar_dataset = ar_dataset r, ar_commit = ar_commit r,
          ar_config = ar_config r, ar_state_sha = ar_state_sha r\<rparr>)"
  by (auto simp: make_audit_record_def audit_fields_ok_def bindE_eq_Inr utc_of_eq_Inr split: option.splits)

lemma mapE_str_text [simp]: "mapE str_of (map JStr xs) = Inr xs"
  by (induction xs) (simp_all add: str_of_def)

lemma text_list_field: "map_of d name = Some (text_list xs) \<Longrightarrow> string_tuple_field d name = Inr xs"
  by (simp add: string_tuple_field_def key_of_def text_list_def list_of_def)

lemma text_field: "map_of d name = Some (JStr s) \<Longrightarrow> string_field d name = Inr s"
  by (simp add: string_field_def key_of_def)

lemma optional_field: "map_of d name = Some (optional_text t) \<Longrightarrow> optional_string_field d name = Inr t"
  by (cases t) (simp_all add: optional_string_field_def key_of_def optional_text_def)

lemma record_roundtrip:
  assumes "audit_writable r"
  shows "record_from_dict (JObj (record_to_dict r)) = Inr r"
proof -
  let ?d = "record_to_dict r"
  have f: "string_field ?d ''observation_id'' = Inr (ar_observation_id r)"
    "string_field ?d ''session_id'' = Inr (ar_session_id r)"
    "string_field ?d ''decision_timestamp_utc'' = Inr (isoformat (ar_decided_at r))"
    "string_field ?d ''action'' = Inr (ar_action r)"
    "string_field ?d ''status'' = Inr (shadow_status_value (ar_status r))"
    "string_field ?d ''dataset_fingerprint'' = Inr (ar_dataset r)"
    "string_field ?d ''code_commit'' = Inr (ar_commit r)"
    "string_field ?d ''config_fingerprint'' = Inr (ar_config r)"
    by (rule text_field, simp add: record_to_dict_def)+
  have g: "optional_string_field ?d ''selected_engine_id'' = Inr (ar_engine_id r)"
    "optional_string_field ?d ''risk_state_sha256'' = Inr (ar_state_sha r)"
    by (rule optional_field, simp add: record_to_dict_def)+
  have h: "string_tuple_field ?d ''proposal_keys'' = Inr (ar_proposal_keys r)"
    "string_tuple_field ?d ''risk_reasons'' = Inr (ar_risk_reasons r)"
    "string_tuple_field ?d ''reason_codes'' = Inr (ar_reason_codes r)"
    by (rule text_list_field, simp add: record_to_dict_def)+
  show ?thesis
    using assms
    by (simp add: record_from_dict_def object_of_def f g h datetime_of_text_def audit_writable_def
        make_audit_record_cases audit_fields_ok_def)
qed

lemma record_from_canonical [simp]: "record_from_dict (canonical v) = record_from_dict v"
  by (cases v) (simp_all add: record_from_dict_def object_of_def)

lemma canonical_chained:
  "canonical (chained p raw) = JObj [(''previous_sha256'', canonical p), (''record'', canonical raw)]"
  by (simp add: chained_def sorted_entries_def less_char_def)

lemma digest_chained [simp]: "digest_of sha (chained p (canonical raw)) = digest_of sha (chained p raw)"
  by (simp add: digest_of_def canonical_chained)

lemma check_line_envelope:
  assumes "hex_digest sha" "audit_writable r" "ar_observation_id r \<notin> set seen"
  shows "check_line sha previous seen (Some (canonical (journal_envelope sha previous r))) =
    Inr (r, digest_of sha (chained (optional_text previous) (JObj (record_to_dict r))))"
proof -
  let ?c = "digest_of sha (chained (optional_text previous) (JObj (record_to_dict r)))"
  have c: "length ?c = 64" "ascii ?c" using assms(1) by (simp_all add: hex_digest_def digest_of_def)
  have r: "record_from_dict (canonical (JObj (record_to_dict r))) = Inr r"
    unfolding record_from_canonical by (rule record_roundtrip [OF assms(2)])
  have d: "digest_of sha (chained (optional_text previous) (canonical (JObj (record_to_dict r)))) = ?c" by (rule digest_chained)
  show ?thesis
    using assms(3) c r d
    by (simp add: check_line_def journal_envelope_def Let_def object_of_def map_of_sorted_entries key_of_def compare_digest_def)
qed

section \<open>The chain\<close>

lemma check_line_cases:
  assumes "check_line sha previous seen line = Inr (r, c)"
  obtains d raw where "line = Some (JObj d)" "map_of d ''previous_sha256'' = Some (optional_text previous)"
    "map_of d ''record'' = Some raw" "map_of d ''sha256'' = Some (JStr c)"
    "c = digest_of sha (chained (optional_text previous) raw)" "record_from_dict raw = Inr r"
    "ar_observation_id r \<notin> set seen"
proof -
  obtain d p v raw where d: "line = Some (JObj d)" "map_of d ''previous_sha256'' = Some p"
      "map_of d ''sha256'' = Some v" "map_of d ''record'' = Some raw"
    using assms by (auto simp: check_line_def bindE_eq_Inr object_of_eq key_of_eq split: option.splits)
  then obtain s where v: "p = optional_text previous" "v = JStr s"
    using assms
    by (cases v) (simp_all add: check_line_def object_of_def key_of_def split: if_splits)
  have q: "s = digest_of sha (chained (optional_text previous) raw) \<and> record_from_dict raw = Inr r \<and>
      ar_observation_id r \<notin> set seen \<and> s = c"
    using assms
    by (auto simp: check_line_def d v object_of_def key_of_def bindE_eq_Inr compare_digest_eq split: if_splits)
  show thesis by (rule that [OF d(1)]) (use d v q in auto)
qed

definition hash_after :: "string option \<Rightarrow> json option list \<Rightarrow> string option" where
  "hash_after previous lines = (if lines = [] then previous else read_last_hash lines)"

lemma read_last_hash_line:
  "check_line sha previous seen line = Inr (r, c) \<Longrightarrow> read_last_hash (lines @ [line]) = Some c"
  by (erule check_line_cases) (simp add: read_last_hash_def json_entries_def jget_def)

lemma verify_from_append:
  "verify_from sha previous seen (xs @ ys) =
     bindE (verify_from sha previous seen xs) (\<lambda>rs.
     bindE (verify_from sha (hash_after previous xs) (rev (map ar_observation_id rs) @ seen) ys) (\<lambda>rs'.
       Inr (rs @ rs')))"
proof (induction xs arbitrary: previous seen)
  case Nil
  then show ?case by (cases "verify_from sha previous seen ys") (simp_all add: hash_after_def)
next
  case (Cons x xs)
  show ?case
  proof (cases "check_line sha previous seen x")
    case (Inr a)
    obtain r c where a: "a = (r, c)" by (cases a)
    have "hash_after (Some c) xs = hash_after previous (x # xs)"
      using read_last_hash_line [of sha previous seen x r c "[]"] Inr a
      by (simp add: hash_after_def read_last_hash_def)
    with Inr a Cons show ?thesis
      by (cases "verify_from sha (Some c) (ar_observation_id r # seen) xs") (simp_all add: bindE_assoc)
  qed (simp add: wrap_error_def)
qed

lemma verify_snoc:
  "verify_lines sha (lines @ [line]) = Inr rs' \<longleftrightarrow>
     (\<exists>rs r c. verify_lines sha lines = Inr rs \<and>
        check_line sha (hash_after None lines) (rev (map ar_observation_id rs)) line = Inr (r, c) \<and> rs' = rs @ [r])"
  by (auto simp: verify_lines_def verify_from_append bindE_eq_Inr wrap_error_eq split: prod.splits)

definition journal_ok :: "(json \<Rightarrow> string) \<Rightarrow> journal \<Rightarrow> int audit_record list \<Rightarrow> bool" where
  "journal_ok sha j rs \<longleftrightarrow>
     verify_lines sha (aj_lines j) = Inr rs \<and> aj_ids j = map ar_observation_id rs \<and>
     aj_last j = read_last_hash (aj_lines j)"

lemma open_journal_ok: "open_journal sha lines = Inr j \<longleftrightarrow> (\<exists>rs. journal_ok sha j rs) \<and> aj_lines j = lines"
  by (cases j) (auto simp: open_journal_def bindE_eq_Inr journal_ok_def)

lemma append_ok:
  assumes "hex_digest sha" "journal_ok sha j rs" "audit_writable r" "journal_append sha j r = Inr (j', c)"
  shows "journal_ok sha j' (rs @ [r])" "aj_last j' = Some c"
proof -
  have fresh: "ar_observation_id r \<notin> set (rev (map ar_observation_id rs))"
    and j': "aj_lines j' = aj_lines j @ [Some (canonical (journal_envelope sha (aj_last j) r))]"
      "aj_ids j' = aj_ids j @ [ar_observation_id r]" "aj_last j' = Some c"
      "c = digest_of sha (chained (optional_text (aj_last j)) (JObj (record_to_dict r)))"
    using assms(2,4) by (auto simp: journal_append_def journal_ok_def Let_def split: if_splits)
  have "hash_after None (aj_lines j) = aj_last j"
    using assms(2) by (simp add: hash_after_def journal_ok_def read_last_hash_def)
  then have l: "check_line sha (hash_after None (aj_lines j)) (rev (map ar_observation_id rs))
      (Some (canonical (journal_envelope sha (aj_last j) r))) = Inr (r, c)"
    using check_line_envelope [OF assms(1,3) fresh] j'(4) by simp
  show "journal_ok sha j' (rs @ [r])"
    using assms(2) l read_last_hash_line [OF l, of "aj_lines j"] j'
    unfolding journal_ok_def by (auto simp: verify_snoc)
  show "aj_last j' = Some c" by (rule j'(3))
qed

section \<open>Properties\<close>

text \<open>The canonical values whose digests a file contains.\<close>

fun chain_value :: "json option \<Rightarrow> json option" where
  "chain_value (Some (JObj d)) = Some (canonical (chained (jget d ''previous_sha256'') (jget d ''record'')))"
| "chain_value _ = None"

definition chain_values :: "json option list \<Rightarrow> json set" where
  "chain_values lines = set (List.map_filter chain_value lines)"

lemma chain_values_snoc: "chain_values (ls @ [l]) = chain_values ls \<union> set_option (chain_value l)"
  by (auto simp: chain_values_def map_filter_def)

lemma same_hash_same_records:
  assumes "verify_lines sha ls = Inr rs" "verify_lines sha ls' = Inr rs'" "read_last_hash ls = read_last_hash ls'"
    and "collision_free sha (chain_values ls \<union> chain_values ls')"
  shows "rs = rs'"
  using assms
proof (induction ls arbitrary: rs ls' rs' rule: rev_induct)
  case Nil
  have "ls' = []"
  proof (cases ls' rule: rev_exhaust)
    case (snoc ys y)
    from Nil(2) [unfolded snoc verify_snoc]
    obtain qs :: "int audit_record list" and r c
      where "check_line sha (hash_after None ys) (rev (map ar_observation_id qs)) y = Inr (r, c)" by blast
    from read_last_hash_line [OF this, of ys] snoc Nil(3) show ?thesis by (simp add: read_last_hash_def)
  qed
  with Nil show ?case by (simp add: verify_lines_def)
next
  case (snoc x xs)
  obtain qs r c where x: "verify_lines sha xs = Inr qs" "rs = qs @ [r]"
      "check_line sha (hash_after None xs) (rev (map ar_observation_id qs)) x = Inr (r, c)"
    using snoc.prems(1) by (auto simp: verify_snoc)
  have c: "read_last_hash ls' = Some c" using read_last_hash_line [OF x(3)] snoc.prems(3) by simp
  then have "ls' \<noteq> []" by (auto simp: read_last_hash_def)
  then obtain ys y where ls': "ls' = ys @ [y]" by (cases ls' rule: rev_exhaust) auto
  obtain qs' r' c' where y: "verify_lines sha ys = Inr qs'" "rs' = qs' @ [r']"
      "check_line sha (hash_after None ys) (rev (map ar_observation_id qs')) y = Inr (r', c')"
    using snoc.prems(2) ls' by (auto simp: verify_snoc)
  have "c' = c" using read_last_hash_line [OF y(3)] c ls' by simp
  obtain d raw where d: "x = Some (JObj d)" "map_of d ''previous_sha256'' = Some (optional_text (hash_after None xs))"
      "map_of d ''record'' = Some raw" "c = digest_of sha (chained (optional_text (hash_after None xs)) raw)"
      "record_from_dict raw = Inr r"
    using check_line_cases [OF x(3)] by metis
  obtain d' raw' where d': "y = Some (JObj d')"
      "map_of d' ''previous_sha256'' = Some (optional_text (hash_after None ys))"
      "map_of d' ''record'' = Some raw'" "c' = digest_of sha (chained (optional_text (hash_after None ys)) raw')"
      "record_from_dict raw' = Inr r'"
    using check_line_cases [OF y(3)] by metis
  let ?a = "chained (optional_text (hash_after None xs)) raw" and ?b = "chained (optional_text (hash_after None ys)) raw'"
  have m: "canonical ?a \<in> chain_values (xs @ [x]) \<union> chain_values ls'"
    "canonical ?b \<in> chain_values (xs @ [x]) \<union> chain_values ls'"
    by (simp_all add: chain_values_snoc ls' d(1-3) d'(1-3) jget_def del: canonical_JObj)
  have "sha (canonical ?a) = sha (canonical ?b)" using d(4) d'(4) \<open>c' = c\<close> by (simp add: digest_of_def)
  from inj_onD [OF snoc.prems(4) [unfolded collision_free_def] this m]
  have e: "hash_after None xs = hash_after None ys" "canonical raw = canonical raw'"
    by (simp_all add: canonical_chained)
  then have "r = r'" using d(5) d'(5) record_from_canonical [of raw] record_from_canonical [of raw'] by simp
  moreover have "qs = qs'"
  proof (rule snoc.IH [OF x(1) y(1)])
    show "read_last_hash xs = read_last_hash ys" using e(1) by (auto simp: hash_after_def read_last_hash_def split: if_splits)
    show "collision_free sha (chain_values xs \<union> chain_values ys)"
      using snoc.prems(4) unfolding collision_free_def by (rule inj_on_subset) (auto simp: chain_values_snoc ls')
  qed
  ultimately show ?case by (simp add: x(2) y(2))
qed

text \<open>
  C10. The journal is tamper-evident: if the digest does not collide on what the two files chain, two
  files that verify and end with the same hash hold the same records in the same order.
\<close>

theorem audit_chain_tamper_evident:
  assumes "verify_lines sha ls = Inr rs" "verify_lines sha ls' = Inr rs'" "read_last_hash ls = read_last_hash ls'"
    and "collision_free sha (chain_values ls \<union> chain_values ls')"
  shows "rs = rs'"
  by (rule same_hash_same_records [OF assms])

text \<open>Appending several records, the first refusal ending it.\<close>

fun append_all :: "(json \<Rightarrow> string) \<Rightarrow> journal \<Rightarrow> int audit_record list \<Rightarrow> journal result" where
  "append_all sha j [] = Inr j"
| "append_all sha j (r # rs) = bindE (journal_append sha j r) (\<lambda>(j', _). append_all sha j' rs)"

lemma append_all_ok:
  assumes "hex_digest sha"
  shows "journal_ok sha j old \<Longrightarrow> list_all audit_writable rs \<Longrightarrow> append_all sha j rs = Inr j' \<Longrightarrow>
    journal_ok sha j' (old @ rs)"
proof (induction rs arbitrary: j old)
  case (Cons r rs)
  obtain j1 c where j1: "journal_append sha j r = Inr (j1, c)" "append_all sha j1 rs = Inr j'"
    using Cons.prems(3) by (auto simp: bindE_eq_Inr)
  have "journal_ok sha j1 (old @ [r])" using append_ok(1) [OF assms Cons.prems(1) _ j1(1)] Cons.prems(2) by simp
  from Cons.IH [OF this _ j1(2)] Cons.prems(2) show ?case by simp
qed simp

text \<open>
  What is appended is what a reader verifies: after any appends to an opened journal, the file
  verifies to the records it held before followed by the appended ones in order, a lookup finds the
  first record with an id, and opening the file again gives the very state the writer has.
\<close>

theorem audit_append_verifies:
  assumes "hex_digest sha" "open_journal sha lines = Inr j" "verify_lines sha lines = Inr old"
    and "list_all audit_writable rs" "append_all sha j rs = Inr j'"
  shows "verify_lines sha (aj_lines j') = Inr (old @ rs) \<and> open_journal sha (aj_lines j') = Inr j' \<and>
    journal_find sha j' i = Inr (find (\<lambda>r. ar_observation_id r = i) (old @ rs))"
proof -
  have "journal_ok sha j old" using assms(2,3) by (auto simp: open_journal_ok journal_ok_def)
  from append_all_ok [OF assms(1) this assms(4,5)] have "journal_ok sha j' (old @ rs)" .
  then show ?thesis by (auto simp: journal_ok_def open_journal_ok journal_find_def)
qed

section \<open>Witnesses\<close>

definition flat_sha :: "json \<Rightarrow> string" where
  "flat_sha v = replicate 64 (CHR ''a'')"

lemma flat_sha_hex: "hex_digest flat_sha"
  by (simp add: hex_digest_def flat_sha_def ascii_def list_all_iff)

definition demo_record :: "string \<Rightarrow> int audit_record" where
  "demo_record i =
     \<lparr>ar_observation_id = i, ar_session_id = ''s'', ar_decided_at = 5, ar_action = ''WAIT'', ar_status = WAITING,
      ar_engine_id = None, ar_proposal_keys = [], ar_risk_reasons = [], ar_reason_codes = [''r''],
      ar_dataset = ''d'', ar_commit = ''c'', ar_config = ''f'', ar_state_sha = None\<rparr>"

lemma demo_record_writable: "\<not> blank i \<Longrightarrow> audit_writable (demo_record i)"
proof -
  have "\<not> list_ex blank [''s'', ''WAIT'', ''d'', ''c'', ''f'']" by code_simp
  then show "\<not> blank i \<Longrightarrow> ?thesis"
    by (simp add: audit_writable_def audit_fields_ok_def demo_record_def instant_in_range_def day_in_range_def
        utc_date_def epoch_ordinal_def)
qed

definition empty_journal :: journal where
  "empty_journal = \<lparr>aj_lines = [], aj_ids = [], aj_last = None\<rparr>"

lemma open_empty: "open_journal sha [] = Inr empty_journal" "journal_ok sha empty_journal []"
  by (simp_all add: open_journal_def verify_lines_def read_last_hash_def empty_journal_def journal_ok_def)

lemma demo_appends: "\<exists>j. append_all flat_sha empty_journal [demo_record ''x'', demo_record ''y''] = Inr j"
  by (simp add: journal_append_def empty_journal_def demo_record_def Let_def)

lemma demo_texts: "\<not> blank ''x''" "\<not> blank ''y''"
  by code_simp+

lemma audit_append_verifies_witness:
  "\<exists>j. append_all flat_sha empty_journal [demo_record ''x'', demo_record ''y''] = Inr j \<and>
     verify_lines flat_sha (aj_lines j) = Inr [demo_record ''x'', demo_record ''y'']"
proof -
  obtain j where j: "append_all flat_sha empty_journal [demo_record ''x'', demo_record ''y''] = Inr j"
    using demo_appends by blast
  have "verify_lines flat_sha [] = Inr []" by (simp add: verify_lines_def)
  from audit_append_verifies [OF flat_sha_hex open_empty(1) this _ j] j show ?thesis
    by (simp add: demo_record_writable demo_texts)
qed

text \<open>The same line with its keys in another order.\<close>

lemma check_line_unsorted: "check_line sha previous seen (Some (canonical v)) = check_line sha previous seen (Some v)"
proof (cases v)
  case (JObj d)
  have p: "canonical p = optional_text previous \<longleftrightarrow> p = optional_text previous" for p
    by (cases previous) (simp_all add: optional_text_def)
  have c: "digest_of sha (chained (canonical p) raw) = digest_of sha (chained p raw)" for p raw
    by (simp add: digest_of_def canonical_chained)
  have s: "(case canonical w of JStr x \<Rightarrow> f x | _ \<Rightarrow> e) = (case w of JStr x \<Rightarrow> f x | _ \<Rightarrow> e)"
    for w and f :: "string \<Rightarrow> (int audit_record \<times> string) result" and e by (cases w) simp_all
  show ?thesis
    by (simp only: JObj check_line_def option.case canonical_JObj object_of_def json.case bindE_simps key_of_sorted
        bindE_map_sum p c s digest_chained record_from_canonical)
qed (simp_all add: check_line_def object_of_def)

lemma chain_value_canonical: "chain_value (Some (canonical (JObj d))) = chain_value (Some (JObj d))"
  by (simp add: jget_sorted canonical_chained)

lemma audit_chain_tamper_evident_witness:
  "verify_lines flat_sha [Some (journal_envelope flat_sha None (demo_record ''x''))] = Inr [demo_record ''x'']"
proof -
  let ?v = "journal_envelope flat_sha None (demo_record ''x'')"
  let ?c = "digest_of flat_sha (chained (optional_text None) (JObj (record_to_dict (demo_record ''x''))))"
  have c: "check_line flat_sha None [] (Some (canonical ?v)) = Inr (demo_record ''x'', ?c)"
    by (rule check_line_envelope) (simp_all add: flat_sha_hex demo_record_writable demo_texts)
  then have u: "check_line flat_sha None [] (Some ?v) = Inr (demo_record ''x'', ?c)" by (simp only: check_line_unsorted)
  have v: "verify_lines flat_sha [Some (canonical ?v)] = Inr [demo_record ''x'']"
    and "verify_lines flat_sha [Some ?v] = Inr [demo_record ''x'']"
    using c u by (simp_all add: verify_lines_def)
  moreover have "read_last_hash [Some (canonical ?v)] = read_last_hash [Some ?v]"
    using read_last_hash_line [OF c, of "[]"] read_last_hash_line [OF u, of "[]"] by simp
  moreover have "collision_free flat_sha (chain_values [Some (canonical ?v)] \<union> chain_values [Some ?v])"
    unfolding journal_envelope_def Let_def
    by (simp only: chain_values_def map_filter_simps chain_value_canonical option.case) (simp add: collision_free_def)
  ultimately show ?thesis using audit_chain_tamper_evident by metis
qed

end
