(* ===== verification/Shadow_Runtime.thy ===== *)
theory Shadow_Runtime
  imports Risk_State_Store Shadow_Journal Meta_Engine Session
begin

text \<open>
  Model of \<open>ShadowRuntime\<close> in \<open>src/execution/shadow_runtime.py\<close>: it observes Meta decisions,
  keeps a virtual portfolio in the portfolio risk engine, saves the risk state before it
  acknowledges a change and records every observation in the audit journal. An operation returns the
  new runtime with its record or the exception; the durable files are part of the runtime.
\<close>

section \<open>State\<close>

record shadow_runtime =
  sr_context :: session_context
  sr_engine :: portfolio_engine
  sr_file :: state_file
  sr_journal :: journal

fun action_value :: "setup_action \<Rightarrow> string" where
  "action_value LONG = ''LONG''"
| "action_value SHORT = ''SHORT''"
| "action_value WAIT = ''WAIT''"
| "action_value ARBITRAGE = ''ARBITRAGE''"

text \<open>The part of a record that its caller chooses; \<open>_record\<close> adds the context.\<close>

record observation =
  ob_action :: string
  ob_status :: shadow_status
  ob_engine_id :: "string option"
  ob_keys :: "string list"
  ob_risk_reasons :: "string list"
  ob_codes :: "string list"
  ob_state_sha :: "string option"

definition record_of :: "session_context \<Rightarrow> string \<Rightarrow> 't \<Rightarrow> observation \<Rightarrow> 't audit_record" where
  "record_of c observation_id t ob =
     \<lparr>ar_observation_id = observation_id, ar_session_id = sx_session_id c, ar_decided_at = t,
      ar_action = ob_action ob, ar_status = ob_status ob, ar_engine_id = ob_engine_id ob,
      ar_proposal_keys = ob_keys ob, ar_risk_reasons = ob_risk_reasons ob, ar_reason_codes = ob_codes ob,
      ar_dataset = sx_dataset c, ar_commit = sx_commit c, ar_config = sx_config c, ar_state_sha = ob_state_sha ob\<rparr>"

definition shadow_record :: "(json \<Rightarrow> string) \<Rightarrow> shadow_runtime \<Rightarrow> string \<Rightarrow> pydatetime \<Rightarrow> observation
    \<Rightarrow> shadow_runtime \<times> int audit_record result" where
  "shadow_record sha rt observation_id t ob =
     (case make_audit_record (record_of (sr_context rt) observation_id t ob) of
        Inl e \<Rightarrow> (rt, Inl e)
      | Inr r \<Rightarrow>
          (case journal_append sha (sr_journal rt) r of
             Inl e \<Rightarrow> (rt, Inl e)
           | Inr (j, _) \<Rightarrow> (rt\<lparr>sr_journal := j\<rparr>, Inr r)))"

text \<open>\<open>from_snapshot(self.risk_engine.snapshot(), self.risk_engine.config)\<close>\<close>

definition staged_engine :: "shadow_runtime \<Rightarrow> portfolio_engine result" where
  "staged_engine rt =
     bindE (engine_snapshot (sr_engine rt)) (\<lambda>s. from_snapshot s (pe_config (sr_engine rt)))"

text \<open>\<open>risk_store.save(staged.snapshot(), ...)\<close> and \<open>self.risk_engine = staged\<close>\<close>

definition shadow_save :: "(json \<Rightarrow> string) \<Rightarrow> shadow_runtime \<Rightarrow> portfolio_engine \<Rightarrow> pydatetime
    \<Rightarrow> (shadow_runtime \<times> string) result" where
  "shadow_save sha rt staged t =
     bindE (engine_snapshot staged) (\<lambda>s.
     bindE (save_risk_state sha s (Some t) 0) (\<lambda>(f, c).
       Inr (rt\<lparr>sr_engine := staged, sr_file := f\<rparr>, c)))"

section \<open>Construction\<close>

definition initialize_shadow :: "(json \<Rightarrow> string) \<Rightarrow> trading_mode \<Rightarrow> session_context \<Rightarrow> portfolio_engine
    \<Rightarrow> state_file \<Rightarrow> journal \<Rightarrow> pydatetime \<Rightarrow> (shadow_runtime \<times> int audit_record result) result" where
  "initialize_shadow sha mode c engine f j t =
     (if mode \<noteq> SHADOW then Inl (ValueError ''ShadowRuntime requires TradingMode.SHADOW'')
      else
        bindE (load_risk_state sha f) (\<lambda>loaded.
        if loaded \<noteq> None
        then Inl (ValueError ''cannot initialize shadow runtime over existing risk state'')
        else
          bindE (verify_lines sha (aj_lines j)) (\<lambda>records.
          if records \<noteq> []
          then Inl (ValueError ''cannot initialize shadow runtime over existing audit records'')
          else
            bindE (engine_snapshot engine) (\<lambda>s.
            bindE (save_risk_state sha s (Some t) 0) (\<lambda>(f', checksum).
              Inr (shadow_record sha
                \<lparr>sr_context = c, sr_engine = engine, sr_file = f', sr_journal = j\<rparr>
                (sx_session_id c @ '':initialize'') t
                \<lparr>ob_action = ''INITIALIZE'', ob_status = INITIALIZED, ob_engine_id = None, ob_keys = [],
                 ob_risk_reasons = [], ob_codes = [''SHADOW_SESSION_INITIALIZED''], ob_state_sha = Some checksum\<rparr>))))))"

definition same_context :: "session_context \<Rightarrow> 't audit_record \<Rightarrow> bool" where
  "same_context c r \<longleftrightarrow>
     ar_session_id r = sx_session_id c \<and> ar_dataset r = sx_dataset c \<and> ar_commit r = sx_commit c \<and>
     ar_config r = sx_config c"

definition resume_shadow :: "(json \<Rightarrow> string) \<Rightarrow> trading_mode \<Rightarrow> session_context \<Rightarrow> state_file \<Rightarrow> journal
    \<Rightarrow> rat portfolio_config \<Rightarrow> shadow_runtime result" where
  "resume_shadow sha mode c f j config =
     bindE (load_required_risk_state sha f) (\<lambda>snapshot.
     bindE (verify_lines sha (aj_lines j)) (\<lambda>records.
       if records = [] then Inl (audit_error ''shadow audit is absent for persisted risk state'')
       else if \<not> list_all (same_context c) records
       then Inl (audit_error ''shadow context does not match the existing audit'')
       else
         bindE (latest_risk_state_sha sha j) (\<lambda>journal_checksum.
         bindE (risk_state_checksum sha f) (\<lambda>store_checksum.
           if journal_checksum \<noteq> None \<and> journal_checksum \<noteq> store_checksum
           then Inl (audit_error ''shadow audit and risk state are not reconciled'')
           else
             bindE (from_snapshot snapshot config) (\<lambda>engine.
               if mode \<noteq> SHADOW then Inl (ValueError ''ShadowRuntime requires TradingMode.SHADOW'')
               else Inr \<lparr>sr_context = c, sr_engine = engine, sr_file = f, sr_journal = j\<rparr>)))))"

section \<open>Observing a Meta decision\<close>

definition leg_key :: "setup_leg \<Rightarrow> string \<times> string \<times> int" where
  "leg_key l = (sl_symbol l, py_lower (sl_venue l), if sl_side l = BUY then 1 else - 1)"

definition proposal_leg_key :: "(rat, int) entry_proposal \<Rightarrow> string \<times> string \<times> int" where
  "proposal_leg_key p = (ep_symbol p, py_lower (ep_venue p), if 0 < ep_signed_notional p then 1 else - 1)"

definition balanced :: "rat list \<Rightarrow> bool" where
  "balanced ns = list_all (\<lambda>v. isclose (1 / 10 ^ 12) (1 / 10 ^ 12) v (hd ns)) (tl ns)"

definition notional_sizes :: "(rat, int) entry_proposal list \<Rightarrow> rat list" where
  "notional_sizes ps = map (\<lambda>p. \<bar>ep_signed_notional p\<bar>) ps"

definition validate_actionable :: "meta_decision \<Rightarrow> (rat, int) entry_proposal list \<Rightarrow> unit result" where
  "validate_actionable m ps =
     (case md_setup m of
        None \<Rightarrow> Inl (ValueError ''actionable shadow decision must select a setup'')
      | Some setup \<Rightarrow>
          if md_engine_id m = None
          then Inl (ValueError ''actionable shadow decision must select a setup'')
          else if ps = [] \<or> length ps \<noteq> length (sd_legs setup)
          then Inl (ValueError ''shadow proposals must map one-to-one to setup legs'')
          else if \<not> distinct (map ep_key ps)
          then Inl (ValueError ''shadow proposal keys must be unique'')
          else if mset (map proposal_leg_key ps) \<noteq> mset (map leg_key (sd_legs setup))
          then Inl (ValueError ''shadow proposals do not match selected setup legs'')
          else if list_ex (\<lambda>p. ep_proposed_at p \<noteq> md_decided_at m) ps
          then Inl (ValueError ''shadow proposals must share the Meta decision timestamp'')
          else if list_ex (\<lambda>p. md_allocated m < \<bar>ep_signed_notional p\<bar>) ps
          then Inl (ValueError ''shadow proposal exceeds Meta allocation'')
          else if md_action m \<noteq> ARBITRAGE \<and> md_allocated m < sum_list (notional_sizes ps)
          then Inl (ValueError ''directional shadow proposals exceed total Meta allocation'')
          else if md_action m = ARBITRAGE \<and> \<not> balanced (notional_sizes ps)
          then Inl (ValueError ''shadow arbitrage legs must start balanced'')
          else Inr ())"

text \<open>
  The loop over the proposals on the staged engine: the decisions up to the first rejection, or
  all of them, each opened.
\<close>

fun stage_proposals :: "portfolio_engine \<Rightarrow> num \<Rightarrow> (rat, int) entry_proposal list
    \<Rightarrow> (portfolio_engine \<times> portfolio_decision list) result" where
  "stage_proposals e equity [] = Inr (e, [])"
| "stage_proposals e equity (p # ps) =
     (case evaluate_entry e p equity of
        (e1, Inl x) \<Rightarrow> Inl x
      | (e1, Inr d) \<Rightarrow>
          if \<not> pd_approved d then Inr (e1, [d])
          else (case record_open e1 p d of
                  (e2, Inl x) \<Rightarrow> Inl x
                | (e2, Inr _) \<Rightarrow>
                    bindE (stage_proposals e2 equity ps) (\<lambda>(e3, ds). Inr (e3, d # ds))))"

definition capacity_mismatch :: "(rat, int) entry_proposal list \<Rightarrow> portfolio_decision list \<Rightarrow> bool" where
  "capacity_mismatch ps ds =
     list_ex (\<lambda>(p, d). \<not> isclose (1 / 10 ^ 12) (1 / 10 ^ 12) \<bar>pd_signed_notional d\<bar> \<bar>ep_signed_notional p\<bar>)
       (zip ps ds)"

definition rejection_observation :: "meta_decision \<Rightarrow> (rat, int) entry_proposal list
    \<Rightarrow> portfolio_decision list \<Rightarrow> string list \<Rightarrow> observation" where
  "rejection_observation m ps ds codes =
     \<lparr>ob_action = action_value (md_action m), ob_status = RISK_REJECTED, ob_engine_id = md_engine_id m,
      ob_keys = map ep_key ps, ob_risk_reasons = map pd_reason ds, ob_codes = codes, ob_state_sha = None\<rparr>"

definition shadow_observe :: "(json \<Rightarrow> string) \<Rightarrow> shadow_runtime \<Rightarrow> meta_decision \<Rightarrow> string
    \<Rightarrow> (rat, int) entry_proposal list \<Rightarrow> num \<Rightarrow> shadow_runtime \<times> int audit_record result" where
  "shadow_observe sha rt m observation_id ps equity =
     (case ensure_available (sr_journal rt) observation_id of
        Inl x \<Rightarrow> (rt, Inl x)
      | Inr _ \<Rightarrow>
          if md_action m = WAIT
          then
            (if ps \<noteq> [] then (rt, Inl (ValueError ''WAIT shadow observation cannot carry proposals''))
             else shadow_record sha rt observation_id (Aware (md_decided_at m))
                    \<lparr>ob_action = action_value (md_action m), ob_status = WAITING, ob_engine_id = None,
                     ob_keys = [], ob_risk_reasons = [], ob_codes = md_reason_codes m, ob_state_sha = None\<rparr>)
          else
            (case bindE (validate_actionable m ps) (\<lambda>_.
                    bindE (staged_engine rt) (\<lambda>staged. stage_proposals staged equity ps)) of
               Inl x \<Rightarrow> (rt, Inl x)
             | Inr (staged, ds) \<Rightarrow>
                 if \<not> pd_approved (last ds)
                 then shadow_record sha rt observation_id (Aware (md_decided_at m))
                        (rejection_observation m ps ds [''PORTFOLIO_RISK_REJECTED'', pd_reason (last ds)])
                 else if md_action m = ARBITRAGE \<and> capacity_mismatch ps ds
                 then shadow_record sha rt observation_id (Aware (md_decided_at m))
                        (rejection_observation m ps ds [''ARBITRAGE_LEG_CAPACITY_MISMATCH''])
                 else
                   (case shadow_save sha rt staged (Aware (md_decided_at m)) of
                      Inl x \<Rightarrow> (rt, Inl x)
                    | Inr (rt', checksum) \<Rightarrow>
                        shadow_record sha rt' observation_id (Aware (md_decided_at m))
                          \<lparr>ob_action = action_value (md_action m), ob_status = ELIGIBLE_NO_ORDER,
                           ob_engine_id = md_engine_id m, ob_keys = map ep_key ps,
                           ob_risk_reasons = map pd_reason ds, ob_codes = [''SHADOW_ONLY_NO_ORDER_SUBMISSION''],
                           ob_state_sha = Some checksum\<rparr>)))"

section \<open>Closing and holding\<close>

fun stage_closes :: "portfolio_engine \<Rightarrow> int \<Rightarrow> (string \<times> num) list \<Rightarrow> portfolio_engine result" where
  "stage_closes e t [] = Inr e"
| "stage_closes e t ((k, pnl) # rest) =
     (case record_close e k pnl (Aware t) of
        (e', Inl x) \<Rightarrow> Inl x
      | (e', Inr _) \<Rightarrow> stage_closes e' t rest)"

definition close_virtual :: "(json \<Rightarrow> string) \<Rightarrow> shadow_runtime \<Rightarrow> string \<Rightarrow> (string \<times> num) list \<Rightarrow> pydatetime
    \<Rightarrow> shadow_runtime \<times> int audit_record result" where
  "close_virtual sha rt observation_id pnls closed_at_utc =
     (case bindE (ensure_available (sr_journal rt) observation_id) (\<lambda>_.
           bindE (utc_of ''shadow close timestamp must be timezone-aware'' closed_at_utc) (\<lambda>t.
             if map fst pnls = [] \<or> \<not> distinct (map fst pnls)
             then Inl (ValueError ''shadow close requires unique position keys'')
             else
               bindE (staged_engine rt) (\<lambda>e.
               bindE (stage_closes e t pnls) (\<lambda>staged.
               bindE (shadow_save sha rt staged (Aware t)) (\<lambda>(rt', checksum). Inr (t, rt', checksum)))))) of
        Inl x \<Rightarrow> (rt, Inl x)
      | Inr (t, rt', checksum) \<Rightarrow>
          shadow_record sha rt' observation_id (Aware t)
            \<lparr>ob_action = ''CLOSE'', ob_status = VIRTUAL_CLOSE, ob_engine_id = None, ob_keys = map fst pnls,
             ob_risk_reasons = [], ob_codes = [''VIRTUAL_POSITION_CLOSED''], ob_state_sha = Some checksum\<rparr>)"

definition activate_safety_hold :: "(json \<Rightarrow> string) \<Rightarrow> shadow_runtime \<Rightarrow> string \<Rightarrow> string \<Rightarrow> pydatetime
    \<Rightarrow> shadow_runtime \<times> int audit_record result" where
  "activate_safety_hold sha rt observation_id reason activated_at_utc =
     (case bindE (ensure_available (sr_journal rt) observation_id) (\<lambda>_.
           bindE (utc_of ''shadow safety-hold timestamp must be timezone-aware'' activated_at_utc) (\<lambda>t.
             if blank reason then Inl (ValueError ''shadow safety hold requires a reason'')
             else
               bindE (staged_engine rt) (\<lambda>e.
               bindE (snd (activate_kill_switch e reason)) (\<lambda>_.
               bindE (shadow_save sha rt (fst (activate_kill_switch e reason)) (Aware t)) (\<lambda>(rt', checksum).
                 Inr (t, rt', checksum)))))) of
        Inl x \<Rightarrow> (rt, Inl x)
      | Inr (t, rt', checksum) \<Rightarrow>
          shadow_record sha rt' observation_id (Aware t)
            \<lparr>ob_action = ''SAFETY_HOLD'', ob_status = SHADOW_SAFETY_HOLD, ob_engine_id = None, ob_keys = [],
             ob_risk_reasons = [reason], ob_codes = [''SHADOW_EVENT_LOOP_FAILURE_THRESHOLD''],
             ob_state_sha = Some checksum\<rparr>)"

section \<open>Opening the legs\<close>

lemma approved_step:
  assumes inv: "portfolio_inv e" and p: "proposal_ok p"
    and ev: "evaluate_entry e p v = (e1, Inr d)" "pd_approved d" and o: "record_open e1 p d = (e2, x)"
  shows "x = Inr ()" "portfolio_inv e2" "pe_positions e2 = pe_positions e @ [(ep_key p, opened_position p d)]"
    "pe_config e2 = pe_config e" "pe_kill_reason e = None" "pe_kill_reason e2 = None"
    "pe_current_day e2 = Some (utc_date (ep_proposed_at p))" "pe_pending e2 = AList.delete (ep_key p) (pe_pending e1)"
    "\<exists>equity. v = Fin equity \<and> within_limits e2 p equity" "\<bar>pd_signed_notional d\<bar> \<le> \<bar>ep_signed_notional p\<bar>"
    "pd_reason d = ''APPROVED''"
proof -
  have cfg: "portfolio_config_ok (pe_config e)" using inv by (simp add: portfolio_inv_def)
  have op: "openable e1 p d" by (rule evaluate_openable [OF cfg p ev])
  note open2 = record_open_openable [OF op p]
  note frame = evaluate_frame [OF cfg p ev(1)]
  have e2: "e2 = e1\<lparr>pe_positions := pe_positions e1 @ [(ep_key p, opened_position p d)],
      pe_pending := AList.delete (ep_key p) (pe_pending e1)\<rparr>" and x: "x = Inr ()"
    using o open2 by simp_all
  show "x = Inr ()" by (rule x)
  show "portfolio_inv e2" by (rule record_open_inv [OF evaluate_entry_inv [OF inv p ev(1)] o])
  show "pe_positions e2 = pe_positions e @ [(ep_key p, opened_position p d)]" "pe_config e2 = pe_config e"
    "pe_pending e2 = AList.delete (ep_key p) (pe_pending e1)"
    using frame by (simp_all add: e2)
  show "\<bar>pd_signed_notional d\<bar> \<le> \<bar>ep_signed_notional p\<bar>"
    using op by (auto simp: openable_def)
  obtain f1 f2 equity a d' where c: "portfolio_roll_day e (ep_proposed_at p) = (f1, True)" "v = Fin equity"
      "f2 = f1\<lparr>pe_peak_equity := max (pe_peak_equity f1) equity\<rparr>" "blocking_reason f2 p equity = None"
      "e1 = f2\<lparr>pe_pending := AList.update (ep_key p) d' (pe_pending f2)\<rparr>" "d = d'" "pd_reason d' = ''APPROVED''"
    using cfg p ev(1)
  proof (cases rule: evaluate_entry_cases)
    case (approved g1 g2 equity a d')
    then show ?thesis using that [of g1 equity g2 d'] by simp
  qed (use ev(2) in \<open>auto dest: rejected_not_approved [OF sym]\<close>)
  show "pd_reason d = ''APPROVED''" using c by simp
  have "pe_kill_reason f2 = None" using c(4) by (auto simp: blocking_reason_def Let_def split: option.splits)
  then show k: "pe_kill_reason e = None" using c(1,3) by (simp add: portfolio_roll_frame)
  with frame show "pe_kill_reason e2 = None" by (simp add: e2)
  have "pe_current_day f1 = Some (utc_date (ep_proposed_at p))"
    using c(1) by (auto simp: portfolio_roll_day_def split: option.splits if_splits)
  with c(3,5) show "pe_current_day e2 = Some (utc_date (ep_proposed_at p))" by (simp add: e2)
  show "\<exists>equity. v = Fin equity \<and> within_limits e2 p equity"
    using opened_within_limits [OF inv p _ ev(2), of equity] ev(1) c(2) o by auto
qed

definition opened_pairs :: "(rat, int) entry_proposal list \<Rightarrow> portfolio_decision list
    \<Rightarrow> (string \<times> (rat, int) portfolio_position) list" where
  "opened_pairs ps ds = map (\<lambda>(p, d). (ep_key p, opened_position p d)) (zip ps ds)"

text \<open>
  Every leg at its stage: the portfolio with the legs up to it opened is within the limits that concern
  it.
\<close>

definition staged_within :: "portfolio_engine \<Rightarrow> (rat, int) entry_proposal list \<Rightarrow> portfolio_decision list \<Rightarrow> rat \<Rightarrow> bool" where
  "staged_within e ps ds equity \<longleftrightarrow>
     (\<forall>k < length ps. within_limits
        (e\<lparr>pe_positions := pe_positions e @ opened_pairs (take (Suc k) ps) (take (Suc k) ds)\<rparr>) (ps ! k) equity)"

lemma within_limits_cong:
  "pe_config e = pe_config e' \<Longrightarrow> pe_positions e = pe_positions e' \<Longrightarrow> within_limits e p q = within_limits e' p q"
  by (simp add: within_limits_def gross_exposure_def net_exposure_def gross_where_def committed_risk_fraction_def held_def)

lemma staged_within_Cons:
  assumes "within_limits e2 p equity" "staged_within e2 ps ds equity" "pe_config e2 = pe_config e"
    "pe_positions e2 = pe_positions e @ [(ep_key p, opened_position p d)]"
  shows "staged_within e (p # ps) (d # ds) equity"
  unfolding staged_within_def
proof (intro allI impI)
  fix k assume "k < length (p # ps)"
  then show "within_limits (e\<lparr>pe_positions := pe_positions e @ opened_pairs (take (Suc k) (p # ps)) (take (Suc k) (d # ds))\<rparr>)
      ((p # ps) ! k) equity"
  proof (cases k)
    case 0
    have "within_limits (e\<lparr>pe_positions := pe_positions e @ [(ep_key p, opened_position p d)]\<rparr>) p equity = within_limits e2 p equity"
      by (rule within_limits_cong) (simp_all add: assms(3,4))
    then show ?thesis using assms(1) 0 by (simp add: opened_pairs_def)
  next
    case (Suc j)
    then have "within_limits (e2\<lparr>pe_positions := pe_positions e2 @ opened_pairs (take (Suc j) ps) (take (Suc j) ds)\<rparr>) (ps ! j) equity"
      using assms(2) \<open>k < length (p # ps)\<close> by (simp add: staged_within_def)
    moreover have "within_limits (e\<lparr>pe_positions := pe_positions e @ opened_pairs (take (Suc k) (p # ps)) (take (Suc k) (d # ds))\<rparr>)
        (ps ! j) equity =
      within_limits (e2\<lparr>pe_positions := pe_positions e2 @ opened_pairs (take (Suc j) ps) (take (Suc j) ds)\<rparr>) (ps ! j) equity"
      by (rule within_limits_cong) (simp_all add: assms(3,4) Suc opened_pairs_def)
    ultimately show ?thesis by (simp add: Suc)
  qed
qed

text \<open>What a runtime needs of its engine, beyond the invariant: room and times that can be written.\<close>

definition shadow_engine_ok :: "portfolio_engine \<Rightarrow> bool" where
  "shadow_engine_ok e \<longleftrightarrow>
     portfolio_inv e \<and> int (length (pe_positions e)) \<le> max_open_positions (pe_config e) \<and>
     snapshot_writable (snapshot_of e)"

lemma writable_positions:
  "snapshot_writable (snapshot_of e) \<longleftrightarrow>
     (\<forall>q \<in> set (held e). instant_in_range (pp_opened_at q)) \<and>
     (case pe_current_day e of None \<Rightarrow> True | Some d \<Rightarrow> day_in_range d)"
  by (simp add: snapshot_writable_def snapshot_of_def sorted_positions_def list_all_iff)

lemma opened_engine_ok:
  assumes "shadow_engine_ok e" "portfolio_inv e2" "pe_positions e2 = pe_positions e @ [(k, opened_position p d)]"
    "pe_current_day e2 = Some (utc_date (ep_proposed_at p))" "instant_in_range (ep_proposed_at p)"
    "int (length (pe_positions e2)) \<le> max_open_positions (pe_config e2)"
  shows "shadow_engine_ok e2"
  using assms
  by (auto simp: shadow_engine_ok_def writable_positions held_def opened_position_def instant_in_range_def)

text \<open>The loop: it ends with every leg opened within the limits, or at the first rejection.\<close>

lemma stage_proposals_cases:
  assumes "stage_proposals e v ps = Inr (e', ds)" "shadow_engine_ok e"
    "list_all proposal_ok ps" "list_all (\<lambda>p. instant_in_range (ep_proposed_at p)) ps" "ps \<noteq> []"
  obtains (all) equity where "list_all pd_approved ds" "length ds = length ps" "shadow_engine_ok e'"
      "pe_positions e' = pe_positions e @ opened_pairs ps ds" "pe_config e' = pe_config e"
      "pe_kill_reason e = None" "v = Fin equity" "within_limits e' (last ps) equity" "ds \<noteq> []"
      "\<forall>(p, d) \<in> set (zip ps ds). \<bar>pd_signed_notional d\<bar> \<le> \<bar>ep_signed_notional p\<bar>" "staged_within e ps ds equity"
  | (rejected) "\<not> pd_approved (last ds)" "ds \<noteq> []"
  using assms
proof (induction e v ps arbitrary: e' ds thesis rule: stage_proposals.induct)
  case (2 e v p ps)
  obtain e1 r where ev: "evaluate_entry e p v = (e1, r)" by fastforce
  obtain d where d: "r = Inr d" using "2.prems"(3) ev by (cases r) auto
  have ok: "portfolio_inv e" "proposal_ok p" using "2.prems"(4,5) by (simp_all add: shadow_engine_ok_def)
  show ?case
  proof (cases "pd_approved d")
    case False
    with "2.prems"(3) ev d have "ds = [d]" by simp
    with False "2.prems"(2) show ?thesis by simp
  next
    case True
    obtain e2 x where o: "record_open e1 p d = (e2, x)" by fastforce
    note s = approved_step [OF ok ev [unfolded d] True o]
    obtain e3 ds' where rest: "stage_proposals e2 v ps = Inr (e3, ds')" "e' = e3" "ds = d # ds'"
      using "2.prems"(3) ev d True o s(1) by (auto simp: bindE_eq_Inr)
    obtain equity where eq: "v = Fin equity" "within_limits e2 p equity" using s(9) by blast
    have e2: "shadow_engine_ok e2"
      by (rule opened_engine_ok [OF "2.prems"(4) s(2,3,7)])
        (use "2.prems"(6) eq(2) in \<open>simp_all add: within_limits_def Let_def\<close>)
    show ?thesis
    proof (cases ps)
      case Nil
      with rest have r: "e' = e2" "ds = [d]" by simp_all
      have w: "staged_within e (p # ps) ds equity"
        unfolding r(2) by (rule staged_within_Cons [OF eq(2)]) (use s Nil in \<open>simp_all add: staged_within_def\<close>)
      show ?thesis
        by (rule "2.prems"(1) [of equity])
          (use r Nil True e2 s eq w in \<open>simp_all add: opened_pairs_def\<close>)
    next
      case (Cons q qs)
      have prem: "list_all proposal_ok ps" "list_all (\<lambda>p. instant_in_range (ep_proposed_at p)) ps" "ps \<noteq> []"
        using "2.prems"(5,6) Cons by simp_all
      show ?thesis
      proof (rule "2.IH" [OF ev [symmetric, unfolded d] refl _ o [symmetric, unfolded s(1)] refl _ _ rest(1) e2 prem])
        show "\<not> \<not> pd_approved d" using True by simp
      next
        fix equity'
        assume a: "list_all pd_approved ds'" "length ds' = length ps" "shadow_engine_ok e3"
          "pe_positions e3 = pe_positions e2 @ opened_pairs ps ds'" "pe_config e3 = pe_config e2"
          "pe_kill_reason e2 = None" "v = Fin equity'" "within_limits e3 (last ps) equity'" "ds' \<noteq> []"
          "\<forall>(p, d) \<in> set (zip ps ds'). \<bar>pd_signed_notional d\<bar> \<le> \<bar>ep_signed_notional p\<bar>" "staged_within e2 ps ds' equity'"
        have "equity' = equity" using a(7) eq(1) by simp
        then have w: "staged_within e (p # ps) ds equity'"
          unfolding rest(3) using eq(2) s a(11) by (intro staged_within_Cons [of e2]) simp_all
        show ?thesis
          by (rule "2.prems"(1) [of equity'])
            (use a rest True s prem(3) w in \<open>simp_all add: opened_pairs_def\<close>)
      next
        assume "\<not> pd_approved (last ds')" "ds' \<noteq> []"
        then show ?thesis using "2.prems"(2) rest by simp
      qed
    qed
  qed
qed simp

section \<open>The invariant of a session\<close>

definition context_ok :: "session_context \<Rightarrow> bool" where
  "context_ok c \<longleftrightarrow> \<not> list_ex blank [sx_session_id c, sx_dataset c, sx_commit c, sx_config c]"

text \<open>
  Memory, state file and journal agree: the file holds the snapshot of the engine, the last
  checksum in the journal is that of the file, and the journal verifies to the records of this session.
\<close>

definition shadow_ok :: "(json \<Rightarrow> string) \<Rightarrow> shadow_runtime \<Rightarrow> int audit_record list \<Rightarrow> bool" where
  "shadow_ok sha rt rs \<longleftrightarrow>
     context_ok (sr_context rt) \<and> shadow_engine_ok (sr_engine rt) \<and> journal_ok sha (sr_journal rt) rs \<and> rs \<noteq> [] \<and>
     list_all (same_context (sr_context rt)) rs \<and>
     load_risk_state sha (sr_file rt) = Inr (Some (snapshot_of (sr_engine rt))) \<and>
     risk_state_checksum sha (sr_file rt) = Inr (latest_state_sha rs) \<and> latest_state_sha rs \<noteq> None"

lemma staged_engine_ok:
  "shadow_engine_ok (sr_engine rt) \<Longrightarrow> staged_engine rt = Inr (restored_engine (sr_engine rt))"
  by (simp add: staged_engine_def shadow_engine_ok_def engine_snapshot_of from_snapshot_of)

lemma restored_engine_ok: "shadow_engine_ok e \<Longrightarrow> shadow_engine_ok (restored_engine e)"
  by (simp add: shadow_engine_ok_def restored_inv)

lemma snapshot_of_ok: "portfolio_inv e \<Longrightarrow> snapshot_ok (snapshot_of e)"
proof -
  assume inv: "portfolio_inv e"
  have "\<forall>p \<in> set (held e). position_ok p" using inv by (auto simp: held_def portfolio_inv_def)
  with inv held_keys(2) [OF inv] show ?thesis
    by (auto simp: snapshot_ok_def snapshot_of_def sorted_positions_def list_all_iff portfolio_inv_def)
qed

text \<open>A save of a sound engine succeeds; the result is loaded back.\<close>

lemma shadow_save_ok:
  assumes "hex_digest sha" "shadow_engine_ok staged" "instant_in_range t"
  obtains f c where "shadow_save sha rt staged (Aware t) = Inr (rt\<lparr>sr_engine := staged, sr_file := f\<rparr>, c)"
    "load_risk_state sha f = Inr (Some (snapshot_of staged))" "risk_state_checksum sha f = Inr (Some c)" "length c = 64"
proof -
  have inv: "portfolio_inv staged" "snapshot_writable (snapshot_of staged)" using assms(2) by (simp_all add: shadow_engine_ok_def)
  obtain f c where s: "save_risk_state sha (snapshot_of staged) (Some (Aware t)) 0 = Inr (f, c)"
    using assms(3) by (simp add: save_risk_state_def Let_def)
  have "length c = 64" using s assms(1,3) by (auto simp: save_risk_state_def Let_def hex_digest_def digest_of_def)
  moreover have "shadow_save sha rt staged (Aware t) = Inr (rt\<lparr>sr_engine := staged, sr_file := f\<rparr>, c)"
    using s inv(1) by (simp add: shadow_save_def engine_snapshot_of)
  ultimately show thesis
    using that saved_loads [OF assms(1) snapshot_of_ok [OF inv(1)] inv(2) assms(3) s] by blast
qed

definition observation_ok :: "observation \<Rightarrow> bool" where
  "observation_ok ob \<longleftrightarrow>
     \<not> blank (ob_action ob) \<and> ob_codes ob \<noteq> [] \<and> (case ob_state_sha ob of None \<Rightarrow> True | Some s \<Rightarrow> length s = 64)"

text \<open>A well-formed observation under a fresh id is always recorded.\<close>

lemma shadow_record_ok:
  assumes "hex_digest sha" "context_ok (sr_context rt)" "journal_ok sha (sr_journal rt) rs" "observation_ok ob"
    "\<not> blank i" "i \<notin> set (aj_ids (sr_journal rt))" "instant_in_range t"
  obtains j where
    "shadow_record sha rt i (Aware t) ob = (rt\<lparr>sr_journal := j\<rparr>, Inr (record_of (sr_context rt) i t ob))"
    "journal_ok sha j (rs @ [record_of (sr_context rt) i t ob])"
proof -
  let ?r = "record_of (sr_context rt) i t ob"
  have f: "audit_fields_ok ?r"
    using assms(2,4,5) by (auto simp: audit_fields_ok_def record_of_def context_ok_def observation_ok_def)
  then have m: "make_audit_record (record_of (sr_context rt) i (Aware t) ob) = Inr ?r"
    unfolding make_audit_record_cases by (simp add: audit_fields_ok_def record_of_def)
  obtain j c where a: "journal_append sha (sr_journal rt) ?r = Inr (j, c)"
    using assms(6) by (simp add: journal_append_def record_of_def Let_def)
  have "audit_writable ?r" using f assms(7) by (simp add: audit_writable_def record_of_def)
  from append_ok(1) [OF assms(1,3) this a] m a that show thesis by (simp add: shadow_record_def)
qed

lemma ensure_available_Inr:
  "ensure_available j i = Inr u \<longleftrightarrow> \<not> blank i \<and> i \<notin> set (aj_ids j)"
  by (simp add: ensure_available_def)

lemma latest_state_sha_snoc:
  "latest_state_sha (rs @ [r]) = (if ar_state_sha r \<noteq> None then ar_state_sha r else latest_state_sha rs)"
  by (simp add: latest_state_sha_def)

text \<open>An observation without a checksum keeps the session sound, one with a save moves it.\<close>

lemma recorded_ok:
  assumes "hex_digest sha" "shadow_ok sha rt rs" "observation_ok ob" "ob_state_sha ob = None"
    "ensure_available (sr_journal rt) i = Inr u" "instant_in_range t"
    "shadow_record sha rt i (Aware t) ob = (rt', res)"
  shows "shadow_ok sha rt' (rs @ [record_of (sr_context rt) i t ob])" "res = Inr (record_of (sr_context rt) i t ob)"
    "sr_engine rt' = sr_engine rt" "sr_file rt' = sr_file rt" "sr_context rt' = sr_context rt"
proof -
  have c: "context_ok (sr_context rt)" "journal_ok sha (sr_journal rt) rs" using assms(2) by (simp_all add: shadow_ok_def)
  obtain j where j: "rt' = rt\<lparr>sr_journal := j\<rparr>" "res = Inr (record_of (sr_context rt) i t ob)"
    "journal_ok sha j (rs @ [record_of (sr_context rt) i t ob])"
    using shadow_record_ok [OF assms(1) c assms(3) _ _ assms(6), of i] assms(5,7) by (auto simp: ensure_available_Inr)
  have "ar_state_sha (record_of (sr_context rt) i t ob) = None" "same_context (sr_context rt) (record_of (sr_context rt) i t ob)"
    using assms(4) by (simp_all add: record_of_def same_context_def)
  with assms(2) j show "shadow_ok sha rt' (rs @ [record_of (sr_context rt) i t ob])"
    by (simp add: shadow_ok_def latest_state_sha_snoc)
  show "res = Inr (record_of (sr_context rt) i t ob)" by (rule j(2))
  show "sr_engine rt' = sr_engine rt" "sr_file rt' = sr_file rt" "sr_context rt' = sr_context rt" by (simp_all add: j(1))
qed

lemma saved_ok:
  assumes "hex_digest sha" "shadow_ok sha rt rs" "shadow_engine_ok staged" "instant_in_range t"
    "shadow_save sha rt staged (Aware t) = Inr (rt1, c)" "observation_ok (ob\<lparr>ob_state_sha := None\<rparr>)" "ob_state_sha ob = Some c"
    "ensure_available (sr_journal rt) i = Inr u" "shadow_record sha rt1 i (Aware t) ob = (rt', res)"
  shows "shadow_ok sha rt' (rs @ [record_of (sr_context rt) i t ob])" "res = Inr (record_of (sr_context rt) i t ob)"
    "sr_engine rt' = staged" "sr_context rt' = sr_context rt"
proof -
  obtain f where f: "rt1 = rt\<lparr>sr_engine := staged, sr_file := f\<rparr>"
    "load_risk_state sha f = Inr (Some (snapshot_of staged))" "risk_state_checksum sha f = Inr (Some c)" "length c = 64"
    using shadow_save_ok [OF assms(1,3,4), of rt] assms(5) by (metis Inr_inject Pair_inject)
  have c: "context_ok (sr_context rt1)" "journal_ok sha (sr_journal rt1) rs" using assms(2) by (simp_all add: shadow_ok_def f(1))
  have ob: "observation_ok ob" using assms(6,7) f(4) by (simp add: observation_ok_def)
  obtain j where j: "rt' = rt1\<lparr>sr_journal := j\<rparr>" "res = Inr (record_of (sr_context rt) i t ob)"
    "journal_ok sha j (rs @ [record_of (sr_context rt) i t ob])"
    using shadow_record_ok [OF assms(1) c ob _ _ assms(4), of i] assms(8,9) by (auto simp: ensure_available_Inr f(1))
  have "ar_state_sha (record_of (sr_context rt) i t ob) = Some c" "same_context (sr_context rt) (record_of (sr_context rt) i t ob)"
    using assms(7) by (simp_all add: record_of_def same_context_def)
  with assms(2,3) f j show "shadow_ok sha rt' (rs @ [record_of (sr_context rt) i t ob])"
    by (simp add: shadow_ok_def latest_state_sha_snoc)
  show "res = Inr (record_of (sr_context rt) i t ob)" by (rule j(2))
  show "sr_engine rt' = staged" "sr_context rt' = sr_context rt" by (simp_all add: j(1) f(1))
qed

section \<open>The operations\<close>

lemma action_value_not_blank: "\<not> blank (action_value a)"
proof -
  have "\<not> list_ex blank [''LONG'', ''SHORT'', ''WAIT'', ''ARBITRAGE'']" by code_simp
  then show ?thesis by (cases a) simp_all
qed

lemma fixed_texts: "\<not> blank ''WAIT''" "\<not> blank ''CLOSE''" "\<not> blank ''SAFETY_HOLD''" "\<not> blank ''INITIALIZE''"
  by code_simp+

definition observe_args_ok :: "meta_decision \<Rightarrow> (rat, int) entry_proposal list \<Rightarrow> bool" where
  "observe_args_ok m ps \<longleftrightarrow>
     make_meta_decision m = Inr m \<and> instant_in_range (md_decided_at m) \<and> list_all proposal_ok ps"

lemma validate_actionable_Inr:
  assumes "validate_actionable m ps = Inr u"
  shows "ps \<noteq> []" "\<forall>p \<in> set ps. ep_proposed_at p = md_decided_at m \<and> \<bar>ep_signed_notional p\<bar> \<le> md_allocated m"
    "md_action m = ARBITRAGE \<Longrightarrow> balanced (notional_sizes ps)"
    "md_action m \<noteq> ARBITRAGE \<Longrightarrow> sum_list (notional_sizes ps) \<le> md_allocated m"
  using assms by (auto simp: validate_actionable_def list_ex_iff split: option.splits if_splits)

text \<open>
  Every observation of valid arguments: refused and nothing changed, recorded without touching the
  engine, or recorded as eligible with the staged engine saved and installed.
\<close>

lemma shadow_observe_cases:
  assumes "hex_digest sha" "shadow_ok sha rt rs" "observe_args_ok m ps" "shadow_observe sha rt m i ps v = (rt', res)"
  obtains (refused) x where "res = Inl x" "rt' = rt"
  | (kept) r where "res = Inr r" "ar_status r \<in> {WAITING, RISK_REJECTED}" "shadow_ok sha rt' (rs @ [r])"
      "sr_engine rt' = sr_engine rt" "sr_file rt' = sr_file rt" "sr_context rt' = sr_context rt"
  | (eligible) r ds equity where "res = Inr r" "ar_status r = ELIGIBLE_NO_ORDER" "shadow_ok sha rt' (rs @ [r])"
      "sr_context rt' = sr_context rt" "md_action m \<noteq> WAIT" "validate_actionable m ps = Inr ()" "length ds = length ps"
      "pe_positions (sr_engine rt') = pe_positions (restored_engine (sr_engine rt)) @ opened_pairs ps ds"
      "pe_config (sr_engine rt') = pe_config (sr_engine rt)" "pe_kill_reason (sr_engine rt) = None"
      "v = Fin equity" "within_limits (sr_engine rt') (last ps) equity"
      "\<forall>(p, d) \<in> set (zip ps ds). \<bar>pd_signed_notional d\<bar> \<le> \<bar>ep_signed_notional p\<bar>"
      "md_action m = ARBITRAGE \<Longrightarrow> \<not> capacity_mismatch ps ds"
      "staged_within (restored_engine (sr_engine rt)) ps ds equity"
proof (cases "ensure_available (sr_journal rt) i")
  case (Inl x)
  with assms(4) have "res = Inl x" "rt' = rt" by (auto simp: shadow_observe_def)
  then show thesis by (rule refused)
next
  case (Inr u)
  have t: "instant_in_range (md_decided_at m)" using assms(3) by (simp add: observe_args_ok_def)
  have eng: "shadow_engine_ok (sr_engine rt)" using assms(2) by (simp add: shadow_ok_def)
  show thesis
  proof (cases "md_action m = WAIT")
    case True
    show thesis
    proof (cases "ps = []")
      case False
      with assms(4) Inr True have "res = Inl (ValueError ''WAIT shadow observation cannot carry proposals'')" "rt' = rt"
        by (auto simp: shadow_observe_def)
      then show thesis by (rule refused)
    next
      case ps: True
      let ?ob = "\<lparr>ob_action = action_value (md_action m), ob_status = WAITING, ob_engine_id = None,
        ob_keys = [], ob_risk_reasons = [], ob_codes = md_reason_codes m, ob_state_sha = None\<rparr>"
      have "observation_ok ?ob"
        using assms(3) True fixed_texts(1)
        by (auto simp: observation_ok_def observe_args_ok_def make_meta_decision_def split: if_splits)
      moreover have "shadow_record sha rt i (Aware (md_decided_at m)) ?ob = (rt', res)"
        using assms(4) Inr True ps by (simp add: shadow_observe_def)
      moreover have "ob_state_sha ?ob = None" by simp
      ultimately have "shadow_ok sha rt' (rs @ [record_of (sr_context rt) i (md_decided_at m) ?ob]) \<and>
          res = Inr (record_of (sr_context rt) i (md_decided_at m) ?ob) \<and>
          sr_engine rt' = sr_engine rt \<and> sr_file rt' = sr_file rt \<and> sr_context rt' = sr_context rt"
        using recorded_ok [OF assms(1,2) _ _ Inr t] by blast
      then have s: "shadow_ok sha rt' (rs @ [record_of (sr_context rt) i (md_decided_at m) ?ob])"
          "res = Inr (record_of (sr_context rt) i (md_decided_at m) ?ob)"
          "sr_engine rt' = sr_engine rt" "sr_file rt' = sr_file rt" "sr_context rt' = sr_context rt" by blast+
      show thesis by (rule kept [OF s(2) _ s(1,3,4,5)]) (simp add: record_of_def)
    qed
  next
    case act: False
    let ?q = "bindE (validate_actionable m ps) (\<lambda>_. bindE (staged_engine rt) (\<lambda>staged. stage_proposals staged v ps))"
    show thesis
    proof (cases ?q)
      case (Inl x)
      with assms(4) \<open>ensure_available (sr_journal rt) i = Inr u\<close> act have "res = Inl x" "rt' = rt"
        by (auto simp: shadow_observe_def)
      then show thesis by (rule refused)
    next
      case q: (Inr sd)
      obtain staged ds where sd: "sd = (staged, ds)" by (cases sd)
      have val: "validate_actionable m ps = Inr ()"
        and st: "stage_proposals (restored_engine (sr_engine rt)) v ps = Inr (staged, ds)"
        using q sd by (auto simp: bindE_eq_Inr staged_engine_ok [OF eng])
      note va = validate_actionable_Inr [OF val]
      have times: "list_all (\<lambda>p. instant_in_range (ep_proposed_at p)) ps" using va(2) t by (simp add: list_all_iff)
      have pok: "list_all proposal_ok ps" using assms(3) by (simp add: observe_args_ok_def)
      have rej: "observation_ok (rejection_observation m ps ds codes)" "ob_state_sha (rejection_observation m ps ds codes) = None"
        if "codes \<noteq> []" for codes
        using that action_value_not_blank by (simp_all add: observation_ok_def rejection_observation_def)
      have keep: thesis if "codes \<noteq> []" and
          s: "shadow_record sha rt i (Aware (md_decided_at m)) (rejection_observation m ps ds codes) = (rt', res)" for codes
      proof -
        note r = recorded_ok [OF assms(1,2) rej [OF that(1)] Inr t s]
        show thesis by (rule kept [OF r(2) _ r(1,3,4,5)]) (simp add: record_of_def rejection_observation_def)
      qed
      show thesis
      proof (rule stage_proposals_cases [OF st restored_engine_ok [OF eng] pok times va(1)])
        assume "\<not> pd_approved (last ds)"
        with assms(4) Inr act q sd keep [of "[''PORTFOLIO_RISK_REJECTED'', pd_reason (last ds)]"] show thesis
          by (simp add: shadow_observe_def)
      next
        fix equity
        assume al: "list_all pd_approved ds" "length ds = length ps" "shadow_engine_ok staged"
          "pe_positions staged = pe_positions (restored_engine (sr_engine rt)) @ opened_pairs ps ds"
          "pe_config staged = pe_config (restored_engine (sr_engine rt))"
          "pe_kill_reason (restored_engine (sr_engine rt)) = None" "v = Fin equity"
          "within_limits staged (last ps) equity" "ds \<noteq> []"
          "\<forall>(p, d) \<in> set (zip ps ds). \<bar>pd_signed_notional d\<bar> \<le> \<bar>ep_signed_notional p\<bar>"
          "staged_within (restored_engine (sr_engine rt)) ps ds equity"
        then have "pd_approved (last ds)" by (simp add: list_all_iff)
        show thesis
        proof (cases "md_action m = ARBITRAGE \<and> capacity_mismatch ps ds")
          case True
          with assms(4) Inr act q sd \<open>pd_approved (last ds)\<close> keep [of "[''ARBITRAGE_LEG_CAPACITY_MISMATCH'']"] show thesis
            by (simp add: shadow_observe_def)
        next
          case False
          obtain f c where sv: "shadow_save sha rt staged (Aware (md_decided_at m)) =
              Inr (rt\<lparr>sr_engine := staged, sr_file := f\<rparr>, c)"
            using shadow_save_ok [OF assms(1) al(3) t] by metis
          let ?ob = "\<lparr>ob_action = action_value (md_action m), ob_status = ELIGIBLE_NO_ORDER,
            ob_engine_id = md_engine_id m, ob_keys = map ep_key ps, ob_risk_reasons = map pd_reason ds,
            ob_codes = [''SHADOW_ONLY_NO_ORDER_SUBMISSION''], ob_state_sha = Some c\<rparr>"
          have rec: "shadow_record sha (rt\<lparr>sr_engine := staged, sr_file := f\<rparr>) i (Aware (md_decided_at m)) ?ob = (rt', res)"
            using assms(4) Inr act q sd \<open>pd_approved (last ds)\<close> False sv by (simp add: shadow_observe_def)
          have "observation_ok (?ob\<lparr>ob_state_sha := None\<rparr>)"
            using action_value_not_blank by (simp add: observation_ok_def)
          note s = saved_ok [OF assms(1,2) al(3) t sv this _ Inr rec, simplified]
          show thesis
            by (rule eligible [OF s(2) _ s(1)])
              (use s al False act val in \<open>simp_all add: record_of_def\<close>)
        qed
      qed
    qed
  qed
qed

lemma record_close_engine_ok:
  assumes "shadow_engine_ok e" "instant_in_range t" "record_close e k pnl (Aware t) = (e', Inr u)"
  shows "shadow_engine_ok e'" "pe_config e' = pe_config e" "pe_kill_reason e' = pe_kill_reason e"
proof -
  have inv: "portfolio_inv e'" using record_close_inv [OF _ assms(3)] assms(1) by (simp add: shadow_engine_ok_def)
  obtain e1 b where roll: "portfolio_roll_day e t = (e1, b)" by fastforce
  have e': "pe_positions e' = AList.delete k (pe_positions e)" "pe_current_day e' = pe_current_day e1"
    "pe_config e' = pe_config e" "pe_kill_reason e' = pe_kill_reason e"
    using assms(3) portfolio_roll_frame [OF roll] by (auto simp: record_close_def roll Let_def split: if_splits)
  have day: "pe_current_day e1 \<in> {pe_current_day e, Some (utc_date t)}"
    using roll by (auto simp: portfolio_roll_day_def split: option.splits if_splits)
  have "length (pe_positions e') \<le> length (pe_positions e)"
    unfolding e'(1) by (rule length_delete_le)
  moreover have "set (held e') \<subseteq> set (held e)" by (auto simp: held_def e'(1) set_delete)
  ultimately show "shadow_engine_ok e'"
    using assms(1,2) inv day by (auto simp: shadow_engine_ok_def writable_positions e' instant_in_range_def)
  show "pe_config e' = pe_config e" "pe_kill_reason e' = pe_kill_reason e" by (rule e')+
qed

lemma stage_closes_ok:
  "stage_closes e t l = Inr e' \<Longrightarrow> shadow_engine_ok e \<Longrightarrow> instant_in_range t \<Longrightarrow>
   shadow_engine_ok e' \<and> pe_config e' = pe_config e \<and> pe_kill_reason e' = pe_kill_reason e"
proof (induction e t l rule: stage_closes.induct)
  case (2 e t k pnl rest)
  obtain e1 r where r: "record_close e k pnl (Aware t) = (e1, r)" by fastforce
  obtain u where u: "r = Inr u" using "2.prems"(1) r by (cases r) auto
  note c = record_close_engine_ok [OF "2.prems"(2,3) r [unfolded u]]
  have "stage_closes e1 t rest = Inr e'" using "2.prems"(1) r u by simp
  from "2.IH" [OF r [symmetric] u this c(1) "2.prems"(3)] c show ?case by simp
qed simp

lemma held_engine_ok:
  "shadow_engine_ok e \<Longrightarrow> \<not> blank reason \<Longrightarrow> shadow_engine_ok (e\<lparr>pe_kill_reason := Some reason\<rparr>)"
  by (auto simp: shadow_engine_ok_def portfolio_inv_def writable_positions held_def)

lemma close_virtual_cases:
  assumes "hex_digest sha" "shadow_ok sha rt rs" "\<And>t. closed_at = Aware t \<Longrightarrow> instant_in_range t"
    "close_virtual sha rt i pnls closed_at = (rt', res)"
  obtains (refused) x where "res = Inl x" "rt' = rt"
  | (closed) r where "res = Inr r" "shadow_ok sha rt' (rs @ [r])" "sr_context rt' = sr_context rt"
      "pe_config (sr_engine rt') = pe_config (sr_engine rt)" "pe_kill_reason (sr_engine rt') = pe_kill_reason (sr_engine rt)"
proof -
  let ?q = "bindE (ensure_available (sr_journal rt) i) (\<lambda>_.
    bindE (utc_of ''shadow close timestamp must be timezone-aware'' closed_at) (\<lambda>t.
      if map fst pnls = [] \<or> \<not> distinct (map fst pnls)
      then Inl (ValueError ''shadow close requires unique position keys'')
      else bindE (staged_engine rt) (\<lambda>e. bindE (stage_closes e t pnls) (\<lambda>staged.
        bindE (shadow_save sha rt staged (Aware t)) (\<lambda>(rt', checksum). Inr (t, rt', checksum))))))"
  have eng: "shadow_engine_ok (sr_engine rt)" using assms(2) by (simp add: shadow_ok_def)
  show thesis
  proof (cases ?q)
    case (Inl x)
    with assms(4) have "res = Inl x" "rt' = rt" by (auto simp: close_virtual_def)
    then show thesis by (rule refused)
  next
    case (Inr y)
    obtain t rt1 c where y: "y = (t, rt1, c)" by (cases y)
    obtain u staged where p: "ensure_available (sr_journal rt) i = Inr u" "closed_at = Aware t"
        "stage_closes (restored_engine (sr_engine rt)) t pnls = Inr staged"
        "shadow_save sha rt staged (Aware t) = Inr (rt1, c)"
      using Inr y by (auto simp: bindE_eq_Inr utc_of_eq_Inr staged_engine_ok [OF eng] split: if_splits)
    let ?ob = "\<lparr>ob_action = ''CLOSE'', ob_status = VIRTUAL_CLOSE, ob_engine_id = None, ob_keys = map fst pnls,
      ob_risk_reasons = [], ob_codes = [''VIRTUAL_POSITION_CLOSED''], ob_state_sha = Some c\<rparr>"
    have rec: "shadow_record sha rt1 i (Aware t) ?ob = (rt', res)"
      using assms(4) Inr y by (simp add: close_virtual_def)
    have ob: "observation_ok (?ob\<lparr>ob_state_sha := None\<rparr>)" "ob_state_sha ?ob = Some c"
      using fixed_texts by (simp_all add: observation_ok_def)
    have t: "instant_in_range t" using assms(3) p(2) by blast
    note st = stage_closes_ok [OF p(3) restored_engine_ok [OF eng] t]
    note s = saved_ok [OF assms(1,2) conjunct1 [OF st] t p(4) ob p(1) rec]
    show thesis by (rule closed [OF s(2,1,4)]) (use st in \<open>simp_all add: s(3)\<close>)
  qed
qed

lemma safety_hold_cases:
  assumes "hex_digest sha" "shadow_ok sha rt rs" "\<And>t. held_at = Aware t \<Longrightarrow> instant_in_range t"
    "activate_safety_hold sha rt i reason held_at = (rt', res)"
  obtains (refused) x where "res = Inl x" "rt' = rt"
  | (held_back) r where "res = Inr r" "shadow_ok sha rt' (rs @ [r])" "sr_context rt' = sr_context rt"
      "sr_engine rt' = (restored_engine (sr_engine rt))\<lparr>pe_kill_reason := Some reason\<rparr>" "ar_observation_id r = i"
proof -
  let ?q = "bindE (ensure_available (sr_journal rt) i) (\<lambda>_.
    bindE (utc_of ''shadow safety-hold timestamp must be timezone-aware'' held_at) (\<lambda>t.
      if blank reason then Inl (ValueError ''shadow safety hold requires a reason'')
      else bindE (staged_engine rt) (\<lambda>e. bindE (snd (activate_kill_switch e reason)) (\<lambda>_.
        bindE (shadow_save sha rt (fst (activate_kill_switch e reason)) (Aware t)) (\<lambda>(rt', checksum).
          Inr (t, rt', checksum))))))"
  have eng: "shadow_engine_ok (sr_engine rt)" using assms(2) by (simp add: shadow_ok_def)
  show thesis
  proof (cases ?q)
    case (Inl x)
    with assms(4) have "res = Inl x" "rt' = rt" by (auto simp: activate_safety_hold_def)
    then show thesis by (rule refused)
  next
    case (Inr y)
    obtain t rt1 c where y: "y = (t, rt1, c)" by (cases y)
    let ?staged = "(restored_engine (sr_engine rt))\<lparr>pe_kill_reason := Some reason\<rparr>"
    obtain u where p: "ensure_available (sr_journal rt) i = Inr u" "held_at = Aware t" "\<not> blank reason"
        "shadow_save sha rt ?staged (Aware t) = Inr (rt1, c)"
      using Inr y
      by (auto simp: bindE_eq_Inr utc_of_eq_Inr staged_engine_ok [OF eng] activate_kill_switch_def split: if_splits)
    let ?ob = "\<lparr>ob_action = ''SAFETY_HOLD'', ob_status = SHADOW_SAFETY_HOLD, ob_engine_id = None, ob_keys = [],
      ob_risk_reasons = [reason], ob_codes = [''SHADOW_EVENT_LOOP_FAILURE_THRESHOLD''], ob_state_sha = Some c\<rparr>"
    have rec: "shadow_record sha rt1 i (Aware t) ?ob = (rt', res)"
      using assms(4) Inr y by (simp add: activate_safety_hold_def)
    have ob: "observation_ok (?ob\<lparr>ob_state_sha := None\<rparr>)" "ob_state_sha ?ob = Some c"
      using fixed_texts by (simp_all add: observation_ok_def)
    have t: "instant_in_range t" using assms(3) p(2) by blast
    note s = saved_ok [OF assms(1,2) held_engine_ok [OF restored_engine_ok [OF eng] p(3)] t p(4) ob p(1) rec]
    show thesis by (rule held_back [OF s(2,1,4,3)]) (simp add: record_of_def)
  qed
qed

lemma resume_ok:
  assumes "shadow_ok sha rt rs"
  shows "resume_shadow sha SHADOW (sr_context rt) (sr_file rt) (sr_journal rt) (pe_config (sr_engine rt)) =
    Inr (rt\<lparr>sr_engine := restored_engine (sr_engine rt)\<rparr>)"
proof -
  have e: "portfolio_inv (sr_engine rt)" "int (length (pe_positions (sr_engine rt))) \<le> max_open_positions (pe_config (sr_engine rt))"
    using assms by (simp_all add: shadow_ok_def shadow_engine_ok_def)
  show ?thesis
    using assms from_snapshot_of [OF e]
    by (simp add: resume_shadow_def load_required_risk_state_def shadow_ok_def journal_ok_def latest_risk_state_sha_def)
qed

text \<open>The record of a hold.\<close>

lemma safety_hold_record:
  assumes "activate_safety_hold sha rt i reason (Aware t) = (rt', Inr r)"
  shows "ar_observation_id r = i \<and> ar_status r = SHADOW_SAFETY_HOLD \<and> ar_risk_reasons r = [reason] \<and> ar_decided_at r = t"
  using assms
  by (auto simp: activate_safety_hold_def shadow_record_def make_audit_record_cases record_of_def bindE_eq_Inr utc_of_def
      split: sum.splits if_splits prod.splits)

text \<open>A hold with a fresh id and a reason succeeds.\<close>

lemma safety_hold_succeeds:
  assumes "hex_digest sha" "shadow_ok sha rt rs" "instant_in_range t" "\<not> blank i" "i \<notin> set (aj_ids (sr_journal rt))"
    "\<not> blank reason"
  obtains rt' r where "activate_safety_hold sha rt i reason (Aware t) = (rt', Inr r)" "shadow_ok sha rt' (rs @ [r])"
    "sr_engine rt' = (restored_engine (sr_engine rt))\<lparr>pe_kill_reason := Some reason\<rparr>"
proof -
  have eng: "shadow_engine_ok (sr_engine rt)" using assms(2) by (simp add: shadow_ok_def)
  let ?staged = "(restored_engine (sr_engine rt))\<lparr>pe_kill_reason := Some reason\<rparr>"
  obtain f c where s: "shadow_save sha rt ?staged (Aware t) = Inr (rt\<lparr>sr_engine := ?staged, sr_file := f\<rparr>, c)"
    by (rule shadow_save_ok [OF assms(1) held_engine_ok [OF restored_engine_ok [OF eng] assms(6)] assms(3), of rt])
  have av: "ensure_available (sr_journal rt) i = Inr ()" using assms(4,5) by (simp add: ensure_available_def)
  let ?ob = "\<lparr>ob_action = ''SAFETY_HOLD'', ob_status = SHADOW_SAFETY_HOLD, ob_engine_id = None, ob_keys = [],
    ob_risk_reasons = [reason], ob_codes = [''SHADOW_EVENT_LOOP_FAILURE_THRESHOLD''], ob_state_sha = Some c\<rparr>"
  have eq: "activate_safety_hold sha rt i reason (Aware t) =
      shadow_record sha (rt\<lparr>sr_engine := ?staged, sr_file := f\<rparr>) i (Aware t) ?ob"
    using s assms(6)
    by (simp add: activate_safety_hold_def av utc_of_def staged_engine_ok [OF eng] activate_kill_switch_def)
  obtain rt' res where rec: "shadow_record sha (rt\<lparr>sr_engine := ?staged, sr_file := f\<rparr>) i (Aware t) ?ob = (rt', res)"
    by fastforce
  have ob: "observation_ok (?ob\<lparr>ob_state_sha := None\<rparr>)" "ob_state_sha ?ob = Some c"
    using fixed_texts by (simp_all add: observation_ok_def)
  note r = saved_ok [OF assms(1,2) held_engine_ok [OF restored_engine_ok [OF eng] assms(6)] assms(3) s ob av rec]
  show thesis by (rule that [OF _ r(1,3)]) (simp add: eq rec r(2))
qed

section \<open>Sequences of operations\<close>

text \<open>\<open>Restart\<close> is a new process: it opens the journal again and resumes from the files.\<close>

datatype shadow_op =
    Observe meta_decision string "(rat, int) entry_proposal list" num
  | CloseVirtual string "(string \<times> num) list" pydatetime
  | SafetyHold string string pydatetime
  | Restart

fun shadow_op_ok :: "shadow_op \<Rightarrow> bool" where
  "shadow_op_ok (Observe m i ps v) = observe_args_ok m ps"
| "shadow_op_ok (CloseVirtual i pnls t) = (case t of Naive _ \<Rightarrow> True | Aware u \<Rightarrow> instant_in_range u)"
| "shadow_op_ok (SafetyHold i w t) = (case t of Naive _ \<Rightarrow> True | Aware u \<Rightarrow> instant_in_range u)"
| "shadow_op_ok Restart = True"

definition restart_shadow :: "(json \<Rightarrow> string) \<Rightarrow> shadow_runtime \<Rightarrow> shadow_runtime result" where
  "restart_shadow sha rt =
     bindE (open_journal sha (aj_lines (sr_journal rt))) (\<lambda>j.
       resume_shadow sha SHADOW (sr_context rt) (sr_file rt) j (pe_config (sr_engine rt)))"

fun shadow_step :: "(json \<Rightarrow> string) \<Rightarrow> shadow_runtime \<Rightarrow> shadow_op \<Rightarrow> shadow_runtime" where
  "shadow_step sha rt (Observe m i ps v) = fst (shadow_observe sha rt m i ps v)"
| "shadow_step sha rt (CloseVirtual i pnls t) = fst (close_virtual sha rt i pnls t)"
| "shadow_step sha rt (SafetyHold i w t) = fst (activate_safety_hold sha rt i w t)"
| "shadow_step sha rt Restart = (case restart_shadow sha rt of Inl _ \<Rightarrow> rt | Inr rt' \<Rightarrow> rt')"

lemma restart_ok:
  assumes "shadow_ok sha rt rs"
  shows "restart_shadow sha rt = Inr (rt\<lparr>sr_engine := restored_engine (sr_engine rt)\<rparr>)"
proof -
  have "open_journal sha (aj_lines (sr_journal rt)) = Inr (sr_journal rt)"
    using assms by (auto simp: open_journal_ok shadow_ok_def)
  with resume_ok [OF assms] show ?thesis by (simp add: restart_shadow_def)
qed

lemma shadow_step_ok:
  assumes "hex_digest sha" "shadow_ok sha rt rs" "shadow_op_ok x"
  shows "\<exists>new. shadow_ok sha (shadow_step sha rt x) (rs @ new) \<and>
    sr_context (shadow_step sha rt x) = sr_context rt \<and>
    pe_config (sr_engine (shadow_step sha rt x)) = pe_config (sr_engine rt) \<and>
    (pe_kill_reason (sr_engine rt) \<noteq> None \<longrightarrow> pe_kill_reason (sr_engine (shadow_step sha rt x)) \<noteq> None)"
proof (cases x)
  case (Observe m i ps v)
  obtain rt' res where r: "shadow_observe sha rt m i ps v = (rt', res)" by fastforce
  have a: "observe_args_ok m ps" using assms(3) Observe by simp
  show ?thesis
  proof (rule shadow_observe_cases [OF assms(1,2) a r])
    show ?thesis if "rt' = rt" using that assms(2) Observe r by (intro exI [of _ "[]"]) simp
    show ?thesis if "shadow_ok sha rt' (rs @ [y])" "sr_engine rt' = sr_engine rt" "sr_context rt' = sr_context rt" for y
      using that Observe r by (intro exI [of _ "[y]"]) simp
    show ?thesis if "shadow_ok sha rt' (rs @ [y])" "sr_context rt' = sr_context rt"
      "pe_config (sr_engine rt') = pe_config (sr_engine rt)" "pe_kill_reason (sr_engine rt) = None" for y
      using that Observe r by (intro exI [of _ "[y]"]) simp
  qed
next
  case (CloseVirtual i pnls t)
  obtain rt' res where r: "close_virtual sha rt i pnls t = (rt', res)" by fastforce
  have a: "\<And>u. t = Aware u \<Longrightarrow> instant_in_range u" using assms(3) CloseVirtual by simp
  show ?thesis
  proof (rule close_virtual_cases [OF assms(1,2) a r])
    show ?thesis if "rt' = rt" using that assms(2) CloseVirtual r by (intro exI [of _ "[]"]) simp
    show ?thesis if "shadow_ok sha rt' (rs @ [y])" "sr_context rt' = sr_context rt"
      "pe_config (sr_engine rt') = pe_config (sr_engine rt)"
      "pe_kill_reason (sr_engine rt') = pe_kill_reason (sr_engine rt)" for y
      using that CloseVirtual r by (intro exI [of _ "[y]"]) simp
  qed
next
  case (SafetyHold i w t)
  obtain rt' res where r: "activate_safety_hold sha rt i w t = (rt', res)" by fastforce
  have a: "\<And>u. t = Aware u \<Longrightarrow> instant_in_range u" using assms(3) SafetyHold by simp
  show ?thesis
  proof (rule safety_hold_cases [OF assms(1,2) a r])
    show ?thesis if "rt' = rt" using that assms(2) SafetyHold r by (intro exI [of _ "[]"]) simp
    show ?thesis if "shadow_ok sha rt' (rs @ [y])" "sr_context rt' = sr_context rt"
      "sr_engine rt' = (restored_engine (sr_engine rt))\<lparr>pe_kill_reason := Some w\<rparr>" for y
      using that SafetyHold r by (intro exI [of _ "[y]"]) simp
  qed
next
  case Restart
  have "shadow_ok sha (rt\<lparr>sr_engine := restored_engine (sr_engine rt)\<rparr>) rs"
    using assms(2) by (simp add: shadow_ok_def restored_engine_ok)
  with Restart restart_ok [OF assms(2)] show ?thesis by (intro exI [of _ "[]"]) simp
qed

lemma shadow_run_ok:
  assumes "hex_digest sha"
  shows "shadow_ok sha rt rs \<Longrightarrow> list_all shadow_op_ok ops \<Longrightarrow>
    \<exists>new. shadow_ok sha (foldl (shadow_step sha) rt ops) (rs @ new) \<and>
      sr_context (foldl (shadow_step sha) rt ops) = sr_context rt \<and>
      pe_config (sr_engine (foldl (shadow_step sha) rt ops)) = pe_config (sr_engine rt) \<and>
      (pe_kill_reason (sr_engine rt) \<noteq> None \<longrightarrow> pe_kill_reason (sr_engine (foldl (shadow_step sha) rt ops)) \<noteq> None)"
proof (induction ops arbitrary: rt rs)
  case Nil
  then show ?case by (intro exI [of _ "[]"]) simp
next
  case (Cons x ops)
  obtain new where a: "shadow_ok sha (shadow_step sha rt x) (rs @ new)"
    "sr_context (shadow_step sha rt x) = sr_context rt"
    "pe_config (sr_engine (shadow_step sha rt x)) = pe_config (sr_engine rt)"
    "pe_kill_reason (sr_engine rt) \<noteq> None \<longrightarrow> pe_kill_reason (sr_engine (shadow_step sha rt x)) \<noteq> None"
    using shadow_step_ok [OF assms Cons.prems(1)] Cons.prems(2) by auto
  from Cons.IH [OF a(1)] Cons.prems(2) obtain new' where
    "shadow_ok sha (foldl (shadow_step sha) (shadow_step sha rt x) ops) ((rs @ new) @ new')"
    "sr_context (foldl (shadow_step sha) (shadow_step sha rt x) ops) = sr_context (shadow_step sha rt x)"
    "pe_config (sr_engine (foldl (shadow_step sha) (shadow_step sha rt x) ops)) = pe_config (sr_engine (shadow_step sha rt x))"
    "pe_kill_reason (sr_engine (shadow_step sha rt x)) \<noteq> None \<longrightarrow>
      pe_kill_reason (sr_engine (foldl (shadow_step sha) (shadow_step sha rt x) ops)) \<noteq> None" by auto
  with a show ?case by (intro exI [of _ "new @ new'"]) auto
qed

text \<open>A session that was initialized over an absent file and an empty journal is sound.\<close>

lemma initialized_ok:
  assumes "hex_digest sha" "shadow_engine_ok e" "instant_in_range t"
    "initialize_shadow sha SHADOW c e NoFile empty_journal (Aware t) = Inr (rt, Inr r)"
  shows "shadow_ok sha rt [r]" "sr_context rt = c" "sr_engine rt = e"
proof -
  define rt0 where "rt0 = \<lparr>sr_context = c, sr_engine = e, sr_file = NoFile, sr_journal = empty_journal\<rparr>"
  obtain f ck where s: "shadow_save sha rt0 e (Aware t) = Inr (rt0\<lparr>sr_engine := e, sr_file := f\<rparr>, ck)"
    "load_risk_state sha f = Inr (Some (snapshot_of e))" "risk_state_checksum sha f = Inr (Some ck)" "length ck = 64"
    by (rule shadow_save_ok [OF assms(1-3), of rt0])
  let ?ob = "\<lparr>ob_action = ''INITIALIZE'', ob_status = INITIALIZED, ob_engine_id = None, ob_keys = [],
    ob_risk_reasons = [], ob_codes = [''SHADOW_SESSION_INITIALIZED''], ob_state_sha = Some ck\<rparr>"
  let ?i = "sx_session_id c @ '':initialize''"
  have "save_risk_state sha (snapshot_of e) (Some (Aware t)) 0 = Inr (f, ck)"
    using s(1) assms(2) by (auto simp: shadow_save_def shadow_engine_ok_def engine_snapshot_of rt0_def bindE_eq_Inr)
  then have rec: "shadow_record sha (rt0\<lparr>sr_file := f\<rparr>) ?i (Aware t) ?ob = (rt, Inr r)"
    using assms(2,4)
    by (simp add: initialize_shadow_def load_risk_state_def empty_journal_def verify_lines_def shadow_engine_ok_def
        engine_snapshot_of rt0_def)
  then have "audit_fields_ok (record_of c ?i (Aware t) ?ob)" and r: "r = record_of c ?i t ?ob"
    by (auto simp: shadow_record_def make_audit_record_cases rt0_def record_of_def split: sum.splits)
  then have c: "context_ok c" "\<not> blank ?i" by (auto simp: audit_fields_ok_def record_of_def context_ok_def)
  have ob: "observation_ok ?ob" using fixed_texts s(4) by (simp add: observation_ok_def)
  have "context_ok (sr_context (rt0\<lparr>sr_file := f\<rparr>))" "journal_ok sha (sr_journal (rt0\<lparr>sr_file := f\<rparr>)) []"
    "?i \<notin> set (aj_ids (sr_journal (rt0\<lparr>sr_file := f\<rparr>)))"
    using c open_empty(2) [of sha] by (simp_all add: rt0_def empty_journal_def)
  from shadow_record_ok [OF assms(1) this(1,2) ob c(2) this(3) assms(3)]
  obtain j where j: "rt = rt0\<lparr>sr_file := f, sr_journal := j\<rparr>" "journal_ok sha j [record_of c ?i t ?ob]"
    using rec by (auto simp: rt0_def)
  have "same_context c r" "latest_state_sha [r] = Some ck"
    by (simp_all add: r record_of_def same_context_def latest_state_sha_def)
  with j c assms(2) s show "shadow_ok sha rt [r]" by (simp add: shadow_ok_def rt0_def r)
  show "sr_context rt = c" "sr_engine rt = e" by (simp_all add: j(1) rt0_def)
qed

section \<open>Guarantees\<close>

text \<open>With the kill switch on, no later observation opens anything.\<close>

lemma held_blocks:
  assumes "hex_digest sha" "shadow_ok sha rt rs" "pe_kill_reason (sr_engine rt) \<noteq> None"
    "list_all shadow_op_ok ops" "observe_args_ok m ps"
    "shadow_observe sha (foldl (shadow_step sha) rt ops) m i ps equity = (rt', res)"
  shows "sr_engine rt' = sr_engine (foldl (shadow_step sha) rt ops)" "sr_file rt' = sr_file (foldl (shadow_step sha) rt ops)"
    "case res of Inl _ \<Rightarrow> True | Inr r \<Rightarrow> ar_status r \<in> {WAITING, RISK_REJECTED}"
proof -
  obtain new where k: "shadow_ok sha (foldl (shadow_step sha) rt ops) (rs @ new)"
      "pe_kill_reason (sr_engine (foldl (shadow_step sha) rt ops)) \<noteq> None"
    using shadow_run_ok [OF assms(1,2,4)] assms(3) by blast
  show "sr_engine rt' = sr_engine (foldl (shadow_step sha) rt ops)"
    by (rule shadow_observe_cases [OF assms(1) k(1) assms(5,6)]) (use k(2) in simp_all)
  show "sr_file rt' = sr_file (foldl (shadow_step sha) rt ops)"
    by (rule shadow_observe_cases [OF assms(1) k(1) assms(5,6)]) (use k(2) in simp_all)
  show "case res of Inl _ \<Rightarrow> True | Inr r \<Rightarrow> ar_status r \<in> {WAITING, RISK_REJECTED}"
    by (rule shadow_observe_cases [OF assms(1) k(1) assms(5,6)]) (use k(2) in simp_all)
qed

text \<open>
  C3. A shadow session that was initialized over no files stays recoverable: after any operations,
  restarts and refused ones included, the journal verifies and starts with the initialization
  record, and a resume in a new process gives the runtime that is in memory, with the engine a
  snapshot restores (the same positions by key, ledger, day, peak and kill switch).
\<close>

theorem shadow_resume_agrees:
  assumes "hex_digest sha" "shadow_engine_ok e" "instant_in_range t"
    "initialize_shadow sha SHADOW c e NoFile empty_journal (Aware t) = Inr (rt0, Inr r)"
    "list_all shadow_op_ok ops" "foldl (shadow_step sha) rt0 ops = rt"
  shows "(\<exists>rs. verify_lines sha (aj_lines (sr_journal rt)) = Inr (r # rs)) \<and>
    resume_shadow sha SHADOW c (sr_file rt) (sr_journal rt) (pe_config e) =
      Inr (rt\<lparr>sr_engine := restored_engine (sr_engine rt)\<rparr>)"
proof -
  note i = initialized_ok [OF assms(1-4)]
  obtain rs where "shadow_ok sha rt ([r] @ rs)" "sr_context rt = c" "pe_config (sr_engine rt) = pe_config e"
    using shadow_run_ok [OF assms(1) i(1) assms(5)] i(2,3) assms(6) by auto
  note k = this
  have "\<exists>rs. verify_lines sha (aj_lines (sr_journal rt)) = Inr (r # rs)"
    using k(1) by (auto simp: shadow_ok_def journal_ok_def)
  moreover have "resume_shadow sha SHADOW c (sr_file rt) (sr_journal rt) (pe_config e) =
       Inr (rt\<lparr>sr_engine := restored_engine (sr_engine rt)\<rparr>)"
    using resume_ok [OF k(1)] by (simp only: k(2,3))
  ultimately show ?thesis by blast
qed

text \<open>
  C11. Once a safety hold is recorded no virtual entry is ever opened again: after any further
  operations, restarts included, an observation is refused or recorded as waiting or risk-rejected,
  and it changes neither the portfolio nor its file.
\<close>

theorem shadow_hold_blocks:
  assumes "hex_digest sha" "shadow_ok sha rt rs" "shadow_op_ok (SafetyHold i reason held_at)"
    "activate_safety_hold sha rt i reason held_at = (rt1, Inr r)"
    "list_all shadow_op_ok ops" "foldl (shadow_step sha) rt1 ops = rt2"
    "observe_args_ok m ps" "shadow_observe sha rt2 m i' ps equity = (rt3, res)"
  shows "sr_engine rt3 = sr_engine rt2 \<and> sr_file rt3 = sr_file rt2 \<and>
    (case res of Inl _ \<Rightarrow> True | Inr r' \<Rightarrow> ar_status r' \<in> {WAITING, RISK_REJECTED})"
proof -
  have "\<And>t. held_at = Aware t \<Longrightarrow> instant_in_range t" using assms(3) by simp
  note held = safety_hold_cases [OF assms(1,2) this assms(4)]
  obtain r' where h: "shadow_ok sha rt1 (rs @ [r'])" "pe_kill_reason (sr_engine rt1) \<noteq> None"
    by (rule held) (assumption, simp, rule that, assumption, simp)
  from held_blocks [OF assms(1) h assms(5,7)] assms(6,8) show ?thesis by blast
qed

text \<open>
  C6. An observation of an action either changes neither the portfolio nor its file (refused,
  waiting or risk-rejected), or it is recorded as eligible with every leg opened: one position per
  proposal and no other change of the positions, none larger than proposed and than the Meta
  allocation, and arbitrage legs opened at their full proposed size. Every leg is within the limits at
  its stage: with the legs up to it opened, the gross, net, symbol, venue, strategy, engine and correlated exposure of
  that leg, the committed risk and the number of positions are within the configured limits at the
  equity of the observation; and so is the portfolio that is installed, for the last leg.
\<close>

theorem shadow_eligible_atomic:
  assumes "hex_digest sha" "shadow_ok sha rt rs" "observe_args_ok m ps"
    "shadow_observe sha rt m i ps v = (rt', res)"
  shows "(sr_engine rt' = sr_engine rt \<and> sr_file rt' = sr_file rt \<and>
      (case res of Inl _ \<Rightarrow> rt' = rt | Inr r \<Rightarrow> ar_status r \<in> {WAITING, RISK_REJECTED})) \<or>
    (\<exists>r ds equity. res = Inr r \<and> ar_status r = ELIGIBLE_NO_ORDER \<and> v = Fin equity \<and> md_action m \<noteq> WAIT \<and>
      length ds = length ps \<and>
      pe_positions (sr_engine rt') = pe_positions (restored_engine (sr_engine rt)) @ opened_pairs ps ds \<and>
      list_all (\<lambda>(p, d). \<bar>pd_signed_notional d\<bar> \<le> \<bar>ep_signed_notional p\<bar> \<and>
        \<bar>ep_signed_notional p\<bar> \<le> md_allocated m) (zip ps ds) \<and>
      pe_config (sr_engine rt') = pe_config (sr_engine rt) \<and>
      (\<forall>k < length ps. within_limits
         ((sr_engine rt')\<lparr>pe_positions := pe_positions (restored_engine (sr_engine rt)) @
            opened_pairs (take (Suc k) ps) (take (Suc k) ds)\<rparr>) (ps ! k) equity) \<and>
      within_limits (sr_engine rt') (last ps) equity \<and>
      \<not> (md_action m = ARBITRAGE \<and> capacity_mismatch ps ds))"
proof (rule shadow_observe_cases [OF assms])
  fix r ds equity
  assume a: "res = Inr r" "ar_status r = ELIGIBLE_NO_ORDER" "md_action m \<noteq> WAIT" "validate_actionable m ps = Inr ()"
    "length ds = length ps" "pe_positions (sr_engine rt') = pe_positions (restored_engine (sr_engine rt)) @ opened_pairs ps ds"
    "v = Fin equity" "within_limits (sr_engine rt') (last ps) equity"
    "\<forall>(p, d) \<in> set (zip ps ds). \<bar>pd_signed_notional d\<bar> \<le> \<bar>ep_signed_notional p\<bar>"
    "md_action m = ARBITRAGE \<Longrightarrow> \<not> capacity_mismatch ps ds" "pe_config (sr_engine rt') = pe_config (sr_engine rt)"
    "staged_within (restored_engine (sr_engine rt)) ps ds equity"
  have "within_limits ((sr_engine rt')\<lparr>pe_positions := pe_positions (restored_engine (sr_engine rt)) @
      opened_pairs (take (Suc k) ps) (take (Suc k) ds)\<rparr>) (ps ! k) equity" if "k < length ps" for k
  proof -
    have "pe_config (restored_engine (sr_engine rt)) = pe_config (sr_engine rt')"
      by (simp add: a(11) restored_engine_def)
    then have "within_limits ((sr_engine rt')\<lparr>pe_positions := pe_positions (restored_engine (sr_engine rt)) @
        opened_pairs (take (Suc k) ps) (take (Suc k) ds)\<rparr>) (ps ! k) equity =
      within_limits ((restored_engine (sr_engine rt))\<lparr>pe_positions := pe_positions (restored_engine (sr_engine rt)) @
        opened_pairs (take (Suc k) ps) (take (Suc k) ds)\<rparr>) (ps ! k) equity"
      by (intro within_limits_cong) simp_all
    then show ?thesis using a(12) that by (simp add: staged_within_def)
  qed
  moreover have "list_all (\<lambda>(p, d). \<bar>pd_signed_notional d\<bar> \<le> \<bar>ep_signed_notional p\<bar> \<and>
      \<bar>ep_signed_notional p\<bar> \<le> md_allocated m) (zip ps ds)"
    using a(9) validate_actionable_Inr(2) [OF a(4)] by (auto simp: list_all_iff dest: set_zip_leftD)
  ultimately show ?thesis using a by blast
qed simp_all

section \<open>A concrete session\<close>

definition demo_context :: session_context where
  "demo_context = \<lparr>sx_session_id = ''s'', sx_dataset = ''d'', sx_commit = ''c'', sx_config = ''f''\<rparr>"

lemma demo_context_ok: "context_ok demo_context"
proof -
  have "\<not> list_ex blank [''s'', ''d'', ''c'', ''f'']" by code_simp
  then show ?thesis by (simp add: context_ok_def demo_context_def)
qed

lemma demo_engine_ok: "shadow_engine_ok demo_portfolio"
  by (simp add: shadow_engine_ok_def demo_portfolio_inv demo_portfolio_parts writable_positions demo_held)

lemma demo_restored: "restored_engine demo_portfolio = demo_portfolio"
  by (simp add: restored_engine_def sorted_positions_def demo_held demo_portfolio_parts)

text \<open>Initialization over no files succeeds.\<close>

lemma initialize_succeeds:
  assumes "hex_digest sha" "context_ok c" "shadow_engine_ok e" "instant_in_range t"
  obtains rt r where "initialize_shadow sha SHADOW c e NoFile empty_journal (Aware t) = Inr (rt, Inr r)"
    "shadow_ok sha rt [r]" "sr_engine rt = e" "sr_context rt = c" "aj_ids (sr_journal rt) = [sx_session_id c @ '':initialize'']"
proof -
  define rt0 where "rt0 = \<lparr>sr_context = c, sr_engine = e, sr_file = NoFile, sr_journal = empty_journal\<rparr>"
  obtain f ck where s: "shadow_save sha rt0 e (Aware t) = Inr (rt0\<lparr>sr_engine := e, sr_file := f\<rparr>, ck)" "length ck = 64"
    by (rule shadow_save_ok [OF assms(1,3,4), of rt0])
  let ?ob = "\<lparr>ob_action = ''INITIALIZE'', ob_status = INITIALIZED, ob_engine_id = None, ob_keys = [],
    ob_risk_reasons = [], ob_codes = [''SHADOW_SESSION_INITIALIZED''], ob_state_sha = Some ck\<rparr>"
  let ?i = "sx_session_id c @ '':initialize''"
  have save: "save_risk_state sha (snapshot_of e) (Some (Aware t)) 0 = Inr (f, ck)"
    using s(1) assms(3) by (auto simp: shadow_save_def shadow_engine_ok_def engine_snapshot_of rt0_def bindE_eq_Inr)
  have ctx: "context_ok (sr_context (rt0\<lparr>sr_file := f\<rparr>))" "journal_ok sha (sr_journal (rt0\<lparr>sr_file := f\<rparr>)) []"
    "?i \<notin> set (aj_ids (sr_journal (rt0\<lparr>sr_file := f\<rparr>)))"
    using assms(2) open_empty(2) [of sha] by (simp_all add: rt0_def empty_journal_def)
  have ob: "observation_ok ?ob" using fixed_texts s(2) by (simp add: observation_ok_def)
  have "\<not> blank ?i" using assms(2) by (auto simp: context_ok_def blank_iff)
  from shadow_record_ok [OF assms(1) ctx(1,2) ob this ctx(3) assms(4)] obtain j where
    j: "shadow_record sha (rt0\<lparr>sr_file := f\<rparr>) ?i (Aware t) ?ob =
      ((rt0\<lparr>sr_file := f\<rparr>)\<lparr>sr_journal := j\<rparr>, Inr (record_of c ?i t ?ob))" "journal_ok sha j [record_of c ?i t ?ob]"
    by (auto simp: rt0_def)
  then have run: "initialize_shadow sha SHADOW c e NoFile empty_journal (Aware t) =
      Inr (rt0\<lparr>sr_file := f, sr_journal := j\<rparr>, Inr (record_of c ?i t ?ob))"
    using assms(3) save
    by (simp add: initialize_shadow_def load_risk_state_def empty_journal_def verify_lines_def shadow_engine_ok_def
        engine_snapshot_of rt0_def)
  note i = initialized_ok [OF assms(1,3,4) run]
  have "aj_ids j = [?i]" using j(2) by (auto simp: journal_ok_def open_journal_ok record_of_def)
  then show thesis by (intro that [OF run i(1,3,2)]) (simp add: rt0_def)
qed

lemma shadow_resume_agrees_witness:
  "\<exists>rt. resume_shadow flat_sha SHADOW demo_context (sr_file rt) (sr_journal rt) (pe_config demo_portfolio) =
     Inr (rt\<lparr>sr_engine := restored_engine (sr_engine rt)\<rparr>) \<and> pe_kill_reason (sr_engine rt) = Some ''manual''"
proof -
  obtain rt0 r where i: "initialize_shadow flat_sha SHADOW demo_context demo_portfolio NoFile empty_journal (Aware 0) =
      Inr (rt0, Inr r)" "shadow_ok flat_sha rt0 [r]" "sr_engine rt0 = demo_portfolio"
    "aj_ids (sr_journal rt0) = [''s:initialize'']"
    by (rule initialize_succeeds [OF flat_sha_hex demo_context_ok demo_engine_ok instant_zero])
      (simp add: demo_context_def)
  have seven: "instant_in_range 7" by code_simp
  obtain rt1 r1 where h: "activate_safety_hold flat_sha rt0 ''x'' ''manual'' (Aware 7) = (rt1, Inr r1)"
      "shadow_ok flat_sha rt1 ([r] @ [r1])"
      "sr_engine rt1 = (restored_engine (sr_engine rt0))\<lparr>pe_kill_reason := Some ''manual''\<rparr>"
    by (rule safety_hold_succeeds [OF flat_sha_hex i(2) seven demo_texts(1) _ demo_not_blank(8)]) (simp_all add: i(4))
  let ?ops = "[SafetyHold ''x'' ''manual'' (Aware 7), Restart]"
  have "foldl (shadow_step flat_sha) rt0 ?ops = rt1\<lparr>sr_engine := restored_engine (sr_engine rt1)\<rparr>"
    using h(1) restart_ok [OF h(2)] by simp
  from shadow_resume_agrees [OF flat_sha_hex demo_engine_ok instant_zero i(1) _ this] seven
  have "resume_shadow flat_sha SHADOW demo_context (sr_file (rt1\<lparr>sr_engine := restored_engine (sr_engine rt1)\<rparr>))
      (sr_journal (rt1\<lparr>sr_engine := restored_engine (sr_engine rt1)\<rparr>)) (pe_config demo_portfolio) =
    Inr ((rt1\<lparr>sr_engine := restored_engine (sr_engine rt1)\<rparr>)
      \<lparr>sr_engine := restored_engine (sr_engine (rt1\<lparr>sr_engine := restored_engine (sr_engine rt1)\<rparr>))\<rparr>)" by simp
  moreover have "pe_kill_reason (sr_engine (rt1\<lparr>sr_engine := restored_engine (sr_engine rt1)\<rparr>)) = Some ''manual''"
    by (simp add: h(3))
  ultimately show ?thesis by blast
qed

text \<open>A decision for one leg and its observation.\<close>

definition demo_meta :: meta_decision where
  "demo_meta =
     \<lparr>md_action = LONG, md_decided_at = 0, md_engine_id = Some ''trend'',
      md_setup = Some ((demo_setup LONG 5)
        \<lparr>sd_legs := [\<lparr>sl_symbol = ''BTCUSDT'', sl_venue = ''bybit'', sl_side = BUY\<rparr>]\<rparr>),
      md_allocated = 500, md_rankings = [], md_reason_codes = []\<rparr>"

lemma demo_meta_ok: "observe_args_ok demo_meta [demo_entry ''a'']"
  by (simp add: observe_args_ok_def demo_meta_def make_meta_decision_def demo_setup_def demo_entry_ok instant_zero)

lemma demo_meta_parts:
  "md_action demo_meta = LONG" "md_decided_at demo_meta = 0" "md_engine_id demo_meta = Some ''trend''"
  by (simp_all add: demo_meta_def)

lemma demo_staged:
  obtains e where "stage_proposals demo_portfolio (Fin 1000) [demo_entry ''a''] = Inr (e, [demo_approval ''a''])"
proof -
  have ap: "pd_approved (demo_approval ''a'')" by (simp add: demo_approval_def)
  obtain e1 e2 x where ev: "evaluate_entry demo_portfolio (demo_entry ''a'') (Fin 1000) = (e1, Inr (demo_approval ''a''))"
    and o: "record_open e1 (demo_entry ''a'') (demo_approval ''a'') = (e2, x)"
    using demo_evaluate_a by (metis surj_pair)
  from approved_step(1) [OF demo_portfolio_inv demo_entry_ok ev ap o] that ev o ap show thesis by simp
qed

lemma demo_observed:
  assumes "hex_digest sha" "shadow_ok sha rt rs" "sr_engine rt = demo_portfolio" "i \<notin> set (aj_ids (sr_journal rt))"
    "\<not> blank i"
  obtains rt' r where "shadow_observe sha rt demo_meta i [demo_entry ''a''] (Fin 1000) = (rt', Inr r)"
    "ar_status r = ELIGIBLE_NO_ORDER"
proof -
  obtain e where st: "stage_proposals demo_portfolio (Fin 1000) [demo_entry ''a''] = Inr (e, [demo_approval ''a''])"
    by (rule demo_staged)
  have ap: "pd_approved (demo_approval ''a'')" by (simp add: demo_approval_def)
  have val: "validate_actionable demo_meta [demo_entry ''a''] = Inr ()"
    by (simp add: validate_actionable_def demo_meta_def demo_entry_def demo_setup_def leg_key_def proposal_leg_key_def
        notional_sizes_def)
  have eng: "staged_engine rt = Inr demo_portfolio"
    using staged_engine_ok [of rt] assms(3) demo_engine_ok demo_restored by simp
  have e: "shadow_engine_ok e"
    by (rule stage_proposals_cases [OF st demo_engine_ok])
      (use ap in \<open>simp_all add: demo_entry_ok demo_entry_parts instant_zero\<close>)
  obtain f c where s: "shadow_save sha rt e (Aware 0) = Inr (rt\<lparr>sr_engine := e, sr_file := f\<rparr>, c)"
    by (rule shadow_save_ok [OF assms(1) e instant_zero, of rt])
  let ?ob = "\<lparr>ob_action = ''LONG'', ob_status = ELIGIBLE_NO_ORDER,
    ob_engine_id = Some ''trend'', ob_keys = [''a''], ob_risk_reasons = [pd_reason (demo_approval ''a'')],
    ob_codes = [''SHADOW_ONLY_NO_ORDER_SUBMISSION''], ob_state_sha = Some c\<rparr>"
  have av: "ensure_available (sr_journal rt) i = Inr ()" using assms(4,5) by (simp add: ensure_available_def)
  obtain rt' res where rec: "shadow_record sha (rt\<lparr>sr_engine := e, sr_file := f\<rparr>) i (Aware 0) ?ob = (rt', res)"
    by fastforce
  have run: "shadow_observe sha rt demo_meta i [demo_entry ''a''] (Fin 1000) = (rt', res)"
    using rec s st ap by (simp add: shadow_observe_def av val eng demo_meta_parts demo_entry_parts del: stage_proposals.simps)
  have ob: "observation_ok (?ob\<lparr>ob_state_sha := None\<rparr>)" "ob_state_sha ?ob = Some c"
    using action_value_not_blank [of LONG] by (simp_all add: observation_ok_def)
  note r = saved_ok [OF assms(1,2) e instant_zero s ob av rec]
  show thesis by (rule that [OF run [unfolded r(2)]]) (simp add: record_of_def)
qed

lemma shadow_eligible_atomic_witness:
  "\<exists>rt rt' r. shadow_observe flat_sha rt demo_meta ''x'' [demo_entry ''a''] (Fin 1000) = (rt', Inr r) \<and>
     ar_status r = ELIGIBLE_NO_ORDER \<and> within_limits (sr_engine rt') (demo_entry ''a'') 1000"
proof -
  obtain rt0 r where i: "shadow_ok flat_sha rt0 [r]" "sr_engine rt0 = demo_portfolio"
    "aj_ids (sr_journal rt0) = [''s:initialize'']"
    by (rule initialize_succeeds [OF flat_sha_hex demo_context_ok demo_engine_ok instant_zero])
      (simp add: demo_context_def)
  obtain rt1 r1 where o: "shadow_observe flat_sha rt0 demo_meta ''x'' [demo_entry ''a''] (Fin 1000) = (rt1, Inr r1)"
      "ar_status r1 = ELIGIBLE_NO_ORDER"
    by (rule demo_observed [OF flat_sha_hex i(1,2) _ demo_texts(1)]) (simp_all add: i(3))
  have "within_limits (sr_engine rt1) (demo_entry ''a'') 1000"
    using shadow_eligible_atomic [OF flat_sha_hex i(1) demo_meta_ok o(1)] o(2) by auto
  with o show ?thesis by blast
qed

lemma shadow_hold_blocks_witness:
  "\<exists>rt1 rt2 r1. activate_safety_hold flat_sha rt1 ''x'' ''manual'' (Aware 7) = (rt2, Inr r1) \<and>
     (case snd (shadow_observe flat_sha rt2 demo_meta ''y'' [demo_entry ''a''] (Fin 1000)) of
        Inl _ \<Rightarrow> True | Inr r \<Rightarrow> ar_status r \<in> {WAITING, RISK_REJECTED})"
proof -
  obtain rt0 r where i: "shadow_ok flat_sha rt0 [r]" "sr_engine rt0 = demo_portfolio"
    "aj_ids (sr_journal rt0) = [''s:initialize'']"
    by (rule initialize_succeeds [OF flat_sha_hex demo_context_ok demo_engine_ok instant_zero])
      (simp add: demo_context_def)
  have seven: "instant_in_range 7" by code_simp
  obtain rt1 r1 where h: "activate_safety_hold flat_sha rt0 ''x'' ''manual'' (Aware 7) = (rt1, Inr r1)"
    by (rule safety_hold_succeeds [OF flat_sha_hex i(1) seven demo_texts(1) _ demo_not_blank(8)]) (simp_all add: i(3))
  obtain rt2 res where o: "shadow_observe flat_sha rt1 demo_meta ''y'' [demo_entry ''a''] (Fin 1000) = (rt2, res)"
    by fastforce
  have "case snd (shadow_observe flat_sha rt1 demo_meta ''y'' [demo_entry ''a''] (Fin 1000)) of
      Inl _ \<Rightarrow> True | Inr r' \<Rightarrow> ar_status r' \<in> {WAITING, RISK_REJECTED}"
    using shadow_hold_blocks [OF flat_sha_hex i(1) _ h _ _ demo_meta_ok o, of "[]"] seven o by simp
  with h show ?thesis by (intro exI conjI)
qed

end
