(* ===== verification/Py_Float.thy ===== *)
theory Py_Float
  imports Prelude
begin

text \<open>
  The arithmetic of Python and numpy floats on \<open>num\<close>: sums, quotients, \<open>max\<close> and the order
  \<open>sorted\<close> gives values that may contain NaN. Finite values are exact; the sign of a zero is not
  kept. \<open>py_sorted\<close> is CPython's sort of a list that fits one run (fewer than 64 elements): the first
  run is counted, turned round when it descends, and the rest inserted by binary search. What the
  theories use of it, \<open>py_sorted_mset\<close> and \<open>py_sorted_sorted\<close>, holds for lists of any length.
\<close>

section \<open>Arithmetic\<close>

fun num_add :: "num \<Rightarrow> num \<Rightarrow> num" where
  "num_add (Fin a) (Fin b) = Fin (a + b)"
| "num_add NaN _ = NaN"
| "num_add _ NaN = NaN"
| "num_add PInf NInf = NaN"
| "num_add NInf PInf = NaN"
| "num_add PInf _ = PInf"
| "num_add _ PInf = PInf"
| "num_add _ _ = NInf"

fun num_neg :: "num \<Rightarrow> num" where
  "num_neg (Fin a) = Fin (- a)"
| "num_neg PInf = NInf"
| "num_neg NInf = PInf"
| "num_neg NaN = NaN"

fun num_abs :: "num \<Rightarrow> num" where
  "num_abs (Fin a) = Fin \<bar>a\<bar>"
| "num_abs NaN = NaN"
| "num_abs _ = PInf"

fun num_mul :: "num \<Rightarrow> num \<Rightarrow> num" where
  "num_mul (Fin a) (Fin b) = Fin (a * b)"
| "num_mul NaN _ = NaN"
| "num_mul _ NaN = NaN"
| "num_mul (Fin a) x = (if a = 0 then NaN else if 0 < a then x else num_neg x)"
| "num_mul x (Fin a) = (if a = 0 then NaN else if 0 < a then x else num_neg x)"
| "num_mul PInf x = x"
| "num_mul NInf x = num_neg x"

text \<open>
  The quotient of numpy. A divisor zero gives an infinity of the dividend's sign, as for a positive
  zero; Python's own division raises there, and its uses below have a positive divisor.
\<close>

fun num_div :: "num \<Rightarrow> num \<Rightarrow> num" where
  "num_div (Fin a) (Fin b) = (if b = 0 then (if a = 0 then NaN else if 0 < a then PInf else NInf) else Fin (a / b))"
| "num_div NaN _ = NaN"
| "num_div _ NaN = NaN"
| "num_div (Fin _) _ = Fin 0"
| "num_div x (Fin b) = (if 0 \<le> b then x else num_neg x)"
| "num_div _ _ = NaN"

definition num_sum :: "num list \<Rightarrow> num" where
  "num_sum xs = foldl num_add (Fin 0) xs"

text \<open>\<open>max\<close> of a non-empty list: the first value no later one is greater than.\<close>

definition num_max :: "num list \<Rightarrow> num" where
  "num_max xs = foldl (\<lambda>m x. if num_lt m x then x else m) (hd xs) (tl xs)"

lemma num_le_NaN: "\<not> num_le NaN x" "\<not> num_le x NaN"
  by (cases x; simp)+

lemma num_lt_NaN [simp]: "\<not> num_lt x NaN"
  by (cases x) simp_all

lemma num_le_trans: "num_le a b \<Longrightarrow> num_le b c \<Longrightarrow> num_le a c"
  by (cases a; cases b; cases c) auto

lemma num_lt_le_trans: "num_lt a b \<Longrightarrow> num_le b c \<Longrightarrow> num_lt a c"
  by (cases a; cases b; cases c) auto

lemma num_le_lt_trans: "num_le a b \<Longrightarrow> num_lt b c \<Longrightarrow> num_lt a c"
  by (cases a; cases b; cases c) auto

lemma num_not_lt: "a \<noteq> NaN \<Longrightarrow> b \<noteq> NaN \<Longrightarrow> \<not> num_lt a b \<longleftrightarrow> num_le b a"
  by (cases a; cases b) auto

lemma num_lt_imp_le: "num_lt a b \<Longrightarrow> num_le a b"
  by (cases a; cases b) auto

lemma num_positive_iff: "num_lt (Fin 0) v \<longleftrightarrow> v = PInf \<or> (\<exists>r. v = Fin r \<and> 0 < r)"
  by (cases v) auto

text \<open>A positive sum has a positive summand.\<close>

lemma num_add_positive: "num_lt (Fin 0) (num_add a b) \<Longrightarrow> num_lt (Fin 0) a \<or> num_lt (Fin 0) b"
  by (cases a; cases b) auto

lemma foldl_num_add_PInf: "num_lt (Fin 0) a \<Longrightarrow> \<forall>v \<in> set xs. num_lt (Fin 0) v \<Longrightarrow>
    PInf \<in> insert a (set xs) \<Longrightarrow> foldl num_add a xs = PInf"
proof (induction xs arbitrary: a)
  case (Cons x xs)
  have "num_lt (Fin 0) (num_add a x)" "PInf \<in> {a, x} \<Longrightarrow> num_add a x = PInf"
    using Cons.prems(1,2) by (cases a; cases x; auto)+
  then show ?case using Cons by auto
qed simp

lemma foldl_num_add_Fin: "foldl num_add (Fin a) (map Fin xs) = Fin (a + sum_list xs)"
  by (induction xs arbitrary: a) (simp_all add: add.assoc)

lemma num_sum_Fin [simp]: "num_sum (map Fin xs) = Fin (sum_list xs)"
  by (simp add: num_sum_def foldl_num_add_Fin)

lemma foldl_num_max_PInf: "m \<noteq> NaN \<Longrightarrow> NaN \<notin> set xs \<Longrightarrow> PInf \<in> insert m (set xs) \<Longrightarrow>
    foldl (\<lambda>m x. if num_lt m x then x else m) m xs = PInf"
proof (induction xs arbitrary: m)
  case (Cons x xs)
  show ?case
  proof (cases "num_lt m x")
    case True
    then have "PInf \<in> insert x (set xs)" using Cons.prems(3) by (cases m; cases x) auto
    moreover have "x \<noteq> NaN" using Cons.prems(2) by auto
    ultimately show ?thesis using True Cons.prems Cons.IH [of x] by simp
  next
    case False
    then have "PInf \<in> insert m (set xs)" using Cons.prems by (cases m; cases x) auto
    then show ?thesis using False Cons.prems Cons.IH [of m] by simp
  qed
qed simp

lemma foldl_num_max_Fin: "foldl (\<lambda>m x. if num_lt m x then x else m) (Fin a) (map Fin xs) = Fin (foldl max a xs)"
  by (induction xs arbitrary: a) (auto simp: max_def)

lemma foldl_max: "foldl max a xs = Max (insert a (set (xs :: rat list)))"
proof (induction xs arbitrary: a)
  case (Cons x xs)
  have "Max (insert a (insert x (set xs))) = Max (insert (max a x) (set xs))"
    by (cases "xs = []") (simp_all add: max.assoc)
  then show ?case using Cons by simp
qed simp

lemma num_max_Fin: "xs \<noteq> [] \<Longrightarrow> num_max (map Fin xs) = Fin (Max (set xs))"
  by (cases xs) (simp_all add: num_max_def foldl_num_max_Fin foldl_max)

section \<open>Sorting\<close>

text \<open>The place of \<open>p\<close> in \<open>xs\<close>, searched between \<open>l\<close> and \<open>r\<close>.\<close>

function bin_pos :: "num \<Rightarrow> num list \<Rightarrow> nat \<Rightarrow> nat \<Rightarrow> nat" where
  "bin_pos p xs l r =
     (if l < r then
        let m = (l + r) div 2 in if num_lt p (xs ! m) then bin_pos p xs l m else bin_pos p xs (m + 1) r
      else l)"
  by pat_completeness auto
termination by (relation "measure (\<lambda>(p, xs, l, r). r - l)") auto

declare bin_pos.simps [simp del]

fun binary_insort :: "num list \<Rightarrow> num list \<Rightarrow> num list" where
  "binary_insort xs [] = xs"
| "binary_insort xs (y # ys) =
     (let k = bin_pos y xs 0 (length xs) in binary_insort (take k xs @ y # drop k xs) ys)"

text \<open>The length of the longest prefix of which consecutive elements are related.\<close>

fun run_length :: "('a \<Rightarrow> 'a \<Rightarrow> bool) \<Rightarrow> 'a list \<Rightarrow> nat" where
  "run_length P (x # y # zs) = (if P x y then Suc (run_length P (y # zs)) else 1)"
| "run_length P xs = length xs"

definition first_run :: "num list \<Rightarrow> nat \<times> num list" where
  "first_run xs =
     (case xs of
        x # y # zs \<Rightarrow>
          if num_lt y x then (let n = run_length (\<lambda>a b. num_lt b a) xs in (n, rev (take n xs)))
          else (let n = run_length (\<lambda>a b. \<not> num_lt b a) xs in (n, take n xs))
      | _ \<Rightarrow> (length xs, xs))"

definition py_sorted :: "num list \<Rightarrow> num list" where
  "py_sorted xs = (let (n, run) = first_run xs in binary_insort run (drop n xs))"

lemma mset_binary_insort: "mset (binary_insort xs ys) = mset xs + mset ys"
proof (induction ys arbitrary: xs)
  case (Cons y ys)
  have "mset (take k xs) + mset (drop k xs) = mset xs" for k
    by (metis append_take_drop_id mset_append)
  then show ?case by (simp add: Cons Let_def)
qed simp

lemma first_run_mset: "first_run xs = (n, run) \<Longrightarrow> mset run = mset (take n xs)"
  by (auto simp: first_run_def Let_def split: list.splits if_splits)

lemma py_sorted_mset: "mset (py_sorted xs) = mset xs"
proof -
  obtain n run where r: "first_run xs = (n, run)" by fastforce
  then have "mset run = mset (take n xs)" by (rule first_run_mset)
  moreover have "mset (take n xs) + mset (drop n xs) = mset xs" by (metis append_take_drop_id mset_append)
  ultimately show ?thesis by (simp add: py_sorted_def r mset_binary_insort)
qed

lemma py_sorted_set: "set (py_sorted xs) = set xs"
  by (rule mset_eq_setD) (rule py_sorted_mset)

lemma py_sorted_length: "length (py_sorted xs) = length xs"
  by (rule mset_eq_length) (rule py_sorted_mset)

text \<open>Without NaN the binary search finds the place that keeps the list sorted.\<close>

abbreviation num_sorted :: "num list \<Rightarrow> bool" where
  "num_sorted xs \<equiv> sorted_wrt num_le xs"

lemma bin_pos_place:
  assumes "num_sorted xs" "NaN \<notin> set xs" "p \<noteq> NaN" "l \<le> r" "r \<le> length xs"
    "\<forall>i < l. num_le (xs ! i) p" "\<forall>i. r \<le> i \<and> i < length xs \<longrightarrow> num_le p (xs ! i)"
  shows "bin_pos p xs l r \<le> length xs \<and> (\<forall>i < bin_pos p xs l r. num_le (xs ! i) p) \<and>
    (\<forall>i. bin_pos p xs l r \<le> i \<and> i < length xs \<longrightarrow> num_le p (xs ! i))"
  using assms
proof (induction p xs l r rule: bin_pos.induct)
  case (1 p xs l r)
  show ?case
  proof (cases "l < r")
    case False
    then have "bin_pos p xs l r = l" by (subst bin_pos.simps) simp
    moreover have "l = r" using False "1.prems"(4) by simp
    ultimately show ?thesis using "1.prems"(5,6,7) by simp
  next
    case True
    let ?m = "(l + r) div 2"
    have m: "l \<le> ?m" "?m < r" "?m < length xs" using True "1.prems"(5) by auto
    then have v: "xs ! ?m \<noteq> NaN" using "1.prems"(2) by (metis nth_mem)
    have ord: "num_le (xs ! i) (xs ! j)" if "i < j" "j < length xs" for i j
      using sorted_wrt_nth_less [OF "1.prems"(1) that] .
    show ?thesis
    proof (cases "num_lt p (xs ! ?m)")
      case less: True
      then have "num_le p (xs ! i)" if "?m \<le> i" "i < length xs" for i
        using that ord [of ?m i] num_le_trans [OF num_lt_imp_le [OF less]] num_lt_imp_le [OF less]
        by (cases "?m = i") simp_all
      then have "\<forall>i. ?m \<le> i \<and> i < length xs \<longrightarrow> num_le p (xs ! i)" by blast
      note IH = "1.IH"(1) [OF True refl less "1.prems"(1,2,3) m(1) less_imp_le [OF m(3)] "1.prems"(6) this]
      have "bin_pos p xs l r = bin_pos p xs l ?m" using True less by (subst bin_pos.simps) simp
      then show ?thesis using IH by simp
    next
      case ge: False
      then have le: "num_le (xs ! ?m) p" using num_not_lt [OF "1.prems"(3) v] by simp
      have "num_le (xs ! i) p" if "i < ?m + 1" for i
        using that ord [OF _ m(3), of i] le num_le_trans by (cases "i = ?m") auto
      then have "\<forall>i < ?m + 1. num_le (xs ! i) p" by blast
      note IH = "1.IH"(2) [OF True refl ge "1.prems"(1,2,3) _ "1.prems"(5) this "1.prems"(7)]
      have "bin_pos p xs l r = bin_pos p xs (?m + 1) r" using True ge by (subst bin_pos.simps) (simp add: Let_def)
      then show ?thesis using IH m(2) by simp
    qed
  qed
qed

lemma binary_insort_sorted:
  "num_sorted xs \<Longrightarrow> NaN \<notin> set xs \<Longrightarrow> NaN \<notin> set ys \<Longrightarrow> num_sorted (binary_insort xs ys)"
proof (induction ys arbitrary: xs)
  case (Cons y ys)
  let ?k = "bin_pos y xs 0 (length xs)"
  have "y \<noteq> NaN" using Cons.prems(3) by auto
  note place = bin_pos_place [OF Cons.prems(1,2) this le0 le_refl]
  have k: "?k \<le> length xs" "\<forall>i < ?k. num_le (xs ! i) y" "\<forall>i. ?k \<le> i \<and> i < length xs \<longrightarrow> num_le y (xs ! i)"
    using place by force+
  have lo: "\<forall>x \<in> set (take ?k xs). num_le x y" using k(1,2) by (auto simp: in_set_conv_nth)
  have hi: "\<forall>x \<in> set (drop ?k xs). num_le y x" using k(3) by (auto simp: in_set_conv_nth)
  have "num_sorted (take ?k xs @ drop ?k xs)" using Cons.prems(1) by simp
  then have "num_sorted (take ?k xs @ y # drop ?k xs)"
    using lo hi num_le_trans by (auto simp: sorted_wrt_append simp del: append_take_drop_id)
  moreover have "NaN \<notin> set (take ?k xs @ y # drop ?k xs)"
    using Cons.prems(2,3) by (auto dest: in_set_takeD in_set_dropD)
  ultimately show ?case using Cons.IH Cons.prems(3) by (simp add: Let_def)
qed simp

lemma run_length_related: "Suc i < run_length P xs \<Longrightarrow> P (xs ! i) (xs ! Suc i)"
  by (induction P xs arbitrary: i rule: run_length.induct) (auto simp: nth_Cons split: if_splits nat.splits)

lemma run_length_le: "run_length P xs \<le> length xs"
  by (induction P xs rule: run_length.induct) auto

lemma run_sorted_wrt:
  assumes "transp Q" "\<forall>i. Suc i < run_length P xs \<longrightarrow> P (xs ! i) (xs ! Suc i) \<longrightarrow> Q (xs ! i) (xs ! Suc i)"
  shows "sorted_wrt Q (take (run_length P xs) xs)"
  using assms run_length_related [of _ P xs] run_length_le [of P xs]
  by (auto simp: sorted_wrt_iff_nth_Suc_transp [OF assms(1)])

lemma py_sorted_sorted:
  assumes "NaN \<notin> set xs"
  shows "num_sorted (py_sorted xs)"
proof -
  obtain n run where r: "first_run xs = (n, run)" by fastforce
  have v: "xs ! i \<noteq> NaN" if "i < length xs" for i using that assms by (metis nth_mem)
  have tr: "transp num_le" "transp (\<lambda>a b. num_le b a)" by (auto intro!: transpI elim: num_le_trans)
  have up: "num_sorted (take (run_length (\<lambda>a b. \<not> num_lt b a) xs) xs)"
    using run_sorted_wrt [OF tr(1), of "\<lambda>a b. \<not> num_lt b a" xs] run_length_le [of "\<lambda>a b. \<not> num_lt b a" xs] v
    by (simp add: num_not_lt)
  have down: "sorted_wrt (\<lambda>a b. num_le b a) (take (run_length (\<lambda>a b. num_lt b a) xs) xs)"
    by (rule run_sorted_wrt [OF tr(2)]) (simp add: num_lt_imp_le)
  have "num_sorted run"
    using r up down
    by (cases xs; cases "tl xs") (auto simp: first_run_def Let_def sorted_wrt_rev simp del: run_length.simps split: if_splits)
  moreover have "set run \<subseteq> set xs"
    using mset_eq_setD [OF first_run_mset [OF r]] by (auto dest: in_set_takeD)
  moreover have "NaN \<notin> set (drop n xs)" using assms by (auto dest: in_set_dropD)
  ultimately show ?thesis
    using assms by (auto simp: py_sorted_def r intro!: binary_insort_sorted)
qed

end
