(* ===== verification/Promotion_Gate.thy ===== *)
theory Promotion_Gate
  imports Research_Protocol Py_Float
begin

text \<open>
  Model of \<open>src/research/evaluator.py\<close>: the gate that turns out-of-sample evidence into a decision.
  Every float of the evidence, the returns of folds and trades included, may be any number, infinite
  or NaN; finite ones are exact rationals. The explanatory texts of the checks are not modelled.
\<close>

section \<open>Evidence and decision\<close>

record candidate_evidence =
  ce_oos_trades :: int
  ce_symbols_positive :: int
  ce_adverse_return :: num
  ce_fold_returns :: "num list"
  ce_trade_returns :: "num list"
  ce_dsr :: num
  ce_pbo :: num
  ce_parameter_stable :: bool
  ce_max_drawdown :: num
  ce_perturbation :: num
  ce_entry_lag_return :: num
  ce_funding_applied :: bool
  ce_mark_to_market :: bool
  ce_data_complete :: bool
  ce_severe_return :: "num option"
  ce_risk_of_ruin :: "num option"
  ce_risk_of_ruin_upper :: "num option"

record check_result =
  ck_name :: string
  ck_passed :: bool

record gate_decision =
  gd_passed :: bool
  gd_checks :: "check_result list"

definition failed_checks :: "gate_decision \<Rightarrow> check_result list" where
  "failed_checks d = filter (\<lambda>c. \<not> ck_passed c) (gd_checks d)"

text \<open>\<open>_median\<close>: NaN without values; where \<open>sorted\<close> puts a NaN depends on the order of the values.\<close>

definition median :: "num list \<Rightarrow> num" where
  "median values =
     (if values = [] then NaN
      else (let ordered = py_sorted values; n = length ordered; mid = n div 2 in
        if n mod 2 = 1 then ordered ! mid
        else num_div (num_add (ordered ! (mid - 1)) (ordered ! mid)) (Fin 2)))"

text \<open>The values a comparison with zero finds positive; it finds no NaN so.\<close>

definition gains :: "num list \<Rightarrow> num list" where
  "gains values = filter (\<lambda>v. num_lt (Fin 0) v) values"

definition max_share_of_total :: "num list \<Rightarrow> num" where
  "max_share_of_total values =
     (let positive = gains values; total = num_sum positive in
      if num_le total (Fin 0) then Fin 0 else num_div (num_max positive) total)"

definition positive_fraction :: "num list \<Rightarrow> rat" where
  "positive_fraction rs =
     (if rs = [] then 0 else of_nat (length (gains rs)) / of_nat (length rs))"

definition gate_checks :: "candidate_evidence \<Rightarrow> promotion_gate \<Rightarrow> check_result list" where
  "gate_checks e g =
     [\<lparr>ck_name = ''data_complete'', ck_passed = ce_data_complete e\<rparr>,
      \<lparr>ck_name = ''funding_applied'', ck_passed = (\<not> pg_requires_funding g \<or> ce_funding_applied e)\<rparr>,
      \<lparr>ck_name = ''mark_to_market_applied'', ck_passed = (\<not> pg_requires_mark_to_market g \<or> ce_mark_to_market e)\<rparr>,
      \<lparr>ck_name = ''min_oos_trades'', ck_passed = (pg_min_oos_trades g \<le> ce_oos_trades e)\<rparr>,
      \<lparr>ck_name = ''min_independent_symbols_positive'',
       ck_passed = (pg_min_symbols_positive g \<le> ce_symbols_positive e)\<rparr>,
      \<lparr>ck_name = ''aggregate_oos_return_positive_after_adverse_costs'',
       ck_passed = (if pg_adverse_return_positive g then num_lt (Fin 0) (ce_adverse_return e) else True)\<rparr>,
      \<lparr>ck_name = ''median_fold_return_positive'',
       ck_passed = (if pg_median_fold_positive g then num_lt (Fin 0) (median (ce_fold_returns e)) else True)\<rparr>,
      \<lparr>ck_name = ''min_fraction_positive_oos_folds'',
       ck_passed = num_le (pg_min_positive_folds g) (Fin (positive_fraction (ce_fold_returns e)))\<rparr>,
      \<lparr>ck_name = ''max_single_fold_share_of_total_return'',
       ck_passed = num_le (max_share_of_total (ce_fold_returns e)) (pg_max_fold_share g)\<rparr>,
      \<lparr>ck_name = ''max_single_trade_share_of_total_return'',
       ck_passed = num_le (max_share_of_total (ce_trade_returns e)) (pg_max_trade_share g)\<rparr>,
      \<lparr>ck_name = ''min_deflated_sharpe_ratio'', ck_passed = num_le (pg_min_dsr g) (ce_dsr e)\<rparr>,
      \<lparr>ck_name = ''max_probability_of_backtest_overfitting'', ck_passed = num_le (ce_pbo e) (pg_max_pbo g)\<rparr>,
      \<lparr>ck_name = ''require_parameter_stability'',
       ck_passed = (if pg_parameter_stability g then ce_parameter_stable e else True)\<rparr>,
      \<lparr>ck_name = ''max_drawdown_pct'', ck_passed = num_le (ce_max_drawdown e) (pg_max_drawdown g)\<rparr>,
      \<lparr>ck_name = ''max_perturbation_degradation_pct'',
       ck_passed = num_le (ce_perturbation e) (pg_max_perturbation g)\<rparr>,
      \<lparr>ck_name = ''entry_lag_one_bar_must_stay_non_negative'',
       ck_passed = (if pg_entry_lag_nonneg g then num_le (Fin 0) (ce_entry_lag_return e) else True)\<rparr>]"

definition evaluate_candidate :: "candidate_evidence \<Rightarrow> promotion_gate \<Rightarrow> gate_decision" where
  "evaluate_candidate e g =
     \<lparr>gd_passed = list_all ck_passed (gate_checks e g), gd_checks = gate_checks e g\<rparr>"

section \<open>Median and shares\<close>

lemma length_gains_py_sorted: "length (gains (py_sorted xs)) = length (gains xs)"
  unfolding gains_def by (metis mset_filter py_sorted_mset size_mset)

lemma sorted_tail_positive:
  assumes "num_sorted xs" "k < length xs" "num_lt (Fin 0) (xs ! k)"
  shows "length xs - k \<le> length (gains xs)"
proof -
  have "num_lt (Fin 0) v" if "v \<in> set (drop k xs)" for v
  proof -
    from that obtain i where i: "v = xs ! (k + i)" "k + i < length xs"
      by (auto simp: in_set_conv_nth)
    show ?thesis
    proof (cases "i = 0")
      case False
      then have "num_le (xs ! k) (xs ! (k + i))" using sorted_wrt_nth_less [OF assms(1), of k "k + i"] i(2) by simp
      then show ?thesis using num_lt_le_trans [OF assms(3)] i(1) by simp
    qed (use assms(3) i(1) in simp)
  qed
  then have "gains (drop k xs) = drop k xs" by (simp add: gains_def filter_id_conv)
  moreover have "gains xs = gains (take k xs) @ gains (drop k xs)"
    unfolding gains_def by (metis append_take_drop_id filter_append)
  ultimately show ?thesis by simp
qed

lemma half_positive: "num_lt (Fin 0) (num_div a (Fin 2)) \<Longrightarrow> num_lt (Fin 0) a"
  by (cases a) auto

text \<open>A positive median comes from a gain; without NaN at least half of the values are gains.\<close>

lemma median_gain:
  assumes "num_lt (Fin 0) (median values)"
  shows "values \<noteq> []" "gains values \<noteq> []"
proof -
  let ?o = "py_sorted values"
  show v: "values \<noteq> []" using assms by (auto simp: median_def)
  have l: "0 < length ?o" using v by (simp add: py_sorted_length)
  have "\<exists>i < length ?o. num_lt (Fin 0) (?o ! i)"
  proof (cases "length ?o mod 2 = 1")
    case True
    then show ?thesis using assms v l by (intro exI [of _ "length ?o div 2"]) (simp add: median_def Let_def)
  next
    case False
    then have "num_lt (Fin 0) (num_add (?o ! (length ?o div 2 - 1)) (?o ! (length ?o div 2)))"
      using assms v half_positive by (simp add: median_def Let_def)
    then have "num_lt (Fin 0) (?o ! (length ?o div 2 - 1)) \<or> num_lt (Fin 0) (?o ! (length ?o div 2))"
      by (rule num_add_positive)
    moreover have "length ?o div 2 < length ?o" "length ?o div 2 - 1 < length ?o" using l by linarith+
    ultimately show ?thesis by blast
  qed
  then obtain x where "x \<in> set ?o" "num_lt (Fin 0) x" by (meson nth_mem)
  then show "gains values \<noteq> []" by (auto simp: gains_def filter_empty_conv py_sorted_set)
qed

lemma median_positive:
  assumes "num_lt (Fin 0) (median values)" "NaN \<notin> set values"
  shows "length values \<le> 2 * length (gains values)"
proof -
  let ?o = "py_sorted values" and ?n = "length values"
  let ?mid = "?n div 2"
  note v = median_gain(1) [OF assms(1)] and so = py_sorted_sorted [OF assms(2)]
  have mid: "?mid < length ?o" using v by (cases "values") (auto simp: py_sorted_length)
  have "num_lt (Fin 0) (?o ! ?mid)"
  proof (cases "?n mod 2 = 1")
    case True
    with assms v show ?thesis by (simp add: median_def Let_def py_sorted_length)
  next
    case False
    then have "?mid - 1 < ?mid" using v by (cases "values"; cases "tl values") auto
    with so mid have le: "num_le (?o ! (?mid - 1)) (?o ! ?mid)" by (intro sorted_wrt_nth_less [OF so])
    have "num_lt (Fin 0) (num_add (?o ! (?mid - 1)) (?o ! ?mid))"
      using False assms v half_positive by (simp add: median_def Let_def py_sorted_length)
    then have "num_lt (Fin 0) (?o ! (?mid - 1)) \<or> num_lt (Fin 0) (?o ! ?mid)" by (rule num_add_positive)
    then show ?thesis using le num_lt_le_trans by blast
  qed
  from sorted_tail_positive [OF so mid this] show ?thesis
    by (simp add: length_gains_py_sorted py_sorted_length)
qed

lemma sum_list_le_Max:
  fixes xs :: "rat list"
  assumes "xs \<noteq> []" "\<forall>v \<in> set xs. v \<le> m"
  shows "sum_list xs \<le> of_nat (length xs) * m"
proof -
  have "sum_list xs \<le> sum_list (map (\<lambda>_. m) xs)" using assms(2) sum_list_mono [of xs "\<lambda>x. x" "\<lambda>_. m"] by simp
  then show ?thesis by (simp add: sum_list_triv)
qed

lemma elem_le_sum_list:
  fixes xs :: "rat list"
  shows "\<forall>v \<in> set xs. 0 \<le> v \<Longrightarrow> x \<in> set xs \<Longrightarrow> x \<le> sum_list xs"
proof (induction xs)
  case (Cons y xs)
  moreover have "0 \<le> sum_list xs" using Cons.prems(1) by (intro sum_list_nonneg) auto
  ultimately show ?case by force
qed simp

lemma gains_values: "v \<in> set (gains xs) \<Longrightarrow> v = PInf \<or> (\<exists>r. v = Fin r \<and> 0 < r)"
  by (simp add: gains_def num_positive_iff)

lemma gains_finite:
  assumes "PInf \<notin> set (gains xs)"
  obtains rs where "gains xs = map Fin rs" "\<forall>r \<in> set rs. 0 < r"
proof -
  have "\<forall>v \<in> set (gains xs). \<exists>r. v = Fin r \<and> 0 < r" using assms gains_values by metis
  then have "gains xs = map Fin (map num_val (gains xs))" "\<forall>r \<in> set (map num_val (gains xs)). 0 < r"
    by (auto simp: o_def intro!: map_idI [symmetric])
  then show ?thesis by (rule that)
qed

text \<open>An infinite gain has the share NaN, which passes no limit.\<close>

lemma max_share_infinite:
  assumes "PInf \<in> set values"
  shows "max_share_of_total values = NaN"
proof -
  let ?p = "gains values"
  have p: "PInf \<in> set ?p" using assms by (simp add: gains_def)
  have "\<forall>v \<in> set ?p. num_lt (Fin 0) v" by (simp add: gains_def)
  then have s: "num_sum ?p = PInf"
  proof (cases ?p)
    case (Cons v vs)
    then have v: "num_add (Fin 0) v = v" using gains_values [of v "values"] by auto
    show ?thesis using p Cons foldl_num_add_PInf [of v vs]
      \<open>\<forall>v \<in> set ?p. num_lt (Fin 0) v\<close> by (simp add: num_sum_def v)
  qed (use p in simp)
  have "NaN \<notin> set ?p" using gains_values by blast
  then have "num_max ?p = PInf"
    using p foldl_num_max_PInf [of "hd ?p" "tl ?p"] by (cases ?p) (auto simp: num_max_def)
  with s show ?thesis by (simp add: max_share_of_total_def Let_def)
qed

text \<open>One of \<open>n\<close> gains has a share of at least \<open>1 / n\<close>.\<close>

lemma max_share_bound:
  assumes "gains values \<noteq> []" "num_le (max_share_of_total values) (Fin u)"
  shows "1 \<le> of_nat (length (gains values)) * u"
proof -
  have "PInf \<notin> set values" using assms(2) max_share_infinite by fastforce
  then have "PInf \<notin> set (gains values)" by (simp add: gains_def)
  then obtain rs where rs: "gains values = map Fin rs" "\<forall>r \<in> set rs. 0 < r" by (rule gains_finite)
  have ne: "rs \<noteq> []" using assms(1) rs(1) by auto
  have m: "Max (set rs) \<in> set rs" using ne by (intro Max_in) simp_all
  have s: "0 < sum_list rs" using elem_le_sum_list [of rs "Max (set rs)"] rs(2) m by (meson less_imp_le less_le_trans)
  have "sum_list rs \<le> of_nat (length rs) * Max (set rs)" using ne by (intro sum_list_le_Max) auto
  then have "1 \<le> of_nat (length rs) * (Max (set rs) / sum_list rs)" using s by (simp add: field_simps)
  moreover have "Max (set rs) / sum_list rs \<le> u"
    using assms(2) s ne rs(1) by (simp add: max_share_of_total_def Let_def num_max_Fin)
  ultimately show ?thesis
    using mult_left_mono [of "Max (set rs) / sum_list rs" u "of_nat (length rs)"] rs(1) by simp
qed

section \<open>What a pass means\<close>

lemma passed_iff: "gd_passed (evaluate_candidate e g) \<longleftrightarrow> list_all ck_passed (gate_checks e g)"
  by (simp add: evaluate_candidate_def)

text \<open>
  C27. A pass is robust. With the median flag and both application flags set, a pass means: there are
  folds, the required fraction of them gained and, unless a fold return is NaN, at least half of them
  did; no fold and no trade has an infinite gain; the share limits bound concentration from below
  (gains in at least \<open>1 / limit\<close> folds, and in as many trades if any trade gained); data is complete and
  funding and marking were applied; and of the evidence compared with a limit or with zero (Sharpe
  ratio, overfitting, drawdown, degradation and, where their flags ask for them, the return after
  adverse costs and the return with a late entry) none is NaN. A NaN among the returns of folds or
  trades is not excluded: it is no gain, and a gate can pass over it.
\<close>

theorem gate_pass_is_robust:
  assumes "gd_passed (evaluate_candidate e g)" "pg_max_fold_share g = Fin s" "pg_max_trade_share g = Fin t"
    "pg_min_positive_folds g = Fin f"
    "pg_median_fold_positive g" "pg_requires_funding g" "pg_requires_mark_to_market g"
  shows "ce_fold_returns e \<noteq> [] \<and>
    f * of_nat (length (ce_fold_returns e)) \<le> of_nat (length (gains (ce_fold_returns e))) \<and>
    (NaN \<in> set (ce_fold_returns e) \<or> length (ce_fold_returns e) \<le> 2 * length (gains (ce_fold_returns e))) \<and>
    PInf \<notin> set (ce_fold_returns e) \<union> set (ce_trade_returns e) \<and>
    1 \<le> of_nat (length (gains (ce_fold_returns e))) * s \<and>
    (gains (ce_trade_returns e) = [] \<or> 1 \<le> of_nat (length (gains (ce_trade_returns e))) * t) \<and>
    ce_data_complete e \<and> ce_funding_applied e \<and> ce_mark_to_market e \<and>
    NaN \<notin> {ce_dsr e, ce_pbo e, ce_max_drawdown e, ce_perturbation e} \<and>
    (pg_adverse_return_positive g \<longrightarrow> ce_adverse_return e \<noteq> NaN) \<and>
    (pg_entry_lag_nonneg g \<longrightarrow> ce_entry_lag_return e \<noteq> NaN)"
proof -
  note c = assms(1) [unfolded passed_iff gate_checks_def, simplified, simplified assms]
  have m: "num_lt (Fin 0) (median (ce_fold_returns e))" using c by simp
  note folds = median_gain [OF m]
  have frac: "f * of_nat (length (ce_fold_returns e)) \<le> of_nat (length (gains (ce_fold_returns e)))"
    using c folds(1) by (simp add: positive_fraction_def pos_le_divide_eq)
  have shares: "num_le (max_share_of_total (ce_fold_returns e)) (Fin s)"
    "num_le (max_share_of_total (ce_trade_returns e)) (Fin t)"
    using c by simp_all
  have inf: "PInf \<notin> set (ce_fold_returns e) \<union> set (ce_trade_returns e)"
    using shares max_share_infinite by fastforce
  have nan: "NaN \<notin> {ce_dsr e, ce_pbo e, ce_max_drawdown e, ce_perturbation e}"
    "pg_adverse_return_positive g \<longrightarrow> ce_adverse_return e \<noteq> NaN" "pg_entry_lag_nonneg g \<longrightarrow> ce_entry_lag_return e \<noteq> NaN"
    using c by (auto simp: num_le_NaN)
  show ?thesis
    using folds(1) frac median_positive [OF m] inf max_share_bound [OF folds(2) shares(1)]
      max_share_bound [OF _ shares(2)] nan c by blast
qed

text \<open>Better evidence on the same folds and trades, and a gate that asks for less.\<close>

definition evidence_le :: "candidate_evidence \<Rightarrow> candidate_evidence \<Rightarrow> bool" where
  "evidence_le e e' \<longleftrightarrow>
     ce_oos_trades e \<le> ce_oos_trades e' \<and> ce_symbols_positive e \<le> ce_symbols_positive e' \<and>
     num_le (ce_adverse_return e) (ce_adverse_return e') \<and> ce_fold_returns e = ce_fold_returns e' \<and>
     ce_trade_returns e = ce_trade_returns e' \<and> num_le (ce_dsr e) (ce_dsr e') \<and> num_le (ce_pbo e') (ce_pbo e) \<and>
     (ce_parameter_stable e \<longrightarrow> ce_parameter_stable e') \<and> num_le (ce_max_drawdown e') (ce_max_drawdown e) \<and>
     num_le (ce_perturbation e') (ce_perturbation e) \<and> num_le (ce_entry_lag_return e) (ce_entry_lag_return e') \<and>
     (ce_funding_applied e \<longrightarrow> ce_funding_applied e') \<and> (ce_mark_to_market e \<longrightarrow> ce_mark_to_market e') \<and>
     (ce_data_complete e \<longrightarrow> ce_data_complete e')"

definition gate_le :: "promotion_gate \<Rightarrow> promotion_gate \<Rightarrow> bool" where
  "gate_le g g' \<longleftrightarrow>
     pg_min_oos_trades g \<le> pg_min_oos_trades g' \<and> pg_min_symbols_positive g \<le> pg_min_symbols_positive g' \<and>
     (pg_adverse_return_positive g \<longrightarrow> pg_adverse_return_positive g') \<and>
     (pg_median_fold_positive g \<longrightarrow> pg_median_fold_positive g') \<and>
     num_le (pg_min_positive_folds g) (pg_min_positive_folds g') \<and> num_le (pg_max_fold_share g') (pg_max_fold_share g) \<and>
     num_le (pg_max_trade_share g') (pg_max_trade_share g) \<and> num_le (pg_min_dsr g) (pg_min_dsr g') \<and>
     num_le (pg_max_pbo g') (pg_max_pbo g) \<and> (pg_parameter_stability g \<longrightarrow> pg_parameter_stability g') \<and>
     num_le (pg_max_drawdown g') (pg_max_drawdown g) \<and> num_le (pg_max_perturbation g') (pg_max_perturbation g) \<and>
     (pg_entry_lag_nonneg g \<longrightarrow> pg_entry_lag_nonneg g') \<and> (pg_requires_funding g \<longrightarrow> pg_requires_funding g') \<and>
     (pg_requires_mark_to_market g \<longrightarrow> pg_requires_mark_to_market g')"

text \<open>
  The gate is monotone: evidence that is no worse passes a gate that is no stricter. In
  particular no single improvement, and no loosened threshold, turns a pass into a failure.
\<close>

theorem gate_monotone:
  assumes "evidence_le e e'" "gate_le g' g" "gd_passed (evaluate_candidate e g)"
  shows "gd_passed (evaluate_candidate e' g')"
proof -
  note c = assms(3) [unfolded passed_iff gate_checks_def, simplified]
  note le = assms(1) [unfolded evidence_le_def] assms(2) [unfolded gate_le_def]
  have lt: "num_lt (Fin 0) b" if "num_lt (Fin 0) a" "num_le a b" for a b
    using that by (cases a; cases b) auto
  note tr = num_le_trans
  have "pg_min_oos_trades g' \<le> ce_oos_trades e'" "pg_min_symbols_positive g' \<le> ce_symbols_positive e'"
    using c le by linarith+
  moreover have "num_le (pg_min_positive_folds g') (Fin (positive_fraction (ce_fold_returns e')))"
    "num_le (max_share_of_total (ce_fold_returns e')) (pg_max_fold_share g')"
    "num_le (max_share_of_total (ce_trade_returns e')) (pg_max_trade_share g')"
    using c le tr by metis+
  moreover have "num_le (pg_min_dsr g') (ce_dsr e')" "num_le (ce_pbo e') (pg_max_pbo g')"
    "num_le (ce_max_drawdown e') (pg_max_drawdown g')" "num_le (ce_perturbation e') (pg_max_perturbation g')"
    using c le tr by metis+
  moreover have "pg_adverse_return_positive g' \<longrightarrow> num_lt (Fin 0) (ce_adverse_return e')"
    "pg_median_fold_positive g' \<longrightarrow> num_lt (Fin 0) (median (ce_fold_returns e'))"
    "pg_entry_lag_nonneg g' \<longrightarrow> num_le (Fin 0) (ce_entry_lag_return e')"
    using c le lt tr by metis+
  ultimately show ?thesis
    unfolding passed_iff gate_checks_def using c le by simp
qed

section \<open>The shipped gate\<close>

definition demo_evidence :: "num \<Rightarrow> candidate_evidence" where
  "demo_evidence dsr =
     \<lparr>ce_oos_trades = 40, ce_symbols_positive = 3, ce_adverse_return = Fin (1 / 10),
      ce_fold_returns = [Fin (2 / 100), Fin (- 1 / 100), Fin (1 / 100), Fin (3 / 200)],
      ce_trade_returns = replicate 5 (Fin (1 / 100)) @ [Fin (- 1 / 100)],
      ce_dsr = dsr, ce_pbo = Fin (1 / 10), ce_parameter_stable = True, ce_max_drawdown = Fin (1 / 5),
      ce_perturbation = Fin (1 / 10), ce_entry_lag_return = Fin 0, ce_funding_applied = True,
      ce_mark_to_market = True, ce_data_complete = True, ce_severe_return = None, ce_risk_of_ruin = None,
      ce_risk_of_ruin_upper = None\<rparr>"

lemma demo_evidence_passes: "gd_passed (evaluate_candidate (demo_evidence (Fin (96 / 100))) shipped_gate)"
  by code_simp

text \<open>A NaN among the fold returns does not stop a candidate: the gate can pass over it.\<close>

lemma nan_fold_passes:
  "gd_passed (evaluate_candidate ((demo_evidence (Fin (96 / 100)))
     \<lparr>ce_fold_returns := [NaN, Fin (1 / 100), Fin (1 / 100)]\<rparr>) shipped_gate)"
  by code_simp

lemma gate_pass_is_robust_witness:
  "gd_passed (evaluate_candidate (demo_evidence (Fin (96 / 100))) shipped_gate) \<and>
   5 * 2 \<le> 5 * length (gains (ce_fold_returns (demo_evidence (Fin (96 / 100))))) \<and>
   \<not> gd_passed (evaluate_candidate (demo_evidence NaN) shipped_gate)"
proof -
  have g: "pg_max_fold_share shipped_gate = Fin (1 / 2)" "pg_max_trade_share shipped_gate = Fin (1 / 5)"
    "pg_min_positive_folds shipped_gate = Fin (3 / 5)"
    "pg_median_fold_positive shipped_gate" "pg_requires_funding shipped_gate" "pg_requires_mark_to_market shipped_gate"
    by (simp_all add: shipped_gate_def)
  have "ce_dsr (demo_evidence NaN) = NaN" by (simp add: demo_evidence_def)
  then have "\<not> gd_passed (evaluate_candidate (demo_evidence NaN) shipped_gate)"
    using gate_pass_is_robust [OF _ g] by (metis insertI1)
  with gate_pass_is_robust [OF demo_evidence_passes g] demo_evidence_passes show ?thesis
    by (simp add: demo_evidence_def)
qed

lemma gate_monotone_witness: "gd_passed (evaluate_candidate (demo_evidence (Fin 1)) shipped_gate)"
proof -
  have "evidence_le (demo_evidence (Fin (96 / 100))) (demo_evidence (Fin 1))" by code_simp
  moreover have "gate_le shipped_gate shipped_gate" by code_simp
  ultimately show ?thesis by (rule gate_monotone [OF _ _ demo_evidence_passes])
qed

end
