(* ===== verification/Py_Format.thy ===== *)
theory Py_Format
  imports Py_Json
begin

text \<open>
  The text formatting of Python that several components share: \<open>f"{n:06d}"\<close>, \<open>str.split\<close> and
  \<open>str.join\<close>, with the fact that \<open>int\<close> reads back what the format wrote.
\<close>

definition pad_zeros :: "nat \<Rightarrow> string \<Rightarrow> string" where
  "pad_zeros w s = replicate (w - length s) (CHR ''0'') @ s"

text \<open>\<open>f"{i:0wd}"\<close>; a minus sign counts into the width.\<close>

definition zero_pad :: "nat \<Rightarrow> int \<Rightarrow> string" where
  "zero_pad w i =
     (if i < 0 then CHR ''-'' # pad_zeros (w - 1) (show_nat (nat (- i))) else pad_zeros w (show_nat (nat i)))"

text \<open>\<open>s.split(c)\<close> for a separator of one character.\<close>

fun py_split :: "char \<Rightarrow> string \<Rightarrow> string list" where
  "py_split c [] = [[]]"
| "py_split c (x # xs) =
     (if x = c then [] # py_split c xs
      else (case py_split c xs of [] \<Rightarrow> [[x]] | y # ys \<Rightarrow> (x # y) # ys))"

fun join :: "string \<Rightarrow> string list \<Rightarrow> string" where
  "join sep [] = []"
| "join sep [s] = s"
| "join sep (s # t # ss) = s @ sep @ join sep (t # ss)"

lemma py_split_nonempty: "py_split c s \<noteq> []"
  by (induction s) (auto split: list.splits)

lemma py_split_no_sep: "x \<in> set (py_split c s) \<Longrightarrow> c \<notin> set x"
  by (induction s arbitrary: x) (auto split: list.splits if_splits)

lemma py_split_simple: "c \<notin> set s \<Longrightarrow> py_split c s = [s]"
  by (induction s) auto

lemma py_split_append: "c \<notin> set s \<Longrightarrow> py_split c (s @ c # t) = s # py_split c t"
  by (induction s) (auto split: list.splits)

lemma py_split_at: "py_split c (s @ c # t) = py_split c s @ py_split c t"
proof (induction s)
  case (Cons x s)
  obtain y ys where "py_split c s = y # ys" using py_split_nonempty [of c s] by (cases "py_split c s") auto
  with Cons show ?case by simp
qed simp

section \<open>Reading a number back\<close>

lemma digit_of_nat: "n < 10 \<Longrightarrow> is_digit (char_of (48 + n)) \<and> digit_val (char_of (48 + n)) = n"
  by (simp add: is_digit_def digit_val_def Let_def)

lemma show_nat_digits: "list_all is_digit (show_nat n) \<and> show_nat n \<noteq> []"
proof (induction n rule: show_nat.induct)
  case (1 n)
  show ?case using 1 digit_of_nat [of n] digit_of_nat [of "n mod 10"]
    by (subst (1 2) show_nat.simps) simp
qed

lemma grouped_append:
  "list_all is_digit ds \<Longrightarrow>
   grouped_digits a b (ds @ s) = grouped_digits (foldl (\<lambda>n c. 10 * n + digit_val c) a ds) (b \<or> ds \<noteq> []) s"
  by (induction ds arbitrary: a b) auto

lemma show_nat_val: "digits_val (show_nat n) = n"
proof (induction n rule: show_nat.induct)
  case (1 n)
  show ?case
    using 1 digit_of_nat [of n] digit_of_nat [of "n mod 10"]
    by (subst show_nat.simps) (simp add: digits_val_def)
qed

lemma pad_digits: "list_all is_digit s \<Longrightarrow> list_all is_digit (pad_zeros w s)"
  by (auto simp: pad_zeros_def list_all_iff is_digit_def)

lemma pad_val: "digits_val (pad_zeros w s) = digits_val s"
proof -
  have z: "foldl (\<lambda>n c. 10 * n + digit_val c) 0 (replicate k (CHR ''0'')) = 0" for k
    by (induction k) (simp_all add: digit_val_def)
  then show ?thesis by (simp add: digits_val_def pad_zeros_def)
qed

lemma digit_not_space: "is_digit c \<Longrightarrow> \<not> is_space c"
  by (auto simp: is_digit_def is_space_def Let_def)

lemma dropWhile_none: "\<forall>c \<in> set s. \<not> P c \<Longrightarrow> dropWhile P s = s"
  by (cases s) auto

lemma strip_digits: "list_all is_digit s \<Longrightarrow> py_strip s = s"
proof -
  assume "list_all is_digit s"
  then have "\<forall>c \<in> set s. \<not> is_space c" by (auto simp: list_all_iff digit_not_space)
  then show ?thesis by (simp add: py_strip_def dropWhile_none)
qed

lemma sign_digits: "list_all is_digit s \<Longrightarrow> split_sign s = (False, s)"
  by (auto simp: split_sign_def is_digit_def split: list.splits)

lemma int_of_digits: "list_all is_digit s \<Longrightarrow> s \<noteq> [] \<Longrightarrow> int_of_string s = Some (int (digits_val s))"
  using grouped_append [of s 0 False "[]"]
  by (simp add: int_of_string_def strip_digits sign_digits digits_val_def)

lemma int_of_zero_pad:
  assumes "0 \<le> i"
  shows "int_of_string (zero_pad w i) = Some i"
proof -
  have "list_all is_digit (pad_zeros w (show_nat (nat i)))" "pad_zeros w (show_nat (nat i)) \<noteq> []"
    using show_nat_digits [of "nat i"] by (blast intro: pad_digits) (simp add: pad_zeros_def show_nat_digits)
  from int_of_digits [OF this] assms show ?thesis
    by (simp add: zero_pad_def pad_val show_nat_val)
qed

lemma zero_pad_inj: "0 \<le> i \<Longrightarrow> 0 \<le> j \<Longrightarrow> zero_pad w i = zero_pad w j \<longleftrightarrow> i = j"
  by (metis int_of_zero_pad option.inject)

lemma zero_pad_no_sign: "0 \<le> n \<Longrightarrow> CHR ''-'' \<notin> set (zero_pad w n)"
proof -
  assume "0 \<le> n"
  have "list_all is_digit (pad_zeros w (show_nat (nat n)))"
    using show_nat_digits by (blast intro: pad_digits)
  moreover have "\<not> is_digit (CHR ''-'')" by code_simp
  ultimately show ?thesis using \<open>0 \<le> n\<close> by (auto simp: zero_pad_def list_all_iff)
qed

text \<open>A number without a minus sign reads as one that is not negative.\<close>

lemma int_of_string_nonneg: "CHR ''-'' \<notin> set s \<Longrightarrow> int_of_string s = Some i \<Longrightarrow> 0 \<le> i"
proof -
  assume a: "CHR ''-'' \<notin> set s" "int_of_string s = Some i"
  have "set (py_strip s) \<subseteq> set s"
    unfolding py_strip_def by (metis set_dropWhileD set_rev subsetI)
  with a(1) have "CHR ''-'' \<notin> set (py_strip s)" by blast
  then have "\<not> fst (split_sign (py_strip s))" by (auto simp: split_sign_def split: list.splits)
  with a(2) show ?thesis by (auto simp: int_of_string_def split: prod.splits)
qed

end
