(* ===== verification/Trial_Ledger.thy ===== *)
theory Trial_Ledger
  imports Py_Format Canonical_Json
begin

text \<open>
  Model of \<open>src/research/ledger.py\<close>: the append-only ledger of trials. The file is the list of the
  JSON values of its non-blank lines, an absent file the empty list. A row is read with the types
  its writer gave it: a value of another type is a \<open>TypeError\<close> here. The dataset fingerprint
  (a hash over files) is not modelled.
\<close>

section \<open>A trial\<close>

record trial_record =
  tr_id :: string
  tr_hypothesis :: string
  tr_parent :: "string option"
  tr_family :: string
  tr_rationale :: string
  tr_symbol :: string
  tr_timeframe :: string
  tr_cost_scenario :: string
  tr_status :: string
  tr_experiment :: "string option"
  tr_dataset :: "string option"
  tr_holdout_used :: bool
  tr_holdout_id :: "string option"
  tr_metrics :: "(string, json) dict"
  tr_notes :: string
  tr_created_at :: string

definition trial_statuses :: "string list" where
  "trial_statuses = [''PENDING'', ''RUNNING'', ''PASSED'', ''FAILED_GATE'', ''ERROR'', ''REJECTED'']"

definition make_trial :: "trial_record \<Rightarrow> trial_record result" where
  "make_trial t = (if tr_status t \<notin> set trial_statuses then Inl (ValueError ''unknown trial status'') else Inr t)"

text \<open>\<open>asdict\<close> and \<open>to_json\<close>, as the value that is read back.\<close>

definition trial_entries :: "trial_record \<Rightarrow> (string, json) dict" where
  "trial_entries t =
     [(''trial_id'', JStr (tr_id t)), (''hypothesis_id'', JStr (tr_hypothesis t)),
      (''parent_hypothesis_id'', optional_text (tr_parent t)), (''family'', JStr (tr_family t)),
      (''rationale'', JStr (tr_rationale t)), (''symbol'', JStr (tr_symbol t)), (''timeframe'', JStr (tr_timeframe t)),
      (''cost_scenario'', JStr (tr_cost_scenario t)), (''status'', JStr (tr_status t)),
      (''experiment_id'', optional_text (tr_experiment t)), (''dataset_fingerprint'', optional_text (tr_dataset t)),
      (''holdout_used'', JBool (tr_holdout_used t)), (''holdout_id'', optional_text (tr_holdout_id t)),
      (''metrics_summary'', JObj (tr_metrics t)), (''notes'', JStr (tr_notes t)),
      (''created_at'', JStr (tr_created_at t))]"

definition trial_to_json :: "trial_record \<Rightarrow> json" where
  "trial_to_json t = canonical (JObj (trial_entries t))"

text \<open>\<open>TrialRecord(**row)\<close>: a key without a parameter or a missing parameter is a \<open>TypeError\<close>.\<close>

definition trial_parameters :: "string list" where
  "trial_parameters =
     [''trial_id'', ''hypothesis_id'', ''parent_hypothesis_id'', ''family'', ''rationale'', ''symbol'', ''timeframe'',
      ''cost_scenario'', ''status'', ''experiment_id'', ''dataset_fingerprint'', ''holdout_used'', ''holdout_id'',
      ''metrics_summary'', ''notes'', ''created_at'']"

definition text_argument :: "(string, json) dict \<Rightarrow> string \<Rightarrow> string option \<Rightarrow> string result" where
  "text_argument d k dflt =
     (case map_of d k of
        None \<Rightarrow> (case dflt of None \<Rightarrow> Inl (type_error ''missing argument'') | Some v \<Rightarrow> Inr v)
      | Some (JStr s) \<Rightarrow> Inr s
      | Some _ \<Rightarrow> Inl (type_error ''text expected''))"

definition optional_argument :: "(string, json) dict \<Rightarrow> string \<Rightarrow> bool \<Rightarrow> string option result" where
  "optional_argument d k required =
     (case map_of d k of
        None \<Rightarrow> if required then Inl (type_error ''missing argument'') else Inr None
      | Some JNull \<Rightarrow> Inr None
      | Some (JStr s) \<Rightarrow> Inr (Some s)
      | Some _ \<Rightarrow> Inl (type_error ''text expected''))"

definition flag_argument :: "(string, json) dict \<Rightarrow> string \<Rightarrow> bool result" where
  "flag_argument d k =
     (case map_of d k of None \<Rightarrow> Inr False | Some (JBool b) \<Rightarrow> Inr b | Some _ \<Rightarrow> Inl (type_error ''flag expected''))"

definition dict_argument :: "(string, json) dict \<Rightarrow> string \<Rightarrow> (string, json) dict result" where
  "dict_argument d k =
     (case map_of d k of None \<Rightarrow> Inr [] | Some (JObj m) \<Rightarrow> Inr m | Some _ \<Rightarrow> Inl (type_error ''dict expected''))"

definition trial_of_row :: "string \<Rightarrow> json \<Rightarrow> trial_record result" where
  "trial_of_row now row =
     (case row of
        JObj d \<Rightarrow>
          if \<not> set (map fst d) \<subseteq> set trial_parameters then Inl (type_error ''unexpected keyword argument'')
          else
            bindE (text_argument d ''trial_id'' None) (\<lambda>i.
            bindE (text_argument d ''hypothesis_id'' None) (\<lambda>h.
            bindE (optional_argument d ''parent_hypothesis_id'' True) (\<lambda>p.
            bindE (text_argument d ''family'' None) (\<lambda>f.
            bindE (text_argument d ''rationale'' None) (\<lambda>r.
            bindE (text_argument d ''symbol'' None) (\<lambda>s.
            bindE (text_argument d ''timeframe'' None) (\<lambda>t.
            bindE (text_argument d ''cost_scenario'' None) (\<lambda>c.
            bindE (text_argument d ''status'' None) (\<lambda>st.
            bindE (optional_argument d ''experiment_id'' False) (\<lambda>e.
            bindE (optional_argument d ''dataset_fingerprint'' False) (\<lambda>ds.
            bindE (flag_argument d ''holdout_used'') (\<lambda>u.
            bindE (optional_argument d ''holdout_id'' False) (\<lambda>hid.
            bindE (dict_argument d ''metrics_summary'') (\<lambda>m.
            bindE (text_argument d ''notes'' (Some '''')) (\<lambda>n.
            bindE (text_argument d ''created_at'' (Some now)) (\<lambda>ca.
            make_trial
              \<lparr>tr_id = i, tr_hypothesis = h, tr_parent = p, tr_family = f, tr_rationale = r, tr_symbol = s,
               tr_timeframe = t, tr_cost_scenario = c, tr_status = st, tr_experiment = e, tr_dataset = ds,
               tr_holdout_used = u, tr_holdout_id = hid, tr_metrics = m, tr_notes = n, tr_created_at = ca\<rparr>))))))))))))))))
      | _ \<Rightarrow> Inl (type_error ''argument after ** must be a mapping''))"

section \<open>The ledger\<close>

type_synonym ledger = "json list"

definition row_key :: "json \<Rightarrow> string \<Rightarrow> json result" where
  "row_key row k = (case row of JObj d \<Rightarrow> key_of d k | _ \<Rightarrow> Inl (type_error ''row is not an object''))"

definition trial_number :: "json \<Rightarrow> int result" where
  "trial_number row =
     bindE (row_key row ''trial_id'') (\<lambda>v.
       (case v of
          JStr s \<Rightarrow>
            (case py_split (CHR ''-'') s of
               a # b # rest \<Rightarrow>
                 (case int_of_string b of
                    None \<Rightarrow> Inl (ValueError ''invalid literal for int'')
                  | Some n \<Rightarrow> Inr n)
             | _ \<Rightarrow> Inl (OtherError ''IndexError: list index out of range''))
        | _ \<Rightarrow> Inl (OtherError ''AttributeError: split'')))"

definition trial_id_of :: "int \<Rightarrow> string" where
  "trial_id_of n = ''TRIAL-'' @ zero_pad 6 n"

definition next_trial_id :: "ledger \<Rightarrow> string result" where
  "next_trial_id rows =
     (if rows = [] then Inr ''TRIAL-000001''
      else bindE (mapE trial_number rows) (\<lambda>ns. Inr (trial_id_of (Max (set ns) + 1))))"

definition record_trial :: "ledger \<Rightarrow> trial_record \<Rightarrow> ledger" where
  "record_trial rows t = rows @ [trial_to_json t]"

definition load_trials :: "string \<Rightarrow> ledger \<Rightarrow> trial_record list result" where
  "load_trials now rows = mapE (trial_of_row now) rows"

definition equals_text :: "string \<Rightarrow> json \<Rightarrow> bool" where
  "equals_text s v \<longleftrightarrow> v = JStr s"

text \<open>\<open>global_trial_count\<close>: a family filter reads the key of every row.\<close>

definition global_trial_count :: "ledger \<Rightarrow> string option \<Rightarrow> nat result" where
  "global_trial_count rows family =
     (case family of
        None \<Rightarrow> Inr (length rows)
      | Some f \<Rightarrow> bindE (mapE (\<lambda>r. row_key r ''family'') rows) (\<lambda>vs. Inr (length (filter (equals_text f) vs))))"

text \<open>\<open>any(...)\<close>: the rows in order, the first hit or the first exception ending it.\<close>

fun holdout_already_used :: "ledger \<Rightarrow> string \<Rightarrow> string \<Rightarrow> bool result" where
  "holdout_already_used [] family holdout_id = Inr False"
| "holdout_already_used (row # rows) family holdout_id =
     bindE (row_key row ''family'') (\<lambda>f.
       if equals_text family f \<and> equals_text holdout_id (jget (json_entries row) ''holdout_id'')
       then bindE (row_key row ''holdout_used'') (\<lambda>u.
         if json_truth u then Inr True else holdout_already_used rows family holdout_id)
       else holdout_already_used rows family holdout_id)"

section \<open>Reading what was written\<close>

lemma sorted_row:
  "map_of (sorted_entries d) k = map_option canonical (map_of d k)"
  by (simp add: sorted_entries_def map_of_canonical)

lemma row_fields:
  "row_key (trial_to_json t) ''trial_id'' = Inr (JStr (tr_id t))"
  "row_key (trial_to_json t) ''family'' = Inr (JStr (tr_family t))"
  "row_key (trial_to_json t) ''holdout_used'' = Inr (JBool (tr_holdout_used t))"
  "jget (json_entries (trial_to_json t)) ''holdout_id'' = optional_text (tr_holdout_id t)"
  unfolding trial_to_json_def canonical_JObj row_key_def key_of_def jget_def json_entries_def json.case sorted_row
  by (simp_all add: trial_entries_def canonical_optional_text)

lemma argument_text: "optional_argument d k b = Inr x" if "map_of d k = Some (optional_text x)"
  using that by (auto simp: optional_argument_def optional_text_def split: option.splits)

lemma loaded_row:
  "make_trial t = Inr t \<Longrightarrow> trial_of_row now (trial_to_json t) = Inr (t\<lparr>tr_metrics := sorted_entries (tr_metrics t)\<rparr>)"
proof -
  assume t: "make_trial t = Inr t"
  obtain d where d: "trial_to_json t = JObj d" "set (map fst d) \<subseteq> set trial_parameters"
      "map_of d ''trial_id'' = Some (JStr (tr_id t))" "map_of d ''hypothesis_id'' = Some (JStr (tr_hypothesis t))"
      "map_of d ''parent_hypothesis_id'' = Some (optional_text (tr_parent t))" "map_of d ''family'' = Some (JStr (tr_family t))"
      "map_of d ''rationale'' = Some (JStr (tr_rationale t))" "map_of d ''symbol'' = Some (JStr (tr_symbol t))"
      "map_of d ''timeframe'' = Some (JStr (tr_timeframe t))" "map_of d ''cost_scenario'' = Some (JStr (tr_cost_scenario t))"
      "map_of d ''status'' = Some (JStr (tr_status t))" "map_of d ''experiment_id'' = Some (optional_text (tr_experiment t))"
      "map_of d ''dataset_fingerprint'' = Some (optional_text (tr_dataset t))"
      "map_of d ''holdout_used'' = Some (JBool (tr_holdout_used t))"
      "map_of d ''holdout_id'' = Some (optional_text (tr_holdout_id t))"
      "map_of d ''metrics_summary'' = Some (JObj (sorted_entries (tr_metrics t)))"
      "map_of d ''notes'' = Some (JStr (tr_notes t))" "map_of d ''created_at'' = Some (JStr (tr_created_at t))"
  proof
    show "trial_to_json t = JObj (sorted_entries (trial_entries t))" by (simp only: trial_to_json_def canonical_JObj)
    have "set (map fst (sorted_entries (trial_entries t))) = set (map fst (trial_entries t))"
      by (force simp: sorted_entries_def)
    then show "set (map fst (sorted_entries (trial_entries t))) \<subseteq> set trial_parameters"
      by (simp add: trial_entries_def trial_parameters_def)
  qed (simp_all add: sorted_row canonical_JObj trial_entries_def canonical_optional_text del: canonical.simps(2))
  have "make_trial (t\<lparr>tr_metrics := m\<rparr>) = Inr (t\<lparr>tr_metrics := m\<rparr>)" for m
    using t by (simp add: make_trial_def split: if_splits)
  then have "make_trial \<lparr>tr_id = tr_id t, tr_hypothesis = tr_hypothesis t, tr_parent = tr_parent t, tr_family = tr_family t,
      tr_rationale = tr_rationale t, tr_symbol = tr_symbol t, tr_timeframe = tr_timeframe t,
      tr_cost_scenario = tr_cost_scenario t, tr_status = tr_status t, tr_experiment = tr_experiment t,
      tr_dataset = tr_dataset t, tr_holdout_used = tr_holdout_used t, tr_holdout_id = tr_holdout_id t,
      tr_metrics = m, tr_notes = tr_notes t, tr_created_at = tr_created_at t\<rparr> = Inr (t\<lparr>tr_metrics := m\<rparr>)" for m
    by (cases t) simp
  with d(2) show ?thesis
    unfolding d(1) trial_of_row_def
    by (simp add: d(3-) argument_text text_argument_def flag_argument_def dict_argument_def)
qed

text \<open>
  A recorded trial is never lost or changed: whatever was loaded before is loaded again, in the
  same order, with the new trial at the end (the keys of its metrics sorted).
\<close>

theorem ledger_append_only:
  assumes "make_trial t = Inr t" "load_trials now rows = Inr ts"
  shows "load_trials now (record_trial rows t) = Inr (ts @ [t\<lparr>tr_metrics := sorted_entries (tr_metrics t)\<rparr>])"
proof -
  have "mapE f (xs @ [y]) = Inr (zs @ [z])" if "mapE f xs = Inr zs" "f y = Inr z" for f :: "json \<Rightarrow> trial_record result" and xs y zs z
    using that by (induction xs arbitrary: zs) (auto simp: bindE_eq_Inr)
  with assms loaded_row show ?thesis by (simp add: load_trials_def record_trial_def)
qed

section \<open>Trial numbers\<close>

lemma split_trial_id: "py_split (CHR ''-'') (trial_id_of n) = ''TRIAL'' # py_split (CHR ''-'') (zero_pad 6 n)"
  using py_split_append [of "CHR ''-''" "''TRIAL''"] by (simp add: trial_id_of_def)

lemma number_of_trial_id:
  "row_key row ''trial_id'' = Inr (JStr (trial_id_of n)) \<Longrightarrow> 0 \<le> n \<Longrightarrow> trial_number row = Inr n"
  by (simp add: trial_number_def split_trial_id py_split_simple zero_pad_no_sign int_of_zero_pad)

lemma trial_number_nonneg: "trial_number row = Inr n \<Longrightarrow> 0 \<le> n"
proof -
  assume n: "trial_number row = Inr n"
  obtain v where v: "row_key row ''trial_id'' = Inr v"
    using n by (cases "row_key row ''trial_id''") (simp_all add: trial_number_def)
  obtain s where s: "row_key row ''trial_id'' = Inr (JStr s)"
    using n v by (cases v) (simp_all add: trial_number_def)
  obtain a l where l: "py_split (CHR ''-'') s = a # l"
    using n s by (cases "py_split (CHR ''-'') s") (simp_all add: trial_number_def)
  obtain b rest where "l = b # rest" using n s l by (cases l) (simp_all add: trial_number_def)
  with n s l have "py_split (CHR ''-'') s = a # b # rest" "int_of_string b = Some n"
    by (simp_all add: trial_number_def split: option.splits)
  with py_split_no_sep [of b "CHR ''-''" s] show ?thesis by (intro int_of_string_nonneg [of b]) simp_all
qed

lemma trial_id_first: "''TRIAL-000001'' = trial_id_of 1"
  by code_simp

text \<open>The next id is the id of no row, whatever the ledger holds.\<close>

lemma next_trial_id_fresh:
  assumes "next_trial_id rows = Inr i" "row \<in> set rows"
  shows "row_key row ''trial_id'' \<noteq> Inr (JStr i)"
proof
  assume r: "row_key row ''trial_id'' = Inr (JStr i)"
  obtain ns where ns: "mapE trial_number rows = Inr ns" "i = trial_id_of (Max (set ns) + 1)"
    using assms by (auto simp: next_trial_id_def bindE_eq_Inr split: if_splits)
  obtain n where n: "trial_number row = Inr n" "n \<in> set ns"
    using ns(1) assms(2) by (auto simp: mapE_eq_Inr list_all2_conv_all_nth in_set_conv_nth) metis
  have "\<exists>k \<in> set ns. 0 \<le> k" using n trial_number_nonneg by blast
  then have "0 \<le> Max (set ns)" by (meson List.finite_set Max_ge order_trans)
  then have "trial_number row = Inr (Max (set ns) + 1)"
    using r ns(2) by (intro number_of_trial_id) simp_all
  with n(1) have "n = Max (set ns) + 1" by simp
  moreover have "n \<le> Max (set ns)" using n(2) by (intro Max_ge) simp_all
  ultimately show False by simp
qed

text \<open>The worker's loop: take the next id, record the trial under it.\<close>

definition record_next :: "ledger \<Rightarrow> trial_record \<Rightarrow> ledger result" where
  "record_next rows t = bindE (next_trial_id rows) (\<lambda>i. Inr (record_trial rows (t\<lparr>tr_id := i\<rparr>)))"

fun record_all :: "ledger \<Rightarrow> trial_record list \<Rightarrow> ledger result" where
  "record_all rows [] = Inr rows"
| "record_all rows (t # ts) = bindE (record_next rows t) (\<lambda>rows'. record_all rows' ts)"

definition numbered :: "int \<Rightarrow> trial_record list \<Rightarrow> trial_record list" where
  "numbered n ts = map (\<lambda>(i, t). t\<lparr>tr_id := trial_id_of i\<rparr>) (zip [n..n + int (length ts) - 1] ts)"

lemma numbered_simps:
  "numbered n [] = []" "numbered n (t # ts) = t\<lparr>tr_id := trial_id_of n\<rparr> # numbered (n + 1) ts"
proof -
  have "[n..n + int (length (t # ts)) - 1] = n # [n + 1..n + 1 + int (length ts) - 1]"
    by (subst upto.simps) (simp add: algebra_simps)
  then show "numbered n (t # ts) = t\<lparr>tr_id := trial_id_of n\<rparr> # numbered (n + 1) ts" by (simp add: numbered_def)
qed (simp add: numbered_def)

lemma length_numbered [simp]: "length (numbered n ts) = length ts"
  by (simp add: numbered_def)

lemma numbered_append: "numbered n (ts @ us) = numbered n ts @ numbered (n + int (length ts)) us"
  by (induction ts arbitrary: n) (simp_all add: numbered_simps algebra_simps)

lemma numbers_of_numbered:
  "1 \<le> n \<Longrightarrow> mapE trial_number (map trial_to_json (numbered n ts)) = Inr [n..n + int (length ts) - 1]"
proof (induction ts arbitrary: n)
  case (Cons t ts)
  have "trial_number (trial_to_json (t\<lparr>tr_id := trial_id_of n\<rparr>)) = Inr n"
    using Cons.prems by (intro number_of_trial_id) (simp_all add: row_fields)
  moreover have "[n..n + int (length (t # ts)) - 1] = n # [n + 1..n + 1 + int (length ts) - 1]"
    by (subst upto.simps) (simp add: algebra_simps)
  ultimately show ?case using Cons.IH [of "n + 1"] Cons.prems by (simp add: numbered_simps)
qed (simp add: numbered_def)

lemma next_of_numbered: "next_trial_id (map trial_to_json (numbered 1 ts)) = Inr (trial_id_of (1 + int (length ts)))"
proof (cases "ts = []")
  case False
  then have "Max {1..int (length ts)} = int (length ts)" by (intro Max_eqI) (cases ts; auto)+
  moreover have "numbered 1 ts \<noteq> []" using False by (metis length_0_conv length_numbered)
  ultimately show ?thesis
    using numbers_of_numbered [of 1 ts] by (simp add: next_trial_id_def add.commute)
qed (simp add: next_trial_id_def numbered_simps trial_id_first)

lemma record_all_numbered:
  "record_all (map trial_to_json (numbered 1 us)) ts = Inr (map trial_to_json (numbered 1 (us @ ts)))"
proof (induction ts arbitrary: us)
  case (Cons t ts)
  have "record_next (map trial_to_json (numbered 1 us)) t = Inr (map trial_to_json (numbered 1 (us @ [t])))"
    by (simp add: record_next_def next_of_numbered record_trial_def numbered_append numbered_simps)
  with Cons.IH [of "us @ [t]"] show ?case by simp
qed simp

lemma upto_Cons: "[n..n + int (length (t # ts)) - 1] = n # [n + 1..n + 1 + int (length ts) - 1]"
  by (subst upto.simps) (simp add: algebra_simps)

lemma numbered_ids: "map tr_id (numbered n ts) = map trial_id_of [n..n + int (length ts) - 1]"
proof (induction ts arbitrary: n)
  case (Cons t ts)
  from Cons.IH [of "n + 1"] show ?case by (simp only: upto_Cons numbered_simps list.map) simp
qed (simp add: numbered_simps)

lemma numbered_families:
  "map tr_family (numbered n ts) = map tr_family ts" "map tr_holdout_id (numbered n ts) = map tr_holdout_id ts"
  "map tr_holdout_used (numbered n ts) = map tr_holdout_used ts"
  by (induction ts arbitrary: n) (simp_all add: numbered_simps)

lemma rows_ids:
  "map (\<lambda>r. row_key r ''trial_id'') (map trial_to_json us) = map (\<lambda>i. Inr (JStr i)) (map tr_id us)"
  by (simp add: row_fields)

lemma rows_families:
  "global_trial_count (map trial_to_json us) (Some f) = Inr (length (filter (\<lambda>g. g = f) (map tr_family us)))"
proof -
  have "mapE (\<lambda>r. row_key r ''family'') (map trial_to_json us) = Inr (map (\<lambda>t. JStr (tr_family t)) us)"
    by (induction us) (simp_all add: row_fields)
  then show ?thesis by (simp add: global_trial_count_def filter_map comp_def equals_text_def)
qed

lemma distinct_trial_ids: "0 \<le> m \<Longrightarrow> distinct (map (\<lambda>i. Inr (JStr i) :: json result) (map trial_id_of [m..n]))"
  by (auto simp: distinct_map inj_on_def trial_id_of_def zero_pad_inj)

lemma holdout_rows:
  "holdout_already_used (map trial_to_json us @ rest) f h =
     (if \<exists>t \<in> set us. tr_family t = f \<and> tr_holdout_id t = Some h \<and> tr_holdout_used t then Inr True
      else holdout_already_used rest f h)"
proof (induction us)
  case (Cons t us)
  have "equals_text h (optional_text x) \<longleftrightarrow> x = Some h" for x
    by (auto simp: equals_text_def optional_text_def split: option.splits)
  with Cons show ?case by (auto simp: row_fields equals_text_def)
qed simp

section \<open>Guarantees\<close>

text \<open>
  C30. The global trial count never resets and misses no trial: recording any trials, whatever their
  status, numbers them \<open>TRIAL-000001\<close> upwards without a gap or a repetition, and the count, in
  total and per family, is the number of trials that were recorded.
\<close>

theorem ledger_counts_every_trial:
  "\<exists>rows. record_all [] ts = Inr rows \<and>
     map (\<lambda>r. row_key r ''trial_id'') rows = map (\<lambda>i. Inr (JStr i)) (map trial_id_of [1..int (length ts)]) \<and>
     distinct (map (\<lambda>r. row_key r ''trial_id'') rows) \<and>
     global_trial_count rows None = Inr (length ts) \<and>
     global_trial_count rows (Some f) = Inr (length (filter (\<lambda>g. g = f) (map tr_family ts)))"
proof (intro exI conjI)
  let ?rows = "map trial_to_json (numbered 1 ts)"
  show "record_all [] ts = Inr ?rows" using record_all_numbered [of "[]" ts] by (simp add: numbered_simps)
  show ids: "map (\<lambda>r. row_key r ''trial_id'') ?rows = map (\<lambda>i. Inr (JStr i)) (map trial_id_of [1..int (length ts)])"
    using numbered_ids [of 1 ts] by (simp only: rows_ids) simp
  show "distinct (map (\<lambda>r. row_key r ''trial_id'') ?rows)" unfolding ids by (rule distinct_trial_ids) simp
  show "global_trial_count ?rows None = Inr (length ts)" by (simp add: global_trial_count_def)
  show "global_trial_count ?rows (Some f) = Inr (length (filter (\<lambda>g. g = f) (map tr_family ts)))"
    by (simp only: rows_families numbered_families)
qed

text \<open>
  A holdout is spent once and for all: after recording any trials, the question for a family and
  a holdout is answered yes exactly if a recorded trial of that family used it, and once it is
  answered yes it stays so whatever is appended to the file.
\<close>

theorem ledger_holdout_spent:
  assumes "record_all [] ts = Inr rows"
  shows "holdout_already_used rows f h =
      Inr (\<exists>t \<in> set ts. tr_family t = f \<and> tr_holdout_id t = Some h \<and> tr_holdout_used t) \<and>
    (holdout_already_used rows f h = Inr True \<longrightarrow> holdout_already_used (rows @ later) f h = Inr True)"
proof -
  have rows: "rows = map trial_to_json (numbered 1 ts)"
    using record_all_numbered [of "[]" ts] assms by (simp add: numbered_simps)
  have "(\<exists>t \<in> set (numbered n us). tr_family t = f \<and> tr_holdout_id t = Some h \<and> tr_holdout_used t) \<longleftrightarrow>
      (\<exists>t \<in> set us. tr_family t = f \<and> tr_holdout_id t = Some h \<and> tr_holdout_used t)" for n us
    by (induction us arbitrary: n) (simp_all add: numbered_simps)
  with holdout_rows [of "numbered 1 ts" "[]"] holdout_rows [of "numbered 1 ts" later] show ?thesis
    by (simp add: rows)
qed

section \<open>Witnesses\<close>

definition demo_trial :: "string \<Rightarrow> bool \<Rightarrow> trial_record" where
  "demo_trial status used =
     \<lparr>tr_id = ''TRIAL-000001'', tr_hypothesis = ''h'', tr_parent = None, tr_family = ''momentum_trend'', tr_rationale = ''r'',
      tr_symbol = ''BTCUSDT'', tr_timeframe = ''4h'', tr_cost_scenario = ''base'', tr_status = status, tr_experiment = None,
      tr_dataset = None, tr_holdout_used = used, tr_holdout_id = (if used then Some ''2026H1-v1'' else None),
      tr_metrics = [(''trades'', JInt 5), (''dsr'', JFloat (Fin (1 / 2)))], tr_notes = '''', tr_created_at = ''t''\<rparr>"

lemma ledger_append_only_witness:
  "load_trials ''t'' (record_trial [] (demo_trial ''PASSED'' False)) = Inr [(demo_trial ''PASSED'' False)
     \<lparr>tr_metrics := sorted_entries [(''trades'', JInt 5), (''dsr'', JFloat (Fin (1 / 2)))]\<rparr>]"
proof -
  have "make_trial (demo_trial ''PASSED'' False) = Inr (demo_trial ''PASSED'' False)"
    by (simp add: make_trial_def demo_trial_def trial_statuses_def)
  from ledger_append_only [OF this, of "''t''" "[]" "[]"] show ?thesis
    by (simp add: load_trials_def demo_trial_def)
qed

lemma ledger_holdout_spent_witness:
  "\<exists>rows. record_all [] [demo_trial ''ERROR'' False, demo_trial ''PASSED'' True] = Inr rows \<and>
     holdout_already_used rows ''momentum_trend'' ''2026H1-v1'' = Inr True"
proof -
  obtain rows where r: "record_all [] [demo_trial ''ERROR'' False, demo_trial ''PASSED'' True] = Inr rows"
    using record_all_numbered [of "[]"] by (simp only: numbered_simps list.map)
  from ledger_holdout_spent [OF r, of "''momentum_trend''" "''2026H1-v1''" "[]"] r show ?thesis
    by (simp add: demo_trial_def del: record_all.simps)
qed

end
