(* ===== verification/Hypothesis_Queue.thy ===== *)
theory Hypothesis_Queue
  imports Research_Protocol Py_Format Canonical_Json
begin

text \<open>
  Model of \<open>src/research/queue.py\<close> and \<open>hypothesis.py\<close>: the bounded queue of hypotheses of one
  research cycle. The early return of an exhausted budget is a flow that ends the loops; the
  creation time of the k-th hypothesis is given by an argument.
\<close>

section \<open>Hypotheses\<close>

record hypothesis =
  hy_id :: string
  hy_family :: string
  hy_rationale :: string
  hy_symbols :: "string list"
  hy_timeframes :: "string list"
  hy_parameters :: "(string, json) dict"
  hy_parent :: "string option"
  hy_created_at :: string

definition make_hypothesis :: "hypothesis \<Rightarrow> hypothesis result" where
  "make_hypothesis h =
     (if blank (hy_rationale h) then Inl (ValueError ''hypothesis has no rationale'')
      else if hy_symbols h = [] then Inl (ValueError ''hypothesis has no symbols'')
      else if hy_timeframes h = [] then Inl (ValueError ''hypothesis has no timeframes'')
      else Inr h)"

definition content_fingerprint :: "(json \<Rightarrow> string) \<Rightarrow> hypothesis \<Rightarrow> string" where
  "content_fingerprint sha h =
     take 16 (digest_of sha (JObj
       [(''family'', JStr (hy_family h)), (''symbols'', JList (map JStr (hy_symbols h))),
        (''timeframes'', JList (map JStr (hy_timeframes h))), (''parameters'', JObj (hy_parameters h))]))"

definition make_hypothesis_id :: "string \<Rightarrow> int \<Rightarrow> string" where
  "make_hypothesis_id family seq = ''HYP-'' @ family @ ''-'' @ zero_pad 6 seq"

section \<open>The grids of the strategies\<close>

type_synonym variant = "(string, json) dict"

definition decimal_float :: "int \<Rightarrow> int \<Rightarrow> json" where
  "decimal_float n d = JFloat (Fin (Fract n d))"

definition momentum_trend_strategies :: "(string \<times> variant list) list" where
  "momentum_trend_strategies =
     [(''momentum'',
        [[(''lookback_bars'', JInt 10), (''threshold'', decimal_float 1 100)],
         [(''lookback_bars'', JInt 20), (''threshold'', decimal_float 1 200)],
         [(''lookback_bars'', JInt 20), (''threshold'', decimal_float 1 50)]]),
      (''trend_following'', [[(''lookback_bars'', JInt 10)], [(''lookback_bars'', JInt 20)]])]"

definition cross_asset_reference_symbol :: string where
  "cross_asset_reference_symbol = ''BTCUSDT''"

definition cross_asset_strategies :: "(string \<times> variant list) list" where
  "cross_asset_strategies =
     [(''cross_asset_momentum'',
        [[(''lookback_bars'', JInt 10), (''threshold'', decimal_float 1 100)],
         [(''lookback_bars'', JInt 20), (''threshold'', decimal_float 1 200)]])]"

definition funding_oi_strategies :: "(string \<times> variant list) list" where
  "funding_oi_strategies =
     [(''funding_contrarian'',
        [[(''funding_zscore_lookback'', JInt 30), (''funding_zscore_threshold'', decimal_float 3 2),
          (''oi_confirmation_bars'', JInt 5)],
         [(''funding_zscore_lookback'', JInt 60), (''funding_zscore_threshold'', decimal_float 2 1),
          (''oi_confirmation_bars'', JInt 10)]])]"

definition price_action_strategies :: "(string \<times> variant list) list" where
  "price_action_strategies =
     [(''liquidity_sweep_confluence'',
        [[(''structure_lookback'', JInt 10), (''oi_confirmation_bars'', JInt 5)],
         [(''structure_lookback'', JInt 20), (''oi_confirmation_bars'', JInt 5)]])]"

definition base_timeframe :: string where
  "base_timeframe = ''4h''"

definition confirming_timeframe :: string where
  "confirming_timeframe = ''1d''"

definition multi_horizon_strategies :: "(string \<times> variant list) list" where
  "multi_horizon_strategies =
     [(''funding_aware_multi_horizon_trend'',
        [[(''lookback_bars_4h'', JInt a), (''lookback_bars_1d'', JInt b), (''volatility_target'', v)].
           a \<leftarrow> [30, 60, 90], b \<leftarrow> [10, 20], v \<leftarrow> [decimal_float 15 100, decimal_float 1 4]])]"

definition market_cipher_strategies :: "(string \<times> variant list) list" where
  "market_cipher_strategies =
     [(''market_cipher_like'',
        [[(''channel_span'', JInt 9), (''momentum_span'', JInt 13), (''signal_window'', JInt 4)],
         [(''channel_span'', JInt 10), (''momentum_span'', JInt 21), (''signal_window'', JInt 4)],
         [(''channel_span'', JInt 10), (''momentum_span'', JInt 21), (''signal_window'', JInt 8)]])]"

section \<open>The queue\<close>

record queued_hypothesis =
  qh_hypothesis :: hypothesis
  qh_strategy :: string
  qh_grid :: "variant list"
  qh_reference :: "string option"
  qh_higher :: "string option"

record hypothesis_queue =
  hq_queued :: "queued_hypothesis list"
  hq_skipped :: "(string \<times> string) list"

text \<open>The local variables of the builder, and how a statement ends.\<close>

record queue_state =
  qs_queued :: "queued_hypothesis list"
  qs_skipped :: "(string \<times> string) list"
  qs_sequence :: int

datatype queue_flow = Failed exn | Returned hypothesis_queue | Going queue_state

definition andThen :: "queue_flow \<Rightarrow> (queue_state \<Rightarrow> queue_flow) \<Rightarrow> queue_flow" where
  "andThen r k = (case r of Going st \<Rightarrow> k st | _ \<Rightarrow> r)"

fun for_each :: "'a list \<Rightarrow> ('a \<Rightarrow> queue_state \<Rightarrow> queue_flow) \<Rightarrow> queue_state \<Rightarrow> queue_flow" where
  "for_each [] f st = Going st"
| "for_each (x # xs) f st = andThen (f x st) (for_each xs f)"

definition queue_of :: "queue_state \<Rightarrow> hypothesis_queue" where
  "queue_of st = \<lparr>hq_queued = qs_queued st, hq_skipped = qs_skipped st\<rparr>"

text \<open>What distinguishes the body of one family's loop from another's.\<close>

record slot =
  sl_family :: string
  sl_rationale :: string
  sl_symbols :: "string list"
  sl_timeframes :: "string list"
  sl_strategy :: string
  sl_grid :: "variant list"
  sl_extra :: "(string, json) dict"
  sl_reference :: "string option"
  sl_higher :: "string option"

definition queued_of :: "(int \<Rightarrow> string) \<Rightarrow> int \<Rightarrow> slot \<Rightarrow> queued_hypothesis" where
  "queued_of now seq s =
     \<lparr>qh_hypothesis =
        \<lparr>hy_id = make_hypothesis_id (sl_family s) seq, hy_family = sl_family s, hy_rationale = sl_rationale s,
         hy_symbols = sl_symbols s, hy_timeframes = sl_timeframes s,
         hy_parameters = [(''strategy'', JStr (sl_strategy s)), (''param_grid'', JList (map JObj (sl_grid s)))] @ sl_extra s,
         hy_parent = None, hy_created_at = now seq\<rparr>,
      qh_strategy = sl_strategy s, qh_grid = sl_grid s, qh_reference = sl_reference s, qh_higher = sl_higher s\<rparr>"

definition enqueue :: "hypothesis_budget \<Rightarrow> (int \<Rightarrow> string) \<Rightarrow> slot \<Rightarrow> queue_state \<Rightarrow> queue_flow" where
  "enqueue budget now s st =
     (if hb_max_new budget \<le> int (length (qs_queued st)) then Returned (queue_of st)
      else
        (case make_hypothesis (qh_hypothesis (queued_of now (qs_sequence st) s)) of
           Inl e \<Rightarrow> Failed e
         | Inr _ \<Rightarrow> Going (st\<lparr>qs_queued := qs_queued st @ [queued_of now (qs_sequence st) s],
                              qs_sequence := qs_sequence st + 1\<rparr>)))"

definition skip_family :: "string \<Rightarrow> string \<Rightarrow> queue_state \<Rightarrow> queue_state" where
  "skip_family i reason st = st\<lparr>qs_skipped := qs_skipped st @ [(i, reason)]\<rparr>"

text \<open>\<open>grid[:n]\<close>\<close>

definition bounded_grid :: "hypothesis_budget \<Rightarrow> variant list \<Rightarrow> variant list" where
  "bounded_grid budget grid =
     (let n = hb_max_variants budget in if 0 \<le> n then take (nat n) grid else take (length grid - nat (- n)) grid)"

definition strategy_rationale :: "hypothesis_family \<Rightarrow> string \<Rightarrow> string" where
  "strategy_rationale f strategy = py_strip (hf_description f) @ '' Strategy: '' @ strategy @ ''.''"

definition plain_slot :: "research_protocol \<Rightarrow> hypothesis_family \<Rightarrow> string \<Rightarrow> variant list \<Rightarrow> string \<Rightarrow> string \<Rightarrow> slot" where
  "plain_slot p f strategy grid sy timeframe =
     \<lparr>sl_family = hf_id f, sl_rationale = strategy_rationale f strategy, sl_symbols = [sy],
      sl_timeframes = [timeframe], sl_strategy = strategy, sl_grid = bounded_grid (rp_budget p) grid, sl_extra = [],
      sl_reference = None, sl_higher = None\<rparr>"

text \<open>The loops of families A, C and F.\<close>

definition queue_plain :: "research_protocol \<Rightarrow> (int \<Rightarrow> string) \<Rightarrow> (string \<times> variant list) list \<Rightarrow> hypothesis_family
    \<Rightarrow> queue_state \<Rightarrow> queue_flow" where
  "queue_plain p now strategies f =
     for_each strategies (\<lambda>(strategy, grid).
     for_each (uc_symbols (rp_universe p)) (\<lambda>sy.
     for_each (uc_primary (rp_universe p)) (\<lambda>timeframe.
       enqueue (rp_budget p) now (plain_slot p f strategy grid sy timeframe))))"

definition queue_cross_asset :: "research_protocol \<Rightarrow> (int \<Rightarrow> string) \<Rightarrow> hypothesis_family \<Rightarrow> queue_state \<Rightarrow> queue_flow" where
  "queue_cross_asset p now f st =
     (if cross_asset_reference_symbol \<notin> set (uc_symbols (rp_universe p))
      then Going (skip_family (hf_id f) (''reference symbol 'BTCUSDT' is not in universe.symbols'' @
             '' - cannot confirm a regime without it'') st)
      else
        for_each cross_asset_strategies (\<lambda>(strategy, grid).
        for_each (filter (\<lambda>s. s \<noteq> cross_asset_reference_symbol) (uc_symbols (rp_universe p))) (\<lambda>sy.
        for_each (uc_primary (rp_universe p)) (\<lambda>timeframe.
          enqueue (rp_budget p) now
            ((plain_slot p f strategy grid sy timeframe)
              \<lparr>sl_rationale := strategy_rationale f strategy @ '' Reference: '' @ cross_asset_reference_symbol @ ''.'',
               sl_extra := [(''reference_symbol'', JStr cross_asset_reference_symbol)],
               sl_reference := Some cross_asset_reference_symbol\<rparr>)))) st)"

definition queue_multi_horizon :: "research_protocol \<Rightarrow> (int \<Rightarrow> string) \<Rightarrow> hypothesis_family \<Rightarrow> queue_state \<Rightarrow> queue_flow" where
  "queue_multi_horizon p now f st =
     (if base_timeframe \<notin> set (uc_primary (rp_universe p))
      then Going (skip_family (hf_id f) ''base timeframe '4h' is not in universe.timeframes_primary'' st)
      else if confirming_timeframe \<notin> set (uc_primary (rp_universe p))
      then Going (skip_family (hf_id f) ''confirming timeframe '1d' is not in universe.timeframes_primary'' st)
      else
        for_each multi_horizon_strategies (\<lambda>(strategy, grid).
        for_each (uc_symbols (rp_universe p)) (\<lambda>sy.
          enqueue (rp_budget p) now
            ((plain_slot p f strategy grid sy base_timeframe)
              \<lparr>sl_rationale := strategy_rationale f strategy @ '' Base: '' @ base_timeframe @ '', confirming: '' @
                 confirming_timeframe @ ''.'',
               sl_timeframes := [base_timeframe, confirming_timeframe],
               sl_extra := [(''higher_timeframe'', JStr confirming_timeframe)],
               sl_higher := Some confirming_timeframe\<rparr>))) st)"

definition queue_market_cipher :: "research_protocol \<Rightarrow> (int \<Rightarrow> string) \<Rightarrow> hypothesis_family \<Rightarrow> queue_state \<Rightarrow> queue_flow" where
  "queue_market_cipher p now f =
     for_each market_cipher_strategies (\<lambda>(strategy, grid).
     for_each (uc_symbols (rp_universe p)) (\<lambda>sy.
     for_each (uc_primary (rp_universe p)) (\<lambda>timeframe.
       enqueue (rp_budget p) now
         ((plain_slot p f strategy grid sy timeframe)
           \<lparr>sl_grid := map (AList.update ''timeframe'' (JStr timeframe)) (bounded_grid (rp_budget p) grid)\<rparr>))))"

definition runnable_families :: "string list" where
  "runnable_families =
     [''momentum_trend'', ''cross_asset_regime'', ''funding_oi'', ''price_action_confluence'',
      ''funding_aware_multi_horizon_trend'', ''market_cipher_like'']"

definition unrunnable :: "research_protocol \<Rightarrow> (string \<times> string) list" where
  "unrunnable p =
     map (\<lambda>f. (hf_id f, ''no runnable strategy implementation yet - see docs/AUTONOMOUS_RESEARCH_AUDIT.md known limitations''))
       (filter (\<lambda>f. hf_id f \<notin> set runnable_families) (enabled_families p))"

text \<open>\<open>{f.id: f for f in enabled}.get(i)\<close>: of two families with one id the last counts.\<close>

definition family_by_id :: "research_protocol \<Rightarrow> string \<Rightarrow> hypothesis_family option" where
  "family_by_id p i = map_of (rev (map (\<lambda>f. (hf_id f, f)) (enabled_families p))) i"

definition with_family :: "research_protocol \<Rightarrow> string \<Rightarrow> (hypothesis_family \<Rightarrow> queue_state \<Rightarrow> queue_flow)
    \<Rightarrow> queue_state \<Rightarrow> queue_flow" where
  "with_family p i body st = (case family_by_id p i of None \<Rightarrow> Going st | Some f \<Rightarrow> body f st)"

definition build_hypothesis_queue :: "research_protocol \<Rightarrow> int \<Rightarrow> (int \<Rightarrow> string) \<Rightarrow> hypothesis_queue result" where
  "build_hypothesis_queue p start_seq now =
     (case andThen (andThen (andThen (andThen (andThen
         (with_family p ''momentum_trend'' (queue_plain p now momentum_trend_strategies)
            \<lparr>qs_queued = [], qs_skipped = unrunnable p, qs_sequence = start_seq\<rparr>)
         (with_family p ''cross_asset_regime'' (queue_cross_asset p now)))
         (with_family p ''funding_oi'' (queue_plain p now funding_oi_strategies)))
         (with_family p ''price_action_confluence'' (queue_plain p now price_action_strategies)))
         (with_family p ''funding_aware_multi_horizon_trend'' (queue_multi_horizon p now)))
         (with_family p ''market_cipher_like'' (queue_market_cipher p now)) of
        Failed e \<Rightarrow> Inl e
      | Returned q \<Rightarrow> Inr q
      | Going st \<Rightarrow> Inr (queue_of st))"

section \<open>The full plan\<close>

text \<open>What every enabled family would queue without a budget, in order.\<close>

definition grid_slots :: "(string \<times> variant list) list \<Rightarrow> (string \<Rightarrow> variant list \<Rightarrow> slot list) \<Rightarrow> slot list" where
  "grid_slots strategies f = concat (map (\<lambda>(strategy, grid). f strategy grid) strategies)"

definition plain_slots :: "research_protocol \<Rightarrow> (string \<times> variant list) list \<Rightarrow> hypothesis_family \<Rightarrow> slot list" where
  "plain_slots p strategies f = grid_slots strategies (\<lambda>strategy grid.
     concat (map (\<lambda>sy. map (plain_slot p f strategy grid sy) (uc_primary (rp_universe p))) (uc_symbols (rp_universe p))))"

definition cross_slots :: "research_protocol \<Rightarrow> hypothesis_family \<Rightarrow> slot list" where
  "cross_slots p f =
     (if cross_asset_reference_symbol \<notin> set (uc_symbols (rp_universe p)) then []
      else grid_slots cross_asset_strategies (\<lambda>strategy grid.
        concat (map (\<lambda>sy. map (\<lambda>timeframe. (plain_slot p f strategy grid sy timeframe)
              \<lparr>sl_rationale := strategy_rationale f strategy @ '' Reference: '' @ cross_asset_reference_symbol @ ''.'',
               sl_extra := [(''reference_symbol'', JStr cross_asset_reference_symbol)],
               sl_reference := Some cross_asset_reference_symbol\<rparr>) (uc_primary (rp_universe p)))
          (filter (\<lambda>s. s \<noteq> cross_asset_reference_symbol) (uc_symbols (rp_universe p))))))"

definition horizon_slots :: "research_protocol \<Rightarrow> hypothesis_family \<Rightarrow> slot list" where
  "horizon_slots p f =
     (if base_timeframe \<notin> set (uc_primary (rp_universe p)) \<or> confirming_timeframe \<notin> set (uc_primary (rp_universe p))
      then []
      else grid_slots multi_horizon_strategies (\<lambda>strategy grid.
        map (\<lambda>sy. (plain_slot p f strategy grid sy base_timeframe)
              \<lparr>sl_rationale := strategy_rationale f strategy @ '' Base: '' @ base_timeframe @ '', confirming: '' @
                 confirming_timeframe @ ''.'',
               sl_timeframes := [base_timeframe, confirming_timeframe],
               sl_extra := [(''higher_timeframe'', JStr confirming_timeframe)],
               sl_higher := Some confirming_timeframe\<rparr>) (uc_symbols (rp_universe p))))"

definition cipher_slots :: "research_protocol \<Rightarrow> hypothesis_family \<Rightarrow> slot list" where
  "cipher_slots p f = grid_slots market_cipher_strategies (\<lambda>strategy grid.
     concat (map (\<lambda>sy. map (\<lambda>timeframe. (plain_slot p f strategy grid sy timeframe)
           \<lparr>sl_grid := map (AList.update ''timeframe'' (JStr timeframe)) (bounded_grid (rp_budget p) grid)\<rparr>)
        (uc_primary (rp_universe p))) (uc_symbols (rp_universe p))))"

definition family_slots :: "research_protocol \<Rightarrow> string \<Rightarrow> (hypothesis_family \<Rightarrow> slot list) \<Rightarrow> slot list" where
  "family_slots p i f = (case family_by_id p i of None \<Rightarrow> [] | Some family \<Rightarrow> f family)"

definition all_slots :: "research_protocol \<Rightarrow> slot list" where
  "all_slots p =
     family_slots p ''momentum_trend'' (plain_slots p momentum_trend_strategies) @
     family_slots p ''cross_asset_regime'' (cross_slots p) @
     family_slots p ''funding_oi'' (plain_slots p funding_oi_strategies) @
     family_slots p ''price_action_confluence'' (plain_slots p price_action_strategies) @
     family_slots p ''funding_aware_multi_horizon_trend'' (horizon_slots p) @
     family_slots p ''market_cipher_like'' (cipher_slots p)"

primrec number_slots :: "(int \<Rightarrow> string) \<Rightarrow> int \<Rightarrow> slot list \<Rightarrow> queued_hypothesis list" where
  "number_slots now n [] = []"
| "number_slots now n (s # ss) = queued_of now n s # number_slots now (n + 1) ss"

section \<open>Loops\<close>

lemma andThen_simps [simp]:
  "andThen (Failed e) k = Failed e" "andThen (Returned q) k = Returned q" "andThen (Going st) k = k st"
  by (simp_all add: andThen_def)

lemma andThen_Going [simp]: "andThen r Going = r"
  by (cases r) simp_all

lemma andThen_assoc: "andThen (andThen r f) g = andThen r (\<lambda>st. andThen (f st) g)"
  by (cases r) simp_all

lemma for_each_fun:
  "for_each [] f = Going" "for_each (x # xs) f = (\<lambda>st. andThen (f x st) (for_each xs f))"
  by (simp_all add: fun_eq_iff)

lemma for_each_append: "for_each (xs @ ys) f = (\<lambda>st. andThen (for_each xs f st) (for_each ys f))"
proof (induction xs)
  case (Cons x xs)
  then show ?case unfolding append_Cons for_each_fun by (simp add: andThen_assoc)
qed (simp add: fun_eq_iff)

lemma for_each_map: "for_each (map g xs) f = for_each xs (\<lambda>x. f (g x))"
proof (induction xs)
  case (Cons x xs)
  then show ?case unfolding list.map for_each_fun by simp
qed (simp add: fun_eq_iff)

lemma for_each_concat: "for_each (concat (map g xs)) f = for_each xs (\<lambda>x. for_each (g x) f)"
proof (induction xs)
  case (Cons x xs)
  then show ?case unfolding list.map concat.simps for_each_append for_each_fun by simp
qed (simp add: fun_eq_iff)

lemma for_each_grid:
  "for_each (grid_slots strategies g) f = for_each strategies (\<lambda>(strategy, grid). for_each (g strategy grid) f)"
proof -
  have "(\<lambda>x. for_each (case x of (strategy, grid) \<Rightarrow> g strategy grid) f) =
      (\<lambda>(strategy, grid). for_each (g strategy grid) f)" by (simp add: fun_eq_iff split: prod.splits)
  then show ?thesis unfolding grid_slots_def for_each_concat by simp
qed

text \<open>Each family runs the one loop body over its slots, after it may have noted a reason to skip.\<close>

lemma queue_loops:
  "queue_plain p now strategies f st = for_each (plain_slots p strategies f) (enqueue (rp_budget p) now) st"
  "queue_cross_asset p now f st = for_each (cross_slots p f) (enqueue (rp_budget p) now)
     (if cross_asset_reference_symbol \<notin> set (uc_symbols (rp_universe p))
      then skip_family (hf_id f) (''reference symbol 'BTCUSDT' is not in universe.symbols'' @
        '' - cannot confirm a regime without it'') st else st)"
  "queue_multi_horizon p now f st = for_each (horizon_slots p f) (enqueue (rp_budget p) now)
     (if base_timeframe \<notin> set (uc_primary (rp_universe p))
      then skip_family (hf_id f) ''base timeframe '4h' is not in universe.timeframes_primary'' st
      else if confirming_timeframe \<notin> set (uc_primary (rp_universe p))
      then skip_family (hf_id f) ''confirming timeframe '1d' is not in universe.timeframes_primary'' st else st)"
  "queue_market_cipher p now f st = for_each (cipher_slots p f) (enqueue (rp_budget p) now) st"
  by (simp_all add: queue_plain_def plain_slots_def queue_cross_asset_def cross_slots_def queue_multi_horizon_def
      horizon_slots_def queue_market_cipher_def cipher_slots_def for_each_grid for_each_concat for_each_map)

text \<open>Every slot makes a valid hypothesis.\<close>

definition slot_ok :: "slot \<Rightarrow> bool" where
  "slot_ok s \<longleftrightarrow> \<not> blank (sl_rationale s) \<and> sl_symbols s \<noteq> [] \<and> sl_timeframes s \<noteq> []"

lemma slot_ok_hypothesis:
  "slot_ok s \<Longrightarrow> make_hypothesis (qh_hypothesis (queued_of now n s)) = Inr (qh_hypothesis (queued_of now n s))"
  by (simp add: slot_ok_def make_hypothesis_def queued_of_def)

lemma rationale_not_blank: "\<not> blank (strategy_rationale f strategy)" "\<not> blank (strategy_rationale f strategy @ t)"
proof -
  have "CHR ''S'' \<in> set (strategy_rationale f strategy)" by (simp add: strategy_rationale_def)
  moreover have "\<not> is_space (CHR ''S'')" by code_simp
  ultimately show "\<not> blank (strategy_rationale f strategy)" "\<not> blank (strategy_rationale f strategy @ t)"
    by (auto simp: blank_iff)
qed

lemma all_slots_ok: "list_all slot_ok (all_slots p)"
  by (auto simp: all_slots_def family_slots_def plain_slots_def cross_slots_def horizon_slots_def cipher_slots_def
      grid_slots_def list_all_iff slot_ok_def plain_slot_def rationale_not_blank split: option.splits)

section \<open>The budget cuts the plan\<close>

lemma number_append: "number_slots now n (ss @ us) = number_slots now n ss @ number_slots now (n + int (length ss)) us"
  by (induction ss arbitrary: n) (simp_all add: algebra_simps)

lemma length_number [simp]: "length (number_slots now n ss) = length ss"
  by (induction ss arbitrary: n) simp_all

text \<open>Where the builder is after the slots \<open>ss\<close>: all of them queued, or returned with the budget used up.\<close>

definition ran :: "(int \<Rightarrow> string) \<Rightarrow> hypothesis_budget \<Rightarrow> int \<Rightarrow> slot list \<Rightarrow> queue_flow \<Rightarrow> bool" where
  "ran now b n ss r =
     (case r of
        Failed e \<Rightarrow> False
      | Going st \<Rightarrow> qs_queued st = number_slots now n ss \<and> qs_sequence st = n + int (length ss) \<and>
          length ss \<le> nat (hb_max_new b)
      | Returned q \<Rightarrow> hq_queued q = number_slots now n (take (nat (hb_max_new b)) ss) \<and> nat (hb_max_new b) < length ss)"

lemma ran_enqueue:
  assumes "ran now b n ss (Going st)" "slot_ok s"
  shows "ran now b n (ss @ [s]) (enqueue b now s st)"
  using assms slot_ok_hypothesis [OF assms(2), of now "n + int (length ss)"]
  by (auto simp: ran_def enqueue_def queue_of_def number_append)

lemma ran_loop:
  "ran now b n ss r \<Longrightarrow> list_all slot_ok us \<Longrightarrow> ran now b n (ss @ us) (andThen r (for_each us (enqueue b now)))"
proof (induction us arbitrary: ss r)
  case Nil
  have "andThen r (for_each [] (enqueue b now)) = r" by (simp add: for_each_fun del: for_each.simps)
  with Nil show ?case by simp
next
  case (Cons s us)
  have step: "ran now b n (ss @ [s]) (andThen r (enqueue b now s))"
  proof (cases r)
    case (Going st)
    with Cons.prems ran_enqueue [of now b n ss st s] show ?thesis by simp
  qed (use Cons.prems in \<open>simp_all add: ran_def\<close>)
  have e: "andThen r (for_each (s # us) (enqueue b now)) = andThen (andThen r (enqueue b now s)) (for_each us (enqueue b now))"
    by (simp add: for_each_fun andThen_assoc del: for_each.simps)
  show ?case unfolding e using Cons.IH [OF step] Cons.prems(2) by simp
qed

lemma ran_family:
  assumes "ran now (rp_budget p) n ss r"
    and "\<And>f st. body f st = for_each (slots f) (enqueue (rp_budget p) now) (note_skip f st)"
    and "\<And>f st. qs_queued (note_skip f st) = qs_queued st \<and> qs_sequence (note_skip f st) = qs_sequence st"
    and "list_all slot_ok (family_slots p i slots)"
  shows "ran now (rp_budget p) n (ss @ family_slots p i slots) (andThen r (with_family p i body))"
proof (cases "family_by_id p i")
  case None
  then show ?thesis using assms(1) by (cases r) (simp_all add: with_family_def family_slots_def ran_def)
next
  case (Some f)
  let ?r = "andThen r (\<lambda>st. Going (note_skip f st))"
  have "andThen r (with_family p i body) = andThen ?r (for_each (slots f) (enqueue (rp_budget p) now))"
    using Some by (cases r) (simp_all add: with_family_def assms(2))
  moreover have "ran now (rp_budget p) n ss ?r"
    using assms(1,3) by (cases r) (simp_all add: ran_def)
  ultimately show ?thesis using ran_loop [of now "rp_budget p" n ss ?r "slots f"] assms(4) Some
    by (simp add: family_slots_def)
qed

lemma ran_build:
  obtains r where "ran now (rp_budget p) n (all_slots p) r"
    "build_hypothesis_queue p n now = (case r of Failed e \<Rightarrow> Inl e | Returned q \<Rightarrow> Inr q | Going st \<Rightarrow> Inr (queue_of st))"
proof -
  let ?st = "\<lparr>qs_queued = [], qs_skipped = unrunnable p, qs_sequence = n\<rparr>"
  have ok: "list_all slot_ok (family_slots p ''momentum_trend'' (plain_slots p momentum_trend_strategies))"
    "list_all slot_ok (family_slots p ''cross_asset_regime'' (cross_slots p))"
    "list_all slot_ok (family_slots p ''funding_oi'' (plain_slots p funding_oi_strategies))"
    "list_all slot_ok (family_slots p ''price_action_confluence'' (plain_slots p price_action_strategies))"
    "list_all slot_ok (family_slots p ''funding_aware_multi_horizon_trend'' (horizon_slots p))"
    "list_all slot_ok (family_slots p ''market_cipher_like'' (cipher_slots p))"
    using all_slots_ok [of p] by (simp_all add: all_slots_def)
  have start: "ran now (rp_budget p) n [] (Going ?st)" by (simp add: ran_def)
  note r1 = ran_family [OF start queue_loops(1) _ ok(1)]
  note r2 = ran_family [OF r1 queue_loops(2) _ ok(2)]
  note r3 = ran_family [OF r2 queue_loops(1) _ ok(3)]
  note r4 = ran_family [OF r3 queue_loops(1) _ ok(4)]
  note r5 = ran_family [OF r4 queue_loops(3) _ ok(5)]
  note r6 = ran_family [OF r5 queue_loops(4) _ ok(6)]
  show thesis
    by (rule that [OF r6 [simplified append_Nil append_assoc all_slots_def [symmetric]]])
      (simp_all add: build_hypothesis_queue_def skip_family_def)
qed

section \<open>Guarantees\<close>

lemma queue_prefix:
  "\<exists>q. build_hypothesis_queue p n now = Inr q \<and>
     hq_queued q = number_slots now n (take (nat (hb_max_new (rp_budget p))) (all_slots p))"
proof (rule ran_build [of now p n])
  fix r
  assume "ran now (rp_budget p) n (all_slots p) r"
    "build_hypothesis_queue p n now = (case r of Failed e \<Rightarrow> Inl e | Returned q \<Rightarrow> Inr q | Going st \<Rightarrow> Inr (queue_of st))"
  then show ?thesis by (cases r) (auto simp: ran_def queue_of_def)
qed

text \<open>
  The budgeted queue is a prefix of the plan: the builder never raises, and what it queues is
  what all families would queue without a budget, in their order, cut at the budget and numbered
  consecutively from the start.
\<close>

theorem queue_is_plan_prefix:
  "\<exists>q. build_hypothesis_queue p n now = Inr q \<and>
     hq_queued q = number_slots now n (take (nat (hb_max_new (rp_budget p))) (all_slots p))"
  by (rule queue_prefix)

text \<open>A slot stays within the protocol.\<close>

definition slot_within :: "research_protocol \<Rightarrow> slot \<Rightarrow> bool" where
  "slot_within p s \<longleftrightarrow>
     sl_family s \<in> hf_id ` set (enabled_families p) \<and> set (sl_symbols s) \<subseteq> set (uc_symbols (rp_universe p)) \<and>
     set (sl_timeframes s) \<subseteq> set (uc_primary (rp_universe p)) \<and>
     (0 \<le> hb_max_variants (rp_budget p) \<longrightarrow> int (length (sl_grid s)) \<le> hb_max_variants (rp_budget p))"

lemma bounded_grid_length: "0 \<le> hb_max_variants b \<Longrightarrow> int (length (bounded_grid b grid)) \<le> hb_max_variants b"
  by (simp add: bounded_grid_def Let_def)

lemma family_by_id_enabled: "family_by_id p i = Some f \<Longrightarrow> f \<in> set (enabled_families p)"
  unfolding family_by_id_def by (auto dest!: map_of_SomeD)

lemma family_slots_within:
  assumes "\<And>f s. f \<in> set (enabled_families p) \<Longrightarrow> s \<in> set (slots f) \<Longrightarrow> slot_within p s" "s \<in> set (family_slots p i slots)"
  shows "slot_within p s"
  using assms family_by_id_enabled [of p i] by (cases "family_by_id p i") (simp_all add: family_slots_def)

lemma all_slots_within: "s \<in> set (all_slots p) \<Longrightarrow> slot_within p s"
proof -
  assume s: "s \<in> set (all_slots p)"
  have "slot_within p s" if "f \<in> set (enabled_families p)" "s \<in> set (plain_slots p strategies f)" for f s strategies
    using that by (auto simp: plain_slots_def grid_slots_def slot_within_def plain_slot_def bounded_grid_length)
  moreover have "slot_within p s" if "f \<in> set (enabled_families p)" "s \<in> set (cross_slots p f)" for f s
    using that by (auto simp: cross_slots_def grid_slots_def slot_within_def plain_slot_def bounded_grid_length split: if_splits)
  moreover have "slot_within p s" if "f \<in> set (enabled_families p)" "s \<in> set (horizon_slots p f)" for f s
    using that by (auto simp: horizon_slots_def grid_slots_def slot_within_def plain_slot_def bounded_grid_length split: if_splits)
  moreover have "slot_within p s" if "f \<in> set (enabled_families p)" "s \<in> set (cipher_slots p f)" for f s
    using that by (auto simp: cipher_slots_def grid_slots_def slot_within_def plain_slot_def bounded_grid_length)
  ultimately show ?thesis using s family_slots_within unfolding all_slots_def set_append Un_iff by blast
qed

lemma hypothesis_id_inj:
  assumes "make_hypothesis_id f i = make_hypothesis_id g j" "0 \<le> i" "0 \<le> j"
  shows "i = j"
proof -
  have last: "last (py_split c (s @ c # t)) = t" if "c \<notin> set t" for c and s t :: string
    unfolding py_split_at using that by (simp add: py_split_simple)
  have digits: "CHR ''-'' \<notin> set (zero_pad 6 k)" if "0 \<le> k" for k
    using that by (rule zero_pad_no_sign)
  have "zero_pad 6 i = zero_pad 6 j"
    using last [OF digits [OF assms(2)], of f] last [OF digits [OF assms(3)], of g] assms(1)
    unfolding make_hypothesis_id_def append.simps append_Nil by (metis append_Cons append_Nil same_append_eq)
  with assms(2,3) show ?thesis by (simp add: zero_pad_inj)
qed

lemma number_mem:
  "x \<in> set (number_slots now n ss) \<Longrightarrow> \<exists>k s. n \<le> k \<and> s \<in> set ss \<and> x = queued_of now k s"
proof (induction ss arbitrary: n)
  case (Cons s ss)
  show ?case
  proof (cases "x = queued_of now n s")
    case True
    then show ?thesis by (intro exI [of _ n] exI [of _ s]) simp
  next
    case False
    with Cons.prems have "x \<in> set (number_slots now (n + 1) ss)" by simp
    from Cons.IH [OF this] obtain k t where "n + 1 \<le> k" "t \<in> set ss" "x = queued_of now k t" by blast
    then show ?thesis by (intro exI [of _ k] exI [of _ t]) simp
  qed
qed simp

lemma queued_id: "hy_id (qh_hypothesis (queued_of now k s)) = make_hypothesis_id (sl_family s) k"
  by (simp add: queued_of_def)

lemma number_distinct: "0 \<le> n \<Longrightarrow> distinct (map (\<lambda>x. hy_id (qh_hypothesis x)) (number_slots now n ss))"
proof (induction ss arbitrary: n)
  case (Cons s ss)
  have "hy_id (qh_hypothesis x) \<noteq> make_hypothesis_id (sl_family s) n" if "x \<in> set (number_slots now (n + 1) ss)" for x
  proof
    assume e: "hy_id (qh_hypothesis x) = make_hypothesis_id (sl_family s) n"
    from number_mem [OF that] obtain k t where k: "n + 1 \<le> k" "x = queued_of now k t" by blast
    then have "make_hypothesis_id (sl_family t) k = make_hypothesis_id (sl_family s) n" using e by (simp add: queued_id)
    from hypothesis_id_inj [OF this] k(1) Cons.prems show False by simp
  qed
  moreover have "distinct (map (\<lambda>x. hy_id (qh_hypothesis x)) (number_slots now (n + 1) ss))"
    using Cons.IH [of "n + 1"] Cons.prems by simp
  ultimately show ?case by (simp add: queued_id image_iff) metis
qed simp

text \<open>
  Under a validated protocol the queue of a cycle is bounded and honest: at most the budget of
  hypotheses, each with an id of its own, of an enabled family, on symbols and primary timeframes of
  the universe, with at most the allowed variants and a rationale.
\<close>

theorem queue_within_protocol:
  assumes "validate_protocol p = Inr u" "0 \<le> n" "build_hypothesis_queue p n now = Inr q"
  shows "int (length (hq_queued q)) \<le> hb_max_new (rp_budget p) \<and>
    distinct (map (\<lambda>x. hy_id (qh_hypothesis x)) (hq_queued q)) \<and>
    (\<forall>x \<in> set (hq_queued q).
      hy_family (qh_hypothesis x) \<in> hf_id ` set (enabled_families p) \<and>
      list_all (is_symbol_allowed p) (hy_symbols (qh_hypothesis x)) \<and>
      list_all (is_timeframe_allowed p) (hy_timeframes (qh_hypothesis x)) \<and>
      int (length (qh_grid x)) \<le> hb_max_variants (rp_budget p) \<and>
      make_hypothesis (qh_hypothesis x) = Inr (qh_hypothesis x))"
proof -
  let ?ss = "take (nat (hb_max_new (rp_budget p))) (all_slots p)"
  have q: "hq_queued q = number_slots now n ?ss" using queue_prefix [of p n now] assms(3) by auto
  have b: "0 < hb_max_new (rp_budget p)" "0 < hb_max_variants (rp_budget p)"
    using validate_protocol_Inr [OF assms(1)] by simp_all
  have "slot_within p s \<and> slot_ok s" if "s \<in> set ?ss" for s
    using that all_slots_within all_slots_ok [of p] by (auto simp: list_all_iff dest: in_set_takeD)
  then have "\<exists>k s. slot_within p s \<and> slot_ok s \<and> x = queued_of now k s" if "x \<in> set (hq_queued q)" for x
    using number_mem that unfolding q by blast
  moreover have "int (length (hq_queued q)) \<le> hb_max_new (rp_budget p)" using b by (simp add: q)
  moreover have "distinct (map (\<lambda>x. hy_id (qh_hypothesis x)) (hq_queued q))"
    unfolding q by (rule number_distinct [OF assms(2)])
  ultimately show ?thesis
    using b slot_ok_hypothesis
    by (fastforce simp: slot_within_def queued_of_def list_all_iff is_symbol_allowed_def is_timeframe_allowed_def)
qed

section \<open>The shipped protocol\<close>

text \<open>
  The shipped budget is one full pass over every implemented strategy, and a smaller one hides
  families: with room for one hypothesis five further enabled families queue nothing and are not
  among the skipped ones.
\<close>

theorem shipped_queue_counts:
  "length (all_slots shipped_protocol) = 37 \<and> nat (hb_max_new (rp_budget shipped_protocol)) = 37 \<and>
   (let p = shipped_protocol\<lparr>rp_budget := (rp_budget shipped_protocol)\<lparr>hb_max_new := 1\<rparr>\<rparr> in
      case build_hypothesis_queue p 1 (\<lambda>_. []) of
        Inl _ \<Rightarrow> False
      | Inr q \<Rightarrow> map (\<lambda>x. hy_family (qh_hypothesis x)) (hq_queued q) = [''momentum_trend''] \<and>
          map fst (hq_skipped q) = [''portfolio_combination''] \<and> length (enabled_families p) = 7)"
  by code_simp

lemma queue_within_protocol_witness:
  "\<exists>q. build_hypothesis_queue shipped_protocol 1 (\<lambda>_. []) = Inr q \<and> int (length (hq_queued q)) \<le> 37"
proof -
  obtain q where q: "build_hypothesis_queue shipped_protocol 1 (\<lambda>_. []) = Inr q"
    using queue_prefix [of shipped_protocol 1 "\<lambda>_. []"] by blast
  from queue_within_protocol [OF shipped_protocol_valid _ q] q show ?thesis
    by (auto simp: shipped_protocol_def)
qed

end
