(* ===== verification/Degradation.thy ===== *)
theory Degradation
  imports Shadow_Runtime Promotion Py_Format
begin

text \<open>
  Model of \<open>src/research/degradation.py\<close>: the drift report of a promoted candidate and its
  consequences, a safety hold of the shadow runtime and a degraded review in the promotion
  registry. How Python prints a float (\<open>f"{x:.1f}"\<close> and \<open>repr\<close>) is an argument, because the
  rationals of the model do not fix its digits. The dashboard files are not modelled.
\<close>

section \<open>Evidence\<close>

record 'n research_baseline =
  rb_signal_frequency :: 'n
  rb_fill_rate :: 'n

definition make_research_baseline :: "num research_baseline \<Rightarrow> rat research_baseline result" where
  "make_research_baseline b =
     (if \<not> isfinite (rb_signal_frequency b) \<or> num_lt (rb_signal_frequency b) (Fin 0)
      then Inl (ValueError ''research baseline signal frequency must be finite and non-negative'')
      else if \<not> isfinite (rb_fill_rate b) \<or> \<not> in_range 0 100 (rb_fill_rate b)
      then Inl (ValueError ''research baseline fill rate must be a percentage in [0, 100]'')
      else Inr \<lparr>rb_signal_frequency = num_val (rb_signal_frequency b), rb_fill_rate = num_val (rb_fill_rate b)\<rparr>)"

record 'n live_observation =
  lo_signal_frequency :: 'n
  lo_fill_rate :: 'n
  lo_slippage :: "'n option"
  lo_drawdown :: 'n
  lo_fingerprint_matches :: bool
  lo_data_age :: "'n option"
  lo_max_staleness :: 'n

definition make_live_observation :: "num live_observation \<Rightarrow> rat live_observation result" where
  "make_live_observation l =
     (if \<not> isfinite (lo_signal_frequency l) \<or> num_lt (lo_signal_frequency l) (Fin 0)
      then Inl (ValueError ''observed signal frequency must be finite and non-negative'')
      else if \<not> isfinite (lo_fill_rate l) \<or> \<not> in_range 0 100 (lo_fill_rate l)
      then Inl (ValueError ''observed fill rate must be a percentage in [0, 100]'')
      else if (case lo_slippage l of None \<Rightarrow> False | Some s \<Rightarrow> \<not> isfinite s)
      then Inl (ValueError ''observed slippage must be finite when present'')
      else if \<not> isfinite (lo_drawdown l) \<or> num_lt (lo_drawdown l) (Fin 0)
      then Inl (ValueError ''observed drawdown must be finite and non-negative'')
      else if (case lo_data_age l of None \<Rightarrow> False | Some a \<Rightarrow> \<not> isfinite a \<or> num_lt a (Fin 0))
      then Inl (ValueError ''data age must be finite and non-negative when present'')
      else if \<not> isfinite (lo_max_staleness l) \<or> num_le (lo_max_staleness l) (Fin 0)
      then Inl (ValueError ''max allowed data staleness must be finite and positive'')
      else Inr
        \<lparr>lo_signal_frequency = num_val (lo_signal_frequency l), lo_fill_rate = num_val (lo_fill_rate l),
         lo_slippage = map_option num_val (lo_slippage l), lo_drawdown = num_val (lo_drawdown l),
         lo_fingerprint_matches = lo_fingerprint_matches l, lo_data_age = map_option num_val (lo_data_age l),
         lo_max_staleness = num_val (lo_max_staleness l)\<rparr>)"

section \<open>Metrics\<close>

record float_text =
  ft_fixed :: "num \<Rightarrow> string"
  ft_repr :: "num \<Rightarrow> string"

record drift_metric =
  dm_name :: string
  dm_ok :: bool
  dm_detail :: string

definition bool_text :: "bool \<Rightarrow> string" where
  "bool_text b = (if b then ''True'' else ''False'')"

definition optional_repr :: "float_text \<Rightarrow> rat option \<Rightarrow> string" where
  "optional_repr ft x = (case x of None \<Rightarrow> ''None'' | Some r \<Rightarrow> ft_repr ft (Fin r))"

definition data_drift :: "float_text \<Rightarrow> rat live_observation \<Rightarrow> drift_metric" where
  "data_drift ft l =
     (let fresh = (case lo_data_age l of None \<Rightarrow> False | Some a \<Rightarrow> a \<le> lo_max_staleness l);
          good = (lo_fingerprint_matches l \<and> fresh)
      in \<lparr>dm_name = ''data_drift'', dm_ok = good,
          dm_detail =
            (if good then ''dataset fingerprint matches and data is fresh''
             else ''dataset fingerprint matches='' @ bool_text (lo_fingerprint_matches l) @ '', data age='' @
               optional_repr ft (lo_data_age l) @ ''s (max '' @ ft_repr ft (Fin (lo_max_staleness l)) @ ''s)'')\<rparr>)"

definition signal_drift :: "float_text \<Rightarrow> rat research_baseline \<Rightarrow> rat live_observation \<Rightarrow> paper_promotion_config \<Rightarrow> drift_metric" where
  "signal_drift ft b l c =
     (if rb_signal_frequency b \<le> 0
      then \<lparr>dm_name = ''signal_drift'', dm_ok = False,
            dm_detail = ''research baseline signal frequency is zero; deviation cannot be computed''\<rparr>
      else
        (let deviation = \<bar>lo_signal_frequency l - rb_signal_frequency b\<bar> / rb_signal_frequency b * 100
         in \<lparr>dm_name = ''signal_drift'', dm_ok = num_le (Fin deviation) (pc_max_deviation c),
             dm_detail = ''signal frequency deviation '' @ ft_fixed ft (Fin deviation) @ ''% (baseline='' @
               ft_repr ft (Fin (rb_signal_frequency b)) @ ''/day, observed='' @
               ft_repr ft (Fin (lo_signal_frequency l)) @ ''/day, max '' @ ft_fixed ft (pc_max_deviation c) @ ''%)''\<rparr>))"

definition fill_rate_drift :: "float_text \<Rightarrow> rat live_observation \<Rightarrow> paper_promotion_config \<Rightarrow> drift_metric" where
  "fill_rate_drift ft l c =
     \<lparr>dm_name = ''execution_drift_fill_rate'', dm_ok = num_le (pc_min_fill_rate c) (Fin (lo_fill_rate l)),
      dm_detail = ''observed fill rate '' @ ft_fixed ft (Fin (lo_fill_rate l)) @ ''% (min '' @
        ft_fixed ft (pc_min_fill_rate c) @ ''%)''\<rparr>"

definition fill_rate_vs_baseline :: "float_text \<Rightarrow> rat research_baseline \<Rightarrow> rat live_observation \<Rightarrow> drift_metric" where
  "fill_rate_vs_baseline ft b l =
     \<lparr>dm_name = ''execution_drift_fill_rate_vs_baseline'', dm_ok = (rb_fill_rate b \<le> lo_fill_rate l),
      dm_detail = ''observed fill rate '' @ ft_fixed ft (Fin (lo_fill_rate l)) @ ''% (research baseline expected '' @
        ft_fixed ft (Fin (rb_fill_rate b)) @ ''%)''\<rparr>"

definition slippage_drift :: "float_text \<Rightarrow> rat live_observation \<Rightarrow> paper_promotion_config \<Rightarrow> drift_metric" where
  "slippage_drift ft l c =
     \<lparr>dm_name = ''execution_drift_slippage'',
      dm_ok = (case lo_slippage l of None \<Rightarrow> False | Some s \<Rightarrow> num_le (Fin s) (pc_max_slippage c)),
      dm_detail = ''observed mean slippage '' @ optional_repr ft (lo_slippage l) @ ''bps (max '' @
        ft_fixed ft (pc_max_slippage c) @ ''bps)''\<rparr>"

definition drawdown_degradation :: "float_text \<Rightarrow> rat live_observation \<Rightarrow> retirement_config \<Rightarrow> drift_metric" where
  "drawdown_degradation ft l c =
     \<lparr>dm_name = ''drawdown'', dm_ok = num_le (Fin (lo_drawdown l)) (rc_max_drawdown c),
      dm_detail = ''observed drawdown '' @ ft_fixed ft (Fin (lo_drawdown l)) @ ''% (max '' @
        ft_fixed ft (rc_max_drawdown c) @ ''%)''\<rparr>"

section \<open>The report and its consequences\<close>

record degradation_report =
  dr_candidate :: string
  dr_at :: int
  dr_metrics :: "drift_metric list"

definition make_degradation_report :: "degradation_report \<Rightarrow> degradation_report result" where
  "make_degradation_report r =
     (if blank (dr_candidate r) then Inl (ValueError ''degradation report requires a candidate id'')
      else if dr_metrics r = [] then Inl (ValueError ''degradation report requires at least one metric'')
      else Inr r)"

datatype degradation_verdict = VerdictOk | VerdictDegraded

definition verdict :: "degradation_report \<Rightarrow> degradation_verdict" where
  "verdict r = (if list_ex (\<lambda>m. \<not> dm_ok m) (dr_metrics r) then VerdictDegraded else VerdictOk)"

definition report_reasons :: "degradation_report \<Rightarrow> string list" where
  "report_reasons r = map dm_detail (filter (\<lambda>m. \<not> dm_ok m) (dr_metrics r))"

definition evaluate_degradation :: "float_text \<Rightarrow> string \<Rightarrow> rat research_baseline \<Rightarrow> rat live_observation
    \<Rightarrow> paper_promotion_config \<Rightarrow> retirement_config \<Rightarrow> pydatetime \<Rightarrow> degradation_report result" where
  "evaluate_degradation ft i b l pc rc evaluated_at =
     bindE (utc_of ''degradation evaluated_at_utc must be timezone-aware'' evaluated_at) (\<lambda>t.
       make_degradation_report
         \<lparr>dr_candidate = i, dr_at = t,
          dr_metrics = [data_drift ft l, signal_drift ft b l pc, fill_rate_drift ft l pc, fill_rate_vs_baseline ft b l,
            slippage_drift ft l pc, drawdown_degradation ft l rc]\<rparr>)"

definition report_observation_id :: "degradation_report \<Rightarrow> string" where
  "report_observation_id r = ''degradation:'' @ dr_candidate r @ '':'' @ isoformat (dr_at r)"

definition report_reason :: "degradation_report \<Rightarrow> string" where
  "report_reason r = join ''; '' (report_reasons r)"

text \<open>The call on the runtime; \<open>find\<close> raises when the journal does not verify.\<close>

definition hold_runtime :: "(json \<Rightarrow> string) \<Rightarrow> degradation_report \<Rightarrow> shadow_runtime \<Rightarrow> shadow_runtime \<times> unit result" where
  "hold_runtime sha r rt =
     (case journal_find sha (sr_journal rt) (report_observation_id r) of
        Inl x \<Rightarrow> (rt, Inl x)
      | Inr (Some _) \<Rightarrow> (rt, Inr ())
      | Inr None \<Rightarrow>
          (case activate_safety_hold sha rt (report_observation_id r) (report_reason r) (Aware (dr_at r)) of
             (rt', Inl x) \<Rightarrow> (rt', Inl x)
           | (rt', Inr _) \<Rightarrow> (rt', Inr ())))"

definition review_candidate :: "degradation_report \<Rightarrow> retirement_config option \<Rightarrow> int \<Rightarrow> registry \<Rightarrow> registry \<times> unit result" where
  "review_candidate r rc now reg =
     (case rc of
        None \<Rightarrow> (reg, Inr ())
      | Some c \<Rightarrow>
          (case mark_degraded reg (dr_candidate r) (report_reason r) (rc_degraded_reviews c) now of
             Inl x \<Rightarrow> (reg, Inl x)
           | Inr (reg', _) \<Rightarrow> (reg', Inr ())))"

definition apply_degradation_verdict :: "(json \<Rightarrow> string) \<Rightarrow> degradation_report \<Rightarrow> retirement_config option \<Rightarrow> int
    \<Rightarrow> shadow_runtime option \<times> registry option \<Rightarrow> (shadow_runtime option \<times> registry option) \<times> unit result" where
  "apply_degradation_verdict sha r rc now s =
     (case s of (runtime, registry) \<Rightarrow>
       if verdict r \<noteq> VerdictDegraded then (s, Inr ())
       else
         (let held = (case runtime of None \<Rightarrow> (None, Inr ())
                      | Some rt \<Rightarrow> (case hold_runtime sha r rt of (rt', x) \<Rightarrow> (Some rt', x)))
          in case held of
               (runtime', Inl x) \<Rightarrow> ((runtime', registry), Inl x)
             | (runtime', Inr _) \<Rightarrow>
                 (case registry of None \<Rightarrow> ((runtime', None), Inr ())
                  | Some reg \<Rightarrow> (case review_candidate r rc now reg of (reg', x) \<Rightarrow> ((runtime', Some reg'), x)))))"

section \<open>A degraded report holds the runtime\<close>

lemma not_blankI: "c \<in> set s \<Longrightarrow> \<not> is_space c \<Longrightarrow> \<not> blank s"
  by (auto simp: blank_iff)

lemma visible: "\<not> is_space (CHR ''d'')" "\<not> is_space (CHR ''s'')" "\<not> is_space (CHR ''r'')" "\<not> is_space (CHR ''o'')"
  by code_simp+

lemma join_not_blank: "s \<in> set ss \<Longrightarrow> \<not> blank s \<Longrightarrow> \<not> blank (join sep ss)"
  by (induction sep ss rule: join.induct) (auto simp: blank_iff)

lemma evaluate_Inr:
  assumes "evaluate_degradation ft i b l pc rc evaluated_at = Inr r"
  shows "dr_candidate r = i" "evaluated_at = Aware (dr_at r)"
    "dr_metrics r = [data_drift ft l, signal_drift ft b l pc, fill_rate_drift ft l pc, fill_rate_vs_baseline ft b l,
      slippage_drift ft l pc, drawdown_degradation ft l rc]"
  using assms by (auto simp: evaluate_degradation_def make_degradation_report_def bindE_eq_Inr utc_of_eq_Inr split: if_splits)

lemma reason_not_blank:
  assumes "evaluate_degradation ft i b l pc rc evaluated_at = Inr r" "verdict r = VerdictDegraded"
  shows "\<not> blank (report_reason r)"
proof -
  have d: "\<not> blank (dm_detail m)" if "m \<in> set (dr_metrics r)" for m
  proof -
    have "CHR ''s'' \<in> set (dm_detail m) \<or> CHR ''d'' \<in> set (dm_detail m)"
      using that unfolding evaluate_Inr(3) [OF assms(1)]
      by (auto simp: data_drift_def signal_drift_def fill_rate_drift_def fill_rate_vs_baseline_def slippage_drift_def
          drawdown_degradation_def Let_def)
    then show ?thesis using visible not_blankI by blast
  qed
  obtain m where m: "m \<in> set (dr_metrics r)" "\<not> dm_ok m"
    using assms(2) by (auto simp: verdict_def list_ex_iff split: if_splits)
  then have "dm_detail m \<in> set (report_reasons r)" by (auto simp: report_reasons_def)
  from join_not_blank [OF this d [OF m(1)]] show ?thesis by (simp add: report_reason_def)
qed

lemma observation_id_not_blank: "\<not> blank (report_observation_id r)"
  by (rule not_blankI [OF _ visible(1)]) (simp add: report_observation_id_def)

lemma find_id: "journal_ok sha j rs \<Longrightarrow> journal_find sha j i = Inr (find (\<lambda>r. ar_observation_id r = i) rs)"
  by (simp add: journal_find_def journal_ok_def)

lemma find_fresh: "i \<notin> set (map ar_observation_id rs) \<Longrightarrow> find (\<lambda>r. ar_observation_id r = i) rs = None"
  by (auto simp: find_None_iff)

lemma find_held: "i \<in> set (map ar_observation_id rs) \<Longrightarrow> find (\<lambda>r. ar_observation_id r = i) rs \<noteq> None"
  by (auto simp: find_None_iff)

text \<open>The hold goes through under a fresh id and is not repeated under a known one.\<close>

lemma hold_runtime_fresh:
  assumes "hex_digest sha" "shadow_ok sha rt rs" "instant_in_range (dr_at r)" "\<not> blank (report_reason r)"
    "report_observation_id r \<notin> set (aj_ids (sr_journal rt))"
  obtains rt' a where "hold_runtime sha r rt = (rt', Inr ())" "shadow_ok sha rt' (rs @ [a])"
    "pe_kill_reason (sr_engine rt') = Some (report_reason r)" "report_observation_id r \<in> set (aj_ids (sr_journal rt'))"
proof -
  have j: "journal_ok sha (sr_journal rt) rs" using assms(2) by (simp add: shadow_ok_def)
  then have new: "journal_find sha (sr_journal rt) (report_observation_id r) = Inr None"
    using find_id [OF j] find_fresh assms(5) by (simp add: journal_ok_def)
  obtain rt' a where h: "activate_safety_hold sha rt (report_observation_id r) (report_reason r) (Aware (dr_at r)) = (rt', Inr a)"
      "shadow_ok sha rt' (rs @ [a])" "sr_engine rt' = (restored_engine (sr_engine rt))\<lparr>pe_kill_reason := Some (report_reason r)\<rparr>"
    by (rule safety_hold_succeeds [OF assms(1,2,3) observation_id_not_blank assms(5,4)])
  have "ar_observation_id a = report_observation_id r"
    by (rule safety_hold_cases [OF assms(1,2) _ h(1)]) (use assms(3) in simp_all)
  then have "report_observation_id r \<in> set (aj_ids (sr_journal rt'))"
    using h(2) by (simp add: shadow_ok_def journal_ok_def)
  with h show thesis by (intro that [of rt' a]) (simp_all add: hold_runtime_def new)
qed

lemma hold_runtime_known:
  assumes "shadow_ok sha rt rs" "report_observation_id r \<in> set (aj_ids (sr_journal rt))"
  shows "hold_runtime sha r rt = (rt, Inr ())"
proof -
  have j: "journal_ok sha (sr_journal rt) rs" using assms(1) by (simp add: shadow_ok_def)
  then obtain a where "journal_find sha (sr_journal rt) (report_observation_id r) = Inr (Some a)"
    using find_id [OF j] find_held [of "report_observation_id r" rs] assms(2) by (auto simp: journal_ok_def)
  then show ?thesis by (simp add: hold_runtime_def)
qed

text \<open>
  C16. A degraded verdict stops virtual trading for good: applied to a sound shadow session under a
  fresh observation id it sets the kill switch with the reasons of the report, applying it again
  leaves the session as it is, and no later observation, after any operations and restarts, is eligible
  or changes the portfolio.
\<close>

theorem degradation_holds_shadow:
  assumes "hex_digest sha" "shadow_ok sha rt rs" "evaluate_degradation ft i b l pc rc evaluated_at = Inr r"
    "verdict r = VerdictDegraded" "instant_in_range (dr_at r)" "report_observation_id r \<notin> set (aj_ids (sr_journal rt))"
  shows "\<exists>rt'. fst (fst (apply_degradation_verdict sha r cfg now (Some rt, reg))) = Some rt' \<and>
    pe_kill_reason (sr_engine rt') = Some (report_reason r) \<and>
    fst (fst (apply_degradation_verdict sha r cfg' now' (Some rt', reg'))) = Some rt' \<and>
    (\<forall>ops m ps o_id equity rt3 res. list_all shadow_op_ok ops \<longrightarrow> observe_args_ok m ps \<longrightarrow>
      shadow_observe sha (foldl (shadow_step sha) rt' ops) m o_id ps equity = (rt3, res) \<longrightarrow>
      sr_engine rt3 = sr_engine (foldl (shadow_step sha) rt' ops) \<and>
      (case res of Inl _ \<Rightarrow> True | Inr a \<Rightarrow> ar_status a \<in> {WAITING, RISK_REJECTED}))"
proof -
  obtain rt' a where h: "hold_runtime sha r rt = (rt', Inr ())" "shadow_ok sha rt' (rs @ [a])"
      "pe_kill_reason (sr_engine rt') = Some (report_reason r)" "report_observation_id r \<in> set (aj_ids (sr_journal rt'))"
    by (rule hold_runtime_fresh [OF assms(1,2,5) reason_not_blank [OF assms(3,4)] assms(6)])
  have "fst (fst (apply_degradation_verdict sha r cfg now (Some rt, reg))) = Some rt'"
    by (simp add: apply_degradation_verdict_def assms(4) h(1) split: option.splits prod.splits)
  moreover have "fst (fst (apply_degradation_verdict sha r cfg' now' (Some rt', reg'))) = Some rt'"
    by (simp add: apply_degradation_verdict_def assms(4) hold_runtime_known [OF h(2,4)] split: option.splits prod.splits)
  moreover have "pe_kill_reason (sr_engine rt') \<noteq> None" by (simp add: h(3))
  ultimately show ?thesis using h(3) held_blocks(1,3) [OF assms(1) h(2)] by blast
qed

section \<open>Degraded reviews retire a candidate\<close>

definition active_status :: "promotion_status \<Rightarrow> bool" where
  "active_status s \<longleftrightarrow> s \<in> {PAPER_CHALLENGER, PAPER_CHAMPION, DEGRADED}"

lemma mark_degraded_active:
  assumes "map_of s i = Some c" "active_status (cs_status c)"
  obtains s' c' where "mark_degraded s i w n t = Inr (s', c')" "map_of s' i = Some c'"
    "n \<le> cs_degraded_reviews c + 1 \<longrightarrow> cs_status c' = RETIRED"
    "cs_degraded_reviews c + 1 < n \<longrightarrow> cs_status c' = DEGRADED \<and> cs_degraded_reviews c' = cs_degraded_reviews c + 1"
proof -
  have "\<exists>s' c'. mark_degraded s i w n t = Inr (s', c') \<and> map_of s' i = Some c' \<and>
      (n \<le> cs_degraded_reviews c + 1 \<longrightarrow> cs_status c' = RETIRED) \<and>
      (cs_degraded_reviews c + 1 < n \<longrightarrow> cs_status c' = DEGRADED \<and> cs_degraded_reviews c' = cs_degraded_reviews c + 1)"
    using assms
    by (auto simp: mark_degraded_def promotion_transition_def retire_candidate_def active_status_def Let_def update_conv')
  then show thesis using that by blast
qed

lemma mark_degraded_retired:
  "map_of s i = Some c \<Longrightarrow> cs_status c = RETIRED \<Longrightarrow> \<exists>e. mark_degraded s i w n t = Inl e"
  by (simp add: mark_degraded_def promotion_transition_def Let_def)

text \<open>Reviews applied to the registry alone, each with its time.\<close>

definition review_step :: "(json \<Rightarrow> string) \<Rightarrow> retirement_config \<Rightarrow> registry option \<Rightarrow> degradation_report \<times> int \<Rightarrow> registry option" where
  "review_step sha rc reg x = snd (fst (apply_degradation_verdict sha (fst x) (Some rc) (snd x) (None, reg)))"

lemma review_step_degraded:
  "verdict (fst x) = VerdictDegraded \<Longrightarrow>
   review_step sha rc (Some reg) x = Some (fst (review_candidate (fst x) (Some rc) (snd x) reg))"
  by (simp add: review_step_def apply_degradation_verdict_def split: prod.splits)

lemma retired_stays:
  "candidate_status reg i = Some RETIRED \<Longrightarrow> list_all (\<lambda>x. dr_candidate (fst x) = i \<and> verdict (fst x) = VerdictDegraded) xs \<Longrightarrow>
   foldl (review_step sha rc) (Some reg) xs = Some reg"
proof (induction xs)
  case (Cons x xs)
  then obtain c where "map_of reg i = Some c" "cs_status c = RETIRED" by (auto simp: candidate_status_def)
  then obtain e where "mark_degraded reg i (report_reason (fst x)) (rc_degraded_reviews rc) (snd x) = Inl e"
    using mark_degraded_retired by blast
  then have "review_step sha rc (Some reg) x = Some reg"
    using Cons.prems(2) by (simp add: review_step_degraded review_candidate_def)
  with Cons show ?case by simp
qed simp

text \<open>
  Degraded reviews retire: a challenger, champion or degraded candidate whose counter and the
  number of further degraded reports reach the threshold of the protocol is retired by applying
  them, whatever the reports say in between about time and reason, and stays retired.
\<close>

theorem degradation_retires:
  assumes "map_of reg i = Some c" "active_status (cs_status c)" "xs \<noteq> []"
    "list_all (\<lambda>x. dr_candidate (fst x) = i \<and> verdict (fst x) = VerdictDegraded) xs"
    "rc_degraded_reviews rc \<le> cs_degraded_reviews c + int (length xs)"
  shows "\<exists>reg'. foldl (review_step sha rc) (Some reg) xs = Some reg' \<and> candidate_status reg' i = Some RETIRED"
  using assms
proof (induction xs arbitrary: reg c)
  case (Cons x xs)
  obtain reg1 c1 where m: "mark_degraded reg i (report_reason (fst x)) (rc_degraded_reviews rc) (snd x) = Inr (reg1, c1)"
      "map_of reg1 i = Some c1"
      "rc_degraded_reviews rc \<le> cs_degraded_reviews c + 1 \<longrightarrow> cs_status c1 = RETIRED"
      "cs_degraded_reviews c + 1 < rc_degraded_reviews rc \<longrightarrow>
        cs_status c1 = DEGRADED \<and> cs_degraded_reviews c1 = cs_degraded_reviews c + 1"
    by (rule mark_degraded_active [OF Cons.prems(1,2), where w = "report_reason (fst x)" and
        n = "rc_degraded_reviews rc" and t = "snd x"])
  have step: "review_step sha rc (Some reg) x = Some reg1"
    using Cons.prems(4) m(1) by (simp add: review_step_degraded review_candidate_def)
  show ?case
  proof (cases "rc_degraded_reviews rc \<le> cs_degraded_reviews c + 1")
    case True
    then have r: "candidate_status reg1 i = Some RETIRED" using m by (simp add: candidate_status_def)
    with retired_stays [OF r, of xs] Cons.prems(4) step show ?thesis by simp
  next
    case False
    then have c1: "cs_status c1 = DEGRADED" "cs_degraded_reviews c1 = cs_degraded_reviews c + 1" using m(4) by simp_all
    have "xs \<noteq> []" using False Cons.prems(5) by auto
    moreover have "active_status (cs_status c1)" by (simp add: c1 active_status_def)
    ultimately show ?thesis using Cons.IH [OF m(2)] Cons.prems(4,5) step c1(2) by simp
  qed
qed simp

section \<open>Witnesses\<close>

definition demo_text :: float_text where
  "demo_text = \<lparr>ft_fixed = (\<lambda>_. ''1.0''), ft_repr = (\<lambda>_. ''1.0'')\<rparr>"

definition demo_live :: "bool \<Rightarrow> rat live_observation" where
  "demo_live matches =
     \<lparr>lo_signal_frequency = 1, lo_fill_rate = 95, lo_slippage = Some 5, lo_drawdown = 3, lo_fingerprint_matches = matches,
      lo_data_age = Some 10, lo_max_staleness = 60\<rparr>"

definition demo_report :: "bool \<Rightarrow> degradation_report" where
  "demo_report matches =
     \<lparr>dr_candidate = ''c'', dr_at = 7,
      dr_metrics = [data_drift demo_text (demo_live matches),
        signal_drift demo_text \<lparr>rb_signal_frequency = 1, rb_fill_rate = 90\<rparr> (demo_live matches) shipped_paper,
        fill_rate_drift demo_text (demo_live matches) shipped_paper,
        fill_rate_vs_baseline demo_text \<lparr>rb_signal_frequency = 1, rb_fill_rate = 90\<rparr> (demo_live matches),
        slippage_drift demo_text (demo_live matches) shipped_paper,
        drawdown_degradation demo_text (demo_live matches) shipped_retirement]\<rparr>"

lemma demo_report_verdicts: "verdict (demo_report True) = VerdictOk" "verdict (demo_report False) = VerdictDegraded"
  by code_simp+

lemma demo_report_evaluated:
  "evaluate_degradation demo_text ''c'' \<lparr>rb_signal_frequency = 1, rb_fill_rate = 90\<rparr> (demo_live b) shipped_paper
     shipped_retirement (Aware 7) = Inr (demo_report b)"
proof -
  have "\<not> blank ''c''" by code_simp
  then show ?thesis
    by (simp add: evaluate_degradation_def utc_of_def make_degradation_report_def demo_report_def)
qed

lemma degradation_holds_shadow_witness:
  "\<exists>rt rt'. fst (fst (apply_degradation_verdict flat_sha (demo_report False) None 0 (Some rt, None))) = Some rt' \<and>
     pe_kill_reason (sr_engine rt') = Some (report_reason (demo_report False))"
proof -
  obtain rt0 r where i: "shadow_ok flat_sha rt0 [r]" "aj_ids (sr_journal rt0) = [''s:initialize'']"
    by (rule initialize_succeeds [OF flat_sha_hex demo_context_ok demo_engine_ok instant_zero])
      (simp add: demo_context_def)
  have "instant_in_range (dr_at (demo_report False))" by code_simp
  moreover have "report_observation_id (demo_report False) \<notin> set (aj_ids (sr_journal rt0))"
    by (simp add: i(2) report_observation_id_def)
  ultimately show ?thesis
    using degradation_holds_shadow [OF flat_sha_hex i(1) demo_report_evaluated demo_report_verdicts(2)] by blast
qed

lemma degradation_retires_witness:
  "\<exists>reg'. foldl (review_step flat_sha shipped_retirement)
       (Some [(''c'', \<lparr>cs_id = ''c'', cs_status = PAPER_CHAMPION, cs_history = [], cs_paper_started = None,
         cs_degraded_reviews = 0, cs_families = []\<rparr>)])
       [(demo_report False, 1), (demo_report False, 2), (demo_report False, 3)] = Some reg' \<and>
     candidate_status reg' ''c'' = Some RETIRED"
  by (rule degradation_retires [of _ _ "\<lparr>cs_id = ''c'', cs_status = PAPER_CHAMPION, cs_history = [],
        cs_paper_started = None, cs_degraded_reviews = 0, cs_families = []\<rparr>"])
    (simp_all add: active_status_def demo_report_verdicts shipped_retirement_def, simp_all add: demo_report_def)

end
