(* ===== verification/Backtest_Trades.thy ===== *)
theory Backtest_Trades
  imports Prelude
begin

text \<open>
  Model of \<open>src/backtesting/reports.py\<close> and \<open>funding.py\<close> and of the trade part of
  \<open>src/analytics/metrics.py\<close>: the trades of a backtest, their funding cost, the trade metrics and
  the exposure. Instants are integers (nanoseconds), floats exact rationals. A row of the engine's
  positions report is a record with its amounts already read as numbers; the equity metrics (square
  roots and powers) are not modelled.
\<close>

section \<open>Funding\<close>

definition hour_ns :: int where
  "hour_ns = 3600000000000"

definition day_ns :: int where
  "day_ns = 24 * hour_ns"

record funding_assumptions =
  fa_rate :: rat
  fa_hours :: "int list"

definition default_funding :: funding_assumptions where
  "default_funding = \<lparr>fa_rate = 1 / 10000, fa_hours = [0, 8, 16]\<rparr>"

definition ceil_day :: "int \<Rightarrow> int" where
  "ceil_day t = - ((- t) div day_ns)"

definition settlements_on :: "int list \<Rightarrow> int \<Rightarrow> int list" where
  "settlements_on hours d = map (\<lambda>h. d * day_ns + h * hour_ns) hours"

text \<open>The settlement times in \<open>[start, end)\<close>.\<close>

definition funding_timestamps :: "int \<Rightarrow> int \<Rightarrow> funding_assumptions \<Rightarrow> int list" where
  "funding_timestamps start stop a =
     filter (\<lambda>t. start \<le> t \<and> t < stop)
       (sort (concat (map (settlements_on (fa_hours a)) [start div day_ns..ceil_day stop])))"

record funded_position =
  fp_opened :: int
  fp_closed :: int
  fp_open_price :: rat
  fp_quantity :: rat

definition estimate_funding_cost :: "funded_position list \<Rightarrow> funding_assumptions option \<Rightarrow> rat" where
  "estimate_funding_cost ps assumptions =
     (let a = (case assumptions of None \<Rightarrow> default_funding | Some a \<Rightarrow> a) in
      sum_list (map (\<lambda>p. of_nat (length (funding_timestamps (fp_opened p) (fp_closed p) a)) *
        (fp_quantity p * fp_open_price p) * fa_rate a) ps))"

section \<open>Trades\<close>

datatype entry_side = EnterBuy | EnterSell

record position_row =
  pr_opened :: int
  pr_closed :: "int option"
  pr_entry :: entry_side
  pr_peak_quantity :: rat
  pr_average_open :: rat
  pr_average_close :: rat
  pr_commissions :: "rat list"

record trade =
  td_entry_time :: int
  td_exit_time :: int
  td_quantity :: rat
  td_entry_price :: rat
  td_exit_price :: rat
  td_fees :: rat
  td_funding :: rat
  td_marked :: bool

definition direction :: "entry_side \<Rightarrow> rat" where
  "direction s = (case s of EnterBuy \<Rightarrow> 1 | EnterSell \<Rightarrow> - 1)"

definition closed_trade :: "position_row \<Rightarrow> int \<Rightarrow> trade" where
  "closed_trade p t =
     \<lparr>td_entry_time = pr_opened p, td_exit_time = t, td_quantity = pr_peak_quantity p * direction (pr_entry p),
      td_entry_price = pr_average_open p, td_exit_price = pr_average_close p, td_fees = sum_list (pr_commissions p),
      td_funding = 0, td_marked = False\<rparr>"

text \<open>A position that is still open is marked to the last price at the end of the period.\<close>

definition marked_trade :: "position_row \<Rightarrow> int \<Rightarrow> rat \<Rightarrow> trade" where
  "marked_trade p period_end mark =
     \<lparr>td_entry_time = pr_opened p, td_exit_time = period_end,
      td_quantity = pr_peak_quantity p * direction (pr_entry p), td_entry_price = pr_average_open p,
      td_exit_price = mark, td_fees = 0, td_funding = 0, td_marked = True\<rparr>"

definition funded :: "funding_assumptions option \<Rightarrow> trade \<Rightarrow> trade" where
  "funded assumptions t =
     (case assumptions of
        None \<Rightarrow> t\<lparr>td_funding := 0\<rparr>
      | Some a \<Rightarrow> t\<lparr>td_funding := estimate_funding_cost
          [\<lparr>fp_opened = td_entry_time t, fp_closed = td_exit_time t, fp_open_price = td_entry_price t,
            fp_quantity = td_quantity t\<rparr>] (Some a)\<rparr>)"

definition positions_report_to_trades :: "position_row list \<Rightarrow> int option \<Rightarrow> rat option \<Rightarrow> funding_assumptions option
    \<Rightarrow> trade list" where
  "positions_report_to_trades ps period_end mark assumptions =
     (let closed = List.map_filter (\<lambda>p. map_option (closed_trade p) (pr_closed p)) ps;
          still_open = (case (period_end, mark) of
             (Some t, Some m) \<Rightarrow> map (\<lambda>p. marked_trade p t m) (filter (\<lambda>p. pr_closed p = None) ps)
           | _ \<Rightarrow> [])
      in map (funded assumptions) (closed @ still_open))"

section \<open>Metrics\<close>

definition net_pnl :: "trade \<Rightarrow> rat" where
  "net_pnl t = td_quantity t * (td_exit_price t - td_entry_price t) - td_fees t - td_funding t"

fun losing_streak :: "nat \<Rightarrow> nat \<Rightarrow> rat list \<Rightarrow> nat" where
  "losing_streak longest current [] = longest"
| "losing_streak longest current (p # ps) =
     (if p < 0 then losing_streak (max longest (current + 1)) (current + 1) ps
      else losing_streak longest 0 ps)"

definition longest_losing_streak :: "rat list \<Rightarrow> nat" where
  "longest_losing_streak pnls = losing_streak 0 0 pnls"

record trade_metrics =
  tm_trades :: nat
  tm_net_return :: rat
  tm_win_rate :: num
  tm_avg_win :: num
  tm_avg_loss :: num
  tm_expectancy :: num
  tm_profit_factor :: num
  tm_losing_streak :: nat
  tm_turnover :: rat
  tm_fees :: rat
  tm_funding_costs :: rat

definition mean :: "rat list \<Rightarrow> rat" where
  "mean xs = sum_list xs / of_nat (length xs)"

text \<open>The frames of the backtester have no R multiples and no excursions, so those metrics are absent.\<close>

definition compute_trade_metrics :: "trade list \<Rightarrow> trade_metrics" where
  "compute_trade_metrics ts =
     (if ts = []
      then \<lparr>tm_trades = 0, tm_net_return = 0, tm_win_rate = NaN, tm_avg_win = NaN, tm_avg_loss = NaN, tm_expectancy = NaN,
            tm_profit_factor = NaN, tm_losing_streak = 0, tm_turnover = 0, tm_fees = 0, tm_funding_costs = 0\<rparr>
      else
        (let pnls = map net_pnl ts; wins = filter (\<lambda>v. 0 < v) pnls; losses = filter (\<lambda>v. v < 0) pnls in
         \<lparr>tm_trades = length ts, tm_net_return = sum_list pnls,
          tm_win_rate = Fin (of_nat (length wins) / of_nat (length pnls)),
          tm_avg_win = Fin (if wins \<noteq> [] then mean wins else 0),
          tm_avg_loss = Fin (if losses \<noteq> [] then mean losses else 0), tm_expectancy = Fin (mean pnls),
          tm_profit_factor = (if sum_list losses \<noteq> 0 then Fin (sum_list wins / \<bar>sum_list losses\<bar>) else PInf),
          tm_losing_streak = longest_losing_streak (map net_pnl (sort_key td_exit_time ts)),
          tm_turnover = sum_list (map (\<lambda>t. \<bar>td_quantity t\<bar> * td_entry_price t) ts),
          tm_fees = sum_list (map td_fees ts), tm_funding_costs = sum_list (map td_funding ts)\<rparr>))"

text \<open>The loop that merges the sorted intervals, the current one kept apart from the finished ones.\<close>

fun merge_intervals :: "int \<times> int \<Rightarrow> (int \<times> int) list \<Rightarrow> (int \<times> int) list" where
  "merge_intervals (s, e) [] = [(s, e)]"
| "merge_intervals (s, e) ((s', e') # rest) =
     (if s' \<le> e then merge_intervals (s, max e e') rest
      else (s, e) # merge_intervals (s', e') rest)"

definition clipped_intervals :: "trade list \<Rightarrow> int \<Rightarrow> int \<Rightarrow> (int \<times> int) list" where
  "clipped_intervals ts period_start period_end =
     sort (map (\<lambda>t. (max (td_entry_time t) period_start, min (td_exit_time t) period_end))
       (filter (\<lambda>t. period_start < td_exit_time t \<and> td_entry_time t < period_end) ts))"

definition exposure_fraction :: "trade list \<Rightarrow> int \<Rightarrow> int \<Rightarrow> rat" where
  "exposure_fraction ts period_start period_end =
     (if ts = [] \<or> period_end \<le> period_start then 0
      else
        (case clipped_intervals ts period_start period_end of
           [] \<Rightarrow> 0
         | i # is \<Rightarrow>
             of_int (sum_list (map (\<lambda>(s, e). e - s) (merge_intervals i is))) / of_int (period_end - period_start)))"

section \<open>Exposure is a share of time\<close>

definition cover :: "(int \<times> int) list \<Rightarrow> int set" where
  "cover is = (\<Union>(s, e) \<in> set is. {s..<e})"

lemma cover_Cons: "cover ((s, e) # is) = {s..<e} \<union> cover is"
  by (simp add: cover_def)

lemma finite_cover: "finite (cover is)"
  by (auto simp: cover_def)

lemma merged_length:
  "s \<le> e \<Longrightarrow> sorted ((s, e) # is) \<Longrightarrow> \<forall>(s', e') \<in> set is. s' \<le> e' \<Longrightarrow>
   sum_list (map (\<lambda>(s, e). e - s) (merge_intervals (s, e) is)) = int (card (cover ((s, e) # is)))"
proof (induction "(s, e)" "is" arbitrary: s e rule: merge_intervals.induct)
  case (1 s e)
  then show ?case by (simp add: cover_def)
next
  case (2 s e s' e' rest)
  have le: "s \<le> s'" "s' \<le> e'" using 2(4,5) by (auto simp: less_eq_prod_def)
  have starts: "\<forall>x \<in> set rest. s' \<le> fst x" using 2(4) by (auto simp: less_eq_prod_def)
  show ?case
  proof (cases "s' \<le> e")
    case True
    have sorted: "sorted ((s, max e e') # rest)"
      using 2(4) True le by (auto simp: less_eq_prod_def)
    have "{s..<max e e'} = {s..<e} \<union> {s'..<e'}" using True le 2(3) by auto
    then have "cover ((s, max e e') # rest) = cover ((s, e) # (s', e') # rest)" by (auto simp: cover_Cons)
    with 2(1) [OF True _ sorted] True 2(3,5) show ?thesis by simp
  next
    case False
    have "{s..<e} \<inter> cover ((s', e') # rest) = {}"
      using False starts by (fastforce simp: cover_def)
    then have "card (cover ((s, e) # (s', e') # rest)) = card {s..<e} + card (cover ((s', e') # rest))"
      unfolding cover_Cons [of s] by (intro card_Un_disjoint) (simp_all add: finite_cover)
    moreover have "sorted ((s', e') # rest)" using 2(4) by simp
    ultimately show ?thesis using 2(2) [OF False le(2)] False 2(3,5) by simp
  qed
qed

definition open_times :: "trade list \<Rightarrow> int \<Rightarrow> int \<Rightarrow> int set" where
  "open_times ts a b = {t. a \<le> t \<and> t < b \<and> (\<exists>x \<in> set ts. td_entry_time x \<le> t \<and> t < td_exit_time x)}"

lemma cover_clipped: "cover (clipped_intervals ts a b) = open_times ts a b"
  by (fastforce simp: cover_def clipped_intervals_def open_times_def)

lemma exposure_share:
  assumes "a < b" "\<forall>x \<in> set ts. td_entry_time x \<le> td_exit_time x"
  shows "exposure_fraction ts a b = of_nat (card (open_times ts a b)) / of_int (b - a)"
proof (cases "clipped_intervals ts a b")
  case Nil
  then have "open_times ts a b = {}" using cover_clipped [of ts a b] by (simp add: cover_def)
  with Nil show ?thesis by (simp add: exposure_fraction_def)
next
  case (Cons i "is")
  obtain s e where i: "i = (s, e)" by (cases i)
  have "\<forall>(s', e') \<in> set (clipped_intervals ts a b). s' \<le> e'" using assms by (auto simp: clipped_intervals_def)
  with Cons i have "s \<le> e" "\<forall>(s', e') \<in> set is. s' \<le> e'" by simp_all
  moreover have "sorted (clipped_intervals ts a b)" by (simp add: clipped_intervals_def)
  ultimately have "sum_list (map (\<lambda>(s, e). e - s) (merge_intervals (s, e) is)) = int (card (open_times ts a b))"
    using merged_length [of s e "is"] Cons i cover_clipped [of ts a b] by simp
  moreover have "ts \<noteq> []" using Cons by (auto simp: clipped_intervals_def)
  ultimately show ?thesis using assms(1) Cons i by (simp add: exposure_fraction_def)
qed

text \<open>
  The merged intervals measure exactly the time in the market: the exposure fraction is the number
  of instants of the period at which some trade was open, divided by the length of the period; so it
  lies between 0 and 1 and overlapping trades are not counted twice.
\<close>

theorem exposure_is_time_share:
  assumes "a < b" "\<forall>x \<in> set ts. td_entry_time x \<le> td_exit_time x"
  shows "exposure_fraction ts a b = of_nat (card (open_times ts a b)) / of_int (b - a) \<and>
    0 \<le> exposure_fraction ts a b \<and> exposure_fraction ts a b \<le> 1"
proof -
  have "card (open_times ts a b) \<le> card {a..<b}" by (intro card_mono) (auto simp: open_times_def)
  then have "int (card (open_times ts a b)) \<le> b - a" using assms(1) by simp
  then have "(of_nat (card (open_times ts a b)) :: rat) \<le> of_int (b - a)"
    by (metis of_int_le_iff of_int_of_nat_eq)
  then show ?thesis unfolding exposure_share [OF assms] using assms(1) by (simp add: divide_le_eq_1 del: of_int_diff)
qed

section \<open>Funding is charged once\<close>

lemma day_ns_pos: "0 < day_ns" "day_ns = 24 * hour_ns" "0 < hour_ns"
  by (simp_all add: day_ns_def hour_ns_def)

lemma settlement_day:
  assumes "\<forall>h \<in> set hours. 0 \<le> h \<and> h < 24" "t \<in> set (settlements_on hours d)"
  shows "d * day_ns \<le> t" "t < (d + 1) * day_ns"
  using assms day_ns_pos(3) by (auto simp: settlements_on_def day_ns_pos(2) algebra_simps)

lemma settlements_outside:
  assumes "\<forall>h \<in> set hours. 0 \<le> h \<and> h < 24" "d < a div day_ns \<or> ceil_day b < d" "t \<in> set (settlements_on hours d)"
  shows "\<not> (a \<le> t \<and> t < b)"
proof (cases "d < a div day_ns")
  case True
  then have "(d + 1) * day_ns \<le> a div day_ns * day_ns" using day_ns_pos(1) by (intro mult_right_mono) simp_all
  also have "\<dots> \<le> a" using day_ns_pos(1) by (metis mult.commute pos_mod_sign mult_div_mod_eq add_increasing2 order_refl less_imp_le)
  finally show ?thesis using settlement_day(2) [OF assms(1,3)] by simp
next
  case False
  then have "ceil_day b * day_ns \<le> d * day_ns" using assms(2) day_ns_pos(1) by (intro mult_right_mono) simp_all
  moreover have "(- b) div day_ns * day_ns \<le> - b"
    using div_mult_mod_eq [of "- b" day_ns] pos_mod_sign [OF day_ns_pos(1), of "- b"] by linarith
  then have "b \<le> ceil_day b * day_ns" by (simp add: ceil_day_def)
  ultimately show ?thesis using settlement_day(1) [OF assms(1,3)] by simp
qed

text \<open>The number of settlements counted over any wider range of days.\<close>

definition settlement_count :: "int list \<Rightarrow> int \<Rightarrow> int \<Rightarrow> int \<Rightarrow> int \<Rightarrow> nat" where
  "settlement_count hours lo hi a b =
     length (filter (\<lambda>t. a \<le> t \<and> t < b) (concat (map (settlements_on hours) [lo..hi])))"

lemma count_outside:
  assumes "\<forall>h \<in> set hours. 0 \<le> h \<and> h < 24" "\<forall>d \<in> set ds. d < a div day_ns \<or> ceil_day b < d"
  shows "filter (\<lambda>t. a \<le> t \<and> t < b) (concat (map (settlements_on hours) ds)) = []"
  unfolding filter_empty_conv
proof
  fix t
  assume "t \<in> set (concat (map (settlements_on hours) ds))"
  then obtain d where "d \<in> set ds" "t \<in> set (settlements_on hours d)" by auto
  then show "\<not> (a \<le> t \<and> t < b)" using settlements_outside [OF assms(1)] assms(2) by blast
qed

lemma day_order: "a \<le> b \<Longrightarrow> a div day_ns \<le> ceil_day b"
proof -
  assume "a \<le> b"
  then have "a div day_ns \<le> b div day_ns" using day_ns_pos(1) by (intro zdiv_mono1)
  also have "\<dots> \<le> ceil_day b"
    using day_ns_pos(1) zdiv_zminus1_eq_if [of day_ns b] by (auto simp: ceil_day_def split: if_splits)
  finally show ?thesis .
qed

lemma funding_count:
  assumes "\<forall>h \<in> set (fa_hours f). 0 \<le> h \<and> h < 24" "a \<le> b" "lo \<le> a div day_ns" "ceil_day b \<le> hi"
  shows "length (funding_timestamps a b f) = settlement_count (fa_hours f) lo hi a b"
proof -
  let ?F = "\<lambda>ds. filter (\<lambda>t. a \<le> t \<and> t < b) (concat (map (settlements_on (fa_hours f)) ds))"
  have "[lo..hi] = [lo..a div day_ns - 1] @ [a div day_ns..ceil_day b] @ [ceil_day b + 1..hi]"
    using assms(3,4) day_order [OF assms(2)] upto_split1 [of lo "a div day_ns" hi]
      upto_split2 [of "a div day_ns" "ceil_day b" hi] by simp
  moreover have "?F [lo..a div day_ns - 1] = []" "?F [ceil_day b + 1..hi] = []"
    using assms(1) by (intro count_outside; auto)+
  ultimately have "?F [lo..hi] = ?F [a div day_ns..ceil_day b]" by simp
  moreover have "length (filter P (sort xs)) = length (filter P xs)" for P and xs :: "int list"
    using filter_sort [of P "\<lambda>x. x" xs] by simp
  ultimately show ?thesis by (simp add: settlement_count_def funding_timestamps_def)
qed

lemma count_split:
  assumes "a \<le> m" "m \<le> (b :: int)"
  shows "length (filter (\<lambda>t. a \<le> t \<and> t < b) xs) =
    length (filter (\<lambda>t. a \<le> t \<and> t < m) xs) + length (filter (\<lambda>t. m \<le> t \<and> t < b) xs)"
  using assms by (induction xs) auto

lemma funding_additive:
  assumes "\<forall>h \<in> set (fa_hours f). 0 \<le> h \<and> h < 24" "a \<le> m" "m \<le> b"
  shows "length (funding_timestamps a b f) = length (funding_timestamps a m f) + length (funding_timestamps m b f)"
proof -
  let ?lo = "a div day_ns" and ?hi = "ceil_day b"
  have "a div day_ns \<le> m div day_ns" using assms(2) day_ns_pos(1) by (intro zdiv_mono1)
  moreover have "ceil_day m \<le> ceil_day b"
    using assms(3) day_ns_pos(1) zdiv_mono1 [of "- b" "- m" day_ns] by (simp add: ceil_day_def)
  ultimately show ?thesis
    using funding_count [OF assms(1), of a b ?lo ?hi] funding_count [OF assms(1), of a m ?lo ?hi]
      funding_count [OF assms(1), of m b ?lo ?hi] assms(2,3) count_split [OF assms(2,3)]
    by (simp add: settlement_count_def)
qed

text \<open>
  Funding is charged exactly once: for settlement hours of the day, holding a position through an
  instant costs what holding it up to and from that instant costs together, so no settlement is lost
  or charged to both of two consecutive positions.
\<close>

theorem funding_never_double_charged:
  assumes "\<forall>h \<in> set (fa_hours f). 0 \<le> h \<and> h < 24" "a \<le> m" "m \<le> b"
  shows "estimate_funding_cost [\<lparr>fp_opened = a, fp_closed = b, fp_open_price = p, fp_quantity = q\<rparr>] (Some f) =
    estimate_funding_cost [\<lparr>fp_opened = a, fp_closed = m, fp_open_price = p, fp_quantity = q\<rparr>,
      \<lparr>fp_opened = m, fp_closed = b, fp_open_price = p, fp_quantity = q\<rparr>] (Some f)"
  using funding_additive [OF assms] by (simp add: estimate_funding_cost_def algebra_simps)

lemma funding_never_double_charged_witness:
  "estimate_funding_cost [\<lparr>fp_opened = 0, fp_closed = day_ns, fp_open_price = 10, fp_quantity = 2\<rparr>] (Some default_funding) =
   estimate_funding_cost [\<lparr>fp_opened = 0, fp_closed = 8 * hour_ns, fp_open_price = 10, fp_quantity = 2\<rparr>,
     \<lparr>fp_opened = 8 * hour_ns, fp_closed = day_ns, fp_open_price = 10, fp_quantity = 2\<rparr>] (Some default_funding)"
  by (rule funding_never_double_charged) (simp_all add: default_funding_def day_ns_def hour_ns_def)

lemma exposure_is_time_share_witness:
  "exposure_fraction
     [\<lparr>td_entry_time = 0, td_exit_time = 10, td_quantity = 1, td_entry_price = 1, td_exit_price = 2, td_fees = 0,
       td_funding = 0, td_marked = False\<rparr>] 0 20 \<le> 1"
  using exposure_is_time_share [of 0 20 "[\<lparr>td_entry_time = 0, td_exit_time = 10, td_quantity = 1, td_entry_price = 1,
    td_exit_price = 2, td_fees = 0, td_funding = 0, td_marked = False\<rparr>]"] by simp

end
