(* ===== verification/Walk_Forward.thy ===== *)
theory Walk_Forward
  imports Backtest_Trades
begin

text \<open>
  Model of \<open>src/backtesting/walk_forward.py\<close>: the sliding TRAIN/VALIDATION/TEST windows, the choice
  of parameters on VALIDATION and the assembly of the TEST results, and of \<open>_fold_returns\<close> of
  \<open>src/research/orchestrator.py\<close>. One run of the backtest engine over an interval is an argument:
  a function of the parameters and the interval that may raise. Instants are integers, money and
  returns exact rationals; an equity of zero, by which Python would divide, is left out.
\<close>

section \<open>Windows\<close>

record wf_window =
  ww_train_start :: int
  ww_train_end :: int
  ww_validation_start :: int
  ww_validation_end :: int
  ww_test_start :: int
  ww_test_end :: int

definition window_at :: "int \<Rightarrow> int \<Rightarrow> int \<Rightarrow> int \<Rightarrow> wf_window" where
  "window_at train_start train validation test =
     \<lparr>ww_train_start = train_start, ww_train_end = train_start + train, ww_validation_start = train_start + train,
      ww_validation_end = train_start + train + validation, ww_test_start = train_start + train + validation,
      ww_test_end = train_start + train + validation + test\<rparr>"

text \<open>The loop; the caller has checked that the test period is positive.\<close>

function windows_from :: "int \<Rightarrow> int \<Rightarrow> int \<Rightarrow> int \<Rightarrow> int \<Rightarrow> wf_window list" where
  "windows_from train_start stop train validation test =
     (if test \<le> 0 \<or> stop < train_start + train + validation + test then []
      else window_at train_start train validation test # windows_from (train_start + test) stop train validation test)"
  by pat_completeness auto

termination
  by (relation "measure (\<lambda>(t, stop, tr, va, te). nat (stop - t - tr - va))") auto

declare windows_from.simps [simp del]

definition generate_windows :: "int \<Rightarrow> int \<Rightarrow> int \<Rightarrow> int \<Rightarrow> int \<Rightarrow> wf_window list result" where
  "generate_windows start stop train validation test =
     (if train \<le> 0 \<or> validation \<le> 0 \<or> test \<le> 0
      then Inl (ValueError ''train/validation/test periods must all be positive'')
      else Inr (windows_from start stop train validation test))"

section \<open>Runs\<close>

record backtest_result =
  bt_trades :: "trade list"
  bt_equity :: "(int \<times> rat) list"
  bt_score :: "num option"
  bt_funding :: bool
  bt_marked :: bool

text \<open>
  One run over an interval. \<open>bt_score\<close> is the value of the selection metric in the run's metrics,
  \<open>None\<close> when they have no such attribute.
\<close>

type_synonym 'v backtest = "'v \<Rightarrow> int \<Rightarrow> int \<Rightarrow> backtest_result result"

fun best_params :: "'v backtest \<Rightarrow> wf_window \<Rightarrow> 'v option \<Rightarrow> num \<Rightarrow> 'v list \<Rightarrow> 'v option result" where
  "best_params run w best score [] = Inr best"
| "best_params run w best score (v # vs) =
     bindE (run v (ww_validation_start w) (ww_validation_end w)) (\<lambda>r.
       (case bt_score r of
          None \<Rightarrow> best_params run w best score vs
        | Some s \<Rightarrow>
            if s \<noteq> NaN \<and> num_lt score s then best_params run w (Some v) s vs
            else best_params run w best score vs))"

text \<open>\<open>no_params\<close> is the empty dictionary, the parameters of a run without a grid.\<close>

definition select_params :: "'v \<Rightarrow> 'v backtest \<Rightarrow> wf_window \<Rightarrow> 'v list \<Rightarrow> 'v result" where
  "select_params no_params run w grid =
     (if grid = [] then Inr no_params
      else bindE (best_params run w None NInf grid) (\<lambda>best.
        Inr (case best of None \<Rightarrow> hd grid | Some v \<Rightarrow> v)))"

fun pct_changes :: "(int \<times> rat) list \<Rightarrow> (int \<times> rat) list" where
  "pct_changes ((t, a) # (u, b) # rest) = (u, b / a - 1) # pct_changes ((u, b) # rest)"
| "pct_changes _ = []"

fun compound :: "rat \<Rightarrow> (int \<times> rat) list \<Rightarrow> (int \<times> rat) list" where
  "compound balance [] = []"
| "compound balance ((t, r) # rs) = (t, balance * (1 + r)) # compound (balance * (1 + r)) rs"

definition stitch_equity_curves :: "(int \<times> rat) list list \<Rightarrow> rat \<Rightarrow> (int \<times> rat) list" where
  "stitch_equity_curves segments balance =
     (let non_empty = filter (\<lambda>s. s \<noteq> []) segments in
      if non_empty = [] then []
      else
        (let first_ts = fst (hd (hd non_empty)); returns = concat (map pct_changes non_empty) in
         (first_ts, balance) # compound balance returns))"

record 'v wf_result =
  wr_windows :: "wf_window list"
  wr_selected :: "'v list"
  wr_trades :: "trade list"
  wr_equity :: "(int \<times> rat) list"
  wr_metrics :: trade_metrics
  wr_exposure :: rat
  wr_funding :: bool
  wr_marked :: bool

definition run_window :: "'v \<Rightarrow> 'v backtest \<Rightarrow> 'v list \<Rightarrow> wf_window \<Rightarrow> ('v \<times> backtest_result) result" where
  "run_window no_params run grid w =
     bindE (select_params no_params run w grid) (\<lambda>v.
     bindE (run v (ww_test_start w) (ww_test_end w)) (\<lambda>r. Inr (v, r)))"

definition run_walk_forward :: "'v \<Rightarrow> 'v backtest \<Rightarrow> 'v list \<Rightarrow> wf_window list \<Rightarrow> rat \<Rightarrow> 'v wf_result result" where
  "run_walk_forward no_params run grid windows balance =
     (if windows = [] then Inl (ValueError ''no walk-forward windows to run'')
      else bindE (mapE (run_window no_params run grid) windows) (\<lambda>rs.
        (let trades = concat (map (\<lambda>r. bt_trades (snd r)) rs) in
         Inr \<lparr>wr_windows = windows, wr_selected = map fst rs, wr_trades = trades,
              wr_equity = stitch_equity_curves (map (\<lambda>r. bt_equity (snd r)) rs) balance,
              wr_metrics = compute_trade_metrics trades,
              wr_exposure = exposure_fraction trades (ww_test_start (hd windows)) (ww_test_end (last windows)),
              wr_funding = list_all (\<lambda>r. bt_funding (snd r)) rs, wr_marked = list_all (\<lambda>r. bt_marked (snd r)) rs\<rparr>)))"

text \<open>\<open>_fold_returns\<close> of the orchestrator.\<close>

definition in_fold :: "wf_window \<Rightarrow> trade \<Rightarrow> bool" where
  "in_fold w t \<longleftrightarrow> ww_test_start w \<le> td_exit_time t \<and> td_exit_time t < ww_test_end w"

definition fold_returns :: "trade list \<Rightarrow> wf_window list \<Rightarrow> rat \<Rightarrow> rat list" where
  "fold_returns ts windows balance =
     (if ts = [] then map (\<lambda>_. 0) windows
      else map (\<lambda>w. sum_list (map net_pnl (filter (in_fold w) ts)) / balance) windows)"

section \<open>The shape of the windows\<close>

lemma windows_from_form:
  "0 < test \<Longrightarrow> \<exists>n. windows_from start stop train validation test =
     map (\<lambda>k. window_at (start + int k * test) train validation test) [0..<n] \<and>
     (\<forall>k < n. start + int k * test + train + validation + test \<le> stop) \<and>
     stop < start + int n * test + train + validation + test"
proof (induction start stop train validation test rule: windows_from.induct)
  case (1 start stop train validation test)
  show ?case
  proof (cases "stop < start + train + validation + test")
    case True
    then show ?thesis by (intro exI [of _ 0]) (simp add: windows_from.simps)
  next
    case False
    with 1 obtain n where n: "windows_from (start + test) stop train validation test =
        map (\<lambda>k. window_at (start + test + int k * test) train validation test) [0..<n]"
      "\<forall>k < n. start + test + int k * test + train + validation + test \<le> stop"
      "stop < start + test + int n * test + train + validation + test" by auto
    have "map (\<lambda>k. window_at (start + int k * test) train validation test) [0..<Suc n] =
        window_at start train validation test #
        map (\<lambda>k. window_at (start + test + int k * test) train validation test) [0..<n]"
      unfolding map_upt_Suc by (simp add: algebra_simps)
    moreover have "windows_from start stop train validation test =
        window_at start train validation test # windows_from (start + test) stop train validation test"
      using False "1.prems" by (simp add: windows_from.simps [of start])
    moreover have "\<forall>k < Suc n. start + int k * test + train + validation + test \<le> stop"
    proof (intro allI impI)
      fix k
      assume "k < Suc n"
      then show "start + int k * test + train + validation + test \<le> stop"
        using n(2) False by (cases k) (auto simp: algebra_simps)
    qed
    ultimately show ?thesis using n(1,3) by (intro exI [of _ "Suc n"]) (simp add: algebra_simps)
  qed
qed

lemma generated_form:
  assumes "generate_windows start stop train validation test = Inr ws"
  obtains n where "0 < train" "0 < validation" "0 < test"
    "ws = map (\<lambda>k. window_at (start + int k * test) train validation test) [0..<n]"
    "\<forall>k < n. start + int k * test + train + validation + test \<le> stop"
    "stop < start + int n * test + train + validation + test"
proof -
  have "0 < train" "0 < validation" "0 < test" "ws = windows_from start stop train validation test"
    using assms by (auto simp: generate_windows_def split: if_splits)
  with windows_from_form [of test start stop train validation] that show thesis by blast
qed

lemma generated_nth:
  assumes "generate_windows start stop train validation test = Inr ws" "k < length ws"
  shows "ws ! k = window_at (start + int k * test) train validation test"
    "start + int k * test + train + validation + test \<le> stop" "0 < train" "0 < validation" "0 < test"
  by (rule generated_form [OF assms(1)]; use assms(2) in simp)+

text \<open>
  The windows slide without a gap or an overlap: each trains before it validates before it tests,
  each TEST period begins where the one before ended, all lie within the range, and they are as many as
  fit: the whole number of test periods in what train and validation leave.
\<close>

theorem windows_tile:
  assumes "generate_windows start stop train validation test = Inr ws" "k < length ws"
  shows "start \<le> ww_train_start (ws ! k) \<and> ww_train_start (ws ! k) < ww_train_end (ws ! k) \<and>
    ww_validation_start (ws ! k) = ww_train_end (ws ! k) \<and> ww_validation_start (ws ! k) < ww_validation_end (ws ! k) \<and>
    ww_test_start (ws ! k) = ww_validation_end (ws ! k) \<and> ww_test_start (ws ! k) < ww_test_end (ws ! k) \<and>
    ww_test_end (ws ! k) \<le> stop \<and>
    (Suc k < length ws \<longrightarrow> ww_test_start (ws ! Suc k) = ww_test_end (ws ! k)) \<and>
    int (length ws) = (stop - start - train - validation) div test"
proof -
  note w = generated_nth [OF assms]
  have next_window: "Suc k < length ws \<longrightarrow> ww_test_start (ws ! Suc k) = ww_test_end (ws ! k)"
    using generated_nth(1) [OF assms(1), of "Suc k"] w(1) by (simp add: window_at_def algebra_simps)
  obtain n where n: "ws = map (\<lambda>k. window_at (start + int k * test) train validation test) [0..<n]"
      "\<forall>k < n. start + int k * test + train + validation + test \<le> stop"
      "stop < start + int n * test + train + validation + test"
    by (rule generated_form [OF assms(1)])
  obtain m where m: "n = Suc m" using assms(2) n(1) by (cases n) simp_all
  then have lo: "int n * test \<le> stop - start - train - validation"
    using n(2) [rule_format, of m] by (simp add: algebra_simps)
  have "(stop - start - train - validation) div test = int n"
    using lo n(3) w(5) by (intro int_div_pos_eq [of _ _ _ "stop - start - train - validation - int n * test"]) (simp_all add: algebra_simps)
  then show ?thesis using w next_window n(1) by (simp add: window_at_def)
qed

section \<open>Choosing parameters\<close>

lemma best_params_cong:
  "(\<And>v. run v (ww_validation_start w) (ww_validation_end w) = run' v (ww_validation_start w) (ww_validation_end w)) \<Longrightarrow>
   best_params run w b s vs = best_params run' w b s vs"
proof (induction vs arbitrary: b s)
  case (Cons v vs)
  then show ?case by (auto simp: bindE_def split: sum.splits option.splits)
qed simp

text \<open>
  C23. No look-ahead: two engines that agree on every interval that ends by an instant choose the same
  parameters for every window whose TEST period starts by then, and give the same TEST run for every
  window whose TEST period ends by then, whatever they do later.
\<close>

theorem walk_forward_no_look_ahead:
  assumes "generate_windows start stop train validation test = Inr ws" "k < length ws"
    "\<And>v a b. b \<le> t \<Longrightarrow> run v a b = run' v a b"
  shows "(ww_test_start (ws ! k) \<le> t \<longrightarrow>
      select_params no_params run (ws ! k) grid = select_params no_params run' (ws ! k) grid) \<and>
    (ww_test_end (ws ! k) \<le> t \<longrightarrow>
      run_window no_params run grid (ws ! k) = run_window no_params run' grid (ws ! k))"
proof -
  note w = generated_nth [OF assms(1,2)]
  have sel: "select_params no_params run (ws ! k) grid = select_params no_params run' (ws ! k) grid"
    if "ww_test_start (ws ! k) \<le> t"
  proof -
    have "run v (ww_validation_start (ws ! k)) (ww_validation_end (ws ! k)) =
        run' v (ww_validation_start (ws ! k)) (ww_validation_end (ws ! k))" for v
      using that w(1) by (intro assms(3)) (simp add: window_at_def)
    from best_params_cong [of run "ws ! k" run', OF this] show ?thesis by (simp add: select_params_def)
  qed
  moreover have "run_window no_params run grid (ws ! k) = run_window no_params run' grid (ws ! k)"
    if "ww_test_end (ws ! k) \<le> t"
  proof -
    have "ww_test_start (ws ! k) \<le> t" using that w by (simp add: window_at_def)
    from sel [OF this] assms(3) [OF that] show ?thesis by (simp add: run_window_def)
  qed
  ultimately show ?thesis by blast
qed

text \<open>A run on VALIDATION whose score counts.\<close>

definition scored :: "'v backtest \<Rightarrow> wf_window \<Rightarrow> 'v \<Rightarrow> num \<Rightarrow> bool" where
  "scored run w v x \<longleftrightarrow>
     (\<exists>r. run v (ww_validation_start w) (ww_validation_end w) = Inr r \<and> bt_score r = Some x \<and> num_lt NInf x)"

lemma num_order: "num_lt a b \<Longrightarrow> num_le a b" "num_le a b \<Longrightarrow> num_le b c \<Longrightarrow> num_le a c" "a \<noteq> NaN \<Longrightarrow> num_le a a"
  "a \<noteq> NaN \<Longrightarrow> b \<noteq> NaN \<Longrightarrow> \<not> num_lt a b \<Longrightarrow> num_le b a" "num_le a b \<Longrightarrow> num_lt b c \<Longrightarrow> num_lt a c"
  by (cases a; cases b; cases c; auto)+

lemma best_params_max:
  "best_params run w best score vs = Inr c \<Longrightarrow>
   (case best of None \<Rightarrow> score = NInf | Some v \<Rightarrow> scored run w v score) \<Longrightarrow>
   \<exists>m. (case c of None \<Rightarrow> m = NInf | Some v \<Rightarrow> scored run w v m \<and> (v \<in> set vs \<or> best = Some v)) \<and>
     num_le score m \<and> (\<forall>u \<in> set vs. \<forall>x. scored run w u x \<longrightarrow> num_le x m)"
proof (induction vs arbitrary: best score)
  case Nil
  then have "num_le score score" by (cases score) (auto simp: scored_def split: option.splits)
  moreover have "c = best" using Nil(1) by simp
  ultimately show ?case using Nil(2) by (intro exI [of _ score]) (auto split: option.splits)
next
  case (Cons v vs)
  obtain r where r: "run v (ww_validation_start w) (ww_validation_end w) = Inr r" using Cons.prems(1) by (auto simp: bindE_eq_Inr)
  have nan: "score \<noteq> NaN" using Cons.prems(2) by (auto simp: scored_def split: option.splits)
  show ?case
  proof (cases "\<exists>s. bt_score r = Some s \<and> s \<noteq> NaN \<and> num_lt score s")
    case True
    then obtain s where s: "bt_score r = Some s" "s \<noteq> NaN" "num_lt score s" by blast
    then have "num_lt NInf s" by (cases score; cases s) auto
    then have sc: "scored run w v s" using r s by (simp add: scored_def)
    have "best_params run w (Some v) s vs = Inr c" using Cons.prems(1) r s by simp
    from Cons.IH [OF this] sc obtain m where
      m: "case c of None \<Rightarrow> m = NInf | Some u \<Rightarrow> scored run w u m \<and> (u \<in> set vs \<or> Some v = Some u)" "num_le s m"
        "\<forall>u \<in> set vs. \<forall>x. scored run w u x \<longrightarrow> num_le x m" by auto
    have "num_le score m" using s(3) m(2) num_order(1,2) by blast
    moreover have "num_le x m" if "scored run w v x" for x using that r s(1) m(2) by (auto simp: scored_def)
    ultimately show ?thesis using m by (intro exI [of _ m]) (auto split: option.splits)
  next
    case False
    then have "best_params run w best score vs = Inr c" using Cons.prems(1) r by (auto split: option.splits)
    from Cons.IH [OF this Cons.prems(2)] obtain m where
      m: "case c of None \<Rightarrow> m = NInf | Some u \<Rightarrow> scored run w u m \<and> (u \<in> set vs \<or> best = Some u)" "num_le score m"
        "\<forall>u \<in> set vs. \<forall>x. scored run w u x \<longrightarrow> num_le x m" by auto
    have "num_le x m" if "scored run w v x" for x
    proof -
      have "bt_score r = Some x" "x \<noteq> NaN" using that r by (auto simp: scored_def)
      then have "num_le x score" using False nan num_order(4) by blast
      then show ?thesis using m(2) num_order(2) by blast
    qed
    then show ?thesis using m by (intro exI [of _ m]) (auto split: option.splits)
  qed
qed

text \<open>
  The parameters of a window are from the grid and no other entry did better on VALIDATION: every
  entry whose run has a score above minus infinity scores at most what the chosen one scores.
\<close>

theorem selection_is_best:
  assumes "select_params no_params run w grid = Inr v" "grid \<noteq> []"
  shows "v \<in> set grid \<and> (\<forall>u \<in> set grid. \<forall>x. scored run w u x \<longrightarrow> (\<exists>m. scored run w v m \<and> num_le x m))"
proof -
  obtain c where c: "best_params run w None NInf grid = Inr c" "v = (case c of None \<Rightarrow> hd grid | Some v \<Rightarrow> v)"
    using assms by (auto simp: select_params_def bindE_eq_Inr)
  from best_params_max [OF c(1)] obtain m where
    m: "case c of None \<Rightarrow> m = NInf | Some v \<Rightarrow> scored run w v m \<and> (v \<in> set grid \<or> None = Some v)"
      "\<forall>u \<in> set grid. \<forall>x. scored run w u x \<longrightarrow> num_le x m" by fastforce
  show ?thesis
  proof (cases c)
    case None
    have "\<not> scored run w u x" if "u \<in> set grid" for u x
    proof
      assume "scored run w u x"
      then have "num_le x NInf" "num_lt NInf x" using m that None by (auto simp: scored_def)
      then show False by (cases x) auto
    qed
    then show ?thesis using None c(2) assms(2) by simp
  next
    case (Some u)
    with m c(2) show ?thesis by auto
  qed
qed

section \<open>Folds\<close>

text \<open>
  A position that is still open at the end of a window's TEST period is marked at that instant,
  and the half-open folds give the trade to the following window: it is in fold \<open>j\<close> exactly for
  \<open>j = k + 1\<close>, and the trade marked at the end of the last window is in no fold.
\<close>

theorem marked_trade_in_next_fold:
  assumes "generate_windows start stop train validation test = Inr ws" "k < length ws" "j < length ws"
    "t \<in> set (positions_report_to_trades ps (Some (ww_test_end (ws ! k))) (Some mark) fa)" "td_marked t"
  shows "in_fold (ws ! j) t \<longleftrightarrow> j = Suc k"
proof -
  have "td_exit_time t = ww_test_end (ws ! k)"
    using assms(4,5)
    by (auto simp: positions_report_to_trades_def Let_def map_filter_def funded_def marked_trade_def closed_trade_def
        split: option.splits)
  then have t: "td_exit_time t = start + int k * test + train + validation + test"
    using generated_nth(1) [OF assms(1,2)] by (simp add: window_at_def)
  have "in_fold (ws ! j) t \<longleftrightarrow> int j * test \<le> (int k + 1) * test \<and> (int k + 1) * test < (int j + 1) * test"
    using generated_nth(1) [OF assms(1,3)] t by (auto simp: in_fold_def window_at_def algebra_simps)
  also have "\<dots> \<longleftrightarrow> j = Suc k"
    using generated_nth(5) [OF assms(1,2)] by (auto simp: mult_le_cancel_right mult_less_cancel_right)
  finally show ?thesis .
qed

text \<open>What the folds add up to: the trades that exit within the TEST periods, their last instant excluded.\<close>

lemma pnl_split:
  assumes "a \<le> b" "b \<le> (c :: int)"
  shows "sum_list (map net_pnl (filter (\<lambda>t. a \<le> td_exit_time t \<and> td_exit_time t < b) ts)) +
    sum_list (map net_pnl (filter (\<lambda>t. b \<le> td_exit_time t \<and> td_exit_time t < c) ts)) =
    sum_list (map net_pnl (filter (\<lambda>t. a \<le> td_exit_time t \<and> td_exit_time t < c) ts))"
  using assms by (induction ts) auto

lemma pnl_tiles:
  assumes "0 < test"
  shows "(\<Sum>k \<leftarrow> [0..<n]. sum_list (map net_pnl (filter (\<lambda>t. a + int k * test \<le> td_exit_time t \<and>
      td_exit_time t < a + int k * test + test) ts))) =
    sum_list (map net_pnl (filter (\<lambda>t. a \<le> td_exit_time t \<and> td_exit_time t < a + int n * test) ts))"
proof (induction n)
  case 0
  have "filter (\<lambda>t. a \<le> td_exit_time t \<and> td_exit_time t < a) ts = []" by (auto simp: filter_empty_conv)
  then show ?case by simp
next
  case (Suc n)
  have "a \<le> a + int n * test" "a + int n * test \<le> a + int n * test + test" using assms by simp_all
  from pnl_split [OF this, of ts] Suc show ?case by (simp add: algebra_simps)
qed

lemma sum_list_divide: "sum_list (map (\<lambda>x. f x / (b :: rat)) xs) = sum_list (map f xs) / b"
  by (induction xs) (simp_all add: add_divide_distrib)

lemma fold_sum:
  assumes "generate_windows start stop train validation test = Inr ws" "ts \<noteq> []"
  shows "sum_list (fold_returns ts ws balance) =
    sum_list (map net_pnl (filter (\<lambda>t. start + train + validation \<le> td_exit_time t \<and>
      td_exit_time t < start + train + validation + int (length ws) * test) ts)) / balance"
proof -
  obtain n where n: "0 < test" "ws = map (\<lambda>k. window_at (start + int k * test) train validation test) [0..<n]"
    by (rule generated_form [OF assms(1)])
  let ?a = "start + train + validation"
  have "in_fold (window_at (start + int k * test) train validation test) =
      (\<lambda>t. ?a + int k * test \<le> td_exit_time t \<and> td_exit_time t < ?a + int k * test + test)" for k
    by (simp add: fun_eq_iff in_fold_def window_at_def algebra_simps)
  then have "fold_returns ts ws balance = map (\<lambda>k. sum_list (map net_pnl (filter (\<lambda>t. ?a + int k * test \<le> td_exit_time t \<and>
      td_exit_time t < ?a + int k * test + test) ts)) / balance) [0..<n]"
    using assms(2) by (simp add: fold_returns_def n(2) comp_def)
  then show ?thesis using pnl_tiles [OF n(1), of ?a ts n] n(2) by (simp only: sum_list_divide) simp
qed

text \<open>
  What the folds lose: the fold returns of a run add up to its aggregate return less the result of
  the trades that exit at the very end of the last TEST period, where positions still open are marked.
\<close>

theorem fold_returns_sum:
  assumes "generate_windows start stop train validation test = Inr ws" "ts \<noteq> []" "last_end = ww_test_end (last ws)"
    "ws \<noteq> []" "\<forall>t \<in> set ts. ww_test_start (hd ws) \<le> td_exit_time t \<and> td_exit_time t \<le> last_end"
  shows "sum_list (fold_returns ts ws balance) =
    (tm_net_return (compute_trade_metrics ts) -
      sum_list (map net_pnl (filter (\<lambda>t. td_exit_time t = last_end) ts))) / balance"
proof -
  have hd: "ww_test_start (hd ws) = start + train + validation"
    using generated_nth(1) [OF assms(1), of 0] assms(4) by (simp add: hd_conv_nth window_at_def)
  have last: "last_end = start + train + validation + int (length ws) * test"
    using generated_nth(1) [OF assms(1), of "length ws - 1"] assms(3,4)
    by (cases "length ws") (simp_all add: last_conv_nth window_at_def algebra_simps)
  have "sum_list (map net_pnl (filter (\<lambda>t. td_exit_time t < last_end) xs)) +
      sum_list (map net_pnl (filter (\<lambda>t. td_exit_time t = last_end) xs)) = sum_list (map net_pnl xs)"
    if "\<forall>t \<in> set xs. td_exit_time t \<le> last_end" for xs
    using that by (induction xs) auto
  then have "sum_list (map net_pnl ts) - sum_list (map net_pnl (filter (\<lambda>t. td_exit_time t = last_end) ts)) =
      sum_list (map net_pnl (filter (\<lambda>t. td_exit_time t < last_end) ts))"
    using assms(5) by (metis add_diff_cancel_right')
  moreover have "filter (\<lambda>t. ww_test_start (hd ws) \<le> td_exit_time t \<and> td_exit_time t < last_end) ts =
      filter (\<lambda>t. td_exit_time t < last_end) ts"
    using assms(5) by (auto intro: filter_cong)
  ultimately show ?thesis
    using fold_sum [OF assms(1,2), of balance] assms(2)
    unfolding hd last by (simp add: compute_trade_metrics_def Let_def)
qed

section \<open>Witnesses\<close>

lemma demo_windows: "generate_windows 0 40 10 5 10 = Inr [window_at 0 10 5 10, window_at 10 10 5 10]"
  by (simp add: generate_windows_def windows_from.simps)

lemma windows_tile_witness: "ww_test_start (window_at 10 10 5 10) = ww_test_end (window_at 0 10 5 10)"
  using windows_tile [OF demo_windows, of 0] by simp

definition demo_result :: "int \<Rightarrow> backtest_result" where
  "demo_result s = \<lparr>bt_trades = [], bt_equity = [], bt_score = Some (Fin (of_int s)), bt_funding = True, bt_marked = True\<rparr>"

lemma walk_forward_no_look_ahead_witness:
  "run_window 0 (\<lambda>v a b. Inr (demo_result v)) [1, 2] (window_at 0 10 5 10) =
   run_window 0 (\<lambda>v a b. if b \<le> 25 then Inr (demo_result v) else Inl (ValueError [])) [1, 2] (window_at 0 10 5 10)"
  using walk_forward_no_look_ahead [OF demo_windows, of 0 25 "\<lambda>v a b. Inr (demo_result v)"
      "\<lambda>v a b. if b \<le> 25 then Inr (demo_result v) else Inl (ValueError [])" 0 "[1, 2]"]
  by (simp add: window_at_def)

lemma selection_is_best_witness:
  "select_params 0 (\<lambda>v a b. Inr (demo_result v)) (window_at 0 10 5 10) [1, 3, 2] = Inr 3 \<and>
   (\<exists>m. scored (\<lambda>v a b. Inr (demo_result v)) (window_at 0 10 5 10) 3 m \<and> num_le (Fin 2) m)"
proof -
  have s: "select_params 0 (\<lambda>v a b. Inr (demo_result v)) (window_at 0 10 5 10) [1, 3, 2] = Inr 3"
    by (simp add: select_params_def demo_result_def)
  have "scored (\<lambda>v a b. Inr (demo_result v)) (window_at 0 10 5 10) 2 (Fin 2)"
    by (simp add: scored_def demo_result_def)
  with selection_is_best [OF s] s show ?thesis by auto
qed

definition demo_open_row :: position_row where
  "demo_open_row =
     \<lparr>pr_opened = 16, pr_closed = None, pr_entry = EnterBuy, pr_peak_quantity = 1, pr_average_open = 100,
      pr_average_close = 0, pr_commissions = []\<rparr>"

lemma demo_marked:
  "positions_report_to_trades [demo_open_row] (Some 35) (Some 110) None = [marked_trade demo_open_row 35 110]"
  by (simp add: positions_report_to_trades_def demo_open_row_def map_filter_simps funded_def marked_trade_def)

lemma marked_trade_in_next_fold_witness:
  "\<not> in_fold (window_at 0 10 5 10) (marked_trade demo_open_row 35 110) \<and>
   \<not> in_fold (window_at 10 10 5 10) (marked_trade demo_open_row 35 110)"
proof -
  have "marked_trade demo_open_row 35 110 \<in>
      set (positions_report_to_trades [demo_open_row] (Some (ww_test_end ([window_at 0 10 5 10, window_at 10 10 5 10] ! 1))) (Some 110) None)"
    by (simp add: window_at_def demo_marked)
  from marked_trade_in_next_fold [OF demo_windows _ _ this, of 0] marked_trade_in_next_fold [OF demo_windows _ _ this, of 1]
  show ?thesis by (simp add: marked_trade_def)
qed

lemma demo_marked_pnl: "net_pnl (marked_trade demo_open_row 35 110) = 10"
  by (simp add: net_pnl_def marked_trade_def demo_open_row_def direction_def)

lemma demo_marked_exit: "td_exit_time (marked_trade demo_open_row 35 110) = 35"
  by (simp add: marked_trade_def)

lemma fold_returns_sum_witness:
  "sum_list (fold_returns [marked_trade demo_open_row 35 110] [window_at 0 10 5 10, window_at 10 10 5 10] 1000) =
   (tm_net_return (compute_trade_metrics [marked_trade demo_open_row 35 110]) - 10) / 1000"
proof -
  let ?t = "marked_trade demo_open_row 35 110" and ?ws = "[window_at 0 10 5 10, window_at 10 10 5 10]"
  have ends: "35 = ww_test_end (last ?ws)" "\<forall>t \<in> set [?t]. ww_test_start (hd ?ws) \<le> td_exit_time t \<and> td_exit_time t \<le> 35"
    by (simp_all add: window_at_def demo_marked_exit)
  have marked: "sum_list (map net_pnl (filter (\<lambda>t. td_exit_time t = 35) [?t])) = 10"
    by (simp add: demo_marked_exit demo_marked_pnl)
  have "[?t] \<noteq> []" "?ws \<noteq> []" by simp_all
  note fold_returns_sum [OF demo_windows this(1) ends(1) this(2) ends(2), of 1000]
  then show ?thesis unfolding marked .
qed

end
