(* ===== verification/Dataset_Checks.thy ===== *)
theory Dataset_Checks
  imports Py_Float
begin

text \<open>
  Model of \<open>src/data/validate.py\<close> with the timeframe table of \<open>src/data/config.py\<close>: the checks a
  dataset of candles passes before research uses it. A frame is its rows and whether its timestamp
  column carries the zone UTC; instants are nanoseconds (no \<open>NaT\<close>), prices and volumes the values of a
  float column, NaN and the infinities included, finite ones exact. Rows with equal timestamps are
  sorted stably.
\<close>

section \<open>Candles\<close>

record kline =
  kl_time :: int
  kl_open :: num
  kl_high :: num
  kl_low :: num
  kl_close :: num
  kl_volume :: num

record kline_frame =
  kf_utc :: bool
  kf_rows :: "kline list"

definition timeframe_ms :: "(string, int) dict" where
  "timeframe_ms =
     [(''1m'', 60000), (''5m'', 300000), (''15m'', 900000), (''1h'', 3600000), (''4h'', 14400000), (''1d'', 86400000)]"

text \<open>\<open>pd.Timedelta(milliseconds=TIMEFRAME_MS[timeframe])\<close>\<close>

definition candle_step :: "string \<Rightarrow> int result" where
  "candle_step timeframe =
     (case map_of timeframe_ms timeframe of None \<Rightarrow> Inl (KeyError timeframe) | Some ms \<Rightarrow> Inr (ms * 1000000))"

record validation_report =
  vr_timeframe :: string
  vr_gaps :: "(int \<times> int \<times> int) list"
  vr_duplicates :: "int list"
  vr_zero_volume :: "int list"
  vr_anomalous :: "int list"
  vr_non_utc :: bool
  vr_incomplete :: "int option"

definition report_is_valid :: "validation_report \<Rightarrow> bool" where
  "report_is_valid r \<longleftrightarrow> vr_gaps r = [] \<and> vr_duplicates r = [] \<and> \<not> vr_non_utc r \<and> vr_anomalous r = []"

section \<open>The checks\<close>

definition times :: "kline_frame \<Rightarrow> int list" where
  "times df = map kl_time (kf_rows df)"

definition check_duplicates :: "kline_frame \<Rightarrow> int list" where
  "check_duplicates df = sort (remdups (filter (\<lambda>t. 1 < count_list (times df) t) (times df)))"

text \<open>The gaps of a sorted list of instants.\<close>

fun gaps_from :: "int \<Rightarrow> int list \<Rightarrow> (int \<times> int \<times> int) list" where
  "gaps_from step (a # b # ts) =
     (if step < b - a then [(a, b, (b - a) div step - 1)] else []) @ gaps_from step (b # ts)"
| "gaps_from step _ = []"

definition check_missing_candles :: "kline_frame \<Rightarrow> string \<Rightarrow> (int \<times> int \<times> int) list result" where
  "check_missing_candles df timeframe =
     (if length (kf_rows df) < 2 then Inr []
      else bindE (candle_step timeframe) (\<lambda>step. Inr (gaps_from step (sort (times df)))))"

definition check_zero_volume :: "kline_frame \<Rightarrow> int list" where
  "check_zero_volume df = sort (map kl_time (filter (\<lambda>k. kl_volume k = Fin 0) (kf_rows df)))"

text \<open>
  \<open>pct_change().abs()\<close>: pandas 2 first carries the last known value over a missing one, so a NaN
  stays only before the first known value.
\<close>

fun padded :: "num \<Rightarrow> num list \<Rightarrow> num list" where
  "padded known [] = []"
| "padded known (x # xs) = (if x = NaN then known # padded known xs else x # padded x xs)"

definition abs_return :: "num \<Rightarrow> num \<Rightarrow> num" where
  "abs_return a b = num_abs (num_add (num_div b a) (Fin (- 1)))"

fun abs_returns :: "num list \<Rightarrow> num list" where
  "abs_returns (a # b # cs) = abs_return a b # abs_returns (b # cs)"
| "abs_returns _ = []"

definition bad_returns :: "rat \<Rightarrow> kline list \<Rightarrow> int list" where
  "bad_returns limit rows =
     map fst (filter (\<lambda>(t, r). num_lt (Fin limit) r)
       (zip (tl (map kl_time rows)) (abs_returns (padded NaN (map kl_close rows)))))"

definition non_positive :: "kline \<Rightarrow> bool" where
  "non_positive k \<longleftrightarrow> list_ex (\<lambda>x. num_le x (Fin 0)) [kl_open k, kl_high k, kl_low k, kl_close k]"

definition check_anomalous_prices :: "kline_frame \<Rightarrow> rat \<Rightarrow> int list" where
  "check_anomalous_prices df limit =
     (let rows = sort_key kl_time (kf_rows df) in
      sort (remdups (bad_returns limit rows @ map kl_time (filter (\<lambda>k. num_lt (kl_high k) (kl_low k)) rows) @
        map kl_time (filter non_positive rows))))"

definition check_incomplete_trailing_candle :: "kline_frame \<Rightarrow> string \<Rightarrow> int \<Rightarrow> int option result" where
  "check_incomplete_trailing_candle df timeframe now =
     (if kf_rows df = [] then Inr None
      else bindE (candle_step timeframe) (\<lambda>step.
        (let last_ts = Max (set (times df)) in Inr (if now < last_ts + step then Some last_ts else None))))"

definition max_abs_return :: "string \<Rightarrow> rat" where
  "max_abs_return timeframe = (if timeframe = ''1d'' then 3 / 4 else 1 / 2)"

definition validate_dataset :: "kline_frame \<Rightarrow> string \<Rightarrow> int \<Rightarrow> validation_report result" where
  "validate_dataset df timeframe now =
     bindE (check_missing_candles df timeframe) (\<lambda>gaps.
     bindE (check_incomplete_trailing_candle df timeframe now) (\<lambda>incomplete.
       Inr \<lparr>vr_timeframe = timeframe, vr_gaps = gaps, vr_duplicates = check_duplicates df,
            vr_zero_volume = check_zero_volume df,
            vr_anomalous = check_anomalous_prices df (max_abs_return timeframe),
            vr_non_utc = \<not> kf_utc df, vr_incomplete = incomplete\<rparr>))"

section \<open>What a valid report means\<close>

text \<open>
  What the checks let pass: instants that follow strictly and within a step, and closes of which
  consecutive known ones differ by at most the limit. Infinite closes pass among themselves.
\<close>

fun spaced :: "int \<Rightarrow> int list \<Rightarrow> bool" where
  "spaced step (t # u # ts) \<longleftrightarrow> t < u \<and> u - t \<le> step \<and> spaced step (u # ts)"
| "spaced step _ \<longleftrightarrow> True"

fun steady :: "rat \<Rightarrow> num list \<Rightarrow> bool" where
  "steady limit (Fin a # Fin b # cs) \<longleftrightarrow> \<bar>b / a - 1\<bar> \<le> limit \<and> steady limit (Fin b # cs)"
| "steady limit (a # b # cs) \<longleftrightarrow> a = b \<and> steady limit (b # cs)"
| "steady limit _ \<longleftrightarrow> True"

lemma no_gaps_iff: "gaps_from step ts = [] \<longleftrightarrow> (\<forall>i. Suc i < length ts \<longrightarrow> ts ! Suc i - ts ! i \<le> step)"
  by (induction step ts rule: gaps_from.induct) (auto simp: nth_Cons All_less_Suc2 split: nat.splits)

lemma no_duplicates_iff: "check_duplicates df = [] \<longleftrightarrow> distinct (times df)"
proof -
  have "distinct xs \<longleftrightarrow> (\<forall>x \<in> set xs. \<not> 1 < count_list xs x)" for xs :: "int list"
    by (induction xs) (auto simp: count_list_0_iff)
  then show ?thesis by (auto simp: check_duplicates_def filter_empty_conv simp flip: set_empty)
qed

lemma spaced_iff:
  "spaced step ts \<longleftrightarrow> (\<forall>i. Suc i < length ts \<longrightarrow> ts ! i < ts ! Suc i) \<and>
     (\<forall>i. Suc i < length ts \<longrightarrow> ts ! Suc i - ts ! i \<le> step)"
  by (induction step ts rule: spaced.induct) (auto simp: nth_Cons All_less_Suc2 split: nat.splits)

text \<open>A price the check for non-positive values does not find.\<close>

definition price_ok :: "num \<Rightarrow> bool" where
  "price_ok x \<longleftrightarrow> x = NaN \<or> num_lt (Fin 0) x"

lemma price_ok_iff: "price_ok x \<longleftrightarrow> \<not> num_le x (Fin 0)"
  by (cases x) (auto simp: price_ok_def)

lemma length_padded [simp]: "length (padded c xs) = length xs"
  by (induction xs arbitrary: c) auto

lemma length_abs_returns: "length (abs_returns xs) = length xs - 1"
  by (induction xs rule: abs_returns.induct) auto

lemma abs_return_ok:
  assumes "num_lt (Fin 0) a" "num_lt (Fin 0) b" "0 \<le> limit" "limit < 1"
  shows "\<not> num_lt (Fin limit) (abs_return a b) \<longleftrightarrow> steady limit [a, b]"
  using assms by (cases a; cases b) (auto simp: abs_return_def not_less)

lemma abs_return_same: "0 \<le> limit \<Longrightarrow> \<not> num_lt (Fin limit) (abs_return a a)"
  by (cases a) (auto simp: abs_return_def)

lemma abs_return_NaN: "abs_return NaN b = NaN"
  by (cases b) (auto simp: abs_return_def)

lemma steady_Cons: "steady limit (a # b # cs) \<longleftrightarrow> steady limit [a, b] \<and> steady limit (b # cs)"
  by (cases a; cases b) auto

text \<open>Carrying a close forward adds returns of zero; the others are those of the known closes.\<close>

lemma padded_returns:
  assumes "0 \<le> limit" "limit < 1" "num_lt (Fin 0) c" "\<forall>x \<in> set xs. price_ok x"
  shows "(\<forall>r \<in> set (abs_returns (c # padded c xs)). \<not> num_lt (Fin limit) r) \<longleftrightarrow>
    steady limit (c # filter (\<lambda>x. x \<noteq> NaN) xs)"
  using assms(3,4)
proof (induction xs arbitrary: c)
  case (Cons x xs)
  show ?case
  proof (cases "x = NaN")
    case True
    then show ?thesis using Cons abs_return_same [OF assms(1)] by simp
  next
    case False
    then have x: "num_lt (Fin 0) x" using Cons.prems(2) by (simp add: price_ok_def)
    let ?ys = "filter (\<lambda>x. x \<noteq> NaN) xs"
    have "steady limit (c # x # ?ys) \<longleftrightarrow> \<not> num_lt (Fin limit) (abs_return c x) \<and> steady limit (x # ?ys)"
      unfolding abs_return_ok [OF Cons.prems(1) x assms(1,2)] by (rule steady_Cons)
    then show ?thesis using False Cons.IH [OF x] Cons.prems(2) by simp
  qed
qed simp

lemma padded_NaN_returns:
  assumes "0 \<le> limit" "limit < 1" "\<forall>x \<in> set xs. price_ok x"
  shows "(\<forall>r \<in> set (abs_returns (padded NaN xs)). \<not> num_lt (Fin limit) r) \<longleftrightarrow>
    steady limit (filter (\<lambda>x. x \<noteq> NaN) xs)"
  using assms(3)
proof (induction xs)
  case (Cons x xs)
  show ?case
  proof (cases "x = NaN")
    case True
    then show ?thesis using Cons abs_return_NaN by (cases xs) auto
  next
    case False
    then have "num_lt (Fin 0) x" using Cons.prems by (simp add: price_ok_def)
    from padded_returns [OF assms(1,2) this] show ?thesis using False Cons.prems by simp
  qed
qed simp

lemma bad_returns_iff:
  assumes "0 \<le> limit" "limit < 1" "\<forall>k \<in> set ks. price_ok (kl_close k)"
  shows "bad_returns limit ks = [] \<longleftrightarrow> steady limit (filter (\<lambda>x. x \<noteq> NaN) (map kl_close ks))"
proof -
  let ?r = "abs_returns (padded NaN (map kl_close ks))"
  have "map snd (zip (tl (map kl_time ks)) ?r) = ?r"
    by (rule map_snd_zip) (simp add: length_abs_returns)
  then have "snd ` set (zip (tl (map kl_time ks)) ?r) = set ?r" by (metis list.set_map)
  moreover have "bad_returns limit ks = [] \<longleftrightarrow>
      (\<forall>r \<in> snd ` set (zip (tl (map kl_time ks)) ?r). \<not> num_lt (Fin limit) r)"
    by (auto simp: bad_returns_def filter_empty_conv)
  ultimately show ?thesis using padded_NaN_returns [OF assms(1,2), of "map kl_close ks"] assms(3) by simp
qed

lemma map_sort_key: "map f (sort_key f xs) = sort (map f xs)"
  by (rule sorted_sort_id [symmetric, THEN trans], rule sorted_sort_key, rule properties_for_sort) simp_all

text \<open>
  C40. The exact domain of a valid dataset. The report is valid exactly if the timestamps are UTC and, in
  order of time, strictly increasing without a step longer than the timeframe; every price is positive
  or NaN; no high is known to be below its low; and, NaN closes skipped, consecutive closes differ by at
  most the limit (or are both infinite). So a series of finite prices passes exactly if it is regular,
  and missing prices are never found.
\<close>

theorem valid_dataset_is_regular:
  assumes "validate_dataset df timeframe now = Inr r" "candle_step timeframe = Inr step"
  shows "report_is_valid r \<longleftrightarrow>
    kf_utc df \<and> spaced step (sort (times df)) \<and>
    (\<forall>k \<in> set (kf_rows df). (\<forall>x \<in> {kl_open k, kl_high k, kl_low k, kl_close k}. x = NaN \<or> num_lt (Fin 0) x) \<and>
       \<not> num_lt (kl_high k) (kl_low k)) \<and>
    steady (max_abs_return timeframe) (filter (\<lambda>x. x \<noteq> NaN) (map kl_close (sort_key kl_time (kf_rows df))))"
proof -
  let ?ks = "sort_key kl_time (kf_rows df)" and ?limit = "max_abs_return timeframe"
  have "check_missing_candles df timeframe = Inr (vr_gaps r)" and r: "vr_duplicates r = check_duplicates df"
    "vr_anomalous r = check_anomalous_prices df ?limit" "vr_non_utc r = (\<not> kf_utc df)"
    using assms(1) by (auto simp: validate_dataset_def bindE_eq_Inr)
  then have gaps: "vr_gaps r = [] \<longleftrightarrow>
      (\<forall>i. Suc i < length (sort (times df)) \<longrightarrow> sort (times df) ! Suc i - sort (times df) ! i \<le> step)"
    using assms(2) no_gaps_iff [of step "sort (times df)"]
    by (cases "length (kf_rows df) < 2") (auto simp: check_missing_candles_def times_def)
  have "distinct (times df) \<longleftrightarrow> sorted_wrt (<) (sort (times df))"
    using strict_sorted_iff [of "sort (times df)"] by simp
  also have "\<dots> \<longleftrightarrow> (\<forall>i. Suc i < length (sort (times df)) \<longrightarrow> sort (times df) ! i < sort (times df) ! Suc i)"
    by (auto simp: sorted_wrt_iff_nth_Suc_transp)
  finally have dups: "vr_duplicates r = [] \<longleftrightarrow>
      (\<forall>i. Suc i < length (sort (times df)) \<longrightarrow> sort (times df) ! i < sort (times df) ! Suc i)"
    by (simp add: r no_duplicates_iff)
  let ?fine = "\<forall>k \<in> set (kf_rows df). (\<forall>x \<in> {kl_open k, kl_high k, kl_low k, kl_close k}. price_ok x) \<and>
       \<not> num_lt (kl_high k) (kl_low k)"
  have an: "vr_anomalous r = [] \<longleftrightarrow> bad_returns ?limit ?ks = [] \<and> ?fine"
    by (auto simp: r check_anomalous_prices_def Let_def filter_empty_conv non_positive_def price_ok_iff simp flip: set_empty)
  have limit: "0 \<le> ?limit" "?limit < 1" by (simp_all add: max_abs_return_def)
  have "bad_returns ?limit ?ks = [] \<longleftrightarrow> steady ?limit (filter (\<lambda>x. x \<noteq> NaN) (map kl_close ?ks))" if ?fine
    using bad_returns_iff [OF limit, of ?ks] that by simp
  with an have "vr_anomalous r = [] \<longleftrightarrow> ?fine \<and> steady ?limit (filter (\<lambda>x. x \<noteq> NaN) (map kl_close ?ks))" by blast
  then show ?thesis unfolding report_is_valid_def spaced_iff gaps dups r(3) price_ok_def by blast
qed

text \<open>The missing candles of an aligned series.\<close>

lemma gaps_count:
  assumes "0 < step" "\<forall>i. Suc i < length (a # ts) \<longrightarrow>
    (a # ts) ! i < (a # ts) ! Suc i \<and> step dvd (a # ts) ! Suc i - (a # ts) ! i"
  shows "int (length ts) + sum_list (map (\<lambda>(b, c, n). n) (gaps_from step (a # ts))) = (last (a # ts) - a) div step"
  using assms(2)
proof (induction ts arbitrary: a)
  case (Cons b ts)
  have "\<forall>i. Suc i < length (b # ts) \<longrightarrow> (b # ts) ! i < (b # ts) ! Suc i \<and> step dvd (b # ts) ! Suc i - (b # ts) ! i"
    using Cons.prems by (metis Suc_less_eq length_Cons nth_Cons_Suc)
  note IH = Cons.IH [OF this]
  have ab: "a < b" "step dvd b - a" using Cons.prems [rule_format, of 0] by simp_all
  then obtain q where q: "b - a = step * q" by blast
  then have "0 < q" using ab assms(1) by (metis diff_gt_0_iff_gt zero_less_mult_pos)
  then have "step < b - a \<longleftrightarrow> 1 < q" using q assms(1) by (simp add: less_le)
  moreover have "(last (b # ts) - a) div step = (last (b # ts) - b) div step + q"
  proof -
    have "last (b # ts) - a = last (b # ts) - b + step * q" using q by simp
    then show ?thesis using assms(1) by (simp only: div_mult_self2)
  qed
  ultimately show ?case using IH q \<open>0 < q\<close> assms(1) by auto
qed simp

lemma below_last: "y \<in> set xs \<Longrightarrow> sorted xs \<Longrightarrow> y \<le> last (xs :: 'a::linorder list)"
  by (induction xs) (auto simp: Ball_def)

text \<open>
  The reported gaps account for every missing candle: for distinct timestamps on the grid of the
  timeframe, the candles that are there and those reported missing together fill the range from the
  first to the last.
\<close>

theorem gaps_account_for_missing:
  assumes "check_missing_candles df timeframe = Inr gaps" "candle_step timeframe = Inr step" "kf_rows df \<noteq> []"
    "distinct (times df)" "\<forall>t \<in> set (times df). step dvd t"
  shows "int (length (kf_rows df)) + sum_list (map (\<lambda>(a, b, n). n) gaps) =
    (Max (set (times df)) - Min (set (times df))) div step + 1"
proof -
  have step: "0 < step" using assms(2) by (auto simp: candle_step_def timeframe_ms_def split: if_splits option.splits)
  obtain a ts where s: "sort (times df) = a # ts"
    using assms(3) by (cases "sort (times df)") (auto simp: times_def simp flip: set_empty)
  have gaps: "gaps = gaps_from step (a # ts)"
  proof (cases "length (kf_rows df) < 2")
    case True
    then have "length (sort (times df)) < 2" by (simp add: times_def)
    then have "ts = []" by (simp add: s)
    with True assms(1) show ?thesis by (simp add: check_missing_candles_def)
  next
    case False
    with assms(1,2) show ?thesis by (simp add: check_missing_candles_def s)
  qed
  have so: "sorted_wrt (<) (a # ts)" using assms(4) strict_sorted_iff [of "a # ts"] by (simp flip: s)
  have "set (a # ts) = set (times df)" by (simp only: set_sort flip: s)
  then have "step dvd x" if "x \<in> set (a # ts)" for x using assms(5) that by blast
  then have "step dvd (a # ts) ! i" if "i < length (a # ts)" for i using that nth_mem by blast
  then have "\<forall>i. Suc i < length (a # ts) \<longrightarrow>
      (a # ts) ! i < (a # ts) ! Suc i \<and> step dvd (a # ts) ! Suc i - (a # ts) ! i"
    using so by (metis Suc_lessD dvd_diff lessI sorted_wrt_iff_nth_less)
  from gaps_count [OF step this] have c: "int (length ts) + sum_list (map (\<lambda>(b, c, n). n) gaps) = (last (a # ts) - a) div step"
    by (simp only: gaps)
  have le: "sorted (a # ts)" using so by (simp only: strict_sorted_imp_sorted)
  have "Min (set (times df)) = a" "Max (set (times df)) = last (a # ts)"
    using le \<open>set (a # ts) = set (times df)\<close>
    by (metis List.finite_set Min_insert2 list.simps(15) sorted_simps(2),
        metis Max_eqI List.finite_set last_in_set le list.distinct(1) below_last)
  moreover have "length (kf_rows df) = Suc (length ts)"
    using arg_cong [OF s, of length] by (simp add: times_def)
  ultimately show ?thesis using c by simp
qed

text \<open>A candle between two grid points is no gap: a series with extra candles passes.\<close>

definition demo_kline :: "int \<Rightarrow> kline" where
  "demo_kline t = \<lparr>kl_time = t, kl_open = Fin 100, kl_high = Fin 101, kl_low = Fin 99, kl_close = Fin 100, kl_volume = Fin 1\<rparr>"

definition demo_frame :: "int list \<Rightarrow> kline_frame" where
  "demo_frame ts = \<lparr>kf_utc = True, kf_rows = map demo_kline ts\<rparr>"

definition missing_prices :: kline where
  "missing_prices = \<lparr>kl_time = 0, kl_open = NaN, kl_high = NaN, kl_low = NaN, kl_close = NaN, kl_volume = NaN\<rparr>"

text \<open>The second candle has no price at all.\<close>

definition demo_nan_frame :: kline_frame where
  "demo_nan_frame = \<lparr>kf_utc = True, kf_rows = [demo_kline 0, missing_prices\<lparr>kl_time := 1800000000000\<rparr>, demo_kline 3600000000000]\<rparr>"

lemma demo_report:
  "validate_dataset demo_nan_frame ''1h'' 7200000000000 =
   Inr \<lparr>vr_timeframe = ''1h'', vr_gaps = [], vr_duplicates = [], vr_zero_volume = [], vr_anomalous = [],
        vr_non_utc = False, vr_incomplete = None\<rparr>"
  by code_simp

lemma valid_dataset_is_regular_witness:
  "spaced 3600000000000 (sort (times demo_nan_frame)) \<and> kl_close (kf_rows demo_nan_frame ! 1) = NaN \<and>
   steady (1 / 2) [Fin 100, Fin 100]"
proof -
  have "candle_step ''1h'' = Inr 3600000000000" by (simp add: candle_step_def timeframe_ms_def)
  from valid_dataset_is_regular [OF demo_report this] show ?thesis
    by (simp add: report_is_valid_def max_abs_return_def demo_nan_frame_def demo_kline_def missing_prices_def)
qed

lemma gaps_account_for_missing_witness:
  "check_missing_candles (demo_frame [0, 10800000000000]) ''1h'' = Inr [(0, 10800000000000, 2)] \<and>
   int (length (kf_rows (demo_frame [0, 10800000000000]))) + 2 = 10800000000000 div 3600000000000 + 1"
proof -
  have c: "check_missing_candles (demo_frame [0, 10800000000000]) ''1h'' = Inr [(0, 10800000000000, 2)]"
    and s: "candle_step ''1h'' = Inr 3600000000000"
    by (simp_all add: check_missing_candles_def candle_step_def timeframe_ms_def demo_frame_def demo_kline_def times_def)
  have "times (demo_frame [0, 10800000000000]) = [0, 10800000000000]" by (simp add: times_def demo_frame_def demo_kline_def)
  with gaps_account_for_missing [OF c s] c show ?thesis by (simp add: demo_frame_def)
qed

end
