(* ===== verification/Robustness.thy ===== *)
theory Robustness
  imports Backtest_Trades "HOL-Library.Sublist"
begin

text \<open>
  Model of the combinatorial statistics of \<open>src/analytics/robustness.py\<close> (probability of backtest
  overfitting, isolated spikes), of the bootstrap of \<open>src/analytics/monte_carlo.py\<close> and of the
  drawdown of \<open>src/analytics/metrics.py\<close>. The random draws of the bootstrap are arguments; the
  deflated Sharpe ratio, the Wilson bound and the percentiles (normal quantiles and square roots) are
  not modelled. The logit of a rank is read only by its sign, which is that of the rank minus one half.
\<close>

section \<open>Combinatorially symmetric cross-validation\<close>

text \<open>\<open>itertools.combinations\<close>, in its order.\<close>

fun combinations :: "'a list \<Rightarrow> nat \<Rightarrow> 'a list list" where
  "combinations xs 0 = [[]]"
| "combinations [] (Suc k) = []"
| "combinations (x # xs) (Suc k) = map (Cons x) (combinations xs k) @ combinations xs (Suc k)"

definition column :: "nat \<Rightarrow> rat list list \<Rightarrow> rat list" where
  "column j rows = map (\<lambda>r. r ! j) rows"

text \<open>\<open>performance_matrix.iloc[i * block_size : (i + 1) * block_size]\<close>\<close>

definition block :: "nat \<Rightarrow> rat list list \<Rightarrow> nat \<Rightarrow> rat list list" where
  "block len rows i = take len (drop (i * len) rows)"

text \<open>\<open>np.argmax\<close>: the first index of the largest value.\<close>

fun argmax_from :: "nat \<Rightarrow> rat \<Rightarrow> nat \<Rightarrow> rat list \<Rightarrow> nat" where
  "argmax_from best v i [] = best"
| "argmax_from best v i (x # xs) =
     (if v < x then argmax_from i x (Suc i) xs else argmax_from best v (Suc i) xs)"

definition argmax :: "rat list \<Rightarrow> nat" where
  "argmax xs = argmax_from 0 (hd xs) 1 (tl xs)"

text \<open>\<open>stats.rankdata\<close>: 1 for the smallest, ties get the mean of their ranks.\<close>

definition rank_of :: "rat list \<Rightarrow> nat \<Rightarrow> rat" where
  "rank_of xs j = of_nat (length (filter (\<lambda>x. x < xs ! j) xs)) + (of_nat (length (filter (\<lambda>x. x = xs ! j) xs)) + 1) / 2"

record pbo_result =
  pb_combinations :: nat
  pb_probability :: rat

definition block_score :: "(rat list \<Rightarrow> rat) \<Rightarrow> rat list list \<Rightarrow> nat \<Rightarrow> nat \<Rightarrow> nat \<Rightarrow> rat" where
  "block_score metric rows len i j = metric (column j (block len rows i))"

text \<open>\<open>block_scores[ids].mean(axis=0)\<close>\<close>

definition scores_over :: "(rat list \<Rightarrow> rat) \<Rightarrow> rat list list \<Rightarrow> nat \<Rightarrow> nat \<Rightarrow> nat list \<Rightarrow> rat list" where
  "scores_over metric rows len trials ids = map (\<lambda>j. mean (map (\<lambda>i. block_score metric rows len i j) ids)) [0..<trials]"

definition clipped :: "rat \<Rightarrow> rat" where
  "clipped omega = min (max omega (1 / 1000000000)) (1 - 1 / 1000000000)"

text \<open>Whether the logit of one split is at most zero.\<close>

definition overfit_split :: "(rat list \<Rightarrow> rat) \<Rightarrow> rat list list \<Rightarrow> nat \<Rightarrow> nat \<Rightarrow> nat \<Rightarrow> nat list \<Rightarrow> bool" where
  "overfit_split metric rows len trials partitions train =
     (let test = filter (\<lambda>i. i \<notin> set train) [0..<partitions];
          best = argmax (scores_over metric rows len trials train);
          rank = rank_of (scores_over metric rows len trials test) best
      in clipped (rank / (of_nat trials + 1)) \<le> 1 / 2)"

definition probability_of_backtest_overfitting ::
    "(rat list \<Rightarrow> rat) \<Rightarrow> rat list list \<Rightarrow> nat \<Rightarrow> int \<Rightarrow> pbo_result result" where
  "probability_of_backtest_overfitting metric rows trials n_partitions =
     (if n_partitions < 2 then Inl (ValueError ''n_partitions must be >= 2'')
      else if n_partitions mod 2 \<noteq> 0 then Inl (ValueError ''n_partitions must be even'')
      else if trials < 2 then Inl (ValueError ''need at least 2 trials to rank'')
      else if int (length rows) mod n_partitions \<noteq> 0 then Inl (ValueError ''rows not evenly divisible by n_partitions'')
      else
        (let s = nat n_partitions; len = length rows div s; splits = combinations [0..<s] (s div 2);
             overfit = filter (overfit_split metric rows len trials s) splits
         in Inr \<lparr>pb_combinations = length splits, pb_probability = of_nat (length overfit) / of_nat (length splits)\<rparr>))"

lemma length_combinations: "length (combinations xs k) = length xs choose k"
  by (induction xs k rule: combinations.induct) simp_all

lemma combinations_subseq: "ids \<in> set (combinations xs k) \<Longrightarrow> subseq ids xs \<and> length ids = k"
  by (induction xs k arbitrary: ids rule: combinations.induct) (auto intro: list_emb_Cons)

lemma argmax_from_cases:
  "best < i \<Longrightarrow> j = argmax_from best v i xs \<Longrightarrow>
   (j = best \<and> (\<forall>x \<in> set xs. x \<le> v)) \<or> (i \<le> j \<and> j - i < length xs \<and> v < xs ! (j - i) \<and> (\<forall>x \<in> set xs. x \<le> xs ! (j - i)))"
proof (induction xs arbitrary: best v i)
  case (Cons x xs)
  have later: "j - i = Suc (j - Suc i)" if "Suc i \<le> j" using that by simp
  show ?case
  proof (cases "v < x")
    case True
    then have "j = argmax_from i x (Suc i) xs" using Cons.prems by simp
    from Cons.IH [OF _ this] show ?thesis using True
      by (auto simp: later)
  next
    case False
    then have "j = argmax_from best v (Suc i) xs" "best < Suc i" using Cons.prems by simp_all
    from Cons.IH [OF this(2,1)] show ?thesis using False
      by (auto simp: later)
  qed
qed simp

lemma argmax_largest:
  assumes "xs \<noteq> []"
  shows "argmax xs < length xs \<and> (\<forall>x \<in> set xs. x \<le> xs ! argmax xs)"
proof -
  obtain y ys where xs: "xs = y # ys" using assms by (cases xs) auto
  from argmax_from_cases [of 0 1 "argmax xs" y ys] show ?thesis
    by (cases "argmax xs") (auto simp: xs argmax_def)
qed

lemma rank_largest:
  assumes "j < length xs" "\<forall>i < length xs. i \<noteq> j \<longrightarrow> xs ! i < xs ! j"
  shows "rank_of xs j = of_nat (length xs)"
proof -
  have i: "xs ! i < xs ! j \<longleftrightarrow> i \<noteq> j" "xs ! i = xs ! j \<longleftrightarrow> i = j" if "i < length xs" for i
    using assms(2) [rule_format, OF that] by (cases "i = j"; simp)+
  then have "{i. i < length xs \<and> xs ! i < xs ! j} = {..<length xs} - {j}" "{i. i < length xs \<and> xs ! i = xs ! j} = {j}"
    using assms(1) by auto
  then have "length (filter (\<lambda>x. x < xs ! j) xs) = length xs - 1" "length (filter (\<lambda>x. x = xs ! j) xs) = 1"
    using assms(1) by (simp_all add: length_filter_conv_card)
  then show ?thesis using assms(1) by (simp add: rank_of_def of_nat_diff)
qed

lemma rank_all_equal:
  assumes "j < length xs" "\<forall>i < length xs. xs ! i = xs ! j"
  shows "rank_of xs j = (of_nat (length xs) + 1) / 2"
proof -
  have "x = xs ! j" if "x \<in> set xs" for x using assms(2) that by (metis in_set_conv_nth)
  then have "filter (\<lambda>x. x < xs ! j) xs = []" "filter (\<lambda>x. x = xs ! j) xs = xs"
    by (auto simp: filter_empty_conv filter_id_conv)
  then show ?thesis by (simp add: rank_of_def)
qed

lemma sum_list_strict_mono:
  "xs \<noteq> [] \<Longrightarrow> \<forall>x \<in> set xs. f x < g x \<Longrightarrow> sum_list (map f xs) < (sum_list (map g xs) :: rat)"
  by (induction xs rule: list_nonempty_induct) (auto intro: add_strict_mono)

lemma mean_strict_mono: "xs \<noteq> [] \<Longrightarrow> \<forall>x \<in> set xs. f x < g x \<Longrightarrow> mean (map f xs) < mean (map g xs)"
  by (simp add: mean_def divide_strict_right_mono sum_list_strict_mono)

text \<open>What the successful calls have in common.\<close>

lemma pbo_cases:
  assumes "probability_of_backtest_overfitting metric rows trials n = Inr r" "rows \<noteq> []"
  obtains s where "s = nat n" "2 \<le> s" "even s" "2 \<le> trials" "0 < length rows div s"
    "length rows = length rows div s * s" "combinations [0..<s] (s div 2) \<noteq> []"
    "pb_combinations r = s choose (s div 2)"
    "pb_probability r = of_nat (length (filter (overfit_split metric rows (length rows div s) trials s)
       (combinations [0..<s] (s div 2)))) / of_nat (s choose (s div 2))"
proof -
  define s where "s = nat n"
  have r: "2 \<le> n" "n mod 2 = 0" "2 \<le> trials" "int (length rows) mod n = 0"
    "r = \<lparr>pb_combinations = length (combinations [0..<s] (s div 2)), pb_probability =
        of_nat (length (filter (overfit_split metric rows (length rows div s) trials s) (combinations [0..<s] (s div 2)))) /
        of_nat (length (combinations [0..<s] (s div 2)))\<rparr>"
    using assms(1) by (auto simp: probability_of_backtest_overfitting_def Let_def s_def split: if_splits)
  then have n: "n = int s" by (simp add: s_def)
  have "length rows mod s = 0" using r(4) by (simp add: n flip: zmod_int)
  then have d: "s dvd length rows" by presburger
  have "0 < s choose (s div 2)" by simp
  then have ne: "combinations [0..<s] (s div 2) \<noteq> []" by (metis length_combinations length_upt list.size(3) minus_nat.diff_0 neq0_conv)
  have "even (int s)" using r(2) by (simp only: n even_iff_mod_2_eq_zero)
  then have even: "even s" by simp
  have pos: "0 < length rows div s" using d assms(2) r(1) n by (auto simp: div_greater_zero_iff dest: dvd_imp_le)
  show ?thesis
    by (rule that [OF s_def _ even r(3) pos _ ne]) (use r(1) n d in \<open>simp_all add: r(5) length_combinations\<close>)
qed

lemma block_rows:
  assumes "length rows = len * s" "i < s" "0 < len"
  shows "block len rows i \<noteq> []" "set (block len rows i) \<subseteq> set rows"
proof -
  have "i * len < length rows" using assms by (simp add: mult.commute)
  then show "block len rows i \<noteq> []" using assms(3) by (simp add: block_def)
  show "set (block len rows i) \<subseteq> set rows" unfolding block_def by (meson set_drop_subset set_take_subset subset_trans)
qed

lemma scores_less:
  assumes "length rows = len * s" "0 < len" "ids \<noteq> []" "set ids \<subseteq> {..<s}" "j < trials" "b < trials"
    "\<forall>row \<in> set rows. row ! j < row ! b"
  shows "scores_over mean rows len trials ids ! j < scores_over mean rows len trials ids ! b"
proof -
  have "block_score mean rows len i j < block_score mean rows len i b" if "i \<in> set ids" for i
    using block_rows [OF assms(1) _ assms(2), of i] that assms(4,7)
    by (auto simp: block_score_def column_def intro!: mean_strict_mono)
  then show ?thesis using assms(3,5,6) by (simp add: scores_over_def mean_strict_mono)
qed

lemma split_parts:
  assumes "ids \<in> set (combinations [0..<s] (s div 2))" "2 \<le> s" "even s"
  shows "ids \<noteq> []" "set ids \<subseteq> {..<s}" "filter (\<lambda>i. i \<notin> set ids) [0..<s] \<noteq> []"
proof -
  have ids: "subseq ids [0..<s]" "length ids = s div 2" using combinations_subseq [OF assms(1)] by simp_all
  then show "ids \<noteq> []" using assms(2) by auto
  show "set ids \<subseteq> {..<s}" by (auto elim: list_emb_set [OF ids(1)])
  have "card (set ids) \<le> s div 2" using ids(2) card_length [of ids] by simp
  then have "card (set ids) < card {..<s}" using assms(2) by simp
  then have "\<not> {..<s} \<subseteq> set ids" by (meson List.finite_set card_mono not_le)
  then show "filter (\<lambda>i. i \<notin> set ids) [0..<s] \<noteq> []" by (auto simp: filter_empty_conv)
qed

lemma overfit_dominated:
  assumes "length rows = len * s" "0 < len" "ids \<in> set (combinations [0..<s] (s div 2))" "2 \<le> s" "even s"
    "2 \<le> trials" "b < trials" "\<forall>row \<in> set rows. \<forall>j < trials. j \<noteq> b \<longrightarrow> row ! j < row ! b"
  shows "\<not> overfit_split mean rows len trials s ids"
proof -
  note parts = split_parts [OF assms(3-5)]
  let ?train = "scores_over mean rows len trials ids"
  let ?test = "scores_over mean rows len trials (filter (\<lambda>i. i \<notin> set ids) [0..<s])"
  have len: "length ?train = trials" "length ?test = trials" by (simp_all add: scores_over_def)
  have "?train ! j < ?train ! b" if "j < trials" "j \<noteq> b" for j
    using assms(8) that by (intro scores_less [OF assms(1,2) parts(1,2) _ assms(7)]) auto
  moreover have "argmax ?train < trials \<and> ?train ! b \<le> ?train ! argmax ?train"
    using argmax_largest [of ?train] len assms(7) by (auto simp flip: length_greater_0_conv)
  ultimately have best: "argmax ?train = b" using not_le by blast
  have "set (filter (\<lambda>i. i \<notin> set ids) [0..<s]) \<subseteq> {..<s}" by auto
  then have "?test ! j < ?test ! b" if "j < trials" "j \<noteq> b" for j
    using assms(8) that by (intro scores_less [OF assms(1,2) parts(3) _ _ assms(7)]) auto
  then have "rank_of ?test b = of_nat trials" using rank_largest [of b ?test] assms(7) by (simp add: len)
  then show ?thesis
    using assms(6) by (simp add: overfit_split_def Let_def best clipped_def field_simps min_def max_def)
qed

lemma scores_nth:
  "j < trials \<Longrightarrow> scores_over metric rows len trials ids ! j = mean (map (\<lambda>i. block_score metric rows len i j) ids)"
  by (simp add: scores_over_def)

lemma overfit_equal:
  assumes "length rows = len * s" "0 < len" "ids \<in> set (combinations [0..<s] (s div 2))" "2 \<le> s" "even s"
    "2 \<le> trials" "\<forall>row \<in> set rows. \<forall>i < trials. \<forall>j < trials. row ! i = row ! j"
  shows "overfit_split mean rows len trials s ids"
proof -
  let ?train = "scores_over mean rows len trials ids"
  let ?ids = "filter (\<lambda>i. i \<notin> set ids) [0..<s]" let ?test = "scores_over mean rows len trials ?ids"
  have len: "length ?train = trials" "length ?test = trials" by (simp_all add: scores_over_def)
  have best: "argmax ?train < trials" using argmax_largest [of ?train] len assms(6) by (auto simp flip: length_greater_0_conv)
  have eq: "block_score mean rows len i j = block_score mean rows len i k" if "i \<in> set ?ids" "j < trials" "k < trials" for i j k
  proof -
    have "column j (block len rows i) = column k (block len rows i)"
      using block_rows(2) [OF assms(1) _ assms(2), of i] that assms(7) by (auto simp: column_def)
    then show ?thesis by (simp add: block_score_def)
  qed
  have maps: "map (\<lambda>i. block_score mean rows len i j) ?ids = map (\<lambda>i. block_score mean rows len i k) ?ids"
    if "j < trials" "k < trials" for j k
    by (rule map_cong [OF refl], rule eq [OF _ that])
  then have "?test ! j = ?test ! k" if "j < trials" "k < trials" for j k
    by (simp only: scores_nth [OF that(1)] scores_nth [OF that(2)] maps [OF that])
  then have all: "\<forall>i < length ?test. ?test ! i = ?test ! argmax ?train" using best unfolding len by blast
  have "argmax ?train < length ?test" using best by (simp only: len)
  from rank_all_equal [OF this all] have rank: "rank_of ?test (argmax ?train) = (of_nat trials + 1) / 2" by (simp only: len)
  have "0 < (of_nat trials + 1 :: rat)" by simp
  then have half: "(of_nat trials + 1) / 2 / (of_nat trials + 1) = (1 / 2 :: rat)" by (simp add: field_simps)
  show ?thesis unfolding overfit_split_def Let_def rank half by (simp add: clipped_def)
qed

text \<open>
  What the probability of backtest overfitting says: it is the share of the \<open>S choose S/2\<close> splits,
  between 0 and 1; a trial that beats every other in every period makes it 0, and trials that cannot
  be told apart make it 1.
\<close>

theorem pbo_extremes:
  assumes "probability_of_backtest_overfitting mean rows trials n = Inr r" "rows \<noteq> []"
  shows "pb_combinations r = nat n choose (nat n div 2) \<and> 0 \<le> pb_probability r \<and> pb_probability r \<le> 1 \<and>
    ((\<exists>b < trials. \<forall>row \<in> set rows. \<forall>j < trials. j \<noteq> b \<longrightarrow> row ! j < row ! b) \<longrightarrow> pb_probability r = 0) \<and>
    ((\<forall>row \<in> set rows. \<forall>i < trials. \<forall>j < trials. row ! i = row ! j) \<longrightarrow> pb_probability r = 1)"
proof -
  obtain s where s: "s = nat n" "2 \<le> s" "even s" "2 \<le> trials" "0 < length rows div s"
    "length rows = length rows div s * s" "combinations [0..<s] (s div 2) \<noteq> []"
    "pb_combinations r = s choose (s div 2)"
    "pb_probability r = of_nat (length (filter (overfit_split mean rows (length rows div s) trials s)
       (combinations [0..<s] (s div 2)))) / of_nat (s choose (s div 2))"
    by (rule pbo_cases [OF assms])
  let ?cs = "combinations [0..<s] (s div 2)" and ?over = "overfit_split mean rows (length rows div s) trials s"
  have n: "length ?cs = s choose (s div 2)" "0 < length ?cs" using s(7) by (simp_all add: length_combinations)
  have "length (filter ?over ?cs) \<le> length ?cs" by simp
  then have bounds: "0 \<le> pb_probability r" "pb_probability r \<le> 1" using n by (simp_all add: s(9))
  have zero: "pb_probability r = 0"
    if "b < trials" "\<forall>row \<in> set rows. \<forall>j < trials. j \<noteq> b \<longrightarrow> row ! j < row ! b" for b
  proof -
    have "filter ?over ?cs = []"
      using overfit_dominated [OF s(6,5) _ s(2-4) that] by (auto simp only: filter_empty_conv)
    then show ?thesis by (simp only: s(9) list.size of_nat_0 div_0)
  qed
  have one: "pb_probability r = 1" if "\<forall>row \<in> set rows. \<forall>i < trials. \<forall>j < trials. row ! i = row ! j"
  proof -
    have "filter ?over ?cs = ?cs"
      using overfit_equal [OF s(6,5) _ s(2-4) that] by (auto simp only: filter_id_conv)
    then have "pb_probability r = of_nat (length ?cs) / of_nat (length ?cs)" by (simp only: s(9) n)
    then show ?thesis using n(2) by simp
  qed
  show ?thesis using bounds zero one s(1,8) by blast
qed

lemma pbo_extremes_witness:
  "probability_of_backtest_overfitting mean [[1, 2], [0, 3], [1, 4], [2, 5]] 2 4 =
     Inr \<lparr>pb_combinations = 6, pb_probability = 0\<rparr> \<and> (6::nat) = nat 4 choose (nat 4 div 2)"
proof -
  have two: "2 = Suc (Suc 0)" by simp
  have r: "\<exists>r. probability_of_backtest_overfitting mean [[1, 2], [0, 3], [1, 4], [2, 5]] 2 4 = Inr r"
    by (simp add: probability_of_backtest_overfitting_def Let_def)
  then obtain r where r: "probability_of_backtest_overfitting mean [[1, 2], [0, 3], [1, 4], [2, 5]] 2 4 = Inr r" by blast
  have "\<exists>b < 2. \<forall>row \<in> set [[1, 2], [0, 3], [1, 4], [2, 5 :: rat]]. \<forall>j < 2. j \<noteq> b \<longrightarrow> row ! j < row ! b"
    by (intro exI [of _ 1]) (auto simp: less_2_cases_iff)
  with pbo_extremes [OF r] have "pb_probability r = 0" "pb_combinations r = nat 4 choose (nat 4 div 2)" by auto
  moreover have "nat 4 choose (nat 4 div 2) = 6" by (simp add: choose_two numeral_2_eq_2 [symmetric])
  ultimately show ?thesis using r by (cases r) simp
qed

section \<open>Drawdowns\<close>

text \<open>\<open>cummax\<close> and \<open>value / running_max - 1\<close>\<close>

fun drawdowns_from :: "rat \<Rightarrow> rat list \<Rightarrow> rat list" where
  "drawdowns_from m [] = []"
| "drawdowns_from m (v # vs) = (v / max m v - 1) # drawdowns_from (max m v) vs"

definition drawdowns :: "rat list \<Rightarrow> rat list" where
  "drawdowns path = drawdowns_from (hd path) path"

definition path_max_drawdown :: "rat list \<Rightarrow> rat" where
  "path_max_drawdown path = Min (set (drawdowns path))"

text \<open>\<open>max_drawdown\<close> of \<open>compute_equity_metrics\<close>; the equity is sorted by time first.\<close>

definition max_drawdown :: "(int \<times> rat) list \<Rightarrow> rat" where
  "max_drawdown equity =
     (if length equity < 2 then 0 else path_max_drawdown (map snd (sort_key fst equity)))"

lemma length_drawdowns [simp]: "length (drawdowns_from m vs) = length vs"
  by (induction m vs rule: drawdowns_from.induct) simp_all

text \<open>A drawdown limit is breached exactly when some value is that far below an earlier one.\<close>

lemma drawdowns_below:
  "0 < m \<Longrightarrow> c \<le> 1 \<Longrightarrow> (\<exists>d \<in> set (drawdowns_from m vs). d \<le> - c) \<longleftrightarrow>
     (\<exists>j < length vs. vs ! j \<le> (1 - c) * m \<or> (\<exists>i \<le> j. vs ! j \<le> (1 - c) * vs ! i))"
proof (induction m vs rule: drawdowns_from.induct)
  case (2 m v vs)
  let ?m = "max m v"
  have pos: "0 < ?m" using 2(2) by simp
  have head: "v / ?m - 1 \<le> - c \<longleftrightarrow> v \<le> (1 - c) * ?m" using pos by (simp add: field_simps)
  have scale: "x \<le> (1 - c) * ?m \<longleftrightarrow> x \<le> (1 - c) * m \<or> x \<le> (1 - c) * v" for x
    using 2(3) by (auto simp: max_def mult_left_mono not_le intro: order_trans [OF _ mult_left_mono] order_trans)
  have "(\<exists>d \<in> set (drawdowns_from m (v # vs)). d \<le> - c) \<longleftrightarrow>
      v \<le> (1 - c) * ?m \<or> (\<exists>j < length vs. vs ! j \<le> (1 - c) * ?m \<or> (\<exists>i \<le> j. vs ! j \<le> (1 - c) * vs ! i))"
    using 2(1) [OF pos 2(3)] head by simp
  also have "\<dots> \<longleftrightarrow> (\<exists>j < length (v # vs). (v # vs) ! j \<le> (1 - c) * m \<or> (\<exists>i \<le> j. (v # vs) ! j \<le> (1 - c) * (v # vs) ! i))"
  proof -
    have "(\<exists>i \<le> Suc j. P i) \<longleftrightarrow> P 0 \<or> (\<exists>i \<le> j. P (Suc i))" for P and j :: nat
      by (metis Suc_le_mono bot_nat_0.extremum nat.exhaust_sel)
    then show ?thesis unfolding scale by (simp add: Ex_less_Suc2)
  qed
  finally show ?case .
qed simp

section \<open>Resampled trade sequences\<close>

text \<open>\<open>equity_paths\<close> with the starting balance in front.\<close>

fun equity_path :: "rat \<Rightarrow> rat list \<Rightarrow> rat list" where
  "equity_path balance [] = [balance]"
| "equity_path balance (p # ps) = balance # equity_path (balance + p) ps"

text \<open>The columns of \<open>streak\<close>, one after the other.\<close>

fun streaks :: "nat \<Rightarrow> rat list \<Rightarrow> nat list" where
  "streaks current [] = []"
| "streaks current (p # ps) = (let c = (if p < 0 then current + 1 else 0) in c # streaks c ps)"

text \<open>
  The draws of one simulation: one index per trade without a block size, else the starts of
  \<open>ceil(n / block_size)\<close> circular blocks.
\<close>

definition sample_indices :: "nat \<Rightarrow> nat option \<Rightarrow> nat list \<Rightarrow> nat list" where
  "sample_indices n block_size draws =
     (case block_size of
        None \<Rightarrow> draws
      | Some b \<Rightarrow> take n (concat (map (\<lambda>s. map (\<lambda>offset. (s + offset) mod n) [0..<b]) draws)))"

definition draws_needed :: "nat \<Rightarrow> nat option \<Rightarrow> nat" where
  "draws_needed n block_size = (case block_size of None \<Rightarrow> n | Some b \<Rightarrow> (n + b - 1) div b)"

record monte_carlo_result =
  mc_trades :: nat
  mc_total_return :: "rat list"
  mc_max_drawdown :: "rat list"
  mc_losing_streak :: "nat list"
  mc_ruin_events :: nat
  mc_risk_of_ruin :: num

definition simulated_samples :: "rat list \<Rightarrow> nat option \<Rightarrow> nat list list \<Rightarrow> rat list list" where
  "simulated_samples pnls block_size draws =
     map (\<lambda>d. map (\<lambda>i. pnls ! i) (sample_indices (length pnls) block_size d)) draws"

definition run_monte_carlo :: "rat list \<Rightarrow> rat \<Rightarrow> rat \<Rightarrow> int option \<Rightarrow> nat list list \<Rightarrow> monte_carlo_result result" where
  "run_monte_carlo pnls starting_equity ruin_threshold block_size draws =
     (if pnls = []
      then Inr \<lparr>mc_trades = 0, mc_total_return = [], mc_max_drawdown = [], mc_losing_streak = [],
                mc_ruin_events = 0, mc_risk_of_ruin = NaN\<rparr>
      else if (case block_size of None \<Rightarrow> False | Some b \<Rightarrow> b < 1) then Inl (ValueError ''block_size must be >= 1'')
      else
        (let samples = simulated_samples pnls (map_option nat block_size) draws;
             paths = map (equity_path starting_equity) samples;
             drawdown = map path_max_drawdown paths;
             events = length (filter (\<lambda>d. d \<le> - \<bar>ruin_threshold\<bar>) drawdown)
         in Inr \<lparr>mc_trades = length pnls,
                 mc_total_return = map (\<lambda>path. (last path - starting_equity) / starting_equity) paths,
                 mc_max_drawdown = drawdown, mc_losing_streak = map (\<lambda>s. Max (set (streaks 0 s))) samples,
                 mc_ruin_events = events, mc_risk_of_ruin = Fin (of_nat events / of_nat (length draws))\<rparr>))"

text \<open>The vectorised streak is the streak of the loop of \<open>metrics.py\<close>.\<close>

lemma losing_streak_streaks: "losing_streak longest current ps = fold max (streaks current ps) longest"
  by (induction longest current ps rule: losing_streak.induct) (auto simp: Let_def max.commute)

lemma streak_agrees: "ps \<noteq> [] \<Longrightarrow> Max (set (streaks 0 ps)) = longest_losing_streak ps"
  by (cases ps) (auto simp: longest_losing_streak_def losing_streak_streaks Let_def Max.set_eq_fold simp del: list.set)

lemma last_equity_path: "last (equity_path balance ps) = balance + sum_list ps"
proof (induction balance ps rule: equity_path.induct)
  case (2 balance p ps)
  have "equity_path (balance + p) ps \<noteq> []" by (cases ps) simp_all
  with 2 show ?case by simp
qed simp

lemma hd_equity_path: "hd (equity_path balance ps) = balance" "equity_path balance ps \<noteq> []"
  by (cases ps; simp)+

lemma ruin_iff:
  assumes "0 < balance" "\<theta> \<le> 1"
  shows "path_max_drawdown (equity_path balance ps) \<le> - \<theta> \<longleftrightarrow>
    (let path = equity_path balance ps in \<exists>j < length path. \<exists>i \<le> j. path ! j \<le> (1 - \<theta>) * path ! i)"
proof -
  let ?path = "equity_path balance ps"
  have first: "?path ! 0 = balance" using hd_equity_path [of balance ps] by (simp add: hd_conv_nth)
  have "drawdowns ?path \<noteq> []" using hd_equity_path(2) [of balance ps] by (simp add: drawdowns_def flip: length_greater_0_conv)
  then have "path_max_drawdown ?path \<le> - \<theta> \<longleftrightarrow> (\<exists>d \<in> set (drawdowns ?path). d \<le> - \<theta>)"
    by (simp add: path_max_drawdown_def Min_le_iff)
  also have "\<dots> \<longleftrightarrow> (\<exists>j < length ?path. ?path ! j \<le> (1 - \<theta>) * ?path ! 0 \<or> (\<exists>i \<le> j. ?path ! j \<le> (1 - \<theta>) * ?path ! i))"
    unfolding drawdowns_def hd_equity_path(1) drawdowns_below [OF assms] first ..
  also have "\<dots> \<longleftrightarrow> (\<exists>j < length ?path. \<exists>i \<le> j. ?path ! j \<le> (1 - \<theta>) * ?path ! i)" by blast
  finally show ?thesis by (simp add: Let_def)
qed

text \<open>A block as long as the history is a rotation of it.\<close>

lemma rotation_indices: "s < n \<Longrightarrow> map (\<lambda>offset. (s + offset) mod n) [0..<n] = [s..<n] @ [0..<s]"
  by (rule nth_equalityI) (auto simp: nth_append mod_if)

lemma sum_rotation:
  assumes "s < length (pnls :: rat list)"
  shows "sum_list (map (\<lambda>i. pnls ! i) ([s..<length pnls] @ [0..<s])) = sum_list pnls"
proof -
  have "[0..<length pnls] = [0..<s] @ [s..<length pnls]"
    using upt_add_eq_append [of 0 s "length pnls - s"] assms by simp
  then have "sum_list pnls = sum_list (map (\<lambda>i. pnls ! i) ([0..<s] @ [s..<length pnls]))" by (metis map_nth)
  then show ?thesis by simp
qed

text \<open>
  The vectorised simulation computes what it says: each simulated path has the losing streak the
  loop of the trade metrics finds, it counts as ruined exactly if its equity falls, at some trade, to the
  ruin fraction below an earlier value or further, the risk of ruin is the share of those paths, and a
  block as long as the history resamples a rotation of it, with the total return of the history.
\<close>

theorem monte_carlo_statistics:
  assumes "run_monte_carlo pnls balance \<theta> block_size draws = Inr r" "pnls \<noteq> []" "draws \<noteq> []" "0 < balance"
    "0 \<le> \<theta>" "\<theta> \<le> 1" "samples = simulated_samples pnls (map_option nat block_size) draws" "[] \<notin> set samples"
  shows "mc_losing_streak r = map longest_losing_streak samples \<and>
    mc_risk_of_ruin r = Fin (of_nat (length (filter (\<lambda>s. let path = equity_path balance s in
      \<exists>j < length path. \<exists>i \<le> j. path ! j \<le> (1 - \<theta>) * path ! i) samples)) / of_nat (length samples)) \<and>
    (block_size = Some (int (length pnls)) \<and> (\<forall>d \<in> set draws. \<exists>s < length pnls. d = [s]) \<longrightarrow>
      set (mc_total_return r) = {sum_list pnls / balance})"
proof -
  let ?ruined = "\<lambda>s. let path = equity_path balance s in \<exists>j < length path. \<exists>i \<le> j. path ! j \<le> (1 - \<theta>) * path ! i"
  have r: "mc_losing_streak r = map (\<lambda>s. Max (set (streaks 0 s))) samples"
    "mc_risk_of_ruin r = Fin (of_nat (length (filter (\<lambda>s. path_max_drawdown (equity_path balance s) \<le> - \<theta>) samples)) /
       of_nat (length draws))"
    "mc_total_return r = map (\<lambda>s. (last (equity_path balance s) - balance) / balance) samples"
    using assms(1,2,5) by (auto simp: run_monte_carlo_def Let_def assms(7) filter_map comp_def split: if_splits)
  have n: "length draws = length samples" by (simp add: assms(7) simulated_samples_def)
  have "mc_risk_of_ruin r = Fin (of_nat (length (filter ?ruined samples)) / of_nat (length samples))"
    unfolding r(2) n ruin_iff [OF assms(4,6)] ..
  moreover have "mc_losing_streak r = map longest_losing_streak samples"
    unfolding r(1) using assms(8) by (auto intro!: streak_agrees)
  moreover have "set (mc_total_return r) = {sum_list pnls / balance}"
    if full: "block_size = Some (int (length pnls))" "\<forall>d \<in> set draws. \<exists>s < length pnls. d = [s]"
  proof -
    have "sum_list x = sum_list pnls" if x: "x \<in> set samples" for x
    proof -
      obtain d where d: "d \<in> set draws" "x = map (\<lambda>i. pnls ! i) (sample_indices (length pnls) (map_option nat block_size) d)"
        using x unfolding assms(7) simulated_samples_def by fastforce
      then obtain s where s: "s < length pnls" "d = [s]" using full(2) by blast
      then have "x = map (\<lambda>i. pnls ! i) ([s..<length pnls] @ [0..<s])"
        using d(2) rotation_indices [OF s(1)] by (simp add: sample_indices_def full(1))
      then show ?thesis using sum_rotation [OF s(1)] by simp
    qed
    then have "set (mc_total_return r) = (\<lambda>_. sum_list pnls / balance) ` set samples"
      unfolding r(3) by (simp add: last_equity_path)
    moreover have "samples \<noteq> []" using assms(3) n by auto
    ultimately show ?thesis by (simp add: image_constant_conv)
  qed
  ultimately show ?thesis by blast
qed

lemma monte_carlo_statistics_witness:
  "\<exists>r. run_monte_carlo [10, -20, 5] 100 (1 / 2) (Some 3) [[1], [2]] = Inr r \<and>
     mc_losing_streak r = map longest_losing_streak [[-20, 5, 10], [5, 10, -20]] \<and> set (mc_total_return r) = {- 5 / 100}"
proof -
  have idx: "[0..<3] = [0, 1, 2 :: nat]" by (simp add: upt_conv_Cons)
  have samples: "[[-20, 5, 10], [5, 10, -20]] = simulated_samples [10, -20, 5] (map_option nat (Some 3)) [[1], [2]]"
    by (simp add: simulated_samples_def sample_indices_def idx)
  obtain r where r: "run_monte_carlo [10, -20, 5] 100 (1 / 2) (Some 3) [[1], [2]] = Inr r"
    by (simp add: run_monte_carlo_def Let_def)
  from monte_carlo_statistics [OF r _ _ _ _ _ samples] r show ?thesis by (intro exI [of _ r]) simp
qed

section \<open>Isolated spikes\<close>

text \<open>\<open>flag_isolated_spikes\<close>; the loop runs over the inner points.\<close>

definition is_spike :: "rat \<Rightarrow> rat list \<Rightarrow> nat \<Rightarrow> bool" where
  "is_spike ratio ms i =
     (if i = 0 \<or> length ms \<le> i + 1 then False
      else
        (let left = ms ! (i - 1); center = ms ! i; right = ms ! (i + 1); neighbor_avg = (left + right) / 2 in
         if center \<le> 0 \<or> neighbor_avg \<le> 0 then False
         else left < center \<and> right < center \<and> neighbor_avg * ratio < center))"

definition flag_isolated_spikes :: "rat list \<Rightarrow> rat list \<Rightarrow> rat \<Rightarrow> bool list result" where
  "flag_isolated_spikes param_values metric_values ratio =
     (if length param_values \<noteq> length metric_values
      then Inl (ValueError ''param_values and metric_values must be the same length'')
      else Inr (map (is_spike ratio metric_values) [0..<length metric_values]))"

lemma spikes_isolated: "is_spike ratio ms i \<Longrightarrow> \<not> is_spike ratio ms (Suc i)"
  by (auto simp: is_spike_def Let_def split: if_splits)

end
