(* ===== verification/Research_Cycle.thy ===== *)
theory Research_Cycle
  imports Robustness Dataset_Checks Walk_Forward Promotion_Gate Trial_Ledger Hypothesis_Queue Promotion
begin

text \<open>
  Model of \<open>src/research/orchestrator.py\<close>: one research cycle from the queue to the selected
  candidate, with the row and result types of \<open>reporting.py\<close>, the slice of \<open>read_klines\<close> and the cost
  scenarios. Arguments of the model are the stored candles, the fingerprint of a dataset, the
  backtest engine, the deflated Sharpe ratio, the simulated risk of ruin, the clocks, the free disk
  space and whether the lock is held. The report files, the notes and the log are not modelled. The
  balance is positive and the numbers of the engine's trades and equity are finite; Sharpe ratios are
  finite or NaN, as \<open>compute_equity_metrics\<close> makes them.
\<close>

section \<open>Costs\<close>

text \<open>The fields that keep their defaults are left out.\<close>

record execution_assumptions =
  ea_fee :: num
  ea_slippage :: num
  ea_delay_bars :: int

definition make_execution :: "execution_assumptions \<Rightarrow> execution_assumptions result" where
  "make_execution a =
     (if num_le (ea_fee a) (Fin 0) then Inl (ValueError ''fee_multiplier must be positive'')
      else if num_le (ea_slippage a) (Fin 0) then Inl (ValueError ''slippage_multiplier must be positive'')
      else if ea_delay_bars a < 0 then Inl (ValueError ''entry_delay_bars must be non-negative'')
      else Inr a)"

definition execution_for_scenario :: "cost_scenario \<Rightarrow> execution_assumptions result" where
  "execution_for_scenario s =
     make_execution \<lparr>ea_fee = co_fee s, ea_slippage = co_slippage s, ea_delay_bars = co_delay_bars s\<rparr>"

definition funding_for_scenario :: "cost_scenario \<Rightarrow> funding_assumptions" where
  "funding_for_scenario s = default_funding\<lparr>fa_rate := fa_rate default_funding * num_val (co_funding s)\<rparr>"

section \<open>The surroundings of a cycle\<close>

type_synonym engine =
  "string \<Rightarrow> string \<Rightarrow> string \<Rightarrow> string option \<Rightarrow> string option \<Rightarrow> funding_assumptions \<Rightarrow> execution_assumptions \<Rightarrow>
   variant backtest"

text \<open>
  \<open>ev_engine\<close> takes the strategy, the symbol, the timeframe, the reference symbol and the confirming
  timeframe; \<open>ev_dsr\<close> the period returns and the number of trials; \<open>ev_simulate\<close> the results of the
  trades and the block size, \<open>None\<close> when it raises; \<open>ev_elapsed k\<close> is the time in seconds the clock
  shows before the \<open>k\<close>-th hypothesis, from the start of the cycle.
\<close>

record cycle_env =
  ev_frames :: "string \<Rightarrow> string \<Rightarrow> kline_frame"
  ev_fingerprint :: "string \<Rightarrow> string \<Rightarrow> string"
  ev_engine :: engine
  ev_dsr :: "rat list \<Rightarrow> nat \<Rightarrow> num"
  ev_simulate :: "rat list \<Rightarrow> nat \<Rightarrow> (num \<times> num) option"
  ev_elapsed :: "nat \<Rightarrow> rat"
  ev_created_at :: "string \<Rightarrow> string"
  ev_queue_time :: "int \<Rightarrow> string"
  ev_now :: int
  ev_as_of :: int
  ev_balance :: rat
  ev_lock_held :: bool
  ev_disk_ok :: bool

definition read_klines :: "kline_frame \<Rightarrow> int option \<Rightarrow> int option \<Rightarrow> kline_frame" where
  "read_klines df start stop =
     df\<lparr>kf_rows := filter (\<lambda>k. (case start of None \<Rightarrow> True | Some t \<Rightarrow> t \<le> kl_time k) \<and>
         (case stop of None \<Rightarrow> True | Some t \<Rightarrow> kl_time k \<le> t)) (sort_key kl_time (kf_rows df))\<rparr>"

definition research_strategies :: "string list" where
  "research_strategies =
     [''buy_and_hold'', ''random_entry'', ''trend_following'', ''mean_reversion'', ''momentum'', ''breakout'',
      ''volatility_expansion'', ''cross_asset_momentum'', ''funding_contrarian'', ''liquidity_sweep_confluence'',
      ''funding_aware_multi_horizon_trend'', ''market_cipher_like'', ''breakout_mc_confirmation'']"

text \<open>The factors themselves are the engine's; what matters here is which timeframes have one.\<close>

definition periods_per_year_for_timeframe :: "string \<Rightarrow> rat result" where
  "periods_per_year_for_timeframe timeframe =
     (case map_of [(''1m'', 525960), (''5m'', 105192), (''15m'', 35064), (''1h'', 8766), (''4h'', 4383 / 2), (''1d'', 1461 / 4)]
        timeframe of
        None \<Rightarrow> Inl (ValueError ''no periods-per-year mapping for timeframe'')
      | Some v \<Rightarrow> Inr v)"

section \<open>Helpers of one hypothesis\<close>

definition clip_lookback :: "int \<Rightarrow> int \<Rightarrow> int option \<Rightarrow> int" where
  "clip_lookback earliest stop max_lookback_days =
     (case max_lookback_days of None \<Rightarrow> earliest | Some d \<Rightarrow> max earliest (stop - d * day_ns))"

definition max_pbo_partitions :: int where
  "max_pbo_partitions = 16"

definition pbo_partitions :: "int \<Rightarrow> int \<Rightarrow> int option" where
  "pbo_partitions n_periods max_partitions =
     (let n = min n_periods max_partitions; m = (if n mod 2 \<noteq> 0 then n - 1 else n) in
      if 4 \<le> m then Some m else None)"

fun num_scale :: "rat \<Rightarrow> num \<Rightarrow> num" where
  "num_scale c (Fin x) = Fin (x * c)"
| "num_scale c x = x"

fun perturb_value :: "rat \<Rightarrow> json \<Rightarrow> json" where
  "perturb_value factor (JInt n) = JInt (max 1 (py_round (of_int n * (1 + factor))))"
| "perturb_value factor (JFloat x) = JFloat (num_scale (1 + factor) x)"
| "perturb_value factor v = v"

definition perturb :: "variant \<Rightarrow> rat \<Rightarrow> variant" where
  "perturb params factor = map (\<lambda>(k, v). (k, perturb_value factor v)) params"

definition perturbed_degradation :: "variant backtest \<Rightarrow> wf_window list \<Rightarrow> rat \<Rightarrow> rat \<Rightarrow> variant \<Rightarrow> rat result" where
  "perturbed_degradation run windows balance base_return params =
     bindE (mapE (\<lambda>w. run params (ww_test_start w) (ww_test_end w)) windows) (\<lambda>rs.
       (let combined = concat (map bt_trades rs);
            perturbed_return = (if combined = [] then 0 else sum_list (map net_pnl combined) / balance)
        in Inr ((base_return - perturbed_return) / \<bar>base_return\<bar>)))"

definition perturbation_degradation :: "variant backtest \<Rightarrow> wf_window list \<Rightarrow> rat \<Rightarrow> variant \<Rightarrow> rat \<Rightarrow> rat result" where
  "perturbation_degradation run windows balance base_params base_return =
     (if base_return \<le> 0 \<or> base_params = [] then Inr 1
      else bindE (mapE (\<lambda>factor. perturbed_degradation run windows balance base_return (perturb base_params factor))
             [- 1 / 5, - 1 / 10, 1 / 10, 1 / 5]) (\<lambda>ds. Inr (fold (\<lambda>d worst. max worst d) ds 0)))"

text \<open>The closes of the candles between the first entry and the last exit, in order of time.\<close>

definition entry_lag_return :: "kline_frame \<Rightarrow> trade list \<Rightarrow> rat \<Rightarrow> num" where
  "entry_lag_return frame trades balance =
     (if trades = [] then Fin 0
      else
        (let rows = kf_rows (read_klines frame (Some (Min (set (map td_entry_time trades))))
               (Some (Max (set (map td_exit_time trades)))));
             delayed = (\<lambda>t. case filter (\<lambda>k. td_entry_time t < kl_time k) rows of
               [] \<Rightarrow> Fin 0
             | k # _ \<Rightarrow> num_add (num_mul (Fin (td_quantity t)) (num_add (Fin (td_exit_price t)) (num_neg (kl_close k))))
                 (Fin (- td_fees t - td_funding t)))
         in if rows = [] then Fin 0 else num_div (num_sum (map delayed trades)) (Fin balance)))"

definition sharpe_of :: "backtest_result \<Rightarrow> rat option" where
  "sharpe_of r = (case bt_score r of Some (Fin x) \<Rightarrow> Some x | _ \<Rightarrow> None)"

definition stable_best :: "rat list \<Rightarrow> bool" where
  "stable_best col_means =
     (let best = argmax col_means; neighbors = map (\<lambda>i. col_means ! i) (filter (\<lambda>i. i \<noteq> best) [0..<length col_means]) in
      neighbors \<noteq> [] \<and>
      col_means ! best - Max (set neighbors) < 1 / 2 * (\<bar>col_means ! best\<bar> + 1 / 1000000000))"

definition variant_matrix :: "variant backtest \<Rightarrow> variant list \<Rightarrow> wf_window list \<Rightarrow> rat option list list result" where
  "variant_matrix run grid windows =
     mapE (\<lambda>w. mapE (\<lambda>v. bindE (run v (ww_test_start w) (ww_test_end w)) (\<lambda>r. Inr (sharpe_of r))) grid) windows"

definition pbo_and_stability :: "variant backtest \<Rightarrow> variant list \<Rightarrow> wf_window list \<Rightarrow> (num \<times> bool) result" where
  "pbo_and_stability run grid windows =
     (case pbo_partitions (int (length windows)) max_pbo_partitions of
        None \<Rightarrow> Inr (Fin 1, True)
      | Some n \<Rightarrow>
          if length grid < 2 then Inr (Fin 1, True)
          else bindE (variant_matrix run grid windows) (\<lambda>m.
            (let rows = take (nat n) m in
             if None \<in> set (concat rows) then Inr (Fin 1, False)
             else
               (let matrix = map (map the) rows in
                bindE (probability_of_backtest_overfitting mean matrix (length grid) n) (\<lambda>p.
                  Inr (Fin (pb_probability p),
                    stable_best (map (\<lambda>j. mean (column j matrix)) [0..<length grid])))))))"

text \<open>\<open>max(2, round(n ** 0.5))\<close>: as many \<open>k\<close> as have \<open>k + 1/2\<close> below the square root.\<close>

definition mc_block_size :: "nat \<Rightarrow> nat" where
  "mc_block_size n = max 2 (length (filter (\<lambda>k. k * k + k < n) [0..<n]))"

section \<open>One hypothesis\<close>

record trial_row =
  rw_hypothesis :: string
  rw_family :: string
  rw_strategy :: string
  rw_symbol :: string
  rw_timeframe :: string
  rw_status :: string
  rw_dsr :: "num option"
  rw_pbo :: "num option"
  rw_oos_trades :: "int option"
  rw_adverse_return :: "num option"
  rw_severe_return :: "num option"
  rw_risk_of_ruin :: "num option"
  rw_risk_of_ruin_upper :: "num option"
  rw_reason :: string

record quality_entry =
  qe_available :: bool
  qe_valid :: bool
  qe_rows :: nat
  qe_fingerprint :: "string option"

definition not_available :: quality_entry where
  "not_available = \<lparr>qe_available = False, qe_valid = False, qe_rows = 0, qe_fingerprint = None\<rparr>"

text \<open>What the cycle keeps while it runs: the ledger on disk and the data-quality dictionary.\<close>

record cycle_state =
  cy_ledger :: ledger
  cy_quality :: "(string, quality_entry) dict"

definition set_quality :: "string \<Rightarrow> string \<Rightarrow> quality_entry \<Rightarrow> cycle_state \<Rightarrow> cycle_state" where
  "set_quality s timeframe e st =
     st\<lparr>cy_quality := AList.update (s @ '':'' @ timeframe) e (cy_quality st)\<rparr>"

definition symbol_of :: "queued_hypothesis \<Rightarrow> string" where
  "symbol_of qh = hd (hy_symbols (qh_hypothesis qh))"

definition timeframe_of :: "queued_hypothesis \<Rightarrow> string" where
  "timeframe_of qh = hd (hy_timeframes (qh_hypothesis qh))"

definition empty_row :: "queued_hypothesis \<Rightarrow> string \<Rightarrow> string \<Rightarrow> trial_row" where
  "empty_row qh status reason =
     \<lparr>rw_hypothesis = hy_id (qh_hypothesis qh), rw_family = hy_family (qh_hypothesis qh), rw_strategy = qh_strategy qh,
      rw_symbol = symbol_of qh, rw_timeframe = timeframe_of qh, rw_status = status, rw_dsr = None, rw_pbo = None,
      rw_oos_trades = None, rw_adverse_return = None, rw_severe_return = None, rw_risk_of_ruin = None,
      rw_risk_of_ruin_upper = None, rw_reason = reason\<rparr>"

text \<open>\<open>ledger.record(TrialRecord(trial_id=ledger.next_trial_id(), ...))\<close>\<close>

definition trial_for :: "cycle_env \<Rightarrow> queued_hypothesis \<Rightarrow> string \<Rightarrow> string \<Rightarrow> string option \<Rightarrow> (string, json) dict \<Rightarrow>
    string \<Rightarrow> trial_record" where
  "trial_for ev qh status notes fingerprint metrics i =
     \<lparr>tr_id = i, tr_hypothesis = hy_id (qh_hypothesis qh), tr_parent = hy_parent (qh_hypothesis qh),
      tr_family = hy_family (qh_hypothesis qh), tr_rationale = hy_rationale (qh_hypothesis qh),
      tr_symbol = symbol_of qh, tr_timeframe = timeframe_of qh, tr_cost_scenario = ''adverse'', tr_status = status,
      tr_experiment = None, tr_dataset = fingerprint, tr_holdout_used = False, tr_holdout_id = None,
      tr_metrics = metrics, tr_notes = notes, tr_created_at = ev_created_at ev i\<rparr>"

definition record_for :: "cycle_env \<Rightarrow> queued_hypothesis \<Rightarrow> string \<Rightarrow> string \<Rightarrow> string option \<Rightarrow> (string, json) dict \<Rightarrow>
    cycle_state \<Rightarrow> cycle_state result" where
  "record_for ev qh status notes fingerprint metrics st =
     bindE (next_trial_id (cy_ledger st)) (\<lambda>i.
     bindE (make_trial (trial_for ev qh status notes fingerprint metrics i)) (\<lambda>t.
       Inr (st\<lparr>cy_ledger := record_trial (cy_ledger st) t\<rparr>)))"

type_synonym hypothesis_outcome = "(trial_row \<times> candidate_evidence option) \<times> cycle_state"

definition failed_trial :: "cycle_env \<Rightarrow> queued_hypothesis \<Rightarrow> string \<Rightarrow> string \<Rightarrow> cycle_state \<Rightarrow> hypothesis_outcome result" where
  "failed_trial ev qh reason status st =
     bindE (record_for ev qh status reason None [] st) (\<lambda>st'. Inr ((empty_row qh status reason, None), st'))"

text \<open>
  The check of a second dataset, the reference symbol's or the confirming timeframe's: the reason for
  which the hypothesis fails, if it does.
\<close>

definition check_extra :: "cycle_env \<Rightarrow> string \<Rightarrow> string \<Rightarrow> string \<Rightarrow> string \<Rightarrow> cycle_state \<Rightarrow> (string option \<times> cycle_state) result" where
  "check_extra ev s timeframe no_data invalid st =
     (let df = read_klines (ev_frames ev s timeframe) None (Some (ev_as_of ev)) in
      if kf_rows df = [] then Inr (Some no_data, set_quality s timeframe not_available st)
      else bindE (validate_dataset df timeframe (ev_as_of ev)) (\<lambda>report.
        (let e = \<lparr>qe_available = True, qe_valid = report_is_valid report, qe_rows = length (kf_rows df), qe_fingerprint = None\<rparr>
         in Inr (if report_is_valid report then None else Some invalid, set_quality s timeframe e st))))"

definition check_reference :: "cycle_env \<Rightarrow> queued_hypothesis \<Rightarrow> cycle_state \<Rightarrow> (string option \<times> cycle_state) result" where
  "check_reference ev qh st =
     (case qh_reference qh of
        None \<Rightarrow> Inr (None, st)
      | Some s \<Rightarrow> check_extra ev s (timeframe_of qh)
          (''no data available for reference symbol '' @ s @ ''/'' @ timeframe_of qh)
          (''data quality check failed for reference symbol '' @ s) st)"

definition check_higher :: "cycle_env \<Rightarrow> queued_hypothesis \<Rightarrow> cycle_state \<Rightarrow> (string option \<times> cycle_state) result" where
  "check_higher ev qh st =
     (case qh_higher qh of
        None \<Rightarrow> Inr (None, st)
      | Some t \<Rightarrow> check_extra ev (symbol_of qh) t
          (''no data available for confirming timeframe '' @ symbol_of qh @ ''/'' @ t)
          (''data quality check failed for confirming timeframe '' @ symbol_of qh @ ''/'' @ t) st)"

text \<open>The two stress tests, \<open>None\<close> when they raise or the trial has not a positive return.\<close>

definition engine_for :: "cycle_env \<Rightarrow> queued_hypothesis \<Rightarrow> cost_scenario \<Rightarrow> execution_assumptions \<Rightarrow> variant backtest" where
  "engine_for ev qh scenario execution =
     ev_engine ev (qh_strategy qh) (symbol_of qh) (timeframe_of qh) (qh_reference qh) (qh_higher qh)
       (funding_for_scenario scenario) execution"

definition severe_return :: "cycle_env \<Rightarrow> research_protocol \<Rightarrow> queued_hypothesis \<Rightarrow> wf_window list \<Rightarrow> num option" where
  "severe_return ev p qh windows =
     (case bindE (execution_for_scenario (co_severe (rp_costs p))) (\<lambda>x.
         run_walk_forward [] (engine_for ev qh (co_severe (rp_costs p)) x) (qh_grid qh) windows (ev_balance ev)) of
        Inl _ \<Rightarrow> None
      | Inr wfr \<Rightarrow> Some (Fin (tm_net_return (wr_metrics wfr) / ev_balance ev)))"

text \<open>The deflated Sharpe ratio, 0 unless there are two returns that differ.\<close>

definition cycle_dsr :: "cycle_env \<Rightarrow> ledger \<Rightarrow> string \<Rightarrow> rat list \<Rightarrow> num result" where
  "cycle_dsr ev rows family returns =
     (if 2 \<le> length returns \<and> (\<exists>r \<in> set returns. r \<noteq> hd returns)
      then bindE (global_trial_count rows (Some family)) (\<lambda>n. Inr (ev_dsr ev returns (max 1 n)))
      else Inr (Fin 0))"

definition run_status :: "rat \<Rightarrow> string" where
  "run_status aggregate = (if 0 < aggregate then ''PASSED'' else ''FAILED_GATE'')"

definition optional_number :: "num option \<Rightarrow> json" where
  "optional_number x = (case x of None \<Rightarrow> JNull | Some v \<Rightarrow> JFloat v)"

text \<open>\<open>_run_hypothesis\<close> after a walk-forward run with trades.\<close>

definition judge_run :: "cycle_env \<Rightarrow> research_protocol \<Rightarrow> queued_hypothesis \<Rightarrow> variant backtest \<Rightarrow> wf_window list \<Rightarrow>
    variant wf_result \<Rightarrow> bool \<Rightarrow> cycle_state \<Rightarrow> hypothesis_outcome result" where
  "judge_run ev p qh run windows wfr data_ok st =
     (let balance = ev_balance ev; metrics = wr_metrics wfr; aggregate = tm_net_return metrics / balance;
          pnls = map net_pnl (wr_trades wfr); returns = map snd (pct_changes (wr_equity wfr))
      in bindE (cycle_dsr ev (cy_ledger st) (hy_family (qh_hypothesis qh)) returns) (\<lambda>dsr.
         bindE (pbo_and_stability run (qh_grid qh) windows) (\<lambda>(pbo, stable).
         bindE (perturbation_degradation run windows balance (if wr_selected wfr = [] then [] else last (wr_selected wfr))
                  aggregate) (\<lambda>degradation.
           (let passed = run_status aggregate = ''PASSED'';
                severe = (if passed then severe_return ev p qh windows else None);
                simulated = (if passed then ev_simulate ev pnls (mc_block_size (length pnls)) else None);
                fingerprint = ev_fingerprint ev (symbol_of qh) (timeframe_of qh);
                evidence =
                  \<lparr>ce_oos_trades = int (tm_trades metrics), ce_symbols_positive = (if 0 < aggregate then 1 else 0),
                   ce_adverse_return = Fin aggregate, ce_fold_returns = map Fin (fold_returns (wr_trades wfr) windows balance),
                   ce_trade_returns = map (\<lambda>x. Fin (x / balance)) pnls, ce_dsr = dsr, ce_pbo = pbo,
                   ce_parameter_stable = stable, ce_max_drawdown = Fin \<bar>max_drawdown (wr_equity wfr)\<bar>,
                   ce_perturbation = Fin degradation,
                   ce_entry_lag_return = entry_lag_return (ev_frames ev (symbol_of qh) (timeframe_of qh)) (wr_trades wfr) balance,
                   ce_funding_applied = wr_funding wfr, ce_mark_to_market = wr_marked wfr, ce_data_complete = data_ok,
                   ce_severe_return = severe, ce_risk_of_ruin = map_option fst simulated,
                   ce_risk_of_ruin_upper = map_option snd simulated\<rparr>;
                summary =
                  [(''oos_trades'', JInt (int (tm_trades metrics))), (''aggregate_return'', JFloat (Fin aggregate)),
                   (''dsr'', JFloat dsr), (''pbo'', JFloat pbo), (''severe_aggregate_return'', optional_number severe),
                   (''monte_carlo_risk_of_ruin'', optional_number (map_option fst simulated)),
                   (''monte_carlo_risk_of_ruin_upper_bound_ci95'', optional_number (map_option snd simulated))];
                row = (empty_row qh (run_status aggregate)
                         (if passed then ''see promotion_gate checks'' else ''non-positive OOS return''))
                  \<lparr>rw_dsr := Some dsr, rw_pbo := Some pbo, rw_oos_trades := Some (int (tm_trades metrics)),
                   rw_adverse_return := Some (Fin aggregate), rw_severe_return := severe,
                   rw_risk_of_ruin := map_option fst simulated, rw_risk_of_ruin_upper := map_option snd simulated\<rparr>
            in bindE (record_for ev qh (run_status aggregate) [] (Some fingerprint) summary st) (\<lambda>st'.
                 Inr ((row, Some evidence), st')))))))"

text \<open>From the windows on.\<close>

definition run_windows :: "cycle_env \<Rightarrow> research_protocol \<Rightarrow> queued_hypothesis \<Rightarrow> wf_window list \<Rightarrow> bool \<Rightarrow> cycle_state \<Rightarrow>
    hypothesis_outcome result" where
  "run_windows ev p qh windows data_ok st =
     (if windows = [] then failed_trial ev qh ''insufficient history for train/validation/test windows'' ''FAILED_GATE'' st
      else if qh_strategy qh \<notin> set research_strategies then Inl (KeyError (qh_strategy qh))
      else
        bindE (periods_per_year_for_timeframe (timeframe_of qh)) (\<lambda>_.
        bindE (execution_for_scenario (co_adverse (rp_costs p))) (\<lambda>execution.
          (let run = engine_for ev qh (co_adverse (rp_costs p)) execution in
           case run_walk_forward [] run (qh_grid qh) windows (ev_balance ev) of
             Inl _ \<Rightarrow> failed_trial ev qh ''walk-forward run errored'' ''ERROR'' st
           | Inr wfr \<Rightarrow>
               if tm_trades (wr_metrics wfr) = 0 then failed_trial ev qh ''zero OOS trades'' ''FAILED_GATE'' st
               else judge_run ev p qh run windows wfr data_ok st))))"

definition hypothesis_windows :: "research_protocol \<Rightarrow> kline_frame \<Rightarrow> wf_window list result" where
  "hypothesis_windows p df =
     (let last_ts = Max (set (times df)); sp = rp_data_split p;
          stop = (if hc_enabled (rp_holdout p) then last_ts - hc_days (rp_holdout p) * day_ns else last_ts);
          start = clip_lookback (Min (set (times df))) stop (ds_max_lookback_days sp)
      in generate_windows start stop (ds_train_days sp * day_ns) (ds_validation_days sp * day_ns)
           (ds_test_days sp * day_ns))"

definition run_hypothesis :: "cycle_env \<Rightarrow> research_protocol \<Rightarrow> queued_hypothesis \<Rightarrow> cycle_state \<Rightarrow> hypothesis_outcome result" where
  "run_hypothesis ev p qh st =
     (let s = symbol_of qh; timeframe = timeframe_of qh;
          df = read_klines (ev_frames ev s timeframe) None (Some (ev_as_of ev))
      in
      if kf_rows df = []
      then failed_trial ev qh ''no data available for this symbol/timeframe'' ''FAILED_GATE'' (set_quality s timeframe not_available st)
      else
        bindE (validate_dataset df timeframe (ev_as_of ev)) (\<lambda>report.
          (let st = set_quality s timeframe
                 \<lparr>qe_available = True, qe_valid = report_is_valid report, qe_rows = length (kf_rows df),
                  qe_fingerprint = Some (ev_fingerprint ev s timeframe)\<rparr> st
           in
           if \<not> report_is_valid report
           then failed_trial ev qh ''data quality check failed (gaps/duplicates/non-UTC/anomalous prices)'' ''FAILED_GATE'' st
           else
             bindE (check_reference ev qh st) (\<lambda>(no_reference, st).
               case no_reference of
                 Some reason \<Rightarrow> failed_trial ev qh reason ''FAILED_GATE'' st
               | None \<Rightarrow>
                   bindE (check_higher ev qh st) (\<lambda>(no_higher, st).
                     case no_higher of
                       Some reason \<Rightarrow> failed_trial ev qh reason ''FAILED_GATE'' st
                     | None \<Rightarrow>
                         bindE (hypothesis_windows p df) (\<lambda>windows.
                           run_windows ev p qh windows (report_is_valid report) st))))))"

section \<open>The cycle\<close>

type_synonym raw_result = "queued_hypothesis \<times> trial_row \<times> candidate_evidence option"

text \<open>Pass 1. What was written to the ledger stays there when a hypothesis raises.\<close>

fun run_all :: "cycle_env \<Rightarrow> research_protocol \<Rightarrow> nat \<Rightarrow> queued_hypothesis list \<Rightarrow> cycle_state \<Rightarrow>
    cycle_state \<times> (raw_result list \<times> trial_row list) result" where
  "run_all ev p k [] st = (st, Inr ([], []))"
| "run_all ev p k (qh # qhs) st =
     (if of_int (hb_max_wall_minutes (rp_budget p)) * 60 < ev_elapsed ev k
      then
        (case run_all ev p (Suc k) qhs st of
           (st', Inl e) \<Rightarrow> (st', Inl e)
         | (st', Inr (raw, rejected)) \<Rightarrow>
             (st', Inr (raw, empty_row qh ''REJECTED'' ''cycle wall-clock budget exhausted before this hypothesis ran'' # rejected)))
      else
        (case run_hypothesis ev p qh st of
           Inl e \<Rightarrow> (st, Inl e)
         | Inr ((row, evidence), st1) \<Rightarrow>
             (case run_all ev p (Suc k) qhs st1 of
                (st', Inl e) \<Rightarrow> (st', Inl e)
              | (st', Inr (raw, rejected)) \<Rightarrow> (st', Inr ((qh, row, evidence) # raw, rejected)))))"

definition gained :: "raw_result \<Rightarrow> bool" where
  "gained r \<longleftrightarrow> (case r of (_, _, None) \<Rightarrow> False | (_, _, Some e) \<Rightarrow> num_lt (Fin 0) (ce_adverse_return e))"

definition positive_symbols_by_strategy :: "raw_result list \<Rightarrow> (string, string set) dict" where
  "positive_symbols_by_strategy raw =
     fold (\<lambda>(qh, row, e) d. if gained (qh, row, e)
             then AList.update (qh_strategy qh) (insert (symbol_of qh) (dict_default d (qh_strategy qh) {})) d else d) raw []"

text \<open>The evidence with the number of symbols its strategy gained on in this cycle.\<close>

definition corrected :: "raw_result list \<Rightarrow> queued_hypothesis \<Rightarrow> candidate_evidence \<Rightarrow> candidate_evidence" where
  "corrected raw qh e =
     e\<lparr>ce_symbols_positive := int (card (dict_default (positive_symbols_by_strategy raw) (qh_strategy qh) {}))\<rparr>"

record pass2_state =
  p2_passed :: "trial_row list"
  p2_rejected :: "trial_row list"
  p2_best :: "(trial_row \<times> candidate_evidence) option"

text \<open>The details of the checks are left out of the reason.\<close>

definition gate_reasons :: "gate_decision \<Rightarrow> string" where
  "gate_reasons d = join ''; '' (map ck_name (failed_checks d))"

definition judge :: "research_protocol \<Rightarrow> raw_result list \<Rightarrow> raw_result \<Rightarrow> pass2_state \<Rightarrow> pass2_state" where
  "judge p raw r st =
     (case r of
        (qh, row, None) \<Rightarrow> st\<lparr>p2_rejected := p2_rejected st @ [row]\<rparr>
      | (qh, row, Some e0) \<Rightarrow>
          (let e = corrected raw qh e0; d = evaluate_candidate e (rp_gate p) in
           if gd_passed d
           then st\<lparr>p2_best := (case p2_best st of
                       None \<Rightarrow> Some (row, e)
                     | Some (row', e') \<Rightarrow> if num_lt (ce_dsr e') (ce_dsr e) then Some (row, e) else p2_best st),
                   p2_passed := p2_passed st @ [row]\<rparr>
           else st\<lparr>p2_rejected := p2_rejected st @ [row\<lparr>rw_status := ''FAILED_GATE'', rw_reason := gate_reasons d\<rparr>]\<rparr>))"

definition judge_all :: "research_protocol \<Rightarrow> raw_result list \<Rightarrow> trial_row list \<Rightarrow> pass2_state" where
  "judge_all p raw rejected = fold (judge p raw) raw \<lparr>p2_passed = [], p2_rejected = rejected, p2_best = None\<rparr>"

record cycle_result =
  cr_status :: string
  cr_quality :: "(string, quality_entry) dict"
  cr_skipped :: "(string \<times> string) list"
  cr_passed :: "trial_row list"
  cr_rejected :: "trial_row list"
  cr_selected :: "string option"
  cr_trial_count :: nat
  cr_robustness :: "(string, num \<times> num option) dict"
  cr_error :: "string option"

definition error_result :: "string \<Rightarrow> cycle_result" where
  "error_result e =
     \<lparr>cr_status = ''ERROR'', cr_quality = [], cr_skipped = [], cr_passed = [], cr_rejected = [], cr_selected = None,
      cr_trial_count = 0, cr_robustness = [], cr_error = Some e\<rparr>"

definition robustness_of :: "trial_row list \<Rightarrow> (string, num \<times> num option) dict" where
  "robustness_of rows =
     fold (\<lambda>row d. case rw_dsr row of None \<Rightarrow> d | Some v \<Rightarrow> AList.update (rw_hypothesis row) (v, rw_pbo row) d) rows []"

definition register_best :: "cycle_env \<Rightarrow> (trial_row \<times> candidate_evidence) option \<Rightarrow> registry \<Rightarrow> (registry \<times> string option) result" where
  "register_best ev best reg =
     (case best of
        None \<Rightarrow> Inr (reg, None)
      | Some (row, _) \<Rightarrow>
          bindE (register_research_candidate reg (rw_hypothesis row) ''cleared full promotion gate this cycle'' [PriceAuction] (ev_now ev))
            (\<lambda>(reg', c). Inr (reg', Some (rw_hypothesis row))))"

text \<open>The ledger and the registry on disk, and what \<open>run_cycle\<close> returns or raises.\<close>

definition run_cycle :: "cycle_env \<Rightarrow> research_protocol \<Rightarrow> ledger \<Rightarrow> registry \<Rightarrow> ledger \<times> registry \<times> cycle_result result" where
  "run_cycle ev p led reg =
     (if ev_lock_held ev then (led, reg, Inr (error_result ''another research cycle holds the lock''))
      else if \<not> ev_disk_ok ev then (led, reg, Inr (error_result ''insufficient free disk space for a research cycle''))
      else
        (case build_hypothesis_queue p 1 (ev_queue_time ev) of
           Inl e \<Rightarrow> (led, reg, Inl e)
         | Inr queue \<Rightarrow>
             (case run_all ev p 0 (hq_queued queue) \<lparr>cy_ledger = led, cy_quality = []\<rparr> of
                (st, Inl e) \<Rightarrow> (cy_ledger st, reg, Inl e)
              | (st, Inr (raw, rejected)) \<Rightarrow>
                  (let j = judge_all p raw rejected in
                   case register_best ev (p2_best j) reg of
                     Inl e \<Rightarrow> (cy_ledger st, reg, Inl e)
                   | Inr (reg', selected) \<Rightarrow>
                       (cy_ledger st, reg',
                        bindE (global_trial_count (cy_ledger st) None) (\<lambda>n.
                          Inr \<lparr>cr_status = (if selected = None \<or> selected = Some [] then ''NO_CANDIDATE'' else ''CANDIDATE''),
                               cr_quality = cy_quality st, cr_skipped = hq_skipped queue, cr_passed = p2_passed j,
                               cr_rejected = p2_rejected j, cr_selected = selected, cr_trial_count = n,
                               cr_robustness = robustness_of (p2_passed j @ p2_rejected j), cr_error = None\<rparr>))))))"

section \<open>What one hypothesis leaves behind\<close>

abbreviation id_of :: "queued_hypothesis \<Rightarrow> string" where
  "id_of qh \<equiv> hy_id (qh_hypothesis qh)"

text \<open>The row of a hypothesis speaks of it and of its evidence.\<close>

fun raw_ok :: "raw_result \<Rightarrow> bool" where
  "raw_ok (qh, row, e) \<longleftrightarrow>
     rw_hypothesis row = id_of qh \<and> rw_strategy row = qh_strategy qh \<and> rw_symbol row = symbol_of qh \<and>
     rw_dsr row = map_option ce_dsr e \<and> rw_adverse_return row = map_option ce_adverse_return e"

text \<open>
  What each field of the evidence has been measured on: the out-of-sample trades and the equity of a
  walk-forward run, and further runs of the same engine.
\<close>

definition measured_on :: "cycle_env \<Rightarrow> ledger \<Rightarrow> queued_hypothesis \<Rightarrow> variant backtest \<Rightarrow> wf_window list \<Rightarrow>
    variant wf_result \<Rightarrow> candidate_evidence \<Rightarrow> bool" where
  "measured_on ev rows qh run windows wfr e \<longleftrightarrow>
     (let balance = ev_balance ev; aggregate = tm_net_return (wr_metrics wfr) / balance in
       ce_oos_trades e = int (tm_trades (wr_metrics wfr)) \<and>
       ce_adverse_return e = Fin aggregate \<and>
       ce_fold_returns e = map Fin (fold_returns (wr_trades wfr) windows balance) \<and>
       ce_trade_returns e = map (\<lambda>t. Fin (net_pnl t / balance)) (wr_trades wfr) \<and>
       cycle_dsr ev rows (hy_family (qh_hypothesis qh)) (map snd (pct_changes (wr_equity wfr))) = Inr (ce_dsr e) \<and>
       pbo_and_stability run (qh_grid qh) windows = Inr (ce_pbo e, ce_parameter_stable e) \<and>
       ce_max_drawdown e = Fin \<bar>max_drawdown (wr_equity wfr)\<bar> \<and>
       (\<exists>d. perturbation_degradation run windows balance (if wr_selected wfr = [] then [] else last (wr_selected wfr))
              aggregate = Inr d \<and> ce_perturbation e = Fin d) \<and>
       ce_entry_lag_return e =
         entry_lag_return (ev_frames ev (symbol_of qh) (timeframe_of qh)) (wr_trades wfr) balance \<and>
       ce_funding_applied e = wr_funding wfr \<and> ce_mark_to_market e = wr_marked wfr)"

text \<open>
  The evidence of a hypothesis, with \<open>rows\<close> the ledger when it ran: its candles are a valid dataset, and
  the rest was measured on the walk-forward run over the windows of those candles at adverse costs,
  which traded.
\<close>

definition measured :: "cycle_env \<Rightarrow> research_protocol \<Rightarrow> ledger \<Rightarrow> queued_hypothesis \<Rightarrow> candidate_evidence \<Rightarrow> bool" where
  "measured ev p rows qh e \<longleftrightarrow>
     (let df = read_klines (ev_frames ev (symbol_of qh) (timeframe_of qh)) None (Some (ev_as_of ev)) in
      (\<exists>report. validate_dataset df (timeframe_of qh) (ev_as_of ev) = Inr report \<and> report_is_valid report) \<and>
      ce_data_complete e \<and>
      (\<exists>windows execution wfr.
         hypothesis_windows p df = Inr windows \<and> execution_for_scenario (co_adverse (rp_costs p)) = Inr execution \<and>
         run_walk_forward [] (engine_for ev qh (co_adverse (rp_costs p)) execution) (qh_grid qh) windows (ev_balance ev) = Inr wfr \<and>
         0 < tm_trades (wr_metrics wfr) \<and>
         measured_on ev rows qh (engine_for ev qh (co_adverse (rp_costs p)) execution) windows wfr e))"

text \<open>The ledger after a hypothesis: one trial more, its own.\<close>

definition trial_of :: "trial_record \<Rightarrow> queued_hypothesis \<Rightarrow> bool" where
  "trial_of t qh \<longleftrightarrow>
     tr_hypothesis t = id_of qh \<and> tr_family t = hy_family (qh_hypothesis qh) \<and> tr_symbol t = symbol_of qh \<and>
     tr_timeframe t = timeframe_of qh \<and> tr_status t \<in> {''PASSED'', ''FAILED_GATE'', ''ERROR''}"

definition one_trial :: "queued_hypothesis \<Rightarrow> cycle_state \<Rightarrow> hypothesis_outcome \<Rightarrow> bool" where
  "one_trial qh st out \<longleftrightarrow>
     (case out of ((row, e), st') \<Rightarrow> raw_ok (qh, row, e) \<and>
        (\<exists>t. trial_of t qh \<and> cy_ledger st' = cy_ledger st @ [trial_to_json t]))"

lemma record_for_Inr:
  "record_for ev qh status notes fp metrics st = Inr st' \<Longrightarrow> status \<in> {''PASSED'', ''FAILED_GATE'', ''ERROR''} \<Longrightarrow>
   \<exists>t. trial_of t qh \<and> cy_ledger st' = cy_ledger st @ [trial_to_json t]"
proof -
  assume "record_for ev qh status notes fp metrics st = Inr st'" and s: "status \<in> {''PASSED'', ''FAILED_GATE'', ''ERROR''}"
  then obtain i where "st' = st\<lparr>cy_ledger := cy_ledger st @ [trial_to_json (trial_for ev qh status notes fp metrics i)]\<rparr>"
    by (auto simp: record_for_def bindE_eq_Inr make_trial_def record_trial_def)
  then show ?thesis using s
    by (intro exI [of _ "trial_for ev qh status notes fp metrics i"]) (simp add: trial_for_def trial_of_def)
qed

lemma failed_trial_one:
  "failed_trial ev qh reason status st = Inr out \<Longrightarrow> status \<in> {''FAILED_GATE'', ''ERROR''} \<Longrightarrow>
   one_trial qh st out \<and> snd (fst out) = None"
  by (auto simp: failed_trial_def bindE_eq_Inr one_trial_def empty_row_def dest!: record_for_Inr)

lemma judge_run_one: "judge_run ev p qh run windows wfr data_ok st = Inr out \<Longrightarrow> one_trial qh st out"
  unfolding judge_run_def Let_def
  by (auto simp: bindE_eq_Inr one_trial_def empty_row_def run_status_def dest!: record_for_Inr split: if_splits)

lemma judge_run_measured:
  "judge_run ev p qh run windows wfr data_ok st = Inr ((row, Some e), st') \<Longrightarrow>
   measured_on ev (cy_ledger st) qh run windows wfr e \<and> ce_data_complete e = data_ok"
  unfolding judge_run_def Let_def by (auto simp: bindE_eq_Inr measured_on_def Let_def)

lemma run_windows_one:
  assumes "run_windows ev p qh windows data_ok st = Inr out"
  shows "one_trial qh st out" "snd (fst out) = Some e \<Longrightarrow> ce_data_complete e = data_ok \<and>
    (\<exists>x wfr. execution_for_scenario (co_adverse (rp_costs p)) = Inr x \<and>
       run_walk_forward [] (engine_for ev qh (co_adverse (rp_costs p)) x) (qh_grid qh) windows (ev_balance ev) = Inr wfr \<and>
       0 < tm_trades (wr_metrics wfr) \<and>
       measured_on ev (cy_ledger st) qh (engine_for ev qh (co_adverse (rp_costs p)) x) windows wfr e)"
proof -
  have "one_trial qh st out \<and> (snd (fst out) = Some e \<longrightarrow> ce_data_complete e = data_ok \<and>
    (\<exists>x wfr. execution_for_scenario (co_adverse (rp_costs p)) = Inr x \<and>
       run_walk_forward [] (engine_for ev qh (co_adverse (rp_costs p)) x) (qh_grid qh) windows (ev_balance ev) = Inr wfr \<and>
       0 < tm_trades (wr_metrics wfr) \<and>
       measured_on ev (cy_ledger st) qh (engine_for ev qh (co_adverse (rp_costs p)) x) windows wfr e))" (is ?goal)
  proof (cases "windows = []")
    case True
    with assms failed_trial_one show ?goal by (fastforce simp: run_windows_def)
  next
    case False
    with assms obtain x where x: "execution_for_scenario (co_adverse (rp_costs p)) = Inr x"
      "(case run_walk_forward [] (engine_for ev qh (co_adverse (rp_costs p)) x) (qh_grid qh) windows (ev_balance ev) of
        Inl _ \<Rightarrow> failed_trial ev qh ''walk-forward run errored'' ''ERROR'' st
      | Inr wfr \<Rightarrow> if tm_trades (wr_metrics wfr) = 0 then failed_trial ev qh ''zero OOS trades'' ''FAILED_GATE'' st
          else judge_run ev p qh (engine_for ev qh (co_adverse (rp_costs p)) x) windows wfr data_ok st) = Inr out"
      by (auto simp: run_windows_def Let_def bindE_eq_Inr split: if_splits)
    show ?goal
    proof (cases "run_walk_forward [] (engine_for ev qh (co_adverse (rp_costs p)) x) (qh_grid qh) windows (ev_balance ev)")
      case (Inl e)
      with x(2) failed_trial_one show ?goal by fastforce
    next
      case (Inr wfr)
      show ?goal
      proof (cases "tm_trades (wr_metrics wfr) = 0")
        case True
        with x(2) Inr failed_trial_one show ?goal by fastforce
      next
        case False
        then have j: "judge_run ev p qh (engine_for ev qh (co_adverse (rp_costs p)) x) windows wfr data_ok st = Inr out"
          using x(2) Inr by simp
        obtain row eo st' where out: "out = ((row, eo), st')" by (metis prod.exhaust)
        show ?goal using judge_run_one [OF j] judge_run_measured [of ev p qh _ windows wfr data_ok st row e st'] j x(1) Inr False
          by (cases "eo = Some e") (auto simp: out)
      qed
    qed
  qed
  then show "one_trial qh st out" "snd (fst out) = Some e \<Longrightarrow> ce_data_complete e = data_ok \<and>
    (\<exists>x wfr. execution_for_scenario (co_adverse (rp_costs p)) = Inr x \<and>
       run_walk_forward [] (engine_for ev qh (co_adverse (rp_costs p)) x) (qh_grid qh) windows (ev_balance ev) = Inr wfr \<and>
       0 < tm_trades (wr_metrics wfr) \<and>
       measured_on ev (cy_ledger st) qh (engine_for ev qh (co_adverse (rp_costs p)) x) windows wfr e)" by blast+
qed

lemma set_quality_ledger [simp]: "cy_ledger (set_quality s timeframe e st) = cy_ledger st"
  by (simp add: set_quality_def)

lemma check_extra_ledger: "check_extra ev s timeframe a b st = Inr (c, st') \<Longrightarrow> cy_ledger st' = cy_ledger st"
  by (auto simp: check_extra_def Let_def bindE_eq_Inr split: if_splits)

lemma check_ledger:
  "check_reference ev qh st = Inr (c, st') \<Longrightarrow> cy_ledger st' = cy_ledger st"
  "check_higher ev qh st = Inr (c, st') \<Longrightarrow> cy_ledger st' = cy_ledger st"
  by (auto simp: check_reference_def check_higher_def split: option.splits dest: check_extra_ledger)

lemma one_trial_ledger: "one_trial qh st out \<Longrightarrow> cy_ledger st = cy_ledger st' \<Longrightarrow> one_trial qh st' out"
  by (simp add: one_trial_def)

text \<open>What a hypothesis leaves: its trial, and evidence that was measured.\<close>

definition leaves :: "cycle_env \<Rightarrow> research_protocol \<Rightarrow> queued_hypothesis \<Rightarrow> cycle_state \<Rightarrow> hypothesis_outcome \<Rightarrow> bool" where
  "leaves ev p qh st out \<longleftrightarrow>
     one_trial qh st out \<and> (\<forall>e. snd (fst out) = Some e \<longrightarrow> measured ev p (cy_ledger st) qh e)"

lemma failed_trial_leaves:
  "failed_trial ev qh reason status st' = Inr out \<Longrightarrow> status \<in> {''FAILED_GATE'', ''ERROR''} \<Longrightarrow>
   cy_ledger st' = cy_ledger st \<Longrightarrow> leaves ev p qh st out"
  using failed_trial_one [of ev qh reason status st' out] one_trial_ledger [of qh st' out st] by (simp add: leaves_def)

lemma run_windows_leaves:
  assumes "run_windows ev p qh windows True st' = Inr out" "cy_ledger st' = cy_ledger st"
    "hypothesis_windows p (read_klines (ev_frames ev (symbol_of qh) (timeframe_of qh)) None (Some (ev_as_of ev))) = Inr windows"
    "validate_dataset (read_klines (ev_frames ev (symbol_of qh) (timeframe_of qh)) None (Some (ev_as_of ev)))
       (timeframe_of qh) (ev_as_of ev) = Inr report" "report_is_valid report"
  shows "leaves ev p qh st out"
  using run_windows_one [OF assms(1)] one_trial_ledger [of qh st' out st] assms(2-5)
  unfolding leaves_def measured_def Let_def by (metis (no_types, lifting))

lemma run_hypothesis_leaves:
  assumes "run_hypothesis ev p qh st = Inr out"
  shows "leaves ev p qh st out"
proof -
  let ?s = "symbol_of qh" and ?t = "timeframe_of qh"
  let ?df = "read_klines (ev_frames ev ?s ?t) None (Some (ev_as_of ev))"
  note failed = failed_trial_leaves
  show ?thesis
  proof (cases "kf_rows ?df = []")
    case True
    with assms have "failed_trial ev qh ''no data available for this symbol/timeframe'' ''FAILED_GATE'' (set_quality ?s ?t not_available st) = Inr out"
      by (simp add: run_hypothesis_def Let_def)
    then show ?thesis by (rule failed) simp_all
  next
    case False
    then obtain report where report: "validate_dataset ?df ?t (ev_as_of ev) = Inr report"
      using assms by (auto simp: run_hypothesis_def Let_def bindE_eq_Inr)
    define st1 where "st1 = set_quality ?s ?t \<lparr>qe_available = True, qe_valid = report_is_valid report,
      qe_rows = length (kf_rows ?df), qe_fingerprint = Some (ev_fingerprint ev ?s ?t)\<rparr> st"
    have st1: "cy_ledger st1 = cy_ledger st" by (simp add: st1_def)
    have rest: "(if \<not> report_is_valid report
        then failed_trial ev qh ''data quality check failed (gaps/duplicates/non-UTC/anomalous prices)'' ''FAILED_GATE'' st1
        else bindE (check_reference ev qh st1) (\<lambda>(no_reference, st).
          case no_reference of
            Some reason \<Rightarrow> failed_trial ev qh reason ''FAILED_GATE'' st
          | None \<Rightarrow> bindE (check_higher ev qh st) (\<lambda>(no_higher, st).
              case no_higher of
                Some reason \<Rightarrow> failed_trial ev qh reason ''FAILED_GATE'' st
              | None \<Rightarrow> bindE (hypothesis_windows p ?df) (\<lambda>windows.
                  run_windows ev p qh windows (report_is_valid report) st)))) = Inr out"
      using assms False report unfolding run_hypothesis_def Let_def st1_def by (simp only: if_False bindE_simps)
    show ?thesis
    proof (cases "report_is_valid report")
      case False
      with rest show ?thesis using st1 by (auto intro: failed)
    next
      case True
      with rest obtain c2 st2 where ref: "check_reference ev qh st1 = Inr (c2, st2)" by (auto simp: bindE_eq_Inr)
      then have st2: "cy_ledger st2 = cy_ledger st" using check_ledger(1) st1 by metis
      show ?thesis
      proof (cases c2)
        case (Some reason)
        then show ?thesis using rest True ref st2 by (auto intro: failed)
      next
        case None
        with rest True ref obtain c3 st3 where high: "check_higher ev qh st2 = Inr (c3, st3)" by (auto simp: bindE_eq_Inr)
        then have st3: "cy_ledger st3 = cy_ledger st" using check_ledger(2) st2 by metis
        show ?thesis
        proof (cases c3)
          case (Some reason)
          then show ?thesis using rest True ref None high st3 by (auto intro: failed)
        next
          case None
          then obtain windows where w: "hypothesis_windows p ?df = Inr windows" "run_windows ev p qh windows True st3 = Inr out"
            using rest True ref \<open>c2 = None\<close> high by (auto simp: bindE_eq_Inr)
          show ?thesis by (rule run_windows_leaves [OF w(2) st3 w(1) report True])
        qed
      qed
    qed
  qed
qed

text \<open>
  The hypotheses that run are those of the queue at which the clock has not passed the budget; the
  others are reported as rejected.
\<close>

definition out_of_time :: "cycle_env \<Rightarrow> research_protocol \<Rightarrow> nat \<Rightarrow> bool" where
  "out_of_time ev p k \<longleftrightarrow> of_int (hb_max_wall_minutes (rp_budget p)) * 60 < ev_elapsed ev k"

definition hypotheses_run :: "cycle_env \<Rightarrow> research_protocol \<Rightarrow> nat \<Rightarrow> queued_hypothesis list \<Rightarrow> queued_hypothesis list" where
  "hypotheses_run ev p k qhs = map snd (filter (\<lambda>(i, qh). \<not> out_of_time ev p i) (enumerate k qhs))"

definition rows_out_of_time :: "cycle_env \<Rightarrow> research_protocol \<Rightarrow> nat \<Rightarrow> queued_hypothesis list \<Rightarrow> trial_row list" where
  "rows_out_of_time ev p k qhs =
     map (\<lambda>(i, qh). empty_row qh ''REJECTED'' ''cycle wall-clock budget exhausted before this hypothesis ran'')
       (filter (\<lambda>(i, qh). out_of_time ev p i) (enumerate k qhs))"

text \<open>A raw result is of the cycle: what its hypothesis left when it ran.\<close>

definition raw_measured :: "cycle_env \<Rightarrow> research_protocol \<Rightarrow> ledger \<Rightarrow> ledger \<Rightarrow> raw_result \<Rightarrow> bool" where
  "raw_measured ev p led led' r \<longleftrightarrow>
     (\<forall>e. snd (snd r) = Some e \<longrightarrow> (\<exists>rows. prefix led rows \<and> prefix rows led' \<and> measured ev p rows (fst r) e))"

lemma raw_measured_earlier: "raw_measured ev p led1 led' r \<Longrightarrow> prefix led led1 \<Longrightarrow> raw_measured ev p led led' r"
  unfolding raw_measured_def by (meson prefix_order.trans)

text \<open>
  Pass 1: the ledger grows by exactly the trials of the hypotheses that ran; if one raises, by those of
  the hypotheses before it.
\<close>

definition accounted :: "cycle_env \<Rightarrow> research_protocol \<Rightarrow> nat \<Rightarrow> queued_hypothesis list \<Rightarrow> ledger \<Rightarrow> cycle_state \<Rightarrow>
    (raw_result list \<times> trial_row list) result \<Rightarrow> trial_record list \<Rightarrow> bool" where
  "accounted ev p k qhs led st' res ts \<longleftrightarrow>
     cy_ledger st' = led @ map trial_to_json ts \<and>
     (case res of
        Inl x \<Rightarrow> \<exists>n < length (hypotheses_run ev p k qhs). list_all2 trial_of ts (take n (hypotheses_run ev p k qhs)) \<and>
          run_hypothesis ev p (hypotheses_run ev p k qhs ! n) st' = Inl x
      | Inr (raw, rejected) \<Rightarrow> list_all2 trial_of ts (hypotheses_run ev p k qhs) \<and>
          map fst raw = hypotheses_run ev p k qhs \<and> rejected = rows_out_of_time ev p k qhs \<and>
          (\<forall>r \<in> set raw. raw_ok r \<and> raw_measured ev p led (cy_ledger st') r))"

lemma hypotheses_run_Cons:
  "hypotheses_run ev p k (qh # qhs) =
     (if out_of_time ev p k then hypotheses_run ev p (Suc k) qhs else qh # hypotheses_run ev p (Suc k) qhs)"
  "rows_out_of_time ev p k (qh # qhs) =
     (if out_of_time ev p k
      then empty_row qh ''REJECTED'' ''cycle wall-clock budget exhausted before this hypothesis ran'' # rows_out_of_time ev p (Suc k) qhs
      else rows_out_of_time ev p (Suc k) qhs)"
  by (simp_all add: hypotheses_run_def rows_out_of_time_def)

lemma run_all_accounts:
  "run_all ev p k qhs st = (st', res) \<Longrightarrow> \<exists>ts. accounted ev p k qhs (cy_ledger st) st' res ts"
proof (induction qhs arbitrary: k st st' res)
  case Nil
  then show ?case
    by (intro exI [of _ "[]"]) (auto simp: accounted_def hypotheses_run_def rows_out_of_time_def)
next
  case (Cons qh qhs)
  show ?case
  proof (cases "out_of_time ev p k")
    case True
    obtain st1 res1 where r: "run_all ev p (Suc k) qhs st = (st1, res1)" by (cases "run_all ev p (Suc k) qhs st")
    then have st': "st' = st1" "res = (case res1 of Inl e \<Rightarrow> Inl e | Inr (raw, rejected) \<Rightarrow>
        Inr (raw, empty_row qh ''REJECTED'' ''cycle wall-clock budget exhausted before this hypothesis ran'' # rejected))"
      using Cons.prems True by (auto simp: out_of_time_def split: sum.splits prod.splits)
    from Cons.IH [OF r] obtain ts where "accounted ev p (Suc k) qhs (cy_ledger st) st1 res1 ts" by blast
    then have "accounted ev p k (qh # qhs) (cy_ledger st) st' res ts"
      by (cases res1) (auto simp: accounted_def st' hypotheses_run_Cons True)
    then show ?thesis by blast
  next
    case False
    show ?thesis
    proof (cases "run_hypothesis ev p qh st")
      case (Inl e)
      then have "accounted ev p k (qh # qhs) (cy_ledger st) st' res []"
        using Cons.prems False by (auto simp: accounted_def out_of_time_def hypotheses_run_Cons)
      then show ?thesis by blast
    next
      case (Inr out)
      obtain row e st1 where out: "out = ((row, e), st1)" by (metis prod.exhaust)
      obtain st2 res1 where r: "run_all ev p (Suc k) qhs st1 = (st2, res1)" by (cases "run_all ev p (Suc k) qhs st1")
      then have st': "st' = st2" "res = (case res1 of Inl e \<Rightarrow> Inl e | Inr (raw, rejected) \<Rightarrow> Inr ((qh, row, e) # raw, rejected))"
        using Cons.prems False Inr out by (auto simp: out_of_time_def split: sum.splits prod.splits)
      from run_hypothesis_leaves [OF Inr] obtain t where t: "raw_ok (qh, row, e)" "trial_of t qh"
        "cy_ledger st1 = cy_ledger st @ [trial_to_json t]" "\<forall>e'. e = Some e' \<longrightarrow> measured ev p (cy_ledger st) qh e'"
        by (auto simp: leaves_def one_trial_def out)
      from Cons.IH [OF r] obtain ts where ts: "accounted ev p (Suc k) qhs (cy_ledger st1) st2 res1 ts" by blast
      have led: "cy_ledger st2 = cy_ledger st @ trial_to_json t # map trial_to_json ts" "prefix (cy_ledger st) (cy_ledger st1)"
        using ts t(3) by (simp_all add: accounted_def)
      have new: "raw_measured ev p (cy_ledger st) (cy_ledger st2) (qh, row, e)"
        using t(4) led(1) by (force simp: raw_measured_def)
      have "accounted ev p k (qh # qhs) (cy_ledger st) st' res (t # ts)"
      proof (cases res1)
        case (Inl x)
        with ts obtain n where n: "n < length (hypotheses_run ev p (Suc k) qhs)"
          "list_all2 trial_of ts (take n (hypotheses_run ev p (Suc k) qhs))"
          "run_hypothesis ev p (hypotheses_run ev p (Suc k) qhs ! n) st2 = Inl x"
          by (auto simp: accounted_def)
        then show ?thesis using Inl led(1) t(2) False
          by (auto simp: accounted_def st' hypotheses_run_Cons intro!: exI [of _ "Suc n"])
      next
        case (Inr rr)
        obtain raw rejected where rr: "rr = (raw, rejected)" by (cases rr)
        have "\<forall>r \<in> set raw. raw_ok r \<and> raw_measured ev p (cy_ledger st) (cy_ledger st2) r"
          using ts Inr rr raw_measured_earlier [OF _ led(2)] by (auto simp: accounted_def)
        then show ?thesis using ts Inr rr led(1) t(1,2) False new
          by (simp add: accounted_def st' hypotheses_run_Cons)
      qed
      then show ?thesis by blast
    qed
  qed
qed

text \<open>Read off an ended pass 1.\<close>

lemma accounted_ended:
  assumes "accounted ev p k qhs led st' (Inr (raw, rejected)) ts"
  shows "\<forall>r \<in> set raw. raw_ok r" "\<forall>row \<in> set rejected. rw_adverse_return row = None"
    "mset (map (\<lambda>(qh, row, e). rw_hypothesis row) raw) + mset (map rw_hypothesis rejected) = mset (map id_of qhs)"
    "(qh, row, Some e) \<in> set raw \<Longrightarrow> qh \<in> set (hypotheses_run ev p k qhs) \<and>
       (\<exists>rows. prefix led rows \<and> prefix rows (cy_ledger st') \<and> measured ev p rows qh e)"
proof -
  note a = assms [unfolded accounted_def sum.case prod.case]
  show ok: "\<forall>r \<in> set raw. raw_ok r" using a by blast
  show "\<forall>row \<in> set rejected. rw_adverse_return row = None"
    using a by (auto simp: rows_out_of_time_def empty_row_def)
  have "map (\<lambda>(qh, row, e). rw_hypothesis row) raw = map id_of (map fst raw)"
    using ok by auto
  moreover have "mset (map id_of (hypotheses_run ev p k qhs)) + mset (map rw_hypothesis (rows_out_of_time ev p k qhs)) =
      mset (map id_of qhs)" for k
    by (induction qhs arbitrary: k) (auto simp: hypotheses_run_Cons empty_row_def, simp_all add: hypotheses_run_def rows_out_of_time_def)
  ultimately show "mset (map (\<lambda>(qh, row, e). rw_hypothesis row) raw) + mset (map rw_hypothesis rejected) = mset (map id_of qhs)"
    using a by metis
  assume "(qh, row, Some e) \<in> set raw"
  then show "qh \<in> set (hypotheses_run ev p k qhs) \<and>
       (\<exists>rows. prefix led rows \<and> prefix rows (cy_ledger st') \<and> measured ev p rows qh e)"
    using a by (metis (no_types, lifting) raw_measured_def fst_conv snd_conv image_eqI list.set_map)
qed

section \<open>The gate over the cycle\<close>

lemma dict_default_update: "dict_default (AList.update k v d) k' x = (if k' = k then v else dict_default d k' x)"
  by (simp add: dict_default_def update_conv)

lemma positive_symbols_fold:
  "dict_default (fold (\<lambda>(qh, row, e) d. if gained (qh, row, e)
       then AList.update (qh_strategy qh) (insert (symbol_of qh) (dict_default d (qh_strategy qh) {})) d else d) raw d) s {} =
   dict_default d s {} \<union> {symbol_of qh | qh row e. (qh, row, e) \<in> set raw \<and> gained (qh, row, e) \<and> qh_strategy qh = s}"
proof (induction raw arbitrary: d)
  case (Cons r raw)
  obtain qh row e where r: "r = (qh, row, e)" by (metis prod.exhaust)
  show ?case
  proof (cases "gained (qh, row, e)")
    case True
    show ?thesis using True Cons.IH by (cases "qh_strategy qh = s") (simp_all add: r dict_default_update; blast)+
  next
    case False
    show ?thesis using False Cons.IH by (simp add: r) blast
  qed
qed simp

lemma positive_symbols:
  "dict_default (positive_symbols_by_strategy raw) s {} =
   {symbol_of qh | qh row e. (qh, row, e) \<in> set raw \<and> gained (qh, row, e) \<and> qh_strategy qh = s}"
proof -
  have "dict_default [] s {} = ({} :: string set)" by (simp add: dict_default_def)
  then show ?thesis unfolding positive_symbols_by_strategy_def positive_symbols_fold by simp
qed

fun clears :: "research_protocol \<Rightarrow> raw_result list \<Rightarrow> raw_result \<Rightarrow> bool" where
  "clears p raw (qh, row, None) \<longleftrightarrow> False"
| "clears p raw (qh, row, Some e) \<longleftrightarrow> gd_passed (evaluate_candidate (corrected raw qh e) (rp_gate p))"

fun failed_row :: "research_protocol \<Rightarrow> raw_result list \<Rightarrow> raw_result \<Rightarrow> trial_row" where
  "failed_row p raw (qh, row, None) = row"
| "failed_row p raw (qh, row, Some e) =
     row\<lparr>rw_status := ''FAILED_GATE'', rw_reason := gate_reasons (evaluate_candidate (corrected raw qh e) (rp_gate p))\<rparr>"

lemma judge_cases:
  "judge p raw r st =
     (if clears p raw r
      then st\<lparr>p2_best := (case p2_best st of
                None \<Rightarrow> Some (fst (snd r), corrected raw (fst r) (the (snd (snd r))))
              | Some (row', e') \<Rightarrow> if num_lt (ce_dsr e') (ce_dsr (the (snd (snd r))))
                  then Some (fst (snd r), corrected raw (fst r) (the (snd (snd r)))) else p2_best st),
              p2_passed := p2_passed st @ [fst (snd r)]\<rparr>
      else st\<lparr>p2_rejected := p2_rejected st @ [failed_row p raw r]\<rparr>)"
  by (cases "(p, raw, r)" rule: clears.cases) (auto simp: judge_def Let_def corrected_def split: option.splits)

lemma judge_rows:
  "p2_passed (fold (judge p raw) xs st) = p2_passed st @ map (\<lambda>r. fst (snd r)) (filter (clears p raw) xs)"
  "p2_rejected (fold (judge p raw) xs st) = p2_rejected st @ map (failed_row p raw) (filter (\<lambda>r. \<not> clears p raw r) xs)"
  by (induction xs arbitrary: st) (simp_all add: judge_cases)

text \<open>The best row: one that clears the gate, with no cleared row above it.\<close>

definition best_ok :: "research_protocol \<Rightarrow> raw_result list \<Rightarrow> pass2_state \<Rightarrow> bool" where
  "best_ok p raw st \<longleftrightarrow>
     (case p2_best st of
        None \<Rightarrow> p2_passed st = []
      | Some (row, e) \<Rightarrow>
          row \<in> set (p2_passed st) \<and>
          (\<exists>qh e0. (qh, row, Some e0) \<in> set raw \<and> e = corrected raw qh e0 \<and> gd_passed (evaluate_candidate e (rp_gate p))) \<and>
          (\<forall>row' \<in> set (p2_passed st). \<exists>v. rw_dsr row' = Some v \<and> num_le v (ce_dsr e)))"

lemma passed_dsr_num: "gd_passed (evaluate_candidate e g) \<Longrightarrow> ce_dsr e \<noteq> NaN"
  using num_le_NaN(2) [of "pg_min_dsr g"] by (auto simp: evaluate_candidate_def gate_checks_def)

lemma corrected_dsr [simp]: "ce_dsr (corrected raw qh e) = ce_dsr e" "ce_adverse_return (corrected raw qh e) = ce_adverse_return e"
  by (simp_all add: corrected_def)

lemma judge_best_ok:
  assumes "best_ok p raw st" "r \<in> set raw" "raw_ok r"
  shows "best_ok p raw (judge p raw r st)"
proof (cases "clears p raw r")
  case False
  then have "judge p raw r st = st\<lparr>p2_rejected := p2_rejected st @ [failed_row p raw r]\<rparr>" by (simp add: judge_cases)
  with assms(1) show ?thesis by (auto simp: best_ok_def split: option.splits)
next
  case True
  obtain qh row eo where "r = (qh, row, eo)" by (metis prod.exhaust)
  moreover have "eo \<noteq> None" using True calculation by (cases eo) simp_all
  ultimately obtain e0 where r: "r = (qh, row, Some e0)" by blast
  let ?e = "corrected raw qh e0"
  have pass: "gd_passed (evaluate_candidate ?e (rp_gate p))" using True r by simp
  have dsr: "rw_dsr row = Some (ce_dsr e0)" "ce_dsr e0 \<noteq> NaN"
    using assms(3) r passed_dsr_num [OF pass] by auto
  have refl: "num_le (ce_dsr e0) (ce_dsr e0)" using num_order(3) dsr(2) by blast
  show ?thesis
  proof (cases "p2_best st")
    case None
    then have "judge p raw r st = st\<lparr>p2_best := Some (row, ?e), p2_passed := p2_passed st @ [row]\<rparr>" "p2_passed st = []"
      using True assms(1) by (auto simp: judge_cases r best_ok_def)
    then show ?thesis using pass refl dsr(1) assms(2) r by (auto simp: best_ok_def)
  next
    case (Some b)
    obtain row1 e1 where b: "p2_best st = Some (row1, e1)" using Some by (cases b) auto
    have old: "row1 \<in> set (p2_passed st)" "\<exists>qh e0. (qh, row1, Some e0) \<in> set raw \<and> e1 = corrected raw qh e0 \<and>
        gd_passed (evaluate_candidate e1 (rp_gate p))"
      "\<forall>row' \<in> set (p2_passed st). \<exists>v. rw_dsr row' = Some v \<and> num_le v (ce_dsr e1)"
      using assms(1) b by (auto simp: best_ok_def)
    have "ce_dsr e1 \<noteq> NaN" using old(2) passed_dsr_num by blast
    show ?thesis
    proof (cases "num_lt (ce_dsr e1) (ce_dsr e0)")
      case True
      have j: "judge p raw r st = st\<lparr>p2_best := Some (row, ?e), p2_passed := p2_passed st @ [row]\<rparr>"
        using \<open>clears p raw r\<close> True b by (simp add: judge_cases r)
      have up: "num_le v (ce_dsr e0)" if "num_le v (ce_dsr e1)" for v
        using that True num_order(1,2) by blast
      have "\<exists>v. rw_dsr row' = Some v \<and> num_le v (ce_dsr e0)" if "row' \<in> set (p2_passed st @ [row])" for row'
      proof (cases "row' = row")
        case True then show ?thesis using refl dsr(1) by simp
      next
        case False then show ?thesis using that old(3) up by auto
      qed
      moreover have "\<exists>qh e0. (qh, row, Some e0) \<in> set raw \<and> ?e = corrected raw qh e0 \<and> gd_passed (evaluate_candidate ?e (rp_gate p))"
        using pass assms(2) r by blast
      ultimately show ?thesis by (simp add: best_ok_def j)
    next
      case False
      have j: "judge p raw r st = st\<lparr>p2_passed := p2_passed st @ [row]\<rparr>"
        using \<open>clears p raw r\<close> False b by (simp add: judge_cases r)
      have "num_le (ce_dsr e0) (ce_dsr e1)" using num_order(4) False dsr(2) \<open>ce_dsr e1 \<noteq> NaN\<close> by blast
      then show ?thesis using old b dsr(1) by (auto simp: best_ok_def j)
    qed
  qed
qed

lemma judge_fold_best_ok:
  "best_ok p raw st \<Longrightarrow> set xs \<subseteq> set raw \<Longrightarrow> \<forall>r \<in> set xs. raw_ok r \<Longrightarrow> best_ok p raw (fold (judge p raw) xs st)"
  by (induction xs arbitrary: st) (auto intro: judge_best_ok)

lemma judge_all_best_ok: "\<forall>r \<in> set raw. raw_ok r \<Longrightarrow> best_ok p raw (judge_all p raw rejected)"
  unfolding judge_all_def by (rule judge_fold_best_ok) (simp_all add: best_ok_def)

lemma failed_row_parts [simp]:
  "rw_hypothesis (failed_row p raw r) = rw_hypothesis (fst (snd r))"
  "rw_strategy (failed_row p raw r) = rw_strategy (fst (snd r))"
  "rw_symbol (failed_row p raw r) = rw_symbol (fst (snd r))"
  "rw_adverse_return (failed_row p raw r) = rw_adverse_return (fst (snd r))"
  by (cases "(p, raw, r)" rule: failed_row.cases; simp)+



text \<open>The symbols a strategy gained on, read off the rows of the report.\<close>

definition gaining_symbols :: "string \<Rightarrow> trial_row list \<Rightarrow> string set" where
  "gaining_symbols strategy rows =
     {rw_symbol row | row. row \<in> set rows \<and> rw_strategy row = strategy \<and>
        (\<exists>v. rw_adverse_return row = Some v \<and> num_lt (Fin 0) v)}"

lemma judged_rows_symbols:
  assumes "\<forall>r \<in> set raw. raw_ok r" "\<forall>row \<in> set rejected. rw_adverse_return row = None"
  shows "gaining_symbols s (p2_passed (judge_all p raw rejected) @ p2_rejected (judge_all p raw rejected)) =
    dict_default (positive_symbols_by_strategy raw) s {}"
proof -
  let ?gains = "\<lambda>row. rw_strategy row = s \<and> (\<exists>v. rw_adverse_return row = Some v \<and> num_lt (Fin 0) v)"
  have row: "?gains row \<longleftrightarrow> gained (qh, row, e) \<and> qh_strategy qh = s" "rw_symbol row = symbol_of qh"
    if "(qh, row, e) \<in> set raw" for qh row e
    using assms(1) that by (force simp: gained_def split: option.splits)+
  let ?rows = "map (\<lambda>r. fst (snd r)) (filter (clears p raw) raw) @ rejected @ map (failed_row p raw) (filter (\<lambda>r. \<not> clears p raw r) raw)"
  have "gaining_symbols s ?rows = {rw_symbol row | qh row e. (qh, row, e) \<in> set raw \<and> ?gains row}"
  proof (intro set_eqI iffI)
    fix x assume "x \<in> gaining_symbols s ?rows"
    then obtain row where "row \<in> set ?rows" "?gains row" "x = rw_symbol row" by (auto simp: gaining_symbols_def)
    then obtain r where "r \<in> set raw" "?gains (fst (snd r))" "x = rw_symbol (fst (snd r))" using assms(2) by fastforce
    moreover obtain qh row e where "r = (qh, row, e)" by (metis prod.exhaust)
    ultimately have "(qh, row, e) \<in> set raw" "?gains row" "x = rw_symbol row" by simp_all
    then show "x \<in> {rw_symbol row | qh row e. (qh, row, e) \<in> set raw \<and> ?gains row}" by blast
  next
    fix x assume "x \<in> {rw_symbol row | qh row e. (qh, row, e) \<in> set raw \<and> ?gains row}"
    then obtain qh row e where r: "(qh, row, e) \<in> set raw" "?gains row" "x = rw_symbol row" by blast
    show "x \<in> gaining_symbols s ?rows"
    proof (cases "clears p raw (qh, row, e)")
      case True
      then have "row \<in> set ?rows" using r(1) by force
      with r show ?thesis by (auto simp: gaining_symbols_def)
    next
      case False
      then have "failed_row p raw (qh, row, e) \<in> set ?rows" using r(1) by force
      moreover have "?gains (failed_row p raw (qh, row, e))" "x = rw_symbol (failed_row p raw (qh, row, e))"
        using r(2,3) by simp_all
      ultimately show ?thesis unfolding gaining_symbols_def by blast
    qed
  qed
  also have "\<dots> = {symbol_of qh | qh row e. (qh, row, e) \<in> set raw \<and> gained (qh, row, e) \<and> qh_strategy qh = s}"
    using row by (auto; metis)
  finally show ?thesis by (simp add: judge_all_def judge_rows positive_symbols)
qed

section \<open>Guarantees\<close>

lemma run_cycle_cases:
  assumes "run_cycle ev p led reg = (led', reg', res)" "build_hypothesis_queue p 1 (ev_queue_time ev) = Inr queue"
  obtains "led' = led" "reg' = reg" "\<exists>e. res = Inr (error_result e)"
  | st r0 where "run_all ev p 0 (hq_queued queue) \<lparr>cy_ledger = led, cy_quality = []\<rparr> = (st, r0)" "led' = cy_ledger st"
      "\<And>r. res \<noteq> Inr r" "\<And>e. r0 = Inl e \<Longrightarrow> res = Inl e"
  | st raw rejected j sel r where
      "run_all ev p 0 (hq_queued queue) \<lparr>cy_ledger = led, cy_quality = []\<rparr> = (st, Inr (raw, rejected))"
      "j = judge_all p raw rejected" "register_best ev (p2_best j) reg = Inr (reg', sel)" "led' = cy_ledger st" "res = Inr r"
      "cr_passed r = p2_passed j" "cr_rejected r = p2_rejected j" "cr_selected r = sel" "cr_trial_count r = length led'"
proof -
  consider "ev_lock_held ev \<or> \<not> ev_disk_ok ev" | "\<not> ev_lock_held ev" "ev_disk_ok ev" by blast
  then show thesis
  proof cases
    case 1
    with assms(1) have "led' = led" "reg' = reg" "\<exists>e. res = Inr (error_result e)"
      by (auto simp: run_cycle_def split: if_splits)
    then show thesis by (rule that(1))
  next
    case 2
    obtain st r0 where r0: "run_all ev p 0 (hq_queued queue) \<lparr>cy_ledger = led, cy_quality = []\<rparr> = (st, r0)"
      by (metis prod.exhaust)
    show thesis
    proof (cases r0)
      case (Inl e)
      with assms 2 r0 show thesis by (intro that(2) [OF r0]) (auto simp: run_cycle_def)
    next
      case (Inr rr)
      obtain raw rejected where rr: "rr = (raw, rejected)" by (cases rr)
      let ?j = "judge_all p raw rejected"
      show thesis
      proof (cases "register_best ev (p2_best ?j) reg")
        case (Inl e)
        with assms 2 r0 Inr rr show thesis
          using \<open>r0 = Inr rr\<close> by (intro that(2) [OF r0]) (auto simp: run_cycle_def Let_def)
      next
        case (Inr rs)
        obtain reg1 sel where rs: "rs = (reg1, sel)" by (cases rs)
        show thesis
          by (rule that(3) [of st raw rejected ?j sel])
            (use assms 2 r0 \<open>r0 = Inr rr\<close> rr Inr rs in \<open>auto simp: run_cycle_def Let_def global_trial_count_def\<close>)
      qed
    qed
  qed
qed


lemma registered_candidate:
  assumes "register_best ev (Some (row, e)) reg = Inr (reg', sel)"
  shows "sel = Some (rw_hypothesis row) \<and>
    (\<exists>c. map_of reg' (rw_hypothesis row) = Some c \<and> cs_status c = RESEARCH_CANDIDATE \<and> cs_families c = [PriceAuction]) \<and>
    (\<forall>i. i \<noteq> rw_hypothesis row \<longrightarrow> map_of reg' i = map_of reg i)"
  using assms
  by (auto simp: register_best_def register_research_candidate_def promotion_transition_def bindE_eq_Inr Let_def update_conv
      unique_families_def split: option.splits)

text \<open>
  C4. A cycle selects only what clears the gate on its own evidence. Without a selection no row passed
  and the registry is as it was. A selected hypothesis is one of the queue that ran in this cycle, and
  the row it passed with is its own: its evidence is the one \<open>measured\<close> on that run, field by field (the
  candles a valid dataset, trades, fold and trade returns, Sharpe ratio with the trials then in the
  ledger, overfitting, stability, drawdown, degradation, entry lag, funding and marking of the
  walk-forward run at adverse costs), and with nothing but its number of positive symbols replaced, by
  the number of symbols its strategy gained on in the rows of this very report, it clears the gate. No
  passed row has a higher deflated Sharpe ratio. The hypothesis is a research candidate afterwards,
  whatever it was before (a champion or a retired candidate included: hypothesis ids start at 1 in every
  cycle), the other entries unchanged.
\<close>

theorem cycle_selects_gate_passer:
  assumes "run_cycle ev p led reg = (led', reg', Inr r)" "cr_error r = None"
    "build_hypothesis_queue p 1 (ev_queue_time ev) = Inr queue"
  shows "case cr_selected r of
      None \<Rightarrow> cr_passed r = [] \<and> reg' = reg
    | Some i \<Rightarrow>
        (\<exists>qh row e rows. qh \<in> set (hypotheses_run ev p 0 (hq_queued queue)) \<and> hy_id (qh_hypothesis qh) = i \<and>
           row \<in> set (cr_passed r) \<and> rw_hypothesis row = i \<and> rw_strategy row = qh_strategy qh \<and>
           prefix led rows \<and> prefix rows led' \<and> measured ev p rows qh e \<and>
           gd_passed (evaluate_candidate
             (e\<lparr>ce_symbols_positive := int (card (gaining_symbols (qh_strategy qh) (cr_passed r @ cr_rejected r)))\<rparr>)
             (rp_gate p)) \<and>
           rw_dsr row = Some (ce_dsr e) \<and> rw_adverse_return row = Some (ce_adverse_return e) \<and>
           (\<forall>row' \<in> set (cr_passed r). \<exists>v. rw_dsr row' = Some v \<and> num_le v (ce_dsr e))) \<and>
        (\<exists>c. map_of reg' i = Some c \<and> cs_status c = RESEARCH_CANDIDATE) \<and>
        (\<forall>j. j \<noteq> i \<longrightarrow> map_of reg' j = map_of reg j)"
  using assms(1,3)
proof (cases rule: run_cycle_cases)
  case (3 st raw rejected j sel r1)
  from run_all_accounts [OF 3(1)] obtain ts where
    ts: "accounted ev p 0 (hq_queued queue) led st (Inr (raw, rejected)) ts" by auto
  note ok = accounted_ended(1,2) [OF ts]
  have best: "best_ok p raw j" unfolding 3(2) by (rule judge_all_best_ok [OF ok(1)])
  have r1: "r1 = r" using 3(5) by simp
  show ?thesis
  proof (cases "p2_best j")
    case None
    then show ?thesis using best 3(3,6,8) by (auto simp: best_ok_def register_best_def r1)
  next
    case (Some b)
    obtain row e where b: "p2_best j = Some (row, e)" using Some by (cases b) auto
    from best b obtain qh e0 where e: "row \<in> set (p2_passed j)" "(qh, row, Some e0) \<in> set raw" "e = corrected raw qh e0"
      "gd_passed (evaluate_candidate e (rp_gate p))" "\<forall>row' \<in> set (p2_passed j). \<exists>v. rw_dsr row' = Some v \<and> num_le v (ce_dsr e)"
      by (auto simp: best_ok_def)
    have raw: "raw_ok (qh, row, Some e0)" using ok(1) e(2) by blast
    from accounted_ended(4) [OF ts e(2)] obtain rows where
      m: "qh \<in> set (hypotheses_run ev p 0 (hq_queued queue))" "prefix led rows" "prefix rows led'" "measured ev p rows qh e0"
      using 3(4) by blast
    have c: "e = e0\<lparr>ce_symbols_positive := int (card (gaining_symbols (qh_strategy qh) (cr_passed r @ cr_rejected r)))\<rparr>"
      using judged_rows_symbols [OF ok, of "qh_strategy qh" p] 3(2,6,7) e(3) by (simp add: corrected_def r1)
    have won: "\<exists>qh row1 e rows. qh \<in> set (hypotheses_run ev p 0 (hq_queued queue)) \<and> hy_id (qh_hypothesis qh) = rw_hypothesis row \<and>
        row1 \<in> set (cr_passed r) \<and> rw_hypothesis row1 = rw_hypothesis row \<and> rw_strategy row1 = qh_strategy qh \<and>
        prefix led rows \<and> prefix rows led' \<and> measured ev p rows qh e \<and>
        gd_passed (evaluate_candidate
          (e\<lparr>ce_symbols_positive := int (card (gaining_symbols (qh_strategy qh) (cr_passed r @ cr_rejected r)))\<rparr>)
          (rp_gate p)) \<and>
        rw_dsr row1 = Some (ce_dsr e) \<and> rw_adverse_return row1 = Some (ce_adverse_return e) \<and>
        (\<forall>row' \<in> set (cr_passed r). \<exists>v. rw_dsr row' = Some v \<and> num_le v (ce_dsr e))"
      using m e(1,4,5) raw 3(6) registered_candidate [OF 3(3) [unfolded b]]
      by (intro exI [of _ qh] exI [of _ row] exI [of _ e0] exI [of _ rows]) (simp add: r1 c)
    have sel: "cr_selected r = Some (rw_hypothesis row)"
      using registered_candidate [OF 3(3) [unfolded b]] 3(8) by (simp add: r1)
    show ?thesis using registered_candidate [OF 3(3) [unfolded b]] unfolding sel option.case
      by (intro conjI won) blast+
  qed
qed (use assms(2) in \<open>auto simp: error_result_def\<close>)

section \<open>A cycle of two hypotheses\<close>

text \<open>Four daily candles of one symbol, and an engine whose every run is one winning trade.\<close>

definition demo_protocol :: research_protocol where
  "demo_protocol = shipped_protocol
     \<lparr>rp_universe := \<lparr>uc_symbols = [''BTCUSDT''], uc_primary = [''1d''], uc_secondary = [], uc_disabled = []\<rparr>,
      rp_data_split := \<lparr>ds_train_days = 1, ds_validation_days = 1, ds_test_days = 1, ds_purge_bars = 0,
        ds_embargo_bars = 0, ds_max_lookback_days = None\<rparr>,
      rp_holdout := \<lparr>hc_enabled = False, hc_id = [], hc_days = 0\<rparr>,
      rp_budget := \<lparr>hb_max_new = 2, hb_max_variants = 1, hb_max_cpu_minutes = 1, hb_max_wall_minutes = 1\<rparr>,
      rp_families := [\<lparr>hf_id = ''momentum_trend'', hf_enabled = True, hf_description = ''d''\<rparr>],
      rp_gate := shipped_gate\<lparr>pg_min_oos_trades := 1, pg_min_symbols_positive := 1, pg_max_fold_share := Fin 1,
        pg_max_trade_share := Fin 1, pg_max_pbo := Fin 1\<rparr>\<rparr>"

definition demo_trade :: "int \<Rightarrow> trade" where
  "demo_trade t =
     \<lparr>td_entry_time = t, td_exit_time = t + 1, td_quantity = 1, td_entry_price = 100, td_exit_price = 110, td_fees = 0,
      td_funding = 0, td_marked = False\<rparr>"

definition demo_env :: cycle_env where
  "demo_env =
     \<lparr>ev_frames = (\<lambda>s timeframe. \<lparr>kf_utc = True, kf_rows = map (\<lambda>d. \<lparr>kl_time = d * day_ns, kl_open = Fin 100, kl_high = Fin 100,
        kl_low = Fin 100, kl_close = Fin 100, kl_volume = Fin 1\<rparr>) [0, 1, 2, 3]\<rparr>),
      ev_fingerprint = (\<lambda>s timeframe. ''f''),
      ev_engine = (\<lambda>strategy s timeframe ref higher funding execution v a b.
        Inr \<lparr>bt_trades = [demo_trade a], bt_equity = [(a, 1000), (a + 1, 1004), (a + 2, 1010)], bt_score = Some (Fin 1),
             bt_funding = True, bt_marked = True\<rparr>),
      ev_dsr = (\<lambda>returns n. Fin 1), ev_simulate = (\<lambda>rs k. None), ev_elapsed = (\<lambda>k. if k = 0 then 0 else 61),
      ev_created_at = (\<lambda>i. ''t''), ev_queue_time = (\<lambda>k. ''t''), ev_now = 0, ev_as_of = 4 * day_ns, ev_balance = 1000,
      ev_lock_held = False, ev_disk_ok = True\<rparr>"

definition demo_registry :: registry where
  "demo_registry = [(''HYP-momentum_trend-000001'', \<lparr>cs_id = ''HYP-momentum_trend-000001'', cs_status = RETIRED, cs_history = [], cs_paper_started = None,
      cs_degraded_reviews = 3, cs_families = []\<rparr>)]"

abbreviation demo_cycle :: "ledger \<times> registry \<times> cycle_result result" where
  "demo_cycle \<equiv> run_cycle demo_env demo_protocol [] demo_registry"

lemma demo_cycle_selects:
  "map_option (\<lambda>c. (cr_selected c, cr_error c, map rw_hypothesis (cr_passed c), map rw_hypothesis (cr_rejected c)))
     (case snd (snd demo_cycle) of Inl e \<Rightarrow> None | Inr c \<Rightarrow> Some c) =
   Some (Some ''HYP-momentum_trend-000001'', None, [''HYP-momentum_trend-000001''], [''HYP-momentum_trend-000002''])"
  by code_simp

lemma demo_cycle_result:
  obtains c where "demo_cycle = (fst demo_cycle, fst (snd demo_cycle), Inr c)"
    "cr_selected c = Some ''HYP-momentum_trend-000001''" "cr_error c = None" "cr_passed c \<noteq> []" "cr_rejected c \<noteq> []"
  using demo_cycle_selects by (cases demo_cycle) (auto split: sum.splits)


theorem cycle_selects_gate_passer_witness:
  "\<exists>c. map_of (fst (snd demo_cycle)) ''HYP-momentum_trend-000001'' = Some c \<and> cs_status c = RESEARCH_CANDIDATE \<and>
     map_option cs_status (map_of demo_registry ''HYP-momentum_trend-000001'') = Some RETIRED"
proof -
  obtain c where c: "demo_cycle = (fst demo_cycle, fst (snd demo_cycle), Inr c)"
    "cr_selected c = Some ''HYP-momentum_trend-000001''" "cr_error c = None"
    by (rule demo_cycle_result)
  have "map_option cs_status (map_of demo_registry ''HYP-momentum_trend-000001'') = Some RETIRED" by code_simp
  moreover obtain queue where "build_hypothesis_queue demo_protocol 1 (ev_queue_time demo_env) = Inr queue"
    using queue_prefix by blast
  ultimately show ?thesis using cycle_selects_gate_passer [OF c(1,3)] c(2) by simp
qed

end
