(* ===== verification/Shadow_Loop.thy ===== *)
theory Shadow_Loop
  imports Shadow_Runtime
begin

text \<open>
  Model of \<open>src/execution/shadow_loop.py\<close>: the SQLite work queue with its leases and retries and
  the supervised loop that hands each item to the shadow runtime. The two tables are a record; a
  transaction is a function of it that leaves it as it was when it raises. Timestamps of the tables
  are instants, whose texts compare alike (\<open>claim_text_order_is_time_order\<close>). Arguments of the model are the loader of
  work, the text \<open>repr\<close> gives an exception, and the readings of the clock. Publishing the health file
  and sleeping are not modelled.
\<close>

section \<open>Tables\<close>

datatype queue_status = PENDING | PROCESSING | DONE | DEAD

record queue_row =
  qr_item :: string
  qr_payload :: string
  qr_status :: queue_status
  qr_attempts :: int
  qr_available :: int
  qr_lease :: "int option"
  qr_error :: "string option"
  qr_created :: int
  qr_completed :: "int option"

record loop_state =
  ls_status :: string
  ls_consecutive :: int
  ls_processed :: int
  ls_failures :: int
  ls_heartbeat :: "int option"
  ls_error :: "string option"

record shadow_db =
  db_rows :: "queue_row list"
  db_loop :: loop_state

definition fresh_db :: shadow_db where
  "fresh_db =
     \<lparr>db_rows = [],
      db_loop = \<lparr>ls_status = ''STARTING'', ls_consecutive = 0, ls_processed = 0, ls_failures = 0,
                 ls_heartbeat = None, ls_error = None\<rparr>\<rparr>"

definition row_of :: "shadow_db \<Rightarrow> string \<Rightarrow> queue_row option" where
  "row_of db i = find (\<lambda>r. qr_item r = i) (db_rows db)"

text \<open>\<open>UPDATE ... WHERE item_id = ?\<close>\<close>

definition update_row :: "string \<Rightarrow> (queue_row \<Rightarrow> queue_row) \<Rightarrow> shadow_db \<Rightarrow> shadow_db" where
  "update_row i f db = db\<lparr>db_rows := map (\<lambda>r. if qr_item r = i then f r else r) (db_rows db)\<rparr>"

text \<open>\<open>now + timedelta(seconds=s)\<close>: to the nearest microsecond; years end at 9999.\<close>

definition after :: "int \<Rightarrow> rat \<Rightarrow> int result" where
  "after now s =
     (let t = now + py_round (s * 1000000) in
      if instant_in_range t then Inr t else Inl (OtherError ''OverflowError''))"

section \<open>The queue\<close>

definition queue_enqueue :: "shadow_db \<Rightarrow> string \<Rightarrow> string \<Rightarrow> pydatetime \<Rightarrow> (shadow_db \<times> bool) result" where
  "queue_enqueue db item_id payload_uri available_at =
     (if blank item_id \<or> blank payload_uri
      then Inl (ValueError ''shadow queue item and payload URI must be non-empty'')
      else
        bindE (utc_of ''queue availability timestamp must be timezone-aware'' available_at) (\<lambda>available.
          case row_of db item_id of
            Some r \<Rightarrow>
              if qr_payload r \<noteq> payload_uri then Inl (ValueError ''shadow queue id already belongs to another payload'')
              else Inr (db, False)
          | None \<Rightarrow>
              Inr (db\<lparr>db_rows := db_rows db @
                [\<lparr>qr_item = item_id, qr_payload = payload_uri, qr_status = PENDING, qr_attempts = 0,
                  qr_available = available, qr_lease = None, qr_error = None, qr_created = available,
                  qr_completed = None\<rparr>]\<rparr>, True)))"

definition claimable :: "int \<Rightarrow> queue_row \<Rightarrow> bool" where
  "claimable now r \<longleftrightarrow>
     (qr_status r = PENDING \<and> qr_available r \<le> now) \<or>
     (qr_status r = PROCESSING \<and> (case qr_lease r of None \<Rightarrow> False | Some t \<Rightarrow> t \<le> now))"

text \<open>\<open>ORDER BY available_at_utc, created_at_utc, item_id LIMIT 1\<close>\<close>

definition claim_key :: "queue_row \<Rightarrow> int \<times> int \<times> string" where
  "claim_key r = (qr_available r, qr_created r, qr_item r)"

definition older :: "queue_row \<Rightarrow> queue_row \<Rightarrow> queue_row" where
  "older s best = (if claim_key s < claim_key best then s else best)"

definition next_row :: "int \<Rightarrow> shadow_db \<Rightarrow> queue_row option" where
  "next_row now db =
     (case filter (claimable now) (db_rows db) of
        [] \<Rightarrow> None
      | r # rs \<Rightarrow> Some (fold older rs r))"

text \<open>The claimed row as \<open>_fetch\<close> reads it back.\<close>

definition claim :: "shadow_db \<Rightarrow> pydatetime \<Rightarrow> num \<Rightarrow> (shadow_db \<times> queue_row option) result" where
  "claim db now_utc lease_seconds =
     bindE (utc_of ''queue claim timestamp must be timezone-aware'' now_utc) (\<lambda>now.
       if \<not> isfinite lease_seconds \<or> num_le lease_seconds (Fin 0)
       then Inl (ValueError ''queue lease must be finite and positive'')
       else
         bindE (after now (num_val lease_seconds)) (\<lambda>lease_until.
           case next_row now db of
             None \<Rightarrow> Inr (db, None)
           | Some r \<Rightarrow>
               (let db' = update_row (qr_item r)
                      (\<lambda>r. r\<lparr>qr_status := PROCESSING, qr_attempts := qr_attempts r + 1, qr_lease := Some lease_until\<rparr>) db
                in Inr (db', row_of db' (qr_item r)))))"

definition acknowledge :: "shadow_db \<Rightarrow> string \<Rightarrow> pydatetime \<Rightarrow> shadow_db result" where
  "acknowledge db item_id completed_at =
     bindE (utc_of ''queue completion timestamp must be timezone-aware'' completed_at) (\<lambda>completed.
       case row_of db item_id of
         Some r \<Rightarrow>
           if qr_status r = PROCESSING
           then Inr (update_row item_id
                  (\<lambda>r. r\<lparr>qr_status := DONE, qr_lease := None, qr_completed := Some completed, qr_error := None\<rparr>) db)
           else Inl (ValueError ''only a processing shadow item can be acknowledged'')
       | None \<Rightarrow> Inl (ValueError ''only a processing shadow item can be acknowledged''))"

definition retry_or_dead_letter ::
    "shadow_db \<Rightarrow> string \<Rightarrow> string \<Rightarrow> pydatetime \<Rightarrow> pydatetime \<Rightarrow> int \<Rightarrow> (shadow_db \<times> queue_status) result" where
  "retry_or_dead_letter db item_id error failed_at_utc retry_at_utc maximum_attempts =
     (if blank error \<or> maximum_attempts < 1 then Inl (ValueError ''shadow retry requires error and attempt limit'')
      else
        bindE (utc_of ''queue failure timestamp must be timezone-aware'' failed_at_utc) (\<lambda>failed_at.
        bindE (utc_of ''queue retry timestamp must be timezone-aware'' retry_at_utc) (\<lambda>retry_at.
          case row_of db item_id of
            None \<Rightarrow> Inl (ValueError ''only a processing shadow item can be retried'')
          | Some r \<Rightarrow>
              if qr_status r \<noteq> PROCESSING then Inl (ValueError ''only a processing shadow item can be retried'')
              else
                (let status = (if maximum_attempts \<le> qr_attempts r then DEAD else PENDING) in
                 Inr (update_row item_id
                   (\<lambda>r. r\<lparr>qr_status := status, qr_available := retry_at, qr_lease := None, qr_error := Some error,
                         qr_completed := (if status = DEAD then Some failed_at else None)\<rparr>) db, status)))))"

definition record_success :: "shadow_db \<Rightarrow> pydatetime \<Rightarrow> shadow_db result" where
  "record_success db now_utc =
     bindE (utc_of ''shadow loop result timestamp must be timezone-aware'' now_utc) (\<lambda>now.
       Inr (db\<lparr>db_loop := (db_loop db)\<lparr>ls_status := ''RUNNING'', ls_consecutive := 0,
         ls_processed := ls_processed (db_loop db) + 1, ls_heartbeat := Some now, ls_error := None\<rparr>\<rparr>))"

definition record_failure :: "shadow_db \<Rightarrow> pydatetime \<Rightarrow> string \<Rightarrow> (shadow_db \<times> int) result" where
  "record_failure db now_utc error =
     (if blank error then Inl (ValueError ''shadow loop failure requires an error'')
      else
        bindE (utc_of ''shadow loop result timestamp must be timezone-aware'' now_utc) (\<lambda>now.
          Inr (db\<lparr>db_loop := (db_loop db)\<lparr>ls_status := ''DEGRADED'', ls_consecutive := ls_consecutive (db_loop db) + 1,
                 ls_failures := ls_failures (db_loop db) + 1, ls_heartbeat := Some now, ls_error := Some error\<rparr>\<rparr>,
               ls_consecutive (db_loop db) + 1)))"

definition record_heartbeat :: "shadow_db \<Rightarrow> pydatetime \<Rightarrow> string \<Rightarrow> shadow_db result" where
  "record_heartbeat db now_utc status =
     bindE (utc_of ''shadow loop heartbeat must be timezone-aware'' now_utc) (\<lambda>now.
       Inr (db\<lparr>db_loop := (db_loop db)\<lparr>ls_status := status, ls_heartbeat := Some now\<rparr>\<rparr>))"

record queue_snapshot =
  qs_loop :: loop_state
  qs_pending :: nat
  qs_processing :: nat
  qs_done :: nat
  qs_dead :: nat

definition queue_snapshot_of :: "shadow_db \<Rightarrow> queue_snapshot" where
  "queue_snapshot_of db =
     (let n = (\<lambda>s. length (filter (\<lambda>r. qr_status r = s) (db_rows db))) in
      \<lparr>qs_loop = db_loop db, qs_pending = n PENDING, qs_processing = n PROCESSING, qs_done = n DONE, qs_dead = n DEAD\<rparr>)"

section \<open>The loop\<close>

record shadow_work =
  sw_observation_id :: string
  sw_meta :: meta_decision
  sw_proposals :: "(rat, int) entry_proposal list"
  sw_equity :: num

definition make_shadow_work :: "shadow_work \<Rightarrow> shadow_work result" where
  "make_shadow_work w =
     (if blank (sw_observation_id w) then Inl (ValueError ''shadow work requires an observation id'')
      else if \<not> isfinite (sw_equity w) \<or> num_le (sw_equity w) (Fin 0)
      then Inl (ValueError ''shadow work equity must be finite and positive'')
      else Inr w)"

record loop_config =
  lc_lease :: num
  lc_poll_interval :: num
  lc_max_attempts :: int
  lc_retry_base :: num
  lc_retry_max :: num
  lc_max_failures :: int

definition default_loop_config :: loop_config where
  "default_loop_config =
     \<lparr>lc_lease = Fin 60, lc_poll_interval = Fin 1, lc_max_attempts = 5, lc_retry_base = Fin 2, lc_retry_max = Fin 300,
      lc_max_failures = 3\<rparr>"

definition make_loop_config :: "loop_config \<Rightarrow> loop_config result" where
  "make_loop_config c =
     (if list_ex (\<lambda>v. \<not> isfinite v \<or> num_le v (Fin 0)) [lc_lease c, lc_poll_interval c, lc_retry_base c, lc_retry_max c]
      then Inl (ValueError ''shadow loop durations must be finite and positive'')
      else if lc_max_attempts c < 1 \<or> lc_max_failures c < 1
      then Inl (ValueError ''shadow loop attempt and failure limits must be positive'')
      else if num_lt (lc_retry_max c) (lc_retry_base c)
      then Inl (ValueError ''shadow retry maximum cannot be below its base'')
      else Inr c)"

datatype iteration = IDLE | PROCESSED | IDEMPOTENT_RECOVERY | RETRY_SCHEDULED | DEAD_LETTERED

text \<open>The queue file and the runtime.\<close>

record loop_world =
  lw_db :: shadow_db
  lw_runtime :: shadow_runtime

text \<open>
  \<open>base * 2 ** max(0, attempts - 1)\<close>, capped: a power above \<open>2 ** 1023\<close> does not convert to a float.
\<close>

definition retry_delay :: "loop_config \<Rightarrow> int \<Rightarrow> rat result" where
  "retry_delay c attempts =
     (let e = max 0 (attempts - 1) in
      if 1024 \<le> e then Inl (OtherError ''OverflowError'')
      else Inr (min (num_val (lc_retry_base c) * 2 ^ nat e) (num_val (lc_retry_max c))))"

definition hold_id :: "session_context \<Rightarrow> queue_row \<Rightarrow> string" where
  "hold_id c item = sx_session_id c @ '':loop-safety-hold:'' @ qr_item item @ '':'' @ show_int (qr_attempts item)"

definition fatal_error :: exn where
  "fatal_error = Raised ShadowLoopFatalError ''failed to persist shadow event-loop safety hold''"

text \<open>The hold at the threshold of consecutive failures.\<close>

definition threshold_hold :: "(json \<Rightarrow> string) \<Rightarrow> queue_row \<Rightarrow> int \<Rightarrow> string \<Rightarrow> shadow_runtime \<Rightarrow> shadow_runtime \<times> unit result" where
  "threshold_hold sha item now error rt =
     (let i = hold_id (sr_context rt) item in
      case journal_find sha (sr_journal rt) i of
        Inl _ \<Rightarrow> (rt, Inl fatal_error)
      | Inr (Some _) \<Rightarrow> (rt, Inr ())
      | Inr None \<Rightarrow>
          (case activate_safety_hold sha rt i (''shadow event loop failure threshold: '' @ error) (Aware now) of
             (rt', Inl _) \<Rightarrow> (rt', Inl fatal_error)
           | (rt', Inr _) \<Rightarrow> (rt', Inr ())))"

definition handle_failure :: "(json \<Rightarrow> string) \<Rightarrow> loop_config \<Rightarrow> queue_row \<Rightarrow> int \<Rightarrow> string \<Rightarrow> loop_world
    \<Rightarrow> loop_world \<times> iteration result" where
  "handle_failure sha c item now error w =
     (case bindE (retry_delay c (qr_attempts item)) (\<lambda>delay.
           bindE (after now delay) (\<lambda>retry_at.
             retry_or_dead_letter (lw_db w) (qr_item item) error (Aware now) (Aware retry_at) (lc_max_attempts c))) of
        Inl e \<Rightarrow> (w, Inl e)
      | Inr (db1, status) \<Rightarrow>
          (case record_failure db1 (Aware now) error of
             Inl e \<Rightarrow> (w\<lparr>lw_db := db1\<rparr>, Inl e)
           | Inr (db2, consecutive) \<Rightarrow>
               (let result = (if status = DEAD then DEAD_LETTERED else RETRY_SCHEDULED) in
                if lc_max_failures c \<le> consecutive \<and> pe_kill_reason (sr_engine (lw_runtime w)) = None
                then
                  (case threshold_hold sha item now error (lw_runtime w) of
                     (rt', Inl e) \<Rightarrow> (\<lparr>lw_db = db2, lw_runtime = rt'\<rparr>, Inl e)
                   | (rt', Inr _) \<Rightarrow> (\<lparr>lw_db = db2, lw_runtime = rt'\<rparr>, Inr result))
                else (w\<lparr>lw_db := db2\<rparr>, Inr result))))"

text \<open>\<open>acknowledge\<close> and \<open>record_success\<close>, two transactions: the world and how it ended.\<close>

definition settle :: "queue_row \<Rightarrow> int \<Rightarrow> iteration \<Rightarrow> loop_world \<Rightarrow> loop_world \<times> iteration result" where
  "settle item now result w =
     (case acknowledge (lw_db w) (qr_item item) (Aware now) of
        Inl e \<Rightarrow> (w, Inl e)
      | Inr db1 \<Rightarrow>
          (case record_success db1 (Aware now) of
             Inl e \<Rightarrow> (w\<lparr>lw_db := db1\<rparr>, Inl e)
           | Inr db2 \<Rightarrow> (w\<lparr>lw_db := db2\<rparr>, Inr result)))"

text \<open>The body of the \<open>try\<close> block after the work is loaded.\<close>

definition process :: "(json \<Rightarrow> string) \<Rightarrow> queue_row \<Rightarrow> int \<Rightarrow> shadow_work \<Rightarrow> loop_world \<Rightarrow> loop_world \<times> iteration result" where
  "process sha item now work w =
     (case shadow_observe sha (lw_runtime w) (sw_meta work) (sw_observation_id work) (sw_proposals work) (sw_equity work) of
        (rt', Inl e) \<Rightarrow> (w\<lparr>lw_runtime := rt'\<rparr>, Inl e)
      | (rt', Inr _) \<Rightarrow> settle item now PROCESSED (w\<lparr>lw_runtime := rt'\<rparr>))"

text \<open>The handlers: only \<open>ShadowAuditError\<close> may mean that the work was recorded before.\<close>

definition is_audit_error :: "exn \<Rightarrow> bool" where
  "is_audit_error e \<longleftrightarrow> (case e of Raised c _ \<Rightarrow> c = ShadowAuditError | _ \<Rightarrow> False)"

definition run_item :: "(json \<Rightarrow> string) \<Rightarrow> (string \<Rightarrow> shadow_work result) \<Rightarrow> (exn \<Rightarrow> string) \<Rightarrow> loop_config \<Rightarrow> queue_row \<Rightarrow> int
    \<Rightarrow> loop_world \<Rightarrow> loop_world \<times> iteration result" where
  "run_item sha loader repr c item now w =
     (case loader (qr_payload item) of
        Inl e \<Rightarrow> handle_failure sha c item now (repr e) w
      | Inr work \<Rightarrow>
          (case process sha item now work w of
             (w', Inr r) \<Rightarrow> (w', Inr r)
           | (w', Inl e) \<Rightarrow>
               if is_audit_error e
               then
                 (case journal_find sha (sr_journal (lw_runtime w')) (sw_observation_id work) of
                    Inl e' \<Rightarrow> (w', Inl e')
                  | Inr (Some _) \<Rightarrow> settle item now IDEMPOTENT_RECOVERY w'
                  | Inr None \<Rightarrow> handle_failure sha c item now (repr e) w')
               else handle_failure sha c item now (repr e) w'))"

definition run_once :: "(json \<Rightarrow> string) \<Rightarrow> (string \<Rightarrow> shadow_work result) \<Rightarrow> (exn \<Rightarrow> string) \<Rightarrow> loop_config \<Rightarrow> pydatetime
    \<Rightarrow> loop_world \<Rightarrow> loop_world \<times> iteration result" where
  "run_once sha loader repr c clock w =
     (case utc_of ''shadow loop clock must be timezone-aware'' clock of
        Inl e \<Rightarrow> (w, Inl e)
      | Inr now \<Rightarrow>
          (case claim (lw_db w) (Aware now) (lc_lease c) of
             Inl e \<Rightarrow> (w, Inl e)
           | Inr (db, None) \<Rightarrow>
               (case record_heartbeat db (Aware now) ''IDLE'' of
                  Inl e \<Rightarrow> (w\<lparr>lw_db := db\<rparr>, Inl e)
                | Inr db' \<Rightarrow> (w\<lparr>lw_db := db'\<rparr>, Inr IDLE))
           | Inr (db, Some item) \<Rightarrow> run_item sha loader repr c item now (w\<lparr>lw_db := db\<rparr>)))"

text \<open>
  \<open>run_until\<close>: one iteration for each reading of the clock until a stop is requested or one raises; the
  results of the iterations that ended.
\<close>

fun run_until :: "(json \<Rightarrow> string) \<Rightarrow> (string \<Rightarrow> shadow_work result) \<Rightarrow> (exn \<Rightarrow> string) \<Rightarrow> loop_config \<Rightarrow> pydatetime list
    \<Rightarrow> loop_world \<Rightarrow> loop_world \<times> iteration list result" where
  "run_until sha loader repr c [] w = (w, Inr [])"
| "run_until sha loader repr c (t # ts) w =
     (case run_once sha loader repr c t w of
        (w', Inl e) \<Rightarrow> (w', Inl e)
      | (w', Inr r) \<Rightarrow>
          (case run_until sha loader repr c ts w' of
             (w'', Inl e) \<Rightarrow> (w'', Inl e)
           | (w'', Inr rs) \<Rightarrow> (w'', Inr (r # rs))))"

section \<open>Rows and their updates\<close>

lemma row_of_Some: "row_of db i = Some r \<Longrightarrow> r \<in> set (db_rows db) \<and> qr_item r = i"
  by (auto simp: row_of_def find_Some_iff)

lemma row_of_member:
  assumes "distinct (map qr_item (db_rows db))" "r \<in> set (db_rows db)"
  shows "row_of db (qr_item r) = Some r"
proof -
  have "find (\<lambda>s. qr_item s = qr_item r) xs = Some r" if "distinct (map qr_item xs)" "r \<in> set xs" for xs
    using that by (induction xs) auto
  with assms show ?thesis by (simp add: row_of_def)
qed

lemma update_row_rows [simp]: "db_rows (update_row i f db) = map (\<lambda>r. if qr_item r = i then f r else r) (db_rows db)"
  "db_loop (update_row i f db) = db_loop db"
  by (simp_all add: update_row_def)

lemma row_of_update:
  assumes "\<And>r. qr_item (f r) = qr_item r"
  shows "row_of (update_row i f db) i = map_option f (row_of db i)"
proof -
  have "find (\<lambda>r. qr_item r = i) (map (\<lambda>r. if qr_item r = i then f r else r) xs) = map_option f (find (\<lambda>r. qr_item r = i) xs)" for xs
    using assms by (induction xs) auto
  then show ?thesis by (simp add: row_of_def)
qed

lemma row_of_loop [simp]: "row_of (db\<lparr>db_loop := l\<rparr>) i = row_of db i"
  by (simp add: row_of_def)

lemma update_row_twice:
  assumes "\<And>r. qr_item (f r) = qr_item r"
  shows "update_row i g (update_row i f db) = update_row i (g \<circ> f) db"
  using assms by (simp add: update_row_def)

lemma next_row_None: "next_row now db = None \<longleftrightarrow> (\<forall>r \<in> set (db_rows db). \<not> claimable now r)"
proof -
  have "next_row now db = None \<longleftrightarrow> filter (claimable now) (db_rows db) = []" by (simp add: next_row_def split: list.splits)
  then show ?thesis by (simp add: filter_empty_conv)
qed

lemma oldest_member: "fold older rs r \<in> set (r # rs)"
proof (induction rs arbitrary: r)
  case (Cons s rs)
  have "older s r = s \<or> older s r = r" by (simp add: older_def)
  with Cons [of "older s r"] show ?case by auto
qed simp

lemma oldest_least: "claim_key (fold older rs r) \<le> claim_key r \<and> (\<forall>s \<in> set rs. claim_key (fold older rs r) \<le> claim_key s)"
proof (induction rs arbitrary: r)
  case (Cons s rs)
  have "claim_key (older s r) \<le> claim_key r" "claim_key (older s r) \<le> claim_key s" by (auto simp: older_def)
  with Cons [of "older s r"] show ?case by (auto intro: order_trans)
qed simp

lemma next_row_Some:
  assumes "next_row now db = Some r"
  shows "r \<in> set (db_rows db)" "claimable now r" "\<forall>s \<in> set (db_rows db). claimable now s \<longrightarrow> claim_key r \<le> claim_key s"
proof -
  obtain r0 rs where f: "filter (claimable now) (db_rows db) = r0 # rs" "r = fold older rs r0"
    using assms by (auto simp: next_row_def split: list.splits)
  have "r \<in> set (filter (claimable now) (db_rows db))" "\<forall>s \<in> set (filter (claimable now) (db_rows db)). claim_key r \<le> claim_key s"
    using oldest_member [of rs r0] oldest_least [of rs r0] unfolding f by simp_all
  then show "r \<in> set (db_rows db)" "claimable now r"
    "\<forall>s \<in> set (db_rows db). claimable now s \<longrightarrow> claim_key r \<le> claim_key s" by simp_all
qed

section \<open>The order of claims\<close>

text \<open>What the query compares: the texts of the timestamps.\<close>

definition text_claimable :: "string \<Rightarrow> queue_row \<Rightarrow> bool" where
  "text_claimable now r \<longleftrightarrow>
     (qr_status r = PENDING \<and> isoformat (qr_available r) \<le> now) \<or>
     (qr_status r = PROCESSING \<and> (case qr_lease r of None \<Rightarrow> False | Some t \<Rightarrow> isoformat t \<le> now))"

definition text_key :: "queue_row \<Rightarrow> string \<times> string \<times> string" where
  "text_key r = (isoformat (qr_available r), isoformat (qr_created r), qr_item r)"

definition row_in_range :: "queue_row \<Rightarrow> bool" where
  "row_in_range r \<longleftrightarrow>
     instant_in_range (qr_available r) \<and> instant_in_range (qr_created r) \<and>
     (case qr_lease r of None \<Rightarrow> True | Some t \<Rightarrow> instant_in_range t)"

lemma isoformat_le: "instant_in_range a \<Longrightarrow> instant_in_range b \<Longrightarrow> isoformat a \<le> isoformat b \<longleftrightarrow> a \<le> b"
  using isoformat_less [of a b] isoformat_less [of b a] by (cases a b rule: linorder_cases) auto

lemma isoformat_eq: "instant_in_range a \<Longrightarrow> instant_in_range b \<Longrightarrow> isoformat a = isoformat b \<longleftrightarrow> a = b"
  using isoformat_less [of a b] isoformat_less [of b a] by (cases a b rule: linorder_cases) auto

text \<open>
  C33. The queries compare texts, and that is comparing times: for timestamps Python can represent, with
  or without microseconds, an item is claimable by the text of the clock exactly if it is due or its
  lease has run out, and the order of the texts is the order of time.
\<close>

theorem claim_text_order_is_time_order:
  assumes "instant_in_range now" "row_in_range r" "row_in_range s"
  shows "(text_claimable (isoformat now) r \<longleftrightarrow> claimable now r) \<and> (text_key r < text_key s \<longleftrightarrow> claim_key r < claim_key s)"
proof -
  have less: "isoformat a < isoformat b \<longleftrightarrow> a < b" if "instant_in_range a" "instant_in_range b" for a b
    using isoformat_le [OF that(2,1)] by (simp add: not_le [symmetric])
  have "text_claimable (isoformat now) r \<longleftrightarrow> claimable now r"
    using assms(1,2) by (auto simp: text_claimable_def claimable_def row_in_range_def isoformat_le split: option.splits)
  moreover have "text_key r < text_key s \<longleftrightarrow> claim_key r < claim_key s"
    using assms(2,3) by (auto simp: text_key_def claim_key_def row_in_range_def less isoformat_eq less_prod_def isoformat_le)
  ultimately show ?thesis by blast
qed

section \<open>One iteration\<close>

definition loader_ok :: "(string \<Rightarrow> shadow_work result) \<Rightarrow> bool" where
  "loader_ok loader \<longleftrightarrow> (\<forall>u w. loader u = Inr w \<longrightarrow> observe_args_ok (sw_meta w) (sw_proposals w))"

definition loop_config_ok :: "loop_config \<Rightarrow> bool" where
  "loop_config_ok c \<longleftrightarrow> make_loop_config c = Inr c \<and> lc_max_attempts c \<le> 1024"

text \<open>A reading of the clock with room for a lease and a retry before the year 10000.\<close>

definition clock_ok :: "loop_config \<Rightarrow> int \<Rightarrow> bool" where
  "clock_ok c t \<longleftrightarrow>
     instant_in_range t \<and> instant_in_range (t + py_round (num_val (lc_lease c) * 1000000)) \<and>
     instant_in_range (t + py_round (num_val (lc_retry_max c) * 1000000))"

definition row_open :: "queue_row \<Rightarrow> bool" where
  "row_open r \<longleftrightarrow> qr_status r = PENDING \<or> qr_status r = PROCESSING"

text \<open>Distinct items, and no open item with so many attempts that the delay would not be a float.\<close>

definition queue_ok :: "shadow_db \<Rightarrow> bool" where
  "queue_ok db \<longleftrightarrow>
     distinct (map qr_item (db_rows db)) \<and> (\<forall>r \<in> set (db_rows db). row_open r \<longrightarrow> 0 \<le> qr_attempts r \<and> qr_attempts r < 1024)"

lemma py_round_mono: "x \<le> y \<Longrightarrow> py_round x \<le> py_round y"
proof -
  assume le: "x \<le> y"
  have f: "\<lfloor>x\<rfloor> \<le> \<lfloor>y\<rfloor>" using le by (rule floor_mono)
  have b: "\<lfloor>z\<rfloor> \<le> py_round z" "py_round z \<le> \<lfloor>z\<rfloor> + 1" for z by (simp_all add: py_round_def Let_def)
  show ?thesis
  proof (cases "\<lfloor>x\<rfloor> = \<lfloor>y\<rfloor>")
    case True
    then show ?thesis using le by (auto simp: py_round_def Let_def)
  next
    case False
    with f b(2) [of x] b(1) [of y] show ?thesis by linarith
  qed
qed

lemma py_round_0 [simp]: "py_round 0 = 0"
  by (simp add: py_round_def)

lemma in_range_between: "instant_in_range a \<Longrightarrow> instant_in_range b \<Longrightarrow> a \<le> t \<Longrightarrow> t \<le> b \<Longrightarrow> instant_in_range t"
  using utc_date_mono [of a t] utc_date_mono [of t b] by (simp add: instant_in_range_def day_in_range_def)

lemma loop_config_parts:
  assumes "loop_config_ok c"
  shows "isfinite (lc_lease c)" "\<not> num_le (lc_lease c) (Fin 0)" "1 \<le> lc_max_attempts c" "lc_max_attempts c \<le> 1024"
    "1 \<le> lc_max_failures c" "0 < num_val (lc_lease c)" "0 < num_val (lc_retry_base c)"
    "num_val (lc_retry_base c) \<le> num_val (lc_retry_max c)"
proof -
  have p: "\<not> list_ex (\<lambda>v. \<not> isfinite v \<or> num_le v (Fin 0)) [lc_lease c, lc_poll_interval c, lc_retry_base c, lc_retry_max c]"
    "\<not> (lc_max_attempts c < 1 \<or> lc_max_failures c < 1)" "\<not> num_lt (lc_retry_max c) (lc_retry_base c)" "lc_max_attempts c \<le> 1024"
    using assms by (auto simp only: loop_config_ok_def make_loop_config_def split: if_splits)
  then obtain a b d e where v: "lc_lease c = Fin a" "lc_retry_base c = Fin b" "lc_retry_max c = Fin d" "lc_poll_interval c = Fin e"
    by (cases "lc_lease c"; cases "lc_retry_base c"; cases "lc_retry_max c"; cases "lc_poll_interval c") auto
  then show "isfinite (lc_lease c)" "\<not> num_le (lc_lease c) (Fin 0)" "1 \<le> lc_max_attempts c" "lc_max_attempts c \<le> 1024"
    "1 \<le> lc_max_failures c" "0 < num_val (lc_lease c)" "0 < num_val (lc_retry_base c)"
    "num_val (lc_retry_base c) \<le> num_val (lc_retry_max c)"
    using p by auto
qed

text \<open>The delay is a number between nothing and the maximum.\<close>

lemma retry_delay_bounds:
  assumes "loop_config_ok c" "0 \<le> n" "n \<le> 1024"
  obtains d where "retry_delay c n = Inr d" "0 \<le> d" "d \<le> num_val (lc_retry_max c)"
proof -
  have "0 \<le> num_val (lc_retry_base c) * 2 ^ nat (max 0 (n - 1))" using loop_config_parts(7) [OF assms(1)] by simp
  moreover have "0 \<le> num_val (lc_retry_max c)" using loop_config_parts(7,8) [OF assms(1)] by linarith
  ultimately show thesis using that assms(3) by (simp add: retry_delay_def Let_def)
qed

lemma retry_at:
  assumes "clock_ok c t" "0 \<le> d" "d \<le> num_val (lc_retry_max c)"
  obtains u where "after t d = Inr u" "t \<le> u" "u \<le> t + py_round (num_val (lc_retry_max c) * 1000000)"
proof -
  have "py_round 0 \<le> py_round (d * 1000000)" "py_round (d * 1000000) \<le> py_round (num_val (lc_retry_max c) * 1000000)"
    using assms(2,3) by (intro py_round_mono; simp)+
  then have u: "t \<le> t + py_round (d * 1000000)" "t + py_round (d * 1000000) \<le> t + py_round (num_val (lc_retry_max c) * 1000000)"
    by simp_all
  have "instant_in_range (t + py_round (d * 1000000))"
    by (rule in_range_between [OF _ _ u]) (use assms(1) in \<open>simp_all add: clock_ok_def\<close>)
  with u show thesis using that by (simp add: after_def Let_def)
qed

definition claimed_row :: "loop_config \<Rightarrow> int \<Rightarrow> queue_row \<Rightarrow> queue_row" where
  "claimed_row c t r =
     r\<lparr>qr_status := PROCESSING, qr_attempts := qr_attempts r + 1, qr_lease := Some (t + py_round (num_val (lc_lease c) * 1000000))\<rparr>"

lemma claim_cases:
  assumes "loop_config_ok c" "clock_ok c t" "queue_ok db"
  obtains (no_item) "claim db (Aware t) (lc_lease c) = Inr (db, None)" "\<forall>r \<in> set (db_rows db). \<not> claimable t r"
  | (item) r where
      "claim db (Aware t) (lc_lease c) = Inr (update_row (qr_item r) (claimed_row c t) db, Some (claimed_row c t r))"
      "r \<in> set (db_rows db)" "claimable t r" "\<forall>s \<in> set (db_rows db). claimable t s \<longrightarrow> claim_key r \<le> claim_key s"
proof -
  note cfg = loop_config_parts [OF assms(1)]
  have lease: "after t (num_val (lc_lease c)) = Inr (t + py_round (num_val (lc_lease c) * 1000000))"
    using assms(2) by (simp add: after_def clock_ok_def)
  show thesis
  proof (cases "next_row t db")
    case None
    have e: "claim db (Aware t) (lc_lease c) = Inr (db, None)" using cfg(1,2) lease None by (simp add: claim_def)
    have none: "\<forall>r \<in> set (db_rows db). \<not> claimable t r" using None next_row_None [of t db] by simp
    show thesis by (rule no_item [OF e none])
  next
    case (Some r)
    note n = next_row_Some [OF Some]
    have "row_of db (qr_item r) = Some r" using row_of_member assms(3) n(1) by (simp add: queue_ok_def)
    then have "claim db (Aware t) (lc_lease c) = Inr (update_row (qr_item r) (claimed_row c t) db, Some (claimed_row c t r))"
      using cfg(1,2) lease Some by (simp add: claim_def row_of_update claimed_row_def [abs_def] Let_def)
    then show thesis using n by (rule item)
  qed
qed

text \<open>Settling a claimed item, as done, for a retry or as dead.\<close>

abbreviation replace_row :: "queue_row \<Rightarrow> shadow_db \<Rightarrow> loop_state \<Rightarrow> shadow_db" where
  "replace_row row' db l \<equiv> \<lparr>db_rows = map (\<lambda>s. if qr_item s = qr_item row' then row' else s) (db_rows db), db_loop = l\<rparr>"

lemma map_replace:
  assumes "distinct (map qr_item xs)" "r \<in> set xs"
  shows "map (\<lambda>s. if qr_item s = qr_item r then f s else s) xs = map (\<lambda>s. if qr_item s = qr_item r then f r else s) xs"
  using assms by (auto simp: distinct_map inj_on_def)

text \<open>What an iteration that is not idle does to its row.\<close>

definition row_step :: "(string \<Rightarrow> shadow_work result) \<Rightarrow> loop_config \<Rightarrow> int \<Rightarrow> string list \<Rightarrow> queue_row \<Rightarrow> queue_row \<Rightarrow> iteration \<Rightarrow> bool" where
  "row_step loader c t ids row row' res \<longleftrightarrow>
     qr_item row' = qr_item row \<and> qr_payload row' = qr_payload row \<and> qr_attempts row' = qr_attempts row + 1 \<and> qr_lease row' = None \<and>
     (case res of
        IDLE \<Rightarrow> False
      | RETRY_SCHEDULED \<Rightarrow> qr_status row' = PENDING \<and> qr_attempts row' < lc_max_attempts c \<and> t \<le> qr_available row' \<and>
          qr_available row' \<le> t + py_round (num_val (lc_retry_max c) * 1000000)
      | DEAD_LETTERED \<Rightarrow> qr_status row' = DEAD \<and> lc_max_attempts c \<le> qr_attempts row'
      | _ \<Rightarrow> qr_status row' = DONE \<and> qr_available row' = qr_available row \<and>
          (\<exists>work. loader (qr_payload row) = Inr work \<and> sw_observation_id work \<in> set ids))"

lemma claimed_row_parts [simp]:
  "qr_item (claimed_row c t r) = qr_item r" "qr_payload (claimed_row c t r) = qr_payload r"
  "qr_attempts (claimed_row c t r) = qr_attempts r + 1" "qr_status (claimed_row c t r) = PROCESSING"
  "qr_available (claimed_row c t r) = qr_available r"
  by (simp_all add: claimed_row_def)

lemma row_of_claimed:
  assumes "queue_ok db" "r \<in> set (db_rows db)"
  shows "row_of (update_row (qr_item r) (claimed_row c t) db) (qr_item r) = Some (claimed_row c t r)"
  using row_of_member [of db r] assms by (simp add: row_of_update queue_ok_def)

lemma update_claimed:
  assumes "queue_ok db" "r \<in> set (db_rows db)" "\<And>s. qr_item (g s) = qr_item s"
  shows "(update_row (qr_item r) g (update_row (qr_item r) (claimed_row c t) db))\<lparr>db_loop := l\<rparr> =
    replace_row (g (claimed_row c t r)) db l"
proof -
  have "map (\<lambda>s. if qr_item s = qr_item r then (g \<circ> claimed_row c t) s else s) (db_rows db) =
      map (\<lambda>s. if qr_item s = qr_item r then (g \<circ> claimed_row c t) r else s) (db_rows db)"
    using assms(1,2) by (intro map_replace) (simp_all add: queue_ok_def)
  then show ?thesis
    using assms(3) by (subst update_row_twice) (simp_all add: update_row_def)
qed

lemma settle_claimed:
  assumes "queue_ok db" "r \<in> set (db_rows db)" "lw_db w = update_row (qr_item r) (claimed_row c t) db"
  obtains l row' where "settle (claimed_row c t r) t res w = (w\<lparr>lw_db := replace_row row' db l\<rparr>, Inr res)"
    "qr_item row' = qr_item r" "qr_payload row' = qr_payload r" "qr_attempts row' = qr_attempts r + 1" "qr_lease row' = None"
    "qr_status row' = DONE" "qr_available row' = qr_available r"
proof -
  let ?g = "\<lambda>r. r\<lparr>qr_status := DONE, qr_lease := None, qr_completed := Some t, qr_error := None\<rparr>"
  let ?db = "update_row (qr_item r) ?g (update_row (qr_item r) (claimed_row c t) db)"
  have a: "acknowledge (lw_db w) (qr_item r) (Aware t) = Inr ?db"
    by (simp add: acknowledge_def assms(3) row_of_claimed [OF assms(1,2)])
  obtain l where "record_success ?db (Aware t) = Inr (?db\<lparr>db_loop := l\<rparr>)" by (simp add: record_success_def)
  moreover have "?db\<lparr>db_loop := l\<rparr> = replace_row (?g (claimed_row c t r)) db l" by (rule update_claimed [OF assms(1,2)]) simp
  ultimately have "settle (claimed_row c t r) t res w = (w\<lparr>lw_db := replace_row (?g (claimed_row c t r)) db l\<rparr>, Inr res)"
    using a by (simp add: settle_def)
  then show thesis by (rule that) simp_all
qed

lemma record_failure_Inr:
  assumes "\<not> blank error"
  obtains l where "record_failure db (Aware t) error = Inr (db\<lparr>db_loop := l\<rparr>, ls_consecutive l)"
proof -
  let ?l = "(db_loop db)\<lparr>ls_status := ''DEGRADED'', ls_consecutive := ls_consecutive (db_loop db) + 1,
    ls_failures := ls_failures (db_loop db) + 1, ls_heartbeat := Some t, ls_error := Some error\<rparr>"
  have "record_failure db (Aware t) error = Inr (db\<lparr>db_loop := ?l\<rparr>, ls_consecutive ?l)"
    using assms by (simp add: record_failure_def)
  then show thesis by (rule that)
qed

text \<open>
  What a failure at the threshold leaves: the kill switch that was on before and no new record; or the
  hold, in the engine and as the one new record of the journal; or an older record under its id.
\<close>

definition hold_outcome :: "shadow_runtime \<Rightarrow> queue_row \<Rightarrow> int \<Rightarrow> int audit_record list \<Rightarrow> int audit_record list
    \<Rightarrow> shadow_runtime \<Rightarrow> bool" where
  "hold_outcome rt item t rs new rt' \<longleftrightarrow>
     (pe_kill_reason (sr_engine rt) \<noteq> None \<and> pe_kill_reason (sr_engine rt') = pe_kill_reason (sr_engine rt) \<and> new = []) \<or>
     (pe_kill_reason (sr_engine rt) = None \<and>
      (\<exists>y reason. new = [y] \<and> ar_observation_id y = hold_id (sr_context rt') item \<and> ar_status y = SHADOW_SAFETY_HOLD \<and>
         ar_decided_at y = t \<and> ar_risk_reasons y = [reason] \<and> pe_kill_reason (sr_engine rt') = Some reason)) \<or>
     hold_id (sr_context rt') item \<in> set (map ar_observation_id rs)"

text \<open>A failure: the row waits for its retry or is dead, and at the threshold the session is held.\<close>

lemma handle_failure_claimed:
  assumes "hex_digest sha" "shadow_ok sha (lw_runtime w) rs" "loop_config_ok c" "clock_ok c t" "queue_ok db"
    "r \<in> set (db_rows db)" "row_open r" "lw_db w = update_row (qr_item r) (claimed_row c t) db" "\<not> blank error"
  obtains res row' l rt' new where
    "handle_failure sha c (claimed_row c t r) t error w = (\<lparr>lw_db = replace_row row' db l, lw_runtime = rt'\<rparr>, Inr res)"
    "\<And>ids. row_step loader c t ids r row' res" "shadow_ok sha rt' (rs @ new)" "sr_context rt' = sr_context (lw_runtime w)"
    "res \<noteq> PROCESSED" "res \<noteq> IDEMPOTENT_RECOVERY"
    "lc_max_failures c \<le> ls_consecutive l \<Longrightarrow>
      hold_outcome (lw_runtime w) (claimed_row c t r) t rs new rt'"
    "pe_kill_reason (sr_engine (lw_runtime w)) \<noteq> None \<Longrightarrow> pe_kill_reason (sr_engine rt') \<noteq> None"
proof -
  let ?item = "claimed_row c t r"
  have n: "0 \<le> qr_attempts r + 1" "qr_attempts r + 1 \<le> 1024" using assms(5-7) by (auto simp: queue_ok_def)
  obtain d where d: "retry_delay c (qr_attempts r + 1) = Inr d" "0 \<le> d" "d \<le> num_val (lc_retry_max c)"
    by (rule retry_delay_bounds [OF assms(3) n])
  obtain u where u: "after t d = Inr u" "t \<le> u" "u \<le> t + py_round (num_val (lc_retry_max c) * 1000000)"
    by (rule retry_at [OF assms(4) d(2,3)])
  define status where "status = (if lc_max_attempts c \<le> qr_attempts r + 1 then DEAD else PENDING)"
  let ?g = "\<lambda>r. r\<lparr>qr_status := status, qr_available := u, qr_lease := None, qr_error := Some error,
    qr_completed := (if status = DEAD then Some t else None)\<rparr>"
  let ?row = "?g ?item"
  let ?db1 = "update_row (qr_item r) ?g (update_row (qr_item r) (claimed_row c t) db)"
  define res where "res = (if status = DEAD then DEAD_LETTERED else RETRY_SCHEDULED)"
  have retry: "retry_or_dead_letter (lw_db w) (qr_item r) error (Aware t) (Aware u) (lc_max_attempts c) = Inr (?db1, status)"
    using assms(9) loop_config_parts(3) [OF assms(3)]
    by (simp add: retry_or_dead_letter_def assms(8) row_of_claimed [OF assms(5,6)] status_def Let_def)
  obtain l where l: "record_failure ?db1 (Aware t) error = Inr (?db1\<lparr>db_loop := l\<rparr>, ls_consecutive l)"
    by (rule record_failure_Inr [OF assms(9)])
  have db2: "?db1\<lparr>db_loop := l\<rparr> = replace_row ?row db l" by (rule update_claimed [OF assms(5,6)]) simp
  have step: "row_step loader c t ids r ?row res" for ids
    using u(2,3) by (auto simp: row_step_def res_def status_def)
  let ?due = "lc_max_failures c \<le> ls_consecutive l \<and> pe_kill_reason (sr_engine (lw_runtime w)) = None"
  let ?rt = "lw_runtime w"
  have eq: "handle_failure sha c ?item t error w =
      (if ?due then
         (case threshold_hold sha ?item t error ?rt of
            (rt', Inl e) \<Rightarrow> (\<lparr>lw_db = replace_row ?row db l, lw_runtime = rt'\<rparr>, Inl e)
          | (rt', Inr _) \<Rightarrow> (\<lparr>lw_db = replace_row ?row db l, lw_runtime = rt'\<rparr>, Inr res))
       else (w\<lparr>lw_db := replace_row ?row db l\<rparr>, Inr res))"
    by (simp add: handle_failure_def d(1) u(1) retry l db2 res_def Let_def del: update_row_rows)
  show thesis
  proof (cases ?due)
    case False
    then have e: "handle_failure sha c ?item t error w = (\<lparr>lw_db = replace_row ?row db l, lw_runtime = ?rt\<rparr>, Inr res)"
      using eq by (simp only: if_False) (cases w; simp)
    show thesis by (rule that [OF e step, of "[]"]) (use assms(2) False in \<open>auto simp: res_def hold_outcome_def\<close>)
  next
    case True
    let ?i = "hold_id (sr_context ?rt) ?item"
    have j: "verify_lines sha (aj_lines (sr_journal ?rt)) = Inr rs" "aj_ids (sr_journal ?rt) = map ar_observation_id rs"
      using assms(2) by (simp_all add: shadow_ok_def journal_ok_def)
    show thesis
    proof (cases "find (\<lambda>x. ar_observation_id x = ?i) rs")
      case (Some x)
      then have "x \<in> set rs" "ar_observation_id x = ?i" by (auto simp: find_Some_iff)
      then have "?i \<in> set (map ar_observation_id rs)" by (metis image_eqI set_map)
      moreover have "threshold_hold sha ?item t error ?rt = (?rt, Inr ())"
        using Some by (simp add: threshold_hold_def journal_find_def j(1) Let_def)
      then have "handle_failure sha c ?item t error w = (\<lparr>lw_db = replace_row ?row db l, lw_runtime = ?rt\<rparr>, Inr res)"
        using eq True by simp
      ultimately show thesis by (intro that [OF _ step, of l ?rt "[]"]) (use assms(2) in \<open>auto simp: res_def hold_outcome_def\<close>)
    next
      case None
      then have fresh: "?i \<notin> set (aj_ids (sr_journal ?rt))" by (auto simp: j(2) find_None_iff)
      have i: "\<not> blank ?i" using assms(2) by (auto simp: shadow_ok_def context_ok_def hold_id_def blank_iff)
      have why: "\<not> blank (''shadow event loop failure threshold: '' @ error)" using assms(9) by (auto simp: blank_iff)
      have t: "instant_in_range t" using assms(4) by (simp add: clock_ok_def)
      obtain rt' y where h: "activate_safety_hold sha ?rt ?i (''shadow event loop failure threshold: '' @ error) (Aware t) = (rt', Inr y)"
          "shadow_ok sha rt' (rs @ [y])"
          "sr_engine rt' = (restored_engine (sr_engine ?rt))\<lparr>pe_kill_reason := Some (''shadow event loop failure threshold: '' @ error)\<rparr>"
        by (rule safety_hold_succeeds [OF assms(1,2) t i fresh why])
      have ctx: "sr_context rt' = sr_context ?rt"
        by (rule safety_hold_cases [OF assms(1,2) _ h(1)]) (use t in simp_all)
      have "hold_outcome ?rt ?item t rs [y] rt'"
        using safety_hold_record [OF h(1)] True h(3) by (simp add: hold_outcome_def ctx)
      moreover have "threshold_hold sha ?item t error ?rt = (rt', Inr ())"
        using None h(1) by (simp add: threshold_hold_def journal_find_def j(1) Let_def)
      then have "handle_failure sha c ?item t error w = (\<lparr>lw_db = replace_row ?row db l, lw_runtime = rt'\<rparr>, Inr res)"
        using eq True by simp
      ultimately show thesis by (intro that [OF _ step h(2) ctx]) (use h(3) in \<open>auto simp: res_def\<close>)
    qed
  qed
qed

text \<open>An observation of valid arguments is recorded under its id or refused without a trace.\<close>

lemma observe_records:
  assumes "hex_digest sha" "shadow_ok sha rt rs" "observe_args_ok m ps" "shadow_observe sha rt m i ps v = (rt', res)"
  shows "(\<exists>e. res = Inl e \<and> rt' = rt) \<or>
    (\<exists>r. res = Inr r \<and> shadow_ok sha rt' (rs @ [r]) \<and> ar_observation_id r = i \<and> sr_context rt' = sr_context rt \<and>
       (pe_kill_reason (sr_engine rt) \<noteq> None \<longrightarrow> pe_kill_reason (sr_engine rt') \<noteq> None))"
proof (cases res)
  case (Inl e)
  show ?thesis by (rule shadow_observe_cases [OF assms]) (use Inl in auto)
next
  case (Inr r)
  have "shadow_ok sha rt' (rs @ [r]) \<and> sr_context rt' = sr_context rt \<and>
      (pe_kill_reason (sr_engine rt) \<noteq> None \<longrightarrow> pe_kill_reason (sr_engine rt') \<noteq> None)"
    by (rule shadow_observe_cases [OF assms]) (use Inr in auto)
  moreover have "ar_observation_id r = i"
    using assms(4) Inr
    by (auto simp: shadow_observe_def shadow_record_def make_audit_record_cases record_of_def split: sum.splits if_splits prod.splits)
  ultimately show ?thesis using Inr by blast
qed

lemma world_update:
  "w\<lparr>lw_db := db\<rparr> = \<lparr>lw_db = db, lw_runtime = lw_runtime w\<rparr>"
  "w\<lparr>lw_runtime := rt, lw_db := db\<rparr> = \<lparr>lw_db = db, lw_runtime = rt\<rparr>"
  by (cases w; simp)+

text \<open>The world between iterations.\<close>

definition world_ok :: "(json \<Rightarrow> string) \<Rightarrow> loop_world \<Rightarrow> int audit_record list \<Rightarrow> bool" where
  "world_ok sha w rs \<longleftrightarrow> shadow_ok sha (lw_runtime w) rs \<and> queue_ok (lw_db w)"

text \<open>
  One iteration never raises: nothing was due, or the oldest due item took one step, with the records of
  the journal growing.
\<close>

lemma run_item_step:
  assumes "hex_digest sha" "shadow_ok sha (lw_runtime w) rs" "loop_config_ok c" "loader_ok loader" "\<forall>e. \<not> blank (rep e)"
    "clock_ok c t" "queue_ok db" "r \<in> set (db_rows db)" "row_open r" "lw_db w = update_row (qr_item r) (claimed_row c t) db"
  obtains res row' l rt' new where
    "run_item sha loader rep c (claimed_row c t r) t w = (\<lparr>lw_db = replace_row row' db l, lw_runtime = rt'\<rparr>, Inr res)"
    "row_step loader c t (map ar_observation_id (rs @ new)) r row' res" "shadow_ok sha rt' (rs @ new)"
    "res \<in> {RETRY_SCHEDULED, DEAD_LETTERED} \<Longrightarrow> lc_max_failures c \<le> ls_consecutive l \<Longrightarrow>
      hold_outcome (lw_runtime w) (claimed_row c t r) t rs new rt'"
    "pe_kill_reason (sr_engine (lw_runtime w)) \<noteq> None \<Longrightarrow> pe_kill_reason (sr_engine rt') \<noteq> None"
    "sr_context rt' = sr_context (lw_runtime w)"
proof -
  let ?item = "claimed_row c t r"
  note failure = handle_failure_claimed [OF assms(1,2,3,6-10)]
  have nb: "\<not> blank (rep e)" for e using assms(5) by blast
  show thesis
  proof (cases "loader (qr_payload r)")
    case (Inl e)
    then have eq: "run_item sha loader rep c ?item t w = handle_failure sha c ?item t (rep e) w" by (simp add: run_item_def)
    show thesis
    proof (rule failure [OF nb [of e]])
      fix res row' l rt' new
      assume f: "handle_failure sha c ?item t (rep e) w = (\<lparr>lw_db = replace_row row' db l, lw_runtime = rt'\<rparr>, Inr res)"
        "\<And>ids. row_step loader c t ids r row' res" "shadow_ok sha rt' (rs @ new)" "sr_context rt' = sr_context (lw_runtime w)"
        "lc_max_failures c \<le> ls_consecutive l \<Longrightarrow>
          hold_outcome (lw_runtime w) ?item t rs new rt'"
        "pe_kill_reason (sr_engine (lw_runtime w)) \<noteq> None \<Longrightarrow> pe_kill_reason (sr_engine rt') \<noteq> None"
      show thesis by (rule that [OF f(1) [folded eq] f(2) f(3) f(5) f(6) f(4)])
    qed
  next
    case (Inr work)
    obtain rt' res where o: "shadow_observe sha (lw_runtime w) (sw_meta work) (sw_observation_id work) (sw_proposals work)
        (sw_equity work) = (rt', res)" by fastforce
    have args: "observe_args_ok (sw_meta work) (sw_proposals work)" using assms(4) Inr by (auto simp: loader_ok_def)
    from observe_records [OF assms(1,2) args o] show thesis
    proof
      assume "\<exists>e. res = Inl e \<and> rt' = lw_runtime w"
      then obtain e where e: "res = Inl e" "rt' = lw_runtime w" by blast
      have p: "process sha ?item t work w = (w, Inl e)" by (simp add: process_def o e)
      have v: "verify_lines sha (aj_lines (sr_journal (lw_runtime w))) = Inr rs"
        using assms(2) by (simp add: shadow_ok_def journal_ok_def)
      show thesis
      proof (cases "is_audit_error e \<and> find (\<lambda>x. ar_observation_id x = sw_observation_id work) rs \<noteq> None")
        case True
        then obtain x where x: "find (\<lambda>x. ar_observation_id x = sw_observation_id work) rs = Some x" by auto
        then have "x \<in> set rs" "ar_observation_id x = sw_observation_id work" by (auto simp: find_Some_iff)
        then have mem: "sw_observation_id work \<in> set (map ar_observation_id rs)" by (metis image_eqI set_map)
        obtain l row' where s: "settle ?item t IDEMPOTENT_RECOVERY w = (w\<lparr>lw_db := replace_row row' db l\<rparr>, Inr IDEMPOTENT_RECOVERY)"
          "qr_item row' = qr_item r" "qr_payload row' = qr_payload r" "qr_attempts row' = qr_attempts r + 1" "qr_lease row' = None"
          "qr_status row' = DONE" "qr_available row' = qr_available r"
          by (rule settle_claimed [OF assms(7,8,10)])
        have "run_item sha loader rep c ?item t w = (\<lparr>lw_db = replace_row row' db l, lw_runtime = lw_runtime w\<rparr>, Inr IDEMPOTENT_RECOVERY)"
          using True x s(1) by (simp add: run_item_def Inr p journal_find_def v world_update)
        then show thesis
          by (rule that [where new = "[]"]) (use s mem assms(2) Inr in \<open>simp_all add: row_step_def\<close>)
      next
        case False
        have eq: "run_item sha loader rep c ?item t w = handle_failure sha c ?item t (rep e) w"
          using False by (auto simp: run_item_def Inr p journal_find_def v split: option.splits)
        show thesis
        proof (rule failure [OF nb [of e]])
      fix res row' l rt' new
      assume f: "handle_failure sha c ?item t (rep e) w = (\<lparr>lw_db = replace_row row' db l, lw_runtime = rt'\<rparr>, Inr res)"
        "\<And>ids. row_step loader c t ids r row' res" "shadow_ok sha rt' (rs @ new)" "sr_context rt' = sr_context (lw_runtime w)"
        "lc_max_failures c \<le> ls_consecutive l \<Longrightarrow>
          hold_outcome (lw_runtime w) ?item t rs new rt'"
        "pe_kill_reason (sr_engine (lw_runtime w)) \<noteq> None \<Longrightarrow> pe_kill_reason (sr_engine rt') \<noteq> None"
      show thesis by (rule that [OF f(1) [folded eq] f(2) f(3) f(5) f(6) f(4)])
    qed
      qed
    next
      assume "\<exists>y. res = Inr y \<and> shadow_ok sha rt' (rs @ [y]) \<and> ar_observation_id y = sw_observation_id work \<and>
        sr_context rt' = sr_context (lw_runtime w) \<and>
        (pe_kill_reason (sr_engine (lw_runtime w)) \<noteq> None \<longrightarrow> pe_kill_reason (sr_engine rt') \<noteq> None)"
      then obtain y where y: "res = Inr y" "shadow_ok sha rt' (rs @ [y])" "ar_observation_id y = sw_observation_id work"
        "sr_context rt' = sr_context (lw_runtime w)"
        "pe_kill_reason (sr_engine (lw_runtime w)) \<noteq> None \<Longrightarrow> pe_kill_reason (sr_engine rt') \<noteq> None" by blast
      have db: "lw_db (w\<lparr>lw_runtime := rt'\<rparr>) = update_row (qr_item r) (claimed_row c t) db" using assms(10) by simp
      obtain l row' where s: "settle ?item t PROCESSED (w\<lparr>lw_runtime := rt'\<rparr>) =
            (w\<lparr>lw_runtime := rt', lw_db := replace_row row' db l\<rparr>, Inr PROCESSED)"
          "qr_item row' = qr_item r" "qr_payload row' = qr_payload r" "qr_attempts row' = qr_attempts r + 1" "qr_lease row' = None"
          "qr_status row' = DONE" "qr_available row' = qr_available r"
        by (rule settle_claimed [OF assms(7,8) db])
      have "run_item sha loader rep c ?item t w = (\<lparr>lw_db = replace_row row' db l, lw_runtime = rt'\<rparr>, Inr PROCESSED)"
        using s(1) by (simp add: run_item_def Inr process_def o y(1) world_update)
      then show thesis
        by (rule that [OF _ _ y(2)]) (use s y Inr in \<open>simp_all add: row_step_def\<close>)
    qed
  qed
qed

lemma claimable_open: "claimable t r \<Longrightarrow> row_open r"
  by (auto simp: claimable_def row_open_def)

lemma run_once_cases:
  assumes "hex_digest sha" "world_ok sha w rs" "loop_config_ok c" "loader_ok loader" "\<forall>e. \<not> blank (rep e)" "clock_ok c t"
  obtains (idle) l where "run_once sha loader rep c (Aware t) w = (w\<lparr>lw_db := (lw_db w)\<lparr>db_loop := l\<rparr>\<rparr>, Inr IDLE)"
      "\<forall>r \<in> set (db_rows (lw_db w)). \<not> claimable t r"
  | (item) r row' l rt' new res where
      "run_once sha loader rep c (Aware t) w = (\<lparr>lw_db = replace_row row' (lw_db w) l, lw_runtime = rt'\<rparr>, Inr res)"
      "r \<in> set (db_rows (lw_db w))" "claimable t r" "\<forall>s \<in> set (db_rows (lw_db w)). claimable t s \<longrightarrow> claim_key r \<le> claim_key s"
      "row_step loader c t (map ar_observation_id (rs @ new)) r row' res" "shadow_ok sha rt' (rs @ new)"
      "res \<in> {RETRY_SCHEDULED, DEAD_LETTERED} \<Longrightarrow> lc_max_failures c \<le> ls_consecutive l \<Longrightarrow>
        hold_outcome (lw_runtime w) (claimed_row c t r) t rs new rt'"
      "pe_kill_reason (sr_engine (lw_runtime w)) \<noteq> None \<Longrightarrow> pe_kill_reason (sr_engine rt') \<noteq> None"
      "sr_context rt' = sr_context (lw_runtime w)"
proof -
  have q: "queue_ok (lw_db w)" "shadow_ok sha (lw_runtime w) rs" using assms(2) by (simp_all add: world_ok_def)
  show thesis
  proof (rule claim_cases [OF assms(3,6) q(1)])
    assume n: "claim (lw_db w) (Aware t) (lc_lease c) = Inr (lw_db w, None)" "\<forall>r \<in> set (db_rows (lw_db w)). \<not> claimable t r"
    obtain l where "record_heartbeat (lw_db w) (Aware t) ''IDLE'' = Inr ((lw_db w)\<lparr>db_loop := l\<rparr>)"
      by (simp add: record_heartbeat_def)
    then have "run_once sha loader rep c (Aware t) w = (w\<lparr>lw_db := (lw_db w)\<lparr>db_loop := l\<rparr>\<rparr>, Inr IDLE)"
      by (simp add: run_once_def n(1))
    then show thesis using n(2) by (rule idle)
  next
    fix r
    assume r: "claim (lw_db w) (Aware t) (lc_lease c) =
        Inr (update_row (qr_item r) (claimed_row c t) (lw_db w), Some (claimed_row c t r))"
      "r \<in> set (db_rows (lw_db w))" "claimable t r" "\<forall>s \<in> set (db_rows (lw_db w)). claimable t s \<longrightarrow> claim_key r \<le> claim_key s"
    let ?w = "w\<lparr>lw_db := update_row (qr_item r) (claimed_row c t) (lw_db w)\<rparr>"
    have eq: "run_once sha loader rep c (Aware t) w = run_item sha loader rep c (claimed_row c t r) t ?w"
      by (simp add: run_once_def r(1))
    have sh: "shadow_ok sha (lw_runtime ?w) rs" using q(2) by simp
    have dbw: "lw_db ?w = update_row (qr_item r) (claimed_row c t) (lw_db w)" by simp
    show thesis
      by (rule run_item_step [OF assms(1) sh assms(3-6) q(1) r(2) claimable_open [OF r(3)] dbw])
        (rule item [OF _ r(2-4)], unfold eq, (assumption | simp)+)
  qed
qed

lemma replace_rows:
  "r \<in> set (db_rows db) \<Longrightarrow> qr_item row' = qr_item r \<Longrightarrow>
   map qr_item (map (\<lambda>s. if qr_item s = qr_item row' then row' else s) (db_rows db)) = map qr_item (db_rows db)"
  by (auto simp: comp_def)

lemma row_step_parts:
  assumes "row_step loader c t ids r row' res"
  shows "qr_item row' = qr_item r" "row_open row' \<Longrightarrow> res = RETRY_SCHEDULED \<and> qr_attempts row' < lc_max_attempts c \<and>
    qr_attempts row' = qr_attempts r + 1 \<and> qr_status row' = PENDING \<and>
    qr_available row' \<le> t + py_round (num_val (lc_retry_max c) * 1000000)"
  using assms by (cases res; auto simp: row_step_def row_open_def)+

lemma world_after_step:
  assumes "loop_config_ok c" "queue_ok db" "r \<in> set (db_rows db)" "row_open r" "row_step loader c t ids r row' res"
  shows "queue_ok (replace_row row' db l)"
proof -
  note p = row_step_parts [OF assms(5)]
  have "0 \<le> qr_attempts s \<and> qr_attempts s < 1024" if s: "s \<in> set (db_rows (replace_row row' db l))" "row_open s" for s
  proof (cases "s = row'")
    case True
    with p(2) s(2) assms(2-4) loop_config_parts(4) [OF assms(1)] show ?thesis by (auto simp: queue_ok_def)
  next
    case False
    with s have "s \<in> set (db_rows db)" by (auto split: if_splits)
    with s(2) assms(2) show ?thesis by (auto simp: queue_ok_def)
  qed
  moreover have "map qr_item (db_rows (replace_row row' db l)) = map qr_item (db_rows db)"
    using replace_rows [OF assms(3) p(1)] by (simp only: shadow_db.select_convs)
  then have "distinct (map qr_item (db_rows (replace_row row' db l)))" using assms(2) by (simp only: queue_ok_def)
  ultimately show ?thesis unfolding queue_ok_def by blast
qed

section \<open>Draining the queue\<close>

text \<open>How many iterations an item can still take.\<close>

definition work_left :: "loop_config \<Rightarrow> queue_row \<Rightarrow> nat" where
  "work_left c r = (if row_open r then nat (max 1 (lc_max_attempts c - qr_attempts r)) else 0)"

lemma work_left_0: "work_left c r = 0 \<longleftrightarrow> \<not> row_open r"
  by (simp add: work_left_def)

definition backlog :: "loop_config \<Rightarrow> shadow_db \<Rightarrow> nat" where
  "backlog c db = sum_list (map (work_left c) (db_rows db))"

lemma sum_replace:
  fixes f :: "queue_row \<Rightarrow> nat"
  assumes "distinct (map qr_item xs)" "r \<in> set xs" "qr_item row' = qr_item r"
  shows "sum_list (map f (map (\<lambda>s. if qr_item s = qr_item row' then row' else s) xs)) + f r = sum_list (map f xs) + f row'"
  using assms
proof (induction xs)
  case (Cons x xs)
  show ?case
  proof (cases "x = r")
    case True
    have "map (\<lambda>s. if qr_item s = qr_item row' then row' else s) xs = xs"
    proof (rule map_idI)
      fix s assume "s \<in> set xs"
      then have "qr_item s \<noteq> qr_item row'" using Cons.prems(1,3) True by (metis distinct.simps(2) image_eqI list.map(2) set_map)
      then show "(if qr_item s = qr_item row' then row' else s) = s" by simp
    qed
    then show ?thesis using True Cons.prems(3) by (simp add: comp_def)
  next
    case False
    then have "r \<in> set xs" "qr_item x \<noteq> qr_item row'" using Cons.prems by auto
    with Cons show ?thesis by simp
  qed
qed simp

lemma backlog_step:
  assumes "queue_ok db" "r \<in> set (db_rows db)" "row_open r" "row_step loader c t ids r row' res"
  shows "backlog c (replace_row row' db l) < backlog c db"
proof -
  note p = row_step_parts [OF assms(4)]
  have "work_left c row' < work_left c r"
    using p(2) assms(3) by (auto simp: work_left_def)
  moreover have "backlog c (replace_row row' db l) + work_left c r = backlog c db + work_left c row'"
    using sum_replace [OF _ assms(2) p(1)] assms(1) by (simp add: backlog_def queue_ok_def)
  ultimately show ?thesis by linarith
qed

text \<open>Readings of the clock far enough apart that a retry is due at the next.\<close>

fun spaced :: "loop_config \<Rightarrow> int list \<Rightarrow> bool" where
  "spaced c (t # u # ts) \<longleftrightarrow> t + py_round (num_val (lc_retry_max c) * 1000000) \<le> u \<and> spaced c (u # ts)"
| "spaced c _ \<longleftrightarrow> True"

definition all_due :: "int \<Rightarrow> shadow_db \<Rightarrow> bool" where
  "all_due t db \<longleftrightarrow> (\<forall>r \<in> set (db_rows db). row_open r \<longrightarrow> claimable t r)"

lemma claimable_later: "claimable t r \<Longrightarrow> t \<le> u \<Longrightarrow> claimable u r"
  by (auto simp: claimable_def split: option.splits)

lemma run_until_drains:
  assumes "hex_digest sha" "loop_config_ok c" "loader_ok loader" "\<forall>e. \<not> blank (rep e)"
  shows "world_ok sha w rs \<Longrightarrow> list_all (clock_ok c) ts \<Longrightarrow> spaced c ts \<Longrightarrow> (ts \<noteq> [] \<Longrightarrow> all_due (hd ts) (lw_db w)) \<Longrightarrow>
    backlog c (lw_db w) \<le> length ts \<Longrightarrow>
    \<exists>w' res. run_until sha loader rep c (map Aware ts) w = (w', Inr res) \<and> length res = length ts \<and>
      (\<forall>r \<in> set (db_rows (lw_db w')). \<not> row_open r)"
proof (induction ts arbitrary: w rs)
  case Nil
  have "work_left c r = 0" if "r \<in> set (db_rows (lw_db w))" for r
    using Nil.prems(5) that by (auto simp: backlog_def)
  then show ?case by (simp add: work_left_0)
next
  case (Cons t ts)
  have clock: "clock_ok c t" "list_all (clock_ok c) ts" using Cons.prems(2) by simp_all
  have delay: "0 \<le> py_round (num_val (lc_retry_max c) * 1000000)"
    using py_round_mono [of 0 "num_val (lc_retry_max c) * 1000000"] loop_config_parts(7,8) [OF assms(2)] by simp
  have next_t: "t + py_round (num_val (lc_retry_max c) * 1000000) \<le> hd ts \<and> spaced c ts" if "ts \<noteq> []"
    using Cons.prems(3) that by (cases ts) auto
  then have sp: "spaced c ts" by (cases "ts = []") auto
  have due: "all_due t (lw_db w)" using Cons.prems(4) by simp
  have q: "queue_ok (lw_db w)" using Cons.prems(1) by (simp add: world_ok_def)
  show ?case
  proof (rule run_once_cases [OF assms(1) Cons.prems(1) assms(2-4) clock(1)])
    fix l
    assume idle: "run_once sha loader rep c (Aware t) w = (w\<lparr>lw_db := (lw_db w)\<lparr>db_loop := l\<rparr>\<rparr>, Inr IDLE)"
      "\<forall>r \<in> set (db_rows (lw_db w)). \<not> claimable t r"
    let ?w = "w\<lparr>lw_db := (lw_db w)\<lparr>db_loop := l\<rparr>\<rparr>"
    have closed: "\<forall>r \<in> set (db_rows (lw_db w)). \<not> row_open r" using idle(2) due by (auto simp: all_due_def)
    have ok: "world_ok sha ?w rs" using Cons.prems(1) by (simp add: world_ok_def queue_ok_def)
    have due': "ts \<noteq> [] \<Longrightarrow> all_due (hd ts) (lw_db ?w)" using closed by (simp add: all_due_def)
    have "work_left c r = 0" if "r \<in> set (db_rows (lw_db w))" for r using closed that by (simp add: work_left_def)
    then have "backlog c (lw_db ?w) = 0" by (simp add: backlog_def)
    then have "backlog c (lw_db ?w) \<le> length ts" by linarith
    from Cons.IH [OF ok clock(2) sp due' this] idle(1) show ?case by auto
  next
    fix r row' l rt' new res
    assume a: "run_once sha loader rep c (Aware t) w = (\<lparr>lw_db = replace_row row' (lw_db w) l, lw_runtime = rt'\<rparr>, Inr res)"
      "r \<in> set (db_rows (lw_db w))" "claimable t r"
      "row_step loader c t (map ar_observation_id (rs @ new)) r row' res" "shadow_ok sha rt' (rs @ new)"
    let ?w = "\<lparr>lw_db = replace_row row' (lw_db w) l, lw_runtime = rt'\<rparr>"
    note op = claimable_open [OF a(3)] and p = row_step_parts [OF a(4)]
    have ok: "world_ok sha ?w (rs @ new)"
      using a(5) world_after_step [OF assms(2) q a(2) op a(4)] by (simp add: world_ok_def)
    have due': "all_due (hd ts) (lw_db ?w)" if "ts \<noteq> []"
    proof -
      have "claimable (hd ts) s" if s: "s \<in> set (db_rows (lw_db ?w))" "row_open s" for s
      proof (cases "s = row'")
        case True
        with p(2) s(2) next_t \<open>ts \<noteq> []\<close> show ?thesis by (auto simp: claimable_def)
      next
        case False
        with s have "s \<in> set (db_rows (lw_db w))" by (auto split: if_splits)
        then have "claimable t s" using due s(2) by (auto simp: all_due_def)
        then show ?thesis using next_t [OF \<open>ts \<noteq> []\<close>] delay by (elim claimable_later) linarith
      qed
      then show ?thesis by (simp add: all_due_def)
    qed
    have "backlog c (lw_db ?w) < backlog c (lw_db w)"
      using backlog_step [OF q a(2) op a(4)] by simp
    then have "backlog c (lw_db ?w) \<le> length ts" using Cons.prems(5) by simp
    from Cons.IH [OF ok clock(2) sp due' this] a(1) show ?case by auto
  qed
qed

text \<open>
  C15. The loop drains its queue: over a sound session, with a loader that validates its work and readings of
  the clock one maximal retry delay apart, it raises nothing, and after as many iterations as the open
  items have attempts left every item is done or dead, whatever the loader and the risk engine make of it.
\<close>

theorem loop_drains_queue:
  assumes "hex_digest sha" "shadow_ok sha (lw_runtime w) rs" "queue_ok (lw_db w)" "loop_config_ok c" "loader_ok loader"
    "\<forall>e. \<not> blank (rep e)" "list_all (clock_ok c) ts" "spaced c ts" "ts \<noteq> []" "all_due (hd ts) (lw_db w)"
    "sum_list (map (work_left c) (db_rows (lw_db w))) \<le> length ts"
  shows "\<exists>w' res. run_until sha loader rep c (map Aware ts) w = (w', Inr res) \<and> length res = length ts \<and>
    (\<forall>r \<in> set (db_rows (lw_db w')). qr_status r = DONE \<or> qr_status r = DEAD)"
proof -
  have "world_ok sha w rs" using assms(2,3) by (simp add: world_ok_def)
  from run_until_drains [OF assms(1,4-6) this assms(7,8)] assms(9-11)
  obtain w' res where r: "run_until sha loader rep c (map Aware ts) w = (w', Inr res)" "length res = length ts"
    "\<forall>r \<in> set (db_rows (lw_db w')). \<not> row_open r" by (auto simp: backlog_def)
  have "qr_status r = DONE \<or> qr_status r = DEAD" if "r \<in> set (db_rows (lw_db w'))" for r
    using r(3) that by (cases "qr_status r") (auto simp: row_open_def)
  with r(1,2) show ?thesis by blast
qed

text \<open>
  C29. At the threshold the session is held. When an iteration ends in a retry or a dead letter and the
  run of failures has reached its maximum, the kill switch of the runtime is on, and it is on in the
  engine a restart recovers from the saved files. If it was off before the iteration, the journal
  verifies with exactly one new record, the safety hold of the item at that instant, whose reason is that
  of the kill switch; if it was on, it keeps its reason and the journal its records. The id of the hold
  (session, item and attempt) is assumed fresh: with an older record under that very id the code takes
  the hold for made.
\<close>

theorem loop_failures_hold_session:
  assumes "hex_digest sha" "shadow_ok sha (lw_runtime w) rs" "queue_ok (lw_db w)" "loop_config_ok c" "loader_ok loader"
    "\<forall>e. \<not> blank (rep e)" "clock_ok c t" "run_once sha loader rep c (Aware t) w = (w', Inr res)"
    "res = RETRY_SCHEDULED \<or> res = DEAD_LETTERED" "lc_max_failures c \<le> ls_consecutive (db_loop (lw_db w'))"
    "\<forall>r \<in> set (db_rows (lw_db w)). hold_id (sr_context (lw_runtime w)) (claimed_row c t r) \<notin> set (map ar_observation_id rs)"
  shows "\<exists>reason. pe_kill_reason (sr_engine (lw_runtime w')) = Some reason \<and>
    (\<exists>rt. restart_shadow sha (lw_runtime w') = Inr rt \<and> pe_kill_reason (sr_engine rt) = Some reason) \<and>
    (case pe_kill_reason (sr_engine (lw_runtime w)) of
       Some before \<Rightarrow> reason = before \<and> verify_lines sha (aj_lines (sr_journal (lw_runtime w'))) = Inr rs
     | None \<Rightarrow> \<exists>r \<in> set (db_rows (lw_db w)). \<exists>y.
         verify_lines sha (aj_lines (sr_journal (lw_runtime w'))) = Inr (rs @ [y]) \<and>
         ar_observation_id y = hold_id (sr_context (lw_runtime w)) (claimed_row c t r) \<and>
         ar_status y = SHADOW_SAFETY_HOLD \<and> ar_decided_at y = t \<and> ar_risk_reasons y = [reason])"
proof -
  have ok: "world_ok sha w rs" using assms(2,3) by (simp add: world_ok_def)
  show ?thesis
  proof (rule run_once_cases [OF assms(1) ok assms(4-7)])
    fix l
    assume "run_once sha loader rep c (Aware t) w = (w\<lparr>lw_db := (lw_db w)\<lparr>db_loop := l\<rparr>\<rparr>, Inr IDLE)"
    with assms(8,9) show ?thesis by simp
  next
    fix r row' l rt' new res'
    assume a: "run_once sha loader rep c (Aware t) w = (\<lparr>lw_db = replace_row row' (lw_db w) l, lw_runtime = rt'\<rparr>, Inr res')"
      "r \<in> set (db_rows (lw_db w))" "shadow_ok sha rt' (rs @ new)" "sr_context rt' = sr_context (lw_runtime w)"
      "res' \<in> {RETRY_SCHEDULED, DEAD_LETTERED} \<Longrightarrow> lc_max_failures c \<le> ls_consecutive l \<Longrightarrow>
        hold_outcome (lw_runtime w) (claimed_row c t r) t rs new rt'"
    have w': "w' = \<lparr>lw_db = replace_row row' (lw_db w) l, lw_runtime = rt'\<rparr>" "res' = res" using a(1) assms(8) by simp_all
    have fresh: "hold_id (sr_context rt') (claimed_row c t r) \<notin> set (map ar_observation_id rs)" using assms(11) a(2,4) by simp
    have out: "hold_outcome (lw_runtime w) (claimed_row c t r) t rs new rt'"
      using a(5) assms(9,10) w' by auto
    have v: "verify_lines sha (aj_lines (sr_journal rt')) = Inr (rs @ new)"
      using a(3) by (simp add: shadow_ok_def journal_ok_def)
    have restart: "restart_shadow sha rt' = Inr (rt'\<lparr>sr_engine := restored_engine (sr_engine rt')\<rparr>)"
      by (rule restart_ok [OF a(3)])
    show ?thesis
    proof (cases "pe_kill_reason (sr_engine (lw_runtime w))")
      case (Some before)
      then have "pe_kill_reason (sr_engine rt') = Some before" "new = []"
        using out fresh by (simp_all add: hold_outcome_def)
      then show ?thesis using Some v restart by (simp add: w'(1))
    next
      case None
      then obtain y reason where "new = [y]" "ar_observation_id y = hold_id (sr_context rt') (claimed_row c t r)"
        "ar_status y = SHADOW_SAFETY_HOLD" "ar_decided_at y = t" "ar_risk_reasons y = [reason]"
        "pe_kill_reason (sr_engine rt') = Some reason"
        using out fresh by (auto simp: hold_outcome_def)
      then show ?thesis using None v restart a(2,4) by (auto simp: w'(1))
    qed
  qed
qed

section \<open>Done means recorded\<close>

text \<open>
  Workers come and go: items are submitted, iterations run, a process may die between the claim and the
  observation or between the observation and the acknowledgement, and another resumes from the files.
\<close>

datatype loop_op = Submit string string pydatetime | Iterate int | CrashClaimed int | CrashObserved int

definition resume_world :: "(json \<Rightarrow> string) \<Rightarrow> loop_world \<Rightarrow> loop_world" where
  "resume_world sha w = (case restart_shadow sha (lw_runtime w) of Inl _ \<Rightarrow> w | Inr rt \<Rightarrow> w\<lparr>lw_runtime := rt\<rparr>)"

definition observed_only :: "(json \<Rightarrow> string) \<Rightarrow> (string \<Rightarrow> shadow_work result) \<Rightarrow> queue_row \<Rightarrow> loop_world \<Rightarrow> loop_world" where
  "observed_only sha loader item w =
     (case loader (qr_payload item) of
        Inl _ \<Rightarrow> w
      | Inr work \<Rightarrow> w\<lparr>lw_runtime := fst (shadow_observe sha (lw_runtime w) (sw_meta work) (sw_observation_id work)
          (sw_proposals work) (sw_equity work))\<rparr>)"

fun loop_step :: "(json \<Rightarrow> string) \<Rightarrow> (string \<Rightarrow> shadow_work result) \<Rightarrow> (exn \<Rightarrow> string) \<Rightarrow> loop_config \<Rightarrow> loop_world
    \<Rightarrow> loop_op \<Rightarrow> loop_world" where
  "loop_step sha loader rep c w (Submit i u t) =
     (case queue_enqueue (lw_db w) i u t of Inl _ \<Rightarrow> w | Inr (db, _) \<Rightarrow> w\<lparr>lw_db := db\<rparr>)"
| "loop_step sha loader rep c w (Iterate t) = fst (run_once sha loader rep c (Aware t) w)"
| "loop_step sha loader rep c w (CrashClaimed t) =
     (case claim (lw_db w) (Aware t) (lc_lease c) of Inl _ \<Rightarrow> w | Inr (db, _) \<Rightarrow> resume_world sha (w\<lparr>lw_db := db\<rparr>))"
| "loop_step sha loader rep c w (CrashObserved t) =
     (case claim (lw_db w) (Aware t) (lc_lease c) of
        Inl _ \<Rightarrow> w
      | Inr (db, None) \<Rightarrow> resume_world sha (w\<lparr>lw_db := db\<rparr>)
      | Inr (db, Some item) \<Rightarrow> resume_world sha (observed_only sha loader item (w\<lparr>lw_db := db\<rparr>)))"

fun loop_op_ok :: "loop_op \<Rightarrow> bool" where
  "loop_op_ok (Submit i u t) \<longleftrightarrow> True"
| "loop_op_ok (Iterate t) \<longleftrightarrow> instant_in_range t"
| "loop_op_ok (CrashClaimed t) \<longleftrightarrow> instant_in_range t"
| "loop_op_ok (CrashObserved t) \<longleftrightarrow> instant_in_range t"

definition recorded :: "(string \<Rightarrow> shadow_work result) \<Rightarrow> int audit_record list \<Rightarrow> string \<Rightarrow> bool" where
  "recorded loader rs u \<longleftrightarrow> (\<exists>work. loader u = Inr work \<and> sw_observation_id work \<in> set (map ar_observation_id rs))"

definition loop_inv :: "(json \<Rightarrow> string) \<Rightarrow> (string \<Rightarrow> shadow_work result) \<Rightarrow> loop_world \<Rightarrow> int audit_record list \<Rightarrow> bool" where
  "loop_inv sha loader w rs \<longleftrightarrow>
     shadow_ok sha (lw_runtime w) rs \<and> distinct (map qr_item (db_rows (lw_db w))) \<and>
     (\<forall>r \<in> set (db_rows (lw_db w)). qr_status r = DONE \<longrightarrow> recorded loader rs (qr_payload r))"

lemma recorded_mono: "recorded loader rs u \<Longrightarrow> recorded loader (rs @ new) u"
  by (auto simp: recorded_def)

lemma loop_inv_runtime:
  "loop_inv sha loader w rs \<Longrightarrow> shadow_ok sha rt (rs @ new) \<Longrightarrow> loop_inv sha loader (w\<lparr>lw_runtime := rt\<rparr>) (rs @ new)"
  by (auto simp: loop_inv_def intro: recorded_mono)

text \<open>An update of one row that does not make it done, or makes a recorded one done, keeps the invariant.\<close>

lemma loop_inv_row:
  assumes "loop_inv sha loader w rs" "\<And>r. qr_item (f r) = qr_item r \<and> qr_payload (f r) = qr_payload r"
    "\<And>r. qr_item r = i \<Longrightarrow> r \<in> set (db_rows (lw_db w)) \<Longrightarrow> qr_status (f r) = DONE \<Longrightarrow> recorded loader rs (qr_payload r)"
  shows "loop_inv sha loader (w\<lparr>lw_db := (update_row i f (lw_db w))\<lparr>db_loop := l\<rparr>\<rparr>) rs"
proof -
  have m: "map (qr_item \<circ> (\<lambda>r. if qr_item r = i then f r else r)) xs = map qr_item xs" for xs
    using assms(2) by simp
  then show ?thesis using assms(1,3) by (auto simp: loop_inv_def assms(2) m)
qed

lemma loop_inv_loop: "\<And>w l. loop_inv sha loader (w\<lparr>lw_db := (lw_db w)\<lparr>db_loop := l\<rparr>\<rparr>) rs = loop_inv sha loader w rs"
  by (simp add: loop_inv_def)

lemma loop_inv_update:
  assumes "loop_inv sha loader w rs" "\<And>r. qr_item (f r) = qr_item r \<and> qr_payload (f r) = qr_payload r \<and> qr_status (f r) \<noteq> DONE"
  shows "loop_inv sha loader (w\<lparr>lw_db := update_row i f (lw_db w)\<rparr>) rs"
  using loop_inv_row [OF assms(1), of f i "db_loop (lw_db w)"] assms(2) by (simp add: update_row_def)

lemma settle_inv:
  assumes "loop_inv sha loader w rs" "settle item t res w = (w', x)" "row_of (lw_db w) (qr_item item) = Some r"
    "recorded loader rs (qr_payload r)"
  shows "loop_inv sha loader w' rs"
proof -
  have same: "qr_payload s = qr_payload r" if "qr_item s = qr_item item" "s \<in> set (db_rows (lw_db w))" for s
    using row_of_member [of "lw_db w" s] assms(1,3) that by (auto simp: loop_inv_def)
  let ?g = "\<lambda>r. r\<lparr>qr_status := DONE, qr_lease := None, qr_completed := Some t, qr_error := None\<rparr>"
  have "\<exists>l. w' = w\<lparr>lw_db := (update_row (qr_item item) ?g (lw_db w))\<lparr>db_loop := l\<rparr>\<rparr> \<or> w' = w"
    using assms(2,3) by (auto simp: settle_def acknowledge_def record_success_def split: if_splits)
  then obtain l where "w' = w\<lparr>lw_db := (update_row (qr_item item) ?g (lw_db w))\<lparr>db_loop := l\<rparr>\<rparr> \<or> w' = w" by blast
  moreover have "loop_inv sha loader (w\<lparr>lw_db := (update_row (qr_item item) ?g (lw_db w))\<lparr>db_loop := l\<rparr>\<rparr>) rs"
    using same assms(4) by (intro loop_inv_row [OF assms(1)]) auto
  ultimately show ?thesis using assms(1) by blast
qed

lemma handle_failure_inv:
  assumes "hex_digest sha" "loop_inv sha loader w rs" "instant_in_range t" "handle_failure sha c item t error w = (w', x)"
  shows "\<exists>new. loop_inv sha loader w' (rs @ new)"
proof -
  let ?q = "bindE (retry_delay c (qr_attempts item)) (\<lambda>delay. bindE (after t delay) (\<lambda>retry_at.
      retry_or_dead_letter (lw_db w) (qr_item item) error (Aware t) (Aware retry_at) (lc_max_attempts c)))"
  show ?thesis
  proof (cases ?q)
    case (Inl e)
    then have "w' = w" using assms(4) by (simp add: handle_failure_def)
    with assms(2) show ?thesis by (metis append_Nil2)
  next
    case (Inr y)
    obtain db1 status where y: "y = (db1, status)" by (cases y)
    then obtain u where "retry_or_dead_letter (lw_db w) (qr_item item) error (Aware t) (Aware u) (lc_max_attempts c) = Inr (db1, status)"
      using Inr by (auto simp: bindE_eq_Inr)
    then have db1: "db1 = update_row (qr_item item) (\<lambda>r. r\<lparr>qr_status := status, qr_available := u, qr_lease := None,
        qr_error := Some error, qr_completed := (if status = DEAD then Some t else None)\<rparr>) (lw_db w)" "status \<noteq> DONE"
      and e: "\<not> blank error"
      by (auto simp: retry_or_dead_letter_def Let_def split: option.splits if_splits)
    have i1: "loop_inv sha loader (w\<lparr>lw_db := db1\<rparr>) rs"
      unfolding db1(1) by (rule loop_inv_update [OF assms(2)]) (use db1(2) in simp)
    obtain l where l: "record_failure db1 (Aware t) error = Inr (db1\<lparr>db_loop := l\<rparr>, ls_consecutive l)"
      by (rule record_failure_Inr [OF e])
    have i2: "loop_inv sha loader (w\<lparr>lw_db := db1\<lparr>db_loop := l\<rparr>\<rparr>) rs"
      using i1 loop_inv_loop [where w = "w\<lparr>lw_db := db1\<rparr>" and l = l] by simp
    obtain rt' z where th: "threshold_hold sha item t error (lw_runtime w) = (rt', z)" by fastforce
    have "w' = w\<lparr>lw_db := db1\<lparr>db_loop := l\<rparr>\<rparr> \<or> w' = w\<lparr>lw_db := db1\<lparr>db_loop := l\<rparr>, lw_runtime := rt'\<rparr>"
      using assms(4) Inr
      by (auto simp: handle_failure_def y l th Let_def world_update split: if_splits sum.splits)
    moreover have "\<exists>new. loop_inv sha loader (w\<lparr>lw_db := db1\<lparr>db_loop := l\<rparr>, lw_runtime := rt'\<rparr>) (rs @ new)"
    proof -
      have sh: "shadow_ok sha (lw_runtime w) rs" using assms(2) by (simp add: loop_inv_def)
      let ?i = "hold_id (sr_context (lw_runtime w)) item"
      have "rt' = lw_runtime w \<or> (\<exists>r. shadow_ok sha rt' (rs @ [r]))"
      proof (cases "journal_find sha (sr_journal (lw_runtime w)) ?i = Inr None")
        case False
        then show ?thesis using th by (auto simp: threshold_hold_def Let_def split: sum.splits option.splits)
      next
        case True
        obtain rt1 z1 where h: "activate_safety_hold sha (lw_runtime w) ?i (''shadow event loop failure threshold: '' @ error) (Aware t) = (rt1, z1)"
          by fastforce
        then have "rt1 = rt'" using th True by (auto simp: threshold_hold_def Let_def split: sum.splits)
        moreover have "rt1 = lw_runtime w \<or> (\<exists>r. shadow_ok sha rt1 (rs @ [r]))"
          by (rule safety_hold_cases [OF assms(1) sh _ h]) (use assms(3) in auto)
        ultimately show ?thesis by simp
      qed
      then show ?thesis
        using i2 loop_inv_runtime [OF i2, of rt'] sh by (metis append_Nil2)
    qed
    ultimately show ?thesis using i2 by (metis append_Nil2)
  qed
qed

lemma claim_Some:
  assumes "claim db (Aware t) lease = Inr (db', Some item)"
  shows "row_of db' (qr_item item) = Some item \<and> qr_status item = PROCESSING"
proof -
  obtain r f where f: "next_row t db = Some r" "db' = update_row (qr_item r) f db" "row_of db' (qr_item r) = Some item"
    "\<And>r. qr_item (f r) = qr_item r \<and> qr_status (f r) = PROCESSING"
    using assms by (fastforce simp: claim_def bindE_eq_Inr Let_def split: if_splits option.splits)
  moreover obtain s where "row_of db (qr_item r) = Some s" "item = f s" using f(2-4) by (auto simp: row_of_update)
  ultimately show ?thesis using row_of_Some [of db "qr_item r" s] by simp
qed

lemma claim_inv:
  assumes "loop_inv sha loader w rs" "claim (lw_db w) (Aware t) lease = Inr (db, item)"
  shows "loop_inv sha loader (w\<lparr>lw_db := db\<rparr>) rs" "\<And>r. item = Some r \<Longrightarrow> row_of db (qr_item r) = Some r"
proof -
  obtain u where u: "(db = lw_db w \<and> item = None) \<or> (\<exists>i. db = update_row i (\<lambda>r. r\<lparr>qr_status := PROCESSING, qr_attempts := qr_attempts r + 1,
      qr_lease := Some u\<rparr>) (lw_db w) \<and> item = row_of db i)"
    using assms(2) by (auto simp: claim_def bindE_eq_Inr Let_def split: if_splits option.splits)
  moreover have "loop_inv sha loader (w\<lparr>lw_db := update_row i (\<lambda>r. r\<lparr>qr_status := PROCESSING, qr_attempts := qr_attempts r + 1,
      qr_lease := Some u\<rparr>) (lw_db w)\<rparr>) rs" for i
    by (rule loop_inv_update [OF assms(1)]) simp
  ultimately show "loop_inv sha loader (w\<lparr>lw_db := db\<rparr>) rs" using assms(1) by auto
  fix r
  assume "item = Some r"
  with u obtain i where i: "row_of db i = Some r" by auto
  then have "qr_item r = i" using row_of_Some by blast
  with i show "row_of db (qr_item r) = Some r" by simp
qed

lemma observe_inv:
  assumes "hex_digest sha" "loop_inv sha loader w rs" "loader_ok loader" "loader u = Inr work"
    "shadow_observe sha (lw_runtime w) (sw_meta work) (sw_observation_id work) (sw_proposals work) (sw_equity work) = (rt', res)"
  shows "\<exists>new. loop_inv sha loader (w\<lparr>lw_runtime := rt'\<rparr>) (rs @ new) \<and> (is_ok res \<longrightarrow> recorded loader (rs @ new) u) \<and>
    (\<not> is_ok res \<longrightarrow> rt' = lw_runtime w \<and> new = [])"
proof -
  have sh: "shadow_ok sha (lw_runtime w) rs" using assms(2) by (simp add: loop_inv_def)
  have args: "observe_args_ok (sw_meta work) (sw_proposals work)" using assms(3,4) by (auto simp: loader_ok_def)
  from observe_records [OF assms(1) sh args assms(5)] show ?thesis
  proof
    assume "\<exists>e. res = Inl e \<and> rt' = lw_runtime w"
    then show ?thesis using assms(2) by (intro exI [of _ "[]"]) auto
  next
    assume "\<exists>r. res = Inr r \<and> shadow_ok sha rt' (rs @ [r]) \<and> ar_observation_id r = sw_observation_id work \<and>
      sr_context rt' = sr_context (lw_runtime w) \<and>
      (pe_kill_reason (sr_engine (lw_runtime w)) \<noteq> None \<longrightarrow> pe_kill_reason (sr_engine rt') \<noteq> None)"
    then obtain r where r: "res = Inr r" "shadow_ok sha rt' (rs @ [r])" "ar_observation_id r = sw_observation_id work" by blast
    from loop_inv_runtime [OF assms(2) r(2)] r(1,3) assms(4) show ?thesis
      by (intro exI [of _ "[r]"]) (auto simp: recorded_def)
  qed
qed

lemma run_item_inv:
  assumes "hex_digest sha" "loop_inv sha loader w rs" "loader_ok loader" "instant_in_range t"
    "row_of (lw_db w) (qr_item item) = Some item" "run_item sha loader rep c item t w = (w', x)"
  shows "\<exists>new. loop_inv sha loader w' (rs @ new)"
proof (cases "loader (qr_payload item)")
  case (Inl e)
  then have "handle_failure sha c item t (rep e) w = (w', x)" using assms(6) by (simp add: run_item_def)
  then show ?thesis by (rule handle_failure_inv [OF assms(1,2,4)])
next
  case (Inr work)
  obtain rt' res where o: "shadow_observe sha (lw_runtime w) (sw_meta work) (sw_observation_id work) (sw_proposals work)
      (sw_equity work) = (rt', res)" by fastforce
  obtain new where n: "loop_inv sha loader (w\<lparr>lw_runtime := rt'\<rparr>) (rs @ new)" "is_ok res \<longrightarrow> recorded loader (rs @ new) (qr_payload item)"
    "\<not> is_ok res \<longrightarrow> rt' = lw_runtime w \<and> new = []"
    using observe_inv [OF assms(1-3) Inr o] by blast
  show ?thesis
  proof (cases res)
    case i: (Inr y)
    obtain w1 x1 where s: "settle item t PROCESSED (w\<lparr>lw_runtime := rt'\<rparr>) = (w1, x1)" by fastforce
    have "loop_inv sha loader w1 (rs @ new)" by (rule settle_inv [OF n(1) s]) (use assms(5) n(2) i in simp_all)
    moreover have p: "process sha item t work w = (w1, x1)" using s by (simp add: process_def o i)
    ultimately show ?thesis
    proof (cases x1)
      case (Inr z)
      then show ?thesis using assms(6) \<open>loader (qr_payload item) = Inr work\<close> p \<open>loop_inv sha loader w1 (rs @ new)\<close>
        by (auto simp: run_item_def)
    next
      case (Inl e)
      have "\<not> is_audit_error e"
        using s Inl by (auto simp: settle_def acknowledge_def record_success_def is_audit_error_def split: option.splits if_splits)
      then have "handle_failure sha c item t (rep e) w1 = (w', x)"
        using assms(6) \<open>loader (qr_payload item) = Inr work\<close> p Inl by (simp add: run_item_def)
      from handle_failure_inv [OF assms(1) \<open>loop_inv sha loader w1 (rs @ new)\<close> assms(4) this] show ?thesis by auto
    qed
  next
    case i: (Inl e)
    have p: "process sha item t work w = (w, Inl e)" using n(3) by (simp add: process_def o i)
    have v: "verify_lines sha (aj_lines (sr_journal (lw_runtime w))) = Inr rs"
      using assms(2) by (simp add: loop_inv_def shadow_ok_def journal_ok_def)
    show ?thesis
    proof (cases "is_audit_error e \<and> find (\<lambda>r. ar_observation_id r = sw_observation_id work) rs \<noteq> None")
      case True
      then have "settle item t IDEMPOTENT_RECOVERY w = (w', x)"
        using assms(6) by (auto simp: run_item_def Inr p journal_find_def v)
      moreover obtain y where "y \<in> set rs" "ar_observation_id y = sw_observation_id work" using True by (auto simp: find_None_iff)
      then have "sw_observation_id work \<in> set (map ar_observation_id rs)" by (metis image_eqI set_map)
      ultimately have "loop_inv sha loader w' rs"
        using Inr by (intro settle_inv [OF assms(2) _ assms(5)]) (auto simp: recorded_def)
      then show ?thesis by (metis append_Nil2)
    next
      case False
      then have "handle_failure sha c item t (rep e) w = (w', x)"
        using assms(6) by (auto simp: run_item_def Inr p journal_find_def v split: if_splits option.splits)
      then show ?thesis by (rule handle_failure_inv [OF assms(1,2,4)])
    qed
  qed
qed

lemma run_once_inv:
  assumes "hex_digest sha" "loop_inv sha loader w rs" "loader_ok loader" "instant_in_range t"
    "run_once sha loader rep c (Aware t) w = (w', x)"
  shows "\<exists>new. loop_inv sha loader w' (rs @ new)"
proof (cases "claim (lw_db w) (Aware t) (lc_lease c)")
  case (Inl e)
  with assms(2,5) show ?thesis by (intro exI [of _ "[]"]) (simp add: run_once_def)
next
  case (Inr y)
  obtain db item where y: "y = (db, item)" by (cases y)
  note ci = claim_inv [OF assms(2) Inr [unfolded y]]
  show ?thesis
  proof (cases item)
    case None
    obtain l where "record_heartbeat db (Aware t) ''IDLE'' = Inr (db\<lparr>db_loop := l\<rparr>)" by (simp add: record_heartbeat_def)
    then have "w' = w\<lparr>lw_db := db\<lparr>db_loop := l\<rparr>\<rparr>" using assms(5) Inr None by (simp add: run_once_def y)
    then have "loop_inv sha loader w' rs" using ci(1) loop_inv_loop [where w = "w\<lparr>lw_db := db\<rparr>" and l = l] by simp
    then show ?thesis by (metis append_Nil2)
  next
    case (Some r)
    have "run_item sha loader rep c r t (w\<lparr>lw_db := db\<rparr>) = (w', x)" using assms(5) Inr Some by (simp add: run_once_def y)
    from run_item_inv [OF assms(1) ci(1) assms(3,4) _ this] ci(2) [OF Some] show ?thesis by simp
  qed
qed

lemma resume_inv:
  assumes "loop_inv sha loader w rs"
  shows "loop_inv sha loader (resume_world sha w) rs"
proof -
  have "shadow_ok sha (lw_runtime w) rs" using assms by (simp add: loop_inv_def)
  from restart_ok [OF this] this have "shadow_ok sha (lw_runtime (resume_world sha w)) rs" "lw_db (resume_world sha w) = lw_db w"
    by (simp_all add: resume_world_def shadow_ok_def restored_engine_ok)
  with assms show ?thesis by (simp add: loop_inv_def)
qed

lemma enqueue_inv:
  assumes "loop_inv sha loader w rs" "queue_enqueue (lw_db w) i u t = Inr (db, new)"
  shows "loop_inv sha loader (w\<lparr>lw_db := db\<rparr>) rs"
proof -
  have "row_of (lw_db w) i = None \<Longrightarrow> i \<notin> qr_item ` set (db_rows (lw_db w))"
    by (auto simp: row_of_def find_None_iff)
  then show ?thesis
    using assms by (auto simp: queue_enqueue_def bindE_eq_Inr loop_inv_def split: if_splits option.splits)
qed

lemma loop_step_inv:
  assumes "hex_digest sha" "loader_ok loader" "loop_inv sha loader w rs" "loop_op_ok op"
  shows "\<exists>new. loop_inv sha loader (loop_step sha loader rep c w op) (rs @ new)"
proof (cases op)
  case (Submit i u t)
  then show ?thesis using assms(3) by (intro exI [of _ "[]"]) (auto intro: enqueue_inv split: sum.splits)
next
  case (Iterate t)
  obtain w' x where r: "run_once sha loader rep c (Aware t) w = (w', x)" by fastforce
  have "instant_in_range t" using assms(4) Iterate by simp
  from run_once_inv [OF assms(1,3,2) this r] show ?thesis by (simp add: Iterate r)
next
  case (CrashClaimed t)
  then show ?thesis using assms(3) by (intro exI [of _ "[]"]) (auto intro!: resume_inv dest: claim_inv(1) split: sum.splits)
next
  case (CrashObserved t)
  show ?thesis
  proof (cases "claim (lw_db w) (Aware t) (lc_lease c)")
    case (Inl e)
    then show ?thesis using assms(3) CrashObserved by (intro exI [of _ "[]"]) simp
  next
    case (Inr y)
    obtain db item where y: "y = (db, item)" by (cases y)
    note ci = claim_inv(1) [OF assms(3) Inr [unfolded y]]
    show ?thesis
    proof (cases "\<exists>r work. item = Some r \<and> loader (qr_payload r) = Inr work")
      case False
      then have "loop_step sha loader rep c w op = resume_world sha (w\<lparr>lw_db := db\<rparr>)"
        using CrashObserved Inr y by (auto simp: observed_only_def split: option.splits sum.splits)
      with resume_inv [OF ci] show ?thesis by (intro exI [of _ "[]"]) simp
    next
      case True
      then obtain r work where rw: "item = Some r" "loader (qr_payload r) = Inr work" by blast
      obtain rt' res where o: "shadow_observe sha (lw_runtime (w\<lparr>lw_db := db\<rparr>)) (sw_meta work) (sw_observation_id work)
          (sw_proposals work) (sw_equity work) = (rt', res)" by fastforce
      obtain new where n: "loop_inv sha loader (w\<lparr>lw_db := db, lw_runtime := rt'\<rparr>) (rs @ new)"
        using observe_inv [OF assms(1) ci assms(2) rw(2) o] by auto
      have "loop_step sha loader rep c w op = resume_world sha (w\<lparr>lw_db := db, lw_runtime := rt'\<rparr>)"
        using CrashObserved Inr y rw o by (simp add: observed_only_def)
      with resume_inv [OF n] show ?thesis by auto
    qed
  qed
qed

lemma loop_run_inv:
  assumes "hex_digest sha" "loader_ok loader"
  shows "loop_inv sha loader w rs \<Longrightarrow> list_all loop_op_ok ops \<Longrightarrow>
    \<exists>new. loop_inv sha loader (foldl (loop_step sha loader rep c) w ops) (rs @ new)"
proof (induction ops arbitrary: w rs)
  case Nil
  then show ?case by (intro exI [of _ "[]"]) simp
next
  case (Cons op ops)
  obtain new where a: "loop_inv sha loader (loop_step sha loader rep c w op) (rs @ new)"
    using loop_step_inv [OF assms Cons.prems(1), of op rep c] Cons.prems(2) by auto
  from Cons.IH [OF a] Cons.prems(2) show ?case by auto
qed

lemma once_in_distinct: "distinct ys \<Longrightarrow> i \<in> set ys \<Longrightarrow> length (filter (\<lambda>y. y = i) ys) = 1"
  by (induction ys) (auto simp: filter_empty_conv)

lemma verified_ids_distinct:
  "verify_from sha p seen lines = Inr rs \<Longrightarrow> distinct (map ar_observation_id rs) \<and> set (map ar_observation_id rs) \<inter> set seen = {}"
proof (induction sha p seen lines arbitrary: rs rule: verify_from.induct)
  case (2 sha previous seen line rest)
  then obtain r ck rs' where c: "check_line sha previous seen line = Inr (r, ck)"
    "verify_from sha (Some ck) (ar_observation_id r # seen) rest = Inr rs'" "rs = r # rs'"
    by (auto simp: bindE_eq_Inr wrap_error_eq)
  have "ar_observation_id r \<notin> set seen"
    by (rule check_line_cases [OF c(1)])
  moreover have "distinct (map ar_observation_id rs') \<and> set (map ar_observation_id rs') \<inter> set (ar_observation_id r # seen) = {}"
    using "2.IH" c by (auto simp: wrap_error_eq)
  ultimately show ?case using c(3) by auto
qed simp

text \<open>
  C7. Done means recorded once: whatever is submitted, in whatever order iterations run and processes die
  between claim, observation and acknowledgement, an item is done only if the journal verifies and holds
  exactly one record of the observation its payload loads to.
\<close>

theorem loop_done_recorded_once:
  assumes "hex_digest sha" "loader_ok loader" "shadow_ok sha rt rs" "list_all loop_op_ok ops"
    "foldl (loop_step sha loader rep c) \<lparr>lw_db = fresh_db, lw_runtime = rt\<rparr> ops = w"
  shows "\<exists>rs'. verify_lines sha (aj_lines (sr_journal (lw_runtime w))) = Inr rs' \<and>
    (\<forall>r \<in> set (db_rows (lw_db w)). qr_status r = DONE \<longrightarrow>
       (\<exists>work. loader (qr_payload r) = Inr work \<and>
          length (filter (\<lambda>x. ar_observation_id x = sw_observation_id work) rs') = 1))"
proof -
  have "loop_inv sha loader \<lparr>lw_db = fresh_db, lw_runtime = rt\<rparr> rs"
    using assms(3) by (simp add: loop_inv_def fresh_db_def)
  from loop_run_inv [OF assms(1,2) this assms(4)] obtain rs' where inv: "loop_inv sha loader w rs'"
    using assms(5) by blast
  then have v: "verify_lines sha (aj_lines (sr_journal (lw_runtime w))) = Inr rs'"
    by (simp add: loop_inv_def shadow_ok_def journal_ok_def)
  then have d: "distinct (map ar_observation_id rs')" using verified_ids_distinct by (auto simp: verify_lines_def)
  have one: "length (filter (\<lambda>x. ar_observation_id x = i) rs') = 1" if "i \<in> set (map ar_observation_id rs')" for i
    using once_in_distinct [OF d that] by (simp add: filter_map comp_def)
  from inv v one show ?thesis by (fastforce simp: loop_inv_def recorded_def)
qed

text \<open>
  C35. A lease is not a token: when a worker claims an item whose earlier lease has run out, the late worker
  can still acknowledge it; the new one, finishing, can then neither acknowledge nor schedule a retry, and
  the exception of the retry ends its loop.
\<close>

theorem stale_worker_takes_item:
  assumes "claim db (Aware t1) lease = Inr (db1, Some item)" "claim db1 (Aware t2) lease = Inr (db2, Some item')"
    "qr_item item' = qr_item item"
  shows "\<exists>db3. acknowledge db2 (qr_item item) (Aware t3) = Inr db3 \<and>
    acknowledge db3 (qr_item item') (Aware t4) = Inl (ValueError ''only a processing shadow item can be acknowledged'') \<and>
    (\<not> blank e \<and> 1 \<le> n \<longrightarrow>
      retry_or_dead_letter db3 (qr_item item') e (Aware t4) (Aware t5) n =
        Inl (ValueError ''only a processing shadow item can be retried''))"
proof -
  have "row_of db2 (qr_item item') = Some item' \<and> qr_status item' = PROCESSING" by (rule claim_Some [OF assms(2)])
  then have r: "row_of db2 (qr_item item) = Some item'" "qr_status item' = PROCESSING" using assms(3) by simp_all
  then show ?thesis using assms(3) by (auto simp: acknowledge_def retry_or_dead_letter_def row_of_update)
qed

section \<open>A concrete loop\<close>

definition demo_row :: "string \<Rightarrow> string \<Rightarrow> int \<Rightarrow> queue_row" where
  "demo_row i u t =
     \<lparr>qr_item = i, qr_payload = u, qr_status = PENDING, qr_attempts = 0, qr_available = t, qr_lease = None, qr_error = None,
      qr_created = t, qr_completed = None\<rparr>"

lemma demo_row_parts [simp]:
  "qr_item (demo_row i u t) = i" "qr_payload (demo_row i u t) = u" "qr_status (demo_row i u t) = PENDING"
  "qr_attempts (demo_row i u t) = 0" "qr_available (demo_row i u t) = t"
  by (simp_all add: demo_row_def)

definition demo_db :: "queue_row list \<Rightarrow> shadow_db" where
  "demo_db rows = fresh_db\<lparr>db_rows := rows\<rparr>"

definition demo_work :: shadow_work where
  "demo_work = \<lparr>sw_observation_id = ''x'', sw_meta = demo_meta, sw_proposals = [demo_entry ''a''], sw_equity = Fin 1000\<rparr>"

definition demo_loader :: "string \<Rightarrow> shadow_work result" where
  "demo_loader u = (if u = ''good'' then Inr demo_work else Inl (ValueError ''bad''))"

definition demo_repr :: "exn \<Rightarrow> string" where
  "demo_repr e = ''e''"

definition demo_loop_config :: "int \<Rightarrow> loop_config" where
  "demo_loop_config failures = default_loop_config\<lparr>lc_max_attempts := 2, lc_max_failures := failures\<rparr>"

lemma demo_loader_ok: "loader_ok demo_loader"
  using demo_meta_ok by (auto simp: loader_ok_def demo_loader_def demo_work_def)

lemma demo_repr_ok: "\<forall>e. \<not> blank (demo_repr e)"
proof -
  have "\<not> blank ''e''" by code_simp
  then show ?thesis by (simp add: demo_repr_def)
qed

lemma demo_loop_config_ok: "loop_config_ok (demo_loop_config 1)" "loop_config_ok (demo_loop_config 3)"
  by (simp_all add: loop_config_ok_def make_loop_config_def demo_loop_config_def default_loop_config_def)

lemma demo_runtime:
  obtains rt r where "shadow_ok flat_sha rt [r]" "sr_engine rt = demo_portfolio" "sr_context rt = demo_context"
    "aj_ids (sr_journal rt) = [''s:initialize'']"
  by (rule initialize_succeeds [OF flat_sha_hex demo_context_ok demo_engine_ok instant_zero]) (rule that, auto simp: demo_context_def)

theorem claim_text_order_is_time_order_witness:
  "text_claimable (isoformat 500000) (demo_row ''a'' ''u'' 0) \<and> \<not> text_claimable (isoformat 0) (demo_row ''a'' ''u'' 500000) \<and>
   text_key (demo_row ''b'' ''u'' 0) < text_key (demo_row ''a'' ''u'' 500000)"
proof -
  have r: "instant_in_range 0" "instant_in_range 500000" by code_simp+
  have rr: "row_in_range (demo_row i u t)" if "instant_in_range t" for i u t using that by (simp add: row_in_range_def demo_row_def)
  note o = claim_text_order_is_time_order [OF r(2) rr [OF r(1)] rr [OF r(2)], of "''a''" "''u''" "''a''" "''u''"]
    claim_text_order_is_time_order [OF r(1) rr [OF r(2)] rr [OF r(2)], of "''a''" "''u''" "''a''" "''u''"]
    claim_text_order_is_time_order [OF r(1) rr [OF r(1)] rr [OF r(2)], of "''b''" "''u''" "''a''" "''u''"]
  show ?thesis using o by (simp add: claimable_def claim_key_def demo_row_def)
qed

theorem loop_drains_queue_witness:
  "\<exists>w w'. map qr_status (db_rows (lw_db w)) = [PENDING, PENDING] \<and>
     fst (run_until flat_sha demo_loader demo_repr (demo_loop_config 3) (map Aware [0, 300000000, 600000000, 900000000]) w) = w' \<and>
     (\<forall>r \<in> set (db_rows (lw_db w')). qr_status r = DONE \<or> qr_status r = DEAD)"
proof -
  obtain rt r where rt: "shadow_ok flat_sha rt [r]" "sr_engine rt = demo_portfolio" "sr_context rt = demo_context"
    "aj_ids (sr_journal rt) = [''s:initialize'']" by (rule demo_runtime)
  let ?w = "\<lparr>lw_db = demo_db [demo_row ''a'' ''good'' 0, demo_row ''b'' ''bad'' 0], lw_runtime = rt\<rparr>"
  let ?ts = "[0, 300000000, 600000000, 900000000]"
  have ok: "shadow_ok flat_sha (lw_runtime ?w) [r]" using rt(1) by simp
  have q: "queue_ok (lw_db ?w)" by (simp add: queue_ok_def demo_db_def demo_row_def)
  have c: "list_all (clock_ok (demo_loop_config 3)) ?ts" "spaced (demo_loop_config 3) ?ts" by code_simp+
  have due: "all_due (hd ?ts) (lw_db ?w)" by (simp add: all_due_def claimable_def demo_db_def demo_row_def)
  have left: "sum_list (map (work_left (demo_loop_config 3)) (db_rows (lw_db ?w))) \<le> length ?ts"
    by (simp add: work_left_def row_open_def demo_db_def demo_row_def demo_loop_config_def)
  have ne: "?ts \<noteq> []" by simp
  from loop_drains_queue [OF flat_sha_hex ok q demo_loop_config_ok(2) demo_loader_ok demo_repr_ok c ne due left]
  obtain w' res where "run_until flat_sha demo_loader demo_repr (demo_loop_config 3) (map Aware ?ts) ?w = (w', Inr res)"
    "\<forall>r \<in> set (db_rows (lw_db w')). qr_status r = DONE \<or> qr_status r = DEAD" by blast
  moreover have "map qr_status (db_rows (lw_db ?w)) = [PENDING, PENDING]" by (simp add: demo_db_def demo_row_def)
  ultimately show ?thesis by (intro exI [of _ ?w] exI [of _ w']) simp
qed

definition demo_failed :: shadow_db where
  "demo_failed =
     (demo_db [(demo_row ''b'' ''bad'' 2000000)\<lparr>qr_created := 0, qr_attempts := 1, qr_error := Some ''e''\<rparr>])
       \<lparr>db_loop := \<lparr>ls_status = ''DEGRADED'', ls_consecutive = 1, ls_processed = 0, ls_failures = 1,
         ls_heartbeat = Some 0, ls_error = Some ''e''\<rparr>\<rparr>"

theorem loop_failures_hold_session_witness:
  "\<exists>rt w' y. pe_kill_reason (sr_engine rt) = None \<and>
     fst (run_once flat_sha demo_loader demo_repr (demo_loop_config 1) (Aware 0)
       \<lparr>lw_db = demo_db [demo_row ''b'' ''bad'' 0], lw_runtime = rt\<rparr>) = w' \<and>
     pe_kill_reason (sr_engine (lw_runtime w')) \<noteq> None \<and>
     (\<exists>r. verify_lines flat_sha (aj_lines (sr_journal (lw_runtime w'))) = Inr [r, y]) \<and> ar_status y = SHADOW_SAFETY_HOLD"
proof -
  obtain rt r where rt: "shadow_ok flat_sha rt [r]" "sr_engine rt = demo_portfolio" "sr_context rt = demo_context"
    "aj_ids (sr_journal rt) = [''s:initialize'']" by (rule demo_runtime)
  let ?w = "\<lparr>lw_db = demo_db [demo_row ''b'' ''bad'' 0], lw_runtime = rt\<rparr>" and ?c = "demo_loop_config 1"
  have ok: "shadow_ok flat_sha (lw_runtime ?w) [r]" using rt(1) by simp
  have q: "queue_ok (lw_db ?w)" by (simp add: queue_ok_def demo_db_def demo_row_def)
  then have wok: "world_ok flat_sha ?w [r]" using ok by (simp add: world_ok_def)
  have clock: "clock_ok ?c 0" by code_simp
  have ids: "map ar_observation_id [r] = [''s:initialize'']" using rt(1,4) by (auto simp: shadow_ok_def journal_ok_def)
  obtain w' res where run: "run_once flat_sha demo_loader demo_repr ?c (Aware 0) ?w = (w', Inr res)"
    by (rule run_once_cases [OF flat_sha_hex wok demo_loop_config_ok(1) demo_loader_ok demo_repr_ok clock]) (rule that, assumption)+
  have cl: "claim (demo_db [demo_row ''b'' ''bad'' 0]) (Aware 0) (lc_lease ?c) =
      Inr (demo_db [claimed_row ?c 0 (demo_row ''b'' ''bad'' 0)], Some (claimed_row ?c 0 (demo_row ''b'' ''bad'' 0)))" by code_simp
  have f: "bindE (retry_delay ?c 1) (\<lambda>delay. bindE (after 0 delay) (\<lambda>u.
      retry_or_dead_letter (demo_db [claimed_row ?c 0 (demo_row ''b'' ''bad'' 0)]) ''b'' ''e'' (Aware 0) (Aware u) 2)) =
      Inr (demo_db [(demo_row ''b'' ''bad'' 2000000)\<lparr>qr_created := 0, qr_attempts := 1, qr_error := Some ''e''\<rparr>], PENDING)" by code_simp
  have parts: "qr_payload (claimed_row ?c 0 (demo_row ''b'' ''bad'' 0)) = ''bad''" "qr_attempts (claimed_row ?c 0 (demo_row ''b'' ''bad'' 0)) = 1"
    "qr_item (claimed_row ?c 0 (demo_row ''b'' ''bad'' 0)) = ''b''" "lc_max_attempts ?c = 2" "lc_max_failures ?c = 1"
    by (simp_all add: demo_row_def demo_loop_config_def)
  have rf: "record_failure (demo_db [(demo_row ''b'' ''bad'' 2000000)\<lparr>qr_created := 0, qr_attempts := 1, qr_error := Some ''e''\<rparr>]) (Aware 0) ''e'' =
      Inr (demo_failed, 1)" "ls_consecutive (db_loop demo_failed) = 1" by code_simp+
  have "run_once flat_sha demo_loader demo_repr ?c (Aware 0) ?w =
      handle_failure flat_sha ?c (claimed_row ?c 0 (demo_row ''b'' ''bad'' 0)) 0 ''e''
        \<lparr>lw_db = demo_db [claimed_row ?c 0 (demo_row ''b'' ''bad'' 0)], lw_runtime = rt\<rparr>"
    by (simp add: run_once_def cl run_item_def parts demo_loader_def demo_repr_def)
  also have "\<dots> = (case threshold_hold flat_sha (claimed_row ?c 0 (demo_row ''b'' ''bad'' 0)) 0 ''e'' rt of
      (rt', Inl e) \<Rightarrow> (\<lparr>lw_db = demo_failed, lw_runtime = rt'\<rparr>, Inl e)
    | (rt', Inr _) \<Rightarrow> (\<lparr>lw_db = demo_failed, lw_runtime = rt'\<rparr>, Inr RETRY_SCHEDULED))"
    by (simp add: handle_failure_def f parts rf(1) Let_def rt(2) demo_portfolio_parts)
  finally have ended: "res = RETRY_SCHEDULED \<and> ls_consecutive (db_loop (lw_db w')) = 1"
    using run rf(2) by (auto split: prod.splits sum.splits)
  have fresh: "\<forall>r' \<in> set (db_rows (lw_db ?w)). hold_id (sr_context (lw_runtime ?w)) (claimed_row ?c 0 r') \<notin> set (map ar_observation_id [r])"
    by (simp only: ids) (simp add: hold_id_def rt(3) demo_context_def demo_db_def)
  have th: "lc_max_failures ?c \<le> ls_consecutive (db_loop (lw_db w'))" "res = RETRY_SCHEDULED \<or> res = DEAD_LETTERED"
    using ended by (simp_all add: parts)
  have "pe_kill_reason (sr_engine rt) = None" by (simp add: rt(2) demo_portfolio_parts)
  with loop_failures_hold_session [OF flat_sha_hex ok q demo_loop_config_ok(1) demo_loader_ok demo_repr_ok clock run th(2,1) fresh]
  obtain reason y where "pe_kill_reason (sr_engine (lw_runtime w')) = Some reason"
    "verify_lines flat_sha (aj_lines (sr_journal (lw_runtime w'))) = Inr ([r] @ [y])" "ar_status y = SHADOW_SAFETY_HOLD" by auto
  with run \<open>pe_kill_reason (sr_engine rt) = None\<close> show ?thesis
    by (intro exI [of _ rt] exI [of _ w'] exI [of _ y]) simp
qed

theorem loop_done_recorded_once_witness:
  "\<exists>rt w. foldl (loop_step flat_sha demo_loader demo_repr (demo_loop_config 3)) \<lparr>lw_db = fresh_db, lw_runtime = rt\<rparr>
       [Submit ''a'' ''good'' (Aware 0), Iterate 0] = w \<and>
     map qr_status (db_rows (lw_db w)) = [DONE] \<and>
     (\<exists>rs. verify_lines flat_sha (aj_lines (sr_journal (lw_runtime w))) = Inr rs \<and>
        length (filter (\<lambda>x. ar_observation_id x = ''x'') rs) = 1)"
proof -
  obtain rt r where rt: "shadow_ok flat_sha rt [r]" "sr_engine rt = demo_portfolio" "sr_context rt = demo_context"
    "aj_ids (sr_journal rt) = [''s:initialize'']" by (rule demo_runtime)
  let ?c = "demo_loop_config 3" and ?row = "claimed_row (demo_loop_config 3) 0 (demo_row ''a'' ''good'' 0)"
  obtain rt1 r1 where o: "shadow_observe flat_sha rt demo_meta ''x'' [demo_entry ''a''] (Fin 1000) = (rt1, Inr r1)"
    by (rule demo_observed [OF flat_sha_hex rt(1,2) _ demo_texts(1)]) (simp_all add: rt(4))
  have e: "queue_enqueue fresh_db ''a'' ''good'' (Aware 0) = Inr (demo_db [demo_row ''a'' ''good'' 0], True)" by code_simp
  have cl: "claim (demo_db [demo_row ''a'' ''good'' 0]) (Aware 0) (lc_lease ?c) = Inr (demo_db [?row], Some ?row)" by code_simp
  have "queue_ok (demo_db [demo_row ''a'' ''good'' 0])" "demo_row ''a'' ''good'' 0 \<in> set (db_rows (demo_db [demo_row ''a'' ''good'' 0]))"
    "lw_db \<lparr>lw_db = demo_db [?row], lw_runtime = rt1\<rparr> =
      update_row (qr_item (demo_row ''a'' ''good'' 0)) (claimed_row ?c 0) (demo_db [demo_row ''a'' ''good'' 0])"
    by (simp_all add: queue_ok_def demo_db_def update_row_def)
  then obtain l row' where l: "settle ?row 0 PROCESSED \<lparr>lw_db = demo_db [?row], lw_runtime = rt1\<rparr> =
      (\<lparr>lw_db = demo_db [?row], lw_runtime = rt1\<rparr>\<lparr>lw_db := replace_row row' (demo_db [demo_row ''a'' ''good'' 0]) l\<rparr>, Inr PROCESSED)"
    "qr_item row' = ''a''" "qr_payload row' = ''good''" "qr_status row' = DONE"
    by (rule settle_claimed) (rule that, simp_all)
  obtain db where db: "settle ?row 0 PROCESSED \<lparr>lw_db = demo_db [?row], lw_runtime = rt1\<rparr> = (\<lparr>lw_db = db, lw_runtime = rt1\<rparr>, Inr PROCESSED)"
    "map qr_status (db_rows db) = [DONE]" "map qr_payload (db_rows db) = [''good'']"
    using l by (simp add: demo_db_def)
  have pay: "qr_payload ?row = ''good''" by (simp add: demo_row_def)
  have run: "foldl (loop_step flat_sha demo_loader demo_repr ?c) \<lparr>lw_db = fresh_db, lw_runtime = rt\<rparr>
      [Submit ''a'' ''good'' (Aware 0), Iterate 0] = \<lparr>lw_db = db, lw_runtime = rt1\<rparr>"
    by (simp add: e run_once_def cl run_item_def process_def demo_loader_def demo_work_def pay o db(1) world_update)
  have ops: "list_all loop_op_ok [Submit ''a'' ''good'' (Aware 0), Iterate 0]" by (simp add: instant_zero)
  from loop_done_recorded_once [OF flat_sha_hex demo_loader_ok rt(1) ops run]
  obtain rs where "verify_lines flat_sha (aj_lines (sr_journal rt1)) = Inr rs"
    "\<forall>r \<in> set (db_rows db). qr_status r = DONE \<longrightarrow> (\<exists>work. demo_loader (qr_payload r) = Inr work \<and>
       length (filter (\<lambda>x. ar_observation_id x = sw_observation_id work) rs) = 1)" by auto
  then have "length (filter (\<lambda>x. ar_observation_id x = ''x'') rs) = 1"
    using db(2,3) by (auto simp: map_eq_Cons_conv demo_loader_def demo_work_def)
  with run db(2) \<open>verify_lines flat_sha (aj_lines (sr_journal rt1)) = Inr rs\<close> show ?thesis
    by (intro exI [of _ rt] exI [of _ "\<lparr>lw_db = db, lw_runtime = rt1\<rparr>"]) auto
qed

definition stale_row :: queue_row where
  "stale_row = claimed_row default_loop_config 0 (demo_row ''a'' ''u'' 0)"

theorem stale_worker_takes_item_witness:
  "\<exists>db db'. claim db (Aware 60000000) (Fin 60) = Inr (db', Some (claimed_row default_loop_config 60000000 stale_row)) \<and>
     (\<exists>db3. acknowledge db' ''a'' (Aware 61000000) = Inr db3 \<and> \<not> is_ok (acknowledge db3 ''a'' (Aware 62000000)))"
proof -
  let ?second = "claimed_row default_loop_config 60000000 stale_row"
  have c: "claim (demo_db [demo_row ''a'' ''u'' 0]) (Aware 0) (Fin 60) = Inr (demo_db [stale_row], Some stale_row)"
    "claim (demo_db [stale_row]) (Aware 60000000) (Fin 60) = Inr (demo_db [?second], Some ?second)"
    "qr_item ?second = qr_item stale_row" by code_simp+
  have "qr_item stale_row = ''a''" by code_simp
  with stale_worker_takes_item [OF c, of 61000000 62000000 "''e''" 1 0] c(3)
  obtain db3 where "acknowledge (demo_db [?second]) ''a'' (Aware 61000000) = Inr db3" "\<not> is_ok (acknowledge db3 ''a'' (Aware 62000000))"
    by auto
  with c(2) show ?thesis by blast
qed

end
