(* ===== verification/Shadow_Store.thy ===== *)
theory Shadow_Store
  imports Shadow_Loop
begin

text \<open>
  Model of \<open>src/execution/shadow_store.py\<close>: the URIs of observations, the immutable files of shadow work
  with their checksum, and the two sides of \<open>to_json_safe\<close> and \<open>from_json_safe\<close>: each branch of the
  reflection is a combinator, and each dataclass of the work is the reading of its fields by their declared
  types. SHA-256 and the clock are arguments. A number of the payload is an exact rational; one that is not
  finite, which \<open>write\<close> never stores, is an exception of the model where the class has no check of its own.
  Not modelled: partial writes, file modes, platforms without \<open>O_NOFOLLOW\<close>.
\<close>

definition store_error :: "string \<Rightarrow> exn" where
  "store_error msg = Raised ShadowWorkStoreError msg"

section \<open>URIs\<close>

text \<open>
  \<open>^[A-Za-z0-9][A-Za-z0-9._:-]{0,255}$\<close> with \<open>re.match\<close>, whose \<open>$\<close> also matches before a final newline.
\<close>

definition id_start :: "char \<Rightarrow> bool" where
  "id_start c =
     (let n = (of_char c :: nat) in 65 \<le> n \<and> n \<le> 90 \<or> 97 \<le> n \<and> n \<le> 122 \<or> 48 \<le> n \<and> n \<le> 57)"

definition id_char :: "char \<Rightarrow> bool" where
  "id_char c = (id_start c \<or> c \<in> set ''._:-'')"

definition id_core :: "string \<Rightarrow> bool" where
  "id_core s = (case s of [] \<Rightarrow> False | c # cs \<Rightarrow> id_start c \<and> list_all id_char cs \<and> length cs \<le> 255)"

definition observation_id_ok :: "string \<Rightarrow> bool" where
  "observation_id_ok s = (id_core s \<or> (s \<noteq> [] \<and> (of_char (last s) :: nat) = 10 \<and> id_core (butlast s)))"

definition uri_scheme :: string where
  "uri_scheme = ''shadow-work:''"

definition build_uri :: "string \<Rightarrow> string result" where
  "build_uri observation_id =
     (if \<not> observation_id_ok observation_id then Inl (store_error ''invalid shadow work observation id'')
      else Inr (uri_scheme @ observation_id))"

definition parse_uri :: "string \<Rightarrow> string result" where
  "parse_uri uri =
     (if take (length uri_scheme) uri \<noteq> uri_scheme then Inl (store_error ''unsupported shadow work URI scheme'')
      else
        (let observation_id = drop (length uri_scheme) uri in
         if \<not> observation_id_ok observation_id then Inl (store_error ''invalid shadow work observation id in URI'')
         else Inr observation_id))"

section \<open>Values as JSON\<close>

text \<open>The texts of the enumerations.\<close>

definition action_values :: "(string, setup_action) dict" where
  "action_values = [(''LONG'', LONG), (''SHORT'', SHORT), (''WAIT'', WAIT), (''ARBITRAGE'', ARBITRAGE)]"

definition side_values :: "(string, leg_side) dict" where
  "side_values = [(''BUY'', BUY), (''SELL'', SELL)]"

definition quality_values :: "(string, data_quality_status) dict" where
  "quality_values = [(''PASS'', QualityPass), (''DEGRADED'', QualityDegraded), (''FAIL'', QualityFail)]"

definition family_values :: "(string, confirmation_family) dict" where
  "family_values =
     [(''price_auction'', PriceAuction), (''order_flow'', OrderFlow), (''derivatives'', Derivatives),
      (''volatility_options'', VolatilityOptions), (''cross_market'', CrossMarket), (''regime_analog'', RegimeAnalog)]"

definition kind_values :: "(string, engine_kind) dict" where
  "kind_values = [(''DIRECTIONAL'', DIRECTIONAL), (''NEUTRAL'', NEUTRAL), (''RESEARCH'', engine_kind.RESEARCH)]"

definition enum_text :: "(string, 'a) dict \<Rightarrow> 'a \<Rightarrow> json" where
  "enum_text tbl x = (case find (\<lambda>p. snd p = x) tbl of Some (s, _) \<Rightarrow> JStr s | None \<Rightarrow> JNull)"

definition number :: "rat \<Rightarrow> json" where
  "number r = JFloat (Fin r)"

definition timestamp :: "int \<Rightarrow> json" where
  "timestamp t = JStr (isoformat t)"

definition texts :: "string list \<Rightarrow> json" where
  "texts xs = JList (map JStr xs)"

definition range_json :: "rat numeric_range \<Rightarrow> json" where
  "range_json r = JObj [(''low'', number (nr_low r)), (''base'', number (nr_base r)), (''high'', number (nr_high r))]"

definition target_json :: "market_target \<Rightarrow> json" where
  "target_json t = JObj [(''symbol'', JStr (mt_symbol t)), (''venues'', texts (mt_venues t))]"

definition leg_json :: "setup_leg \<Rightarrow> json" where
  "leg_json l =
     JObj [(''symbol'', JStr (sl_symbol l)), (''venue'', JStr (sl_venue l)), (''side'', enum_text side_values (sl_side l))]"

definition evidence_json :: "(rat, int) family_evidence \<Rightarrow> json" where
  "evidence_json f =
     JObj [(''family'', enum_text family_values (fe_family f)), (''score'', number (fe_score f)),
           (''confidence'', number (fe_confidence f)), (''quality'', number (fe_quality f)),
           (''max_source_timestamp_utc'', timestamp (fe_max_source f)), (''component_ids'', texts (fe_components f)),
           (''rationale'', JStr (fe_rationale f))]"

definition regime_json :: "string \<times> string \<Rightarrow> json" where
  "regime_json p = JList [JStr (fst p), JStr (snd p)]"

definition setup_json :: "(rat, int) setup_decision \<Rightarrow> json" where
  "setup_json s =
     JObj [(''action'', enum_text action_values (sd_action s)), (''targets'', JList (map target_json (sd_targets s))),
           (''legs'', JList (map leg_json (sd_legs s))), (''decision_timestamp_utc'', timestamp (sd_decision_at s)),
           (''data_cutoff_utc'', timestamp (sd_data_cutoff s)), (''horizon'', JStr (sd_horizon s)),
           (''evidence'', JList (map evidence_json (sd_evidence s))), (''regimes'', JList (map regime_json (sd_regimes s))),
           (''entry_condition'', JStr (sd_entry_condition s)), (''invalidation'', JStr (sd_invalidation s)),
           (''stop_or_hedge_logic'', JStr (sd_stop_or_hedge s)), (''expected_cost_bps'', range_json (sd_expected_cost s)),
           (''expected_value_after_cost_bps'', range_json (sd_expected_value s)),
           (''capacity_notional'', number (sd_capacity s)), (''data_quality_status'', enum_text quality_values (sd_quality s)),
           (''model_version'', JStr (sd_model_version s)), (''feature_version'', JStr (sd_feature_version s)),
           (''reason_codes'', texts (sd_reason_codes s))]"

definition optional_json :: "('a \<Rightarrow> json) \<Rightarrow> 'a option \<Rightarrow> json" where
  "optional_json f x = (case x of None \<Rightarrow> JNull | Some y \<Rightarrow> f y)"

definition ranking_json :: "candidate_ranking \<Rightarrow> json" where
  "ranking_json r =
     JObj [(''engine_id'', JStr (cr_engine_id r)), (''engine_kind'', enum_text kind_values (cr_kind r)),
           (''action'', enum_text action_values (cr_action r)), (''eligible'', JBool (cr_eligible r)),
           (''score'', optional_json number (cr_score r)), (''maximum_allocation_notional'', number (cr_max_allocation r)),
           (''reason'', JStr (cr_reason r))]"

definition meta_json :: "meta_decision \<Rightarrow> json" where
  "meta_json m =
     JObj [(''action'', enum_text action_values (md_action m)), (''decision_timestamp_utc'', timestamp (md_decided_at m)),
           (''selected_engine_id'', optional_json JStr (md_engine_id m)),
           (''selected_setup'', optional_json setup_json (md_setup m)), (''allocated_notional'', number (md_allocated m)),
           (''rankings'', JList (map ranking_json (md_rankings m))), (''reason_codes'', texts (md_reason_codes m))]"

definition proposal_json :: "(rat, int) entry_proposal \<Rightarrow> json" where
  "proposal_json p =
     JObj [(''key'', JStr (ep_key p)), (''symbol'', JStr (ep_symbol p)), (''venue'', JStr (ep_venue p)),
           (''strategy'', JStr (ep_strategy p)), (''engine'', JStr (ep_engine p)),
           (''signed_notional'', number (ep_signed_notional p)), (''committed_risk_fraction'', number (ep_committed_risk p)),
           (''correlation_checked_symbols'', texts (ep_correlation_checked p)), (''correlated_symbols'', texts (ep_correlated p)),
           (''proposed_at_utc'', timestamp (ep_proposed_at p))]"

definition work_json :: "shadow_work \<Rightarrow> json result" where
  "work_json w =
     (if \<not> isfinite (sw_equity w) then Inl (store_error ''shadow work payload cannot contain non-finite numbers'')
      else Inr (JObj [(''observation_id'', JStr (sw_observation_id w)), (''meta'', meta_json (sw_meta w)),
                      (''proposals'', JList (map proposal_json (sw_proposals w))), (''equity'', JFloat (sw_equity w))]))"

section \<open>Values from JSON\<close>

definition from_tuple :: "(json \<Rightarrow> 'a result) \<Rightarrow> json \<Rightarrow> 'a list result" where
  "from_tuple f v =
     (case v of JList xs \<Rightarrow> mapE f xs | _ \<Rightarrow> Inl (store_error ''shadow work payload expected a list for a tuple field''))"

definition from_pair :: "(json \<Rightarrow> 'a result) \<Rightarrow> (json \<Rightarrow> 'b result) \<Rightarrow> json \<Rightarrow> ('a \<times> 'b) result" where
  "from_pair f g v =
     (case v of
        JList [a, b] \<Rightarrow> bindE (f a) (\<lambda>x. bindE (g b) (\<lambda>y. Inr (x, y)))
      | JList _ \<Rightarrow> Inl (store_error ''shadow work payload tuple has the wrong arity'')
      | _ \<Rightarrow> Inl (store_error ''shadow work payload expected a list for a tuple field''))"

definition from_optional :: "(json \<Rightarrow> 'a result) \<Rightarrow> json \<Rightarrow> 'a option result" where
  "from_optional f v = (if v = JNull then Inr None else bindE (f v) (\<lambda>x. Inr (Some x)))"

text \<open>
  A dataclass: the names of the object are exactly its fields, and what its constructor raises becomes an
  error of the store.
\<close>

definition constructed :: "string \<Rightarrow> 'a result \<Rightarrow> 'a result" where
  "constructed name r =
     (case r of Inl (ValueError _) \<Rightarrow> Inl (store_error (''shadow work payload is not a valid '' @ name)) | _ \<Rightarrow> r)"

definition from_object :: "string \<Rightarrow> string list \<Rightarrow> ((string, json) dict \<Rightarrow> 'a result) \<Rightarrow> json \<Rightarrow> 'a result" where
  "from_object name names build v =
     (case v of
        JObj d \<Rightarrow>
          if set (map fst d) \<noteq> set names then Inl (store_error (''shadow work payload fields do not match '' @ name))
          else constructed name (build d)
      | _ \<Rightarrow> Inl (store_error (''shadow work payload expected an object for '' @ name)))"

definition from_enum :: "(string, 'a) dict \<Rightarrow> json \<Rightarrow> 'a result" where
  "from_enum tbl v =
     (case v of
        JStr s \<Rightarrow> (case map_of tbl s of Some x \<Rightarrow> Inr x | None \<Rightarrow> Inl (store_error ''invalid enum value''))
      | _ \<Rightarrow> Inl (store_error ''invalid enum value''))"

text \<open>\<open>datetime.fromisoformat\<close> reads a final \<open>Z\<close> as UTC; \<open>astimezone\<close> stays within the years 1 to 9999.\<close>

definition final_Z :: "string \<Rightarrow> string" where
  "final_Z s = (if s \<noteq> [] \<and> last s = CHR ''Z'' then butlast s @ ''+00:00'' else s)"

definition from_timestamp :: "string \<Rightarrow> json \<Rightarrow> int result" where
  "from_timestamp name v =
     (case v of
        JStr s \<Rightarrow>
          (case fromisoformat (final_Z s) of
             None \<Rightarrow> Inl (store_error (name @ '' is not a valid ISO-8601 timestamp''))
           | Some (Naive _) \<Rightarrow> Inl (store_error (name @ '' must be timezone-aware''))
           | Some (Aware t) \<Rightarrow> if instant_in_range t then Inr t else Inl (OtherError ''OverflowError''))
      | _ \<Rightarrow> Inl (store_error (name @ '' must be an ISO-8601 string'')))"

definition from_bool :: "json \<Rightarrow> bool result" where
  "from_bool v = (case v of JBool b \<Rightarrow> Inr b | _ \<Rightarrow> Inl (store_error ''shadow work payload expected a boolean''))"

definition from_float :: "json \<Rightarrow> num result" where
  "from_float v =
     (case v of
        JInt i \<Rightarrow> Inr (Fin (of_int i))
      | JFloat x \<Rightarrow> Inr x
      | _ \<Rightarrow> Inl (store_error ''shadow work payload expected a number''))"

definition from_str :: "json \<Rightarrow> string result" where
  "from_str v = (case v of JStr s \<Rightarrow> Inr s | _ \<Rightarrow> Inl (store_error ''shadow work payload expected a string''))"

definition from_finite :: "json \<Rightarrow> rat result" where
  "from_finite v =
     bindE (from_float v) (\<lambda>x. if isfinite x then Inr (num_val x) else Inl (OtherError ''not a finite number''))"

definition payload_time :: "json \<Rightarrow> int result" where
  "payload_time = from_timestamp ''shadow work payload timestamp''"

section \<open>The dataclasses\<close>

definition range_of :: "json \<Rightarrow> rat numeric_range result" where
  "range_of = from_object ''NumericRange'' [''low'', ''base'', ''high''] (\<lambda>d.
     bindE (from_float (jget d ''low'')) (\<lambda>low.
     bindE (from_float (jget d ''base'')) (\<lambda>base.
     bindE (from_float (jget d ''high'')) (\<lambda>high.
       make_numeric_range \<lparr>nr_low = low, nr_base = base, nr_high = high\<rparr>))))"

definition target_of :: "json \<Rightarrow> market_target result" where
  "target_of = from_object ''MarketTarget'' [''symbol'', ''venues''] (\<lambda>d.
     bindE (from_str (jget d ''symbol'')) (\<lambda>symbol.
     bindE (from_tuple from_str (jget d ''venues'')) (\<lambda>venues.
       make_market_target \<lparr>mt_symbol = symbol, mt_venues = venues\<rparr>)))"

definition leg_of :: "json \<Rightarrow> setup_leg result" where
  "leg_of = from_object ''SetupLeg'' [''symbol'', ''venue'', ''side''] (\<lambda>d.
     bindE (from_str (jget d ''symbol'')) (\<lambda>symbol.
     bindE (from_str (jget d ''venue'')) (\<lambda>venue.
     bindE (from_enum side_values (jget d ''side'')) (\<lambda>side.
       make_setup_leg \<lparr>sl_symbol = symbol, sl_venue = venue, sl_side = side\<rparr>))))"

definition evidence_of :: "json \<Rightarrow> (rat, int) family_evidence result" where
  "evidence_of = from_object ''FamilyEvidence''
     [''family'', ''score'', ''confidence'', ''quality'', ''max_source_timestamp_utc'', ''component_ids'', ''rationale''] (\<lambda>d.
     bindE (from_enum family_values (jget d ''family'')) (\<lambda>family.
     bindE (from_float (jget d ''score'')) (\<lambda>score.
     bindE (from_float (jget d ''confidence'')) (\<lambda>confidence.
     bindE (from_float (jget d ''quality'')) (\<lambda>quality.
     bindE (payload_time (jget d ''max_source_timestamp_utc'')) (\<lambda>t.
     bindE (from_tuple from_str (jget d ''component_ids'')) (\<lambda>components.
     bindE (from_str (jget d ''rationale'')) (\<lambda>rationale.
       make_family_evidence
         \<lparr>fe_family = family, fe_score = score, fe_confidence = confidence, fe_quality = quality, fe_max_source = Aware t,
          fe_components = components, fe_rationale = rationale\<rparr>))))))))"

definition setup_of :: "json \<Rightarrow> (rat, int) setup_decision result" where
  "setup_of = from_object ''SetupDecision''
     [''action'', ''targets'', ''legs'', ''decision_timestamp_utc'', ''data_cutoff_utc'', ''horizon'', ''evidence'', ''regimes'',
      ''entry_condition'', ''invalidation'', ''stop_or_hedge_logic'', ''expected_cost_bps'', ''expected_value_after_cost_bps'',
      ''capacity_notional'', ''data_quality_status'', ''model_version'', ''feature_version'', ''reason_codes''] (\<lambda>d.
     bindE (from_enum action_values (jget d ''action'')) (\<lambda>action.
     bindE (from_tuple target_of (jget d ''targets'')) (\<lambda>targets.
     bindE (from_tuple leg_of (jget d ''legs'')) (\<lambda>legs.
     bindE (payload_time (jget d ''decision_timestamp_utc'')) (\<lambda>decision_at.
     bindE (payload_time (jget d ''data_cutoff_utc'')) (\<lambda>cutoff.
     bindE (from_str (jget d ''horizon'')) (\<lambda>horizon.
     bindE (from_tuple evidence_of (jget d ''evidence'')) (\<lambda>evidence.
     bindE (from_tuple (from_pair from_str from_str) (jget d ''regimes'')) (\<lambda>regimes.
     bindE (from_str (jget d ''entry_condition'')) (\<lambda>entry_condition.
     bindE (from_str (jget d ''invalidation'')) (\<lambda>invalidation.
     bindE (from_str (jget d ''stop_or_hedge_logic'')) (\<lambda>stop.
     bindE (range_of (jget d ''expected_cost_bps'')) (\<lambda>cost.
     bindE (range_of (jget d ''expected_value_after_cost_bps'')) (\<lambda>net.
     bindE (from_float (jget d ''capacity_notional'')) (\<lambda>capacity.
     bindE (from_enum quality_values (jget d ''data_quality_status'')) (\<lambda>quality.
     bindE (from_str (jget d ''model_version'')) (\<lambda>model_version.
     bindE (from_str (jget d ''feature_version'')) (\<lambda>feature_version.
     bindE (from_tuple from_str (jget d ''reason_codes'')) (\<lambda>reason_codes.
       make_setup_decision
         \<lparr>sd_action = action, sd_targets = targets, sd_legs = legs, sd_decision_at = Aware decision_at,
          sd_data_cutoff = Aware cutoff, sd_horizon = horizon, sd_evidence = evidence, sd_regimes = regimes,
          sd_entry_condition = entry_condition, sd_invalidation = invalidation, sd_stop_or_hedge = stop,
          sd_expected_cost = cost, sd_expected_value = net, sd_capacity = capacity, sd_quality = quality,
          sd_model_version = model_version, sd_feature_version = feature_version,
          sd_reason_codes = reason_codes\<rparr>)))))))))))))))))))"

definition ranking_of :: "json \<Rightarrow> candidate_ranking result" where
  "ranking_of = from_object ''CandidateRanking''
     [''engine_id'', ''engine_kind'', ''action'', ''eligible'', ''score'', ''maximum_allocation_notional'', ''reason''] (\<lambda>d.
     bindE (from_str (jget d ''engine_id'')) (\<lambda>engine_id.
     bindE (from_enum kind_values (jget d ''engine_kind'')) (\<lambda>kind.
     bindE (from_enum action_values (jget d ''action'')) (\<lambda>action.
     bindE (from_bool (jget d ''eligible'')) (\<lambda>eligible.
     bindE (from_optional from_finite (jget d ''score'')) (\<lambda>score.
     bindE (from_finite (jget d ''maximum_allocation_notional'')) (\<lambda>allocation.
     bindE (from_str (jget d ''reason'')) (\<lambda>reason.
       Inr \<lparr>cr_engine_id = engine_id, cr_kind = kind, cr_action = action, cr_eligible = eligible, cr_score = score,
            cr_max_allocation = allocation, cr_reason = reason\<rparr>))))))))"

definition meta_of :: "json \<Rightarrow> meta_decision result" where
  "meta_of = from_object ''MetaDecision''
     [''action'', ''decision_timestamp_utc'', ''selected_engine_id'', ''selected_setup'', ''allocated_notional'', ''rankings'',
      ''reason_codes''] (\<lambda>d.
     bindE (from_enum action_values (jget d ''action'')) (\<lambda>action.
     bindE (payload_time (jget d ''decision_timestamp_utc'')) (\<lambda>decided_at.
     bindE (from_optional from_str (jget d ''selected_engine_id'')) (\<lambda>engine_id.
     bindE (from_optional setup_of (jget d ''selected_setup'')) (\<lambda>setup.
     bindE (from_finite (jget d ''allocated_notional'')) (\<lambda>allocated.
     bindE (from_tuple ranking_of (jget d ''rankings'')) (\<lambda>rankings.
     bindE (from_tuple from_str (jget d ''reason_codes'')) (\<lambda>reason_codes.
       make_meta_decision
         \<lparr>md_action = action, md_decided_at = decided_at, md_engine_id = engine_id, md_setup = setup,
          md_allocated = allocated, md_rankings = rankings, md_reason_codes = reason_codes\<rparr>))))))))"

definition proposal_of :: "json \<Rightarrow> (rat, int) entry_proposal result" where
  "proposal_of = from_object ''PortfolioEntryProposal''
     [''key'', ''symbol'', ''venue'', ''strategy'', ''engine'', ''signed_notional'', ''committed_risk_fraction'',
      ''correlation_checked_symbols'', ''correlated_symbols'', ''proposed_at_utc''] (\<lambda>d.
     bindE (from_str (jget d ''key'')) (\<lambda>key.
     bindE (from_str (jget d ''symbol'')) (\<lambda>symbol.
     bindE (from_str (jget d ''venue'')) (\<lambda>venue.
     bindE (from_str (jget d ''strategy'')) (\<lambda>strategy.
     bindE (from_str (jget d ''engine'')) (\<lambda>engine.
     bindE (from_float (jget d ''signed_notional'')) (\<lambda>notional.
     bindE (from_float (jget d ''committed_risk_fraction'')) (\<lambda>risk.
     bindE (from_tuple from_str (jget d ''correlation_checked_symbols'')) (\<lambda>checked.
     bindE (from_tuple from_str (jget d ''correlated_symbols'')) (\<lambda>correlated.
     bindE (payload_time (jget d ''proposed_at_utc'')) (\<lambda>t.
       make_entry_proposal
         \<lparr>ep_key = key, ep_symbol = symbol, ep_venue = venue, ep_strategy = strategy, ep_engine = engine,
          ep_signed_notional = notional, ep_committed_risk = risk, ep_correlation_checked = checked,
          ep_correlated = correlated, ep_proposed_at = Aware t\<rparr>)))))))))))"

definition work_of :: "json \<Rightarrow> shadow_work result" where
  "work_of = from_object ''ShadowWork'' [''observation_id'', ''meta'', ''proposals'', ''equity''] (\<lambda>d.
     bindE (from_str (jget d ''observation_id'')) (\<lambda>observation_id.
     bindE (meta_of (jget d ''meta'')) (\<lambda>m.
     bindE (from_tuple proposal_of (jget d ''proposals'')) (\<lambda>proposals.
     bindE (from_float (jget d ''equity'')) (\<lambda>equity.
       make_shadow_work
         \<lparr>sw_observation_id = observation_id, sw_meta = m, sw_proposals = proposals, sw_equity = equity\<rparr>)))))"

section \<open>The store\<close>

text \<open>
  A file of the base directory: what \<open>write\<close> leaves, other bytes with what \<open>json.loads\<close> makes of them, or a
  symbolic link. The directory maps observation ids, the stems of the file names.
\<close>

datatype store_file = Written json | Foreign "json option" | Symlink

type_synonym work_store = "string \<Rightarrow> store_file option"

definition work_envelope :: "(json \<Rightarrow> string) \<Rightarrow> string \<Rightarrow> int \<Rightarrow> json \<Rightarrow> json" where
  "work_envelope sha observation_id written_at payload =
     JObj [(''schema_version'', JInt 1), (''observation_id'', JStr observation_id), (''written_at_utc'', timestamp written_at),
           (''payload_sha256'', JStr (digest_of sha payload)), (''payload'', payload)]"

definition store_write :: "(json \<Rightarrow> string) \<Rightarrow> work_store \<Rightarrow> shadow_work \<Rightarrow> pydatetime \<Rightarrow> (work_store \<times> string) result" where
  "store_write sha st w written_at_utc =
     bindE (build_uri (sw_observation_id w)) (\<lambda>uri.
     case written_at_utc of
       Naive _ \<Rightarrow> Inl (store_error ''shadow work written_at_utc must be timezone-aware'')
     | Aware t \<Rightarrow>
         bindE (work_json w) (\<lambda>payload.
           let encoded = Written (canonical (work_envelope sha (sw_observation_id w) t payload)) in
           case st (sw_observation_id w) of
             Some Symlink \<Rightarrow> Inl (store_error ''refusing to write over a symlink'')
           | Some existing \<Rightarrow>
               if existing = encoded then Inr (st, uri)
               else Inl (store_error ''immutable shadow payload already exists with different content'')
           | None \<Rightarrow> Inr (st(sw_observation_id w \<mapsto> encoded), uri)))"

definition read_no_symlink :: "work_store \<Rightarrow> string \<Rightarrow> json option result" where
  "read_no_symlink st i =
     (case st i of
        None \<Rightarrow> Inl (store_error ''shadow work payload not found'')
      | Some Symlink \<Rightarrow> Inl (store_error ''refusing to follow symlink'')
      | Some (Written v) \<Rightarrow> Inr (Some v)
      | Some (Foreign v) \<Rightarrow> Inr v)"

text \<open>\<open>schema_version != 1\<close>: Python takes \<open>True\<close> and \<open>1.0\<close> for 1.\<close>

definition equals_one :: "json \<Rightarrow> bool" where
  "equals_one v \<longleftrightarrow> v = JInt 1 \<or> v = JBool True \<or> v = JFloat (Fin 1)"

definition store_load :: "(json \<Rightarrow> string) \<Rightarrow> int \<Rightarrow> rat \<Rightarrow> work_store \<Rightarrow> string \<Rightarrow> shadow_work result" where
  "store_load sha now tolerance st uri =
     bindE (parse_uri uri) (\<lambda>observation_id.
     bindE (read_no_symlink st observation_id) (\<lambda>raw.
       case raw of
         None \<Rightarrow> Inl (store_error ''shadow work payload is not valid JSON'')
       | Some (JObj envelope) \<Rightarrow>
           if \<not> equals_one (jget envelope ''schema_version'')
           then Inl (store_error ''unsupported shadow work schema version'')
           else if jget envelope ''observation_id'' \<noteq> JStr observation_id
           then Inl (store_error ''shadow work observation id does not match its URI'')
           else
             bindE (from_timestamp ''shadow work written_at_utc'' (jget envelope ''written_at_utc'')) (\<lambda>written_at.
               if tolerance < of_int (written_at - now) / 1000000
               then Inl (store_error ''shadow work written_at_utc is in the future'')
               else
                 (case jget envelope ''payload_sha256'' of
                    JStr checksum \<Rightarrow>
                      if length checksum \<noteq> 64 then Inl (store_error ''shadow work payload checksum is missing or malformed'')
                      else
                        bindE (compare_digest (digest_of sha (jget envelope ''payload'')) checksum) (\<lambda>same.
                          if \<not> same then Inl (store_error ''shadow work payload checksum mismatch'')
                          else
                            bindE (work_of (jget envelope ''payload'')) (\<lambda>w.
                              if sw_observation_id w \<noteq> observation_id
                              then Inl (store_error ''shadow work payload observation id does not match its URI'')
                              else Inr w))
                  | _ \<Rightarrow> Inl (store_error ''shadow work payload checksum is missing or malformed'')))
       | _ \<Rightarrow> Inl (store_error ''shadow work envelope must be a JSON object'')))"

definition enqueue_shadow_work :: "(json \<Rightarrow> string) \<Rightarrow> shadow_db \<Rightarrow> work_store \<Rightarrow> shadow_work \<Rightarrow> pydatetime \<Rightarrow> pydatetime
    \<Rightarrow> (shadow_db \<times> work_store) \<times> bool result" where
  "enqueue_shadow_work sha db st w written_at_utc available_at_utc =
     (case store_write sha st w written_at_utc of
        Inl e \<Rightarrow> ((db, st), Inl e)
      | Inr (st', uri) \<Rightarrow>
          (case queue_enqueue db (sw_observation_id w) uri available_at_utc of
             Inl e \<Rightarrow> ((db, st'), Inl e)
           | Inr (db', fresh) \<Rightarrow> ((db', st'), Inr fresh)))"

section \<open>Constructed objects\<close>

text \<open>The arguments a constructor was given, up to the time zone: it yields the very object.\<close>

definition raw_evidence :: "(rat, int) family_evidence \<Rightarrow> (num, pydatetime) family_evidence" where
  "raw_evidence f =
     \<lparr>fe_family = fe_family f, fe_score = Fin (fe_score f), fe_confidence = Fin (fe_confidence f),
      fe_quality = Fin (fe_quality f), fe_max_source = Aware (fe_max_source f), fe_components = fe_components f,
      fe_rationale = fe_rationale f\<rparr>"

definition raw_setup :: "(rat, int) setup_decision \<Rightarrow> (num, pydatetime) setup_decision" where
  "raw_setup s =
     \<lparr>sd_action = sd_action s, sd_targets = sd_targets s, sd_legs = sd_legs s, sd_decision_at = Aware (sd_decision_at s),
      sd_data_cutoff = Aware (sd_data_cutoff s), sd_horizon = sd_horizon s, sd_evidence = sd_evidence s,
      sd_regimes = sd_regimes s, sd_entry_condition = sd_entry_condition s, sd_invalidation = sd_invalidation s,
      sd_stop_or_hedge = sd_stop_or_hedge s, sd_expected_cost = sd_expected_cost s, sd_expected_value = sd_expected_value s,
      sd_capacity = Fin (sd_capacity s), sd_quality = sd_quality s, sd_model_version = sd_model_version s,
      sd_feature_version = sd_feature_version s, sd_reason_codes = sd_reason_codes s\<rparr>"

definition raw_proposal :: "(rat, int) entry_proposal \<Rightarrow> (num, pydatetime) entry_proposal" where
  "raw_proposal p =
     \<lparr>ep_key = ep_key p, ep_symbol = ep_symbol p, ep_venue = ep_venue p, ep_strategy = ep_strategy p, ep_engine = ep_engine p,
      ep_signed_notional = Fin (ep_signed_notional p), ep_committed_risk = Fin (ep_committed_risk p),
      ep_correlation_checked = ep_correlation_checked p, ep_correlated = ep_correlated p,
      ep_proposed_at = Aware (ep_proposed_at p)\<rparr>"

definition range_valid :: "rat numeric_range \<Rightarrow> bool" where
  "range_valid r \<longleftrightarrow> nr_low r \<le> nr_base r \<and> nr_base r \<le> nr_high r"

definition evidence_valid :: "(rat, int) family_evidence \<Rightarrow> bool" where
  "evidence_valid f \<longleftrightarrow> make_family_evidence (raw_evidence f) = Inr f \<and> instant_in_range (fe_max_source f)"

definition setup_valid :: "(rat, int) setup_decision \<Rightarrow> bool" where
  "setup_valid s \<longleftrightarrow>
     make_setup_decision (raw_setup s) = Inr s \<and> instant_in_range (sd_decision_at s) \<and> instant_in_range (sd_data_cutoff s) \<and>
     list_all (\<lambda>t. make_market_target t = Inr t) (sd_targets s) \<and> list_all (\<lambda>l. make_setup_leg l = Inr l) (sd_legs s) \<and>
     list_all evidence_valid (sd_evidence s) \<and> range_valid (sd_expected_cost s) \<and> range_valid (sd_expected_value s)"

definition meta_valid :: "meta_decision \<Rightarrow> bool" where
  "meta_valid m \<longleftrightarrow>
     make_meta_decision m = Inr m \<and> instant_in_range (md_decided_at m) \<and> (\<forall>s. md_setup m = Some s \<longrightarrow> setup_valid s)"

definition proposal_valid :: "(rat, int) entry_proposal \<Rightarrow> bool" where
  "proposal_valid p \<longleftrightarrow> make_entry_proposal (raw_proposal p) = Inr p \<and> instant_in_range (ep_proposed_at p)"

definition work_valid :: "shadow_work \<Rightarrow> bool" where
  "work_valid w \<longleftrightarrow> make_shadow_work w = Inr w \<and> meta_valid (sw_meta w) \<and> list_all proposal_valid (sw_proposals w)"

section \<open>Reading back what was written\<close>

lemma set_sorted_keys: "set (map fst (sorted_entries d)) = set (map fst d)"
  by (simp add: sorted_entries_def image_image)

lemma from_object_canonical:
  "set (map fst d) = set names \<Longrightarrow>
     from_object name names build (canonical (JObj d)) = constructed name (build (sorted_entries d))"
  using set_sorted_keys [of d] by (simp add: from_object_def)

lemma constructed_Inr [simp]: "constructed name (Inr x) = Inr x"
  by (simp add: constructed_def)

lemma constructed_eq: "constructed name r = Inr x \<longleftrightarrow> r = Inr x"
  by (cases r) (auto simp: constructed_def split: exn.splits)

lemma from_object_Inr: "from_object name names build v = Inr x \<Longrightarrow> \<exists>d. v = JObj d \<and> build d = Inr x"
  by (cases v) (auto simp: from_object_def constructed_eq split: if_splits)

lemma from_tuple_canonical:
  "(\<And>x. x \<in> set xs \<Longrightarrow> f (canonical (g x)) = Inr x) \<Longrightarrow> from_tuple f (canonical (JList (map g xs))) = Inr xs"
  by (induction xs) (auto simp: from_tuple_def)

lemma texts_back [simp]: "from_tuple from_str (canonical (texts xs)) = Inr xs"
  unfolding texts_def by (rule from_tuple_canonical) (simp add: from_str_def)

lemma scalars_back [simp]:
  "from_str (JStr s) = Inr s" "from_float (canonical (number r)) = Inr (Fin r)" "from_bool (JBool b) = Inr b"
  "from_finite (canonical (number r)) = Inr r"
  by (simp_all add: from_str_def from_float_def number_def from_bool_def from_finite_def)

lemma final_Z_isoformat [simp]: "final_Z (isoformat t) = isoformat t"
  by (simp add: final_Z_def isoformat_def Let_def)

lemma timestamp_back: "instant_in_range t \<Longrightarrow> from_timestamp name (canonical (timestamp t)) = Inr t"
  by (simp add: from_timestamp_def timestamp_def isoformat_roundtrip)

lemma payload_time_back [simp]: "instant_in_range t \<Longrightarrow> payload_time (canonical (timestamp t)) = Inr t"
  by (simp add: payload_time_def timestamp_back)

lemma action_back [simp]: "from_enum action_values (canonical (enum_text action_values a)) = Inr a"
  by (cases a) (simp_all add: from_enum_def enum_text_def action_values_def)

lemma side_back [simp]: "from_enum side_values (canonical (enum_text side_values b)) = Inr b"
  by (cases b) (simp_all add: from_enum_def enum_text_def side_values_def)

lemma quality_back [simp]: "from_enum quality_values (canonical (enum_text quality_values q)) = Inr q"
  by (cases q) (simp_all add: from_enum_def enum_text_def quality_values_def)

lemma family_back [simp]: "from_enum family_values (canonical (enum_text family_values f)) = Inr f"
  by (cases f) (simp_all add: from_enum_def enum_text_def family_values_def)

lemma kind_back [simp]: "from_enum kind_values (canonical (enum_text kind_values k)) = Inr k"
  by (cases k) (simp_all add: from_enum_def enum_text_def kind_values_def)

lemma optional_back:
  assumes "\<And>y. x = Some y \<Longrightarrow> f (canonical (g y)) = Inr y" "\<And>y. canonical (g y) \<noteq> JNull"
  shows "from_optional f (canonical (optional_json g x)) = Inr x"
  using assms by (cases x) (simp_all add: from_optional_def optional_json_def)

lemma optional_texts_back [simp]: "from_optional from_str (canonical (optional_json JStr x)) = Inr x"
  by (rule optional_back) simp_all

lemma optional_number_back [simp]: "from_optional from_finite (canonical (optional_json number x)) = Inr x"
  by (rule optional_back) (simp_all add: number_def from_finite_def from_float_def)

lemma jget_Cons: "jget ((k, v) # d) name = (if k = name then v else jget d name)"
  by (simp add: jget_def)

lemmas reading = from_object_canonical jget_sorted jget_Cons

lemma range_back [simp]: "range_valid r \<Longrightarrow> range_of (canonical (range_json r)) = Inr r"
  by (simp add: range_of_def range_json_def reading range_valid_def make_numeric_range_def del: canonical_JObj)

lemma target_back: "make_market_target t = Inr t \<Longrightarrow> target_of (canonical (target_json t)) = Inr t"
  by (cases t) (simp add: target_of_def target_json_def reading del: canonical_JObj)

lemma leg_back: "make_setup_leg l = Inr l \<Longrightarrow> leg_of (canonical (leg_json l)) = Inr l"
  by (cases l) (simp add: leg_of_def leg_json_def reading del: canonical_JObj)

lemma evidence_back: "evidence_valid f \<Longrightarrow> evidence_of (canonical (evidence_json f)) = Inr f"
  by (simp add: evidence_of_def evidence_json_def reading evidence_valid_def raw_evidence_def del: canonical_JObj)

lemma regime_back: "from_pair from_str from_str (canonical (regime_json p)) = Inr p"
  by (simp add: from_pair_def regime_json_def)

lemma setup_back: "setup_valid s \<Longrightarrow> setup_of (canonical (setup_json s)) = Inr s"
proof -
  assume v: "setup_valid s"
  have t: "from_tuple target_of (canonical (JList (map target_json (sd_targets s)))) = Inr (sd_targets s)"
    by (rule from_tuple_canonical) (use v in \<open>auto simp: setup_valid_def list_all_iff target_back\<close>)
  have l: "from_tuple leg_of (canonical (JList (map leg_json (sd_legs s)))) = Inr (sd_legs s)"
    by (rule from_tuple_canonical) (use v in \<open>auto simp: setup_valid_def list_all_iff leg_back\<close>)
  have e: "from_tuple evidence_of (canonical (JList (map evidence_json (sd_evidence s)))) = Inr (sd_evidence s)"
    by (rule from_tuple_canonical) (use v in \<open>auto simp: setup_valid_def list_all_iff evidence_back\<close>)
  have r: "from_tuple (from_pair from_str from_str) (canonical (JList (map regime_json (sd_regimes s)))) = Inr (sd_regimes s)"
    by (rule from_tuple_canonical) (rule regime_back)
  have m: "make_setup_decision (raw_setup s) = Inr s" and x: "instant_in_range (sd_decision_at s)" "instant_in_range (sd_data_cutoff s)"
      "range_valid (sd_expected_cost s)" "range_valid (sd_expected_value s)"
    using v by (simp_all add: setup_valid_def)
  show ?thesis
    using m x
    by (simp add: setup_of_def setup_json_def reading t l e r raw_setup_def del: canonical_JObj canonical.simps(1))
qed

lemma ranking_back: "ranking_of (canonical (ranking_json r)) = Inr r"
  by (simp add: ranking_of_def ranking_json_def reading del: canonical_JObj)

lemma meta_back: "meta_valid m \<Longrightarrow> meta_of (canonical (meta_json m)) = Inr m"
proof -
  assume v: "meta_valid m"
  have s: "from_optional setup_of (canonical (optional_json setup_json (md_setup m))) = Inr (md_setup m)"
    by (rule optional_back) (use v in \<open>simp_all add: meta_valid_def setup_back, simp add: setup_json_def\<close>)
  have r: "from_tuple ranking_of (canonical (JList (map ranking_json (md_rankings m)))) = Inr (md_rankings m)"
    by (rule from_tuple_canonical) (rule ranking_back)
  show ?thesis
    using v s r by (cases m) (simp add: meta_of_def meta_json_def reading meta_valid_def del: canonical_JObj canonical.simps(1))
qed

lemma proposal_back: "proposal_valid p \<Longrightarrow> proposal_of (canonical (proposal_json p)) = Inr p"
  by (simp add: proposal_of_def proposal_json_def reading proposal_valid_def raw_proposal_def del: canonical_JObj)

lemma work_back:
  assumes "work_valid w" "work_json w = Inr payload"
  shows "work_of (canonical payload) = Inr w"
proof -
  have p: "from_tuple proposal_of (canonical (JList (map proposal_json (sw_proposals w)))) = Inr (sw_proposals w)"
    by (rule from_tuple_canonical) (use assms(1) in \<open>auto simp: work_valid_def list_all_iff proposal_back\<close>)
  have m: "meta_of (canonical (meta_json (sw_meta w))) = Inr (sw_meta w)" "make_shadow_work w = Inr w"
    using assms(1) by (simp_all add: work_valid_def meta_back)
  have "payload = JObj [(''observation_id'', JStr (sw_observation_id w)), (''meta'', meta_json (sw_meta w)),
      (''proposals'', JList (map proposal_json (sw_proposals w))), (''equity'', JFloat (sw_equity w))]"
    using assms(2) by (simp add: work_json_def split: if_splits)
  with m p show ?thesis
    by (cases w) (simp add: work_of_def reading from_float_def del: canonical_JObj canonical.simps(1))
qed

section \<open>What loading yields\<close>

lemma from_timestamp_Inr: "from_timestamp name v = Inr t \<Longrightarrow> instant_in_range t"
  by (auto simp: from_timestamp_def split: json.splits option.splits pydatetime.splits if_splits)

lemma make_meta_decision_id: "make_meta_decision d = Inr m \<Longrightarrow> m = d"
  by (auto simp: make_meta_decision_def split: if_splits option.splits)

lemma meta_of_Inr:
  assumes "meta_of v = Inr m"
  shows "make_meta_decision m = Inr m \<and> instant_in_range (md_decided_at m)"
proof -
  obtain raw where m: "make_meta_decision raw = Inr m" and t: "instant_in_range (md_decided_at raw)"
    using from_object_Inr [OF assms [unfolded meta_of_def]]
    by (auto simp: bindE_eq_Inr payload_time_def dest!: from_timestamp_Inr)
  with make_meta_decision_id [OF m] show ?thesis by simp
qed

lemma proposal_of_Inr: "proposal_of v = Inr p \<Longrightarrow> proposal_ok p"
  unfolding proposal_of_def by (drule from_object_Inr) (auto simp: bindE_eq_Inr intro: make_entry_proposal_ok)

lemma from_tuple_Inr: "from_tuple f v = Inr xs \<Longrightarrow> x \<in> set xs \<Longrightarrow> \<exists>y. f y = Inr x"
  by (auto simp: from_tuple_def dest!: mapE_set split: json.splits)

lemma work_of_Inr:
  assumes "work_of v = Inr w"
  shows "observe_args_ok (sw_meta w) (sw_proposals w)"
proof -
  obtain d m ps where "meta_of (jget d ''meta'') = Inr m" and p: "from_tuple proposal_of (jget d ''proposals'') = Inr ps"
    and w: "sw_meta w = m" "sw_proposals w = ps"
    using from_object_Inr [OF assms [unfolded work_of_def]]
    by (auto simp: bindE_eq_Inr make_shadow_work_def split: if_splits)
  moreover have "proposal_ok x" if "x \<in> set ps" for x
    using from_tuple_Inr [OF p that] proposal_of_Inr by blast
  ultimately show ?thesis
    using meta_of_Inr by (simp add: observe_args_ok_def list_all_iff w)
qed

lemma store_load_Inr:
  assumes "store_load sha now tolerance st uri = Inr w"
  shows "\<exists>v. work_of v = Inr w"
proof -
  obtain i content where c: "parse_uri uri = Inr i" "read_no_symlink st i = Inr content"
    using assms by (auto simp: store_load_def bindE_eq_Inr)
  obtain d where d: "content = Some (JObj d)"
  proof (cases content)
    case (Some v)
    with assms c that show thesis by (cases v) (simp_all add: store_load_def)
  qed (use assms c in \<open>simp add: store_load_def\<close>)
  obtain checksum where "jget d ''payload_sha256'' = JStr checksum"
    using assms c d
    by (cases "jget d ''payload_sha256''") (simp_all add: store_load_def bindE_eq_Inr split: if_splits)
  with assms c d show ?thesis by (auto simp: store_load_def bindE_eq_Inr split: if_splits)
qed

text \<open>The store is a loader of the event loop, whatever its files hold.\<close>

lemma store_loader_ok: "loader_ok (store_load sha now tolerance st)"
  using store_load_Inr work_of_Inr by (fastforce simp: loader_ok_def)

section \<open>The store keeps what it is given\<close>

lemma uri_back: "build_uri i = Inr uri \<Longrightarrow> parse_uri uri = Inr i"
  by (auto simp: build_uri_def parse_uri_def Let_def split: if_splits)

lemma store_write_Inr:
  assumes "store_write sha st w (Aware t) = Inr (st', uri)"
  obtains payload where "build_uri (sw_observation_id w) = Inr uri" "work_json w = Inr payload"
    "st' = st(sw_observation_id w \<mapsto> Written (canonical (work_envelope sha (sw_observation_id w) t payload)))"
    "st (sw_observation_id w) = None \<or> st' = st"
proof -
  obtain uri' payload where u: "build_uri (sw_observation_id w) = Inr uri'" and p: "work_json w = Inr payload"
    using assms by (auto simp: store_write_def bindE_eq_Inr)
  show thesis
  proof (cases "st (sw_observation_id w)")
    case None
    with assms u p that show thesis by (simp add: store_write_def)
  next
    case (Some f)
    with assms u p have f: "f = Written (canonical (work_envelope sha (sw_observation_id w) t payload)) \<and> st' = st \<and> uri' = uri"
      by (cases f) (simp_all add: store_write_def split: if_splits)
    then have "st = st(sw_observation_id w \<mapsto> Written (canonical (work_envelope sha (sw_observation_id w) t payload)))"
      using Some by (simp add: fun_upd_idem)
    with f u p that show thesis by simp
  qed
qed

lemma store_write_keeps:
  assumes "store_write sha st w t = Inr (st', uri)" "st i = Some f"
  shows "st' i = Some f"
proof (cases t)
  case (Aware t')
  from store_write_Inr [OF assms(1) [unfolded Aware]]
  have "st (sw_observation_id w) = None \<or> st' = st" "\<exists>g. st' = st(sw_observation_id w \<mapsto> g)" by blast+
  with assms(2) show ?thesis by auto
next
  case (Naive t')
  with assms(1) show ?thesis by (auto simp: store_write_def bindE_eq_Inr)
qed

lemma envelope_fields:
  "jget (sorted_entries [(''schema_version'', a), (''observation_id'', b), (''written_at_utc'', c), (''payload_sha256'', d), (''payload'', e)])
     ''schema_version'' = canonical a"
  "jget (sorted_entries [(''schema_version'', a), (''observation_id'', b), (''written_at_utc'', c), (''payload_sha256'', d), (''payload'', e)])
     ''observation_id'' = canonical b"
  "jget (sorted_entries [(''schema_version'', a), (''observation_id'', b), (''written_at_utc'', c), (''payload_sha256'', d), (''payload'', e)])
     ''written_at_utc'' = canonical c"
  "jget (sorted_entries [(''schema_version'', a), (''observation_id'', b), (''written_at_utc'', c), (''payload_sha256'', d), (''payload'', e)])
     ''payload_sha256'' = canonical d"
  "jget (sorted_entries [(''schema_version'', a), (''observation_id'', b), (''written_at_utc'', c), (''payload_sha256'', d), (''payload'', e)])
     ''payload'' = canonical e"
  by (simp_all add: jget_sorted jget_Cons)

lemma stored_work_kept:
  assumes "hex_digest sha" "work_valid w" "instant_in_range t" "store_write sha st w (Aware t) = Inr (st', uri)"
  shows "of_int (t - now) / 1000000 \<le> tolerance \<Longrightarrow> store_load sha now tolerance st' uri = Inr w"
    "store_write sha st' w (Aware t) = Inr (st', uri)" "i \<noteq> sw_observation_id w \<Longrightarrow> st' i = st i"
    "store_write sha st' w2 t2 = Inr (st2, u2) \<Longrightarrow> st2 (sw_observation_id w) = st' (sw_observation_id w)"
proof -
  obtain payload where u: "build_uri (sw_observation_id w) = Inr uri" and p: "work_json w = Inr payload"
    and st': "st' = st(sw_observation_id w \<mapsto> Written (canonical (work_envelope sha (sw_observation_id w) t payload)))"
    by (rule store_write_Inr [OF assms(4)])
  have c: "length (digest_of sha payload) = 64" "ascii (digest_of sha payload)"
    using assms(1) by (simp_all add: hex_digest_def digest_of_def)
  have d: "digest_of sha (canonical payload) = digest_of sha payload" by (simp add: digest_of_def)
  show "store_load sha now tolerance st' uri = Inr w" if "of_int (t - now) / 1000000 \<le> tolerance"
    using that work_back [OF assms(2) p] c
    by (simp add: store_load_def uri_back [OF u] read_no_symlink_def st' work_envelope_def envelope_fields equals_one_def
        timestamp_back [OF assms(3)] d compare_digest_def not_less)
  show "store_write sha st' w (Aware t) = Inr (st', uri)"
    using u p by (simp add: store_write_def st')
  show "st2 (sw_observation_id w) = st' (sw_observation_id w)" if "store_write sha st' w2 t2 = Inr (st2, u2)"
    using store_write_keeps [OF that] by (simp add: st')
  show "st' i = st i" if "i \<noteq> sw_observation_id w" using that by (simp add: st')
qed

text \<open>
  C19. Work that is written is work that is loaded: a valid work comes back from the store field for field, read
  by its URI at any time that is not before its writing by more than the tolerance; the other files stay,
  writing it again changes nothing, and no later write, of whatever work, changes the file.
\<close>

theorem stored_work_roundtrip:
  assumes "hex_digest sha" "work_valid w" "instant_in_range t" "store_write sha st w (Aware t) = Inr (st', uri)"
    "of_int (t - now) / 1000000 \<le> tolerance"
  shows "store_load sha now tolerance st' uri = Inr w \<and> store_write sha st' w (Aware t) = Inr (st', uri) \<and>
    (\<forall>i. i \<noteq> sw_observation_id w \<longrightarrow> st' i = st i) \<and>
    (\<forall>w2 t2 st2 u2. store_write sha st' w2 t2 = Inr (st2, u2) \<longrightarrow> st2 (sw_observation_id w) = st' (sw_observation_id w))"
  using stored_work_kept [OF assms(1-4)] assms(5) by blast

text \<open>
  C34. A retry with a later clock is refused: the time of writing is part of the compared bytes, so handing over
  the same work again at another time raises and leaves both the store and the queue as they were.
\<close>

theorem retry_at_another_time_refused:
  assumes "enqueue_shadow_work sha db st w (Aware t) available = ((db', st'), r)" "st (sw_observation_id w) = None"
    "st' \<noteq> st" "instant_in_range t" "instant_in_range t2" "t2 \<noteq> t"
  shows "enqueue_shadow_work sha db' st' w (Aware t2) available2 =
    ((db', st'), Inl (store_error ''immutable shadow payload already exists with different content''))"
proof -
  obtain uri where "store_write sha st w (Aware t) = Inr (st', uri)"
    using assms(1,3) by (auto simp: enqueue_shadow_work_def split: sum.splits)
  then obtain payload where u: "build_uri (sw_observation_id w) = Inr uri" and p: "work_json w = Inr payload"
    and st': "st' = st(sw_observation_id w \<mapsto> Written (canonical (work_envelope sha (sw_observation_id w) t payload)))"
    by (rule store_write_Inr)
  have different: "isoformat t \<noteq> isoformat t2" using assms(4-6) by (simp add: isoformat_eq)
  have written: "jget (json_entries (canonical (work_envelope sha i t payload))) ''written_at_utc'' = timestamp t" for i t
    by (simp add: work_envelope_def json_entries_def envelope_fields timestamp_def)
  have "canonical (work_envelope sha (sw_observation_id w) t payload) \<noteq> canonical (work_envelope sha (sw_observation_id w) t2 payload)"
  proof
    assume "canonical (work_envelope sha (sw_observation_id w) t payload) = canonical (work_envelope sha (sw_observation_id w) t2 payload)"
    from written [of "sw_observation_id w" t, unfolded this written] different show False by (simp add: timestamp_def)
  qed
  then show ?thesis using u p by (simp add: enqueue_shadow_work_def store_write_def st')
qed

section \<open>A concrete work\<close>

definition stored_work :: shadow_work where
  "stored_work =
     \<lparr>sw_observation_id = ''obs-1'', sw_meta = demo_meta\<lparr>md_setup := Some (demo_setup LONG 5)\<rparr>,
      sw_proposals = [demo_entry ''a''], sw_equity = Fin 1000\<rparr>"

lemma stored_work_valid: "work_valid stored_work"
proof -
  have "setup_valid (demo_setup LONG 5)" "list_all proposal_valid (sw_proposals stored_work)"
    "make_shadow_work stored_work = Inr stored_work" "make_meta_decision (sw_meta stored_work) = Inr (sw_meta stored_work)"
    "instant_in_range (md_decided_at (sw_meta stored_work))"
    by code_simp+
  moreover have "md_setup (sw_meta stored_work) = Some (demo_setup LONG 5)" by (simp add: stored_work_def)
  ultimately show ?thesis by (simp add: work_valid_def meta_valid_def)
qed

lemma stored_work_id: "build_uri (sw_observation_id stored_work) = Inr ''shadow-work:obs-1''"
  by code_simp

lemma stored_work_written:
  "\<exists>st. store_write flat_sha (\<lambda>_. None) stored_work (Aware 0) = Inr (st, ''shadow-work:obs-1'') \<and> st \<noteq> (\<lambda>_. None)"
proof -
  have "\<exists>p. work_json stored_work = Inr p" by (simp add: work_json_def stored_work_def)
  then obtain p where p: "work_json stored_work = Inr p" by blast
  have "(\<lambda>_. None)(i \<mapsto> f) \<noteq> (\<lambda>_. None)" for i :: string and f :: store_file by (auto simp: fun_eq_iff)
  with p stored_work_id show ?thesis by (simp add: store_write_def)
qed

theorem stored_work_roundtrip_witness:
  "\<exists>st. store_write flat_sha (\<lambda>_. None) stored_work (Aware 0) = Inr (st, ''shadow-work:obs-1'') \<and>
     store_load flat_sha (- 1000000) 5 st ''shadow-work:obs-1'' = Inr stored_work"
proof -
  obtain st where st: "store_write flat_sha (\<lambda>_. None) stored_work (Aware 0) = Inr (st, ''shadow-work:obs-1'')"
    using stored_work_written by blast
  have "of_int (0 - (- 1000000)) / 1000000 \<le> (5 :: rat)" by simp
  with stored_work_roundtrip [OF flat_sha_hex stored_work_valid instant_zero st] st show ?thesis by blast
qed

theorem retry_at_another_time_refused_witness:
  "\<exists>st. fst (enqueue_shadow_work flat_sha fresh_db (\<lambda>_. None) stored_work (Aware 0) (Naive 0)) = (fresh_db, st) \<and>
     snd (enqueue_shadow_work flat_sha fresh_db st stored_work (Aware 1000000) (Aware 0)) =
       Inl (store_error ''immutable shadow payload already exists with different content'')"
proof -
  obtain st where st: "store_write flat_sha (\<lambda>_. None) stored_work (Aware 0) = Inr (st, ''shadow-work:obs-1'')" "st \<noteq> (\<lambda>_. None)"
    using stored_work_written by blast
  have "queue_enqueue fresh_db (sw_observation_id stored_work) ''shadow-work:obs-1'' (Naive 0) =
      Inl (ValueError ''queue availability timestamp must be timezone-aware'')" by code_simp
  with st have e: "enqueue_shadow_work flat_sha fresh_db (\<lambda>_. None) stored_work (Aware 0) (Naive 0) =
      ((fresh_db, st), Inl (ValueError ''queue availability timestamp must be timezone-aware''))"
    by (simp add: enqueue_shadow_work_def)
  have r: "instant_in_range 1000000" "(1000000 :: int) \<noteq> 0" by code_simp+
  show ?thesis
    using e retry_at_another_time_refused [OF e _ st(2) instant_zero r] by (intro exI [of _ st]) simp
qed

end
