(* ===== verification/Evidence_Engines.thy ===== *)
theory Evidence_Engines
  imports Setup_Contracts
begin

text \<open>
  Model of the evidence engines: \<open>src/engines/directional.py\<close>, votes of independent families for LONG
  or SHORT, and \<open>src/engines/neutral.py\<close>, a two-leg opportunity under costs, inventory and stress bounds.
  Requests carry validated parts (targets, ranges, evidence, gates) beside raw numbers and datetimes;
  \<open>evaluate_directional_setup\<close> and \<open>evaluate_neutral_opportunity\<close> yield the setup or the exception.
\<close>

definition negative_range :: "rat numeric_range \<Rightarrow> bool" where
  "negative_range r \<longleftrightarrow> nr_low r < 0"

text \<open>The range after costs, the worst with the worst.\<close>

definition net_of :: "rat numeric_range \<Rightarrow> rat numeric_range \<Rightarrow> rat numeric_range result" where
  "net_of gross cost =
     make_numeric_range
       \<lparr>nr_low = Fin (nr_low gross - nr_high cost), nr_base = Fin (nr_base gross - nr_base cost),
        nr_high = Fin (nr_high gross - nr_low cost)\<rparr>"

text \<open>\<open>(a - b).total_seconds()\<close>\<close>

definition age_seconds :: "int \<Rightarrow> int \<Rightarrow> rat" where
  "age_seconds now t = of_int (now - t) / 1000000"

section \<open>The Directional Engine\<close>

record 'n directional_config =
  dc_min_families :: int
  dc_vote_threshold :: 'n
  dc_min_quality :: 'n
  dc_max_age :: 'n
  dc_min_net :: 'n

definition make_directional_config :: "num directional_config \<Rightarrow> rat directional_config result" where
  "make_directional_config c =
     (if dc_min_families c < 1 then Inl (ValueError ''directional engine requires confirming families'')
      else if \<not> (num_lt (Fin 0) (dc_vote_threshold c) \<and> num_le (dc_vote_threshold c) (Fin 1)) \<or>
              \<not> (num_le (Fin 0) (dc_min_quality c) \<and> num_le (dc_min_quality c) (Fin 1)) \<or>
              \<not> isfinite (dc_max_age c) \<or> num_le (dc_max_age c) (Fin 0) \<or> \<not> isfinite (dc_min_net c)
      then Inl (ValueError ''invalid directional engine thresholds'')
      else Inr \<lparr>dc_min_families = dc_min_families c, dc_vote_threshold = num_val (dc_vote_threshold c),
                dc_min_quality = num_val (dc_min_quality c), dc_max_age = num_val (dc_max_age c),
                dc_min_net = num_val (dc_min_net c)\<rparr>)"

record directional_request =
  dr_target :: market_target
  dr_decision_at :: pydatetime
  dr_data_cutoff :: pydatetime
  dr_horizon :: string
  dr_evidence :: "(rat, int) family_evidence list"
  dr_regimes :: "(string \<times> string) list"
  dr_entry_condition :: string
  dr_invalidation :: string
  dr_stop_logic :: string
  dr_gross_value :: "rat numeric_range"
  dr_cost :: "rat numeric_range"
  dr_capacity :: num
  dr_quality :: data_quality_status
  dr_model_version :: string
  dr_feature_version :: string
  dr_gates :: engine_gate_state

text \<open>\<open>_validate_request\<close>: the decision time and the cutoff as instants.\<close>

definition validate_directional :: "directional_request \<Rightarrow> (int \<times> int) result" where
  "validate_directional r =
     bindE (utc_of ''decision timestamp must be timezone-aware'' (dr_decision_at r)) (\<lambda>decision.
     bindE (utc_of ''data cutoff must be timezone-aware'' (dr_data_cutoff r)) (\<lambda>cutoff.
       if decision < cutoff then Inl (ValueError ''directional data cutoff cannot follow decision time'')
       else if \<not> distinct (map fe_family (dr_evidence r))
       then Inl (ValueError ''directional request permits one evidence object per family'')
       else if list_ex (\<lambda>f. cutoff < fe_max_source f) (dr_evidence r)
       then Inl (ValueError ''directional evidence cannot follow data cutoff'')
       else if \<not> finite_nonneg (dr_capacity r)
       then Inl (ValueError ''directional capacity must be finite and non-negative'')
       else if negative_range (dr_cost r) then Inl (ValueError ''directional expected costs cannot be negative'')
       else Inr (decision, cutoff)))"

definition gate_reason :: "engine_gate_state \<Rightarrow> data_quality_status \<Rightarrow> num \<Rightarrow> string option" where
  "gate_reason g quality capacity =
     (if gs_kill_switch_active g then Some ''KILL_SWITCH_ACTIVE''
      else if \<not> gs_operational_healthy g then Some ''OPERATIONAL_HEALTH_FAILED''
      else if quality \<noteq> QualityPass then Some ''DATA_QUALITY_NOT_PASS''
      else if \<not> gs_promotion_eligible g then Some ''PROMOTION_STATE_NOT_ELIGIBLE''
      else if \<not> gs_risk_approved g then Some (''RISK_REJECTED:'' @ gs_risk_reason g)
      else if num_le capacity (Fin 0) then Some ''NO_LIQUIDITY_CAPACITY''
      else None)"

definition directional_decision :: "directional_request \<Rightarrow> rat numeric_range \<Rightarrow> setup_action \<Rightarrow> setup_leg list
    \<Rightarrow> string \<Rightarrow> (rat, int) setup_decision result" where
  "directional_decision r net action legs reason =
     make_setup_decision
       \<lparr>sd_action = action, sd_targets = [dr_target r], sd_legs = legs, sd_decision_at = dr_decision_at r,
        sd_data_cutoff = dr_data_cutoff r, sd_horizon = dr_horizon r, sd_evidence = dr_evidence r,
        sd_regimes = dr_regimes r, sd_entry_condition = dr_entry_condition r, sd_invalidation = dr_invalidation r,
        sd_stop_or_hedge = dr_stop_logic r, sd_expected_cost = dr_cost r, sd_expected_value = net,
        sd_capacity = dr_capacity r, sd_quality = dr_quality r, sd_model_version = dr_model_version r,
        sd_feature_version = dr_feature_version r, sd_reason_codes = [reason]\<rparr>"

definition directional_wait :: "directional_request \<Rightarrow> rat numeric_range \<Rightarrow> string \<Rightarrow> (rat, int) setup_decision result" where
  "directional_wait r net reason = directional_decision r net WAIT [] reason"

definition directional_actionable :: "directional_request \<Rightarrow> rat numeric_range \<Rightarrow> setup_action
    \<Rightarrow> (rat, int) setup_decision result" where
  "directional_actionable r net action =
     (case mt_venues (dr_target r) of
        [] \<Rightarrow> Inl (OtherError ''IndexError'')
      | venue # _ \<Rightarrow>
          bindE (make_setup_leg \<lparr>sl_symbol = mt_symbol (dr_target r), sl_venue = venue,
                                 sl_side = (if action = LONG then BUY else SELL)\<rparr>) (\<lambda>leg.
            directional_decision r net action [leg] ''DIRECTIONAL_EDGE_APPROVED''))"

definition eligible_evidence :: "rat directional_config \<Rightarrow> int \<Rightarrow> (rat, int) family_evidence \<Rightarrow> bool" where
  "eligible_evidence c decision f \<longleftrightarrow> dc_min_quality c \<le> fe_quality f \<and> age_seconds decision (fe_max_source f) \<le> dc_max_age c"

definition long_votes :: "rat directional_config \<Rightarrow> (rat, int) family_evidence list \<Rightarrow> nat" where
  "long_votes c fs = length (filter (\<lambda>f. dc_vote_threshold c \<le> effective_score f) fs)"

definition short_votes :: "rat directional_config \<Rightarrow> (rat, int) family_evidence list \<Rightarrow> nat" where
  "short_votes c fs = length (filter (\<lambda>f. effective_score f \<le> - dc_vote_threshold c) fs)"

definition evaluate_directional_setup :: "directional_request \<Rightarrow> rat directional_config \<Rightarrow> (rat, int) setup_decision result" where
  "evaluate_directional_setup r c =
     bindE (validate_directional r) (\<lambda>(decision, cutoff).
     bindE (net_of (dr_gross_value r) (dr_cost r)) (\<lambda>net.
       case gate_reason (dr_gates r) (dr_quality r) (dr_capacity r) of
         Some reason \<Rightarrow> directional_wait r net reason
       | None \<Rightarrow>
           (let eligible = filter (eligible_evidence c decision) (dr_evidence r);
                long = long_votes c eligible; short = short_votes c eligible
            in if length eligible \<noteq> length (dr_evidence r) then directional_wait r net ''STALE_OR_LOW_QUALITY_EVIDENCE''
               else if long \<noteq> 0 \<and> short \<noteq> 0 then directional_wait r net ''CONFLICTING_INDEPENDENT_FAMILIES''
               else if nr_low net \<le> dc_min_net c then directional_wait r net ''INSUFFICIENT_CONSERVATIVE_EDGE_AFTER_COSTS''
               else if dc_min_families c \<le> int long then directional_actionable r net LONG
               else if dc_min_families c \<le> int short then directional_actionable r net SHORT
               else directional_wait r net ''INSUFFICIENT_INDEPENDENT_CONFIRMATIONS'')))"

section \<open>The Neutral Engine\<close>

datatype neutral_mechanism = FundingCapture | SpotPerpetualBasis | CrossExchangeFunding | CashAndCarry
datatype leg_policy = AtomicOrCancel | HedgeOnPartial

fun mechanism_value :: "neutral_mechanism \<Rightarrow> string" where
  "mechanism_value FundingCapture = ''FUNDING_CAPTURE''"
| "mechanism_value SpotPerpetualBasis = ''SPOT_PERPETUAL_BASIS''"
| "mechanism_value CrossExchangeFunding = ''CROSS_EXCHANGE_FUNDING''"
| "mechanism_value CashAndCarry = ''CASH_AND_CARRY''"

record neutral_costs =
  nc_fees :: "rat numeric_range"
  nc_spread :: "rat numeric_range"
  nc_slippage :: "rat numeric_range"
  nc_funding :: "rat numeric_range"
  nc_borrow :: "rat numeric_range"
  nc_transfer :: "rat numeric_range"
  nc_orphan_hedge :: "rat numeric_range"

definition cost_components :: "neutral_costs \<Rightarrow> rat numeric_range list" where
  "cost_components c =
     [nc_fees c, nc_spread c, nc_slippage c, nc_funding c, nc_borrow c, nc_transfer c, nc_orphan_hedge c]"

definition make_neutral_costs :: "neutral_costs \<Rightarrow> neutral_costs result" where
  "make_neutral_costs c =
     (if list_ex negative_range (cost_components c)
      then Inl (ValueError ''neutral cost components cannot be negative'') else Inr c)"

definition total_costs :: "neutral_costs \<Rightarrow> rat numeric_range result" where
  "total_costs c =
     make_numeric_range
       \<lparr>nr_low = Fin (sum_list (map nr_low (cost_components c))), nr_base = Fin (sum_list (map nr_base (cost_components c))),
        nr_high = Fin (sum_list (map nr_high (cost_components c)))\<rparr>"

record inventory_state =
  iv_long_leg :: bool
  iv_short_leg :: bool
  iv_borrow_required :: bool
  iv_borrow_confirmed :: bool
  iv_transfer_required :: bool
  iv_prefunded :: bool
  iv_long_venue :: bool
  iv_short_venue :: bool

record 'n stress_bounds =
  sb_one_leg :: 'n
  sb_outage :: 'n
  sb_liquidation :: 'n
  sb_margin_buffer :: 'n
  sb_liquidation_distance :: 'n

definition make_stress_bounds :: "num stress_bounds \<Rightarrow> rat stress_bounds result" where
  "make_stress_bounds s =
     (if list_ex (\<lambda>v. \<not> finite_nonneg v) [sb_one_leg s, sb_outage s, sb_liquidation s, sb_margin_buffer s, sb_liquidation_distance s]
      then Inl (ValueError ''neutral stress bounds must be finite and non-negative'')
      else Inr \<lparr>sb_one_leg = num_val (sb_one_leg s), sb_outage = num_val (sb_outage s),
                sb_liquidation = num_val (sb_liquidation s), sb_margin_buffer = num_val (sb_margin_buffer s),
                sb_liquidation_distance = num_val (sb_liquidation_distance s)\<rparr>)"

record 'n neutral_config =
  nf_max_age :: 'n
  nf_min_quality :: 'n
  nf_min_strength :: 'n
  nf_min_net :: 'n
  nf_max_stress :: 'n
  nf_min_margin :: 'n
  nf_min_distance :: 'n
  nf_max_unhedged :: 'n

definition make_neutral_config :: "num neutral_config \<Rightarrow> rat neutral_config result" where
  "make_neutral_config c =
     (if \<not> finite_positive (nf_max_age c) \<or>
         \<not> (num_le (Fin 0) (nf_min_quality c) \<and> num_le (nf_min_quality c) (Fin 1)) \<or>
         \<not> (num_lt (Fin 0) (nf_min_strength c) \<and> num_le (nf_min_strength c) (Fin 1)) \<or>
         \<not> isfinite (nf_min_net c) \<or> \<not> finite_positive (nf_max_stress c) \<or> \<not> finite_positive (nf_min_margin c) \<or>
         \<not> finite_positive (nf_min_distance c) \<or> \<not> finite_positive (nf_max_unhedged c)
      then Inl (ValueError ''invalid Neutral Engine configuration'')
      else Inr \<lparr>nf_max_age = num_val (nf_max_age c), nf_min_quality = num_val (nf_min_quality c),
                nf_min_strength = num_val (nf_min_strength c), nf_min_net = num_val (nf_min_net c),
                nf_max_stress = num_val (nf_max_stress c), nf_min_margin = num_val (nf_min_margin c),
                nf_min_distance = num_val (nf_min_distance c), nf_max_unhedged = num_val (nf_max_unhedged c)\<rparr>)"

record neutral_request =
  ne_mechanism :: neutral_mechanism
  ne_symbol :: string
  ne_long_venue :: string
  ne_short_venue :: string
  ne_decision_at :: pydatetime
  ne_data_cutoff :: pydatetime
  ne_horizon :: string
  ne_evidence :: "(rat, int) family_evidence list"
  ne_regimes :: "(string \<times> string) list"
  ne_gross_edge :: "rat numeric_range"
  ne_costs :: neutral_costs
  ne_capacity :: num
  ne_quality :: data_quality_status
  ne_model_version :: string
  ne_feature_version :: string
  ne_inventory :: inventory_state
  ne_stresses :: "rat stress_bounds"
  ne_policy :: leg_policy
  ne_max_unhedged :: num
  ne_entry_condition :: string
  ne_invalidation :: string
  ne_hedge_logic :: string
  ne_gates :: engine_gate_state

definition validate_neutral :: "neutral_request \<Rightarrow> (int \<times> int) result" where
  "validate_neutral r =
     bindE (utc_of ''neutral decision timestamp must be timezone-aware'' (ne_decision_at r)) (\<lambda>decision.
     bindE (utc_of ''neutral data cutoff must be timezone-aware'' (ne_data_cutoff r)) (\<lambda>cutoff.
       if decision < cutoff then Inl (ValueError ''neutral data cutoff cannot follow decision time'')
       else if blank (ne_symbol r) \<or> blank (ne_long_venue r) \<or> blank (ne_short_venue r) \<or>
               py_lower (ne_long_venue r) = py_lower (ne_short_venue r)
       then Inl (ValueError ''neutral opportunity requires a symbol and distinct venues'')
       else if \<not> distinct (map fe_family (ne_evidence r))
       then Inl (ValueError ''neutral request permits one evidence object per family'')
       else if list_ex (\<lambda>f. cutoff < fe_max_source f) (ne_evidence r)
       then Inl (ValueError ''neutral evidence cannot follow data cutoff'')
       else if \<not> finite_nonneg (ne_capacity r)
       then Inl (ValueError ''neutral capacity must be finite and non-negative'')
       else if \<not> finite_nonneg (ne_max_unhedged r)
       then Inl (ValueError ''neutral unhedged time must be finite and non-negative'')
       else Inr (decision, cutoff)))"

definition rejection_reason :: "neutral_request \<Rightarrow> int \<Rightarrow> rat numeric_range \<Rightarrow> rat neutral_config \<Rightarrow> string option" where
  "rejection_reason r decision net c =
     (case gate_reason (ne_gates r) (ne_quality r) (ne_capacity r) of
        Some reason \<Rightarrow> Some reason
      | None \<Rightarrow>
          (let families = set (map fe_family (ne_evidence r)); inv = ne_inventory r; s = ne_stresses r in
           if \<not> {Derivatives, CrossMarket} \<subseteq> families then Some ''MISSING_REQUIRED_NEUTRAL_EVIDENCE''
           else if list_ex (\<lambda>f. fe_quality f < nf_min_quality c \<or> nf_max_age c < age_seconds decision (fe_max_source f))
                     (ne_evidence r)
           then Some ''STALE_OR_LOW_QUALITY_EVIDENCE''
           else if list_ex (\<lambda>f. effective_score f < nf_min_strength c) (ne_evidence r)
           then Some ''INSUFFICIENT_NEUTRAL_EVIDENCE_STRENGTH''
           else if \<not> iv_long_venue inv \<or> \<not> iv_short_venue inv then Some ''VENUE_HEALTH_FAILED''
           else if \<not> iv_long_leg inv \<or> \<not> iv_short_leg inv then Some ''LEG_NOT_AVAILABLE''
           else if iv_borrow_required inv \<and> \<not> iv_borrow_confirmed inv then Some ''SHORT_BORROW_NOT_CONFIRMED''
           else if iv_transfer_required inv \<and> \<not> iv_prefunded inv then Some ''UNBOUNDED_TRANSFER_DEPENDENCY''
           else if ne_policy r = HedgeOnPartial \<and> num_lt (Fin (nf_max_unhedged c)) (ne_max_unhedged r)
           then Some ''UNHEDGED_WINDOW_TOO_LONG''
           else if nf_max_stress c < max (max (sb_one_leg s) (sb_outage s)) (sb_liquidation s)
           then Some ''STRESS_LOSS_EXCEEDS_LIMIT''
           else if sb_margin_buffer s < nf_min_margin c then Some ''INSUFFICIENT_MARGIN_BUFFER''
           else if sb_liquidation_distance s < nf_min_distance c then Some ''INSUFFICIENT_LIQUIDATION_DISTANCE''
           else if nr_low net \<le> nf_min_net c then Some ''INSUFFICIENT_CONSERVATIVE_EDGE_AFTER_ALL_COSTS''
           else None))"

definition neutral_decision :: "neutral_request \<Rightarrow> setup_action \<Rightarrow> rat numeric_range \<Rightarrow> rat numeric_range
    \<Rightarrow> setup_leg list \<Rightarrow> string \<Rightarrow> (rat, int) setup_decision result" where
  "neutral_decision r action costs net legs reason =
     bindE (make_market_target \<lparr>mt_symbol = ne_symbol r, mt_venues = [ne_long_venue r, ne_short_venue r]\<rparr>) (\<lambda>target.
     bindE (mapE make_setup_leg legs) (\<lambda>legs'.
       make_setup_decision
         \<lparr>sd_action = action, sd_targets = [target], sd_legs = legs', sd_decision_at = ne_decision_at r,
          sd_data_cutoff = ne_data_cutoff r, sd_horizon = ne_horizon r, sd_evidence = ne_evidence r,
          sd_regimes = ne_regimes r, sd_entry_condition = ne_entry_condition r, sd_invalidation = ne_invalidation r,
          sd_stop_or_hedge = ne_hedge_logic r, sd_expected_cost = costs, sd_expected_value = net,
          sd_capacity = ne_capacity r, sd_quality = ne_quality r, sd_model_version = ne_model_version r,
          sd_feature_version = ne_feature_version r, sd_reason_codes = [reason]\<rparr>))"

definition neutral_legs :: "neutral_request \<Rightarrow> setup_leg list" where
  "neutral_legs r =
     [\<lparr>sl_symbol = ne_symbol r, sl_venue = ne_long_venue r, sl_side = BUY\<rparr>,
      \<lparr>sl_symbol = ne_symbol r, sl_venue = ne_short_venue r, sl_side = SELL\<rparr>]"

definition evaluate_neutral_opportunity :: "neutral_request \<Rightarrow> rat neutral_config \<Rightarrow> (rat, int) setup_decision result" where
  "evaluate_neutral_opportunity r c =
     bindE (validate_neutral r) (\<lambda>(decision, cutoff).
     bindE (total_costs (ne_costs r)) (\<lambda>costs.
     bindE (net_of (ne_gross_edge r) costs) (\<lambda>net.
       case rejection_reason r decision net c of
         Some reason \<Rightarrow> neutral_decision r WAIT costs net [] reason
       | None \<Rightarrow>
           neutral_decision r ARBITRAGE costs net (neutral_legs r)
             (''BOUNDED_'' @ mechanism_value (ne_mechanism r) @ ''_APPROVED''))))"

section \<open>What a setup records\<close>

lemma make_numeric_range_Fin:
  "make_numeric_range \<lparr>nr_low = Fin a, nr_base = Fin b, nr_high = Fin d\<rparr> = Inr x \<longleftrightarrow>
     a \<le> b \<and> b \<le> d \<and> x = \<lparr>nr_low = a, nr_base = b, nr_high = d\<rparr>"
  by (auto simp: make_numeric_range_def)

lemma net_of_Inr: "net_of gross cost = Inr net \<Longrightarrow> nr_low net = nr_low gross - nr_high cost"
  by (auto simp: net_of_def make_numeric_range_Fin)

lemma make_setup_decision_Inr:
  assumes "make_setup_decision raw = Inr s"
  shows "setup_ok s" "sd_action s = sd_action raw" "sd_legs s = sd_legs raw" "sd_expected_value s = sd_expected_value raw"
    "sd_targets s = sd_targets raw" "sd_reason_codes s = sd_reason_codes raw"
  using make_setup_decision_ok [OF assms] assms by (auto simp: make_setup_decision_def bindE_eq_Inr)

lemma directional_decision_Inr:
  assumes "directional_decision r net action legs reason = Inr s"
  shows "setup_ok s" "sd_action s = action" "sd_legs s = legs" "sd_expected_value s = net"
  using make_setup_decision_Inr [OF assms [unfolded directional_decision_def]] by simp_all

lemma directional_wait_Inr: "directional_wait r net reason = Inr s \<Longrightarrow> setup_ok s \<and> sd_action s = WAIT \<and> sd_expected_value s = net"
  using directional_decision_Inr [of r net WAIT "[]" reason s] by (simp add: directional_wait_def)

lemma directional_actionable_Inr:
  assumes "directional_actionable r net action = Inr s"
  shows "setup_ok s \<and> sd_action s = action \<and> sd_expected_value s = net"
proof -
  obtain leg where "directional_decision r net action [leg] ''DIRECTIONAL_EDGE_APPROVED'' = Inr s"
    using assms by (auto simp: directional_actionable_def bindE_eq_Inr split: list.splits)
  from directional_decision_Inr [OF this] show ?thesis by simp
qed

section \<open>Directional setups\<close>

text \<open>All that must hold before votes count: the gates, every piece of evidence and the edge.\<close>

definition directional_cleared :: "directional_request \<Rightarrow> rat directional_config \<Rightarrow> int \<Rightarrow> bool" where
  "directional_cleared r c decision \<longleftrightarrow>
     gate_reason (dr_gates r) (dr_quality r) (dr_capacity r) = None \<and>
     list_all (eligible_evidence c decision) (dr_evidence r) \<and>
     dc_min_net c < nr_low (dr_gross_value r) - nr_high (dr_cost r)"

lemma filter_all_or_shorter: "length (filter P xs) \<noteq> length xs \<longleftrightarrow> \<not> list_all P xs"
proof (induction xs)
  case (Cons x xs)
  moreover have "length (filter P xs) \<noteq> Suc (length xs)" using length_filter_le [of P xs] by linarith
  ultimately show ?case by auto
qed simp

lemma make_directional_config_families: "make_directional_config raw = Inr c \<Longrightarrow> 1 \<le> dc_min_families c"
  by (auto simp: make_directional_config_def split: if_splits)

lemma filter_list_all: "list_all P xs \<Longrightarrow> filter P xs = xs"
  by (simp add: list_all_iff filter_id_conv)

lemma evaluate_directional_cases:
  assumes "evaluate_directional_setup r c = Inr s"
  obtains decision cutoff net where "validate_directional r = Inr (decision, cutoff)"
    "nr_low net = nr_low (dr_gross_value r) - nr_high (dr_cost r)"
    "(case (directional_cleared r c decision, long_votes c (dr_evidence r), short_votes c (dr_evidence r)) of
        (cleared, long, short) \<Rightarrow>
          if cleared \<and> (long = 0 \<or> short = 0) \<and> dc_min_families c \<le> int long then directional_actionable r net LONG = Inr s
          else if cleared \<and> (long = 0 \<or> short = 0) \<and> dc_min_families c \<le> int short then directional_actionable r net SHORT = Inr s
          else \<exists>reason. directional_wait r net reason = Inr s)"
proof -
  obtain decision cutoff net where v: "validate_directional r = Inr (decision, cutoff)"
    and n: "net_of (dr_gross_value r) (dr_cost r) = Inr net"
    using assms by (auto simp: evaluate_directional_setup_def bindE_eq_Inr)
  show thesis
  proof (rule that [OF v net_of_Inr [OF n]])
    show "case (directional_cleared r c decision, long_votes c (dr_evidence r), short_votes c (dr_evidence r)) of
        (cleared, long, short) \<Rightarrow>
          if cleared \<and> (long = 0 \<or> short = 0) \<and> dc_min_families c \<le> int long then directional_actionable r net LONG = Inr s
          else if cleared \<and> (long = 0 \<or> short = 0) \<and> dc_min_families c \<le> int short then directional_actionable r net SHORT = Inr s
          else \<exists>reason. directional_wait r net reason = Inr s"
      using assms net_of_Inr [OF n]
      by (auto simp: evaluate_directional_setup_def v n directional_cleared_def filter_all_or_shorter filter_list_all Let_def
          split: option.splits if_splits)
  qed
qed

text \<open>
  C25. The Directional Engine decides by its votes and by nothing else: it is LONG exactly if every gate, every
  piece of evidence and the conservative edge after costs pass, enough families vote for it and none against it,
  SHORT exactly in the mirrored case, and otherwise it waits; what it returns satisfies the contract of setups.
\<close>

theorem directional_decides:
  assumes "make_directional_config raw = Inr c" "evaluate_directional_setup r c = Inr s" "dr_decision_at r = Aware decision"
  shows "setup_ok s \<and> sd_action s \<in> {LONG, SHORT, WAIT} \<and>
    (sd_action s = LONG \<longleftrightarrow> directional_cleared r c decision \<and>
       dc_min_families c \<le> int (long_votes c (dr_evidence r)) \<and> short_votes c (dr_evidence r) = 0) \<and>
    (sd_action s = SHORT \<longleftrightarrow> directional_cleared r c decision \<and>
       dc_min_families c \<le> int (short_votes c (dr_evidence r)) \<and> long_votes c (dr_evidence r) = 0)"
proof (rule evaluate_directional_cases [OF assms(2)])
  fix decision' cutoff net
  assume v: "validate_directional r = Inr (decision', cutoff)"
    and e: "case (directional_cleared r c decision', long_votes c (dr_evidence r), short_votes c (dr_evidence r)) of
        (cleared, long, short) \<Rightarrow>
          if cleared \<and> (long = 0 \<or> short = 0) \<and> dc_min_families c \<le> int long then directional_actionable r net LONG = Inr s
          else if cleared \<and> (long = 0 \<or> short = 0) \<and> dc_min_families c \<le> int short then directional_actionable r net SHORT = Inr s
          else \<exists>reason. directional_wait r net reason = Inr s"
  have d: "decision' = decision" using v assms(3) by (simp add: validate_directional_def bindE_eq_Inr split: if_splits)
  have m: "1 \<le> dc_min_families c" by (rule make_directional_config_families [OF assms(1)])
  note outcomes = directional_actionable_Inr directional_wait_Inr
  show ?thesis
    using e m unfolding d
    by (simp split: if_splits) (auto dest: outcomes)
qed

section \<open>Neutral setups\<close>

lemma sum_list_bound: "list_all2 (\<lambda>x r. x \<le> f r) xs rs \<Longrightarrow> sum_list xs \<le> sum_list (map f rs)" for xs :: "rat list"
  by (induction xs rs rule: list_all2_induct) (auto intro: add_mono)

lemma neutral_decision_Inr:
  assumes "neutral_decision r action costs net legs reason = Inr s"
  shows "setup_ok s \<and> sd_action s = action \<and> sd_legs s = legs \<and> sd_expected_value s = net"
proof -
  have legs: "legs' = legs" if "mapE make_setup_leg legs = Inr legs'" for legs'
    using that by (induction legs arbitrary: legs') (auto simp: bindE_eq_Inr make_setup_leg_def)
  obtain target legs' raw where "mapE make_setup_leg legs = Inr legs'" "make_setup_decision raw = Inr s"
    "sd_action raw = action" "sd_legs raw = legs'" "sd_expected_value raw = net"
    using assms by (fastforce simp: neutral_decision_def bindE_eq_Inr)
  with make_setup_decision_Inr [of raw s] legs show ?thesis by simp
qed

text \<open>
  C26. A neutral trade survives its worst case: it is proposed exactly if no reason rejects it, its two legs
  buy and sell one symbol on different venues, and for every gross edge and every single cost within their
  ranges the edge that is left is above the minimum, while each stress stays within its bound.
\<close>

theorem neutral_edge_survives:
  assumes "evaluate_neutral_opportunity r c = Inr s" "ne_decision_at r = Aware decision"
    "nr_low (ne_gross_edge r) \<le> gross" "list_all2 (\<lambda>x range. x \<le> nr_high range) xs (cost_components (ne_costs r))"
  shows "(sd_action s = ARBITRAGE \<longleftrightarrow> rejection_reason r decision (sd_expected_value s) c = None) \<and>
    (sd_action s \<noteq> ARBITRAGE \<longrightarrow> sd_action s = WAIT) \<and>
    (sd_action s = ARBITRAGE \<longrightarrow>
       nf_min_net c < gross - sum_list xs \<and> sd_legs s = neutral_legs r \<and>
       py_lower (ne_long_venue r) \<noteq> py_lower (ne_short_venue r) \<and>
       sb_one_leg (ne_stresses r) \<le> nf_max_stress c \<and> sb_outage (ne_stresses r) \<le> nf_max_stress c \<and>
       sb_liquidation (ne_stresses r) \<le> nf_max_stress c)"
proof -
  obtain decision' cutoff costs net where v: "validate_neutral r = Inr (decision', cutoff)"
    and t: "total_costs (ne_costs r) = Inr costs" and n: "net_of (ne_gross_edge r) costs = Inr net"
    and e: "(case rejection_reason r decision' net c of
         Some reason \<Rightarrow> neutral_decision r WAIT costs net [] reason
       | None \<Rightarrow> neutral_decision r ARBITRAGE costs net (neutral_legs r)
             (''BOUNDED_'' @ mechanism_value (ne_mechanism r) @ ''_APPROVED'')) = Inr s"
    using assms(1) by (auto simp: evaluate_neutral_opportunity_def bindE_eq_Inr)
  have d: "decision' = decision" "py_lower (ne_long_venue r) \<noteq> py_lower (ne_short_venue r)"
    using v assms(2) by (simp_all add: validate_neutral_def bindE_eq_Inr split: if_splits)
  have low: "nr_low net = nr_low (ne_gross_edge r) - sum_list (map nr_high (cost_components (ne_costs r)))"
    using net_of_Inr [OF n] t by (auto simp: total_costs_def make_numeric_range_Fin)
  have net: "sd_expected_value s = net" using e by (auto dest: neutral_decision_Inr split: option.splits)
  show ?thesis
  proof (cases "rejection_reason r decision net c")
    case None
    have s: "sd_action s = ARBITRAGE" "sd_legs s = neutral_legs r" using e None neutral_decision_Inr by (auto simp: d)
    have "nf_min_net c < nr_low net" "max (max (sb_one_leg (ne_stresses r)) (sb_outage (ne_stresses r))) (sb_liquidation (ne_stresses r)) \<le> nf_max_stress c"
      using None by (auto simp: rejection_reason_def Let_def not_less not_le split: option.splits if_splits)
    moreover have "sum_list xs \<le> sum_list (map nr_high (cost_components (ne_costs r)))" by (rule sum_list_bound [OF assms(4)])
    ultimately show ?thesis using s None net low d assms(3) by auto
  next
    case (Some reason)
    then show ?thesis using e neutral_decision_Inr net by (auto simp: d)
  qed
qed

section \<open>Concrete requests\<close>

definition demo_range :: "rat \<Rightarrow> rat \<Rightarrow> rat numeric_range" where
  "demo_range low high = \<lparr>nr_low = low, nr_base = low, nr_high = high\<rparr>"

definition demo_evidence :: "confirmation_family \<Rightarrow> rat \<Rightarrow> (rat, int) family_evidence" where
  "demo_evidence f score =
     \<lparr>fe_family = f, fe_score = score, fe_confidence = 1, fe_quality = 1, fe_max_source = 0, fe_components = [''x''],
      fe_rationale = ''x''\<rparr>"

definition open_gates :: engine_gate_state where
  "open_gates =
     \<lparr>gs_kill_switch_active = False, gs_operational_healthy = True, gs_promotion_eligible = True, gs_promotion_state = ''x'',
      gs_risk_approved = True, gs_risk_reason = ''x''\<rparr>"

definition demo_directional :: "rat list \<Rightarrow> directional_request" where
  "demo_directional scores =
     \<lparr>dr_target = \<lparr>mt_symbol = ''B'', mt_venues = [''v'']\<rparr>, dr_decision_at = Aware 0, dr_data_cutoff = Aware 0,
      dr_horizon = ''h'', dr_evidence = map2 demo_evidence [PriceAuction, OrderFlow, Derivatives] scores,
      dr_regimes = [(''r'', ''x'')], dr_entry_condition = ''x'', dr_invalidation = ''x'', dr_stop_logic = ''x'',
      dr_gross_value = demo_range 10 20, dr_cost = demo_range 1 2, dr_capacity = Fin 100, dr_quality = QualityPass,
      dr_model_version = ''m'', dr_feature_version = ''f'', dr_gates = open_gates\<rparr>"

definition demo_directional_config :: "'n \<Rightarrow> 'n \<Rightarrow> 'n \<Rightarrow> 'n \<Rightarrow> 'n directional_config" where
  "demo_directional_config threshold quality age net =
     \<lparr>dc_min_families = 3, dc_vote_threshold = threshold, dc_min_quality = quality, dc_max_age = age, dc_min_net = net\<rparr>"

lemma demo_directional_config_ok:
  "make_directional_config (demo_directional_config (Fin (1 / 4)) (Fin (7 / 10)) (Fin 30) (Fin 0)) =
     Inr (demo_directional_config (1 / 4) (7 / 10) 30 0)"
  by code_simp

definition demo_outcome :: "rat list \<Rightarrow> setup_action option" where
  "demo_outcome scores =
     (case evaluate_directional_setup (demo_directional scores) (demo_directional_config (1 / 4) (7 / 10) 30 0) of
        Inl _ \<Rightarrow> None | Inr s \<Rightarrow> Some (sd_action s))"

lemma demo_outcomes: "map demo_outcome [[1, 1, 1], [- 1, - 1, - 1], [1, 1, - 1]] = map Some [LONG, SHORT, WAIT]"
  by code_simp

lemma demo_outcome_Some:
  assumes "demo_outcome scores = Some a"
  obtains s where "evaluate_directional_setup (demo_directional scores) (demo_directional_config (1 / 4) (7 / 10) 30 0) = Inr s"
    "sd_action s = a"
  using assms by (auto simp: demo_outcome_def split: sum.splits)

lemma demo_directional_time: "dr_decision_at (demo_directional scores) = Aware 0"
  by (simp add: demo_directional_def)

theorem directional_decides_witness:
  "\<exists>s t. evaluate_directional_setup (demo_directional [1, 1, 1]) (demo_directional_config (1 / 4) (7 / 10) 30 0) = Inr s \<and>
     sd_action s = LONG \<and> setup_ok s \<and>
     evaluate_directional_setup (demo_directional [1, 1, - 1]) (demo_directional_config (1 / 4) (7 / 10) 30 0) = Inr t \<and>
     sd_action t = WAIT \<and> setup_ok t"
proof -
  have outcomes: "demo_outcome [1, 1, 1] = Some LONG" "demo_outcome [1, 1, - 1] = Some WAIT" using demo_outcomes by simp_all
  note decides = directional_decides [OF demo_directional_config_ok _ demo_directional_time]
  show ?thesis
    by (rule demo_outcome_Some [OF outcomes(1)], rule demo_outcome_Some [OF outcomes(2)]) (use decides in blast)
qed

definition demo_costs :: neutral_costs where
  "demo_costs =
     \<lparr>nc_fees = demo_range 1 2, nc_spread = demo_range 1 2, nc_slippage = demo_range 1 2, nc_funding = demo_range 0 1,
      nc_borrow = demo_range 0 0, nc_transfer = demo_range 0 0, nc_orphan_hedge = demo_range 1 3\<rparr>"

definition demo_neutral :: neutral_request where
  "demo_neutral =
     \<lparr>ne_mechanism = FundingCapture, ne_symbol = ''B'', ne_long_venue = ''v'', ne_short_venue = ''w'', ne_decision_at = Aware 0,
      ne_data_cutoff = Aware 0, ne_horizon = ''h'', ne_evidence = [demo_evidence Derivatives 1, demo_evidence CrossMarket 1],
      ne_regimes = [(''r'', ''x'')], ne_gross_edge = demo_range 20 30, ne_costs = demo_costs, ne_capacity = Fin 100,
      ne_quality = QualityPass, ne_model_version = ''m'', ne_feature_version = ''f'',
      ne_inventory = \<lparr>iv_long_leg = True, iv_short_leg = True, iv_borrow_required = False, iv_borrow_confirmed = False,
                      iv_transfer_required = False, iv_prefunded = False, iv_long_venue = True, iv_short_venue = True\<rparr>,
      ne_stresses = \<lparr>sb_one_leg = 50, sb_outage = 50, sb_liquidation = 50, sb_margin_buffer = 600, sb_liquidation_distance = 2000\<rparr>,
      ne_policy = HedgeOnPartial, ne_max_unhedged = Fin 3, ne_entry_condition = ''x'', ne_invalidation = ''x'',
      ne_hedge_logic = ''x'', ne_gates = open_gates\<rparr>"

definition default_neutral_config :: "rat neutral_config" where
  "default_neutral_config =
     \<lparr>nf_max_age = 30, nf_min_quality = 7 / 10, nf_min_strength = 1 / 4, nf_min_net = 0, nf_max_stress = 100,
      nf_min_margin = 500, nf_min_distance = 1000, nf_max_unhedged = 5\<rparr>"

lemma demo_neutral_runs:
  "map_sum id sd_action (evaluate_neutral_opportunity demo_neutral default_neutral_config) = Inr ARBITRAGE"
  by code_simp

theorem neutral_edge_survives_witness:
  "\<exists>s. evaluate_neutral_opportunity demo_neutral default_neutral_config = Inr s \<and> sd_action s = ARBITRAGE \<and>
     sd_legs s = neutral_legs demo_neutral \<and> 0 < 20 - sum_list [2, 2, 2, 1, 0, 0, 3 :: rat]"
proof -
  obtain s where s: "evaluate_neutral_opportunity demo_neutral default_neutral_config = Inr s" "sd_action s = ARBITRAGE"
    using demo_neutral_runs by (auto simp: map_sum_eq)
  have t: "ne_decision_at demo_neutral = Aware 0" "nr_low (ne_gross_edge demo_neutral) \<le> 20"
    by (simp_all add: demo_neutral_def demo_range_def)
  have x: "list_all2 (\<lambda>x range. x \<le> nr_high range) [2, 2, 2, 1, 0, 0, 3] (cost_components (ne_costs demo_neutral))"
    by (simp add: demo_neutral_def cost_components_def demo_costs_def demo_range_def)
  from neutral_edge_survives [OF s(1) t x] s show ?thesis
    by (auto simp: default_neutral_config_def)
qed

end
