(* ===== verification/Shadow_Producer.thy ===== *)
theory Shadow_Producer
  imports Shadow_Store Evidence_Engines
begin

text \<open>
  Model of \<open>src/execution/shadow_producer.py\<close> and \<open>src/execution/shadow_orchestrator.py\<close>: from an evidence
  snapshot through the Directional Engine and the Meta Engine to one work item, with a proposal for each leg
  of the selected setup, written to the store and put into the queue. Portfolio and candidates are
  constructed objects; timestamps and numbers that the functions check themselves are raw.
\<close>

record 'n producer_config =
  pc_risk :: 'n
  pc_meta :: "rat meta_config"

definition make_producer_config :: "num producer_config \<Rightarrow> rat producer_config result" where
  "make_producer_config c =
     (if \<not> isfinite (pc_risk c) \<or> \<not> (num_lt (Fin 0) (pc_risk c) \<and> num_le (pc_risk c) (Fin 1))
      then Inl (ValueError ''shadow producer committed risk must be in (0, 1]'')
      else Inr \<lparr>pc_risk = num_val (pc_risk c), pc_meta = pc_meta c\<rparr>)"

section \<open>Proposals\<close>

text \<open>The symbols of the legs and of the open exposure, and the evidence about a pair: the last entry wins.\<close>

definition leg_symbols :: "(rat, int) setup_decision \<Rightarrow> string list" where
  "leg_symbols s = map sl_symbol (sd_legs s)"

definition exposed_symbols :: "rat meta_portfolio \<Rightarrow> string list" where
  "exposed_symbols m = map fst (filter (\<lambda>p. 0 < snd p) (mp_exposure m))"

definition pair_evidence :: "rat meta_portfolio \<Rightarrow> string \<Rightarrow> string \<Rightarrow> rat option" where
  "pair_evidence m a b =
     map_option cp_correlation (find (\<lambda>p. {cp_first p, cp_second p} = {a, b}) (rev (mp_correlations m)))"

definition checked_symbols :: "(rat, int) setup_decision \<Rightarrow> rat meta_portfolio \<Rightarrow> string \<Rightarrow> string list" where
  "checked_symbols s m x = sort (remdups (filter (\<lambda>y. y \<noteq> x) (leg_symbols s @ exposed_symbols m)))"

definition correlated_symbols :: "(rat, int) setup_decision \<Rightarrow> rat meta_portfolio \<Rightarrow> rat \<Rightarrow> string \<Rightarrow> string list" where
  "correlated_symbols s m threshold x =
     filter (\<lambda>y. case pair_evidence m x y of Some v \<Rightarrow> threshold \<le> \<bar>v\<bar> | None \<Rightarrow> False) (checked_symbols s m x)"

fun engine_text :: "engine_kind \<Rightarrow> string" where
  "engine_text DIRECTIONAL = ''directional''"
| "engine_text NEUTRAL = ''neutral''"
| "engine_text engine_kind.RESEARCH = ''research''"

definition leg_notional :: "meta_decision \<Rightarrow> (rat, int) setup_decision \<Rightarrow> rat" where
  "leg_notional m s = (if md_action m = ARBITRAGE then md_allocated m else md_allocated m / of_nat (length (sd_legs s)))"

definition leg_proposal :: "string \<Rightarrow> meta_decision \<Rightarrow> (rat, int) setup_decision \<Rightarrow> string \<Rightarrow> engine_kind \<Rightarrow> rat meta_portfolio
    \<Rightarrow> rat \<Rightarrow> rat \<Rightarrow> nat \<times> setup_leg \<Rightarrow> (num, pydatetime) entry_proposal" where
  "leg_proposal observation_id m s engine_id kind portfolio risk threshold = (\<lambda>(index, leg).
     \<lparr>ep_key = observation_id @ '':leg-'' @ show_nat index, ep_symbol = sl_symbol leg, ep_venue = sl_venue leg,
      ep_strategy = engine_id, ep_engine = engine_text kind,
      ep_signed_notional = Fin (if sl_side leg = BUY then leg_notional m s else - leg_notional m s),
      ep_committed_risk = Fin risk, ep_correlation_checked = checked_symbols s portfolio (sl_symbol leg),
      ep_correlated = correlated_symbols s portfolio threshold (sl_symbol leg), ep_proposed_at = Aware (md_decided_at m)\<rparr>)"

definition build_proposals :: "string \<Rightarrow> meta_decision \<Rightarrow> engine_candidate \<Rightarrow> rat meta_portfolio \<Rightarrow> rat \<Rightarrow> rat
    \<Rightarrow> (rat, int) entry_proposal list result" where
  "build_proposals observation_id m candidate portfolio risk threshold =
     (case (md_setup m, md_engine_id m) of
        (Some s, Some engine_id) \<Rightarrow>
          if list_ex (\<lambda>x. list_ex (\<lambda>y. pair_evidence portfolio x y = None) (checked_symbols s portfolio x)) (leg_symbols s)
          then Inr []
          else
            mapE (\<lambda>p. make_entry_proposal
                (leg_proposal observation_id m s engine_id (ec_kind candidate) portfolio risk threshold p))
              (zip [0..<length (sd_legs s)] (sd_legs s))
      | _ \<Rightarrow> Inl (ValueError ''actionable Meta decision must contain its selected setup''))"

section \<open>The producer\<close>

text \<open>\<open>produce\<close> up to the work item.\<close>

definition produced_work :: "rat producer_config \<Rightarrow> string \<Rightarrow> engine_candidate list \<Rightarrow> rat meta_portfolio \<Rightarrow> pydatetime
    \<Rightarrow> pydatetime \<Rightarrow> num \<Rightarrow> shadow_work result" where
  "produced_work c observation_id candidates portfolio decision_timestamp produced_at_utc equity =
     bindE (utc_of ''shadow decision timestamp must be timezone-aware'' decision_timestamp) (\<lambda>decision_at.
     bindE (utc_of ''shadow produced timestamp must be timezone-aware'' produced_at_utc) (\<lambda>produced_at.
       if produced_at < decision_at then Inl (ValueError ''shadow work cannot be produced before its decision'')
       else if \<not> finite_positive equity then Inl (ValueError ''shadow producer equity must be finite and positive'')
       else
         bindE (evaluate_meta_candidates candidates (Aware decision_at) portfolio (pc_meta c)) (\<lambda>m.
         bindE
           (if md_action m = WAIT then Inr (m, [])
            else
              (case find (\<lambda>x. Some (ec_engine_id x) = md_engine_id m) candidates of
                 None \<Rightarrow> Inl (OtherError ''StopIteration'')
               | Some candidate \<Rightarrow>
                   bindE (build_proposals observation_id m candidate portfolio (pc_risk c) (mc_correlation_threshold (pc_meta c)))
                     (\<lambda>ps.
                       if ps \<noteq> [] then Inr (m, ps)
                       else
                         bindE (make_meta_decision
                             \<lparr>md_action = WAIT, md_decided_at = decision_at, md_engine_id = None, md_setup = None,
                              md_allocated = 0, md_rankings = md_rankings m,
                              md_reason_codes = [''MISSING_PROPOSAL_CORRELATION_EVIDENCE'']\<rparr>) (\<lambda>m'. Inr (m', [])))))
           (\<lambda>(m, ps).
             make_shadow_work \<lparr>sw_observation_id = observation_id, sw_meta = m, sw_proposals = ps, sw_equity = equity\<rparr>))))"

definition produce :: "(json \<Rightarrow> string) \<Rightarrow> rat producer_config \<Rightarrow> shadow_db \<Rightarrow> work_store \<Rightarrow> string \<Rightarrow> engine_candidate list
    \<Rightarrow> rat meta_portfolio \<Rightarrow> pydatetime \<Rightarrow> pydatetime \<Rightarrow> num \<Rightarrow> (shadow_db \<times> work_store) \<times> (shadow_work \<times> bool) result" where
  "produce sha c db st observation_id candidates portfolio decision_timestamp produced_at equity =
     (case produced_work c observation_id candidates portfolio decision_timestamp produced_at equity of
        Inl e \<Rightarrow> ((db, st), Inl e)
      | Inr w \<Rightarrow>
          (case enqueue_shadow_work sha db st w produced_at produced_at of
             (world, Inl e) \<Rightarrow> (world, Inl e)
           | (world, Inr enqueued) \<Rightarrow> (world, Inr (w, enqueued))))"

section \<open>The orchestrator\<close>

record directional_snapshot =
  ds_schema_version :: int
  ds_observation_id :: string
  ds_candidate_id :: string
  ds_context :: session_context
  ds_request :: directional_request
  ds_portfolio :: "rat meta_portfolio"
  ds_research_approved :: bool
  ds_equity :: num
  ds_produced_at :: pydatetime

definition make_directional_snapshot :: "directional_snapshot \<Rightarrow> directional_snapshot result" where
  "make_directional_snapshot s =
     (if ds_schema_version s \<noteq> 1 then Inl (ValueError ''unsupported directional SHADOW snapshot schema'')
      else if blank (ds_observation_id s) \<or> blank (ds_candidate_id s)
      then Inl (ValueError ''directional SHADOW snapshot requires identifiers'')
      else
        bindE (utc_of ''directional SHADOW produced timestamp must be timezone-aware'' (ds_produced_at s)) (\<lambda>produced.
        bindE (utc_of ''directional SHADOW decision timestamp must be timezone-aware'' (dr_decision_at (ds_request s))) (\<lambda>decision.
          if produced < decision then Inl (ValueError ''directional SHADOW snapshot cannot precede its decision'')
          else if \<not> finite_positive (ds_equity s) then Inl (ValueError ''directional SHADOW equity must be finite and positive'')
          else Inr s)))"

definition orchestrate :: "(json \<Rightarrow> string) \<Rightarrow> session_context \<Rightarrow> rat producer_config \<Rightarrow> rat directional_config \<Rightarrow> shadow_db
    \<Rightarrow> work_store \<Rightarrow> directional_snapshot \<Rightarrow> (shadow_db \<times> work_store) \<times> (shadow_work \<times> bool) result" where
  "orchestrate sha context pc dc db st s =
     (if ds_context s \<noteq> context
      then ((db, st), Inl (ValueError ''directional SHADOW snapshot context does not match the session''))
      else
        (case
           bindE (utc_of ''directional SHADOW decision timestamp must be timezone-aware'' (dr_decision_at (ds_request s))) (\<lambda>decision_at.
           bindE (utc_of ''directional SHADOW produced timestamp must be timezone-aware'' (ds_produced_at s)) (\<lambda>produced_at.
             if dc_max_age dc < age_seconds produced_at decision_at
             then Inl (ValueError ''directional SHADOW snapshot is stale at production time'')
             else
               bindE (evaluate_directional_setup (ds_request s) dc) (\<lambda>setup.
                 make_engine_candidate
                   \<lparr>ec_engine_id = ds_candidate_id s, ec_kind = DIRECTIONAL, ec_setup = setup,
                    ec_research_approved = ds_research_approved s\<rparr>))) of
           Inl e \<Rightarrow> ((db, st), Inl e)
         | Inr candidate \<Rightarrow>
             produce sha pc db st (ds_observation_id s) [candidate] (ds_portfolio s) (dr_decision_at (ds_request s))
               (ds_produced_at s) (ds_equity s)))"

section \<open>Keys of proposals\<close>

lemma digits_val_show_nat: "digits_val (show_nat n) = n"
proof (induction n rule: show_nat.induct)
  case (1 n)
  have d: "digit_val (char_of (48 + k)) = k" if "k < 10" for k :: nat using that by (simp add: digit_val_def)
  show ?case
  proof (cases "n < 10")
    case True
    then show ?thesis using digits_val_snoc [of "[]" "char_of (48 + n)"] d [OF True] by (simp add: show_nat.simps digits_val_def)
  next
    case False
    then show ?thesis using 1 [OF False] d [of "n mod 10"] by (subst show_nat.simps) (simp add: digits_val_snoc)
  qed
qed

lemma show_nat_eq [simp]: "show_nat a = show_nat b \<longleftrightarrow> a = b"
  by (metis digits_val_show_nat)

section \<open>The proposals match the legs\<close>

lemma mapE_leg_entries: "(\<And>x. x \<in> set xs \<Longrightarrow> f x = Inr (g x)) \<Longrightarrow> mapE f xs = Inr (map g xs)"
  by (induction xs) auto

lemma trimmed_not_blank: "trimmed s \<Longrightarrow> \<not> blank s"
  by (auto simp: trimmed_def blank_def)

lemma make_proposal_of_ok: "proposal_ok p \<Longrightarrow> make_entry_proposal (raw_proposal p) = Inr p"
  by (cases p) (auto simp: make_entry_proposal_def raw_proposal_def proposal_ok_def)

definition leg_entry :: "string \<Rightarrow> meta_decision \<Rightarrow> (rat, int) setup_decision \<Rightarrow> string \<Rightarrow> engine_kind \<Rightarrow> rat meta_portfolio
    \<Rightarrow> rat \<Rightarrow> rat \<Rightarrow> nat \<times> setup_leg \<Rightarrow> (rat, int) entry_proposal" where
  "leg_entry i m s engine_id kind portfolio risk threshold p =
     \<lparr>ep_key = i @ '':leg-'' @ show_nat (fst p), ep_symbol = sl_symbol (snd p), ep_venue = sl_venue (snd p),
      ep_strategy = engine_id, ep_engine = engine_text kind,
      ep_signed_notional = (if sl_side (snd p) = BUY then leg_notional m s else - leg_notional m s),
      ep_committed_risk = risk, ep_correlation_checked = checked_symbols s portfolio (sl_symbol (snd p)),
      ep_correlated = correlated_symbols s portfolio threshold (sl_symbol (snd p)), ep_proposed_at = md_decided_at m\<rparr>"

lemma leg_proposal_raw: "leg_proposal i m s e k pf risk th p = raw_proposal (leg_entry i m s e k pf risk th p)"
  by (cases p) (simp add: leg_proposal_def raw_proposal_def leg_entry_def)

lemma checked_symbols_facts: "distinct (checked_symbols s m x)" "x \<notin> set (checked_symbols s m x)"
  "distinct (correlated_symbols s m th x)" "set (correlated_symbols s m th x) \<subseteq> set (checked_symbols s m x)"
  by (auto simp: checked_symbols_def correlated_symbols_def)

lemma key_not_blank: "\<not> blank (i @ '':leg-'' @ n)"
proof -
  have "CHR '':'' \<in> set (i @ '':leg-'' @ n)" "\<not> is_space (CHR '':'')" by (simp_all add: is_space_def)
  then show ?thesis unfolding blank_iff by blast
qed

lemma engine_text_not_blank: "\<not> blank (engine_text k)"
proof -
  have "\<not> blank ''directional''" "\<not> blank ''neutral''" "\<not> blank ''research''" by code_simp+
  then show ?thesis by (cases k) simp_all
qed

lemma leg_entry_ok:
  assumes "make_setup_leg (snd p) = Inr (snd p)" "\<not> blank e" "0 < risk" "risk \<le> 1" "0 < leg_notional m s"
  shows "proposal_ok (leg_entry i m s e k pf risk th p)"
  using assms checked_symbols_facts key_not_blank engine_text_not_blank
  by (auto simp: proposal_ok_def leg_entry_def make_setup_leg_def trimmed_not_blank split: if_splits)

text \<open>A selection of the Meta Engine: what its proposals are built from.\<close>

definition selection :: "meta_decision \<Rightarrow> (rat, int) setup_decision \<Rightarrow> string \<Rightarrow> bool" where
  "selection m s e \<longleftrightarrow>
     md_action m \<noteq> WAIT \<and> md_setup m = Some s \<and> md_engine_id m = Some e \<and> md_action m = sd_action s \<and> 0 < md_allocated m \<and>
     setup_valid s \<and> \<not> blank e"

lemma setup_valid_legs:
  assumes "setup_valid s"
  shows "sd_legs s \<noteq> [] \<longleftrightarrow> sd_action s \<noteq> WAIT" "\<forall>l \<in> set (sd_legs s). make_setup_leg l = Inr l"
  using assms make_setup_decision_ok [of "raw_setup s" s] by (auto simp: setup_valid_def setup_ok_def list_all_iff)

lemma share_bounds: "0 < a \<Longrightarrow> 1 \<le> k \<Longrightarrow> 0 < a / k \<and> a / k \<le> a \<and> k * (a / k) = (a :: rat)"
  using mult_left_mono [of 1 k a] by (auto simp: divide_le_eq)

lemma leg_notional_bounds:
  assumes "selection m s e"
  shows "0 < leg_notional m s" "leg_notional m s \<le> md_allocated m"
    "md_action m \<noteq> ARBITRAGE \<Longrightarrow> of_nat (length (sd_legs s)) * leg_notional m s = md_allocated m"
proof -
  have n: "1 \<le> length (sd_legs s)" "0 < md_allocated m"
    using assms setup_valid_legs(1) [of s] by (auto simp: selection_def Suc_le_eq)
  then have "(1 :: rat) \<le> of_nat (length (sd_legs s))" by (metis of_nat_1 of_nat_le_iff)
  from share_bounds [OF n(2) this] n show "0 < leg_notional m s" "leg_notional m s \<le> md_allocated m"
    "md_action m \<noteq> ARBITRAGE \<Longrightarrow> of_nat (length (sd_legs s)) * leg_notional m s = md_allocated m"
    by (auto simp: leg_notional_def)
qed

lemma build_proposals_cases:
  assumes "selection m s e" "0 < risk" "risk \<le> 1"
  shows "build_proposals i m x pf risk th = Inr [] \<or>
    build_proposals i m x pf risk th =
      Inr (map (leg_entry i m s e (ec_kind x) pf risk th) (zip [0..<length (sd_legs s)] (sd_legs s))) \<and>
    (\<forall>a \<in> set (leg_symbols s). \<forall>b \<in> set (checked_symbols s pf a). pair_evidence pf a b \<noteq> None)"
proof -
  have "make_entry_proposal (leg_proposal i m s e (ec_kind x) pf risk th p) = Inr (leg_entry i m s e (ec_kind x) pf risk th p)"
    if "p \<in> set (zip [0..<length (sd_legs s)] (sd_legs s))" for p
  proof -
    have "snd p \<in> set (sd_legs s)" using that by (metis in_set_zipE prod.collapse)
    with assms setup_valid_legs(2) [of s] leg_notional_bounds(1) [OF assms(1)]
    have "proposal_ok (leg_entry i m s e (ec_kind x) pf risk th p)" by (intro leg_entry_ok) (auto simp: selection_def)
    then show ?thesis by (simp add: leg_proposal_raw make_proposal_of_ok)
  qed
  then have "mapE (\<lambda>p. make_entry_proposal (leg_proposal i m s e (ec_kind x) pf risk th p)) (zip [0..<length (sd_legs s)] (sd_legs s)) =
      Inr (map (leg_entry i m s e (ec_kind x) pf risk th) (zip [0..<length (sd_legs s)] (sd_legs s)))"
    by (rule mapE_leg_entries)
  then show ?thesis using assms(1) by (auto simp: build_proposals_def selection_def list_ex_iff)
qed

lemma map_fst_of_zip: "length xs = length ys \<Longrightarrow> map (\<lambda>p. f (fst p)) (zip xs ys) = map f xs"
  by (induction xs ys rule: list_induct2) auto

lemma map_snd_of_zip: "length xs = length ys \<Longrightarrow> map (\<lambda>p. f (snd p)) (zip xs ys) = map f ys"
  by (induction xs ys rule: list_induct2) auto

lemma leg_entries_accepted:
  assumes "selection m s e" "ps = map (leg_entry i m s e k pf risk th) (zip [0..<length (sd_legs s)] (sd_legs s))"
  shows "validate_actionable m ps = Inr ()"
proof -
  let ?n = "length (sd_legs s)" and ?a = "leg_notional m s"
  note b = leg_notional_bounds [OF assms(1)]
  have n: "?n \<noteq> 0" using assms(1) setup_valid_legs(1) [of s] by (auto simp: selection_def)
  have keys: "distinct (map ep_key ps)"
  proof -
    have "map ep_key ps = map (\<lambda>j. i @ '':leg-'' @ show_nat j) [0..<?n]"
      using map_fst_of_zip [of "[0..<?n]" "sd_legs s" "\<lambda>j. i @ '':leg-'' @ show_nat j"]
      by (simp add: assms(2) leg_entry_def comp_def)
    then show ?thesis by (simp add: distinct_map inj_on_def)
  qed
  have legs: "map proposal_leg_key ps = map leg_key (sd_legs s)"
  proof -
    have "map proposal_leg_key ps = map (\<lambda>p. leg_key (snd p)) (zip [0..<?n] (sd_legs s))"
      using b(1) by (auto simp: assms(2) leg_entry_def proposal_leg_key_def leg_key_def)
    then show ?thesis by (simp add: map_snd_of_zip)
  qed
  have sizes: "notional_sizes ps = replicate ?n ?a"
    by (rule replicate_eqI) (use b(1) in \<open>auto simp: assms(2) notional_sizes_def leg_entry_def\<close>)
  have "list_all (\<lambda>p. ep_proposed_at p = md_decided_at m \<and> \<bar>ep_signed_notional p\<bar> \<le> md_allocated m) ps"
    using b(1,2) by (auto simp: assms(2) leg_entry_def list_all_iff)
  moreover have "balanced (replicate ?n ?a)" by (cases ?n) (auto simp: balanced_def list_all_iff)
  moreover have "length ps = ?n" by (simp add: assms(2))
  ultimately show ?thesis
    using assms(1) n keys legs b(3)
    by (auto simp: validate_actionable_def selection_def sizes sum_list_replicate list_ex_iff list_all_iff)
qed

section \<open>The produced work\<close>

lemma make_producer_config_risk: "make_producer_config raw = Inr c \<Longrightarrow> 0 < pc_risk c \<and> pc_risk c \<le> 1"
  by (auto simp: make_producer_config_def isfinite_iff split: if_splits)

lemma meta_selection:
  assumes "distinct (map ec_engine_id cs)" "\<forall>x \<in> set cs. setup_valid (ec_setup x) \<and> \<not> blank (ec_engine_id x)"
  obtains (waits) m where "evaluate_meta_candidates cs (Aware d) pf c = Inr m" "make_meta_decision m = Inr m"
      "md_action m = WAIT" "md_decided_at m = d" "md_setup m = None"
  | (selects) m x where "evaluate_meta_candidates cs (Aware d) pf c = Inr m" "make_meta_decision m = Inr m"
      "selection m (ec_setup x) (ec_engine_id x)" "md_decided_at m = d"
      "find (\<lambda>y. Some (ec_engine_id y) = md_engine_id m) cs = Some x"
proof -
  have waiting: thesis if "evaluate_meta_candidates cs (Aware d) pf c = wait_decision d rs reason" for rs reason
    using that waits by (auto simp: wait_decision_def make_meta_decision_def)
  show thesis
  proof (cases rule: evaluate_meta_cases [where decision = d and m = pf and c = c, OF refl assms(1)])
    case (3 x)
    let ?m = "\<lparr>md_action = sd_action (ec_setup x), md_decided_at = d, md_engine_id = Some (ec_engine_id x),
        md_setup = Some (ec_setup x), md_allocated = maximum_allocation (ec_setup x) pf c,
        md_rankings = map (\<lambda>x. rank_candidate x d pf c) cs,
        md_reason_codes = [''BEST_ELIGIBLE_EDGE_AFTER_COST_AND_UNCERTAINTY'']\<rparr>"
    have sel: "selection ?m (ec_setup x) (ec_engine_id x)"
      using 3(2,3) assms(2) by (simp add: selection_def fit_candidate_def Let_def)
    have "find (\<lambda>y. ec_engine_id y = ec_engine_id x) cs = Some x"
      using find_key_iff [OF assms(1)] 3(2) by simp
    with sel 3(6) show thesis by (intro selects [of ?m x]) (auto simp: selection_def make_meta_decision_def)
  qed (rule waiting, assumption)+
qed

lemma selection_valid:
  "selection m s e \<Longrightarrow> make_meta_decision m = Inr m \<Longrightarrow> instant_in_range (md_decided_at m) \<Longrightarrow> meta_valid m"
  by (simp add: selection_def meta_valid_def)

text \<open>Every open symbol but its own is checked against the symbol of a proposal, and evidence was there.\<close>

definition correlation_covered :: "rat meta_portfolio \<Rightarrow> (rat, int) entry_proposal \<Rightarrow> bool" where
  "correlation_covered pf p \<longleftrightarrow>
     (\<forall>y \<in> set (exposed_symbols pf). y \<noteq> ep_symbol p \<longrightarrow>
        y \<in> set (ep_correlation_checked p) \<and> pair_evidence pf (ep_symbol p) y \<noteq> None)"

lemma leg_entries_covered:
  assumes "\<forall>a \<in> set (leg_symbols s). \<forall>b \<in> set (checked_symbols s pf a). pair_evidence pf a b \<noteq> None"
    "p \<in> set (map (leg_entry i m s e k pf risk th) (zip [0..<length (sd_legs s)] (sd_legs s)))"
  shows "correlation_covered pf p"
proof -
  obtain q where q: "q \<in> set (zip [0..<length (sd_legs s)] (sd_legs s))" "p = leg_entry i m s e k pf risk th q"
    using assms(2) by auto
  then have "snd q \<in> set (sd_legs s)" by (metis in_set_zipE prod.collapse)
  then have "sl_symbol (snd q) \<in> set (leg_symbols s)" by (simp add: leg_symbols_def)
  with assms(1) show ?thesis by (auto simp: correlation_covered_def q(2) leg_entry_def checked_symbols_def)
qed

lemma leg_entries_valid:
  assumes "selection m s e" "0 < risk" "risk \<le> 1" "instant_in_range (md_decided_at m)"
  shows "list_all proposal_valid (map (leg_entry i m s e k pf risk th) (zip [0..<length (sd_legs s)] (sd_legs s)))"
proof -
  have "proposal_valid (leg_entry i m s e k pf risk th p)" if "p \<in> set (zip [0..<length (sd_legs s)] (sd_legs s))" for p
  proof -
    have "snd p \<in> set (sd_legs s)" using that by (metis in_set_zipE prod.collapse)
    with assms(1-3) setup_valid_legs(2) [of s] leg_notional_bounds(1) [OF assms(1)]
    have "proposal_ok (leg_entry i m s e k pf risk th p)" by (intro leg_entry_ok) (auto simp: selection_def)
    with assms(4) show ?thesis by (simp add: proposal_valid_def make_proposal_of_ok leg_entry_def)
  qed
  then show ?thesis by (simp add: list_all_iff)
qed

definition accepted_work :: "rat meta_portfolio \<Rightarrow> int \<Rightarrow> shadow_work \<Rightarrow> bool" where
  "accepted_work pf d w \<longleftrightarrow>
     work_valid w \<and> md_decided_at (sw_meta w) = d \<and> list_all (correlation_covered pf) (sw_proposals w) \<and>
     (if md_action (sw_meta w) = WAIT then sw_proposals w = []
      else validate_actionable (sw_meta w) (sw_proposals w) = Inr ())"

lemma produced_work_total:
  assumes "make_producer_config raw = Inr c" "distinct (map ec_engine_id cs)"
    "\<forall>x \<in> set cs. setup_valid (ec_setup x) \<and> \<not> blank (ec_engine_id x)"
    "\<not> blank i" "0 < equity" "d \<le> p" "instant_in_range d"
  shows "\<exists>w. produced_work c i cs pf (Aware d) (Aware p) (Fin equity) = Inr w \<and> sw_observation_id w = i \<and> accepted_work pf d w"
proof -
  let ?w = "\<lambda>m ps. \<lparr>sw_observation_id = i, sw_meta = m, sw_proposals = ps, sw_equity = Fin equity\<rparr>"
  let ?th = "mc_correlation_threshold (pc_meta c)"
  have made: "make_shadow_work (?w m ps) = Inr (?w m ps)" for m ps
    using assms(4,5) by (simp add: make_shadow_work_def)
  have waiting: "accepted_work pf d (?w m [])" if "make_meta_decision m = Inr m" "md_action m = WAIT" "md_decided_at m = d" "md_setup m = None" for m
    using that made assms(7) by (simp add: accepted_work_def work_valid_def meta_valid_def)
  show ?thesis
  proof (cases rule: meta_selection [OF assms(2,3), where d = d and pf = pf and c = "pc_meta c"])
    case (1 m)
    with made waiting [OF 1(2,3,4,5)] assms(5,6) show ?thesis by (simp add: produced_work_def)
  next
    case (2 m x)
    have act: "md_action m \<noteq> WAIT" using 2(3) by (auto simp: selection_def)
    note risk = make_producer_config_risk [OF assms(1)]
    consider "build_proposals i m x pf (pc_risk c) ?th = Inr []"
      | ps where "build_proposals i m x pf (pc_risk c) ?th = Inr ps" "ps \<noteq> []"
          "ps = map (leg_entry i m (ec_setup x) (ec_engine_id x) (ec_kind x) pf (pc_risk c) ?th) (zip [0..<length (sd_legs (ec_setup x))] (sd_legs (ec_setup x)))"
          "\<forall>a \<in> set (leg_symbols (ec_setup x)). \<forall>b \<in> set (checked_symbols (ec_setup x) pf a). pair_evidence pf a b \<noteq> None"
      using build_proposals_cases [OF 2(3), of "pc_risk c" i x pf ?th] risk by (cases "build_proposals i m x pf (pc_risk c) ?th = Inr []") auto
    then show ?thesis
    proof cases
      case a: 1
      let ?m = "\<lparr>md_action = WAIT, md_decided_at = d, md_engine_id = None, md_setup = None, md_allocated = 0,
          md_rankings = md_rankings m, md_reason_codes = [''MISSING_PROPOSAL_CORRELATION_EVIDENCE'']\<rparr>"
      have "make_meta_decision ?m = Inr ?m" by (simp add: make_meta_decision_def)
      with a 2 act made waiting [of ?m] assms(5,6) show ?thesis by (simp add: produced_work_def)
    next
      case (2 ps)
      note sel = \<open>selection m (ec_setup x) (ec_engine_id x)\<close>
      have r: "instant_in_range (md_decided_at m)" using assms(7) \<open>md_decided_at m = d\<close> by simp
      have "accepted_work pf d (?w m ps)"
        using leg_entries_accepted [OF sel 2(3)] leg_entries_valid [OF sel _ _ r, of "pc_risk c" i "ec_kind x" pf ?th]
          leg_entries_covered [OF 2(4)] risk selection_valid [OF sel \<open>make_meta_decision m = Inr m\<close> r] made act \<open>md_decided_at m = d\<close>
        unfolding accepted_work_def work_valid_def list_all_iff 2(3) by simp
      with 2(1,2) made act assms(5,6) \<open>evaluate_meta_candidates cs (Aware d) pf (pc_meta c) = Inr m\<close>
        \<open>find (\<lambda>y. Some (ec_engine_id y) = md_engine_id m) cs = Some x\<close>
      show ?thesis by (simp add: produced_work_def)
    qed
  qed
qed

text \<open>
  C9. What the producer hands over the runtime accepts: from constructed candidates with distinct ids the producer
  always makes a work; it waits without proposals, or its proposals pass every check of the runtime, one for
  each leg, within the allocation and balanced, and each is checked for correlation against every open symbol.
\<close>

theorem produced_work_accepted:
  assumes "make_producer_config raw = Inr c" "distinct (map ec_engine_id cs)"
    "\<forall>x \<in> set cs. setup_valid (ec_setup x) \<and> \<not> blank (ec_engine_id x)"
    "\<not> blank i" "0 < equity" "d \<le> p" "instant_in_range d"
  shows "\<exists>w. produced_work c i cs pf (Aware d) (Aware p) (Fin equity) = Inr w \<and>
    observe_args_ok (sw_meta w) (sw_proposals w) \<and> md_decided_at (sw_meta w) = d \<and>
    (if md_action (sw_meta w) = WAIT then sw_proposals w = []
     else validate_actionable (sw_meta w) (sw_proposals w) = Inr ()) \<and>
    (\<forall>q \<in> set (sw_proposals w). \<forall>y \<in> set (exposed_symbols pf). y \<noteq> ep_symbol q \<longrightarrow> y \<in> set (ep_correlation_checked q))"
proof -
  obtain w where w: "produced_work c i cs pf (Aware d) (Aware p) (Fin equity) = Inr w" "accepted_work pf d w"
    using produced_work_total [OF assms] by blast
  have "proposal_valid q \<Longrightarrow> proposal_ok q" for q by (auto simp: proposal_valid_def dest: make_entry_proposal_ok)
  with w(2) have "observe_args_ok (sw_meta w) (sw_proposals w)"
    by (auto simp: accepted_work_def work_valid_def meta_valid_def observe_args_ok_def list_all_iff)
  moreover have "\<forall>q \<in> set (sw_proposals w). \<forall>y \<in> set (exposed_symbols pf). y \<noteq> ep_symbol q \<longrightarrow> y \<in> set (ep_correlation_checked q)"
    using w(2) by (auto simp: accepted_work_def list_all_iff correlation_covered_def)
  ultimately show ?thesis using w by (intro exI [of _ w]) (simp add: accepted_work_def)
qed

section \<open>From the snapshot to the queue\<close>

lemma make_setup_again:
  assumes "make_setup_decision raw = Inr s"
  shows "make_setup_decision (raw_setup s) = Inr s"
proof -
  obtain d c r where t: "sd_decision_at raw = Aware d" "sd_data_cutoff raw = Aware c" "sd_capacity raw = Fin r"
    and k: "check_setup raw d c (Fin r) = Inr ()"
  proof -
    obtain d c u where "sd_decision_at raw = Aware d" "sd_data_cutoff raw = Aware c" "check_setup raw d c (sd_capacity raw) = Inr u"
      using assms by (auto simp: make_setup_decision_def bindE_eq_Inr utc_of_eq_Inr)
    with check_setup_ok [OF this(3)] that show thesis by auto
  qed
  have s: "s = \<lparr>sd_action = sd_action raw, sd_targets = sd_targets raw, sd_legs = sd_legs raw, sd_decision_at = d, sd_data_cutoff = c,
      sd_horizon = sd_horizon raw, sd_evidence = sd_evidence raw, sd_regimes = sd_regimes raw,
      sd_entry_condition = sd_entry_condition raw, sd_invalidation = sd_invalidation raw, sd_stop_or_hedge = sd_stop_or_hedge raw,
      sd_expected_cost = sd_expected_cost raw, sd_expected_value = sd_expected_value raw, sd_capacity = r, sd_quality = sd_quality raw,
      sd_model_version = sd_model_version raw, sd_feature_version = sd_feature_version raw, sd_reason_codes = sd_reason_codes raw\<rparr>"
    using assms t k by (simp add: make_setup_decision_def)
  have "check_setup (raw_setup s) d c (Fin r) = Inr ()"
    using k by (simp add: s raw_setup_def check_setup_def check_action_def Let_def)
  then show ?thesis by (simp add: make_setup_decision_def) (simp add: s raw_setup_def)
qed

text \<open>A request whose parts are constructed objects.\<close>

definition request_valid :: "directional_request \<Rightarrow> bool" where
  "request_valid r \<longleftrightarrow>
     make_market_target (dr_target r) = Inr (dr_target r) \<and> list_all evidence_valid (dr_evidence r) \<and> range_valid (dr_cost r) \<and>
     (case (dr_decision_at r, dr_data_cutoff r) of
        (Aware d, Aware c) \<Rightarrow> instant_in_range d \<and> instant_in_range c
      | _ \<Rightarrow> True)"

lemma directional_decision_valid:
  assumes "directional_decision r net action legs reason = Inr s" "request_valid r" "range_valid net"
    "list_all (\<lambda>l. make_setup_leg l = Inr l) legs"
  shows "setup_valid s"
proof -
  note m = assms(1) [unfolded directional_decision_def]
  obtain d c where "dr_decision_at r = Aware d" "dr_data_cutoff r = Aware c"
    using m by (auto simp: make_setup_decision_def bindE_eq_Inr utc_of_eq_Inr)
  with m assms(2-4) show ?thesis
    unfolding setup_valid_def
    by (intro conjI make_setup_again [OF m]) (auto simp: make_setup_decision_def bindE_eq_Inr request_valid_def)
qed

lemma directional_setup_valid:
  assumes "evaluate_directional_setup r c = Inr s" "request_valid r"
  shows "setup_valid s"
proof -
  obtain net where n: "net_of (dr_gross_value r) (dr_cost r) = Inr net"
    using assms(1) by (auto simp: evaluate_directional_setup_def bindE_eq_Inr)
  have net: "range_valid net" using n by (auto simp: net_of_def make_numeric_range_Fin range_valid_def)
  have wait: "setup_valid s" if "directional_wait r net reason = Inr s" for reason
    using directional_decision_valid [OF that [unfolded directional_wait_def] assms(2) net] by simp
  have act: "setup_valid s" if a: "directional_actionable r net action = Inr s" for action
  proof -
    obtain leg l where "make_setup_leg l = Inr leg" "directional_decision r net action [leg] ''DIRECTIONAL_EDGE_APPROVED'' = Inr s"
      using a by (auto simp: directional_actionable_def bindE_eq_Inr split: list.splits)
    with directional_decision_valid [OF this(2) assms(2) net] show ?thesis by (auto simp: make_setup_leg_def split: if_splits)
  qed
  show ?thesis
    using assms(1) wait act
    by (auto simp: evaluate_directional_setup_def n bindE_eq_Inr Let_def split: option.splits if_splits)
qed

lemma enqueue_Inr:
  assumes "queue_enqueue db i uri (Aware t) = Inr (db', fresh)"
  shows "\<exists>r. row_of db' i = Some r \<and> qr_payload r = uri" "queue_enqueue db' i uri (Aware t) = Inr (db', False)"
proof -
  have "\<exists>r. row_of db' i = Some r \<and> qr_payload r = uri \<and> \<not> blank i \<and> \<not> blank uri"
    using assms by (auto simp: queue_enqueue_def row_of_def find_append split: option.splits if_splits)
  then show "\<exists>r. row_of db' i = Some r \<and> qr_payload r = uri" "queue_enqueue db' i uri (Aware t) = Inr (db', False)"
    by (auto simp: queue_enqueue_def)
qed

text \<open>
  C12. One snapshot is one item: when the orchestrator hands over a work, the queue has the row of its observation,
  its payload loads to that very work at every later reading of the clock, and orchestrating the snapshot again
  yields the same work and changes neither the queue nor the store.
\<close>

theorem orchestrated_once:
  assumes "hex_digest sha" "make_producer_config raw = Inr pc" "make_directional_snapshot s = Inr s" "request_valid (ds_request s)"
    "dr_decision_at (ds_request s) = Aware d" "ds_produced_at s = Aware p" "instant_in_range d" "instant_in_range p"
    "orchestrate sha context pc dc db st s = ((db', st'), Inr (w, fresh))"
  shows "(\<exists>r. row_of db' (ds_observation_id s) = Some r \<and>
      (\<forall>now tolerance. p \<le> now \<and> 0 \<le> tolerance \<longrightarrow> store_load sha now tolerance st' (qr_payload r) = Inr w)) \<and>
    observe_args_ok (sw_meta w) (sw_proposals w) \<and>
    orchestrate sha context pc dc db' st' s = ((db', st'), Inr (w, False))"
proof -
  have facts: "\<not> blank (ds_observation_id s)" "\<not> blank (ds_candidate_id s)" "d \<le> p" "finite_positive (ds_equity s)"
    using assms(3,5,6) by (auto simp: make_directional_snapshot_def split: if_splits)
  then obtain equity where eq: "ds_equity s = Fin equity" "0 < equity" by auto
  obtain su where su: "evaluate_directional_setup (ds_request s) dc = Inr su" and ctx: "ds_context s = context"
    and lag: "\<not> dc_max_age dc < age_seconds p d"
    using assms(5,6,9) by (cases "evaluate_directional_setup (ds_request s) dc") (auto simp: orchestrate_def split: if_splits)
  let ?x = "\<lparr>ec_engine_id = ds_candidate_id s, ec_kind = DIRECTIONAL, ec_setup = su, ec_research_approved = ds_research_approved s\<rparr>"
  have orch: "orchestrate sha context pc dc db0 st0 s =
      produce sha pc db0 st0 (ds_observation_id s) [?x] (ds_portfolio s) (Aware d) (Aware p) (Fin equity)" for db0 st0
    using su ctx lag facts(2) assms(5,6) eq(1) by (simp add: orchestrate_def make_engine_candidate_def)
  have cand: "distinct (map ec_engine_id [?x])" "\<forall>x \<in> set [?x]. setup_valid (ec_setup x) \<and> \<not> blank (ec_engine_id x)"
    using directional_setup_valid [OF su assms(4)] facts(2) by simp_all
  obtain v where v: "produced_work pc (ds_observation_id s) [?x] (ds_portfolio s) (Aware d) (Aware p) (Fin equity) = Inr v"
    "sw_observation_id v = ds_observation_id s" "accepted_work (ds_portfolio s) d v"
    using produced_work_total [OF assms(2) cand facts(1) eq(2) facts(3) assms(7)] by blast
  have e: "enqueue_shadow_work sha db st v (Aware p) (Aware p) = ((db', st'), Inr fresh)" "v = w"
    using assms(9) v(1) by (auto simp: orch produce_def split: prod.splits sum.splits)
  obtain uri where u: "store_write sha st w (Aware p) = Inr (st', uri)" "queue_enqueue db (sw_observation_id w) uri (Aware p) = Inr (db', fresh)"
    using e by (auto simp: enqueue_shadow_work_def split: sum.splits)
  have valid: "work_valid w" using v(3) e(2) by (simp add: accepted_work_def)
  note kept = stored_work_kept [OF assms(1) valid assms(8) u(1)]
  have "store_load sha now tolerance st' uri = Inr w" if "p \<le> now" "0 \<le> tolerance" for now tolerance
  proof (rule kept(1))
    have "of_int (p - now) \<le> (0 :: rat)" using that(1) by simp
    then have "of_int (p - now) / 1000000 \<le> (0 :: rat)" by (simp add: divide_le_0_iff)
    with that(2) show "of_int (p - now) / 1000000 \<le> tolerance" by linarith
  qed
  moreover have "enqueue_shadow_work sha db' st' w (Aware p) (Aware p) = ((db', st'), Inr False)"
    using kept(2) enqueue_Inr(2) [OF u(2)] by (simp add: enqueue_shadow_work_def)
  moreover have "proposal_valid q \<Longrightarrow> proposal_ok q" for q by (auto simp: proposal_valid_def dest: make_entry_proposal_ok)
  then have "observe_args_ok (sw_meta w) (sw_proposals w)"
    using valid by (auto simp: work_valid_def meta_valid_def observe_args_ok_def list_all_iff)
  ultimately show ?thesis
    using enqueue_Inr(1) [OF u(2)] v e(2) by (auto simp: orch produce_def)
qed

section \<open>A concrete snapshot\<close>

definition demo_producer_config :: "'n \<Rightarrow> 'n producer_config" where
  "demo_producer_config risk = \<lparr>pc_risk = risk, pc_meta = demo_meta_config\<rparr>"

lemma demo_producer_config_ok: "make_producer_config (demo_producer_config (Fin (1 / 200))) = Inr (demo_producer_config (1 / 200))"
  by (simp add: make_producer_config_def demo_producer_config_def)

definition demo_snapshot :: directional_snapshot where
  "demo_snapshot =
     \<lparr>ds_schema_version = 1, ds_observation_id = ''obs-1'', ds_candidate_id = ''trend'', ds_context = demo_context,
      ds_request = demo_directional [1, 1, 1], ds_portfolio = demo_meta_portfolio\<lparr>mp_correlations := [\<lparr>cp_first = ''B'', cp_second = ''ETH'', cp_correlation = 1 / 2\<rparr>]\<rparr>,
      ds_research_approved = True, ds_equity = Fin 1000, ds_produced_at = Aware 0\<rparr>"

definition demo_candidate_of :: "directional_snapshot \<Rightarrow> engine_candidate list" where
  "demo_candidate_of s =
     (case evaluate_directional_setup (ds_request s) (demo_directional_config (1 / 4) (7 / 10) 30 0) of
        Inl _ \<Rightarrow> []
      | Inr setup \<Rightarrow> [\<lparr>ec_engine_id = ds_candidate_id s, ec_kind = DIRECTIONAL, ec_setup = setup,
                       ec_research_approved = ds_research_approved s\<rparr>])"

definition demo_produced :: "(setup_action \<times> (string \<times> rat) list) result" where
  "demo_produced =
     map_sum id (\<lambda>w. (md_action (sw_meta w), map (\<lambda>p. (ep_key p, ep_signed_notional p)) (sw_proposals w)))
       (produced_work (demo_producer_config (1 / 200)) ''obs-1'' (demo_candidate_of demo_snapshot) (ds_portfolio demo_snapshot)
         (Aware 0) (Aware 0) (Fin 1000))"

lemma demo_produced_value: "demo_produced = Inr (LONG, [(''obs-1:leg-0'', 50)])"
  by code_simp

lemma demo_snapshot_facts:
  "make_directional_snapshot demo_snapshot = Inr demo_snapshot" "request_valid (ds_request demo_snapshot)"
  "dr_decision_at (ds_request demo_snapshot) = Aware 0" "ds_produced_at demo_snapshot = Aware 0"
  "ds_observation_id demo_snapshot = ''obs-1''"
  by code_simp+

lemma demo_candidates_facts:
  "demo_candidate_of demo_snapshot \<noteq> []" "distinct (map ec_engine_id (demo_candidate_of demo_snapshot))"
  "list_all (\<lambda>x. setup_valid (ec_setup x) \<and> \<not> blank (ec_engine_id x)) (demo_candidate_of demo_snapshot)"
  by code_simp+

theorem produced_work_accepted_witness:
  "\<exists>w. produced_work (demo_producer_config (1 / 200)) ''obs-1'' (demo_candidate_of demo_snapshot) (ds_portfolio demo_snapshot)
      (Aware 0) (Aware 0) (Fin 1000) = Inr w \<and>
    md_action (sw_meta w) = LONG \<and> map ep_key (sw_proposals w) = [''obs-1:leg-0''] \<and>
    validate_actionable (sw_meta w) (sw_proposals w) = Inr ()"
proof -
  have c: "\<forall>x \<in> set (demo_candidate_of demo_snapshot). setup_valid (ec_setup x) \<and> \<not> blank (ec_engine_id x)"
    using demo_candidates_facts(3) by (simp only: list_all_iff)
  have i: "\<not> blank ''obs-1''" by code_simp
  obtain w where w: "produced_work (demo_producer_config (1 / 200)) ''obs-1'' (demo_candidate_of demo_snapshot)
      (ds_portfolio demo_snapshot) (Aware 0) (Aware 0) (Fin 1000) = Inr w"
    "if md_action (sw_meta w) = WAIT then sw_proposals w = [] else validate_actionable (sw_meta w) (sw_proposals w) = Inr ()"
    using produced_work_accepted [OF demo_producer_config_ok demo_candidates_facts(2) c i, of 1000 0 0 "ds_portfolio demo_snapshot"]
      instant_zero by auto
  have "md_action (sw_meta w) = LONG" "map ep_key (sw_proposals w) = [''obs-1:leg-0'']"
    using demo_produced_value w(1) by (auto simp: demo_produced_def)
  with w show ?thesis by auto
qed

lemma demo_orchestrated:
  obtains db st w fresh where "orchestrate flat_sha demo_context (demo_producer_config (1 / 200))
      (demo_directional_config (1 / 4) (7 / 10) 30 0) fresh_db (\<lambda>_. None) demo_snapshot = ((db, st), Inr (w, fresh))"
proof -
  let ?w = "produced_work (demo_producer_config (1 / 200)) ''obs-1'' (demo_candidate_of demo_snapshot) (ds_portfolio demo_snapshot)
      (Aware 0) (Aware 0) (Fin 1000)"
  have c: "\<forall>x \<in> set (demo_candidate_of demo_snapshot). setup_valid (ec_setup x) \<and> \<not> blank (ec_engine_id x)"
    using demo_candidates_facts(3) by (simp only: list_all_iff)
  have i: "\<not> blank ''obs-1''" "\<not> blank ''trend''" by code_simp+
  obtain w where w: "?w = Inr w" "sw_observation_id w = ''obs-1''" "work_valid w"
    using produced_work_total [OF demo_producer_config_ok demo_candidates_facts(2) c i(1), of 1000 0 0 "ds_portfolio demo_snapshot"]
      instant_zero by (auto simp: accepted_work_def)
  obtain su where su: "evaluate_directional_setup (ds_request demo_snapshot) (demo_directional_config (1 / 4) (7 / 10) 30 0) = Inr su"
    using demo_candidates_facts(1) by (auto simp: demo_candidate_of_def split: sum.splits)
  have uri: "build_uri ''obs-1'' = Inr ''shadow-work:obs-1''" "\<not> blank ''shadow-work:obs-1''" by code_simp+
  obtain payload where "work_json w = Inr payload"
    using w(3) by (auto simp: work_valid_def make_shadow_work_def work_json_def split: if_splits)
  then obtain st where "store_write flat_sha (\<lambda>_. None) w (Aware 0) = Inr (st, ''shadow-work:obs-1'')"
    using uri w(2) by (simp add: store_write_def)
  moreover obtain db where "queue_enqueue fresh_db ''obs-1'' ''shadow-work:obs-1'' (Aware 0) = Inr (db, True)"
    using i uri by (simp add: queue_enqueue_def row_of_def fresh_db_def)
  ultimately have "produce flat_sha (demo_producer_config (1 / 200)) fresh_db (\<lambda>_. None) ''obs-1'' (demo_candidate_of demo_snapshot)
      (ds_portfolio demo_snapshot) (Aware 0) (Aware 0) (Fin 1000) = ((db, st), Inr (w, True))"
    using w by (simp add: produce_def enqueue_shadow_work_def)
  moreover have "dc_max_age (demo_directional_config (1 / 4) (7 / 10) 30 0 :: rat directional_config) = 30"
    by (simp add: demo_directional_config_def)
  moreover have "ds_context demo_snapshot = demo_context" "ds_candidate_id demo_snapshot = ''trend''" "ds_equity demo_snapshot = Fin 1000"
    by (simp_all add: demo_snapshot_def)
  ultimately have "orchestrate flat_sha demo_context (demo_producer_config (1 / 200))
      (demo_directional_config (1 / 4) (7 / 10) 30 0) fresh_db (\<lambda>_. None) demo_snapshot = ((db, st), Inr (w, True))"
    using su i(2) by (simp add: orchestrate_def demo_snapshot_facts make_engine_candidate_def age_seconds_def demo_candidate_of_def)
  then show thesis by (rule that)
qed

theorem orchestrated_once_witness:
  "\<exists>db st w r. fst (orchestrate flat_sha demo_context (demo_producer_config (1 / 200)) (demo_directional_config (1 / 4) (7 / 10) 30 0)
      fresh_db (\<lambda>_. None) demo_snapshot) = (db, st) \<and>
    row_of db ''obs-1'' = Some r \<and> store_load flat_sha 0 5 st (qr_payload r) = Inr w"
proof -
  obtain db st w fresh where o: "orchestrate flat_sha demo_context (demo_producer_config (1 / 200))
      (demo_directional_config (1 / 4) (7 / 10) 30 0) fresh_db (\<lambda>_. None) demo_snapshot = ((db, st), Inr (w, fresh))"
    by (rule demo_orchestrated)
  obtain r where "row_of db ''obs-1'' = Some r"
    "\<forall>now tolerance. 0 \<le> now \<and> 0 \<le> tolerance \<longrightarrow> store_load flat_sha now tolerance st (qr_payload r) = Inr w"
    using orchestrated_once [OF flat_sha_hex demo_producer_config_ok demo_snapshot_facts(1-4) instant_zero instant_zero o]
    unfolding demo_snapshot_facts(5) by blast
  then have "row_of db ''obs-1'' = Some r \<and> store_load flat_sha 0 5 st (qr_payload r) = Inr w" by simp
  with o show ?thesis by (intro exI [of _ db] exI [of _ st] exI [of _ w] exI [of _ r]) simp
qed

end
