(* ===== verification/Spec2Isabelle.thy ===== *)
theory Spec2Isabelle
  imports Ordered_Merge Bybit_Replay Okx_Replay Deribit_Replay Binance_Replay Portfolio_Risk
    Risk_Engine Meta_Engine Demo_Guarantees Demo_Reconciler Session Cycle_Lock Promotion
    Shadow_Runtime Promotion_Gate Trial_Ledger Hypothesis_Queue Degradation Walk_Forward
    Dataset_Checks Robustness Research_Cycle Shadow_Producer
begin

text \<open>
  A verification library of the Greenfield trading system (Python, under \<open>src/\<close>): market data
  replay, the decision and risk engines, durable order state and the research control loop.
  Every definition is a translation of the named Python; every other theory opens with a text
  that names its files.

  \<^bold>\<open>The program.\<close> Collectors write raw venue messages to part files. \<open>ordered_merge.py\<close> merges
  the parts, per-venue replays rebuild the level-2 books and check the venues' sequence rules.
  Evidence engines turn features into setups (\<open>engines/contracts.py\<close>); \<open>engines/meta.py\<close>
  selects and sizes one; \<open>risk/portfolio_engine.py\<close> approves it against shared limits. The
  Demo executor is guarded by \<open>demo_autonomous_state.py\<close>, orders and fills are made durable
  by \<open>paper_reconciliation.py\<close> and reconciled with the exchange by
  \<open>demo_order_reconciler.py\<close>. Sessions run under \<open>supervisor.py\<close>. A SHADOW session decides
  without orders: \<open>shadow_loop.py\<close> takes work from a durable queue, \<open>shadow_runtime.py\<close> stages it
  on the risk engine, saves the state of the engine and appends to a journal of chained hashes. The
  research worker takes the cycle lock, and \<open>research/orchestrator.py\<close> runs the queued hypotheses
  through data checks, walk-forward windows, statistics and the promotion gate, writes the trial
  ledger and moves candidates through \<open>research/promotion.py\<close>; \<open>research/degradation.py\<close> retires
  them and holds the session.

  \<^bold>\<open>Common ground.\<close> \<open>Prelude\<close> has the result type (\<open>Inl\<close> an exception of the source's class,
  \<open>Inr\<close> a value) with its sequencing \<open>bindE\<close> and \<open>require\<close>, Python's \<open>strip\<close>, floats that
  reach a validator (\<open>num\<close>: a rational, an infinity or NaN, with the IEEE comparisons), decimals
  with their representation, naive and aware timestamps, and dictionaries as association lists in
  insertion order. \<open>Py_Float\<close> has the arithmetic of floats with NaN and infinities and \<open>sorted\<close> on
  them, which NaN can leave unsorted. \<open>Py_Json\<close> has decoded JSON values and the field readers the replays share,
  \<open>Canonical_Json\<close> the canonical form, checksums and readers of the stores, \<open>Py_Time\<close> ISO texts of
  dates and instants with their round trip and their order, \<open>Py_Format\<close> the texts of numbers.
  \<open>Lifecycle\<close> is a locale for stores of objects that move along the edges of a state machine;
  \<open>Daily_Ledger\<close> one for the loss ledgers that roll over at midnight; \<open>Sequence_Gate\<close> and
  \<open>L2_Book\<close> state the contract between a venue's sequence gate and the book it guards. Every
  locale is interpreted on the definitions of the code in the theory of the component.

  \<^bold>\<open>Market data.\<close> \<open>Ordered_Merge\<close> (\<open>data/ordered_merge.py\<close>), \<open>Order_Book\<close> and
  \<open>L2_Book\<close> (\<open>orderbook_state.py\<close> and the loops the replays share), \<open>Bybit_Replay\<close>,
  \<open>Okx_Replay\<close>, \<open>Deribit_Replay\<close>, \<open>Binance_Replay\<close>: the merge loses and reorders nothing,
  a replayed book is the specification's book of contiguous updates, and a report counts what was
  read.

  \<^bold>\<open>Decisions and risk.\<close> \<open>Setup_Contracts\<close>, \<open>Meta_Engine\<close>, \<open>Portfolio_Risk\<close>,
  \<open>Risk_Engine\<close>, \<open>Evidence_Engines\<close> (\<open>engines/directional.py\<close>, \<open>engines/neutral.py\<close>): a setup
  is LONG or SHORT exactly on the votes of its families, a neutral trade survives the worst of its
  ranges, validated objects satisfy their invariant, the selected setup is the best
  eligible one with an allocation within every limit, an approved entry stays within every
  portfolio limit, losses stop entries. \<open>Portfolio_Risk\<close> also reads a run as a list of events, and
  shows that the engine's state is the books of these events and each of them was lawful.

  \<^bold>\<open>Execution.\<close> \<open>Demo_Risk\<close>, \<open>Demo_State\<close> and \<open>Demo_Guarantees\<close> (sizing and the durable
  state of the autonomous Demo trader), \<open>Paper_Orders\<close>, \<open>Paper_Guarantees\<close> and
  \<open>Demo_Reconciler\<close>: at most one active trade, frozen terminal states, idempotent retries,
  fills applied once, and the stored position as a refinement of average-cost accounts of the
  fills. \<open>Session\<close>: the LIVE gate and the supervisor's bounded restarts.

  \<^bold>\<open>Shadow sessions.\<close> \<open>Risk_State_Store\<close> (\<open>risk/portfolio_state_store.py\<close>), \<open>Shadow_Journal\<close>
  and \<open>Shadow_Runtime\<close> (\<open>execution/shadow_runtime.py\<close>), \<open>Shadow_Loop\<close>: state and journal read back
  what was written and reveal tampering, an eligible observation is saved and recorded together, a
  restart agrees with the session it continues, a hold stays on; the queue is drained within the
  allowed attempts, finished work is in the journal exactly once in spite of crashes, and the text
  comparisons of its queries are comparisons of time.
  \<open>Shadow_Store\<close> (\<open>execution/shadow_store.py\<close>) and \<open>Shadow_Producer\<close>
  (\<open>execution/shadow_producer.py\<close>, \<open>execution/shadow_orchestrator.py\<close>) are the way into the queue:
  the store gives back the work it was given, and what the producer hands over passes the checks of
  the runtime.

  \<^bold>\<open>Research.\<close> \<open>Cycle_Lock\<close> interleaves the system calls of several processes on the lock
  file; \<open>Promotion\<close> is the registry of champions and challengers with its history.
  \<open>Research_Protocol\<close>, \<open>Hypothesis_Queue\<close>, \<open>Dataset_Checks\<close>, \<open>Walk_Forward\<close>,
  \<open>Backtest_Trades\<close>, \<open>Robustness\<close>, \<open>Promotion_Gate\<close> and \<open>Trial_Ledger\<close> are the stages of a
  cycle, \<open>Research_Cycle\<close> the cycle composed of them, \<open>Degradation\<close> the watch over what it
  selected: the queue is a prefix of the plan, no fold looks ahead, every trial is counted, and what
  a cycle selects has passed the gate with evidence that was measured on its own runs. Candles
  and the evidence of the gate are floats with NaN: the properties of \<open>Dataset_Checks\<close> and
  \<open>Promotion_Gate\<close> say what the checks make of missing values.

  \<^bold>\<open>Arguments.\<close> SHA-256 is a function of canonical values whose digests have 64 ASCII characters,
  without collisions where a theorem says so. The loader of shadow work, the backtest engine, the
  deflated Sharpe ratio, random draws, clocks, texts of floats and of exceptions are arguments too.

  \<^bold>\<open>Bounds and fuel.\<close> No definition uses fuel. The supervisor's loop ends because its restart
  counter grows towards the configured maximum; the merge because the queue of unread rows shrinks;
  the searches for the year and the month of a day and the generation of windows because the days
  that are left shrink. The shadow loop runs as long as there are readings of the clock, a list.

  \<^bold>\<open>What the model leaves out.\<close> Binary floats and \<open>Decimal\<close> contexts do not round: a
  finite number is an exact rational (the overflow of an integer that is read as a float is
  modelled). \<open>sorted\<close> is CPython's for lists shorter than 64; a longer list of fold returns is sorted
  the same way if it has no NaN. A SQLite transaction is one step of the state, and an
  exception leaves the state as the transaction found it. Strings are sequences of bytes;
  \<open>strip\<close> and \<open>upper\<close> are those of the ASCII range. File systems, sockets, Parquet, pandas, NautilusTrader and
  the clock are not modelled; what the code takes from them (rows, reports, the time, a digest)
  is an argument. Texts of exceptions are abridged, their classes are kept.

  \<^bold>\<open>Not modelled.\<close> Collectors and venue clients, columnar storage, normalized events, ingestion
  jobs, acceptance tooling, features and regimes, the builders of family evidence, machine learning,
  the backtest engine and portfolio aggregation, strategies, the health file of the shadow loop and
  the service around it, the probes, report files, monitoring and the scripts: network and file I/O
  around the modelled parts, or floating-point computations whose logic is in the libraries they
  call. A crash is modelled between the operations of the stores, not inside one of them.
\<close>

end
